(* ===== verification/Prelude.thy ===== *)
theory Prelude
  imports Main "HOL-Library.AList" "HOL-Library.Char_ord" "HOL-Library.List_Lexorder"
    "HOL-Library.Sublist" "HOL-Library.Word"
begin

text \<open>
  Shared vocabulary of the development: the errors the simulators throw, results as sums, the
  parts of the JavaScript standard library the sources call (string scanning, \<open>parseInt\<close>, number
  printing, base64 of \<open>Buffer\<close>, \<open>encodeURIComponent\<close> and \<open>decodeURIComponent\<close>), and the lemmas
  on lists, keyed tables and strings that every component uses.

  A JavaScript string is the list of the bytes of its UTF-8 encoding. The order of SQLite's
  \<open>ORDER BY\<close> on a text column (\<open>memcmp\<close>) is then the lexicographic order on \<^typ>\<open>string\<close>, and
  \<open>Buffer.byteLength\<close> is \<^const>\<open>length\<close>. Byte arrays are \<^typ>\<open>8 word list\<close>.
\<close>

named_theorems js_simps \<open>unfolding rules for the modelled JavaScript library functions\<close>
named_theorems table_simps \<open>facts about tables with a primary key\<close>

type_synonym bytes = "8 word list"
type_synonym json_text = string

subsection \<open>Errors and results\<close>

text \<open>
  What a handler may throw: an \<open>HttpError\<close> with its status code and message, a failed
  \<open>assert\<close>, the \<open>AbortError\<close> of an aborted signal, a \<open>URIError\<close>, a \<open>SyntaxError\<close> of \<open>JSON.parse\<close>,
  a \<open>TypeError\<close> or \<open>RangeError\<close> of the runtime, a violated constraint of the database,
  the \<open>ZodError\<close> of a schema that does not match, and the \<open>CacheError\<close> of the cache, an \<open>HttpError\<close>
  with the headers of its response.
\<close>

datatype error =
    HttpError nat string
  | AssertionError
  | AbortError
  | URIError
  | SyntaxError
  | TypeError
  | RangeError
  | SqlError
  | ZodError
  | CacheError nat string "(string \<times> string) list"

type_synonym 'a res = "error + 'a"

definition andThen :: "'e + 'a \<Rightarrow> ('a \<Rightarrow> 'e + 'b) \<Rightarrow> 'e + 'b" where
  "andThen r f = (case r of Inl e \<Rightarrow> Inl e | Inr a \<Rightarrow> f a)"

lemma andThen_simps [simp]:
  "andThen (Inl e) f = Inl e"
  "andThen (Inr a) f = f a"
  by (simp_all add: andThen_def)

lemma andThen_eq_Inr [simp]:
  "andThen r f = Inr b \<longleftrightarrow> (\<exists>a. r = Inr a \<and> f a = Inr b)"
  by (cases r) auto

lemma andThen_eq_Inl:
  "andThen r f = Inl e \<longleftrightarrow> r = Inl e \<or> (\<exists>a. r = Inr a \<and> f a = Inl e)"
  by (cases r) auto

definition check :: "bool \<Rightarrow> 'e \<Rightarrow> 'e + unit" where
  "check b e = (if b then Inr () else Inl e)"

lemma check_simps [simp]:
  "check b e = Inr u \<longleftrightarrow> b"
  "check b e = Inl e' \<longleftrightarrow> \<not> b \<and> e' = e"
  "check True e = Inr ()"
  "check False e = Inl e"
  by (auto simp: check_def)

subsection \<open>Requests\<close>

text \<open>\<open>JSON.parse\<close> and \<open>JSON.stringify\<close> where the program treats the value as opaque.\<close>

record 'm json_codec =
  json_parse :: "json_text \<Rightarrow> 'm option"
  json_stringify :: "'m \<Rightarrow> json_text"

type_synonym query = "(string \<times> string) list"
type_synonym headers = "(string \<times> string) list"

text \<open>\<open>URLSearchParams.get\<close> and \<open>Headers.get\<close> with the name as the source spells it.\<close>

abbreviation param :: "query \<Rightarrow> string \<Rightarrow> string option" where
  "param q name \<equiv> map_of q name"

subsection \<open>Characters and strings\<close>

definition is_digit :: "char \<Rightarrow> bool" where
  "is_digit c \<longleftrightarrow> CHR ''0'' \<le> c \<and> c \<le> CHR ''9''"

definition digit_val :: "char \<Rightarrow> nat" where
  "digit_val c = of_char c - 48"

definition is_upper :: "char \<Rightarrow> bool" where
  "is_upper c \<longleftrightarrow> CHR ''A'' \<le> c \<and> c \<le> CHR ''Z''"

definition is_lower :: "char \<Rightarrow> bool" where
  "is_lower c \<longleftrightarrow> CHR ''a'' \<le> c \<and> c \<le> CHR ''z''"

definition lower_char :: "char \<Rightarrow> char" where
  "lower_char c = (if is_upper c then char_of (of_char c + 32 :: nat) else c)"

text \<open>\<open>String.prototype.toLowerCase\<close>, on the ASCII letters.\<close>

definition toLowerCase :: "string \<Rightarrow> string" where
  "toLowerCase = map lower_char"

lemma toLowerCase_idem [simp]: "toLowerCase (toLowerCase s) = toLowerCase s"
  by (auto simp: toLowerCase_def lower_char_def is_upper_def less_eq_char_def of_char_of)

text \<open>The white space \<open>String.prototype.trim\<close> strips, among the ASCII characters.\<close>

definition is_space :: "char \<Rightarrow> bool" where
  "is_space c \<longleftrightarrow> c = CHR '' '' \<or> (CHR 0x09 \<le> c \<and> c \<le> CHR 0x0D)"

definition trimStart :: "string \<Rightarrow> string" where
  "trimStart = dropWhile is_space"

definition trimEnd :: "string \<Rightarrow> string" where
  "trimEnd s = rev (dropWhile is_space (rev s))"

definition trim :: "string \<Rightarrow> string" where
  "trim s = trimEnd (trimStart s)"

definition startsWith :: "string \<Rightarrow> string \<Rightarrow> bool" where
  "startsWith s p \<longleftrightarrow> take (length p) s = p"

definition endsWith :: "string \<Rightarrow> string \<Rightarrow> bool" where
  "endsWith s p \<longleftrightarrow> startsWith (rev s) (rev p)"

lemma startsWith_iff_prefix: "startsWith s p \<longleftrightarrow> prefix p s"
  by (metis append_eq_conv_conj prefixE prefixI startsWith_def append_take_drop_id)

lemma endsWith_iff_suffix: "endsWith s p \<longleftrightarrow> suffix p s"
  by (simp add: endsWith_def startsWith_iff_prefix suffix_to_prefix)

lemma startsWith_append [simp]: "startsWith (p @ s) p"
  by (simp add: startsWith_def)

lemma startsWith_Nil [simp]: "startsWith s []"
  by (simp add: startsWith_def)

text \<open>\<open>String.prototype.includes\<close>.\<close>

fun js_includes :: "string \<Rightarrow> string \<Rightarrow> bool" where
  "js_includes [] p = (p = [])"
| "js_includes (c # s) p = (startsWith (c # s) p \<or> js_includes s p)"

text \<open>\<open>split\<close> at a one-character separator: always at least one piece.\<close>

fun split_on :: "char \<Rightarrow> string \<Rightarrow> string list" where
  "split_on d [] = [[]]"
| "split_on d (c # s) =
     (if c = d then [] # split_on d s
      else (case split_on d s of [] \<Rightarrow> [[c]] | w # ws \<Rightarrow> (c # w) # ws))"

fun join_with :: "string \<Rightarrow> string list \<Rightarrow> string" where
  "join_with d [] = []"
| "join_with d [w] = w"
| "join_with d (w # ws) = w @ d @ join_with d ws"

lemma split_on_ne [simp]: "split_on d s \<noteq> []"
  by (induction s) (auto split: list.splits)

lemma join_with_Cons: "ws \<noteq> [] \<Longrightarrow> join_with d (w # ws) = w @ d @ join_with d ws"
  by (cases ws) auto

lemma join_split_on: "join_with [d] (split_on d s) = s"
proof (induction s)
  case Nil
  then show ?case by simp
next
  case (Cons c s)
  obtain w ws where w: "split_on d s = w # ws"
    by (cases "split_on d s") auto
  show ?case
  proof (cases "c = d")
    case True
    with Cons w show ?thesis by (simp add: join_with_Cons)
  next
    case False
    with Cons w show ?thesis by (cases ws) auto
  qed
qed

lemma split_on_no_sep: "w \<in> set (split_on d s) \<Longrightarrow> d \<notin> set w"
  by (induction s arbitrary: w) (auto split: list.splits if_splits)

lemma split_on_append_sep: "split_on d (s @ d # t) = split_on d s @ split_on d t"
  by (induction s) (auto split: list.splits)

lemma split_on_join:
  assumes "ws \<noteq> []" "\<And>w. w \<in> set ws \<Longrightarrow> d \<notin> set w"
  shows "split_on d (join_with [d] ws) = ws"
  using assms
proof (induction ws rule: induct_list012)
  case (2 w)
  have "d \<notin> set w \<Longrightarrow> split_on d w = [w]" for w
    by (induction w) auto
  with 2 show ?case by simp
next
  case (3 v w ws)
  have single: "d \<notin> set v \<Longrightarrow> split_on d v = [v]" for v
    by (induction v) auto
  from 3 show ?case by (simp add: split_on_append_sep single)
qed simp

lemma Nil_less: "s \<noteq> [] \<Longrightarrow> [] < (s :: 'a :: linorder list)"
  by (cases s) (auto simp: list_less_def lexord_def)

subsection \<open>Numbers in decimal\<close>

definition digit_char :: "nat \<Rightarrow> char" where
  "digit_char n = char_of (48 + n)"

fun show_nat :: "nat \<Rightarrow> string" where
  "show_nat n = (if n < 10 then [digit_char n] else show_nat (n div 10) @ [digit_char (n mod 10)])"

declare show_nat.simps [simp del]

definition show_int :: "int \<Rightarrow> string" where
  "show_int i = (if i < 0 then CHR ''-'' # show_nat (nat (- i)) else show_nat (nat i))"

definition digits_val :: "string \<Rightarrow> nat" where
  "digits_val s = foldl (\<lambda>a c. 10 * a + digit_val c) 0 s"

lemma digit_char_range: "n < 10 \<Longrightarrow> is_digit (digit_char n)"
  by (auto simp: is_digit_def digit_char_def less_eq_char_def of_char_of)

lemma digit_val_char [simp]: "n < 10 \<Longrightarrow> digit_val (digit_char n) = n"
  by (simp add: digit_char_def digit_val_def of_char_of)

lemma show_nat_digits: "c \<in> set (show_nat n) \<Longrightarrow> is_digit c"
proof (induction n rule: show_nat.induct)
  case (1 n)
  then show ?case
    by (subst (asm) (2) show_nat.simps) (auto split: if_splits simp: digit_char_range)
qed

lemma show_nat_ne [simp]: "show_nat n \<noteq> []"
  by (subst show_nat.simps) simp

lemma digits_val_show [simp]: "digits_val (show_nat n) = n"
proof (induction n rule: show_nat.induct)
  case (1 n)
  show ?case
  proof (cases "n < 10")
    case True
    then show ?thesis by (subst show_nat.simps) (simp add: digits_val_def)
  next
    case False
    then have "digits_val (show_nat n) = 10 * digits_val (show_nat (n div 10)) + n mod 10"
      by (subst show_nat.simps) (simp add: digits_val_def)
    with 1 False show ?thesis by simp
  qed
qed

text \<open>
  \<open>parseInt(s)\<close> without a radix: leading white space and a sign are skipped, \<open>0x\<close> selects
  hexadecimal, the longest run of digits counts and the rest is ignored; no digit is \<open>NaN\<close>,
  here \<^const>\<open>None\<close>. The result is the exact integer (the sources pass sizes, counts and times
  below \<open>2^53\<close>).
\<close>

definition hex_val :: "char \<Rightarrow> nat option" where
  "hex_val c =
     (if is_digit c then Some (digit_val c)
      else if CHR ''a'' \<le> c \<and> c \<le> CHR ''f'' then Some (of_char c - 87)
      else if CHR ''A'' \<le> c \<and> c \<le> CHR ''F'' then Some (of_char c - 55)
      else None)"

definition parse_unsigned :: "string \<Rightarrow> nat option" where
  "parse_unsigned s =
     (if take 2 s = ''0x'' \<or> take 2 s = ''0X'' then
        (let h = takeWhile (\<lambda>c. hex_val c \<noteq> None) (drop 2 s)
         in if h = [] then None else Some (foldl (\<lambda>a c. 16 * a + the (hex_val c)) 0 h))
      else
        (let ds = takeWhile is_digit s
         in if ds = [] then None else Some (digits_val ds)))"

definition parseInt :: "string \<Rightarrow> int option" where
  "parseInt s =
     (case trimStart s of
        [] \<Rightarrow> None
      | c # cs \<Rightarrow>
          if c = CHR ''-'' then map_option (\<lambda>n. - int n) (parse_unsigned cs)
          else if c = CHR ''+'' then map_option int (parse_unsigned cs)
          else map_option int (parse_unsigned (c # cs)))"

text \<open>\<open>parseInt\<close> of an absent header value (\<open>null\<close>) is \<open>NaN\<close>.\<close>

definition parseInt_opt :: "string option \<Rightarrow> int option" where
  "parseInt_opt s = Option.bind s parseInt"

lemma parse_unsigned_show [simp]: "parse_unsigned (show_nat n) = Some n"
proof -
  have all: "takeWhile is_digit (show_nat n) = show_nat n"
    by (rule takeWhile_eq_all_conv [THEN iffD2]) (use show_nat_digits in blast)
  have "take 2 (show_nat n) \<noteq> ''0x'' \<and> take 2 (show_nat n) \<noteq> ''0X''"
  proof -
    have "CHR ''x'' \<notin> set (take 2 (show_nat n))" "CHR ''X'' \<notin> set (take 2 (show_nat n))"
      using show_nat_digits [of _ n] by (force dest: in_set_takeD simp: is_digit_def less_eq_char_def)+
    then show ?thesis by auto
  qed
  then show ?thesis by (simp add: parse_unsigned_def Let_def all del: takeWhile_eq_all_conv)
qed

lemma parseInt_show_int [simp]: "parseInt (show_int i) = Some i"
proof -
  obtain c cs where s: "show_nat (nat \<bar>i\<bar>) = c # cs"
    by (cases "show_nat (nat \<bar>i\<bar>)") auto
  then have "is_digit c" using show_nat_digits [of c "nat \<bar>i\<bar>"] by simp
  then have c: "\<not> is_space c" "c \<noteq> CHR ''-''" "c \<noteq> CHR ''+''"
    by (auto simp: is_digit_def is_space_def less_eq_char_def)
  have "parse_unsigned (c # cs) = Some (nat \<bar>i\<bar>)"
    using parse_unsigned_show [of "nat \<bar>i\<bar>"] s by simp
  with s c show ?thesis
    by (cases "i < 0") (auto simp: parseInt_def show_int_def trimStart_def is_space_def abs_if)
qed

subsection \<open>Tables with a primary key\<close>

text \<open>
  A table is the list of its rows and \<open>k\<close> reads the primary key. Looking a key up is \<^const>\<open>find\<close>,
  deleting it is \<^const>\<open>filter\<close>, replacing it is deleting and appending.
\<close>

lemma find_append [table_simps]:
  "find P (xs @ ys) = (case find P xs of None \<Rightarrow> find P ys | Some x \<Rightarrow> Some x)"
  by (induction xs) auto

lemma find_delete_key [table_simps]:
  "find (\<lambda>r. k r = key) (filter (\<lambda>r. k r \<noteq> key') rows) =
     (if key = key' then None else find (\<lambda>r. k r = key) rows)"
  by (induction rows) auto

lemma find_filter_Some:
  "find (\<lambda>r. k r = key) rows = Some r \<Longrightarrow> Q r \<Longrightarrow> find (\<lambda>r. k r = key) (filter Q rows) = Some r"
  by (induction rows) (auto split: if_splits)

lemma find_filter_None:
  "find (\<lambda>r. k r = key) rows = None \<Longrightarrow> find (\<lambda>r. k r = key) (filter Q rows) = None"
  by (induction rows) (auto split: if_splits)

lemma find_filter_dropped:
  assumes "distinct (map k rows)" "find (\<lambda>r. k r = key) rows = Some r" "\<not> Q r"
  shows "find (\<lambda>r. k r = key) (filter Q rows) = None"
proof -
  have "x = r" if "x \<in> set rows" "k x = key" for x
  proof -
    from assms(2) have "r \<in> set rows" "k r = key"
      by (auto simp: find_Some_iff)
    with assms(1) that show ?thesis by (auto simp: distinct_map dest: inj_onD)
  qed
  with assms(3) show ?thesis by (auto simp: find_None_iff)
qed

lemma find_key_mem: "find (\<lambda>r. k r = key) rows = Some r \<Longrightarrow> r \<in> set rows \<and> k r = key"
  by (auto simp: find_Some_iff)

lemma find_key_iff:
  "distinct (map k rows) \<Longrightarrow> find (\<lambda>r. k r = key) rows = Some r \<longleftrightarrow> r \<in> set rows \<and> k r = key"
proof
  assume d: "distinct (map k rows)" and r: "r \<in> set rows \<and> k r = key"
  then obtain r' where r': "find (\<lambda>r. k r = key) rows = Some r'"
    by (cases "find (\<lambda>r. k r = key) rows") (auto simp: find_None_iff)
  then have "r' \<in> set rows" "k r' = key" by (auto dest: find_key_mem)
  with d r have "r' = r" by (auto simp: distinct_map dest: inj_onD)
  with r' show "find (\<lambda>r. k r = key) rows = Some r" by simp
qed (rule find_key_mem)

lemma distinct_map_filter_snoc:
  "distinct (map k rows) \<Longrightarrow> distinct (map k (filter (\<lambda>r. k r \<noteq> k x) rows @ [x]))"
  by (auto simp: distinct_map_filter)

lemma filter_key_find:
  "distinct (map k rows) \<Longrightarrow>
     filter (\<lambda>r. k r = key) rows = (case find (\<lambda>r. k r = key) rows of None \<Rightarrow> [] | Some r \<Rightarrow> [r])"
proof (induction rows)
  case (Cons x rows)
  show ?case
  proof (cases "k x = key")
    case True
    with Cons.prems have "key \<notin> k ` set rows" by simp
    then have "filter (\<lambda>r. k r = key) rows = []" unfolding filter_empty_conv by (metis image_eqI)
    with True show ?thesis by simp
  next
    case False
    with Cons show ?thesis by simp
  qed
qed simp

text \<open>In a strictly sorted table the rows after the \<open>n\<close>-th key are the rows from position \<open>n\<close> on.\<close>

lemma strictly_sorted_filter_drop:
  assumes "sorted (map k L)" "distinct (map k L)" "0 < n" "n < length L"
  shows "filter (\<lambda>r. k r > k (L ! (n - 1))) L = drop n L"
proof -
  have s: "sorted_wrt (<) (map k L)" using assms(1,2) by (simp only: strict_sorted_iff)
  have less: "k (L ! i) < k (L ! j)" if "i < j" "j < length L" for i j
    using s that by (simp add: sorted_wrt_iff_nth_less)
  have "filter (\<lambda>r. k r > k (L ! (n - 1))) (take n L) = []"
  proof -
    have "\<not> k (L ! (n - 1)) < k (L ! i)" if "i < n" for i
    proof (cases "i = n - 1")
      case False
      with that assms(3,4) have "k (L ! i) < k (L ! (n - 1))" by (intro less) auto
      then show ?thesis by (rule less_not_sym)
    qed simp
    then show ?thesis by (auto simp: filter_empty_conv in_set_conv_nth simp del: not_less)
  qed
  moreover have "filter (\<lambda>r. k r > k (L ! (n - 1))) (drop n L) = drop n L"
  proof (rule filter_True, rule ballI)
    fix x
    assume "x \<in> set (drop n L)"
    then obtain i where "i < length L - n" "x = L ! (n + i)" by (auto simp: in_set_conv_nth)
    with less [of "n - 1" "n + i"] assms(3) show "k x > k (L ! (n - 1))" by simp
  qed
  moreover have "filter (\<lambda>r. k r > k (L ! (n - 1))) L =
      filter (\<lambda>r. k r > k (L ! (n - 1))) (take n L @ drop n L)"
    by simp
  ultimately show ?thesis by (simp only: filter_append append_Nil)
qed

subsection \<open>Sorting with a comparison function\<close>

text \<open>
  \<open>Array.prototype.sort(compare)\<close>, a stable sort. Insertion sort gives the one result the language
  prescribes when \<open>compare\<close> is a consistent comparison.
\<close>

fun js_insert :: "('a \<Rightarrow> 'a \<Rightarrow> int) \<Rightarrow> 'a \<Rightarrow> 'a list \<Rightarrow> 'a list" where
  "js_insert cmp x [] = [x]"
| "js_insert cmp x (y # ys) = (if cmp x y \<le> 0 then x # y # ys else y # js_insert cmp x ys)"

definition js_sort :: "('a \<Rightarrow> 'a \<Rightarrow> int) \<Rightarrow> 'a list \<Rightarrow> 'a list" where
  "js_sort cmp xs = foldr (js_insert cmp) xs []"

lemma js_insert_insort:
  "(\<And>x y. cmp x y \<le> 0 \<longleftrightarrow> k x \<le> k y) \<Longrightarrow> js_insert cmp x ys = insort_key k x ys"
  by (induction ys) auto

lemma js_sort_sort_key:
  assumes "\<And>x y. cmp x y \<le> 0 \<longleftrightarrow> k x \<le> (k y :: 'b :: linorder)"
  shows "js_sort cmp xs = sort_key k xs"
  unfolding js_sort_def sort_key_def using js_insert_insort [of cmp k, OF assms] by (induction xs) auto

lemma set_js_insert [simp]: "set (js_insert cmp x ys) = insert x (set ys)"
  by (induction ys) auto

lemma set_js_sort [simp]: "set (js_sort cmp xs) = set xs"
  unfolding js_sort_def by (induction xs) auto

lemma length_js_insert [simp]: "length (js_insert cmp x ys) = Suc (length ys)"
  by (induction ys) auto

lemma js_insert_distinct: "distinct (map f (js_insert cmp x ys)) \<longleftrightarrow> distinct (map f (x # ys))"
  by (induction ys) auto

lemma js_sort_distinct: "distinct (map f (js_sort cmp xs)) \<longleftrightarrow> distinct (map f xs)"
proof (induction xs)
  case (Cons x xs)
  have "set (map f (js_sort cmp xs)) = set (map f xs)" by simp
  then show ?case using Cons by (simp add: js_sort_def js_insert_distinct)
qed (simp add: js_sort_def)

locale comparator =
  fixes cmp :: "'a \<Rightarrow> 'a \<Rightarrow> int"
  assumes cmp_total: "cmp x y \<le> 0 \<or> cmp y x \<le> 0"
    and cmp_trans: "cmp x y \<le> 0 \<Longrightarrow> cmp y z \<le> 0 \<Longrightarrow> cmp x z \<le> 0"
begin

lemma js_insert_sorted:
  "sorted_wrt (\<lambda>x y. cmp x y \<le> 0) ys \<Longrightarrow> sorted_wrt (\<lambda>x y. cmp x y \<le> 0) (js_insert cmp x ys)"
  by (induction ys) (use cmp_total cmp_trans in \<open>auto intro: cmp_trans\<close>)

lemma js_sort_sorted: "sorted_wrt (\<lambda>x y. cmp x y \<le> 0) (js_sort cmp xs)"
  unfolding js_sort_def by (induction xs) (auto intro: js_insert_sorted)

end

end
