(* ===== verification/Encoding.thy ===== *)
theory Encoding
  imports Prelude
begin

text \<open>
  The text encodings the sources take from the JavaScript library: base64 as written and read by
  \<open>Buffer\<close> (list cursors), and \<open>encodeURIComponent\<close> and \<open>decodeURIComponent\<close> (KV keys, Workers Sites
  keys, asset paths), each with its round trip. Hexadecimal printing of bytes is here too.
\<close>

subsection \<open>Base64\<close>

definition b64_alphabet :: string where
  "b64_alphabet = ''ABCDEFGHIJKLMNOPQRSTUVWXYZabcdefghijklmnopqrstuvwxyz0123456789+/''"

definition b64_char :: "nat \<Rightarrow> char" where
  "b64_char n = b64_alphabet ! n"

text \<open>Reading accepts the URL-safe letters as well; anything else is skipped.\<close>

definition b64_val :: "char \<Rightarrow> nat option" where
  "b64_val c =
     (if is_upper c then Some (of_char c - 65)
      else if is_lower c then Some (of_char c - 71)
      else if is_digit c then Some (of_char c + 4)
      else if c = CHR ''+'' \<or> c = CHR ''-'' then Some 62
      else if c = CHR ''/'' \<or> c = CHR ''_'' then Some 63
      else None)"

fun b64_pack :: "nat list \<Rightarrow> string" where
  "b64_pack [] = []"
| "b64_pack [a] = [b64_char (a div 4), b64_char ((a mod 4) * 16), CHR ''='', CHR ''='']"
| "b64_pack [a, b] =
     [b64_char (a div 4), b64_char ((a mod 4) * 16 + b div 16), b64_char ((b mod 16) * 4), CHR ''='']"
| "b64_pack (a # b # c # r) =
     b64_char (a div 4) # b64_char ((a mod 4) * 16 + b div 16)
       # b64_char ((b mod 16) * 4 + c div 64) # b64_char (c mod 64) # b64_pack r"

fun b64_unpack :: "nat list \<Rightarrow> nat list" where
  "b64_unpack (a # b # c # d # r) =
     (a * 4 + b div 16) # ((b mod 16) * 16 + c div 4) # ((c mod 4) * 64 + d) # b64_unpack r"
| "b64_unpack [a, b, c] = [a * 4 + b div 16, (b mod 16) * 16 + c div 4]"
| "b64_unpack [a, b] = [a * 4 + b div 16]"
| "b64_unpack [a] = []"
| "b64_unpack [] = []"

definition base64Encode :: "string \<Rightarrow> string" where
  "base64Encode s = b64_pack (map of_char s)"

definition base64Decode :: "string \<Rightarrow> string" where
  "base64Decode s = map char_of (b64_unpack (List.map_filter b64_val s))"

lemma b64_val_char: "n < 64 \<Longrightarrow> b64_val (b64_char n) = Some n"
proof -
  have "\<forall>n \<in> set [0..<64]. b64_val (b64_char n) = Some n"
    by code_simp
  then show "n < 64 \<Longrightarrow> b64_val (b64_char n) = Some n" by simp
qed

lemma b64_val_pad [simp]: "b64_val CHR ''='' = None"
  by code_simp

lemma b64_group:
  fixes a b c :: nat
  assumes "a < 256" "b < 256" "c < 256"
  shows "a div 4 < 64" "(a mod 4) * 16 + b div 16 < 64" "(b mod 16) * 4 + c div 64 < 64"
    "a div 4 * 4 + ((a mod 4) * 16 + b div 16) div 16 = a"
    "(((a mod 4) * 16 + b div 16) mod 16) * 16 + ((b mod 16) * 4 + c div 64) div 4 = b"
    "(((b mod 16) * 4 + c div 64) mod 4) * 64 + c mod 64 = c"
proof -
  have q: "b div 16 < 16" "c div 64 < 4" "b mod 16 < 16" "a mod 4 < 4"
    using assms by (simp_all add: less_mult_imp_div_less)
  show "a div 4 < 64" using assms by (simp add: less_mult_imp_div_less)
  show "(a mod 4) * 16 + b div 16 < 64" "(b mod 16) * 4 + c div 64 < 64"
    using q by linarith+
  show "a div 4 * 4 + ((a mod 4) * 16 + b div 16) div 16 = a"
    "(((a mod 4) * 16 + b div 16) mod 16) * 16 + ((b mod 16) * 4 + c div 64) div 4 = b"
    "(((b mod 16) * 4 + c div 64) mod 4) * 64 + c mod 64 = c"
    using q by simp_all
qed

lemma b64_unpack_pack:
  "\<forall>x \<in> set xs. x < 256 \<Longrightarrow> b64_unpack (List.map_filter b64_val (b64_pack xs)) = xs"
proof (induction xs rule: b64_pack.induct)
  case 1
  then show ?case by (simp add: List.map_filter_def)
next
  case (2 a)
  then show ?case
    using b64_group [of a 0 0] by (simp add: List.map_filter_def b64_val_char)
next
  case (3 a b)
  then show ?case
    using b64_group [of a b 0] by (simp add: List.map_filter_def b64_val_char)
next
  case (4 a b c r)
  then show ?case
    using b64_group [of a b c]
    by (simp add: List.map_filter_simps b64_val_char del: div_mult_self3 div_mult_self4
        mod_mult_self3 mod_mult_self4)
qed

lemma base64Decode_Encode [simp]: "base64Decode (base64Encode s) = s"
proof -
  have "\<forall>x \<in> set (map of_char s). x < (256::nat)" by auto
  then show ?thesis
    by (simp add: base64Decode_def base64Encode_def b64_unpack_pack comp_def)
qed

subsection \<open>Hexadecimal\<close>

definition hex_alphabet :: string where
  "hex_alphabet = ''0123456789abcdef''"

definition hex_digit :: "nat \<Rightarrow> char" where
  "hex_digit n = hex_alphabet ! n"

lemma hex_digit_in: "n < 16 \<Longrightarrow> hex_digit n \<in> set hex_alphabet"
  unfolding hex_digit_def by (rule nth_mem) (simp add: hex_alphabet_def)

text \<open>\<open>b.toString(16).padStart(2, "0")\<close> of a byte, and of a byte array joined.\<close>

definition byte_hex :: "8 word \<Rightarrow> string" where
  "byte_hex w = [hex_digit (unat w div 16), hex_digit (unat w mod 16)]"

definition bytes_hex :: "bytes \<Rightarrow> string" where
  "bytes_hex bs = concat (map byte_hex bs)"

lemma hex_digit_inj: "m < 16 \<Longrightarrow> n < 16 \<Longrightarrow> hex_digit m = hex_digit n \<Longrightarrow> m = n"
proof -
  have "distinct (map hex_digit [0..<16])" by code_simp
  then have "inj_on hex_digit {0..<16}" by (simp add: distinct_map)
  then show "m < 16 \<Longrightarrow> n < 16 \<Longrightarrow> hex_digit m = hex_digit n \<Longrightarrow> m = n"
    by (auto dest: inj_onD)
qed

lemma byte_hex_inj: "byte_hex v = byte_hex w \<longleftrightarrow> v = w"
proof
  assume "byte_hex v = byte_hex w"
  then have "hex_digit (unat v div 16) = hex_digit (unat w div 16)"
    and "hex_digit (unat v mod 16) = hex_digit (unat w mod 16)"
    by (simp_all add: byte_hex_def)
  moreover have "unat v < 256" "unat w < 256"
    using unsigned_less [of v] unsigned_less [of w] by simp_all
  ultimately have "unat v div 16 = unat w div 16" "unat v mod 16 = unat w mod 16"
    by (auto intro!: hex_digit_inj)
  then have "unat v = unat w" by (metis div_mult_mod_eq)
  then show "v = w" by (simp add: word_unat_eq_iff)
qed simp

lemma length_byte_hex [simp]: "length (byte_hex w) = 2"
  by (simp add: byte_hex_def)

lemma length_bytes_hex [simp]: "length (bytes_hex bs) = 2 * length bs"
  by (induction bs) (simp_all add: bytes_hex_def)

lemma bytes_hex_inj: "bytes_hex xs = bytes_hex ys \<longleftrightarrow> xs = ys"
proof
  show "bytes_hex xs = bytes_hex ys \<Longrightarrow> xs = ys"
  proof (induction xs arbitrary: ys)
    case Nil
    then show ?case by (cases ys) (auto simp: bytes_hex_def byte_hex_def)
  next
    case (Cons x xs)
    then obtain y ys' where "ys = y # ys'"
      by (cases ys) (auto simp: bytes_hex_def byte_hex_def)
    with Cons show ?case
      by (auto simp: bytes_hex_def byte_hex_inj)
  qed
qed simp

subsection \<open>UTF-8 and URI components\<close>

definition is_cont :: "nat \<Rightarrow> bool" where
  "is_cont b \<longleftrightarrow> 128 \<le> b \<and> b < 192"

text \<open>The number of bytes a leading byte announces; \<open>0\<close> for a byte that cannot lead.\<close>

definition utf8_len :: "nat \<Rightarrow> nat" where
  "utf8_len b =
     (if b < 128 then 1 else if b < 192 then 0 else if b < 224 then 2
      else if b < 240 then 3 else if b < 248 then 4 else 0)"

text \<open>The well-formed sequences: no overlong form, no surrogate, nothing above \<open>10FFFF\<close>.\<close>

fun utf8_seq :: "nat list \<Rightarrow> bool" where
  "utf8_seq [a] = (a < 128)"
| "utf8_seq [a, b] = (194 \<le> a \<and> a < 224 \<and> is_cont b)"
| "utf8_seq [a, b, c] =
     (224 \<le> a \<and> a < 240 \<and> is_cont b \<and> is_cont c
      \<and> (a = 224 \<longrightarrow> 160 \<le> b) \<and> (a = 237 \<longrightarrow> b < 160))"
| "utf8_seq [a, b, c, d] =
     (240 \<le> a \<and> a < 245 \<and> is_cont b \<and> is_cont c \<and> is_cont d
      \<and> (a = 240 \<longrightarrow> 144 \<le> b) \<and> (a = 244 \<longrightarrow> b < 144))"
| "utf8_seq _ = False"

function utf8_valid :: "nat list \<Rightarrow> bool" where
  "utf8_valid [] = True"
| "utf8_valid (a # s) =
     (if utf8_len a = 0 \<or> \<not> utf8_seq (take (utf8_len a) (a # s)) then False
      else utf8_valid (drop (utf8_len a) (a # s)))"
  by pat_completeness auto
termination
  by (relation "measure length") (auto simp: utf8_len_def)

definition valid_text :: "string \<Rightarrow> bool" where
  "valid_text s \<longleftrightarrow> utf8_valid (map of_char s)"

text \<open>
  \<open>Buffer.toString()\<close>: well-formed UTF-8 is kept, every maximal ill-formed part becomes the
  replacement character \<open>U+FFFD\<close>.
\<close>

fun utf8_partial :: "nat list \<Rightarrow> bool" where
  "utf8_partial [a, b] =
     (224 \<le> a \<and> a < 245 \<and> is_cont b
      \<and> (a = 224 \<longrightarrow> 160 \<le> b) \<and> (a = 237 \<longrightarrow> b < 160)
      \<and> (a = 240 \<longrightarrow> 144 \<le> b) \<and> (a = 244 \<longrightarrow> b < 144))"
| "utf8_partial [a, b, c] = (240 \<le> a \<and> utf8_partial [a, b] \<and> is_cont c)"
| "utf8_partial _ = False"

definition ill_formed_len :: "nat list \<Rightarrow> nat" where
  "ill_formed_len s =
     (if utf8_partial (take 3 s) \<and> 3 \<le> length s then 3 else if utf8_partial (take 2 s) then 2 else 1)"

function utf8_toString :: "nat list \<Rightarrow> nat list" where
  "utf8_toString [] = []"
| "utf8_toString (a # s) =
     (if utf8_len a \<noteq> 0 \<and> utf8_seq (take (utf8_len a) (a # s))
      then take (utf8_len a) (a # s) @ utf8_toString (drop (utf8_len a) (a # s))
      else [239, 191, 189] @ utf8_toString (drop (ill_formed_len (a # s)) (a # s)))"
  by pat_completeness auto
termination
  by (relation "measure length") (auto simp: utf8_len_def ill_formed_len_def)

definition bufferToString :: "string \<Rightarrow> string" where
  "bufferToString s = map char_of (utf8_toString (map of_char s))"

definition is_unreserved :: "char \<Rightarrow> bool" where
  "is_unreserved c \<longleftrightarrow>
     is_upper c \<or> is_lower c \<or> is_digit c \<or> c \<in> set ''-_.!~*()'' \<or> c = CHR 0x27"

definition upper_hex_digit :: "nat \<Rightarrow> char" where
  "upper_hex_digit n = ''0123456789ABCDEF'' ! n"

definition pct :: "nat \<Rightarrow> string" where
  "pct b = [CHR ''%'', upper_hex_digit (b div 16), upper_hex_digit (b mod 16)]"

text \<open>
  \<open>encodeURIComponent\<close> keeps the unreserved characters and escapes every byte of the others. (On
  a string with a lone surrogate, which has no UTF-8 form, the library throws; such a string is
  not in the model.)
\<close>

definition encodeURIComponent :: "string \<Rightarrow> string" where
  "encodeURIComponent s = concat (map (\<lambda>c. if is_unreserved c then [c] else pct (of_char c)) s)"

text \<open>Read \<open>n\<close> consecutive escapes.\<close>

fun pct_bytes :: "nat \<Rightarrow> string \<Rightarrow> (nat list \<times> string) option" where
  "pct_bytes 0 s = Some ([], s)"
| "pct_bytes (Suc n) (p # x # y # s) =
     (if p = CHR ''%'' then
        (case (hex_val x, hex_val y) of
           (Some i, Some j) \<Rightarrow> map_option (\<lambda>(bs, r). ((16 * i + j) # bs, r)) (pct_bytes n s)
         | _ \<Rightarrow> None)
      else None)"
| "pct_bytes (Suc n) _ = None"

lemma pct_bytes_length: "pct_bytes n s = Some (bs, r) \<Longrightarrow> length r + 3 * n = length s"
  by (induction n s arbitrary: bs rule: pct_bytes.induct)
     (auto split: if_splits option.splits)

text \<open>\<open>decodeURIComponent\<close>; \<^const>\<open>None\<close> is the \<open>URIError\<close>.\<close>

function decodeURIComponent :: "string \<Rightarrow> string option" where
  "decodeURIComponent [] = Some []"
| "decodeURIComponent (c # s) =
     (if c \<noteq> CHR ''%'' then map_option ((#) c) (decodeURIComponent s)
      else (case pct_bytes 1 (c # s) of
              None \<Rightarrow> None
            | Some (b, _) \<Rightarrow>
                if utf8_len (hd b) = 0 then None
                else (case pct_bytes (utf8_len (hd b)) (c # s) of
                        None \<Rightarrow> None
                      | Some (bs, r) \<Rightarrow>
                          if utf8_seq bs
                          then map_option ((@) (map char_of bs)) (decodeURIComponent r)
                          else None)))"
  by pat_completeness auto
termination
  by (relation "measure length") (auto dest!: pct_bytes_length)

declare decodeURIComponent.simps(2) [simp del]

lemma hex_val_upper: "n < 16 \<Longrightarrow> hex_val (upper_hex_digit n) = Some n"
proof -
  have "\<forall>n \<in> set [0..<16]. hex_val (upper_hex_digit n) = Some n" by code_simp
  then show "n < 16 \<Longrightarrow> hex_val (upper_hex_digit n) = Some n" by simp
qed

lemma pct_bytes_pct:
  "\<forall>b \<in> set bs. b < 256 \<Longrightarrow> pct_bytes (length bs) (concat (map pct bs) @ r) = Some (bs, r)"
  by (induction bs) (auto simp: pct_def hex_val_upper less_mult_imp_div_less)

lemma unreserved_ascii: "is_unreserved c \<Longrightarrow> of_char c < (128::nat) \<and> c \<noteq> CHR ''%''"
  by (auto simp: is_unreserved_def is_upper_def is_lower_def is_digit_def less_eq_char_def)

lemma utf8_seq_cases:
  assumes "utf8_seq bs"
  shows "bs \<noteq> [] \<and> utf8_len (hd bs) = length bs \<and> (length bs > 1 \<longrightarrow> (\<forall>b \<in> set bs. 128 \<le> b))"
  using assms by (induction bs rule: utf8_seq.induct) (auto simp: utf8_len_def is_cont_def)

lemma encode_high:
  "\<forall>c \<in> set s. 128 \<le> (of_char c :: nat) \<Longrightarrow>
   encodeURIComponent s = concat (map pct (map of_char s))"
proof (induction s)
  case (Cons c s)
  then have "\<not> is_unreserved c" using unreserved_ascii by force
  with Cons show ?case by (simp add: encodeURIComponent_def)
qed (simp add: encodeURIComponent_def)

lemma encodeURIComponent_append:
  "encodeURIComponent (s @ t) = encodeURIComponent s @ encodeURIComponent t"
  by (simp add: encodeURIComponent_def)

lemma decode_escapes:
  assumes bs: "utf8_seq bs" and lt: "\<forall>b \<in> set bs. b < 256"
  shows "decodeURIComponent (concat (map pct bs) @ r) =
    map_option ((@) (map char_of bs)) (decodeURIComponent r)"
proof -
  from utf8_seq_cases [OF bs] obtain b bs' where b: "bs = b # bs'" and l: "utf8_len b = length bs"
    by (cases bs) auto
  have "pct_bytes (Suc 0) (pct b @ concat (map pct bs') @ r) = Some ([b], concat (map pct bs') @ r)"
    using pct_bytes_pct [of "[b]"] lt b by simp
  moreover have "pct_bytes (length bs) (pct b @ concat (map pct bs') @ r) = Some (bs, r)"
    using pct_bytes_pct [of bs r] lt b by simp
  ultimately show ?thesis
    using bs l b by (simp add: pct_def decodeURIComponent.simps(2))
qed

lemma decode_encode_seq:
  assumes "utf8_seq (map of_char s)"
  shows "decodeURIComponent (encodeURIComponent s @ r) =
    map_option ((@) s) (decodeURIComponent r)"
proof (cases "\<exists>c. s = [c] \<and> is_unreserved c")
  case True
  then obtain c where "s = [c]" "is_unreserved c" by blast
  then show ?thesis
    using unreserved_ascii [of c]
    by (simp add: encodeURIComponent_def decodeURIComponent.simps(2)) (rule option.map_cong0, simp)
next
  case False
  have "encodeURIComponent s = concat (map pct (map of_char s))"
  proof (cases "length s = 1")
    case True
    then obtain c where "s = [c]" by (auto simp: length_Suc_conv)
    with False show ?thesis by (auto simp: encodeURIComponent_def)
  next
    case False
    then have "length (map of_char s :: nat list) > 1"
      using utf8_seq_cases [OF assms] by (cases s) auto
    with utf8_seq_cases [OF assms] have "\<forall>c \<in> set s. 128 \<le> (of_char c :: nat)" by auto
    then show ?thesis by (rule encode_high)
  qed
  with decode_escapes [OF assms, of r] show ?thesis by (simp add: comp_def)
qed

theorem decodeURIComponent_encode:
  assumes "valid_text s"
  shows "decodeURIComponent (encodeURIComponent s) = Some s"
  using assms unfolding valid_text_def
proof (induction "length s" arbitrary: s rule: less_induct)
  case less
  show ?case
  proof (cases s)
    case Nil
    then show ?thesis by (simp add: encodeURIComponent_def)
  next
    case (Cons c t)
    define n where "n = utf8_len (of_char c)"
    from less.prems Cons have n: "n \<noteq> 0" and q: "utf8_seq (map of_char (take n s))"
      and v: "utf8_valid (map of_char (drop n s))"
      by (auto simp: n_def take_map [symmetric] drop_map [symmetric] split: if_splits)
    from n Cons have "length (drop n s) < length s" by simp
    from less.hyps [OF this v] have "decodeURIComponent (encodeURIComponent (drop n s)) = Some (drop n s)" .
    moreover have "encodeURIComponent s = encodeURIComponent (take n s) @ encodeURIComponent (drop n s)"
      by (simp flip: encodeURIComponent_append)
    ultimately show ?thesis by (simp add: decode_encode_seq [OF q])
  qed
qed

lemma encodeURIComponent_ascii_id:
  "\<forall>c \<in> set s. is_unreserved c \<Longrightarrow> encodeURIComponent s = s"
  by (induction s) (simp_all add: encodeURIComponent_def)

lemma utf8_valid_ascii: "\<forall>b \<in> set bs. b < 128 \<Longrightarrow> utf8_valid bs"
  by (induction bs) (auto simp: utf8_len_def)

lemma pct_ascii: "b < 256 \<Longrightarrow> c \<in> set (pct b) \<Longrightarrow> of_char c < (128 :: nat)"
proof -
  have "\<forall>n \<in> set [0..<16]. of_char (upper_hex_digit n) < (128 :: nat)" by code_simp
  then have "n < 16 \<Longrightarrow> of_char (upper_hex_digit n) < (128 :: nat)" for n by simp
  then show "b < 256 \<Longrightarrow> c \<in> set (pct b) \<Longrightarrow> of_char c < (128 :: nat)"
    by (auto simp: pct_def less_mult_imp_div_less)
qed

lemma encodeURIComponent_ascii: "c \<in> set (encodeURIComponent s) \<Longrightarrow> of_char c < (128 :: nat)"
  by (auto simp: encodeURIComponent_def dest: unreserved_ascii pct_ascii [rotated] split: if_splits)

lemma valid_text_ascii: "\<forall>c \<in> set s. of_char c < (128 :: nat) \<Longrightarrow> valid_text s"
  by (simp add: valid_text_def utf8_valid_ascii)

lemma encodeURIComponent_inj:
  "valid_text s \<Longrightarrow> valid_text t \<Longrightarrow> encodeURIComponent s = encodeURIComponent t \<Longrightarrow> s = t"
  by (metis decodeURIComponent_encode option.inject)

end
