(* ===== verification/Http.thy ===== *)
theory Http
  imports Encoding
begin

text \<open>
  The parts of the HTTP classes of the runtime that the sources call: \<open>Headers\<close> and \<open>Response\<close>
  of the Fetch standard, and \<open>Date.parse\<close> on the date format of HTTP.
\<close>

subsection \<open>Headers\<close>

text \<open>The entries of a \<open>Headers\<close> object, in the order they were appended, with names in lower case.\<close>

type_synonym headers_obj = "(string \<times> string) list"

definition is_token_char :: "char \<Rightarrow> bool" where
  "is_token_char c \<longleftrightarrow>
     is_digit c \<or> is_upper c \<or> is_lower c \<or> c \<in> set ''!#$%&*+-.^_|~'' \<or> c = CHR 0x27 \<or> c = CHR 0x60"

definition valid_name :: "string \<Rightarrow> bool" where
  "valid_name n \<longleftrightarrow> n \<noteq> [] \<and> list_all is_token_char n"

definition is_http_space :: "char \<Rightarrow> bool" where
  "is_http_space c \<longleftrightarrow> c = CHR 0x20 \<or> c = CHR 0x09 \<or> c = CHR 0x0A \<or> c = CHR 0x0D"

definition normalise_value :: "string \<Rightarrow> string" where
  "normalise_value v = rev (dropWhile is_http_space (rev (dropWhile is_http_space v)))"

definition valid_value :: "string \<Rightarrow> bool" where
  "valid_value v \<longleftrightarrow> list_all (\<lambda>c. c \<noteq> CHR 0x00 \<and> c \<noteq> CHR 0x0A \<and> c \<noteq> CHR 0x0D) v"

definition header_values :: "headers_obj \<Rightarrow> string \<Rightarrow> string list" where
  "header_values hs n = map snd (filter (\<lambda>(k, _). k = toLowerCase n) hs)"

definition headers_get :: "headers_obj \<Rightarrow> string \<Rightarrow> string option" where
  "headers_get hs n = (case header_values hs n of [] \<Rightarrow> None | vs \<Rightarrow> Some (join_with '', '' vs))"

definition headers_has :: "headers_obj \<Rightarrow> string \<Rightarrow> bool" where
  "headers_has hs n \<longleftrightarrow> header_values hs n \<noteq> []"

definition headers_delete :: "headers_obj \<Rightarrow> string \<Rightarrow> headers_obj" where
  "headers_delete hs n = filter (\<lambda>(k, _). k \<noteq> toLowerCase n) hs"

definition headers_append :: "headers_obj \<Rightarrow> string \<Rightarrow> string \<Rightarrow> headers_obj res" where
  "headers_append hs n v =
     (if valid_name n \<and> valid_value (normalise_value v)
      then Inr (hs @ [(toLowerCase n, normalise_value v)]) else Inl TypeError)"

definition headers_set :: "headers_obj \<Rightarrow> string \<Rightarrow> string \<Rightarrow> headers_obj res" where
  "headers_set hs n v = headers_append (headers_delete hs n) n v"

text \<open>\<open>new Headers(init)\<close> of a list of pairs.\<close>

fun headers_fill :: "headers_obj \<Rightarrow> (string \<times> string) list \<Rightarrow> headers_obj res" where
  "headers_fill hs [] = Inr hs"
| "headers_fill hs ((n, v) # init) = andThen (headers_append hs n v) (\<lambda>hs'. headers_fill hs' init)"

definition headers_new :: "(string \<times> string) list \<Rightarrow> headers_obj res" where
  "headers_new init = headers_fill [] init"

text \<open>Iterating over the object: sorted by name, values combined except those of \<open>Set-Cookie\<close>.\<close>

definition headers_entries :: "headers_obj \<Rightarrow> (string \<times> string) list" where
  "headers_entries hs =
     concat (map (\<lambda>n. if n = ''set-cookie'' then map (Pair n) (header_values hs n)
                      else [(n, join_with '', '' (header_values hs n))])
              (sort (remdups (map fst hs))))"

lemma header_values_append [simp]: "header_values (hs @ hs') n = header_values hs n @ header_values hs' n"
  by (simp add: header_values_def)

lemma header_values_delete [simp]:
  "header_values (headers_delete hs m) n = (if toLowerCase n = toLowerCase m then [] else header_values hs n)"
  by (auto simp: header_values_def headers_delete_def filter_empty_conv intro!: arg_cong [of _ _ "map snd"] filter_cong)

text \<open>What a header is after it is set, and that other headers keep their values.\<close>

lemma headers_set_get:
  assumes "headers_set hs n v = Inr hs'"
  shows "headers_get hs' m =
    (if toLowerCase m = toLowerCase n then Some (normalise_value v) else headers_get hs m)"
proof -
  have hs': "hs' = headers_delete hs n @ [(toLowerCase n, normalise_value v)]"
    using assms by (simp add: headers_set_def headers_append_def split: if_splits)
  have one: "header_values [(toLowerCase n, normalise_value v)] m =
      (if toLowerCase m = toLowerCase n then [normalise_value v] else [])"
    by (simp add: header_values_def)
  show ?thesis unfolding hs' headers_get_def header_values_append one by simp
qed

lemma headers_delete_get:
  "headers_get (headers_delete hs n) m = (if toLowerCase m = toLowerCase n then None else headers_get hs m)"
  by (simp add: headers_get_def)

subsection \<open>Dates\<close>

text \<open>\<open>DayFromYear\<close> and the days before a month, as ECMAScript defines them.\<close>

definition leap_year :: "int \<Rightarrow> bool" where
  "leap_year y \<longleftrightarrow> (y mod 4 = 0 \<and> y mod 100 \<noteq> 0) \<or> y mod 400 = 0"

definition day_from_year :: "int \<Rightarrow> int" where
  "day_from_year y = 365 * (y - 1970) + (y - 1969) div 4 - (y - 1901) div 100 + (y - 1601) div 400"

definition day_before_month :: "int \<Rightarrow> nat \<Rightarrow> int" where
  "day_before_month y m =
     [0, 31, 59, 90, 120, 151, 181, 212, 243, 273, 304, 334] ! m + (if leap_year y \<and> 2 \<le> m then 1 else 0)"

definition make_date :: "int \<Rightarrow> nat \<Rightarrow> int \<Rightarrow> int \<Rightarrow> int \<Rightarrow> int \<Rightarrow> int" where
  "make_date y m d h mi s =
     (((day_from_year y + day_before_month y m + d - 1) * 24 + h) * 60 + mi) * 60000 + s * 1000"

definition month_names :: "string list" where
  "month_names = [''Jan'', ''Feb'', ''Mar'', ''Apr'', ''May'', ''Jun'', ''Jul'', ''Aug'', ''Sep'', ''Oct'',
     ''Nov'', ''Dec'']"

definition day_names :: "string list" where
  "day_names = [''Mon'', ''Tue'', ''Wed'', ''Thu'', ''Fri'', ''Sat'', ''Sun'']"

fun index_in :: "'a list \<Rightarrow> 'a \<Rightarrow> nat" where
  "index_in [] x = 0"
| "index_in (y # ys) x = (if x = y then 0 else Suc (index_in ys x))"

text \<open>The characters of \<open>s\<close> from \<open>i\<close>, \<open>n\<close> of them.\<close>

definition substr :: "string \<Rightarrow> nat \<Rightarrow> nat \<Rightarrow> string" where
  "substr s i n = take n (drop i s)"

text \<open>
  \<open>Date.parse\<close> on the fixed format \<^verbatim>\<open>Mon, 01 Jan 2024 00:00:00 GMT\<close>: the name of the day is not
  compared with the date, a day beyond the end of its month counts on into the next one, years below
  100 are those of the twentieth and the twenty-first century.
\<close>

definition date_parse_http :: "string \<Rightarrow> int option" where
  "date_parse_http v =
     (let d = int (digits_val (substr v 5 2)); y0 = int (digits_val (substr v 12 4));
          y = (if y0 < 50 then y0 + 2000 else if y0 < 100 then y0 + 1900 else y0);
          m = index_in month_names (substr v 8 3);
          h = int (digits_val (substr v 17 2)); mi = int (digits_val (substr v 20 2));
          s = int (digits_val (substr v 23 2))
      in if 1 \<le> d \<and> d \<le> 31 \<and> (h < 24 \<and> mi < 60 \<and> s < 60 \<or> h = 24 \<and> mi = 0 \<and> s = 0)
         then Some (make_date y m d h mi s) else None)"

subsection \<open>Responses\<close>

definition is_null_body_status :: "int \<Rightarrow> bool" where
  "is_null_body_status st \<longleftrightarrow> st \<in> {101, 204, 205, 304}"

definition valid_reason :: "string \<Rightarrow> bool" where
  "valid_reason s \<longleftrightarrow> list_all (\<lambda>c. c = CHR 0x09 \<or> CHR 0x20 \<le> c \<and> c \<noteq> CHR 0x7F) s"

text \<open>
  The checks of \<open>new Response(body, init)\<close>: the status, the reason phrase, and that a null body
  status comes without a body.
\<close>

definition check_response :: "bool \<Rightarrow> int \<Rightarrow> string \<Rightarrow> unit res" where
  "check_response has_body st reason =
     (if st < 200 \<or> 599 < st then Inl RangeError
      else if \<not> valid_reason reason then Inl TypeError
      else check (\<not> (has_body \<and> is_null_body_status st)) TypeError)"

end
