(* ===== verification/Ranges.thy ===== *)
theory Ranges
  imports Prelude
begin

text \<open>
  The HTTP \<open>Range\<close> parser of \<^verbatim>\<open>packages/miniflare/src/workers/shared/range.ts\<close>, used by the cache
  and the R2 simulators, and byte ranges of a value.
\<close>

record inclusiveRange =
  rstart :: int
  rend :: int

definition mkRange :: "int \<Rightarrow> int \<Rightarrow> inclusiveRange" where
  "mkRange s e = \<lparr>rstart = s, rend = e\<rparr>"

lemma mkRange_sel [simp]: "rstart (mkRange s e) = s" "rend (mkRange s e) = e"
  by (simp_all add: mkRange_def)

lemma mkRange_eq [simp]: "mkRange s e = mkRange s' e' \<longleftrightarrow> s = s' \<and> e = e'"
  by (simp add: mkRange_def)

definition is_blank :: "char \<Rightarrow> bool" where
  "is_blank c \<longleftrightarrow> c = CHR '' ''"

text \<open>\<open>rangePrefixRegexp\<close>, \<^verbatim>\<open>/^ *bytes *=/i\<close>: what is left after the match.\<close>

definition rangePrefix :: "string \<Rightarrow> string option" where
  "rangePrefix h =
     (let s = dropWhile is_blank h
      in if toLowerCase (take 5 s) = ''bytes'' then
           (case dropWhile is_blank (drop 5 s) of
              c # r \<Rightarrow> if c = CHR ''='' then Some r else None
            | [] \<Rightarrow> None)
         else None)"

text \<open>
  \<open>rangeRegexp\<close>, \<^verbatim>\<open>/^ *(?<start>\d+)? *- *(?<end>\d+)? *$/\<close>: the two optional groups. No digit is a
  blank or a dash, so the greedy match is the only one.
\<close>

definition digit_group :: "string \<Rightarrow> string option" where
  "digit_group s = (let g = takeWhile is_digit s in if g = [] then None else Some g)"

definition rangeMatch :: "string \<Rightarrow> (string option \<times> string option) option" where
  "rangeMatch r =
     (let s = dropWhile is_blank r;
          start = digit_group s
      in case dropWhile is_blank (dropWhile is_digit s) of
           [] \<Rightarrow> None
         | c # t \<Rightarrow>
             if c = CHR ''-'' then
               (let u = dropWhile is_blank t;
                    end = digit_group u
                in if dropWhile is_blank (dropWhile is_digit u) = [] then Some (start, end) else None)
             else None)"

text \<open>The loop of \<open>parseRanges\<close>: \<^const>\<open>None\<close> is \<open>undefined\<close>, an unsatisfiable header.\<close>

definition toInt :: "string \<Rightarrow> int" where
  "toInt s = (case parseInt s of Some i \<Rightarrow> i | None \<Rightarrow> 0)"

fun parseRanges_loop ::
  "int \<Rightarrow> string list \<Rightarrow> inclusiveRange list \<Rightarrow> inclusiveRange list option"
where
  "parseRanges_loop len [] result = Some result"
| "parseRanges_loop len (rng # ranges) result =
     (case rangeMatch rng of
        None \<Rightarrow> None
      | Some (Some start, Some end) \<Rightarrow>
          (let rangeStart = toInt start; rangeEnd = toInt end
           in if rangeStart > rangeEnd then None
              else if rangeStart \<ge> len then None
              else parseRanges_loop len ranges
                     (result @ [mkRange rangeStart (if rangeEnd \<ge> len then len - 1 else rangeEnd)]))
      | Some (Some start, None) \<Rightarrow>
          (let rangeStart = toInt start
           in if rangeStart \<ge> len then None
              else parseRanges_loop len ranges (result @ [mkRange rangeStart (len - 1)]))
      | Some (None, Some end) \<Rightarrow>
          (let suffix = toInt end
           in if suffix \<ge> len then Some []
              else if suffix = 0 then parseRanges_loop len ranges result
              else parseRanges_loop len ranges (result @ [mkRange (len - suffix) (len - 1)]))
      | Some (None, None) \<Rightarrow> None)"

definition parseRanges :: "string \<Rightarrow> int \<Rightarrow> inclusiveRange list option" where
  "parseRanges rangeHeader len =
     (case rangePrefix rangeHeader of
        None \<Rightarrow> None
      | Some rest \<Rightarrow>
          if trimStart rest = [] then Some []
          else parseRanges_loop len (split_on CHR '','' rest) [])"

subsection \<open>Every accepted range lies inside the value\<close>

definition range_in :: "int \<Rightarrow> inclusiveRange \<Rightarrow> bool" where
  "range_in len r \<longleftrightarrow> 0 \<le> rstart r \<and> rstart r \<le> rend r \<and> rend r < len"

definition isDigits :: "string \<Rightarrow> bool" where
  "isDigits s \<longleftrightarrow> s \<noteq> [] \<and> (\<forall>c \<in> set s. is_digit c)"

lemma digit_group_digits: "digit_group s = Some g \<Longrightarrow> isDigits g"
  by (auto simp: digit_group_def Let_def isDigits_def dest: set_takeWhileD split: if_splits)

lemma toInt_digits:
  assumes "isDigits s"
  shows "0 \<le> toInt s"
proof -
  obtain c cs where s: "s = c # cs" using assms by (cases s) (auto simp: isDigits_def)
  then have c: "is_digit c" using assms by (simp add: isDigits_def)
  then have "\<not> is_space c" "c \<noteq> CHR ''-''"
    by (auto simp: is_space_def is_digit_def less_eq_char_def)
  then show ?thesis
    using s c by (auto simp: toInt_def parseInt_def trimStart_def split: option.splits)
qed

lemma rangeMatch_digits:
  assumes "rangeMatch r = Some (a, b)"
  shows "(\<forall>s. a = Some s \<longrightarrow> isDigits s) \<and> (\<forall>e. b = Some e \<longrightarrow> isDigits e)"
proof -
  obtain s t where "digit_group s = a" "digit_group t = b"
    using assms unfolding rangeMatch_def Let_def
    by (simp split: list.splits if_splits del: dropWhile_eq_Nil_conv dropWhile_eq_Cons_conv) blast
  then show ?thesis by (auto dest: digit_group_digits)
qed

lemma parseRanges_loop_bounds:
  assumes "parseRanges_loop len rs acc = Some out" "0 \<le> len" "\<forall>r \<in> set acc. range_in len r"
  shows "\<forall>r \<in> set out. range_in len r"
  using assms
proof (induction rs arbitrary: acc)
  case Nil
  then show ?case by simp
next
  case (Cons rng rs)
  then obtain a b where m: "rangeMatch rng = Some (a, b)"
    by (auto split: option.splits)
  note d = rangeMatch_digits [OF m]
  show ?case
  proof (cases a)
    case None
    then obtain e where b: "b = Some e" using Cons.prems m by (auto split: option.splits)
    with d have e: "0 \<le> toInt e" by (simp add: toInt_digits)
    consider "toInt e \<ge> len" | "toInt e = 0" "toInt e < len" | "0 < toInt e" "toInt e < len"
      using e by linarith
    then show ?thesis
    proof cases
      case 1
      with Cons.prems m None b show ?thesis by simp
    next
      case 2
      then have "parseRanges_loop len rs acc = Some out" using Cons.prems m None b by simp
      then show ?thesis by (rule Cons.IH) (use Cons.prems in auto)
    next
      case 3
      then have "parseRanges_loop len rs (acc @ [mkRange (len - toInt e) (len - 1)]) = Some out"
        using Cons.prems m None b by (simp add: Let_def)
      then show ?thesis
        by (rule Cons.IH) (use Cons.prems 3 in \<open>auto simp: range_in_def\<close>)
    qed
  next
    case (Some s)
    with d have s: "0 \<le> toInt s" by (simp add: toInt_digits)
    show ?thesis
    proof (cases b)
      case None
      with Cons.prems m Some have "toInt s < len"
        "parseRanges_loop len rs (acc @ [mkRange (toInt s) (len - 1)]) = Some out"
        by (auto simp: Let_def split: if_splits)
      then show ?thesis
        by (intro Cons.IH [of "acc @ [mkRange (toInt s) (len - 1)]"])
           (use Cons.prems s in \<open>auto simp: range_in_def\<close>)
    next
      case e: (Some e)
      let ?r = "mkRange (toInt s) (if toInt e \<ge> len then len - 1 else toInt e)"
      from Cons.prems m Some e have "toInt s \<le> toInt e" "toInt s < len"
        "parseRanges_loop len rs (acc @ [?r]) = Some out"
        by (auto simp: Let_def split: if_splits)
      then show ?thesis
        by (intro Cons.IH [of "acc @ [?r]"]) (use Cons.prems s in \<open>auto simp: range_in_def\<close>)
    qed
  qed
qed

lemma parseRanges_range_in:
  assumes "parseRanges h len = Some rs" "0 \<le> len" "r \<in> set rs"
  shows "range_in len r"
  using assms parseRanges_loop_bounds [of len _ "[]" rs]
  by (auto simp: parseRanges_def split: option.splits if_splits)

subsection \<open>Reading back a printed single range\<close>

text \<open>\<open>rangeHeaders\<close> of \<^verbatim>\<open>blob.worker.ts\<close> prints one range.\<close>

definition rangeHeaders :: "inclusiveRange \<Rightarrow> string" where
  "rangeHeaders r = ''bytes='' @ show_int (rstart r) @ ''-'' @ show_int (rend r)"

lemma isDigits_show_int: "0 \<le> i \<Longrightarrow> isDigits (show_int i)"
  by (auto simp: isDigits_def show_int_def dest: show_nat_digits)

lemma dropWhile_blank_digits: "isDigits s \<Longrightarrow> dropWhile is_blank (s @ t) = s @ t"
  by (cases s) (auto simp: isDigits_def is_digit_def is_blank_def less_eq_char_def)

lemma split_digits:
  assumes "isDigits s" "t = [] \<or> \<not> is_digit (hd t)"
  shows "digit_group (s @ t) = Some s" "dropWhile is_digit (s @ t) = t"
proof -
  have d: "\<And>c. c \<in> set s \<Longrightarrow> is_digit c" using assms by (simp add: isDigits_def)
  have t: "takeWhile is_digit t = []" "dropWhile is_digit t = t"
    using assms(2) by (cases t; simp)+
  have "takeWhile is_digit (s @ t) = s"
    using d t by (simp add: takeWhile_append2)
  then show "digit_group (s @ t) = Some s"
    using assms(1) by (simp add: digit_group_def isDigits_def)
  show "dropWhile is_digit (s @ t) = t"
    using d t by (simp add: dropWhile_append2)
qed

lemma rangeMatch_show:
  assumes "0 \<le> s" "0 \<le> e"
  shows "rangeMatch (show_int s @ ''-'' @ show_int e) = Some (Some (show_int s), Some (show_int e))"
proof -
  note ds = isDigits_show_int [OF assms(1)] and de = isDigits_show_int [OF assms(2)]
  have "dropWhile is_digit (show_int e) = []" using split_digits(2) [OF de, of "[]"] by simp
  then show ?thesis
    using split_digits [OF ds, of "CHR ''-'' # show_int e"] split_digits(1) [OF de, of "[]"]
      dropWhile_blank_digits [OF ds, of "CHR ''-'' # show_int e"] dropWhile_blank_digits [OF de, of "[]"]
    by (simp add: rangeMatch_def Let_def is_digit_def [of "CHR ''-''"] is_blank_def [of "CHR ''-''"] less_eq_char_def
        del: dropWhile_eq_Nil_conv)
qed

lemma split_on_none: "d \<notin> set s \<Longrightarrow> split_on d s = [s]"
  by (induction s) auto

lemma parseRanges_rangeHeaders:
  assumes "0 \<le> rstart r" "rstart r \<le> rend r" "rstart r < len"
  shows "parseRanges (rangeHeaders r) len = Some [mkRange (rstart r) (min (rend r) (len - 1))]"
proof -
  let ?t = "show_int (rstart r) @ ''-'' @ show_int (rend r)"
  have p: "rangePrefix (rangeHeaders r) = Some ?t"
    by (simp add: rangePrefix_def rangeHeaders_def is_blank_def toLowerCase_def lower_char_def is_upper_def
        less_eq_char_def)
  have "is_digit c \<or> c = CHR ''-''" if "c \<in> set ?t" for c
    using that isDigits_show_int [of "rstart r"] isDigits_show_int [of "rend r"] assms
    by (auto simp: isDigits_def)
  then have c: "CHR '','' \<notin> set ?t"
    by (force simp: is_digit_def less_eq_char_def)
  have "trimStart ?t \<noteq> []"
  proof -
    obtain d ds where "show_int (rstart r) = d # ds" "is_digit d"
      using isDigits_show_int [of "rstart r"] assms by (cases "show_int (rstart r)") (auto simp: isDigits_def)
    then show ?thesis by (auto simp: trimStart_def is_space_def less_eq_char_def)
  qed
  with p c show ?thesis
    using rangeMatch_show [of "rstart r" "rend r"] assms
    by (simp add: parseRanges_def split_on_none toInt_def Let_def min_def)
qed

subsection \<open>Slices\<close>

definition slice :: "inclusiveRange \<Rightarrow> 'b list \<Rightarrow> 'b list" where
  "slice r b = take (nat (rend r - rstart r + 1)) (drop (nat (rstart r)) b)"

lemma length_slice:
  "range_in (int (length b)) r \<Longrightarrow> int (length (slice r b)) = rend r - rstart r + 1"
  by (auto simp: slice_def range_in_def)

lemma slice_full [simp]: "slice (mkRange 0 (int (length b) - 1)) b = b"
  by (simp add: slice_def)

subsection \<open>Properties\<close>

text \<open>
  Every range \<open>parseRanges\<close> returns lies within the value: it starts at or after byte zero, ends
  at or after its start and before the end of the value.
\<close>

theorem parseRanges_in_bounds:
  assumes "0 \<le> len" and "parseRanges rangeHeader len = Some rs" and "r \<in> set rs"
  shows "0 \<le> rstart r \<and> rstart r \<le> rend r \<and> rend r < len"
  using parseRanges_range_in [OF assms(2,1,3)] by (simp add: range_in_def)

theorem parseRanges_in_bounds_witness:
  "parseRanges ''bytes=0-3,-2'' 10 = Some [mkRange 0 3, mkRange 8 9] \<and>
   rend (mkRange 8 9) < (10 :: int)"
proof -
  have "parseRanges ''bytes=0-3,-2'' 10 = Some [mkRange 0 3, mkRange 8 9]" by code_simp
  with parseRanges_in_bounds [of 10 "''bytes=0-3,-2''" _ "mkRange 8 9"] show ?thesis by simp
qed

text \<open>
  The header \<open>rangeHeaders\<close> writes for a range is read back by \<open>parseRanges\<close> as exactly that
  range, clamped to the end of the value.
\<close>

theorem rangeHeaders_roundtrip:
  assumes "0 \<le> s" and "s \<le> e" and "s < len"
  shows "parseRanges (rangeHeaders (mkRange s e)) len = Some [mkRange s (min e (len - 1))]"
  using parseRanges_rangeHeaders [of "mkRange s e" len] assms by simp

theorem rangeHeaders_roundtrip_witness:
  "parseRanges (rangeHeaders (mkRange 3 20)) 10 = Some [mkRange 3 9]"
  using rangeHeaders_roundtrip [of 3 20 10] by simp

text \<open>
  The header \<^verbatim>\<open>bytes=-0\<close>, which asks for the last zero bytes, is answered with the empty list
  of ranges, the value that stands for the entire response.
\<close>

theorem parseRanges_empty_suffix:
  assumes "0 < len"
  shows "parseRanges ''bytes=-0'' len = Some []"
  using assms by (simp add: parseRanges_def rangePrefix_def parseRanges_loop.simps is_blank_def toLowerCase_def
      lower_char_def is_upper_def less_eq_char_def trimStart_def is_space_def rangeMatch_def digit_group_def
      is_digit_def toInt_def parseInt_def parse_unsigned_def digits_val_def digit_val_def Let_def)

theorem parseRanges_empty_suffix_witness: "parseRanges ''bytes=-0'' 10 = Some []"
  using parseRanges_empty_suffix [of 10] by simp

end
