(* ===== verification/Blob.thy ===== *)
theory Blob
  imports Encoding Ranges
begin

text \<open>
  \<open>BlobStore\<close> of \<^verbatim>\<open>packages/miniflare/src/workers/shared/blob.worker.ts\<close>: immutable values under
  unguessable identifiers, stored as files through the runtime's directory service.

  The directory service is not part of the repository: it is the parameter \<open>ds\<close> of the
  operations, and what they rely on of it (HTTP semantics of \<open>GET\<close>, \<open>HEAD\<close>, \<open>PUT\<close> and \<open>DELETE\<close> on a
  file) is the locale \<open>file_service\<close>. The clients of the store see the locale \<open>blob_store\<close>; the
  sublocale below shows that \<open>BlobStore\<close> over any such service provides it.
\<close>

subsection \<open>The directory service\<close>

record disk_response =
  dr_status :: nat
  dr_contentLength :: "string option"
  dr_body :: "bytes option"

text \<open>
  \<open>ds_url u\<close> is \<open>new URL(u).toString()\<close>; the requests take the URL, \<open>ds_get\<close> also the \<open>Range\<close> header.
\<close>

record 'd disk_service =
  ds_url :: "string \<Rightarrow> string"
  ds_get :: "'d \<Rightarrow> string \<Rightarrow> string option \<Rightarrow> disk_response"
  ds_head :: "'d \<Rightarrow> string \<Rightarrow> disk_response"
  ds_put :: "'d \<Rightarrow> string \<Rightarrow> bytes \<Rightarrow> 'd"
  ds_delete :: "'d \<Rightarrow> string \<Rightarrow> disk_response \<times> 'd"

definition res_ok :: "disk_response \<Rightarrow> bool" where
  "res_ok res \<longleftrightarrow> 200 \<le> dr_status res \<and> dr_status res < 300"

subsection \<open>Reading\<close>

definition assertFullRangeRequest :: "inclusiveRange \<Rightarrow> int \<Rightarrow> unit res" where
  "assertFullRangeRequest rng contentLength =
     check (rstart rng = 0 \<and> rend rng = contentLength - 1) AssertionError"

definition fetchSingleRange ::
  "'d disk_service \<Rightarrow> 'd \<Rightarrow> string \<Rightarrow> inclusiveRange option \<Rightarrow> bytes option res"
where
  "fetchSingleRange ds d url rng =
     (let res = ds_get ds d url (map_option rangeHeaders rng)
      in if dr_status res = 404 then Inr None
         else if \<not> (res_ok res \<and> dr_body res \<noteq> None) then Inl AssertionError
         else (case rng of
                 Some r \<Rightarrow>
                   if dr_status res \<noteq> 206 then
                     (case parseInt_opt (dr_contentLength res) of
                        None \<Rightarrow> Inl AssertionError
                      | Some contentLength \<Rightarrow>
                          andThen (assertFullRangeRequest r contentLength) (\<lambda>_. Inr (dr_body res)))
                   else Inr (dr_body res)
               | None \<Rightarrow> Inr (dr_body res)))"

definition encodeText :: "string \<Rightarrow> bytes" where
  "encodeText s = map (\<lambda>c. word_of_nat (of_char c)) s"

definition CRLF :: string where
  "CRLF = [CHR 0x0D, CHR 0x0A]"

text \<open>
  \<open>writeMultipleRanges\<close>: \<open>i\<close> is the loop index, \<open>out\<close> what has been written. The result is the whole
  body of the \<open>multipart/byteranges\<close> stream.
\<close>

fun writeMultipleRanges ::
  "'d disk_service \<Rightarrow> 'd \<Rightarrow> string \<Rightarrow> nat \<Rightarrow> inclusiveRange list \<Rightarrow> string \<Rightarrow> int \<Rightarrow> string option
   \<Rightarrow> bytes \<Rightarrow> bytes res"
where
  "writeMultipleRanges ds d url i [] boundary contentLength contentType out =
     Inr (out @ encodeText ((if i > 0 then CRLF else []) @ ''--'' @ boundary @ ''--''))"
| "writeMultipleRanges ds d url i (rng # ranges) boundary contentLength contentType out =
     (let head = (if i > 0 then CRLF else []) @ ''--'' @ boundary @ CRLF
                 @ (case contentType of Some t \<Rightarrow> ''Content-Type: '' @ t @ CRLF | None \<Rightarrow> [])
                 @ ''Content-Range: bytes '' @ show_int (rstart rng) @ ''-''
                 @ show_int (min (rend rng) (contentLength - 1)) @ ''/'' @ show_int contentLength
                 @ CRLF @ CRLF;
          res = ds_get ds d url (Some (rangeHeaders rng))
      in case dr_body res of
           None \<Rightarrow> Inl AssertionError
         | Some body \<Rightarrow>
             if \<not> res_ok res then Inl AssertionError
             else andThen
               (if dr_status res \<noteq> 206 then assertFullRangeRequest rng contentLength else Inr ())
               (\<lambda>_. writeMultipleRanges ds d url (Suc i) ranges boundary contentLength contentType
                      (out @ encodeText head @ body)))"

record multipartStream =
  multipartContentType :: string
  mp_body :: "bytes res"

text \<open>\<open>uuid\<close> is the value of \<open>crypto.randomUUID()\<close>.\<close>

definition fetchMultipleRanges ::
  "'d disk_service \<Rightarrow> 'd \<Rightarrow> string \<Rightarrow> inclusiveRange list \<Rightarrow> string option \<Rightarrow> string
   \<Rightarrow> multipartStream option res"
where
  "fetchMultipleRanges ds d url ranges contentType uuid =
     (let res = ds_head ds d url
      in if dr_status res = 404 then Inr None
         else if \<not> res_ok res then Inl AssertionError
         else (case parseInt_opt (dr_contentLength res) of
                 None \<Rightarrow> Inl AssertionError
               | Some contentLength \<Rightarrow>
                   (let boundary = ''miniflare-boundary-'' @ uuid
                    in Inr (Some \<lparr>multipartContentType = ''multipart/byteranges; boundary='' @ boundary,
                         mp_body = writeMultipleRanges ds d url 0 ranges boundary contentLength
                                     contentType []\<rparr>))))"

subsection \<open>The store\<close>

type_synonym nonce = "bytes \<times> int"

text \<open>\<open>writeBigInt64BE\<close>: the eight bytes of a 64-bit integer, most significant first.\<close>

definition int64_be :: "int \<Rightarrow> bytes" where
  "int64_be t = map (\<lambda>i. word_of_int (t div 256 ^ (7 - i))) [0..<8]"

definition generateBlobId :: "nonce \<Rightarrow> string" where
  "generateBlobId n = bytes_hex (fst n @ int64_be (snd n))"

record blobStore =
  baseURL :: string
  stickyBlobs :: bool

definition idURL :: "'d disk_service \<Rightarrow> blobStore \<Rightarrow> string \<Rightarrow> string option" where
  "idURL ds b bid =
     (let url = ds_url ds (baseURL b @ bid)
      in if startsWith url (baseURL b) then Some url else None)"

definition BlobStore_get ::
  "'d disk_service \<Rightarrow> blobStore \<Rightarrow> 'd \<Rightarrow> string \<Rightarrow> inclusiveRange option \<Rightarrow> bytes option res"
where
  "BlobStore_get ds b d bid rng =
     (case idURL ds b bid of None \<Rightarrow> Inr None | Some url \<Rightarrow> fetchSingleRange ds d url rng)"

definition BlobStore_getMultiple ::
  "'d disk_service \<Rightarrow> blobStore \<Rightarrow> 'd \<Rightarrow> string \<Rightarrow> inclusiveRange list \<Rightarrow> string option \<Rightarrow> string
   \<Rightarrow> multipartStream option res"
where
  "BlobStore_getMultiple ds b d bid ranges contentType uuid =
     (case idURL ds b bid of
        None \<Rightarrow> Inr None
      | Some url \<Rightarrow> fetchMultipleRanges ds d url ranges contentType uuid)"

definition BlobStore_put ::
  "'d disk_service \<Rightarrow> blobStore \<Rightarrow> 'd \<Rightarrow> nonce \<Rightarrow> bytes \<Rightarrow> string res \<times> 'd"
where
  "BlobStore_put ds b d n stream =
     (let bid = generateBlobId n
      in case idURL ds b bid of
           None \<Rightarrow> (Inl AssertionError, d)
         | Some url \<Rightarrow> (Inr bid, ds_put ds d url stream))"

definition BlobStore_delete ::
  "'d disk_service \<Rightarrow> blobStore \<Rightarrow> 'd \<Rightarrow> string \<Rightarrow> unit res \<times> 'd"
where
  "BlobStore_delete ds b d bid =
     (if stickyBlobs b then (Inr (), d)
      else (case idURL ds b bid of
              None \<Rightarrow> (Inr (), d)
            | Some url \<Rightarrow>
                (let (res, d') = ds_delete ds d url
                 in (check (res_ok res \<or> dr_status res = 404) AssertionError, d'))))"

subsection \<open>The multipart body of a value\<close>

text \<open>
  What a \<open>multipart/byteranges\<close> response of the value \<open>v\<close> has to be: a part with its own headers for
  every range, in order, closed by the boundary.
\<close>

definition multipart_part :: "string \<Rightarrow> string option \<Rightarrow> bytes \<Rightarrow> nat \<times> inclusiveRange \<Rightarrow> bytes" where
  "multipart_part boundary contentType v = (\<lambda>(i, r).
     encodeText ((if i > 0 then CRLF else []) @ ''--'' @ boundary @ CRLF
       @ (case contentType of Some t \<Rightarrow> ''Content-Type: '' @ t @ CRLF | None \<Rightarrow> [])
       @ ''Content-Range: bytes '' @ show_int (rstart r) @ ''-'' @ show_int (rend r) @ ''/''
       @ show_int (int (length v)) @ CRLF @ CRLF)
     @ slice r v)"

definition multipart_bytes :: "string \<Rightarrow> string option \<Rightarrow> inclusiveRange list \<Rightarrow> bytes \<Rightarrow> bytes" where
  "multipart_bytes boundary contentType rs v =
     concat (map (multipart_part boundary contentType v) (enumerate 0 rs))
     @ encodeText ((if rs \<noteq> [] then CRLF else []) @ ''--'' @ boundary @ ''--'')"

definition multipart_stream :: "string \<Rightarrow> string option \<Rightarrow> inclusiveRange list \<Rightarrow> bytes \<Rightarrow> multipartStream" where
  "multipart_stream uuid contentType rs v =
     \<lparr>multipartContentType = ''multipart/byteranges; boundary=miniflare-boundary-'' @ uuid,
      mp_body = Inr (multipart_bytes (''miniflare-boundary-'' @ uuid) contentType rs v)\<rparr>"

subsection \<open>The interface of the store\<close>

definition is_blob_id :: "string \<Rightarrow> bool" where
  "is_blob_id bid \<longleftrightarrow> set bid \<subseteq> set hex_alphabet"

lemma byte_hex_alphabet: "set (byte_hex w) \<subseteq> set hex_alphabet"
proof -
  have "unat w < 256" using unsigned_less [of w] by simp
  then have "unat w div 16 < 16" by (simp add: less_mult_imp_div_less)
  then show ?thesis by (simp add: byte_hex_def hex_digit_in)
qed

lemma is_blob_id_generate: "is_blob_id (generateBlobId n)"
  using byte_hex_alphabet by (auto simp: is_blob_id_def generateBlobId_def bytes_hex_def)

record 'd blob_ops =
  b_get :: "'d \<Rightarrow> string \<Rightarrow> inclusiveRange option \<Rightarrow> bytes option res"
  b_getMultiple :: "'d \<Rightarrow> string \<Rightarrow> inclusiveRange list \<Rightarrow> string option \<Rightarrow> string
                    \<Rightarrow> multipartStream option res"
  b_put :: "'d \<Rightarrow> nonce \<Rightarrow> bytes \<Rightarrow> string res \<times> 'd"
  b_delete :: "'d \<Rightarrow> string \<Rightarrow> unit res \<times> 'd"

definition BlobStore_ops :: "'d disk_service \<Rightarrow> blobStore \<Rightarrow> 'd blob_ops" where
  "BlobStore_ops ds b =
     \<lparr>b_get = BlobStore_get ds b, b_getMultiple = BlobStore_getMultiple ds b,
      b_put = BlobStore_put ds b, b_delete = BlobStore_delete ds b\<rparr>"

text \<open>
  What a client of the store relies on: \<open>contents\<close> reads the blobs of a store state. A blob is
  found under its identifier until it is deleted; a deletion touches no other blob (and, with
  sticky blobs, not even the deleted one).
\<close>

locale blob_store =
  fixes bs :: "'d blob_ops" and contents :: "'d \<Rightarrow> string \<Rightarrow> bytes option"
  assumes get_whole: "contents d bid = Some v \<Longrightarrow> b_get bs d bid None = Inr (Some v)"
    and get_part: "contents d bid = Some v \<Longrightarrow> range_in (int (length v)) r \<Longrightarrow>
      b_get bs d bid (Some r) = Inr (Some (slice r v))"
    and get_parts: "contents d bid = Some v \<Longrightarrow> list_all (range_in (int (length v))) rs \<Longrightarrow>
      b_getMultiple bs d bid rs contentType uuid = Inr (Some (multipart_stream uuid contentType rs v))"
    and put_result: "fst (b_put bs d n v) = Inr (generateBlobId n)"
    and put_contents: "contents (snd (b_put bs d n v)) = (contents d)(generateBlobId n \<mapsto> v)"
    and delete_other: "is_blob_id bid \<Longrightarrow> k \<noteq> bid \<Longrightarrow> contents (snd (b_delete bs d bid)) k = contents d k"
begin

lemma put_get:
  "b_put bs d n v = (Inr i, d') \<Longrightarrow> i = generateBlobId n \<and> b_get bs d' i None = Inr (Some v)"
  using put_result [of d n v] put_contents [of d n v] by (simp add: get_whole)

lemma put_keeps:
  "contents d k = Some w \<Longrightarrow> k \<noteq> generateBlobId n \<Longrightarrow> contents (snd (b_put bs d n v)) k = Some w"
  by (simp add: put_contents)

end

subsection \<open>BlobStore over a file service provides the interface\<close>

definition blob_contents ::
  "('d \<Rightarrow> string \<Rightarrow> bytes option) \<Rightarrow> blobStore \<Rightarrow> 'd \<Rightarrow> string \<Rightarrow> bytes option"
where
  "blob_contents files b d bid = (if is_blob_id bid then files d (baseURL b @ bid) else None)"

text \<open>
  The directory service is not part of the sources. What \<open>BlobStore\<close> relies on: a file is read
  whole or in part as HTTP prescribes, a put replaces it, a delete removes it, and joining a
  hexadecimal name to the base URL appends it.
\<close>

locale file_service =
  fixes ds :: "'d disk_service" and files :: "'d \<Rightarrow> string \<Rightarrow> bytes option" and b :: blobStore
  assumes url_id: "is_blob_id bid \<Longrightarrow> ds_url ds (baseURL b @ bid) = baseURL b @ bid"
    and get_full: "files d u = Some v \<Longrightarrow>
      ds_get ds d u None = \<lparr>dr_status = 200, dr_contentLength = Some (show_int (int (length v))), dr_body = Some v\<rparr>"
    and get_range: "files d u = Some v \<Longrightarrow> range_in (int (length v)) r \<Longrightarrow>
      ds_get ds d u (Some (rangeHeaders r)) =
        \<lparr>dr_status = 206, dr_contentLength = Some (show_int (rend r - rstart r + 1)), dr_body = Some (slice r v)\<rparr>"
    and head_file: "files d u = Some v \<Longrightarrow> dr_status (ds_head ds d u) = 200 \<and>
      dr_contentLength (ds_head ds d u) = Some (show_int (int (length v)))"
    and put_file: "files (ds_put ds d u v) = (files d)(u \<mapsto> v)"
    and delete_file: "files (snd (ds_delete ds d u)) = (files d)(u := None)"
begin

lemma idURL_blob: "is_blob_id bid \<Longrightarrow> idURL ds b bid = Some (baseURL b @ bid)"
  by (simp add: idURL_def url_id)

lemma contents_put:
  "blob_contents files b (snd (BlobStore_put ds b d n v)) = (blob_contents files b d)(generateBlobId n \<mapsto> v)"
  by (rule ext)
     (simp add: BlobStore_put_def Let_def idURL_blob is_blob_id_generate blob_contents_def put_file)

lemma contents_delete:
  assumes "is_blob_id bid" "k \<noteq> bid"
  shows "blob_contents files b (snd (BlobStore_delete ds b d bid)) k = blob_contents files b d k"
  using assms
  by (simp add: BlobStore_delete_def idURL_blob blob_contents_def delete_file split: prod.split)
     (metis delete_file fun_upd_other same_append_eq snd_conv)

lemma contents_url:
  "blob_contents files b d bid = Some v \<Longrightarrow> is_blob_id bid \<and> files d (baseURL b @ bid) = Some v"
  by (simp add: blob_contents_def split: if_splits)

end

context file_service
begin

lemma writeMultipleRanges_parts:
  assumes "files d u = Some v" "list_all (range_in (int (length v))) rs"
  shows "writeMultipleRanges ds d u i rs boundary (int (length v)) contentType out =
    Inr (out @ concat (map (multipart_part boundary contentType v) (enumerate i rs))
         @ encodeText ((if i + length rs > 0 then CRLF else []) @ ''--'' @ boundary @ ''--''))"
  using assms(2)
proof (induction rs arbitrary: i out)
  case (Cons r rs)
  then have r: "range_in (int (length v)) r" by simp
  then have "min (rend r) (int (length v) - 1) = rend r" by (simp add: range_in_def)
  with Cons.IH [of "Suc i"] Cons.prems show ?case
    by (simp add: get_range [OF assms(1) r] res_ok_def multipart_part_def)
qed simp

lemma fetchMultipleRanges_parts:
  assumes "files d u = Some v" "list_all (range_in (int (length v))) rs"
  shows "fetchMultipleRanges ds d u rs contentType uuid = Inr (Some (multipart_stream uuid contentType rs v))"
  using head_file [OF assms(1)] writeMultipleRanges_parts [OF assms, of 0]
  by (simp add: fetchMultipleRanges_def Let_def res_ok_def parseInt_opt_def multipart_stream_def
      multipart_bytes_def)

end

sublocale file_service \<subseteq> blob_store "BlobStore_ops ds b" "blob_contents files b"
proof
  fix d bid v r rs n k contentType uuid
  show "b_getMultiple (BlobStore_ops ds b) d bid rs contentType uuid =
      Inr (Some (multipart_stream uuid contentType rs v))"
    if "blob_contents files b d bid = Some v" "list_all (range_in (int (length v))) rs"
    using contents_url [OF that(1)] fetchMultipleRanges_parts [OF _ that(2)]
    by (simp add: BlobStore_ops_def BlobStore_getMultiple_def idURL_blob)
  show "b_get (BlobStore_ops ds b) d bid None = Inr (Some v)" if "blob_contents files b d bid = Some v"
    using contents_url [OF that]
    by (simp add: BlobStore_ops_def BlobStore_get_def idURL_blob fetchSingleRange_def get_full res_ok_def)
  show "b_get (BlobStore_ops ds b) d bid (Some r) = Inr (Some (slice r v))"
    if "blob_contents files b d bid = Some v" "range_in (int (length v)) r"
    using contents_url [OF that(1)] that(2)
    by (simp add: BlobStore_ops_def BlobStore_get_def idURL_blob fetchSingleRange_def get_range res_ok_def)
  show "fst (b_put (BlobStore_ops ds b) d n v) = Inr (generateBlobId n)"
    by (simp add: BlobStore_ops_def BlobStore_put_def Let_def idURL_blob is_blob_id_generate)
  show "blob_contents files b (snd (b_put (BlobStore_ops ds b) d n v)) = (blob_contents files b d)(generateBlobId n \<mapsto> v)"
    using contents_put [of d n v] by (simp add: BlobStore_ops_def)
  show "blob_contents files b (snd (b_delete (BlobStore_ops ds b) d bid)) k = blob_contents files b d k"
    if "is_blob_id bid" "k \<noteq> bid"
    using contents_delete [OF that] by (simp add: BlobStore_ops_def)
qed

context file_service
begin

lemma provides_blob_store: "blob_store (BlobStore_ops ds b) (blob_contents files b)"
  by (rule blob_store_axioms)

end

subsection \<open>A file service in memory\<close>

text \<open>
  A directory service that keeps its files in a map and answers as HTTP prescribes. It shows that
  the laws of \<open>file_service\<close> can hold and evaluates in the examples of the development.
\<close>

definition mem_get :: "(string \<Rightarrow> bytes option) \<Rightarrow> string \<Rightarrow> string option \<Rightarrow> disk_response" where
  "mem_get d u hdr =
     (case d u of
        None \<Rightarrow> \<lparr>dr_status = 404, dr_contentLength = None, dr_body = None\<rparr>
      | Some v \<Rightarrow>
          (case Option.bind hdr (\<lambda>h. parseRanges h (int (length v))) of
             Some [r] \<Rightarrow> \<lparr>dr_status = 206, dr_contentLength = Some (show_int (rend r - rstart r + 1)),
                          dr_body = Some (slice r v)\<rparr>
           | _ \<Rightarrow> \<lparr>dr_status = 200, dr_contentLength = Some (show_int (int (length v))), dr_body = Some v\<rparr>))"

definition mem_service :: "(string \<Rightarrow> bytes option) disk_service" where
  "mem_service =
     \<lparr>ds_url = (\<lambda>u. u), ds_get = mem_get, ds_head = (\<lambda>d u. mem_get d u None),
      ds_put = (\<lambda>d u v. d(u \<mapsto> v)),
      ds_delete = (\<lambda>d u. (\<lparr>dr_status = (if d u = None then 404 else 204), dr_contentLength = None,
                           dr_body = None\<rparr>, d(u := None)))\<rparr>"

interpretation mem: file_service mem_service "\<lambda>d. d" b for b
proof
  fix d :: "string \<Rightarrow> bytes option" and u v r
  assume "d u = Some v" and r: "range_in (int (length v)) r"
  moreover have "parseRanges (rangeHeaders r) (int (length v)) = Some [r]"
    using parseRanges_rangeHeaders [of r "int (length v)"] r
    by (auto simp: range_in_def min_def mkRange_def)
  ultimately show "ds_get mem_service d u (Some (rangeHeaders r)) =
      \<lparr>dr_status = 206, dr_contentLength = Some (show_int (rend r - rstart r + 1)), dr_body = Some (slice r v)\<rparr>"
    by (simp add: mem_service_def mem_get_def)
qed (simp_all add: mem_service_def mem_get_def)

end
