(* ===== verification/KeyValue.thy ===== *)
theory KeyValue
  imports Blob
begin

text \<open>
  \<open>KeyValueStorage\<close> of \<^verbatim>\<open>packages/miniflare/src/workers/shared/keyvalue.worker.ts\<close>: the store with
  expiring entries behind the KV and Cache simulators. Metadata is in the SQLite table
  \<open>_mf_entries\<close>, values are blobs, and blobs no row refers to any more are deleted in the
  background.

  The table is the list of its rows; each SQL statement is a function on it. A \<open>metadata\<close> column
  holds the JSON text of a value and is read back with \<open>JSON.parse\<close>; the model keeps the value.
\<close>

record 'm kv_row =
  kr_key :: string
  kr_blob :: string
  kr_expiration :: "int option"
  kr_metadata :: "'m option"

record ('m, 'd) kvs =
  kv_rows :: "'m kv_row list"
  kv_disk :: 'd
  kv_pending :: "string list"

subsection \<open>The statements (\<open>sqlStmts\<close>)\<close>

definition stmt_getByKey :: "'m kv_row list \<Rightarrow> string \<Rightarrow> 'm kv_row option" where
  "stmt_getByKey rows key = find (\<lambda>r. kr_key r = key) rows"

text \<open>\<open>INSERT OR REPLACE\<close> on the primary key; the transaction returns the replaced blob.\<close>

definition stmt_put :: "'m kv_row list \<Rightarrow> 'm kv_row \<Rightarrow> string option \<times> 'm kv_row list" where
  "stmt_put rows newEntry =
     (map_option kr_blob (stmt_getByKey rows (kr_key newEntry)),
      filter (\<lambda>r. kr_key r \<noteq> kr_key newEntry) rows @ [newEntry])"

definition stmt_deleteByKey :: "'m kv_row list \<Rightarrow> string \<Rightarrow> 'm kv_row option \<times> 'm kv_row list" where
  "stmt_deleteByKey rows key = (stmt_getByKey rows key, filter (\<lambda>r. kr_key r \<noteq> key) rows)"

text \<open>\<open>expiration < :now\<close>, false for \<open>NULL\<close>.\<close>

definition sql_expired :: "int \<Rightarrow> 'm kv_row \<Rightarrow> bool" where
  "sql_expired now r = (case kr_expiration r of None \<Rightarrow> False | Some e \<Rightarrow> e < now)"

definition stmt_deleteExpired :: "'m kv_row list \<Rightarrow> int \<Rightarrow> string list \<times> 'm kv_row list" where
  "stmt_deleteExpired rows now =
     (map kr_blob (filter (sql_expired now) rows), filter (\<lambda>r. \<not> sql_expired now r) rows)"

definition list_match :: "int \<Rightarrow> string \<Rightarrow> string \<Rightarrow> 'm kv_row \<Rightarrow> bool" where
  "list_match now pre start_after r \<longleftrightarrow>
     startsWith (kr_key r) pre \<and> kr_key r > start_after \<and> \<not> sql_expired now r"

definition stmt_list ::
  "'m kv_row list \<Rightarrow> int \<Rightarrow> string \<Rightarrow> string \<Rightarrow> nat \<Rightarrow> 'm kv_row list"
where
  "stmt_list rows now pre start_after limit =
     take limit (sort_key kr_key (filter (list_match now pre start_after) rows))"

subsection \<open>Entries and options\<close>

record 'm key_entry =
  ke_key :: string
  ke_expiration :: "int option"
  ke_metadata :: "'m option"

datatype kv_value = Body bytes | Multipart multipartStream

record 'm key_value_entry = "'m key_entry" +
  ke_value :: kv_value

record key_query =
  q_prefix :: "string option"
  q_cursor :: "string option"
  q_limit :: nat

record 'm key_entries =
  kes_keys :: "'m key_entry list"
  kes_cursor :: "string option"

record range_opts =
  ro_ranges :: "inclusiveRange list option"
  ro_contentType :: "string option"

definition rowEntry :: "'m kv_row \<Rightarrow> 'm key_entry" where
  "rowEntry r = \<lparr>ke_key = kr_key r, ke_expiration = kr_expiration r, ke_metadata = kr_metadata r\<rparr>"

definition withValue :: "'m key_entry \<Rightarrow> kv_value \<Rightarrow> 'm key_value_entry" where
  "withValue e v =
     \<lparr>ke_key = ke_key e, ke_expiration = ke_expiration e, ke_metadata = ke_metadata e, ke_value = v\<rparr>"

subsection \<open>The operations\<close>

definition hasExpired :: "int \<Rightarrow> 'm kv_row \<Rightarrow> bool" where
  "hasExpired now r = (case kr_expiration r of None \<Rightarrow> False | Some e \<Rightarrow> e \<le> now)"

text \<open>
  \<open>#backgroundDelete\<close> queues a microtask; \<open>run_background_delete\<close> is the microtask, which runs at
  any later point and ignores errors.
\<close>

definition backgroundDelete :: "('m, 'd) kvs \<Rightarrow> string \<Rightarrow> ('m, 'd) kvs" where
  "backgroundDelete st blobId = st\<lparr>kv_pending := kv_pending st @ [blobId]\<rparr>"

definition run_background_delete ::
  "'d blob_ops \<Rightarrow> string \<Rightarrow> ('m, 'd) kvs \<Rightarrow> ('m, 'd) kvs"
where
  "run_background_delete bs blobId st =
     (if blobId \<in> set (kv_pending st)
      then st\<lparr>kv_disk := snd (b_delete bs (kv_disk st) blobId),
              kv_pending := remove1 blobId (kv_pending st)\<rparr>
      else st)"

definition kvs_get ::
  "'d blob_ops \<Rightarrow> int \<Rightarrow> ('m \<Rightarrow> range_opts res) option \<Rightarrow> string \<Rightarrow> string \<Rightarrow> ('m, 'd) kvs
   \<Rightarrow> 'm key_value_entry option res \<times> ('m, 'd) kvs"
where
  "kvs_get bs now optsFactory uuid key st =
     (case stmt_getByKey (kv_rows st) key of
        None \<Rightarrow> (Inr None, st)
      | Some row \<Rightarrow>
          if hasExpired now row then
            (Inr None,
             backgroundDelete (st\<lparr>kv_rows := snd (stmt_deleteByKey (kv_rows st) key)\<rparr>) (kr_blob row))
          else
            (let entry = rowEntry row;
                 opts = (case (ke_metadata entry, optsFactory) of
                           (Some m, Some f) \<Rightarrow> andThen (f m) (\<lambda>o'. Inr (Some o'))
                         | _ \<Rightarrow> Inr None)
             in (andThen opts (\<lambda>o'.
                   case Option.bind o' ro_ranges of
                     Some (r1 # r2 # rs) \<Rightarrow>
                       andThen (b_getMultiple bs (kv_disk st) (kr_blob row) (r1 # r2 # rs)
                                  (Option.bind o' ro_contentType) uuid)
                         (\<lambda>v. Inr (map_option (\<lambda>s. withValue entry (Multipart s)) v))
                   | rs \<Rightarrow>
                       andThen (b_get bs (kv_disk st) (kr_blob row)
                                  (case rs of Some (r1 # _) \<Rightarrow> Some r1 | _ \<Rightarrow> None))
                         (\<lambda>v. Inr (map_option (\<lambda>s. withValue entry (Body s)) v))),
                 st)))"

definition kvs_put ::
  "'d blob_ops \<Rightarrow> nonce \<Rightarrow> bool \<Rightarrow> string \<Rightarrow> bytes \<Rightarrow> int option \<Rightarrow> 'm option \<Rightarrow> ('m, 'd) kvs
   \<Rightarrow> unit res \<times> ('m, 'd) kvs"
where
  "kvs_put bs n aborted key value expiration metadata st =
     (if key = [] then (Inl AssertionError, st)
      else
        (let (r, d) = b_put bs (kv_disk st) n value; st1 = st\<lparr>kv_disk := d\<rparr>
         in case r of
              Inl e \<Rightarrow> (Inl e, st1)
            | Inr blobId \<Rightarrow>
                if aborted then (Inl AbortError, backgroundDelete st1 blobId)
                else
                  (let (maybeOldBlobId, rows) =
                         stmt_put (kv_rows st1)
                           \<lparr>kr_key = key, kr_blob = blobId, kr_expiration = expiration,
                            kr_metadata = metadata\<rparr>;
                       st2 = st1\<lparr>kv_rows := rows\<rparr>
                   in (Inr (),
                       (case maybeOldBlobId of
                          None \<Rightarrow> st2
                        | Some old \<Rightarrow> backgroundDelete st2 old)))))"

definition kvs_delete :: "int \<Rightarrow> string \<Rightarrow> ('m, 'd) kvs \<Rightarrow> bool \<times> ('m, 'd) kvs" where
  "kvs_delete now key st =
     (let (row, rows) = stmt_deleteByKey (kv_rows st) key; st1 = st\<lparr>kv_rows := rows\<rparr>
      in case row of
           None \<Rightarrow> (False, st1)
         | Some r \<Rightarrow> (\<not> hasExpired now r, backgroundDelete st1 (kr_blob r)))"

definition kvs_list ::
  "int \<Rightarrow> key_query \<Rightarrow> ('m, 'd) kvs \<Rightarrow> 'm key_entries res \<times> ('m, 'd) kvs"
where
  "kvs_list now opts st =
     (let pre = (case q_prefix opts of None \<Rightarrow> [] | Some p \<Rightarrow> p);
          start_after = (case q_cursor opts of None \<Rightarrow> [] | Some c \<Rightarrow> base64Decode c);
          limit = q_limit opts + 1;
          rows = stmt_list (kv_rows st) now pre start_after limit;
          (expiredRows, rest) = stmt_deleteExpired (kv_rows st) now;
          st1 = fold (\<lambda>b s. backgroundDelete s b) expiredRows (st\<lparr>kv_rows := rest\<rparr>);
          hasMoreRows = (length rows = q_limit opts + 1);
          rows1 = take (q_limit opts) rows;
          keys = map rowEntry rows1
      in (if hasMoreRows \<and> q_limit opts = 0 then Inl TypeError
          else Inr \<lparr>kes_keys = keys,
                    kes_cursor = (if hasMoreRows
                                  then Some (base64Encode (kr_key (rows1 ! (q_limit opts - 1))))
                                  else None)\<rparr>,
          st1))"

subsection \<open>The invariant and the abstract view\<close>

text \<open>
  Keys are unique and non-empty, no blob belongs to two rows or to a row and the garbage queue, and
  every row's blob is on disk.
\<close>

definition kvs_inv :: "('d \<Rightarrow> string \<Rightarrow> bytes option) \<Rightarrow> ('m, 'd) kvs \<Rightarrow> bool" where
  "kvs_inv contents st \<longleftrightarrow>
     distinct (map kr_key (kv_rows st)) \<and> [] \<notin> kr_key ` set (kv_rows st)
     \<and> distinct (map kr_blob (kv_rows st) @ kv_pending st)
     \<and> (\<forall>b \<in> set (map kr_blob (kv_rows st) @ kv_pending st). is_blob_id b)
     \<and> (\<forall>r \<in> set (kv_rows st). contents (kv_disk st) (kr_blob r) \<noteq> None)"

text \<open>What a reader sees at time \<open>now\<close>: a partial map from keys to entries.\<close>

definition kvs_view ::
  "('d \<Rightarrow> string \<Rightarrow> bytes option) \<Rightarrow> int \<Rightarrow> ('m, 'd) kvs \<Rightarrow> string \<Rightarrow> 'm key_value_entry option"
where
  "kvs_view contents now st key =
     (case stmt_getByKey (kv_rows st) key of
        None \<Rightarrow> None
      | Some r \<Rightarrow> if hasExpired now r then None
                  else map_option (\<lambda>v. withValue (rowEntry r) (Body v))
                         (contents (kv_disk st) (kr_blob r)))"

text \<open>The nonce of a put gives an identifier no blob of this store has.\<close>

definition kvs_fresh :: "('m, 'd) kvs \<Rightarrow> nonce \<Rightarrow> bool" where
  "kvs_fresh st n \<longleftrightarrow> generateBlobId n \<notin> set (map kr_blob (kv_rows st) @ kv_pending st)"

lemma hasExpired_mono: "hasExpired now r \<Longrightarrow> now \<le> now' \<Longrightarrow> hasExpired now' r"
  by (auto simp: hasExpired_def split: option.splits)

lemma sql_expired_hasExpired: "sql_expired now r \<Longrightarrow> hasExpired now r"
  by (auto simp: hasExpired_def sql_expired_def split: option.splits)

lemma fold_backgroundDelete:
  "fold (\<lambda>b s. backgroundDelete s b) bs st = st\<lparr>kv_pending := kv_pending st @ bs\<rparr>"
  by (induction bs arbitrary: st) (simp_all add: backgroundDelete_def)

text \<open>Removing rows whose blobs go to the garbage queue keeps the invariant.\<close>

lemma kvs_inv_remove:
  assumes "kvs_inv contents st"
  shows "kvs_inv contents
    (st\<lparr>kv_rows := filter Q (kv_rows st),
        kv_pending := kv_pending st @ map kr_blob (filter (\<lambda>r. \<not> Q r) (kv_rows st))\<rparr>)"
proof -
  have d: "distinct (map kr_blob (filter Q (kv_rows st) @ filter (\<lambda>r. \<not> Q r) (kv_rows st)))"
    using assms by (auto simp: kvs_inv_def distinct_map distinct_map_filter inj_on_def)
  with assms show ?thesis by (auto simp: kvs_inv_def distinct_map_filter)
qed

lemma filter_key_row:
  assumes "distinct (map kr_key rows)" "stmt_getByKey rows key = Some r"
  shows "filter (\<lambda>x. \<not> kr_key x \<noteq> key) rows = [r]"
  using assms
proof (induction rows)
  case (Cons x rows)
  then show ?case
    by (auto simp: stmt_getByKey_def filter_empty_conv split: if_splits) (metis image_eqI)
qed (simp add: stmt_getByKey_def)

lemma kvs_inv_deleteRow:
  assumes "kvs_inv contents st" "stmt_getByKey (kv_rows st) key = Some r"
  shows "kvs_inv contents
    (backgroundDelete (st\<lparr>kv_rows := snd (stmt_deleteByKey (kv_rows st) key)\<rparr>) (kr_blob r))"
proof -
  have "filter (\<lambda>x. \<not> kr_key x \<noteq> key) (kv_rows st) = [r]"
    using assms by (intro filter_key_row) (auto simp: kvs_inv_def)
  with kvs_inv_remove [OF assms(1), of "\<lambda>x. kr_key x \<noteq> key"] show ?thesis
    by (simp add: backgroundDelete_def stmt_deleteByKey_def)
qed

lemma kvs_inv_filter_None:
  assumes "kvs_inv contents st" "stmt_getByKey (kv_rows st) key = None"
  shows "kvs_inv contents (st\<lparr>kv_rows := filter (\<lambda>r. kr_key r \<noteq> key) (kv_rows st)\<rparr>)"
proof -
  have "filter (\<lambda>r. kr_key r \<noteq> key) (kv_rows st) = kv_rows st"
    using assms(2) by (auto simp: stmt_getByKey_def find_None_iff filter_id_conv)
  with assms(1) show ?thesis by simp
qed

lemma getByKey_mem: "stmt_getByKey rows key = Some r \<Longrightarrow> r \<in> set rows \<and> kr_key r = key"
  unfolding stmt_getByKey_def by (rule find_key_mem)

lemma kvs_fresh_row:
  "kvs_fresh st n \<Longrightarrow> stmt_getByKey (kv_rows st) k = Some r \<Longrightarrow> kr_blob r \<noteq> generateBlobId n"
  unfolding kvs_fresh_def by (metis UnCI getByKey_mem imageI list.set_map set_append)

subsection \<open>Each operation keeps the invariant and updates the view\<close>

context blob_store
begin

lemma kvs_inv_get: "kvs_inv contents st \<Longrightarrow> kvs_inv contents (snd (kvs_get bs now f uuid key st))"
  by (auto simp: kvs_get_def Let_def kvs_inv_deleteRow split: option.splits)

lemma kvs_inv_delete: "kvs_inv contents st \<Longrightarrow> kvs_inv contents (snd (kvs_delete now key st))"
  using kvs_inv_deleteRow [of contents st key] kvs_inv_filter_None [of contents st key]
  by (cases "stmt_getByKey (kv_rows st) key") (simp_all add: kvs_delete_def stmt_deleteByKey_def)

lemma kvs_inv_list: "kvs_inv contents st \<Longrightarrow> kvs_inv contents (snd (kvs_list now opts st))"
  using kvs_inv_remove [of contents st "\<lambda>r. \<not> sql_expired now r"]
  by (simp add: kvs_list_def stmt_deleteExpired_def Let_def fold_backgroundDelete)

lemma kvs_inv_run: 
  assumes "kvs_inv contents st"
  shows "kvs_inv contents (run_background_delete bs b st)"
proof (cases "b \<in> set (kv_pending st)")
  case True
  with assms have "is_blob_id b" "\<forall>r \<in> set (kv_rows st). kr_blob r \<noteq> b"
    by (auto simp: kvs_inv_def)
  with assms show ?thesis
    by (auto simp: run_background_delete_def kvs_inv_def delete_other dest: notin_set_remove1
        intro: set_remove1_subset [THEN subsetD])
next
  case False
  with assms show ?thesis by (simp add: run_background_delete_def)
qed

lemma kvs_put_eq:
  assumes "key \<noteq> []"
  shows "kvs_put bs n ab key v e m st =
    (let d = snd (b_put bs (kv_disk st) n v);
         row = \<lparr>kr_key = key, kr_blob = generateBlobId n, kr_expiration = e, kr_metadata = m\<rparr>
     in if ab then (Inl AbortError, backgroundDelete (st\<lparr>kv_disk := d\<rparr>) (generateBlobId n))
        else (Inr (),
          st\<lparr>kv_disk := d, kv_rows := filter (\<lambda>r. kr_key r \<noteq> key) (kv_rows st) @ [row],
             kv_pending := kv_pending st @
               map kr_blob (case stmt_getByKey (kv_rows st) key of None \<Rightarrow> [] | Some r \<Rightarrow> [r])\<rparr>))"
  using assms put_result [of "kv_disk st" n v]
  by (auto simp: kvs_put_def Let_def stmt_put_def backgroundDelete_def split: prod.splits option.splits)

lemma kvs_inv_put:
  assumes "kvs_inv contents st" "kvs_fresh st n"
  shows "kvs_inv contents (snd (kvs_put bs n ab key v e m st))"
proof (cases "key = []")
  case True
  with assms show ?thesis by (simp add: kvs_put_def)
next
  case False
  have keep: "\<forall>r \<in> set (kv_rows st). contents (snd (b_put bs (kv_disk st) n v)) (kr_blob r) \<noteq> None"
    using assms(1) by (simp add: kvs_inv_def put_contents)
  show ?thesis
  proof (cases ab)
    case True
    with assms False keep show ?thesis
      by (auto simp: kvs_put_eq Let_def backgroundDelete_def kvs_inv_def kvs_fresh_def is_blob_id_generate)
  next
    case no_abort: False
    have rows: "(case stmt_getByKey (kv_rows st) key of None \<Rightarrow> [] | Some r \<Rightarrow> [r])
      = filter (\<lambda>x. \<not> kr_key x \<noteq> key) (kv_rows st)"
      using assms(1) filter_key_row [of "kv_rows st" key]
      by (auto simp: kvs_inv_def stmt_getByKey_def find_None_iff filter_empty_conv split: option.splits)
    note rm = kvs_inv_remove [OF assms(1), of "\<lambda>x. kr_key x \<noteq> key"]
    with assms False no_abort keep show ?thesis
      unfolding kvs_put_eq [OF False] Let_def rows
      by (auto simp: kvs_inv_def kvs_fresh_def is_blob_id_generate put_contents)
  qed
qed

lemma kvs_view_get:
  assumes "kvs_inv contents st" "now \<le> now'"
  shows "fst (kvs_get bs now None uuid key st) = Inr (kvs_view contents now st key)"
    and "kvs_view contents now' (snd (kvs_get bs now f uuid key st)) = kvs_view contents now' st"
proof -
  show "fst (kvs_get bs now None uuid key st) = Inr (kvs_view contents now st key)"
  proof (cases "stmt_getByKey (kv_rows st) key")
    case (Some r)
    then have "r \<in> set (kv_rows st)" by (auto simp: stmt_getByKey_def dest: find_key_mem)
    with assms(1) obtain v where "contents (kv_disk st) (kr_blob r) = Some v"
      by (auto simp: kvs_inv_def)
    with Some show ?thesis
      by (simp add: kvs_get_def kvs_view_def Let_def get_whole split: option.split)
  qed (simp add: kvs_get_def kvs_view_def)
  show "kvs_view contents now' (snd (kvs_get bs now f uuid key st)) = kvs_view contents now' st"
    using assms(2)
    by (auto simp: kvs_get_def kvs_view_def Let_def fun_eq_iff stmt_deleteByKey_def stmt_getByKey_def
        backgroundDelete_def table_simps hasExpired_mono split: option.splits)
qed

lemma kvs_view_put:
  assumes "kvs_inv contents st" "kvs_fresh st n" "key \<noteq> []"
  shows "kvs_view contents now (snd (kvs_put bs n False key v e m st)) =
    (kvs_view contents now st)(key :=
       (if (case e of None \<Rightarrow> False | Some t \<Rightarrow> t \<le> now) then None
        else Some \<lparr>ke_key = key, ke_expiration = e, ke_metadata = m, ke_value = Body v\<rparr>))"
proof
  fix k
  have "kr_blob r \<noteq> generateBlobId n" if "find (\<lambda>r. kr_key r = k) (kv_rows st) = Some r" for r
    using that kvs_fresh_row [OF assms(2)] by (simp add: stmt_getByKey_def)
  then show "kvs_view contents now (snd (kvs_put bs n False key v e m st)) k =
    ((kvs_view contents now st)(key :=
       (if (case e of None \<Rightarrow> False | Some t \<Rightarrow> t \<le> now) then None
        else Some \<lparr>ke_key = key, ke_expiration = e, ke_metadata = m, ke_value = Body v\<rparr>))) k"
    using assms(3)
    by (auto simp: kvs_put_eq kvs_view_def Let_def stmt_getByKey_def table_simps put_contents
        hasExpired_def withValue_def rowEntry_def split: option.splits)
qed

lemma kvs_view_abort:
  assumes "kvs_inv contents st" "kvs_fresh st n"
  shows "kvs_view contents now (snd (kvs_put bs n True key v e m st)) = kvs_view contents now st"
proof (cases "key = []")
  case False
  with kvs_fresh_row [OF assms(2)] show ?thesis
    by (auto simp: kvs_put_eq kvs_view_def Let_def backgroundDelete_def put_contents fun_eq_iff
        split: option.splits)
qed (simp add: kvs_put_def)

lemma kvs_view_delete:
  assumes "kvs_inv contents st"
  shows "kvs_view contents now' (snd (kvs_delete now key st)) = (kvs_view contents now' st)(key := None)"
    and "fst (kvs_delete now key st) \<longleftrightarrow> kvs_view contents now st key \<noteq> None"
proof -
  show "kvs_view contents now' (snd (kvs_delete now key st)) = (kvs_view contents now' st)(key := None)"
    by (auto simp: kvs_delete_def kvs_view_def Let_def fun_eq_iff stmt_deleteByKey_def stmt_getByKey_def
        backgroundDelete_def table_simps split: option.splits)
  show "fst (kvs_delete now key st) \<longleftrightarrow> kvs_view contents now st key \<noteq> None"
    using assms
    by (auto simp: kvs_delete_def kvs_view_def Let_def stmt_deleteByKey_def stmt_getByKey_def kvs_inv_def
        dest: find_key_mem split: option.splits)
qed

lemma kvs_view_list:
  assumes "kvs_inv contents st" "now \<le> now'"
  shows "kvs_view contents now' (snd (kvs_list now opts st)) = kvs_view contents now' st"
proof
  fix k
  let ?Q = "\<lambda>r. \<not> sql_expired now r"
  have st: "snd (kvs_list now opts st) = st\<lparr>kv_rows := filter ?Q (kv_rows st),
      kv_pending := kv_pending st @ map kr_blob (filter (sql_expired now) (kv_rows st))\<rparr>"
    by (simp add: kvs_list_def stmt_deleteExpired_def Let_def fold_backgroundDelete)
  have d: "distinct (map kr_key (kv_rows st))" using assms(1) by (simp add: kvs_inv_def)
  show "kvs_view contents now' (snd (kvs_list now opts st)) k = kvs_view contents now' st k"
  proof (cases "stmt_getByKey (kv_rows st) k")
    case None
    then show ?thesis by (simp add: st kvs_view_def stmt_getByKey_def find_filter_None)
  next
    case (Some r)
    show ?thesis
    proof (cases "sql_expired now r")
      case True
      then have "hasExpired now' r"
        using assms(2) sql_expired_hasExpired hasExpired_mono by blast
      moreover have "stmt_getByKey (filter ?Q (kv_rows st)) k = None"
        using find_filter_dropped [OF d, of k r ?Q] Some True by (simp add: stmt_getByKey_def)
      ultimately show ?thesis using Some by (simp add: st kvs_view_def)
    next
      case False
      then have "stmt_getByKey (filter ?Q (kv_rows st)) k = Some r"
        using Some by (simp add: stmt_getByKey_def find_filter_Some)
      then show ?thesis using Some by (simp add: st kvs_view_def)
    qed
  qed
qed

lemma kvs_view_run:
  assumes "kvs_inv contents st"
  shows "kvs_view contents now (run_background_delete bs b st) = kvs_view contents now st"
proof (cases "b \<in> set (kv_pending st)")
  case True
  have "is_blob_id b" using assms True by (auto simp: kvs_inv_def)
  moreover have "kr_blob r \<noteq> b" if "stmt_getByKey (kv_rows st) k = Some r" for r k
    using that assms True by (auto simp: kvs_inv_def stmt_getByKey_def dest!: find_key_mem)
  ultimately show ?thesis
    by (auto simp: run_background_delete_def kvs_view_def fun_eq_iff delete_other split: option.splits)
qed (simp add: run_background_delete_def)

end

subsection \<open>Every reachable state is well formed\<close>

text \<open>
  The steps of a store: any operation of a client, a background deletion, or time passing. A put
  draws a nonce whose identifier no blob of the store has.
\<close>

inductive kvs_step ::
  "'d blob_ops \<Rightarrow> int \<times> ('m, 'd) kvs \<Rightarrow> int \<times> ('m, 'd) kvs \<Rightarrow> bool" for bs
where
  step_get: "kvs_step bs (now, st) (now, snd (kvs_get bs now f uuid key st))"
| step_put: "kvs_fresh st n \<Longrightarrow> kvs_step bs (now, st) (now, snd (kvs_put bs n ab key v e m st))"
| step_delete: "kvs_step bs (now, st) (now, snd (kvs_delete now key st))"
| step_list: "kvs_step bs (now, st) (now, snd (kvs_list now opts st))"
| step_run: "kvs_step bs (now, st) (now, run_background_delete bs b st)"
| step_time: "now \<le> now' \<Longrightarrow> kvs_step bs (now, st) (now', st)"

inductive_cases kvs_stepE: "kvs_step bs (now, st) (now', st')"

definition kvs_init :: "'d \<Rightarrow> ('m, 'd) kvs" where
  "kvs_init d = \<lparr>kv_rows = [], kv_disk = d, kv_pending = []\<rparr>"

inductive kvs_reachable :: "'d blob_ops \<Rightarrow> int \<Rightarrow> ('m, 'd) kvs \<Rightarrow> bool" for bs where
  reach_init: "kvs_reachable bs now (kvs_init d)"
| reach_step: "kvs_reachable bs now st \<Longrightarrow> kvs_step bs (now, st) (now', st') \<Longrightarrow> kvs_reachable bs now' st'"

lemma kvs_inv_init [simp]: "kvs_inv contents (kvs_init d)"
  by (simp add: kvs_inv_def kvs_init_def)

context blob_store
begin

lemma kvs_inv_step:
  "kvs_step bs (now, st) (now', st') \<Longrightarrow> kvs_inv contents st \<Longrightarrow> kvs_inv contents st'"
  by (elim kvs_stepE) (auto simp: kvs_inv_get kvs_inv_put kvs_inv_delete kvs_inv_list kvs_inv_run)

lemma kvs_reachable_inv: "kvs_reachable bs now st \<Longrightarrow> kvs_inv contents st"
  by (induction rule: kvs_reachable.induct) (auto intro: kvs_inv_step)

end

subsection \<open>Pagination\<close>

text \<open>
  A client that follows the cursors: \<open>kvs_list\<close> again and again until no cursor comes back.
\<close>

fun kvs_list_all ::
  "nat \<Rightarrow> int \<Rightarrow> string option \<Rightarrow> nat \<Rightarrow> string option \<Rightarrow> ('m, 'd) kvs \<Rightarrow> 'm key_entry list option"
where
  "kvs_list_all 0 now pre limit cursor st = None"
| "kvs_list_all (Suc fuel) now pre limit cursor st =
     (case kvs_list now \<lparr>q_prefix = pre, q_cursor = cursor, q_limit = limit\<rparr> st of
        (Inl _, _) \<Rightarrow> None
      | (Inr page, st') \<Rightarrow>
          (case kes_cursor page of
             None \<Rightarrow> Some (kes_keys page)
           | Some c \<Rightarrow>
               map_option ((@) (kes_keys page)) (kvs_list_all fuel now pre limit (Some c) st')))"

text \<open>The rows a listing is about, in key order.\<close>

definition live_rows :: "int \<Rightarrow> string \<Rightarrow> string \<Rightarrow> 'm kv_row list \<Rightarrow> 'm kv_row list" where
  "live_rows now pre after rows = sort_key kr_key (filter (list_match now pre after) rows)"

lemma filter_list_match_expired:
  "filter (list_match now pre after) (filter (\<lambda>r. \<not> sql_expired now r) rows) =
     filter (list_match now pre after) rows"
  by (induction rows) (auto simp: list_match_def)

lemma kvs_list_page:
  assumes "0 < limit" "after = (case cursor of None \<Rightarrow> [] | Some c \<Rightarrow> base64Decode c)"
    and "L = live_rows now (case pre of None \<Rightarrow> [] | Some p \<Rightarrow> p) after (kv_rows st)"
  shows "fst (kvs_list now \<lparr>q_prefix = pre, q_cursor = cursor, q_limit = limit\<rparr> st) =
      Inr \<lparr>kes_keys = map rowEntry (take limit L),
           kes_cursor = (if limit < length L then Some (base64Encode (kr_key (L ! (limit - 1)))) else None)\<rparr>"
    and "kv_rows (snd (kvs_list now \<lparr>q_prefix = pre, q_cursor = cursor, q_limit = limit\<rparr> st)) =
      filter (\<lambda>r. \<not> sql_expired now r) (kv_rows st)"
  using assms
  by (auto simp: kvs_list_def Let_def stmt_list_def live_rows_def stmt_deleteExpired_def
      fold_backgroundDelete min_def take_map)

lemma live_rows_next:
  assumes "distinct (map kr_key rows)" "0 < n"
    and L: "L = live_rows now pre after rows" and "n < length L"
  shows "live_rows now pre (kr_key (L ! (n - 1))) (filter (\<lambda>r. \<not> sql_expired now r) rows) = drop n L"
proof -
  have "L ! (n - 1) \<in> set L" using assms(4) by simp
  then have "after < kr_key (L ! (n - 1))" by (simp add: L live_rows_def list_match_def)
  then have "filter (list_match now pre (kr_key (L ! (n - 1)))) rows =
      filter (\<lambda>r. kr_key r > kr_key (L ! (n - 1))) (filter (list_match now pre after) rows)"
    by (auto simp: list_match_def intro!: filter_cong)
  then have "live_rows now pre (kr_key (L ! (n - 1))) (filter (\<lambda>r. \<not> sql_expired now r) rows) =
      filter (\<lambda>r. kr_key r > kr_key (L ! (n - 1))) L"
    unfolding live_rows_def filter_list_match_expired L by (simp only: filter_sort)
  also have "\<dots> = drop n L"
    using assms by (intro strictly_sorted_filter_drop)
      (auto simp: live_rows_def distinct_map distinct_filter inj_on_def)
  finally show ?thesis .
qed

lemma kvs_list_all_live:
  assumes "distinct (map kr_key (kv_rows st))" "0 < limit"
    and "L = live_rows now (case pre of None \<Rightarrow> [] | Some p \<Rightarrow> p)
               (case cursor of None \<Rightarrow> [] | Some c \<Rightarrow> base64Decode c) (kv_rows st)"
    and "length L < fuel"
  shows "kvs_list_all fuel now pre limit cursor st = Some (map rowEntry L)"
  using assms
proof (induction fuel arbitrary: st cursor L)
  case (Suc fuel)
  obtain page st' where p: "kvs_list now \<lparr>q_prefix = pre, q_cursor = cursor, q_limit = limit\<rparr> st = (Inr page, st')"
    and page: "page = \<lparr>kes_keys = map rowEntry (take limit L),
      kes_cursor = (if limit < length L then Some (base64Encode (kr_key (L ! (limit - 1)))) else None)\<rparr>"
    and st': "kv_rows st' = filter (\<lambda>r. \<not> sql_expired now r) (kv_rows st)"
    using kvs_list_page [OF Suc.prems(2) refl Suc.prems(3)]
    by (cases "kvs_list now \<lparr>q_prefix = pre, q_cursor = cursor, q_limit = limit\<rparr> st") auto
  show ?case
  proof (cases "limit < length L")
    case True
    have "kvs_list_all fuel now pre limit (kes_cursor page) st' = Some (map rowEntry (drop limit L))"
      using True Suc.prems page st' live_rows_next [OF Suc.prems(1,2,3) True]
      by (intro Suc.IH) (auto simp: distinct_map_filter)
    then have "kvs_list_all (Suc fuel) now pre limit cursor st =
        Some (map rowEntry (take limit L) @ map rowEntry (drop limit L))"
      using p page True by simp
    then show ?thesis by (simp flip: map_append)
  qed (use p page in simp)
qed simp

subsection \<open>The contract of the store\<close>

text \<open>
  What \<open>KeyValueStorage\<close> promises its clients, as a map from keys to entries that changes with
  time: a put at the key becomes visible unless it is already expired, an aborted put and a read
  change nothing, a delete hides the key and says whether it was visible, and time only hides.
\<close>

locale expiring_store =
  fixes inv :: "'s \<Rightarrow> bool" and view :: "int \<Rightarrow> 's \<Rightarrow> string \<Rightarrow> 'm key_value_entry option"
    and fresh :: "'s \<Rightarrow> nonce \<Rightarrow> bool"
    and get :: "int \<Rightarrow> string \<Rightarrow> 's \<Rightarrow> 'm key_value_entry option res \<times> 's"
    and put :: "nonce \<Rightarrow> bool \<Rightarrow> string \<Rightarrow> bytes \<Rightarrow> int option \<Rightarrow> 'm option \<Rightarrow> 's \<Rightarrow> unit res \<times> 's"
    and del :: "int \<Rightarrow> string \<Rightarrow> 's \<Rightarrow> bool \<times> 's"
  assumes inv_get: "inv st \<Longrightarrow> inv (snd (get now key st))"
    and inv_put: "inv st \<Longrightarrow> fresh st n \<Longrightarrow> inv (snd (put n ab key v e m st))"
    and inv_del: "inv st \<Longrightarrow> inv (snd (del now key st))"
    and get_result: "inv st \<Longrightarrow> fst (get now key st) = Inr (view now st key)"
    and get_view: "inv st \<Longrightarrow> now \<le> now' \<Longrightarrow> view now' (snd (get now key st)) = view now' st"
    and put_result: "inv st \<Longrightarrow> fresh st n \<Longrightarrow> key \<noteq> [] \<Longrightarrow>
      fst (put n ab key v e m st) = (if ab then Inl AbortError else Inr ())"
    and put_view: "inv st \<Longrightarrow> fresh st n \<Longrightarrow> key \<noteq> [] \<Longrightarrow>
      view now (snd (put n False key v e m st)) = (view now st)(key :=
        (if (case e of None \<Rightarrow> False | Some t \<Rightarrow> t \<le> now) then None
         else Some \<lparr>ke_key = key, ke_expiration = e, ke_metadata = m, ke_value = Body v\<rparr>))"
    and abort_view: "inv st \<Longrightarrow> fresh st n \<Longrightarrow> view now (snd (put n True key v e m st)) = view now st"
    and del_result: "inv st \<Longrightarrow> fst (del now key st) \<longleftrightarrow> view now st key \<noteq> None"
    and del_view: "inv st \<Longrightarrow> view now' (snd (del now key st)) = (view now' st)(key := None)"
begin

lemma put_then_get:
  assumes "inv st" "fresh st n" "key \<noteq> []" "put n False key v e m st = (r, st')"
  shows "fst (get now key st') = Inr (if (case e of None \<Rightarrow> False | Some t \<Rightarrow> t \<le> now) then None
    else Some \<lparr>ke_key = key, ke_expiration = e, ke_metadata = m, ke_value = Body v\<rparr>)"
    and "k \<noteq> key \<Longrightarrow> fst (get now k st') = fst (get now k st)"
  using assms inv_put [of st n False key v e m] put_view [of st n key now v e m] by (simp_all add: get_result)

lemma abort_then_get:
  assumes "inv st" "fresh st n" "put n True key v e m st = (r, st')"
  shows "fst (get now k st') = fst (get now k st)"
  using assms inv_put [of st n True key v e m] abort_view [of st n now key v e m] by (simp add: get_result)

lemma del_then_get:
  assumes "inv st" "del now key st = (r, st')"
  shows "fst (get now' k st') = (if k = key then Inr None else fst (get now' k st))"
    and "r \<longleftrightarrow> fst (get now key st) \<noteq> Inr None"
  using assms inv_del [of st now key] del_view [of st now' now key] del_result [of st now key]
  by (auto simp: get_result)

lemma get_then_get:
  assumes "inv st" "now \<le> now'" "get now key st = (r, st')"
  shows "fst (get now' k st') = fst (get now' k st)"
  using assms inv_get [of st now key] get_view [of st now now' key] by (simp add: get_result)

end

sublocale blob_store \<subseteq> store: expiring_store "kvs_inv contents" "kvs_view contents" kvs_fresh
  "\<lambda>now key. kvs_get bs now None uuid key" "kvs_put bs" kvs_delete for uuid
proof
  fix st n ab key v e m now now'
  show "fst (kvs_put bs n ab key v e m st) = (if ab then Inl AbortError else Inr ())"
    if "kvs_inv contents st" "kvs_fresh st n" "key \<noteq> []"
    using that(3) by (simp add: kvs_put_eq Let_def)
qed (simp_all add: kvs_inv_get kvs_inv_put kvs_inv_delete kvs_view_get(1) [OF _ order_refl]
      kvs_view_get(2) kvs_view_put kvs_view_abort
      kvs_view_delete)

context blob_store
begin

lemma provides_expiring_store:
  "expiring_store (kvs_inv contents) (kvs_view contents) kvs_fresh
     (\<lambda>now key. kvs_get bs now None uuid key) (kvs_put bs) kvs_delete"
  by (rule store.expiring_store_axioms)

end

lemmas blob_store_of_files = file_service.provides_blob_store

lemmas expiring_store_of_files =
  blob_store.provides_expiring_store [OF file_service.provides_blob_store]

lemma mem_file_service: "file_service mem_service (\<lambda>d. d) b"
  by (rule mem.file_service_axioms)

subsection \<open>Properties\<close>

text \<open>
  C8: Over any directory service that keeps files as HTTP prescribes, every state of the store
  that clients can reach (in any interleaving of gets, puts, aborted puts, deletes, listings,
  background blob deletions and the passing of time) is well formed: keys are unique and
  non-empty, every row's blob is on disk, and no blob awaiting deletion is referenced by a row.
\<close>

theorem kvs_reachable_well_formed:
  assumes "file_service ds files b" and "kvs_reachable (BlobStore_ops ds b) now st"
  shows "kvs_inv (blob_contents files b) st"
  using blob_store.kvs_reachable_inv [OF blob_store_of_files [OF assms(1)] assms(2)] .

definition ex_store :: blobStore where
  "ex_store = \<lparr>baseURL = ''http://blobs/'', stickyBlobs = False\<rparr>"

definition ex_nonce :: "int \<Rightarrow> nonce" where
  "ex_nonce t = (replicate 32 7, t)"

definition ex_kvs :: "(nat, string \<Rightarrow> bytes option) kvs" where
  "ex_kvs = snd (kvs_put (BlobStore_ops mem_service ex_store) (ex_nonce 1) False ''a'' [1, 2] (Some 50)
     (Some 9) (kvs_init (\<lambda>_. None)))"

lemma ex_kvs_reachable: "kvs_reachable (BlobStore_ops mem_service ex_store) 10 ex_kvs"
  unfolding ex_kvs_def
  by (rule reach_step [OF reach_init kvs_step.step_put]) (simp add: kvs_fresh_def kvs_init_def)

theorem kvs_reachable_well_formed_witness: "kvs_inv (blob_contents (\<lambda>d. d) ex_store) ex_kvs"
  by (rule kvs_reachable_well_formed [OF mem_file_service ex_kvs_reachable])

text \<open>
  C9: A value put under a key is what a later get of that key returns, with its expiration and
  metadata, until its expiration time is reached; from then on the get finds nothing. Gets of
  other keys answer as before the put.
\<close>

theorem kvs_put_then_get:
  assumes "file_service ds files b" and "kvs_reachable (BlobStore_ops ds b) now0 st"
    and "kvs_fresh st n" and "key \<noteq> []"
    and "kvs_put (BlobStore_ops ds b) n False key v e m st = (r, st')"
  shows "r = Inr () \<and>
    fst (kvs_get (BlobStore_ops ds b) now None uuid key st') =
      Inr (if (case e of None \<Rightarrow> False | Some t \<Rightarrow> t \<le> now) then None
           else Some \<lparr>ke_key = key, ke_expiration = e, ke_metadata = m, ke_value = Body v\<rparr>) \<and>
    (k \<noteq> key \<longrightarrow> fst (kvs_get (BlobStore_ops ds b) now None uuid k st') =
                    fst (kvs_get (BlobStore_ops ds b) now None uuid k st))"
proof -
  note bs = blob_store_of_files [OF assms(1)]
  note inv = blob_store.kvs_reachable_inv [OF bs assms(2)]
  note es = expiring_store_of_files [OF assms(1), of uuid]
  show ?thesis
    using expiring_store.put_then_get [OF es inv assms(3-5)]
      expiring_store.put_result [OF es inv assms(3,4), of False v e m] assms(5) by auto
qed

theorem kvs_put_then_get_witness:
  "fst (kvs_get (BlobStore_ops mem_service ex_store) 20 None [] ''b''
     (snd (kvs_put (BlobStore_ops mem_service ex_store) (ex_nonce 2) False ''b'' [3] None None ex_kvs))) =
   Inr (Some \<lparr>ke_key = ''b'', ke_expiration = None, ke_metadata = None, ke_value = Body [3]\<rparr>)"
proof -
  have "kvs_fresh ex_kvs (ex_nonce 2)" by code_simp
  from kvs_put_then_get [OF mem_file_service ex_kvs_reachable this _ prod.collapse [symmetric],
      of "''b''" "[3]" None None 20 "[]"]
  show ?thesis by simp
qed

text \<open>
  A delete answers whether the key was visible, hides it from every later get and changes no
  other key; an aborted put changes what no get returns.
\<close>

theorem kvs_delete_abort_then_get:
  assumes "file_service ds files b" and "kvs_reachable (BlobStore_ops ds b) now0 st"
    and "kvs_delete now key st = (r, st')"
    and "kvs_fresh st n" and "kvs_put (BlobStore_ops ds b) n True key' v e m st = (r'', st'')"
  shows "(r \<longleftrightarrow> fst (kvs_get (BlobStore_ops ds b) now None uuid key st) \<noteq> Inr None) \<and>
    fst (kvs_get (BlobStore_ops ds b) now' None uuid k st') =
      (if k = key then Inr None else fst (kvs_get (BlobStore_ops ds b) now' None uuid k st)) \<and>
    fst (kvs_get (BlobStore_ops ds b) now' None uuid k st'') =
      fst (kvs_get (BlobStore_ops ds b) now' None uuid k st)"
proof -
  note bs = blob_store_of_files [OF assms(1)]
  note inv = blob_store.kvs_reachable_inv [OF bs assms(2)]
  note es = expiring_store_of_files [OF assms(1), of uuid]
  show ?thesis
    using expiring_store.del_then_get [OF es inv assms(3)]
      expiring_store.abort_then_get [OF es inv assms(4,5)] by simp
qed

theorem kvs_delete_abort_then_get_witness:
  "fst (kvs_get (BlobStore_ops mem_service ex_store) 20 None [] ''a'' (snd (kvs_delete 20 ''a'' ex_kvs)))
     = Inr None"
proof -
  have "kvs_fresh ex_kvs (ex_nonce 2)" by code_simp
  from kvs_delete_abort_then_get [OF mem_file_service ex_kvs_reachable prod.collapse [symmetric] this
      prod.collapse [symmetric], where uuid = "[]" and k = "''a''" and now' = 20 and now = 20 and key = "''a''"]
  show ?thesis by simp
qed

text \<open>
  C19: Following the cursors of a listing with any positive page size ends after finitely many
  pages and returns every row with the prefix that has not expired exactly once, in key order.
\<close>

theorem kvs_list_pages_complete:
  assumes "file_service ds files b" and "kvs_reachable (BlobStore_ops ds b) now0 st" and "0 < limit"
  shows "kvs_list_all (Suc (length (kv_rows st))) now (Some pre) limit None st =
    Some (map rowEntry (sort_key kr_key
      (filter (\<lambda>r. startsWith (kr_key r) pre \<and> \<not> sql_expired now r) (kv_rows st))))"
proof -
  have inv: "kvs_inv (blob_contents files b) st"
    by (rule blob_store.kvs_reachable_inv [OF blob_store_of_files [OF assms(1)] assms(2)])
  then have ne: "filter (list_match now pre []) (kv_rows st) =
      filter (\<lambda>r. startsWith (kr_key r) pre \<and> \<not> sql_expired now r) (kv_rows st)"
    by (intro filter_cong) (auto simp: list_match_def kvs_inv_def image_iff intro!: Nil_less)
  show ?thesis
    using inv assms(3) ne kvs_list_all_live [OF _ assms(3) refl, of st now "Some pre" None]
    by (simp add: kvs_inv_def live_rows_def le_imp_less_Suc del: kvs_list_all.simps)
qed

theorem kvs_list_pages_complete_witness:
  "kvs_list_all (Suc (length (kv_rows ex_kvs))) 20 (Some ''a'') 1 None ex_kvs =
     Some (map rowEntry (sort_key kr_key
       (filter (\<lambda>r. startsWith (kr_key r) ''a'' \<and> \<not> sql_expired 20 r) (kv_rows ex_kvs))))"
  by (rule kvs_list_pages_complete [OF mem_file_service ex_kvs_reachable]) simp

text \<open>
  At the very instant of its expiration an entry is inconsistent: a listing returns it, while
  a get of the same key at the same time finds nothing.
\<close>

theorem kvs_expiry_boundary:
  assumes "distinct (map kr_key (kv_rows st))" and "row \<in> set (kv_rows st)" and "kr_key row \<noteq> []"
    and "kr_expiration row = Some now" and "length (kv_rows st) \<le> limit"
  shows "fst (kvs_get bs now f uuid (kr_key row) st) = Inr None \<and>
    (\<exists>page. fst (kvs_list now \<lparr>q_prefix = None, q_cursor = None, q_limit = limit\<rparr> st) = Inr page \<and>
       rowEntry row \<in> set (kes_keys page))"
proof -
  have get: "stmt_getByKey (kv_rows st) (kr_key row) = Some row"
    using assms(1,2) by (simp add: stmt_getByKey_def find_key_iff)
  have pos: "0 < limit" using assms(2,5) by (cases "kv_rows st") auto
  let ?L = "live_rows now [] [] (kv_rows st)"
  have "row \<in> set ?L"
    using assms(2-4) by (auto simp: live_rows_def list_match_def sql_expired_def intro!: Nil_less)
  moreover have "take limit ?L = ?L"
    using le_trans [OF length_filter_le assms(5), of "list_match now [] []"] by (simp add: live_rows_def)
  ultimately show ?thesis
    using get assms(4) kvs_list_page(1) [OF pos refl refl, where cursor = None and pre = None
        and now = now and st = st]
    by (auto simp: kvs_get_def hasExpired_def)
qed

theorem kvs_expiry_boundary_witness:
  "fst (kvs_get (BlobStore_ops mem_service ex_store) 50 None [] ''a'' ex_kvs) = Inr None \<and>
   (\<exists>page. fst (kvs_list 50 \<lparr>q_prefix = None, q_cursor = None, q_limit = 5\<rparr> ex_kvs) = Inr page \<and>
      rowEntry (hd (kv_rows ex_kvs)) \<in> set (kes_keys page))"
proof -
  have "distinct (map kr_key (kv_rows ex_kvs)) \<and> kv_rows ex_kvs \<noteq> [] \<and> kr_key (hd (kv_rows ex_kvs)) = ''a''
    \<and> kr_expiration (hd (kv_rows ex_kvs)) = Some 50 \<and> length (kv_rows ex_kvs) \<le> 5"
    by code_simp
  with kvs_expiry_boundary [of ex_kvs "hd (kv_rows ex_kvs)" 50 5] show ?thesis by simp
qed

end
