(* ===== verification/KVNamespace.thy ===== *)
theory KVNamespace
  imports KeyValue
begin

text \<open>
  The KV simulator: request validation (\<^verbatim>\<open>kv/validator.worker.ts\<close>, \<^verbatim>\<open>kv/constants.ts\<close>) and the
  durable object \<open>KVNamespaceObject\<close> (\<^verbatim>\<open>kv/namespace.worker.ts\<close>), which serves get, put, delete and
  list requests from a \<open>KeyValueStorage\<close>.

  The query string is an association list, the request body the list of its chunks. \<open>JSON.parse\<close>
  and \<open>JSON.stringify\<close> are the two functions of a codec: the metadata is opaque to the simulator.
\<close>

subsection \<open>Limits and parameter names\<close>

definition MIN_CACHE_TTL :: int where "MIN_CACHE_TTL = 60"
definition MAX_LIST_KEYS :: int where "MAX_LIST_KEYS = 1000"
definition MAX_KEY_SIZE :: nat where "MAX_KEY_SIZE = 512"
definition MAX_VALUE_SIZE :: nat where "MAX_VALUE_SIZE = 25 * 1024 * 1024"
definition MAX_VALUE_SIZE_TEST :: nat where "MAX_VALUE_SIZE_TEST = 1024"
definition MAX_METADATA_SIZE :: nat where "MAX_METADATA_SIZE = 1024"

lemmas kv_limits = MIN_CACHE_TTL_def MAX_LIST_KEYS_def MAX_KEY_SIZE_def MAX_VALUE_SIZE_def
  MAX_VALUE_SIZE_TEST_def MAX_METADATA_SIZE_def

definition show_number :: "int option \<Rightarrow> string" where
  "show_number n = (case n of None \<Rightarrow> ''NaN'' | Some i \<Rightarrow> show_int i)"

subsection \<open>Validation\<close>

definition decodeKey :: "string \<Rightarrow> query \<Rightarrow> string res" where
  "decodeKey key q =
     (if map_option toLowerCase (param q ''urlencoded'') \<noteq> Some ''true'' then Inr key
      else (case decodeURIComponent key of
              Some k \<Rightarrow> Inr k
            | None \<Rightarrow> Inl (HttpError 400 ''Could not URL-decode key name'')))"

definition validateKeyLength :: "string \<Rightarrow> unit res" where
  "validateKeyLength key =
     check (length key \<le> MAX_KEY_SIZE)
       (HttpError 414 (''UTF-8 encoded length of '' @ show_nat (length key)
          @ '' exceeds key length limit of '' @ show_nat MAX_KEY_SIZE @ ''.''))"

definition validateKey :: "string \<Rightarrow> unit res" where
  "validateKey key =
     (if key = [] then Inl (HttpError 400 ''Key names must not be empty'')
      else if key = ''.'' \<or> key = ''..'' then
        Inl (HttpError 400 (''Illegal key name '' @ [CHR 0x22] @ key @ [CHR 0x22]
               @ ''. Please use a different name.''))
      else validateKeyLength key)"

text \<open>The option \<open>cacheTtl\<close>: absent, or a number that may be \<open>NaN\<close>.\<close>

definition validateGetOptions :: "string \<Rightarrow> int option option \<Rightarrow> unit res" where
  "validateGetOptions key cacheTtl =
     andThen (validateKey key) (\<lambda>_.
       case cacheTtl of
         None \<Rightarrow> Inr ()
       | Some ttl \<Rightarrow>
           check (case ttl of None \<Rightarrow> False | Some t \<Rightarrow> \<not> t < MIN_CACHE_TTL)
             (HttpError 400 (''Invalid cache_ttl of '' @ show_number ttl
                @ ''. Cache TTL must be at least '' @ show_int MIN_CACHE_TTL @ ''.'')))"

definition validateExpirationTtl :: "int \<Rightarrow> string \<Rightarrow> int res" where
  "validateExpirationTtl now raw =
     (case parseInt raw of
        None \<Rightarrow> Inl (HttpError 400 (''Invalid expiration_ttl of '' @ raw
                  @ ''. Please specify integer greater than 0.''))
      | Some ttl \<Rightarrow>
          if ttl \<le> 0 then
            Inl (HttpError 400 (''Invalid expiration_ttl of '' @ raw
                  @ ''. Please specify integer greater than 0.''))
          else if ttl < MIN_CACHE_TTL then
            Inl (HttpError 400 (''Invalid expiration_ttl of '' @ raw
                  @ ''. Expiration TTL must be at least '' @ show_int MIN_CACHE_TTL @ ''.''))
          else Inr (now + ttl))"

definition validateExpiration :: "int \<Rightarrow> string \<Rightarrow> int res" where
  "validateExpiration now raw =
     (let invalid = HttpError 400 (''Invalid expiration of '' @ raw
            @ ''. Please specify integer greater than the current number of seconds since the UNIX epoch.'')
      in case parseInt raw of
           None \<Rightarrow> Inl invalid
         | Some expiration \<Rightarrow>
             if expiration \<le> now then Inl invalid
             else if expiration < now + MIN_CACHE_TTL then
               Inl (HttpError 400 (''Invalid expiration of '' @ raw
                 @ ''. Expiration times must be at least '' @ show_int MIN_CACHE_TTL
                 @ '' seconds in the future.''))
             else Inr expiration)"

definition validateMetadata :: "'m json_codec \<Rightarrow> string option \<Rightarrow> 'm option res" where
  "validateMetadata js rawMetadata =
     (case rawMetadata of
        None \<Rightarrow> Inr None
      | Some raw \<Rightarrow>
          if length raw > MAX_METADATA_SIZE then
            Inl (HttpError 413 (''Metadata length of '' @ show_nat (length raw) @ '' exceeds limit of ''
                   @ show_nat MAX_METADATA_SIZE @ ''.''))
          else (case json_parse js raw of None \<Rightarrow> Inl SyntaxError | Some m \<Rightarrow> Inr (Some m)))"

definition validatePutOptions ::
  "'m json_codec \<Rightarrow> string \<Rightarrow> int \<Rightarrow> string option \<Rightarrow> string option \<Rightarrow> string option
   \<Rightarrow> (int option \<times> 'm option) res"
where
  "validatePutOptions js key now rawExpiration rawExpirationTtl rawMetadata =
     andThen (validateKey key) (\<lambda>_.
     andThen (case rawExpirationTtl of
                Some raw \<Rightarrow> andThen (validateExpirationTtl now raw) (\<lambda>e. Inr (Some e))
              | None \<Rightarrow>
                  (case rawExpiration of
                     Some raw \<Rightarrow> andThen (validateExpiration now raw) (\<lambda>e. Inr (Some e))
                   | None \<Rightarrow> Inr None)) (\<lambda>expiration.
     andThen (validateMetadata js rawMetadata) (\<lambda>metadata.
     Inr (expiration, metadata))))"

record list_options =
  lo_limit :: "int option"
  lo_prefix :: "string option"
  lo_cursor :: "string option"

definition decodeListOptions :: "query \<Rightarrow> list_options" where
  "decodeListOptions q =
     \<lparr>lo_limit = (case param q ''key_count_limit'' of None \<Rightarrow> Some MAX_LIST_KEYS | Some l \<Rightarrow> parseInt l),
      lo_prefix = param q ''prefix'', lo_cursor = param q ''cursor''\<rparr>"

definition validateListOptions :: "list_options \<Rightarrow> unit res" where
  "validateListOptions opts =
     andThen
       (case lo_limit opts of
          None \<Rightarrow> Inl (HttpError 400 (''Invalid key_count_limit of '' @ show_number None
                    @ ''. Please specify an integer greater than 0.''))
        | Some limit \<Rightarrow>
            if limit < 1 then
              Inl (HttpError 400 (''Invalid key_count_limit of '' @ show_int limit
                    @ ''. Please specify an integer greater than 0.''))
            else check (\<not> limit > MAX_LIST_KEYS)
                   (HttpError 400 (''Invalid key_count_limit of '' @ show_int limit
                    @ ''. Please specify an integer less than '' @ show_int MAX_LIST_KEYS @ ''.'')))
       (\<lambda>_. case lo_prefix opts of None \<Rightarrow> Inr () | Some pre \<Rightarrow> validateKeyLength pre)"

subsection \<open>The value stream\<close>

definition createMaxValueSizeError :: "int \<Rightarrow> nat \<Rightarrow> error" where
  "createMaxValueSizeError len maxValueSize =
     HttpError 413 (''Value length of '' @ show_int len @ '' exceeds limit of ''
       @ show_nat maxValueSize @ ''.'')"

text \<open>\<open>MaxLengthStream\<close>: bytes counted so far, bytes passed on, and the abort signal.\<close>

record maxLengthStream =
  ml_length :: nat
  ml_out :: bytes
  ml_aborted :: bool

definition ml_transform :: "nat \<Rightarrow> bytes \<Rightarrow> maxLengthStream \<Rightarrow> maxLengthStream" where
  "ml_transform maxLength chunk s =
     (let len = ml_length s + length chunk
      in if len \<le> maxLength then s\<lparr>ml_length := len, ml_out := ml_out s @ chunk\<rparr>
         else s\<lparr>ml_length := len, ml_aborted := True\<rparr>)"

definition MaxLengthStream :: "nat \<Rightarrow> bytes list \<Rightarrow> maxLengthStream" where
  "MaxLengthStream maxLength chunks =
     fold (ml_transform maxLength) chunks \<lparr>ml_length = 0, ml_out = [], ml_aborted = False\<rparr>"

lemma ml_transform_sel [simp]:
  "ml_length (ml_transform mx c s) = ml_length s + length c"
  "ml_aborted (ml_transform mx c s) \<longleftrightarrow> ml_aborted s \<or> ml_length s + length c > mx"
  "ml_length s + length c \<le> mx \<Longrightarrow> ml_out (ml_transform mx c s) = ml_out s @ c"
  by (auto simp: ml_transform_def Let_def)

lemma ml_fold_length:
  "ml_length (fold (ml_transform mx) chunks s) = ml_length s + length (concat chunks)"
  by (induction chunks arbitrary: s) auto

lemma ml_fold_aborted:
  "ml_aborted (fold (ml_transform mx) chunks s) \<longleftrightarrow>
     ml_aborted s \<or> (chunks \<noteq> [] \<and> ml_length s + length (concat chunks) > mx)"
proof (induction chunks arbitrary: s)
  case (Cons c chunks)
  show ?case by (cases "chunks = []") (auto simp: Cons.IH)
qed simp

lemma ml_fold_out:
  "ml_length s + length (concat chunks) \<le> mx \<Longrightarrow>
     ml_out (fold (ml_transform mx) chunks s) = ml_out s @ concat chunks"
  by (induction chunks arbitrary: s) auto

lemma MaxLengthStream_facts:
  "ml_length (MaxLengthStream mx chunks) = length (concat chunks)"
  "ml_aborted (MaxLengthStream mx chunks) \<longleftrightarrow> length (concat chunks) > mx"
  "length (concat chunks) \<le> mx \<Longrightarrow> ml_out (MaxLengthStream mx chunks) = concat chunks"
  by (auto simp: MaxLengthStream_def ml_fold_length ml_fold_aborted ml_fold_out)

definition millisToSeconds :: "int \<Rightarrow> int" where
  "millisToSeconds millis = millis div 1000"

definition secondsToMillis :: "int \<Rightarrow> int" where
  "secondsToMillis seconds = seconds * 1000"

subsection \<open>The handlers\<close>

record kv_list_key =
  lk_name :: string
  lk_expiration :: "int option"
  lk_metadata :: "json_text option"

datatype kv_response =
    ValueResponse headers kv_value
  | EmptyResponse
  | ListResponse "kv_list_key list" bool "string option"

definition kv_get ::
  "'m json_codec \<Rightarrow> 'd blob_ops \<Rightarrow> int \<Rightarrow> string \<Rightarrow> query \<Rightarrow> ('m, 'd) kvs
   \<Rightarrow> kv_response res \<times> ('m, 'd) kvs"
where
  "kv_get js bs now pathKey q st =
     (case decodeKey pathKey q of
        Inl e \<Rightarrow> (Inl e, st)
      | Inr key \<Rightarrow>
          (case validateGetOptions key (map_option parseInt (param q ''cache_ttl'')) of
             Inl e \<Rightarrow> (Inl e, st)
           | Inr _ \<Rightarrow>
               (let (entry, st') = kvs_get bs now None [] key st
                in (andThen entry (\<lambda>entry.
                      case entry of
                        None \<Rightarrow> Inl (HttpError 404 ''Not Found'')
                      | Some e \<Rightarrow>
                          Inr (ValueResponse
                            ((case ke_expiration e of
                                None \<Rightarrow> []
                              | Some x \<Rightarrow> [(''CF-Expiration'', show_int (millisToSeconds x))]) @
                             (case ke_metadata e of
                                None \<Rightarrow> []
                              | Some m \<Rightarrow> [(''CF-KV-Metadata'', json_stringify js m)]))
                            (ke_value e))),
                    st'))))"

definition kv_put ::
  "'m json_codec \<Rightarrow> 'd blob_ops \<Rightarrow> bool \<Rightarrow> int \<Rightarrow> nonce \<Rightarrow> string \<Rightarrow> query \<Rightarrow> headers
   \<Rightarrow> bytes list option \<Rightarrow> ('m, 'd) kvs \<Rightarrow> kv_response res \<times> ('m, 'd) kvs"
where
  "kv_put js bs beingTested nowMs n pathKey q hs body st =
     (case andThen (decodeKey pathKey q) (\<lambda>key.
           andThen (validatePutOptions js key (millisToSeconds nowMs) (param q ''expiration'')
                      (param q ''expiration_ttl'') (param hs ''CF-KV-Metadata''))
             (\<lambda>opts. Inr (key, opts))) of
        Inl e \<Rightarrow> (Inl e, st)
      | Inr (key, expiration, metadata) \<Rightarrow>
          (let valueLengthHint =
                 (case parseInt_opt (param hs ''Content-Length'') of
                    Some l \<Rightarrow> Some l
                  | None \<Rightarrow> if body = None then Some 0 else None);
               value = (case body of None \<Rightarrow> [] | Some chunks \<Rightarrow> chunks);
               maxValueSize = (if beingTested then MAX_VALUE_SIZE_TEST else MAX_VALUE_SIZE)
           in case (case valueLengthHint of
                      Some l \<Rightarrow> if l > int maxValueSize then Some l else None
                    | None \<Rightarrow> None) of
                Some l \<Rightarrow> (Inl (createMaxValueSizeError l maxValueSize), st)
              | None \<Rightarrow>
                  (let s = MaxLengthStream maxValueSize value;
                       (r, st') = kvs_put bs n (ml_aborted s) key (ml_out s)
                                    (map_option secondsToMillis expiration) metadata st
                   in (case r of
                         Inr _ \<Rightarrow> Inr EmptyResponse
                       | Inl e \<Rightarrow>
                           if e = AbortError
                           then Inl (createMaxValueSizeError (int (ml_length s)) maxValueSize)
                           else Inl e,
                       st'))))"

definition kv_delete ::
  "int \<Rightarrow> string \<Rightarrow> query \<Rightarrow> ('m, 'd) kvs \<Rightarrow> kv_response res \<times> ('m, 'd) kvs"
where
  "kv_delete now pathKey q st =
     (case andThen (decodeKey pathKey q) (\<lambda>key. andThen (validateKey key) (\<lambda>_. Inr key)) of
        Inl e \<Rightarrow> (Inl e, st)
      | Inr key \<Rightarrow> (Inr EmptyResponse, snd (kvs_delete now key st)))"

definition kv_list ::
  "'m json_codec \<Rightarrow> int \<Rightarrow> query \<Rightarrow> ('m, 'd) kvs \<Rightarrow> kv_response res \<times> ('m, 'd) kvs"
where
  "kv_list js now q st =
     (let options = decodeListOptions q
      in case validateListOptions options of
           Inl e \<Rightarrow> (Inl e, st)
         | Inr _ \<Rightarrow>
             (let (r, st') = kvs_list now \<lparr>q_prefix = lo_prefix options, q_cursor = lo_cursor options,
                                           q_limit = nat (the (lo_limit options))\<rparr> st
              in (andThen r (\<lambda>r.
                    let keys = map (\<lambda>e. \<lparr>lk_name = ke_key e,
                                          lk_expiration = map_option millisToSeconds (ke_expiration e),
                                          lk_metadata = map_option (json_stringify js) (ke_metadata e)\<rparr>)
                                 (kes_keys r)
                    in Inr (ListResponse keys (kes_cursor r = None) (kes_cursor r))),
                  st')))"


subsection \<open>What the validators accept\<close>

lemma validateKey_ok:
  "validateKey key = Inr u \<longleftrightarrow>
     key \<noteq> [] \<and> key \<noteq> ''.'' \<and> key \<noteq> ''..'' \<and> length key \<le> MAX_KEY_SIZE"
  by (auto simp: validateKey_def validateKeyLength_def)

lemma validatePutOptions_key: "validatePutOptions js key now e t m = Inr r \<Longrightarrow> validateKey key = Inr ()"
  by (auto simp: validatePutOptions_def)

lemma validatePutOptions_expiration:
  "validatePutOptions js key now e t m = Inr (Some x, md) \<Longrightarrow> now + MIN_CACHE_TTL \<le> x"
  by (auto simp: validatePutOptions_def validateExpirationTtl_def validateExpiration_def Let_def
      split: option.splits if_splits)

lemma millis_of_seconds [simp]: "millisToSeconds (secondsToMillis s) = s"
  by (simp add: millisToSeconds_def secondsToMillis_def)

subsection \<open>The handlers keep the store well formed\<close>

context blob_store
begin

lemma kv_get_inv: "kvs_inv contents st \<Longrightarrow> kvs_inv contents (snd (kv_get js bs now k q st))"
  by (auto simp: kv_get_def Let_def kvs_inv_get split: sum.splits prod.splits)
     (metis kvs_inv_get snd_conv)

lemma kv_put_inv:
  "kvs_inv contents st \<Longrightarrow> kvs_fresh st n \<Longrightarrow>
     kvs_inv contents (snd (kv_put js bs tst nowMs n k q hs body st))"
  by (auto simp: kv_put_def Let_def split: sum.splits prod.splits option.splits if_splits)
     (metis kvs_inv_put snd_conv)+

end

text \<open>The state after a put request, by the shape of its parts.\<close>

lemma kv_put_accepts:
  assumes "kv_put js bs tst nowMs n k q hs body st = (Inr r, st')"
  obtains key e m where "decodeKey k q = Inr key"
    and "validatePutOptions js key (millisToSeconds nowMs) (param q ''expiration'')
           (param q ''expiration_ttl'') (param hs ''CF-KV-Metadata'') = Inr (e, m)"
    and "length (concat (case body of None \<Rightarrow> [] | Some cs \<Rightarrow> cs))
           \<le> (if tst then MAX_VALUE_SIZE_TEST else MAX_VALUE_SIZE)"
    and "kvs_put bs n False key (concat (case body of None \<Rightarrow> [] | Some cs \<Rightarrow> cs))
           (map_option secondsToMillis e) m st = (Inr (), st')"
proof -
  let ?v = "case body of None \<Rightarrow> [] | Some cs \<Rightarrow> cs"
  let ?mx = "if tst then MAX_VALUE_SIZE_TEST else MAX_VALUE_SIZE"
  let ?s = "MaxLengthStream ?mx ?v"
  from assms obtain key e m where k: "decodeKey k q = Inr key"
    and o': "validatePutOptions js key (millisToSeconds nowMs) (param q ''expiration'')
           (param q ''expiration_ttl'') (param hs ''CF-KV-Metadata'') = Inr (e, m)"
    by (auto simp: kv_put_def split: sum.splits)
  with assms have p: "kvs_put bs n (ml_aborted ?s) key (ml_out ?s) (map_option secondsToMillis e) m st = (Inr (), st')"
    by (auto simp: kv_put_def Let_def split: sum.splits prod.splits option.splits if_splits)
  then have "\<not> ml_aborted ?s"
    by (auto simp: kvs_put_def Let_def split: if_splits sum.splits prod.splits)
  then have "length (concat ?v) \<le> ?mx" by (simp add: MaxLengthStream_facts(2) not_less)
  with p k o' that show ?thesis by (simp add: MaxLengthStream_facts)
qed

subsection \<open>Properties\<close>

text \<open>
  What a put request accepts is within the documented limits: the key is non-empty, not a dot
  name and at most 512 bytes, the expiration (absolute or relative) is at least 60 seconds in the
  future, and the metadata is at most 1024 bytes of valid JSON.
\<close>

theorem validatePutOptions_limits:
  assumes "validatePutOptions js key now rawExpiration rawExpirationTtl rawMetadata = Inr (e, m)"
  shows "key \<noteq> [] \<and> key \<noteq> ''.'' \<and> key \<noteq> ''..'' \<and> length key \<le> 512 \<and>
    (e = None \<longleftrightarrow> rawExpiration = None \<and> rawExpirationTtl = None) \<and>
    (case e of None \<Rightarrow> True | Some x \<Rightarrow> now + 60 \<le> x) \<and>
    (case rawMetadata of None \<Rightarrow> m = None | Some raw \<Rightarrow> length raw \<le> 1024 \<and> json_parse js raw = m \<and> m \<noteq> None)"
proof -
  have "case e of None \<Rightarrow> True | Some x \<Rightarrow> now + 60 \<le> x"
    using validatePutOptions_expiration [of js key now] assms by (auto simp: MIN_CACHE_TTL_def split: option.split)
  then show ?thesis
    using assms validatePutOptions_key [OF assms]
    by (auto simp: eq_commute [of "Some _" "json_parse js _"] validateKey_ok kv_limits validatePutOptions_def validateMetadata_def
        split: option.splits if_splits)
qed

definition ex_json :: "string json_codec" where
  "ex_json = \<lparr>json_parse = Some, json_stringify = (\<lambda>m. m)\<rparr>"

theorem validatePutOptions_limits_witness:
  "validatePutOptions ex_json ''a'' 100 None (Some ''90'') (Some ''1'') = Inr (Some 190, Some ''1'') \<and>
   (100 :: int) + 60 \<le> 190"
proof -
  have r: "validatePutOptions ex_json ''a'' 100 None (Some ''90'') (Some ''1'') = Inr (Some 190, Some ''1'')"
    by code_simp
  with validatePutOptions_limits [OF r] show ?thesis by simp
qed

definition put_expiration :: "int \<Rightarrow> query \<Rightarrow> int option" where
  "put_expiration nowMs q =
     (case param q ''expiration_ttl'' of
        Some ttl \<Rightarrow> Some (nowMs div 1000 + the (parseInt ttl))
      | None \<Rightarrow> map_option (\<lambda>x. the (parseInt x)) (param q ''expiration''))"

lemma put_options:
  assumes "validatePutOptions js key (millisToSeconds nowMs) (param q ''expiration'') (param q ''expiration_ttl'') raw = Inr (e, m)"
  shows "e = put_expiration nowMs q" "m = map_option (\<lambda>raw. the (json_parse js raw)) raw"
  using assms
  by (auto simp: put_expiration_def validatePutOptions_def validateExpirationTtl_def validateExpiration_def
      validateMetadata_def millisToSeconds_def Let_def split: option.splits if_splits)

text \<open>
  C20: After a successful put request, a get request for the same key (with no cache time or one of at least
  60 seconds) answers with exactly the bytes of the body and the metadata that was put until the
  expiration, and with 404 from then on. The expiration is the time of the put plus \<open>expiration_ttl\<close>, if
  that is given, otherwise \<open>expiration\<close>; with neither the value never expires. It is in the answer.
\<close>

theorem kv_put_then_get:
  assumes "file_service ds files b" and "kvs_reachable (BlobStore_ops ds b) now0 st"
    and "kvs_fresh st n"
    and "kv_put js (BlobStore_ops ds b) tst nowMs n k q hs body st = (Inr r, st')"
    and "decodeKey k' q' = decodeKey k q"
    and "case param q' ''cache_ttl'' of None \<Rightarrow> True | Some c \<Rightarrow> (case parseInt c of None \<Rightarrow> False | Some t \<Rightarrow> 60 \<le> t)"
  shows "fst (kv_get js (BlobStore_ops ds b) now k' q' st') =
    (if case put_expiration nowMs q of None \<Rightarrow> False | Some x \<Rightarrow> x * 1000 \<le> now
     then Inl (HttpError 404 ''Not Found'')
     else Inr (ValueResponse
       ((case put_expiration nowMs q of None \<Rightarrow> [] | Some x \<Rightarrow> [(''CF-Expiration'', show_int x)]) @
        (case param hs ''CF-KV-Metadata'' of
           None \<Rightarrow> [] | Some raw \<Rightarrow> [(''CF-KV-Metadata'', json_stringify js (the (json_parse js raw)))]))
       (Body (concat (case body of None \<Rightarrow> [] | Some chunks \<Rightarrow> chunks)))))"
proof -
  let ?v = "concat (case body of None \<Rightarrow> [] | Some chunks \<Rightarrow> chunks)"
  note bs = blob_store_of_files [OF assms(1)]
  note inv = blob_store.kvs_reachable_inv [OF bs assms(2)]
  note es = expiring_store_of_files [OF assms(1), of "[]"]
  obtain key e m where k: "decodeKey k q = Inr key"
    and o': "validatePutOptions js key (millisToSeconds nowMs) (param q ''expiration'')
           (param q ''expiration_ttl'') (param hs ''CF-KV-Metadata'') = Inr (e, m)"
    and p: "kvs_put (BlobStore_ops ds b) n False key ?v (map_option secondsToMillis e) m st = (Inr (), st')"
    by (rule kv_put_accepts [OF assms(4)]) (rule that)
  have key: "validateKey key = Inr ()" using o' by (rule validatePutOptions_key)
  then have "key \<noteq> []" by (simp add: validateKey_ok)
  note get = expiring_store.put_then_get(1) [OF es inv assms(3) this p, of now]
  obtain r st2 where g: "kvs_get (BlobStore_ops ds b) now None [] key st' = (r, st2)" by fastforce
  have "validateGetOptions key (map_option parseInt (param q' ''cache_ttl'')) = Inr ()"
    using key assms(6) by (auto simp: validateGetOptions_def MIN_CACHE_TTL_def split: option.splits)
  with g k assms(5) get show ?thesis
    unfolding put_options(1) [OF o', symmetric] put_options(2) [OF o']
    by (auto simp: kv_get_def secondsToMillis_def millisToSeconds_def split: option.splits)
qed

definition ex_put_query :: query where
  "ex_put_query = [(''expiration'', ''90'')]"

theorem kv_put_then_get_witness:
  "fst (kv_get ex_json (BlobStore_ops mem_service ex_store) 1000 ''k'' []
      (snd (kv_put ex_json (BlobStore_ops mem_service ex_store) False 1000 (ex_nonce 1) ''k'' ex_put_query []
        (Some [[1, 2], [3]]) (kvs_init (\<lambda>_. None))))) =
    Inr (ValueResponse [(''CF-Expiration'', ''90'')] (Body [1, 2, 3]))"
proof -
  have x: "parseInt ''90'' = Some 90" "show_int 90 = ''90''" by code_simp+
  have ok: "fst (kv_put ex_json (BlobStore_ops mem_service ex_store) False 1000 (ex_nonce 1) ''k'' ex_put_query []
    (Some [[1, 2], [3]]) (kvs_init (\<lambda>_. None))) = Inr EmptyResponse"
    by (simp add: ex_put_query_def x kv_put_def decodeKey_def validatePutOptions_def validateKey_def validateKeyLength_def
        validateExpiration_def millisToSeconds_def validateMetadata_def kv_limits parseInt_opt_def MaxLengthStream_def
        ml_transform_def Let_def mem.kvs_put_eq)
  have "kvs_fresh (kvs_init (\<lambda>_. None)) (ex_nonce 1)" by (simp add: kvs_fresh_def kvs_init_def)
  from kv_put_then_get [OF mem_file_service reach_init this, where js = ex_json and b = ex_store
      and tst = False and nowMs = 1000 and k = "''k''" and q = ex_put_query and hs = "[]" and r = EmptyResponse
      and body = "Some [[1, 2], [3]]" and k' = "''k''" and q' = "[]" and now = 1000] ok
  show ?thesis by (auto simp: prod_eq_iff put_expiration_def ex_put_query_def x decodeKey_def)
qed

text \<open>
  A put request whose body exceeds the limit (25 MiB, or 1 KiB under test) fails, and no failed
  put request, for whatever reason, changes what any get returns at any time.
\<close>

theorem kv_put_error_no_effect:
  assumes "file_service ds files b" and "kvs_reachable (BlobStore_ops ds b) now0 st"
    and "kvs_fresh st n"
    and "kv_put js (BlobStore_ops ds b) tst nowMs n k q hs body st = (r, st')"
  shows "(length (concat (case body of None \<Rightarrow> [] | Some cs \<Rightarrow> cs))
            > (if tst then 1024 else 25 * 1024 * 1024) \<longrightarrow> (\<exists>e. r = Inl e)) \<and>
    ((\<exists>e. r = Inl e) \<longrightarrow>
      fst (kvs_get (BlobStore_ops ds b) now None uuid key st') =
      fst (kvs_get (BlobStore_ops ds b) now None uuid key st))"
proof (intro conjI impI)
  assume large: "length (concat (case body of None \<Rightarrow> [] | Some cs \<Rightarrow> cs))
    > (if tst then 1024 else 25 * 1024 * 1024)"
  show "\<exists>e. r = Inl e"
  proof (cases r)
    case (Inr x)
    with assms(4) have "kv_put js (BlobStore_ops ds b) tst nowMs n k q hs body st = (Inr x, st')" by simp
    from kv_put_accepts [OF this] large show ?thesis
      by (auto simp: MAX_VALUE_SIZE_def MAX_VALUE_SIZE_TEST_def split: if_splits)
  qed simp
next
  note bs = blob_store_of_files [OF assms(1)]
  note inv = blob_store.kvs_reachable_inv [OF bs assms(2)]
  note es = expiring_store_of_files [OF assms(1), of uuid]
  assume "\<exists>e. r = Inl e"
  with assms(4) consider "st' = st"
    | key' v e m ab where "kvs_put (BlobStore_ops ds b) n ab key' v e m st = (Inl AbortError, st')"
    | key' v e m ab e' where "kvs_put (BlobStore_ops ds b) n ab key' v e m st = (Inl e', st')" "e' \<noteq> AbortError"
    by (auto simp: kv_put_def Let_def split: sum.splits prod.splits option.splits if_splits)
  then show "fst (kvs_get (BlobStore_ops ds b) now None uuid key st') =
      fst (kvs_get (BlobStore_ops ds b) now None uuid key st)"
  proof cases
    case (2 key' v e m ab)
    then have "ab" using blob_store.kvs_put_eq [OF bs, of key' n ab v e m st]
      by (cases "key' = []"; cases ab) (auto simp: kvs_put_def Let_def)
    with 2 expiring_store.abort_then_get [OF es inv assms(3), of key' v e m "Inl AbortError" st'] show ?thesis by simp
  next
    case (3 key' v e m ab e')
    then have "key' = []" using blob_store.kvs_put_eq [OF bs, of key' n ab v e m st]
      by (cases "key' = []"; cases ab) (auto simp: Let_def)
    with 3 show ?thesis by (simp add: kvs_put_def)
  qed simp
qed

theorem kv_put_error_no_effect_witness:
  "fst (kvs_get (BlobStore_ops mem_service ex_store) 20 None [] ''a''
     (snd (kv_put ex_json (BlobStore_ops mem_service ex_store) True 10 (ex_nonce 2) ''.'' [] []
       (Some [[1]]) (kvs_init (\<lambda>_. None))))) =
   fst (kvs_get (BlobStore_ops mem_service ex_store) 20 None [] ''a''
     (kvs_init (\<lambda>_. None) :: (string, string \<Rightarrow> bytes option) kvs))"
proof -
  have e: "isl (fst (kv_put ex_json (BlobStore_ops mem_service ex_store) True 10 (ex_nonce 2) ''.'' [] []
       (Some [[1]]) (kvs_init (\<lambda>_. None))))"
    by code_simp
  have "kvs_fresh (kvs_init (\<lambda>_. None)) (ex_nonce 2)" by (simp add: kvs_fresh_def kvs_init_def)
  from kv_put_error_no_effect [OF mem_file_service reach_init this prod.collapse [symmetric],
      where now = 20 and uuid = "[]" and key = "''a''" and js = ex_json and tst = True and nowMs = 10
      and k = "''.''" and q = "[]" and hs = "[]" and body = "Some [[1]]" and b = ex_store] e
  show ?thesis by (auto simp: isl_def)
qed


text \<open>
  A listing answers with at most the requested and at most 1000 keys, in key order, each the key
  of a stored row that has the requested prefix and has not expired, and with a cursor exactly when
  it is not complete.
\<close>

theorem kv_list_page:
  assumes "kv_list js now q st = (Inr (ListResponse keys complete cursor), st')"
  shows "length keys \<le> 1000 \<and>
    (\<forall>raw. param q ''key_count_limit'' = Some raw \<longrightarrow> int (length keys) \<le> the (parseInt raw)) \<and>
    sorted (map lk_name keys) \<and> (complete \<longleftrightarrow> cursor = None) \<and>
    (\<forall>k \<in> set keys. \<exists>r \<in> set (kv_rows st). lk_name k = kr_key r \<and> \<not> sql_expired now r \<and>
       (\<forall>pre. param q ''prefix'' = Some pre \<longrightarrow> startsWith (kr_key r) pre))"
proof -
  from assms obtain u where v: "validateListOptions (decodeListOptions q) = Inr u"
    by (auto simp: kv_list_def Let_def split: sum.splits)
  obtain limit where l: "lo_limit (decodeListOptions q) = Some limit" "1 \<le> limit" "limit \<le> 1000"
    using v by (auto simp: validateListOptions_def MAX_LIST_KEYS_def split: option.splits if_splits)
  let ?L = "live_rows now (case param q ''prefix'' of None \<Rightarrow> [] | Some p \<Rightarrow> p)
    (case param q ''cursor'' of None \<Rightarrow> [] | Some c \<Rightarrow> base64Decode c) (kv_rows st)"
  have keys: "map lk_name keys = map kr_key (take (nat limit) ?L)" and c: "complete \<longleftrightarrow> cursor = None"
    using assms v l(1,2) kvs_list_page(1) [of "nat limit" _ "param q ''cursor''" ?L now "param q ''prefix''" st]
    by (auto simp: kv_list_def Let_def decodeListOptions_def rowEntry_def comp_def split: prod.splits)
  have "length keys = length (take (nat limit) ?L)" using arg_cong [OF keys, of length] by simp
  then have len: "length keys \<le> nat limit" by simp
  then have "\<forall>raw. param q ''key_count_limit'' = Some raw \<longrightarrow> int (length keys) \<le> the (parseInt raw)"
    using l(1,2) by (auto simp: decodeListOptions_def)
  moreover have "sorted (map lk_name keys)"
    unfolding keys by (simp add: take_map [symmetric] live_rows_def sorted_wrt_take)
  moreover have "\<exists>r \<in> set (kv_rows st). lk_name k = kr_key r \<and> \<not> sql_expired now r \<and>
       (\<forall>pre. param q ''prefix'' = Some pre \<longrightarrow> startsWith (kr_key r) pre)" if "k \<in> set keys" for k
  proof -
    have "lk_name k \<in> set (map kr_key (take (nat limit) ?L))"
      using that by (simp flip: keys)
    then obtain r where "r \<in> set ?L" "lk_name k = kr_key r" by (auto dest: in_set_takeD)
    then show ?thesis by (auto simp: live_rows_def list_match_def)
  qed
  ultimately show ?thesis using c len l by auto
qed

theorem kv_list_page_witness:
  "\<exists>keys complete cursor. fst (kv_list \<lparr>json_parse = (\<lambda>_. None), json_stringify = show_nat\<rparr> 20
      [(''key_count_limit'', ''5'')] ex_kvs) = Inr (ListResponse keys complete cursor) \<and> int (length keys) \<le> 5"
proof -
  let ?r = "kv_list \<lparr>json_parse = (\<lambda>_. None), json_stringify = show_nat\<rparr> 20
      [(''key_count_limit'', ''5'')] ex_kvs"
  have five: "parseInt ''5'' = Some 5" by code_simp
  obtain page st2 where "kvs_list 20 \<lparr>q_prefix = None, q_cursor = None, q_limit = 5\<rparr> ex_kvs = (Inr page, st2)"
    using kvs_list_page(1) [of 5 "[]" None _ 20 None ex_kvs, OF _ _ refl] by (metis option.case(1) prod.collapse zero_less_numeral)
  then obtain keys complete cursor where r: "?r = (Inr (ListResponse keys complete cursor), st2)"
    by (simp add: kv_list_def decodeListOptions_def validateListOptions_def five MAX_LIST_KEYS_def)
  from kv_list_page [OF r] have "int (length keys) \<le> 5" by (simp add: five)
  with r show ?thesis by auto
qed

end
