(* ===== verification/KVSites.thy ===== *)
theory KVSites
  imports KVNamespace
begin

text \<open>
  Workers Sites: the read-only KV namespace over a directory of files
  (\<^verbatim>\<open>kv/sites.worker.ts\<close>, the key encoding and the include and exclude filters of
  \<^verbatim>\<open>kv/constants.ts\<close> and \<^verbatim>\<open>shared/matcher.ts\<close>).

  A regular expression is the predicate its \<open>test\<close> computes. The directory service is a function
  from URLs to responses; walking it may not end, so the walk has fuel for its depth.
\<close>

subsection \<open>Keys\<close>

definition SITES_NO_CACHE_PREFIX :: string where
  "SITES_NO_CACHE_PREFIX = ''$__MINIFLARE_SITES__$/''"

definition encodeSitesKey :: "string \<Rightarrow> string" where
  "encodeSitesKey key = SITES_NO_CACHE_PREFIX @ encodeURIComponent key"

definition decodeSitesKey :: "string \<Rightarrow> string res" where
  "decodeSitesKey key =
     (if startsWith key SITES_NO_CACHE_PREFIX then
        (case decodeURIComponent (drop (length SITES_NO_CACHE_PREFIX) key) of
           None \<Rightarrow> Inl URIError
         | Some k \<Rightarrow> Inr k)
      else Inr key)"

definition isSitesRequest :: "string \<Rightarrow> bool" where
  "isSitesRequest pathname = startsWith pathname (''/'' @ SITES_NO_CACHE_PREFIX)"

subsection \<open>Filters\<close>

record matcherRegExps =
  mr_include :: "(string \<Rightarrow> bool) list"
  mr_exclude :: "(string \<Rightarrow> bool) list"

definition testRegExps :: "matcherRegExps \<Rightarrow> string \<Rightarrow> bool" where
  "testRegExps matcher value =
     (if list_ex (\<lambda>r. r value) (mr_exclude matcher) then False
      else list_ex (\<lambda>r. r value) (mr_include matcher))"

record siteMatcherRegExps =
  sr_include :: "matcherRegExps option"
  sr_exclude :: "matcherRegExps option"

definition testSiteRegExps :: "siteMatcherRegExps \<Rightarrow> string \<Rightarrow> bool" where
  "testSiteRegExps regExps key =
     (case sr_include regExps of
        Some m \<Rightarrow> testRegExps m key
      | None \<Rightarrow>
          (case sr_exclude regExps of
             Some m \<Rightarrow> \<not> testRegExps m key
           | None \<Rightarrow> True))"

subsection \<open>Walking the directory\<close>

datatype entry_type = File | Directory | Symlink | BlockDevice | CharacterDevice | NamedPipe | Socket | Other

record dir_response =
  dir_contentType :: "string option"
  dir_entries :: "(string \<times> entry_type) list"

fun concat_opt :: "'a list option list \<Rightarrow> 'a list option" where
  "concat_opt [] = Some []"
| "concat_opt (x # xs) =
     Option.bind x (\<lambda>ys. map_option ((@) ys) (concat_opt xs))"

fun walkDirectory :: "nat \<Rightarrow> (string \<Rightarrow> dir_response) \<Rightarrow> string \<Rightarrow> string list option" where
  "walkDirectory 0 svc path = None"
| "walkDirectory (Suc fuel) svc path =
     (let res = svc (''http://placeholder/'' @ path);
          contentType = toLowerCase (case dir_contentType res of None \<Rightarrow> [] | Some t \<Rightarrow> t);
          isDirectory = startsWith contentType ''application/json''
      in if \<not> isDirectory then Some [path]
         else concat_opt (map (\<lambda>(name, type).
                let entryPath = path @ (if path = [] then [] else ''/'') @ name
                in if type = Directory then walkDirectory fuel svc entryPath else Some [entryPath])
                (dir_entries res)))"

subsection \<open>Listing\<close>

text \<open>\<open>arrayCompare\<close>; \<open>la\<close> and \<open>lb\<close> are the lengths of the whole arrays.\<close>

fun arrayCompare_loop :: "nat \<Rightarrow> nat \<Rightarrow> string \<Rightarrow> string \<Rightarrow> int" where
  "arrayCompare_loop la lb (x # a) (y # b) =
     (if x < y then -1 else if x > y then 1 else arrayCompare_loop la lb a b)"
| "arrayCompare_loop la lb _ _ = int la - int lb"

definition arrayCompare :: "string \<Rightarrow> string \<Rightarrow> int" where
  "arrayCompare a b = arrayCompare_loop (length a) (length b) a b"

record sites_list =
  sl_keys :: "string list"
  sl_cursor :: "string option"

definition siteKeys ::
  "siteMatcherRegExps \<Rightarrow> string option \<Rightarrow> string list \<Rightarrow> string list"
where
  "siteKeys siteRegExps pre names =
     js_sort arrayCompare
       (filter (\<lambda>name. case pre of None \<Rightarrow> True | Some p \<Rightarrow> startsWith name p)
         (map encodeSitesKey (filter (testSiteRegExps siteRegExps) names)))"

fun findIndex :: "('a \<Rightarrow> bool) \<Rightarrow> 'a list \<Rightarrow> nat option" where
  "findIndex P [] = None"
| "findIndex P (x # xs) = (if P x then Some 0 else map_option Suc (findIndex P xs))"

definition sitesPage :: "string list \<Rightarrow> nat \<Rightarrow> string option \<Rightarrow> sites_list" where
  "sitesPage keys limit cursor =
     (let startAfter = (case cursor of None \<Rightarrow> [] | Some c \<Rightarrow> base64Decode c);
          startIndex = (if startAfter \<noteq> [] then
                          (case findIndex (\<lambda>name. name = startAfter) keys of
                             None \<Rightarrow> length keys
                           | Some i \<Rightarrow> i) + 1
                        else 0);
          endIndex = startIndex + limit
      in \<lparr>sl_keys = take limit (drop startIndex keys),
          sl_cursor = (if endIndex < length keys then Some (base64Encode (keys ! (endIndex - 1))) else None)\<rparr>)"

definition handleListRequest ::
  "nat \<Rightarrow> query \<Rightarrow> (string \<Rightarrow> dir_response) \<Rightarrow> siteMatcherRegExps \<Rightarrow> sites_list res option"
where
  "handleListRequest fuel q svc siteRegExps =
     (let options = decodeListOptions q
      in case validateListOptions options of
           Inl e \<Rightarrow> Some (Inl e)
         | Inr _ \<Rightarrow>
             map_option (\<lambda>names.
                 Inr (sitesPage (siteKeys siteRegExps (lo_prefix options) names)
                        (nat (the (lo_limit options))) (lo_cursor options)))
               (walkDirectory fuel svc []))"

datatype sites_response =
    SitesError nat string
  | SitesList sites_list
  | SitesFile string

text \<open>\<open>SitesFile key\<close>: the response of the directory service to \<open>key\<close> below its root.\<close>

definition sites_fetch ::
  "nat \<Rightarrow> (string \<Rightarrow> dir_response) \<Rightarrow> siteMatcherRegExps \<Rightarrow> string \<Rightarrow> string \<Rightarrow> query
   \<Rightarrow> sites_response res option"
where
  "sites_fetch fuel svc siteRegExps reqMethod pathname q =
     (if reqMethod \<noteq> ''GET'' then
        Some (Inr (SitesError 405 (''Cannot '' @ toLowerCase reqMethod @ ''() with Workers Sites namespace'')))
      else
        (let key = drop 1 pathname;
             key1 = (if map_option toLowerCase (param q ''urlencoded'') = Some ''true''
                     then (case decodeURIComponent key of None \<Rightarrow> Inl URIError | Some k \<Rightarrow> Inr k)
                     else Inr key)
         in case andThen key1 decodeSitesKey of
              Inl e \<Rightarrow> Some (Inl e)
            | Inr key \<Rightarrow>
                if key \<noteq> [] \<and> \<not> testSiteRegExps siteRegExps key then
                  Some (Inr (SitesError 404 ''Not Found''))
                else if key = [] then
                  map_option (\<lambda>r. andThen r (\<lambda>l. Inr (SitesList l))) (handleListRequest fuel q svc siteRegExps)
                else Some (Inr (SitesFile key))))"

subsection \<open>Facts\<close>

lemma decodeSitesKey_encode: "valid_text key \<Longrightarrow> decodeSitesKey (encodeSitesKey key) = Inr key"
  by (simp add: decodeSitesKey_def encodeSitesKey_def decodeURIComponent_encode)

lemma encodeSitesKey_inj:
  "valid_text s \<Longrightarrow> valid_text t \<Longrightarrow> encodeSitesKey s = encodeSitesKey t \<Longrightarrow> s = t"
  by (auto simp: encodeSitesKey_def dest: encodeURIComponent_inj)

lemma encodeSitesKey_ne [simp]: "encodeSitesKey s \<noteq> []"
  by (simp add: encodeSitesKey_def SITES_NO_CACHE_PREFIX_def)

lemma valid_text_encodeSitesKey: "valid_text (encodeSitesKey s)"
  by (rule valid_text_ascii)
     (auto simp: encodeSitesKey_def SITES_NO_CACHE_PREFIX_def dest: encodeURIComponent_ascii)

lemma arrayCompare_loop_le:
  "int la - int lb = int (length a) - int (length b) \<Longrightarrow> arrayCompare_loop la lb a b \<le> 0 \<longleftrightarrow> a \<le> b"
proof (induction la lb a b rule: arrayCompare_loop.induct)
  case (1 la lb x a y b)
  then show ?case by (auto simp: Cons_le_Cons)
qed (auto simp: Nil_le_Cons le_Nil split: list.splits)

lemma arrayCompare_le: "arrayCompare a b \<le> 0 \<longleftrightarrow> a \<le> b"
  by (simp add: arrayCompare_def arrayCompare_loop_le)

lemma siteKeys_sort:
  "siteKeys r pre names =
     sort (filter (\<lambda>name. case pre of None \<Rightarrow> True | Some p \<Rightarrow> startsWith name p)
       (map encodeSitesKey (filter (testSiteRegExps r) names)))"
  unfolding siteKeys_def by (rule js_sort_sort_key) (rule arrayCompare_le)

lemma findIndex_nth:
  "distinct xs \<Longrightarrow> i < length xs \<Longrightarrow> findIndex (\<lambda>x. x = xs ! i) xs = Some i"
  by (induction xs arbitrary: i) (auto simp: nth_Cons split: nat.splits)

text \<open>A client that follows the cursors.\<close>

fun sites_list_all :: "nat \<Rightarrow> string list \<Rightarrow> nat \<Rightarrow> string option \<Rightarrow> string list option" where
  "sites_list_all 0 keys limit cursor = None"
| "sites_list_all (Suc fuel) keys limit cursor =
     (let p = sitesPage keys limit cursor
      in case sl_cursor p of
           None \<Rightarrow> Some (sl_keys p)
         | Some c \<Rightarrow> map_option ((@) (sl_keys p)) (sites_list_all fuel keys limit (Some c)))"

lemma sitesPage_after:
  assumes "distinct keys" "[] \<notin> set keys" "i < length keys"
  shows "sitesPage keys limit (Some (base64Encode (keys ! i))) = \<lparr>sl_keys = take limit (drop (Suc i) keys),
      sl_cursor = (if Suc (i + limit) < length keys then Some (base64Encode (keys ! (i + limit))) else None)\<rparr>"
proof -
  have "keys ! i \<in> set keys" using assms(3) by simp
  then have "keys ! i \<noteq> []" using assms(2) by auto
  then show ?thesis using findIndex_nth [OF assms(1,3)] by (simp add: sitesPage_def)
qed

lemma sites_list_all_from:
  assumes "distinct keys" "[] \<notin> set keys" "0 < limit" "i < length keys" "length keys \<le> fuel + i"
  shows "sites_list_all fuel keys limit (Some (base64Encode (keys ! i))) = Some (drop (Suc i) keys)"
  using assms(4,5)
proof (induction fuel arbitrary: i)
  case (Suc fuel)
  note p = sitesPage_after [OF assms(1,2) Suc.prems(1), of limit]
  show ?case
  proof (cases "Suc (i + limit) < length keys")
    case True
    have "sites_list_all fuel keys limit (Some (base64Encode (keys ! (i + limit)))) =
        Some (drop (Suc (i + limit)) keys)"
      using Suc.prems True assms(3) by (intro Suc.IH) auto
    moreover have "take limit (drop (Suc i) keys) @ drop (Suc (i + limit)) keys = drop (Suc i) keys"
      using append_take_drop_id [of limit "drop (Suc i) keys"] by (simp add: add.commute)
    ultimately show ?thesis using True by (simp add: p)
  next
    case False
    then show ?thesis by (simp add: p)
  qed
qed simp

lemma sites_list_all_complete:
  assumes "distinct keys" "[] \<notin> set keys" "0 < limit"
  shows "sites_list_all (Suc (length keys)) keys limit None = Some keys"
proof (cases "limit < length keys")
  case True
  have "sites_list_all (length keys) keys limit (Some (base64Encode (keys ! (limit - 1)))) =
      Some (drop limit keys)"
    using sites_list_all_from [OF assms, of "limit - 1" "length keys"] True assms(3) by simp
  with True show ?thesis by (simp add: sitesPage_def)
next
  case False
  then show ?thesis by (simp add: sitesPage_def)
qed

subsection \<open>A service over a finite tree\<close>

datatype site_tree = SFile | SDir "(string \<times> site_tree) list"

definition sub_path :: "string \<Rightarrow> string \<Rightarrow> string" where
  "sub_path path name = path @ (if path = [] then [] else ''/'') @ name"

fun tree_type :: "site_tree \<Rightarrow> entry_type" where
  "tree_type SFile = File"
| "tree_type (SDir _) = Directory"

fun tree_depth :: "site_tree \<Rightarrow> nat" where
  "tree_depth SFile = 0"
| "tree_depth (SDir es) = Suc (foldr max (map (\<lambda>(n, t). tree_depth t) es) 0)"

fun tree_files :: "string \<Rightarrow> site_tree \<Rightarrow> string list" where
  "tree_files path SFile = [path]"
| "tree_files path (SDir es) = concat (map (\<lambda>(n, t). tree_files (sub_path path n) t) es)"

text \<open>\<open>svc\<close> answers requests below \<open>path\<close> from the tree.\<close>

fun serves :: "(string \<Rightarrow> dir_response) \<Rightarrow> string \<Rightarrow> site_tree \<Rightarrow> bool" where
  "serves svc path SFile = True"
| "serves svc path (SDir es) \<longleftrightarrow>
     svc (''http://placeholder/'' @ path) =
       \<lparr>dir_contentType = Some ''application/json'', dir_entries = map (\<lambda>(n, t). (n, tree_type t)) es\<rparr> \<and>
     list_all (\<lambda>(n, t). serves svc (sub_path path n) t) es"

lemma concat_opt_Some: "(\<And>x. x \<in> set xs \<Longrightarrow> f x = Some (g x)) \<Longrightarrow> concat_opt (map f xs) = Some (concat (map g xs))"
  by (induction xs) auto

lemma foldr_max_mem: "x \<in> set xs \<Longrightarrow> x \<le> foldr max xs (0 :: nat)"
  by (induction xs) auto

lemma json_is_directory [simp]: "startsWith (toLowerCase ''application/json'') ''application/json''"
  by code_simp

lemma walkDirectory_tree:
  "serves svc path (SDir es) \<Longrightarrow> tree_depth (SDir es) \<le> fuel \<Longrightarrow>
     walkDirectory fuel svc path = Some (tree_files path (SDir es))"
proof (induction fuel arbitrary: path es)
  case (Suc fuel)
  have "(if tree_type t = Directory then walkDirectory fuel svc (sub_path path n) else Some [sub_path path n])
      = Some (tree_files (sub_path path n) t)" if "(n, t) \<in> set es" for n t
  proof (cases t)
    case (SDir es')
    have "tree_depth t \<le> foldr max (map (\<lambda>(n, t). tree_depth t) es) 0"
      using that by (intro foldr_max_mem) force
    moreover have "serves svc (sub_path path n) (SDir es')"
      using Suc.prems(1) that SDir unfolding serves.simps(2) [of svc path] list_all_iff by blast
    ultimately have "walkDirectory fuel svc (sub_path path n) = Some (tree_files (sub_path path n) (SDir es'))"
      using Suc.prems(2) SDir by (intro Suc.IH) auto
    with SDir show ?thesis by simp
  qed simp
  with Suc.prems show ?case
    by (auto simp: Let_def comp_def case_prod_unfold sub_path_def [symmetric] intro!: concat_opt_Some)
qed simp

subsection \<open>Properties\<close>

text \<open>
  A request for the encoded key of a file serves that file if the site filters include its name
  and answers 404 if they do not, for every name that is valid UTF-8: the two encodings the client
  and the manifest apply are undone exactly.
\<close>

theorem sites_request_serves_file:
  assumes "valid_text name" and "name \<noteq> []"
  shows "sites_fetch fuel svc r ''GET'' (''/'' @ encodeURIComponent (encodeSitesKey name)) [(''urlencoded'', ''true'')] =
    Some (Inr (if testSiteRegExps r name then SitesFile name else SitesError 404 ''Not Found''))"
proof -
  have "toLowerCase ''true'' = ''true''" by code_simp
  with assms show ?thesis
    by (simp add: sites_fetch_def decodeURIComponent_encode valid_text_encodeSitesKey decodeSitesKey_encode Let_def)
qed

theorem sites_request_serves_file_witness:
  "sites_fetch 1 (\<lambda>_. undefined) \<lparr>sr_include = None, sr_exclude = None\<rparr> ''GET''
     (''/'' @ encodeURIComponent (encodeSitesKey ''a b/c.txt'')) [(''urlencoded'', ''true'')] =
   Some (Inr (SitesFile ''a b/c.txt''))"
proof -
  have "valid_text ''a b/c.txt''" by code_simp
  from sites_request_serves_file [OF this, of 1 "\<lambda>_. undefined" "\<lparr>sr_include = None, sr_exclude = None\<rparr>"]
  show ?thesis by (simp add: testSiteRegExps_def)
qed

text \<open>
  Over a directory service with a finite tree, the directory walk ends, and following the
  cursors of the listing returns the encoded name of every file the filters and the prefix admit,
  each exactly once, in the byte order of the encoded names.
\<close>

theorem sites_list_complete:
  assumes "serves svc [] (SDir es)" and "tree_depth (SDir es) \<le> fuel" and "0 < limit"
    and "distinct (tree_files [] (SDir es))" and "\<forall>f \<in> set (tree_files [] (SDir es)). valid_text f"
    and "keys = sort (filter (\<lambda>k. case pre of None \<Rightarrow> True | Some p \<Rightarrow> startsWith k p)
           (map encodeSitesKey (filter (testSiteRegExps r) (tree_files [] (SDir es)))))"
  shows "walkDirectory fuel svc [] = Some (tree_files [] (SDir es)) \<and>
    siteKeys r pre (tree_files [] (SDir es)) = keys \<and>
    sites_list_all (Suc (length keys)) (siteKeys r pre (tree_files [] (SDir es))) limit None = Some keys"
proof -
  have k: "siteKeys r pre (tree_files [] (SDir es)) = keys"
    by (simp only: siteKeys_sort assms(6))
  have "inj_on encodeSitesKey (set (tree_files [] (SDir es)))"
    using assms(5) encodeSitesKey_inj by (auto simp: inj_on_def simp del: tree_files.simps)
  then have "distinct (map encodeSitesKey (tree_files [] (SDir es)))"
    using assms(4) by (simp add: distinct_map del: tree_files.simps)
  then have "distinct keys" "[] \<notin> set keys"
    unfolding assms(6)
    by (auto simp: distinct_map_filter encodeSitesKey_ne [symmetric] simp del: tree_files.simps encodeSitesKey_ne)
  then show ?thesis
    using k walkDirectory_tree [OF assms(1,2)] sites_list_all_complete [OF _ _ assms(3)] by simp
qed

definition ex_site :: "string \<Rightarrow> dir_response" where
  "ex_site url =
     (if url = ''http://placeholder/'' then
        \<lparr>dir_contentType = Some ''application/json'', dir_entries = [(''b.txt'', File), (''d'', Directory)]\<rparr>
      else if url = ''http://placeholder/d'' then
        \<lparr>dir_contentType = Some ''application/json'', dir_entries = [(''a'', File)]\<rparr>
      else \<lparr>dir_contentType = None, dir_entries = []\<rparr>)"

theorem sites_list_complete_witness:
  "walkDirectory 2 ex_site [] = Some [''b.txt'', ''d/a''] \<and>
   sites_list_all 3 (siteKeys \<lparr>sr_include = None, sr_exclude = None\<rparr> None [''b.txt'', ''d/a'']) 1 None =
     Some (sort [encodeSitesKey ''b.txt'', encodeSitesKey ''d/a''])"
proof -
  let ?es = "[(''b.txt'', SFile), (''d'', SDir [(''a'', SFile)])]"
  have f: "tree_files [] (SDir ?es) = [''b.txt'', ''d/a'']" by code_simp
  have "serves ex_site [] (SDir ?es) \<and> tree_depth (SDir ?es) \<le> 2" by code_simp
  moreover have "valid_text ''b.txt'' \<and> valid_text ''d/a''" by code_simp
  moreover have "length (sort [encodeSitesKey ''b.txt'', encodeSitesKey ''d/a'']) = 2"
    by (simp only: length_sort) simp
  ultimately show ?thesis
    using sites_list_complete [of ex_site ?es 2 1 "sort [encodeSitesKey ''b.txt'', encodeSitesKey ''d/a'']" None
        "\<lparr>sr_include = None, sr_exclude = None\<rparr>"]
    by (auto simp: f testSiteRegExps_def numeral_3_eq_3 simp del: tree_files.simps serves.simps tree_depth.simps
        sites_list_all.simps sort_key_simps)
qed

end
