(* ===== verification/Cache.thy ===== *)
theory Cache
  imports Http KVSites
begin

text \<open>
  The Cache simulator, \<^verbatim>\<open>packages/miniflare/src/workers/cache/cache.worker.ts\<close>: a client of
  \<open>KeyValueStorage\<close> whose metadata are the status, the headers and the size of a response.

  A request is its URL with the path name the URL parser gives it, its \<open>cf\<close> options and its headers.
  The package \<^verbatim>\<open>http-cache-semantics\<close> is not part of the repository: the policy it computes from the
  time, a request and a response is the parameter \<open>policy\<close>.
\<close>

subsection \<open>Errors (\<^verbatim>\<open>errors.worker.ts\<close>)\<close>

definition CacheHeaders_STATUS :: string where
  "CacheHeaders_STATUS = ''cf-cache-status''"

definition StorageFailure :: error where
  "StorageFailure = CacheError 413 ''Cache storage failed'' []"

definition PurgeFailure :: error where
  "PurgeFailure = CacheError 404 ''Couldn't find asset to purge'' []"

definition CacheMiss :: error where
  "CacheMiss = CacheError 504 ''Asset not found in cache'' [(CacheHeaders_STATUS, ''MISS'')]"

definition RangeNotSatisfiable :: "int \<Rightarrow> error" where
  "RangeNotSatisfiable s =
     CacheError 416 ''Range not satisfiable''
       [(''Content-Range'', ''bytes */'' @ show_int s), (CacheHeaders_STATUS, ''HIT'')]"

lemmas cache_errors = StorageFailure_def PurgeFailure_def CacheMiss_def RangeNotSatisfiable_def

subsection \<open>Requests, metadata and responses\<close>

record cache_request =
  cq_url :: string
  cq_pathname :: string
  cq_cacheKey :: "string option"
  cq_warnUsage :: bool
  cq_headers :: headers_obj
  cq_body :: "bytes list option"

record cacheMetadata =
  cm_headers :: "(string \<times> string) list"
  cm_status :: int
  cm_size :: int

text \<open>The body of a response is a stream, which may fail while it is read.\<close>

record cache_response =
  cs_status :: int
  cs_headers :: headers_obj
  cs_body :: "bytes res option"

definition getCacheKey :: "cache_request \<Rightarrow> string" where
  "getCacheKey rq = (case cq_cacheKey rq of Some k \<Rightarrow> if k \<noteq> [] then k else cq_url rq | None \<Rightarrow> cq_url rq)"

subsection \<open>Expiration\<close>

record policy_request =
  pq_url :: string
  pq_method :: string
  pq_headers :: "(string \<times> string) list"

record policy_response =
  pr_status :: int
  pr_headers :: "(string \<times> string) list"

record cache_policy =
  storable :: bool
  timeToLive :: int
  responseHeaders :: "(string \<times> string) list"

type_synonym policy_fn = "int \<Rightarrow> policy_request \<Rightarrow> policy_response \<Rightarrow> cache_policy"

definition normaliseHeaders :: "headers_obj \<Rightarrow> (string \<times> string) list" where
  "normaliseHeaders hs = fold (\<lambda>(k, v) m. AList.update (toLowerCase k) v m) (headers_entries hs) []"

text \<open>\<^verbatim>\<open>replace(/private=set-cookie;?/i, "")\<close>, on a string in lower case: the first match is removed.\<close>

fun removePrivate :: "string \<Rightarrow> string" where
  "removePrivate [] = []"
| "removePrivate (c # s) =
     (if startsWith (c # s) ''private=set-cookie''
      then (let r = drop 18 (c # s) in if startsWith r '';'' then drop 1 r else r)
      else c # removePrivate s)"

definition withoutPrivate :: "(string \<times> string) list \<Rightarrow> (string \<times> string) list" where
  "withoutPrivate hs =
     (case map_of hs ''cache-control'' of
        Some cc \<Rightarrow>
          if js_includes (toLowerCase cc) ''private=set-cookie''
          then AList.delete ''set-cookie'' (AList.update ''cache-control'' (removePrivate (toLowerCase cc)) hs)
          else hs
      | None \<Rightarrow> hs)"

record parsed_response =
  ps_status :: int
  ps_statusText :: string
  ps_headers :: headers_obj
  ps_body :: bytes

definition getExpiration :: "policy_fn \<Rightarrow> int \<Rightarrow> cache_request \<Rightarrow> parsed_response \<Rightarrow> cache_policy" where
  "getExpiration policy now rq rs =
     (let reqHeaders = AList.delete ''cache-control'' (normaliseHeaders (cq_headers rq));
          resHeaders = withoutPrivate (normaliseHeaders (ps_headers rs));
          p = policy now \<lparr>pq_url = cq_url rq, pq_method = ''GET'', pq_headers = reqHeaders\<rparr>
                \<lparr>pr_status = ps_status rs, pr_headers = resHeaders\<rparr>
      in p\<lparr>storable := storable p \<and> map_of resHeaders ''set-cookie'' = None\<rparr>)"

subsection \<open>Conditional requests\<close>

text \<open>Characters the dot of a regular expression does not match (\<open>U+2028\<close> and \<open>U+2029\<close> as bytes).\<close>

definition has_line_terminator :: "string \<Rightarrow> bool" where
  "has_line_terminator s \<longleftrightarrow>
     CHR 0x0A \<in> set s \<or> CHR 0x0D \<in> set s
     \<or> js_includes s [CHR 0xE2, CHR 0x80, CHR 0xA8] \<or> js_includes s [CHR 0xE2, CHR 0x80, CHR 0xA9]"

text \<open>\<^verbatim>\<open>/^(W\/)?"(.+)"$/\<close> on the trimmed value.\<close>

definition parseETag :: "string \<Rightarrow> string option" where
  "parseETag value =
     (let t = trim value; q = (if startsWith t ''W/'' then drop 2 t else t); tag = butlast (tl q)
      in if 3 \<le> length q \<and> hd q = CHR 0x22 \<and> last q = CHR 0x22 \<and> \<not> has_line_terminator tag
         then Some tag else None)"

definition two_digits :: "string \<Rightarrow> nat \<Rightarrow> bool" where
  "two_digits v i \<longleftrightarrow> list_all is_digit (substr v i 2)"

definition utcDateRegexp :: "string \<Rightarrow> bool" where
  "utcDateRegexp v \<longleftrightarrow>
     length v = 29 \<and> substr v 0 3 \<in> set day_names \<and> substr v 3 2 = '', '' \<and> two_digits v 5
     \<and> substr v 7 1 = '' '' \<and> substr v 8 3 \<in> set month_names \<and> substr v 11 1 = '' ''
     \<and> two_digits v 12 \<and> two_digits v 14 \<and> substr v 16 1 = '' '' \<and> two_digits v 17
     \<and> substr v 19 1 = '':'' \<and> two_digits v 20 \<and> substr v 22 1 = '':'' \<and> two_digits v 23
     \<and> substr v 25 4 = '' GMT''"

definition parseUTCDate :: "string \<Rightarrow> int option" where
  "parseUTCDate value = (if utcDateRegexp value then date_parse_http value else None)"

record cachedResponse =
  cd_status :: int
  cd_headers :: headers_obj
  cd_ranges :: "inclusiveRange list"
  cd_body :: kv_value
  cd_totalSize :: int

definition etag_matches :: "headers_obj \<Rightarrow> headers_obj \<Rightarrow> bool" where
  "etag_matches reqHeaders resHeaders =
     (case (headers_get reqHeaders ''If-None-Match'', headers_get resHeaders ''ETag'') of
        (Some inm, Some etag) \<Rightarrow>
          (case parseETag etag of
             None \<Rightarrow> False
           | Some resETag \<Rightarrow>
               trim inm = ''*'' \<or> list_ex (\<lambda>t. parseETag t = Some resETag) (split_on CHR '','' inm))
      | _ \<Rightarrow> False)"

definition not_modified_since :: "headers_obj \<Rightarrow> headers_obj \<Rightarrow> bool" where
  "not_modified_since reqHeaders resHeaders =
     (case (headers_get reqHeaders ''If-Modified-Since'', headers_get resHeaders ''Last-Modified'') of
        (Some since, Some modified) \<Rightarrow>
          (case (parseUTCDate since, parseUTCDate modified) of
             (Some reqIfModifiedSince, Some resLastModified) \<Rightarrow> resLastModified \<le> reqIfModifiedSince
           | _ \<Rightarrow> False)
      | _ \<Rightarrow> False)"

definition stream_of :: "kv_value \<Rightarrow> bytes res" where
  "stream_of v = (case v of Body b \<Rightarrow> Inr b | Multipart s \<Rightarrow> mp_body s)"

definition rangeResponseHeaders :: "cachedResponse \<Rightarrow> headers_obj res" where
  "rangeResponseHeaders rs =
     (case cd_ranges rs of
        [] \<Rightarrow> Inr (cd_headers rs)
      | [r] \<Rightarrow>
          andThen (headers_set (cd_headers rs) ''Content-Range''
             (''bytes '' @ show_int (rstart r) @ ''-'' @ show_int (rend r) @ ''/'' @ show_int (cd_totalSize rs)))
            (\<lambda>hs. headers_set hs ''Content-Length'' (show_int (rend r - rstart r + 1)))
      | _ \<Rightarrow>
          (case cd_body rs of
             Body _ \<Rightarrow> Inl AssertionError
           | Multipart s \<Rightarrow> headers_set (cd_headers rs) ''Content-Type'' (multipartContentType s)))"

definition getMatchResponse :: "headers_obj \<Rightarrow> cachedResponse \<Rightarrow> cache_response res" where
  "getMatchResponse reqHeaders rs =
     (if etag_matches reqHeaders (cd_headers rs) \<or> not_modified_since reqHeaders (cd_headers rs)
      then Inr \<lparr>cs_status = 304, cs_headers = cd_headers rs, cs_body = None\<rparr>
      else
        andThen (rangeResponseHeaders rs) (\<lambda>hs.
        let st = (if cd_ranges rs = [] then cd_status rs else 206) in
        andThen (check_response True st []) (\<lambda>_.
        Inr \<lparr>cs_status = st, cs_headers = hs, cs_body = Some (stream_of (cd_body rs))\<rparr>)))"

subsection \<open>Parsing the response to store\<close>

definition BLANK_LINE :: bytes where
  "BLANK_LINE = [13, 10, 13, 10]"

fun findBlankLine :: "bytes \<Rightarrow> nat option" where
  "findBlankLine [] = None"
| "findBlankLine (b # bs) =
     (if take 4 (b # bs) = BLANK_LINE then Some 0 else map_option Suc (findBlankLine bs))"

text \<open>Buffer chunks of the stream up to the first blank line: the buffer, its index, the other chunks.\<close>

fun bufferHeader :: "bytes \<Rightarrow> bytes list \<Rightarrow> (bytes \<times> nat \<times> bytes list) option" where
  "bufferHeader buffer [] = None"
| "bufferHeader buffer (chunk # chunks) =
     (case findBlankLine (buffer @ chunk) of
        Some i \<Rightarrow> Some (buffer @ chunk, i, chunks)
      | None \<Rightarrow> bufferHeader (buffer @ chunk) chunks)"

fun split_crlf :: "string \<Rightarrow> string list" where
  "split_crlf (c # d # s) =
     (if c = CHR 0x0D \<and> d = CHR 0x0A then [] # split_crlf s
      else (case split_crlf (d # s) of [] \<Rightarrow> [[c]] | w # ws \<Rightarrow> (c # w) # ws))"
| "split_crlf s = [s]"

text \<open>\<open>STATUS_REGEXP\<close>: the status code and the status text.\<close>

definition statusVersion :: "string \<Rightarrow> string option" where
  "statusVersion line =
     (let v = drop 5 line in
      if startsWith line ''HTTP/'' \<and> v \<noteq> [] \<and> is_digit (hd v) then
        (if startsWith (tl v) ''.'' \<and> 2 < length v \<and> is_digit (v ! 2) then Some (drop 3 v) else Some (tl v))
      else None)"

definition statusMatch :: "string \<Rightarrow> (string \<times> string) option" where
  "statusMatch line =
     (case statusVersion line of
        Some (sp # r) \<Rightarrow>
          (let code = takeWhile is_digit r; t = dropWhile is_digit r in
           if sp = CHR '' '' \<and> code \<noteq> [] \<and> startsWith t '' '' \<and> \<not> has_line_terminator (tl t)
           then Some (code, tl t) else None)
      | _ \<Rightarrow> None)"

definition parseHeaderLine :: "string \<Rightarrow> string \<times> string" where
  "parseHeaderLine raw =
     (if CHR '':'' \<in> set raw
      then (takeWhile (\<lambda>c. c \<noteq> CHR '':'') raw, trim (tl (dropWhile (\<lambda>c. c \<noteq> CHR '':'') raw)))
      else ([], trim raw))"

definition bytes_to_text :: "bytes \<Rightarrow> string" where
  "bytes_to_text bs = bufferToString (map (\<lambda>w. char_of (unat w)) bs)"

definition parseHttpResponse :: "bytes list \<Rightarrow> parsed_response res" where
  "parseHttpResponse stream =
     (case bufferHeader [] stream of
        None \<Rightarrow> Inl AssertionError
      | Some (buffer, blankLineIndex, rest) \<Rightarrow>
          (let rawStatusHeaders = bytes_to_text (take blankLineIndex buffer);
               rawLines = split_crlf rawStatusHeaders
           in case statusMatch (hd rawLines) of
                None \<Rightarrow> Inl AssertionError
              | Some (rawStatusCode, statusText) \<Rightarrow>
                  (let statusCode = toInt rawStatusCode in
                   andThen (check_response True statusCode statusText) (\<lambda>_.
                   andThen (headers_new (map parseHeaderLine (tl rawLines))) (\<lambda>hs.
                   Inr \<lparr>ps_status = statusCode, ps_statusText = statusText, ps_headers = hs,
                        ps_body = drop (blankLineIndex + 4) buffer @ concat rest\<rparr>)))))"

subsection \<open>The object\<close>

record 'd cacheObject =
  co_warnedUsage :: bool
  co_storage :: "(cacheMetadata, 'd) kvs"
  co_log :: "string list"

definition maybeWarnUsage :: "cache_request \<Rightarrow> 'd cacheObject \<Rightarrow> 'd cacheObject" where
  "maybeWarnUsage rq st =
     (if \<not> co_warnedUsage st \<and> cq_warnUsage rq
      then st\<lparr>co_warnedUsage := True,
              co_log := co_log st
                @ [''Cache operations will have no impact if you deploy to a workers.dev subdomain!'']\<rparr>
      else st)"

text \<open>The callback of \<open>match\<close>: it builds the headers of the response and the ranges.\<close>

definition matchOptions ::
  "cache_request \<Rightarrow> cacheMetadata \<Rightarrow> (headers_obj \<times> inclusiveRange list option) res"
where
  "matchOptions rq m =
     andThen (headers_new (cm_headers m)) (\<lambda>resHeaders.
     case headers_get (cq_headers rq) ''Range'' of
       None \<Rightarrow> Inr (resHeaders, None)
     | Some rangeHeader \<Rightarrow>
         (case parseRanges rangeHeader (cm_size m) of
            None \<Rightarrow> Inl (RangeNotSatisfiable (cm_size m))
          | Some rs \<Rightarrow> Inr (resHeaders, Some rs)))"

definition matchRangeOpts :: "cache_request \<Rightarrow> cacheMetadata \<Rightarrow> range_opts res" where
  "matchRangeOpts rq m =
     andThen (matchOptions rq m) (\<lambda>(hs, rs).
       Inr \<lparr>ro_ranges = rs, ro_contentType = headers_get hs ''Content-Type''\<rparr>)"

definition cache_match ::
  "'d blob_ops \<Rightarrow> int \<Rightarrow> string \<Rightarrow> cache_request \<Rightarrow> 'd cacheObject \<Rightarrow> cache_response res \<times> 'd cacheObject"
where
  "cache_match bs now uuid rq st0 =
     (let st = maybeWarnUsage rq st0 in
      if isSitesRequest (cq_pathname rq) then (Inl CacheMiss, st)
      else
        (let (r, storage) =
               kvs_get bs now (Some (matchRangeOpts rq)) uuid (getCacheKey rq) (co_storage st)
         in (andThen r (\<lambda>cached.
               case Option.bind cached (\<lambda>c. map_option (Pair c) (ke_metadata c)) of
                 None \<Rightarrow> Inl CacheMiss
               | Some (c, m) \<Rightarrow>
                   andThen (matchOptions rq m) (\<lambda>(hs, rs).
                   andThen (headers_set hs ''CF-Cache-Status'' ''HIT'') (\<lambda>resHeaders.
                   getMatchResponse (cq_headers rq)
                     \<lparr>cd_status = cm_status m, cd_headers = resHeaders,
                      cd_ranges = (case rs of None \<Rightarrow> [] | Some l \<Rightarrow> l),
                      cd_body = ke_value c, cd_totalSize = cm_size m\<rparr>))),
             st\<lparr>co_storage := storage\<rparr>)))"

definition storedSize :: "parsed_response \<Rightarrow> int" where
  "storedSize rs =
     (case parseInt_opt (headers_get (ps_headers rs) ''Content-Length'') of
        None \<Rightarrow> int (length (ps_body rs))
      | Some contentLength \<Rightarrow> contentLength)"

definition cache_put ::
  "policy_fn \<Rightarrow> 'd blob_ops \<Rightarrow> int \<Rightarrow> nonce \<Rightarrow> cache_request \<Rightarrow> 'd cacheObject
   \<Rightarrow> cache_response res \<times> 'd cacheObject"
where
  "cache_put policy bs now n rq st0 =
     (let st = maybeWarnUsage rq st0 in
      if isSitesRequest (cq_pathname rq) then (Inl CacheMiss, st)
      else
        (case cq_body rq of
           None \<Rightarrow> (Inl AssertionError, st)
         | Some chunks \<Rightarrow>
             (case parseHttpResponse chunks of
                Inl e \<Rightarrow> (Inl e, st)
              | Inr rs \<Rightarrow>
                  (let e = getExpiration policy now rq rs in
                   if \<not> storable e then (Inl StorageFailure, st)
                   else
                     (let (r, storage) =
                            kvs_put bs n False (getCacheKey rq) (ps_body rs) (Some (now + timeToLive e))
                              (Some \<lparr>cm_headers = responseHeaders e, cm_status = ps_status rs,
                                     cm_size = storedSize rs\<rparr>) (co_storage st)
                      in (andThen r (\<lambda>_. Inr \<lparr>cs_status = 204, cs_headers = [], cs_body = None\<rparr>),
                          st\<lparr>co_storage := storage\<rparr>))))))"

definition cache_delete ::
  "int \<Rightarrow> cache_request \<Rightarrow> 'd cacheObject \<Rightarrow> cache_response res \<times> 'd cacheObject"
where
  "cache_delete now rq st0 =
     (let st = maybeWarnUsage rq st0;
          (deleted, storage) = kvs_delete now (getCacheKey rq) (co_storage st)
      in (if deleted then Inr \<lparr>cs_status = 200, cs_headers = [], cs_body = None\<rparr> else Inl PurgeFailure,
          st\<lparr>co_storage := storage\<rparr>))"

text \<open>\<open>CacheError.toResponse\<close> and the name of the object in \<^verbatim>\<open>cache-entry.worker.ts\<close>.\<close>

definition cacheError_toResponse :: "error \<Rightarrow> cache_response res" where
  "cacheError_toResponse e =
     (case e of
        CacheError code message hs \<Rightarrow>
          andThen (headers_new hs) (\<lambda>h. Inr \<lparr>cs_status = int code, cs_headers = h, cs_body = None\<rparr>)
      | _ \<Rightarrow> Inl e)"

definition cacheEntry_name :: "headers_obj \<Rightarrow> string" where
  "cacheEntry_name hs =
     (case headers_get hs ''cf-cache-namespace'' of None \<Rightarrow> ''default'' | Some ns \<Rightarrow> ''named:'' @ ns)"

end
