(* ===== verification/CacheTheorems.thy ===== *)
theory CacheTheorems
  imports Cache
begin

text \<open>
  What the Cache simulator guarantees on top of the contract of \<open>KeyValueStorage\<close>: a stored response
  is served until it expires, in whole or in part, parsing does not depend on how the stream is cut
  into chunks, and purging removes exactly one entry.
\<close>

subsection \<open>Parsing\<close>

lemma findBlankLine_split:
  "findBlankLine bs = Some i \<Longrightarrow> bs = take i bs @ BLANK_LINE @ drop (i + 4) bs"
proof (induction bs arbitrary: i)
  case (Cons b bs)
  show ?case
  proof (cases "take 4 (b # bs) = BLANK_LINE")
    case True
    with Cons.prems have "i = 0" by simp
    then show ?thesis using True append_take_drop_id [of 4 "b # bs"] by simp
  next
    case False
    then obtain j where "findBlankLine bs = Some j" "i = Suc j" using Cons.prems by auto
    then show ?thesis using Cons.IH [of j] by (simp add: numeral_eq_Suc)
  qed
qed simp

lemma findBlankLine_bound: "findBlankLine bs = Some i \<Longrightarrow> i + 4 \<le> length bs"
  using arg_cong [OF findBlankLine_split, of bs i length] by (auto simp: BLANK_LINE_def min_def split: if_splits)

lemma findBlankLine_append:
  "findBlankLine bs = Some i \<Longrightarrow> findBlankLine (bs @ cs) = Some i"
proof (induction bs arbitrary: i)
  case (Cons b bs)
  have "4 \<le> length (b # bs)" using findBlankLine_bound [OF Cons.prems] by simp
  then have t: "take 4 (b # bs @ cs) = take 4 (b # bs)" by (simp add: take_Cons')
  show ?case
  proof (cases "take 4 (b # bs) = BLANK_LINE")
    case False
    then obtain j where "findBlankLine bs = Some j" "i = Suc j" using Cons.prems by auto
    then show ?thesis using False t Cons.IH [of j] by (simp only: append_Cons findBlankLine.simps) simp
  qed (use Cons.prems t in simp)
qed simp

lemma bufferHeader_concat:
  "(case bufferHeader buf chunks of
      None \<Rightarrow> chunks = [] \<or> findBlankLine (buf @ concat chunks) = None
    | Some (b, i, rest) \<Rightarrow> findBlankLine (buf @ concat chunks) = Some i \<and> buf @ concat chunks = b @ concat rest
        \<and> findBlankLine b = Some i)"
proof (induction buf chunks rule: bufferHeader.induct)
  case (2 buf chunk chunks)
  show ?case
  proof (cases "findBlankLine (buf @ chunk)")
    case None
    with 2 [OF None] show ?thesis by (cases chunks) (auto split: option.splits)
  next
    case (Some i)
    then show ?thesis using findBlankLine_append [OF Some, of "concat chunks"] by simp
  qed
qed simp

text \<open>
  Parsing the response to store does not depend on how its bytes arrive in chunks; the body is
  everything after the first blank line, and a message without a blank line is refused.
\<close>

theorem parse_response_chunks:
  "parseHttpResponse chunks = parseHttpResponse [concat chunks] \<and>
   (case parseHttpResponse chunks of
      Inl e \<Rightarrow> True
    | Inr rs \<Rightarrow> \<exists>i. findBlankLine (concat chunks) = Some i \<and>
        concat chunks = take i (concat chunks) @ BLANK_LINE @ ps_body rs)"
proof (cases "bufferHeader [] chunks")
  case None
  then have n: "findBlankLine (concat chunks) = None"
    using bufferHeader_concat [where buf = "[]" and chunks = chunks] by auto
  show ?thesis by (simp add: parseHttpResponse_def None n)
next
  case (Some t)
  obtain b i rest where t: "t = (b, i, rest)" by (cases t)
  have f: "findBlankLine (concat chunks) = Some i" "concat chunks = b @ concat rest" "findBlankLine b = Some i"
    using bufferHeader_concat [where buf = "[]" and chunks = chunks] Some t by auto
  have len: "i + 4 \<le> length b" by (rule findBlankLine_bound [OF f(3)])
  have one: "bufferHeader [] [concat chunks] = Some (b @ concat rest, i, [])"
    using f(1,2) by simp
  have d: "take i (b @ concat rest) = take i b" "drop (i + 4) (b @ concat rest) @ concat [] = drop (i + 4) b @ concat rest"
    using len by simp_all
  have eq: "parseHttpResponse chunks = parseHttpResponse [concat chunks]"
    unfolding parseHttpResponse_def one Some t option.case prod.case d ..
  have "b @ concat rest = take i b @ BLANK_LINE @ drop (i + 4) b @ concat rest"
    using findBlankLine_split [OF f(3)] by (metis append.assoc)
  then have body: "concat chunks = take i (concat chunks) @ BLANK_LINE @ drop (i + 4) b @ concat rest"
    unfolding f(2) using len by simp
  have "ps_body rs = drop (i + 4) b @ concat rest" if "parseHttpResponse chunks = Inr rs" for rs
    using that by (auto simp: parseHttpResponse_def Some t Let_def split: option.splits)
  with eq f(1) body show ?thesis by (auto split: sum.split)
qed

subsection \<open>Reading from the storage with options\<close>

context blob_store
begin

lemma kvs_view_row:
  assumes "kvs_view contents now st key = Some en"
  obtains r v where "stmt_getByKey (kv_rows st) key = Some r" "\<not> hasExpired now r"
    "contents (kv_disk st) (kr_blob r) = Some v" "en = withValue (rowEntry r) (Body v)"
  using assms by (auto simp: kvs_view_def split: option.splits if_splits)

lemma kvs_get_whole:
  assumes "kvs_view contents now st key = Some en" "ke_metadata en = Some m"
    and "f m = Inr opts" "ro_ranges opts = None \<or> ro_ranges opts = Some []"
  shows "fst (kvs_get bs now (Some f) uuid key st) = Inr (Some en)"
proof -
  obtain r v where "stmt_getByKey (kv_rows st) key = Some r" "\<not> hasExpired now r"
    "contents (kv_disk st) (kr_blob r) = Some v" "en = withValue (rowEntry r) (Body v)"
    by (rule kvs_view_row [OF assms(1)])
  with assms show ?thesis by (auto simp: kvs_get_def Let_def get_whole withValue_def)
qed

lemma kvs_get_slice:
  assumes "kvs_view contents now st key = Some en" "ke_metadata en = Some m" "ke_value en = Body v"
    and "f m = Inr opts" "ro_ranges opts = Some [rg]" "range_in (int (length v)) rg"
  shows "fst (kvs_get bs now (Some f) uuid key st) = Inr (Some (en\<lparr>ke_value := Body (slice rg v)\<rparr>))"
proof -
  obtain r w where "stmt_getByKey (kv_rows st) key = Some r" "\<not> hasExpired now r"
    "contents (kv_disk st) (kr_blob r) = Some w" "en = withValue (rowEntry r) (Body w)"
    by (rule kvs_view_row [OF assms(1)])
  with assms show ?thesis by (auto simp: kvs_get_def Let_def get_part withValue_def)
qed

lemma kvs_get_multipart:
  assumes "kvs_view contents now st key = Some en" "ke_metadata en = Some m" "ke_value en = Body v"
    and "f m = Inr opts" "ro_ranges opts = Some rs" "list_all (range_in (int (length v))) rs" "1 < length rs"
  shows "fst (kvs_get bs now (Some f) uuid key st) =
    Inr (Some (en\<lparr>ke_value := Multipart (multipart_stream uuid (ro_contentType opts) rs v)\<rparr>))"
proof -
  obtain r w where "stmt_getByKey (kv_rows st) key = Some r" "\<not> hasExpired now r"
    "contents (kv_disk st) (kr_blob r) = Some w" "en = withValue (rowEntry r) (Body w)"
    by (rule kvs_view_row [OF assms(1)])
  moreover obtain r1 r2 rs' where "rs = r1 # r2 # rs'"
    using assms(7) by (cases rs; cases "tl rs") auto
  ultimately show ?thesis using assms by (auto simp: kvs_get_def Let_def get_parts withValue_def)
qed

lemma kvs_get_reject:
  assumes "kvs_view contents now st key = Some en" "ke_metadata en = Some m" "f m = Inl e"
  shows "fst (kvs_get bs now (Some f) uuid key st) = Inl e"
proof -
  obtain r w where "stmt_getByKey (kv_rows st) key = Some r" "\<not> hasExpired now r"
    "en = withValue (rowEntry r) (Body w)"
    by (rule kvs_view_row [OF assms(1)])
  with assms show ?thesis by (auto simp: kvs_get_def Let_def withValue_def)
qed

lemma kvs_get_absent:
  assumes "kvs_inv contents st" "kvs_view contents now st key = None"
  shows "fst (kvs_get bs now (Some f) uuid key st) = Inr None"
proof (cases "stmt_getByKey (kv_rows st) key")
  case (Some r)
  then have "contents (kv_disk st) (kr_blob r) \<noteq> None"
    using assms(1) getByKey_mem [OF Some] by (auto simp: kvs_inv_def)
  with Some assms(2) show ?thesis
    by (auto simp: kvs_get_def kvs_view_def split: if_splits)
qed (simp add: kvs_get_def)

end

text \<open>A get depends on the row of its key and on the disk only.\<close>

lemma kvs_get_same:
  assumes "stmt_getByKey (kv_rows st') key = stmt_getByKey (kv_rows st) key" "kv_disk st' = kv_disk st"
  shows "fst (kvs_get bs now f uuid key st') = fst (kvs_get bs now f uuid key st)"
  unfolding kvs_get_def assms by (simp add: Let_def split: option.split)

subsection \<open>The operations of the object\<close>

lemma maybeWarnUsage_storage [simp]: "co_storage (maybeWarnUsage rq st) = co_storage st"
  by (simp add: maybeWarnUsage_def)

lemma cache_put_stores:
  assumes "cache_put policy bs now n rq st = (Inr r, st')"
  obtains chunks rs where "cq_body rq = Some chunks" "parseHttpResponse chunks = Inr rs"
    "storable (getExpiration policy now rq rs)" "\<not> isSitesRequest (cq_pathname rq)" "getCacheKey rq \<noteq> []"
    "kvs_put bs n False (getCacheKey rq) (ps_body rs) (Some (now + timeToLive (getExpiration policy now rq rs)))
       (Some \<lparr>cm_headers = responseHeaders (getExpiration policy now rq rs), cm_status = ps_status rs,
              cm_size = storedSize rs\<rparr>) (co_storage st) = (Inr (), co_storage st')"
proof -
  obtain chunks rs where c: "cq_body rq = Some chunks" "parseHttpResponse chunks = Inr rs"
    "storable (getExpiration policy now rq rs)" "\<not> isSitesRequest (cq_pathname rq)"
    using assms by (auto simp: cache_put_def Let_def split: if_splits option.splits sum.splits)
  obtain x storage where p: "kvs_put bs n False (getCacheKey rq) (ps_body rs)
       (Some (now + timeToLive (getExpiration policy now rq rs)))
       (Some \<lparr>cm_headers = responseHeaders (getExpiration policy now rq rs), cm_status = ps_status rs,
              cm_size = storedSize rs\<rparr>) (co_storage st) = (x, storage)"
    by (rule prod.exhaust)
  then have "x = Inr ()" "storage = co_storage st'"
    using assms c by (auto simp: cache_put_def Let_def)
  moreover from this p have "getCacheKey rq \<noteq> []" by (auto simp: kvs_put_def)
  ultimately show ?thesis using c p that by simp
qed

lemma parseHttpResponse_status:
  "parseHttpResponse chunks = Inr rs \<Longrightarrow> check_response True (ps_status rs) [] = Inr ()"
  by (auto simp: parseHttpResponse_def Let_def check_response_def valid_reason_def
      split: option.splits prod.splits if_splits)

lemma headers_set_HIT: "\<exists>hs'. headers_set hs ''CF-Cache-Status'' ''HIT'' = Inr hs'"
  by (auto simp: headers_set_def headers_append_def valid_name_def is_token_char_def is_digit_def
      is_upper_def is_lower_def less_eq_char_def normalise_value_def valid_value_def is_http_space_def)

text \<open>A value of visible characters and inner blanks is kept as it is.\<close>

lemma show_int_char: "c \<in> set (show_int i) \<Longrightarrow> is_digit c \<or> c = CHR ''-''"
  by (auto simp: show_int_def dest: show_nat_digits split: if_splits)

lemma show_int_last: "is_digit (last (show_int i))"
  by (auto simp: show_int_def intro!: show_nat_digits last_in_set)

lemma show_int_ne [simp]: "show_int i \<noteq> []"
  by (simp add: show_int_def)

lemma normalise_value_id:
  assumes "v \<noteq> []" "\<not> is_http_space (hd v)" "\<not> is_http_space (last v)"
  shows "normalise_value v = v"
proof -
  have "dropWhile is_http_space v = v" using assms by (cases v) auto
  moreover have "dropWhile is_http_space (rev v) = rev v"
    using assms by (cases "rev v") (auto simp: last_rev [of "rev v", simplified])
  ultimately show ?thesis by (simp add: normalise_value_def)
qed

definition text_char :: "char \<Rightarrow> bool" where
  "text_char c \<longleftrightarrow> CHR 0x20 \<le> c"

lemma text_char_value: "list_all text_char v \<Longrightarrow> valid_value v"
  by (auto simp: valid_value_def text_char_def list_all_iff less_eq_char_def)

lemma text_char_show_int: "list_all text_char (show_int i)"
  using show_int_char [of _ i] by (fastforce simp: list_all_iff text_char_def is_digit_def less_eq_char_def)

lemma headers_set_number:
  assumes "valid_name n" "list_all text_char pre" "pre \<noteq> [] \<Longrightarrow> \<not> is_http_space (hd pre)"
  shows "headers_set hs n (pre @ show_int i) =
    Inr (headers_delete hs n @ [(toLowerCase n, pre @ show_int i)])"
proof -
  have nd: "is_digit c \<or> c = CHR ''-'' \<Longrightarrow> \<not> is_http_space c" for c
    by (auto simp: is_digit_def is_http_space_def less_eq_char_def)
  have "\<not> is_http_space (hd (pre @ show_int i))"
    using assms(3) nd show_int_char [OF hd_in_set [OF show_int_ne], of i] by (cases pre) auto
  moreover have "\<not> is_http_space (last (pre @ show_int i))" using nd show_int_last [of i] by simp
  ultimately have "normalise_value (pre @ show_int i) = pre @ show_int i"
    by (intro normalise_value_id) simp_all
  moreover have "valid_value (pre @ show_int i)"
    using assms(2) text_char_show_int [of i] by (intro text_char_value) simp
  ultimately show ?thesis using assms(1) by (simp add: headers_set_def headers_append_def)
qed

lemma range_header_names [simp]: "valid_name ''Content-Range''" "valid_name ''Content-Length''"
  by (simp_all add: valid_name_def is_token_char_def is_digit_def is_upper_def is_lower_def less_eq_char_def)

definition contentRange :: "inclusiveRange \<Rightarrow> int \<Rightarrow> string" where
  "contentRange r len = ''bytes '' @ show_int (rstart r) @ ''-'' @ show_int (rend r) @ ''/'' @ show_int len"

lemma rangeResponseHeaders_single:
  assumes "cd_ranges rs = [r]"
  obtains hs' where "rangeResponseHeaders rs = Inr hs'"
    "headers_get hs' ''Content-Range'' = Some (contentRange r (cd_totalSize rs))"
    "headers_get hs' ''Content-Length'' = Some (show_int (rend r - rstart r + 1))"
    "\<And>n. toLowerCase n \<noteq> ''content-range'' \<Longrightarrow> toLowerCase n \<noteq> ''content-length'' \<Longrightarrow>
       headers_get hs' n = headers_get (cd_headers rs) n"
proof -
  let ?pre = "''bytes '' @ show_int (rstart r) @ ''-'' @ show_int (rend r) @ ''/''"
  have a: "headers_set (cd_headers rs) ''Content-Range'' (?pre @ show_int (cd_totalSize rs)) =
      Inr (headers_delete (cd_headers rs) ''Content-Range'' @ [(toLowerCase ''Content-Range'', ?pre @ show_int (cd_totalSize rs))])"
    by (rule headers_set_number)
      (use text_char_show_int in \<open>simp_all add: text_char_def less_eq_char_def is_http_space_def\<close>)
  let ?h = "headers_delete (cd_headers rs) ''Content-Range'' @ [(toLowerCase ''Content-Range'', ?pre @ show_int (cd_totalSize rs))]"
  have b: "headers_set ?h ''Content-Length'' (show_int (rend r - rstart r + 1)) =
      Inr (headers_delete ?h ''Content-Length'' @ [(toLowerCase ''Content-Length'', show_int (rend r - rstart r + 1))])"
    using headers_set_number [of "''Content-Length''" "[]"] by simp
  let ?h' = "headers_delete ?h ''Content-Length'' @ [(toLowerCase ''Content-Length'', show_int (rend r - rstart r + 1))]"
  have r: "rangeResponseHeaders rs = Inr ?h'"
    using a b assms by (simp add: rangeResponseHeaders_def)
  have lower: "toLowerCase ''Content-Length'' = ''content-length''" "toLowerCase ''Content-Range'' = ''content-range''"
    by code_simp+
  have g: "headers_get ?h' n = (if toLowerCase n = ''content-length'' then Some (show_int (rend r - rstart r + 1))
      else if toLowerCase n = ''content-range'' then Some (contentRange r (cd_totalSize rs))
      else headers_get (cd_headers rs) n)" for n
    by (simp add: headers_get_def lower contentRange_def) (simp add: header_values_def)
  show ?thesis
    by (rule that [OF r]; unfold g; simp add: lower)
qed

subsection \<open>Serving what was stored\<close>

lemma cache_match_found:
  assumes "\<not> isSitesRequest (cq_pathname rq)"
    and "fst (kvs_get bs now (Some (matchRangeOpts rq)) uuid (getCacheKey rq) (co_storage st)) = Inr (Some en)"
    and "ke_metadata en = Some m" and "matchOptions rq m = Inr (hs, rs)"
    and "headers_set hs ''CF-Cache-Status'' ''HIT'' = Inr hs'"
  shows "fst (cache_match bs now uuid rq st) = getMatchResponse (cq_headers rq)
    \<lparr>cd_status = cm_status m, cd_headers = hs', cd_ranges = (case rs of None \<Rightarrow> [] | Some l \<Rightarrow> l),
     cd_body = ke_value en, cd_totalSize = cm_size m\<rparr>"
  using assms by (simp add: cache_match_def case_prod_unfold)

lemma cache_match_missing:
  assumes "fst (kvs_get bs now (Some (matchRangeOpts rq)) uuid (getCacheKey rq) (co_storage st)) = Inr None"
  shows "fst (cache_match bs now uuid rq st) = Inl CacheMiss"
  using assms by (simp add: cache_match_def Let_def case_prod_unfold)

lemma cache_match_error:
  assumes "\<not> isSitesRequest (cq_pathname rq)"
    and "fst (kvs_get bs now (Some (matchRangeOpts rq)) uuid (getCacheKey rq) (co_storage st)) = Inl e"
  shows "fst (cache_match bs now uuid rq st) = Inl e"
  using assms by (simp add: cache_match_def case_prod_unfold)

text \<open>A request without conditions.\<close>

definition unconditional :: "cache_request \<Rightarrow> bool" where
  "unconditional rq \<longleftrightarrow> headers_get (cq_headers rq) ''If-None-Match'' = None
     \<and> headers_get (cq_headers rq) ''If-Modified-Since'' = None"

lemma unconditional_match:
  assumes "unconditional rq"
  shows "getMatchResponse (cq_headers rq) rs =
    andThen (rangeResponseHeaders rs) (\<lambda>hs.
    let st = (if cd_ranges rs = [] then cd_status rs else 206) in
    andThen (check_response True st []) (\<lambda>_.
    Inr \<lparr>cs_status = st, cs_headers = hs, cs_body = Some (stream_of (cd_body rs))\<rparr>))"
  using assms
  by (simp add: getMatchResponse_def etag_matches_def not_modified_since_def unconditional_def)

text \<open>The entry a successful put leaves in the storage.\<close>

definition stored_entry :: "policy_fn \<Rightarrow> int \<Rightarrow> cache_request \<Rightarrow> parsed_response \<Rightarrow> cacheMetadata key_value_entry" where
  "stored_entry policy now rq rs =
     \<lparr>ke_key = getCacheKey rq, ke_expiration = Some (now + timeToLive (getExpiration policy now rq rs)),
      ke_metadata = Some \<lparr>cm_headers = responseHeaders (getExpiration policy now rq rs),
                          cm_status = ps_status rs, cm_size = storedSize rs\<rparr>,
      ke_value = Body (ps_body rs)\<rparr>"

context blob_store
begin

lemma cache_put_view:
  assumes "kvs_inv contents (co_storage st)" "kvs_fresh (co_storage st) n"
    and "cache_put policy bs now n rq st = (Inr r, st')"
    and "cq_body rq = Some chunks" "parseHttpResponse chunks = Inr rs"
  shows "kvs_inv contents (co_storage st')"
    and "kvs_view contents now' (co_storage st') = (kvs_view contents now' (co_storage st))(getCacheKey rq :=
      (if now + timeToLive (getExpiration policy now rq rs) \<le> now' then None
       else Some (stored_entry policy now rq rs)))"
proof -
  obtain chunks' rs' where s: "cq_body rq = Some chunks'" "parseHttpResponse chunks' = Inr rs'" "getCacheKey rq \<noteq> []"
    and p: "kvs_put bs n False (getCacheKey rq) (ps_body rs') (Some (now + timeToLive (getExpiration policy now rq rs')))
       (Some \<lparr>cm_headers = responseHeaders (getExpiration policy now rq rs'), cm_status = ps_status rs',
              cm_size = storedSize rs'\<rparr>) (co_storage st) = (Inr (), co_storage st')"
    by (rule cache_put_stores [OF assms(3)])
  then have "rs' = rs" using assms(4,5) by simp
  then have q: "co_storage st' = snd (kvs_put bs n False (getCacheKey rq) (ps_body rs)
       (Some (now + timeToLive (getExpiration policy now rq rs)))
       (Some \<lparr>cm_headers = responseHeaders (getExpiration policy now rq rs), cm_status = ps_status rs,
              cm_size = storedSize rs\<rparr>) (co_storage st))"
    using p by simp
  show "kvs_inv contents (co_storage st')" unfolding q by (rule kvs_inv_put [OF assms(1,2)])
  show "kvs_view contents now' (co_storage st') = (kvs_view contents now' (co_storage st))(getCacheKey rq :=
      (if now + timeToLive (getExpiration policy now rq rs) \<le> now' then None
       else Some (stored_entry policy now rq rs)))"
    unfolding q kvs_view_put [OF assms(1,2) s(3)] by (simp add: stored_entry_def)
qed

end

text \<open>
  C33: A response stored by a successful put is what an unconditional request for the same key gets
  until its time to live is over: the same status, the bytes after the blank line of the stored
  message as body, the headers of the cache policy and \<open>CF-Cache-Status: HIT\<close>. From then on it is a
  cache miss.
\<close>

theorem cache_put_then_match:
  assumes "file_service ds files b" and "kvs_reachable (BlobStore_ops ds b) now0 (co_storage st)"
    and "kvs_fresh (co_storage st) n"
    and "cache_put policy (BlobStore_ops ds b) now n rq st = (Inr r, st')"
    and "cq_body rq = Some chunks" and "parseHttpResponse chunks = Inr rs"
    and "headers_new (responseHeaders (getExpiration policy now rq rs)) = Inr hs"
    and "getCacheKey rq' = getCacheKey rq" and "\<not> isSitesRequest (cq_pathname rq')"
    and "unconditional rq'" and "headers_get (cq_headers rq') ''Range'' = None"
  shows "if now + timeToLive (getExpiration policy now rq rs) \<le> now'
    then fst (cache_match (BlobStore_ops ds b) now' uuid rq' st') = Inl CacheMiss
    else \<exists>hs'. fst (cache_match (BlobStore_ops ds b) now' uuid rq' st') =
        Inr \<lparr>cs_status = ps_status rs, cs_headers = hs', cs_body = Some (Inr (ps_body rs))\<rparr> \<and>
      (\<forall>m. headers_get hs' m =
         (if toLowerCase m = ''cf-cache-status'' then Some ''HIT'' else headers_get hs m))"
proof -
  note bs = blob_store_of_files [OF assms(1)]
  note inv = blob_store.kvs_reachable_inv [OF bs assms(2)]
  note put = blob_store.cache_put_view [OF bs inv assms(3-6)]
  show ?thesis
  proof (cases "now + timeToLive (getExpiration policy now rq rs) \<le> now'")
    case True
    then have "kvs_view (blob_contents files b) now' (co_storage st') (getCacheKey rq') = None"
      using put(2) [of now'] assms(8) by simp
    from cache_match_missing [OF blob_store.kvs_get_absent [OF bs put(1) this]] True show ?thesis by simp
  next
    case False
    let ?en = "stored_entry policy now rq rs"
    have v: "kvs_view (blob_contents files b) now' (co_storage st') (getCacheKey rq') = Some ?en"
      using put(2) [of now'] assms(8) False by simp
    let ?m = "\<lparr>cm_headers = responseHeaders (getExpiration policy now rq rs), cm_status = ps_status rs,
       cm_size = storedSize rs\<rparr>"
    have o': "matchOptions rq' ?m = Inr (hs, None)"
      using assms(7,11) by (simp add: matchOptions_def)
    have get: "fst (kvs_get (BlobStore_ops ds b) now' (Some (matchRangeOpts rq')) uuid (getCacheKey rq')
        (co_storage st')) = Inr (Some ?en)"
      by (rule blob_store.kvs_get_whole [OF bs v, where m = ?m and
            opts = "\<lparr>ro_ranges = None, ro_contentType = headers_get hs ''Content-Type''\<rparr>"])
        (simp_all add: stored_entry_def matchRangeOpts_def o')
    obtain hs' where h: "headers_set hs ''CF-Cache-Status'' ''HIT'' = Inr hs'" using headers_set_HIT by blast
    have lower: "toLowerCase ''CF-Cache-Status'' = ''cf-cache-status''" "normalise_value ''HIT'' = ''HIT''"
      by code_simp+
    have "fst (cache_match (BlobStore_ops ds b) now' uuid rq' st') =
        Inr \<lparr>cs_status = ps_status rs, cs_headers = hs', cs_body = Some (Inr (ps_body rs))\<rparr>"
      using cache_match_found [OF assms(9) get _ o' h] parseHttpResponse_status [OF assms(6)]
      by (simp add: unconditional_match [OF assms(10)] stored_entry_def rangeResponseHeaders_def stream_of_def)
    with False headers_set_get [OF h] show ?thesis by (auto simp: lower)
  qed
qed

lemma multipart_header_set:
  assumes "list_all (\<lambda>c. is_digit c \<or> is_lower c \<or> c = CHR ''-'') uuid"
  shows "\<exists>hs'. headers_set hs ''Content-Type'' (multipartContentType (multipart_stream uuid ct rs v)) = Inr hs' \<and>
    headers_get hs' ''Content-Type'' = Some (multipartContentType (multipart_stream uuid ct rs v))"
proof -
  let ?pre = "''multipart/byteranges; boundary=miniflare-boundary-''"
  have u: "list_all text_char uuid" "\<forall>c \<in> set uuid. \<not> is_http_space c"
    using assms by (fastforce simp: list_all_iff text_char_def is_digit_def is_lower_def is_http_space_def
        less_eq_char_def)+
  then have "normalise_value (?pre @ uuid) = ?pre @ uuid"
    by (intro normalise_value_id) (auto simp: is_http_space_def)
  moreover have "valid_value (?pre @ uuid)"
    using u(1) by (intro text_char_value) (simp add: text_char_def less_eq_char_def)
  moreover have "valid_name ''Content-Type''"
    by (simp add: valid_name_def is_token_char_def is_digit_def is_upper_def is_lower_def less_eq_char_def)
  ultimately obtain hs' where h: "headers_set hs ''Content-Type'' (?pre @ uuid) = Inr hs'"
    by (simp add: headers_set_def headers_append_def)
  have "headers_get hs' ''Content-Type'' = Some (?pre @ uuid)"
    using headers_set_get [OF h, of "''Content-Type''"] \<open>normalise_value (?pre @ uuid) = ?pre @ uuid\<close> by simp
  with h show ?thesis by (simp add: multipart_stream_def)
qed

lemma partial_status: "check_response True 206 [] = Inr ()"
  by (simp add: check_response_def valid_reason_def is_null_body_status_def)

lemma match_response_single:
  assumes "unconditional rq"
  shows "\<exists>hs'. getMatchResponse (cq_headers rq)
      \<lparr>cd_status = s, cd_headers = hs, cd_ranges = [rg], cd_body = Body w, cd_totalSize = len\<rparr> =
      Inr \<lparr>cs_status = 206, cs_headers = hs', cs_body = Some (Inr w)\<rparr> \<and>
    headers_get hs' ''Content-Range'' = Some (contentRange rg len) \<and>
    headers_get hs' ''Content-Length'' = Some (show_int (rend rg - rstart rg + 1))"
proof -
  let ?rs = "\<lparr>cd_status = s, cd_headers = hs, cd_ranges = [rg], cd_body = Body w, cd_totalSize = len\<rparr>"
  obtain hs' where "rangeResponseHeaders ?rs = Inr hs'"
    "headers_get hs' ''Content-Range'' = Some (contentRange rg (cd_totalSize ?rs))"
    "headers_get hs' ''Content-Length'' = Some (show_int (rend rg - rstart rg + 1))"
    using rangeResponseHeaders_single [of ?rs rg] by (metis cachedResponse.select_convs(3))
  then show ?thesis by (simp add: unconditional_match [OF assms] partial_status stream_of_def)
qed

lemma match_response_multi:
  assumes "unconditional rq" "1 < length ranges"
    and "list_all (\<lambda>c. is_digit c \<or> is_lower c \<or> c = CHR ''-'') uuid"
  shows "\<exists>hs'. getMatchResponse (cq_headers rq)
      \<lparr>cd_status = s, cd_headers = hs, cd_ranges = ranges,
       cd_body = Multipart (multipart_stream uuid ct ranges v), cd_totalSize = len\<rparr> =
      Inr \<lparr>cs_status = 206, cs_headers = hs',
           cs_body = Some (Inr (multipart_bytes (''miniflare-boundary-'' @ uuid) ct ranges v))\<rparr>"
proof -
  obtain r1 r2 rs' where "ranges = r1 # r2 # rs'"
    using assms(2) by (cases ranges; cases "tl ranges") auto
  with multipart_header_set [OF assms(3), of hs ct ranges v] show ?thesis
    by (auto simp: unconditional_match [OF assms(1)] rangeResponseHeaders_def partial_status stream_of_def
        multipart_stream_def)
qed

text \<open>
  C34: A range request for a stored response whose size is known answers with status 206 and exactly
  the requested bytes: one range with its \<open>Content-Range\<close> and \<open>Content-Length\<close>, several ranges as a
  \<open>multipart/byteranges\<close> body with all parts in order. An unsatisfiable header is refused with the
  size of the body, an empty list of ranges is the whole response.
\<close>

theorem cache_match_range:
  assumes "file_service ds files b" and "kvs_reachable (BlobStore_ops ds b) now0 (co_storage st)"
    and "kvs_fresh (co_storage st) n"
    and "cache_put policy (BlobStore_ops ds b) now n rq st = (Inr r, st')"
    and "cq_body rq = Some chunks" and "parseHttpResponse chunks = Inr rs"
    and "headers_new (responseHeaders (getExpiration policy now rq rs)) = Inr hs"
    and "storedSize rs = int (length (ps_body rs))"
    and "now' < now + timeToLive (getExpiration policy now rq rs)"
    and "getCacheKey rq' = getCacheKey rq" and "\<not> isSitesRequest (cq_pathname rq')"
    and "unconditional rq'" and "headers_get (cq_headers rq') ''Range'' = Some rangeHeader"
    and "list_all (\<lambda>c. is_digit c \<or> is_lower c \<or> c = CHR ''-'') uuid"
  shows "case parseRanges rangeHeader (int (length (ps_body rs))) of
      None \<Rightarrow> fst (cache_match (BlobStore_ops ds b) now' uuid rq' st') =
        Inl (RangeNotSatisfiable (int (length (ps_body rs))))
    | Some ranges \<Rightarrow> \<exists>hs'. fst (cache_match (BlobStore_ops ds b) now' uuid rq' st') =
        Inr \<lparr>cs_status = (if ranges = [] then ps_status rs else 206), cs_headers = hs',
             cs_body = Some (Inr (case ranges of [] \<Rightarrow> ps_body rs | [r] \<Rightarrow> slice r (ps_body rs)
               | _ \<Rightarrow> multipart_bytes (''miniflare-boundary-'' @ uuid) (headers_get hs ''Content-Type'')
                       ranges (ps_body rs)))\<rparr> \<and>
        (\<forall>r. ranges = [r] \<longrightarrow>
           headers_get hs' ''Content-Range'' = Some (contentRange r (int (length (ps_body rs)))) \<and>
           headers_get hs' ''Content-Length'' = Some (show_int (int (length (slice r (ps_body rs))))))"
proof -
  note bs = blob_store_of_files [OF assms(1)]
  note inv = blob_store.kvs_reachable_inv [OF bs assms(2)]
  note put = blob_store.cache_put_view [OF bs inv assms(3-6)]
  let ?en = "stored_entry policy now rq rs" and ?len = "int (length (ps_body rs))"
  let ?m = "\<lparr>cm_headers = responseHeaders (getExpiration policy now rq rs), cm_status = ps_status rs,
     cm_size = storedSize rs\<rparr>"
  have v: "kvs_view (blob_contents files b) now' (co_storage st') (getCacheKey rq') = Some ?en"
    using put(2) [of now'] assms(9,10) by simp
  have en: "ke_metadata ?en = Some ?m" "ke_value ?en = Body (ps_body rs)" by (simp_all add: stored_entry_def)
  obtain hs0 where h0: "headers_set hs ''CF-Cache-Status'' ''HIT'' = Inr hs0" using headers_set_HIT by blast
  show ?thesis
  proof (cases "parseRanges rangeHeader ?len")
    case None
    then have "matchRangeOpts rq' ?m = Inl (RangeNotSatisfiable ?len)"
      using assms(7,8,13) by (simp add: matchRangeOpts_def matchOptions_def)
    from cache_match_error [OF assms(11) blob_store.kvs_get_reject [where f = "matchRangeOpts rq'", OF bs v en(1) this]]
    show ?thesis using None by simp
  next
    case (Some ranges)
    have o': "matchOptions rq' ?m = Inr (hs, Some ranges)"
      using Some assms(7,8,13) by (simp add: matchOptions_def)
    then have opts: "matchRangeOpts rq' ?m = Inr \<lparr>ro_ranges = Some ranges, ro_contentType = headers_get hs ''Content-Type''\<rparr>"
      by (simp add: matchRangeOpts_def)
    have inr: "list_all (range_in ?len) ranges"
      using parseRanges_range_in [OF Some] by (simp add: list_all_iff)
    consider "ranges = []" | rg where "ranges = [rg]" | "1 < length ranges"
      by (cases ranges; cases "tl ranges") auto
    then show ?thesis
    proof cases
      case 1
      note get = blob_store.kvs_get_whole [where f = "matchRangeOpts rq'", OF bs v en(1) opts]
      from cache_match_found [OF assms(11) get en(1) o' h0] 1 Some parseHttpResponse_status [OF assms(6)]
      show ?thesis by (simp add: unconditional_match [OF assms(12)] en rangeResponseHeaders_def stream_of_def)
    next
      case (2 rg)
      note get = blob_store.kvs_get_slice [where f = "matchRangeOpts rq'" and rg = rg, OF bs v en opts]
      have "fst (cache_match (BlobStore_ops ds b) now' uuid rq' st') = getMatchResponse (cq_headers rq')
          \<lparr>cd_status = ps_status rs, cd_headers = hs0, cd_ranges = [rg], cd_body = Body (slice rg (ps_body rs)),
           cd_totalSize = ?len\<rparr>"
        using cache_match_found [OF assms(11) get _ o' h0] 2 inr by (simp add: en assms(8))
      with match_response_single [OF assms(12), of "ps_status rs" hs0 rg "slice rg (ps_body rs)" ?len]
        length_slice [of "ps_body rs" rg] 2 inr Some show ?thesis by auto
    next
      case 3
      then have r: "(case ranges of [] \<Rightarrow> x | [r] \<Rightarrow> f r | _ \<Rightarrow> y) = y" "ranges \<noteq> []" "\<forall>r. ranges \<noteq> [r]" for x y f
        by (auto split: list.split)
      note get = blob_store.kvs_get_multipart [where f = "matchRangeOpts rq'", OF bs v en opts _ inr 3]
      have "fst (cache_match (BlobStore_ops ds b) now' uuid rq' st') = getMatchResponse (cq_headers rq')
          \<lparr>cd_status = ps_status rs, cd_headers = hs0, cd_ranges = ranges,
           cd_body = Multipart (multipart_stream uuid (headers_get hs ''Content-Type'') ranges (ps_body rs)),
           cd_totalSize = ?len\<rparr>"
        using cache_match_found [OF assms(11) get _ o' h0] by (simp add: en assms(8))
      with match_response_multi [OF assms(12) 3 assms(14), of "ps_status rs" hs0 "headers_get hs ''Content-Type''"
          "ps_body rs" ?len] r(2,3) show ?thesis unfolding Some option.case r(1) by simp
    qed
  qed
qed

text \<open>
  Purging answers with success exactly when the entry has not expired, afterwards every match of
  that key is a miss, and requests for other keys are answered as before.
\<close>

theorem cache_purge_then_match:
  assumes "file_service ds files b" and "kvs_reachable (BlobStore_ops ds b) now0 (co_storage st)"
    and "cache_delete now rq st = (r, st')"
  shows "(r = Inl PurgeFailure \<longleftrightarrow> kvs_view (blob_contents files b) now (co_storage st) (getCacheKey rq) = None) \<and>
    (getCacheKey rq' = getCacheKey rq \<longrightarrow>
       fst (cache_match (BlobStore_ops ds b) now' uuid rq' st') = Inl CacheMiss) \<and>
    (getCacheKey rq' \<noteq> getCacheKey rq \<longrightarrow>
       fst (cache_match (BlobStore_ops ds b) now' uuid rq' st') =
       fst (cache_match (BlobStore_ops ds b) now' uuid rq' st))"
proof -
  note bs = blob_store_of_files [OF assms(1)]
  note inv = blob_store.kvs_reachable_inv [OF bs assms(2)]
  have st': "co_storage st' = snd (kvs_delete now (getCacheKey rq) (co_storage st))"
    and r: "r = Inl PurgeFailure \<longleftrightarrow> \<not> fst (kvs_delete now (getCacheKey rq) (co_storage st))"
    using assms(3) by (auto simp: cache_delete_def case_prod_unfold Let_def)
  have del: "kvs_view (blob_contents files b) now' (co_storage st') =
      (kvs_view (blob_contents files b) now' (co_storage st))(getCacheKey rq := None)"
    unfolding st' by (rule blob_store.kvs_view_delete(1) [OF bs inv])
  have inv': "kvs_inv (blob_contents files b) (co_storage st')"
    unfolding st' by (rule blob_store.kvs_inv_delete [OF bs inv])
  have "fst (cache_match (BlobStore_ops ds b) now' uuid rq' st') = Inl CacheMiss"
    if "getCacheKey rq' = getCacheKey rq"
    using cache_match_missing [OF blob_store.kvs_get_absent [OF bs inv']] del that by simp
  moreover have "fst (cache_match (BlobStore_ops ds b) now' uuid rq' st') =
       fst (cache_match (BlobStore_ops ds b) now' uuid rq' st)" if "getCacheKey rq' \<noteq> getCacheKey rq"
  proof -
    have "stmt_getByKey (kv_rows (co_storage st')) (getCacheKey rq') =
        stmt_getByKey (kv_rows (co_storage st)) (getCacheKey rq')"
      using that unfolding st'
      by (auto simp: kvs_delete_def Let_def stmt_deleteByKey_def stmt_getByKey_def backgroundDelete_def table_simps
          split: option.split)
    moreover have "kv_disk (co_storage st') = kv_disk (co_storage st)"
      unfolding st' by (auto simp: kvs_delete_def Let_def stmt_deleteByKey_def backgroundDelete_def split: option.split)
    ultimately have "fst (kvs_get (BlobStore_ops ds b) now' f uuid (getCacheKey rq') (co_storage st')) =
        fst (kvs_get (BlobStore_ops ds b) now' f uuid (getCacheKey rq') (co_storage st))" for f
      by (rule kvs_get_same)
    then show ?thesis by (simp add: cache_match_def Let_def case_prod_unfold)
  qed
  ultimately show ?thesis using r blob_store.kvs_view_delete(2) [OF bs inv] by blast
qed

subsection \<open>Examples\<close>

definition ex_policy :: policy_fn where
  "ex_policy = (\<lambda>now rq rs. \<lparr>storable = True, timeToLive = 1000, responseHeaders = pr_headers rs\<rparr>)"

definition ex_message :: bytes where
  "ex_message = encodeText (''HTTP/1.1 200 OK'' @ CRLF @ ''A: b'' @ CRLF @ CRLF @ ''hello'')"

definition ex_request :: cache_request where
  "ex_request = \<lparr>cq_url = ''http://a/x'', cq_pathname = ''/x'', cq_cacheKey = None, cq_warnUsage = False,
     cq_headers = [], cq_body = Some [take 9 ex_message, drop 9 ex_message]\<rparr>"

definition ex_object :: "(string \<Rightarrow> bytes option) cacheObject" where
  "ex_object = \<lparr>co_warnedUsage = False, co_storage = kvs_init (\<lambda>_. None), co_log = []\<rparr>"

definition ex_parsed :: parsed_response where
  "ex_parsed = \<lparr>ps_status = 200, ps_statusText = ''OK'', ps_headers = [(''a'', ''b'')], ps_body = encodeText ''hello''\<rparr>"

lemma ex_buffer: "bufferHeader [] [take 9 ex_message, drop 9 ex_message] = Some (ex_message, 21, [])"
  by code_simp

lemma ex_text: "bytes_to_text (take 21 ex_message) = ''HTTP/1.1 200 OK'' @ CRLF @ ''A: b''"
  by code_simp

lemma ex_lines:
  "split_crlf (''HTTP/1.1 200 OK'' @ CRLF @ ''A: b'') = [''HTTP/1.1 200 OK'', ''A: b'']"
  "statusMatch ''HTTP/1.1 200 OK'' = Some (''200'', ''OK'')"
  "toInt ''200'' = 200"
  "headers_new [parseHeaderLine ''A: b''] = Inr [(''a'', ''b'')]"
  "drop 25 ex_message = encodeText ''hello''"
  by code_simp+

lemma ex_status: "check_response True 200 ''OK'' = Inr ()"
  by code_simp

lemma ex_parse: "parseHttpResponse [take 9 ex_message, drop 9 ex_message] = Inr ex_parsed"
  unfolding parseHttpResponse_def ex_buffer option.case prod.case ex_text Let_def ex_lines(1)
  by (simp add: ex_lines(2-) ex_status ex_parsed_def)

lemma ex_expiration: "getExpiration ex_policy 5 ex_request ex_parsed =
    \<lparr>storable = True, timeToLive = 1000, responseHeaders = [(''a'', ''b'')]\<rparr>"
  by code_simp

lemma ex_request_facts:
  "\<not> isSitesRequest (cq_pathname ex_request)" "getCacheKey ex_request = ''http://a/x''"
  "cq_body ex_request = Some [take 9 ex_message, drop 9 ex_message]"
  "unconditional ex_request" "headers_get (cq_headers ex_request) ''Range'' = None"
  by (simp_all add: ex_request_def isSitesRequest_def SITES_NO_CACHE_PREFIX_def startsWith_def getCacheKey_def
      unconditional_def headers_get_def header_values_def)

lemma ex_put:
  "\<exists>r st'. cache_put ex_policy (BlobStore_ops mem_service ex_store) 5 (ex_nonce 1) ex_request ex_object = (Inr r, st')"
  by (simp add: cache_put_def Let_def ex_request_facts ex_parse ex_expiration mem.kvs_put_eq)

lemma ex_cache_reachable: "kvs_reachable (BlobStore_ops mem_service ex_store) 5 (co_storage ex_object)"
  by (simp add: ex_object_def reach_init)

lemma ex_cache_fresh: "kvs_fresh (co_storage ex_object) (ex_nonce 1)"
  by (simp add: ex_object_def kvs_fresh_def kvs_init_def)

theorem cache_put_then_match_witness:
  "\<exists>st' hs'. fst (cache_match (BlobStore_ops mem_service ex_store) 900 [] ex_request st') =
     Inr \<lparr>cs_status = 200, cs_headers = hs', cs_body = Some (Inr (encodeText ''hello''))\<rparr> \<and>
   headers_get hs' ''A'' = Some ''b''"
proof -
  obtain r st' where p: "cache_put ex_policy (BlobStore_ops mem_service ex_store) 5 (ex_nonce 1) ex_request ex_object
      = (Inr r, st')" using ex_put by blast
  have h: "headers_new [(''a'', ''b'')] = Inr [(''a'', ''b'')]" "headers_get [(''a'', ''b'')] ''A'' = Some ''b''"
    "toLowerCase ''A'' = ''a''"
    by code_simp+
  have "headers_new (responseHeaders (getExpiration ex_policy 5 ex_request ex_parsed)) = Inr [(''a'', ''b'')]"
    by (simp add: ex_expiration h(1))
  from cache_put_then_match [OF mem_file_service ex_cache_reachable ex_cache_fresh p ex_request_facts(3) ex_parse
      this refl ex_request_facts(1,4,5), where now' = 900 and uuid = "[]"]
  obtain hs' where m: "fst (cache_match (BlobStore_ops mem_service ex_store) 900 [] ex_request st') =
      Inr \<lparr>cs_status = ps_status ex_parsed, cs_headers = hs', cs_body = Some (Inr (ps_body ex_parsed))\<rparr>"
    "\<forall>m. headers_get hs' m = (if toLowerCase m = ''cf-cache-status'' then Some ''HIT''
       else headers_get [(''a'', ''b'')] m)" by (auto simp: ex_expiration)
  from m(2) have "headers_get hs' ''A'' = (if toLowerCase ''A'' = ''cf-cache-status'' then Some ''HIT''
       else headers_get [(''a'', ''b'')] ''A'')" by blast
  then have "headers_get hs' ''A'' = Some ''b''" unfolding h(2,3) by simp
  with m(1) show ?thesis by (auto simp: ex_parsed_def)
qed

theorem cache_match_range_witness:
  "\<exists>st' hs'. fst (cache_match (BlobStore_ops mem_service ex_store) 900 [] 
       (ex_request\<lparr>cq_headers := [(''range'', ''bytes=1-3'')]\<rparr>) st') =
     Inr \<lparr>cs_status = 206, cs_headers = hs', cs_body = Some (Inr (encodeText ''ell''))\<rparr> \<and>
   headers_get hs' ''Content-Range'' = Some ''bytes 1-3/5''"
proof -
  let ?rq = "ex_request\<lparr>cq_headers := [(''range'', ''bytes=1-3'')]\<rparr>"
  obtain r st' where p: "cache_put ex_policy (BlobStore_ops mem_service ex_store) 5 (ex_nonce 1) ex_request ex_object
      = (Inr r, st')" using ex_put by blast
  have h: "headers_new [(''a'', ''b'')] = Inr [(''a'', ''b'')]" "\<not> isSitesRequest (cq_pathname ?rq)"
    "unconditional ?rq" "headers_get (cq_headers ?rq) ''Range'' = Some ''bytes=1-3''"
    "storedSize ex_parsed = int (length (ps_body ex_parsed))" "getCacheKey ?rq = getCacheKey ex_request"
    "parseRanges ''bytes=1-3'' (int (length (ps_body ex_parsed))) = Some [mkRange 1 3]"
    "slice (mkRange 1 3) (ps_body ex_parsed) = encodeText ''ell''"
    "contentRange (mkRange 1 3) (int (length (ps_body ex_parsed))) = ''bytes 1-3/5''"
    by code_simp+
  have "headers_new (responseHeaders (getExpiration ex_policy 5 ex_request ex_parsed)) = Inr [(''a'', ''b'')]"
    by (simp add: ex_expiration h(1))
  from cache_match_range [OF mem_file_service ex_cache_reachable ex_cache_fresh p ex_request_facts(3) ex_parse
      this h(5) _ h(6,2,3,4), where now' = 900 and uuid = "[]"] h(7-9)
  show ?thesis by (auto simp: ex_expiration)
qed

theorem cache_purge_then_match_witness:
  "fst (cache_match (BlobStore_ops mem_service ex_store) 9 [] ex_request (snd (cache_delete 7 ex_request ex_object)))
     = Inl CacheMiss"
  using cache_purge_then_match [OF mem_file_service ex_cache_reachable prod.collapse [symmetric],
      where rq' = ex_request and uuid = "[]" and now' = 9] by simp

end
