(* ===== verification/RulesEngine.thy ===== *)
theory RulesEngine
  imports Prelude
begin

text \<open>
  The rules engine of the Pages asset server, \<^verbatim>\<open>packages/pages-shared/asset-server/rulesEngine.ts\<close>:
  rules with splats and placeholders are turned into regular expressions and matched against the path
  (or, for rules with a host, against \<^verbatim>\<open>https://\<close>, the host name and the path) of a request.

  The text of the regular expression is the list of its items: an escaped literal character or a named
  group. \<open>split(x).join(y)\<close> on the text is a replacement on the items, because a searched placeholder
  has no character that is escaped and no generated group has a colon. The dot does not match line
  terminators, which do not occur in the path of a URL; of them the model has CR and LF.
\<close>

subsection \<open>Replacing placeholders in the target of a rule\<close>

text \<open>The special patterns of a replacement string: \<open>pat\<close> was found between \<open>before\<close> and \<open>after\<close>.\<close>

fun get_substitution :: "string \<Rightarrow> string \<Rightarrow> string \<Rightarrow> string \<Rightarrow> string" where
  "get_substitution pat before after (c # d # v) =
     (if c = CHR ''$'' then
        (if d = CHR ''$'' then CHR ''$'' # get_substitution pat before after v
         else if d = CHR ''&'' then pat @ get_substitution pat before after v
         else if d = CHR 0x60 then before @ get_substitution pat before after v
         else if d = CHR 0x27 then after @ get_substitution pat before after v
         else c # get_substitution pat before after (d # v))
      else c # get_substitution pat before after (d # v))"
| "get_substitution pat before after v = v"

text \<open>\<open>replaceAll\<close> with a non-empty string pattern: \<open>before\<close> is what has been read of the string.\<close>

function replaceAll_loop :: "string \<Rightarrow> string \<Rightarrow> string \<Rightarrow> string \<Rightarrow> string" where
  "replaceAll_loop before pat val [] = []"
| "replaceAll_loop before pat val (c # s) =
     (if pat \<noteq> [] \<and> startsWith (c # s) pat
      then (let rest = drop (length pat) (c # s)
            in get_substitution pat before rest val @ replaceAll_loop (before @ pat) pat val rest)
      else c # replaceAll_loop (before @ [c]) pat val s)"
  by pat_completeness auto
termination
  by (relation "measure (\<lambda>(before, pat, val, s). length s)") (auto simp: neq_Nil_conv)

definition replaceAll :: "string \<Rightarrow> string \<Rightarrow> string \<Rightarrow> string" where
  "replaceAll s pat val = replaceAll_loop [] pat val s"

type_synonym replacements = "(string \<times> string) list"

definition replacer :: "string \<Rightarrow> replacements \<Rightarrow> string" where
  "replacer str reps = fold (\<lambda>(replacement, val) s. replaceAll s (CHR '':'' # replacement) val) reps str"

subsection \<open>Compiling a rule\<close>

datatype group_kind = Splat | HostSegment | PathSegment

datatype rx_item = Lit char | Group string group_kind

text \<open>The characters \<open>escapeRegex\<close> puts a backslash before.\<close>

definition is_special :: "char \<Rightarrow> bool" where
  "is_special c \<longleftrightarrow> c \<in> set ''-/^$*+?.()|[]{}'' \<or> c = CHR 0x5C"

definition is_word :: "char \<Rightarrow> bool" where
  "is_word c \<longleftrightarrow> is_digit c \<or> is_upper c \<or> is_lower c \<or> c = CHR ''_''"

definition is_letter :: "char \<Rightarrow> bool" where
  "is_letter c \<longleftrightarrow> is_upper c \<or> is_lower c"

definition splat_items :: "string \<Rightarrow> rx_item list" where
  "splat_items rule = map (\<lambda>c. if c = CHR ''*'' then Group ''splat'' Splat else Lit c) rule"

text \<open>The literal word at the start of the items.\<close>

fun word_items :: "rx_item list \<Rightarrow> string" where
  "word_items (Lit c # is) = (if is_word c then c # word_items is else [])"
| "word_items is = []"

text \<open>\<open>PLACEHOLDER_REGEX\<close>, all matches: a colon and a word that begins with a letter.\<close>

fun placeholder_at :: "rx_item list \<Rightarrow> string option" where
  "placeholder_at (Lit c # Lit d # is) =
     (if c = CHR '':'' \<and> is_letter d then Some (word_items (Lit d # is)) else None)"
| "placeholder_at is = None"

fun placeholders :: "rx_item list \<Rightarrow> string list" where
  "placeholders [] = []"
| "placeholders (i # is) =
     (case placeholder_at (i # is) of None \<Rightarrow> placeholders is | Some n \<Rightarrow> n # placeholders is)"

text \<open>
  \<open>HOST_PLACEHOLDER_REGEX\<close>: additionally, everything between \<^verbatim>\<open>https://\<close> at the start of the rule and
  the colon has no slash, and the word is followed by an escaped character.
\<close>

fun host_placeholders :: "rx_item list \<Rightarrow> string list" where
  "host_placeholders [] = []"
| "host_placeholders (i # is) =
     (if i = Lit CHR ''/'' then []
      else
        (case placeholder_at (i # is) of
           None \<Rightarrow> host_placeholders is
         | Some n \<Rightarrow>
             (case drop (length n) is of
                Lit c # _ \<Rightarrow> if is_special c then n # host_placeholders is else host_placeholders is
              | _ \<Rightarrow> host_placeholders is)))"

definition rule_host_placeholders :: "rx_item list \<Rightarrow> string list" where
  "rule_host_placeholders is =
     (if take 8 is = map Lit ''https://'' then host_placeholders (drop 8 is) else [])"

text \<open>\<open>rule.split(":name").join(group)\<close>.\<close>

function replace_items :: "rx_item list \<Rightarrow> rx_item \<Rightarrow> rx_item list \<Rightarrow> rx_item list" where
  "replace_items pat g [] = []"
| "replace_items pat g (i # is) =
     (if pat \<noteq> [] \<and> take (length pat) (i # is) = pat
      then g # replace_items pat g (drop (length pat) (i # is))
      else i # replace_items pat g is)"
  by pat_completeness auto
termination
  by (relation "measure (\<lambda>(pat, g, is). length is)") (auto simp: neq_Nil_conv)

definition capture :: "group_kind \<Rightarrow> rx_item list \<Rightarrow> string list \<Rightarrow> rx_item list" where
  "capture k is names =
     fold (\<lambda>n. replace_items (map Lit (CHR '':'' # n)) (Group n k)) names is"

definition compile_items :: "string \<Rightarrow> rx_item list" where
  "compile_items rule =
     (let is0 = splat_items rule;
          is1 = capture HostSegment is0 (rule_host_placeholders is0)
      in capture PathSegment is1 (placeholders is1))"

fun group_names :: "rx_item list \<Rightarrow> string list" where
  "group_names [] = []"
| "group_names (Group n k # is) = n # group_names is"
| "group_names (Lit c # is) = group_names is"

text \<open>\<open>new RegExp\<close> throws for a duplicate group name, and the rule is left out.\<close>

definition compile_rule :: "string \<Rightarrow> rx_item list option" where
  "compile_rule rule =
     (let is = compile_items rule in if distinct (group_names is) then Some is else None)"

subsection \<open>Matching\<close>

definition group_char :: "group_kind \<Rightarrow> char \<Rightarrow> bool" where
  "group_char k c =
     (case k of
        Splat \<Rightarrow> c \<noteq> CHR 0x0A \<and> c \<noteq> CHR 0x0D
      | HostSegment \<Rightarrow> c \<noteq> CHR ''/'' \<and> c \<noteq> CHR ''.''
      | PathSegment \<Rightarrow> c \<noteq> CHR ''/'')"

definition group_min :: "group_kind \<Rightarrow> nat" where
  "group_min k = (case k of Splat \<Rightarrow> 0 | _ \<Rightarrow> 1)"

fun first_some :: "('a \<Rightarrow> 'b option) \<Rightarrow> 'a list \<Rightarrow> 'b option" where
  "first_some f [] = None"
| "first_some f (x # xs) = (case f x of None \<Rightarrow> first_some f xs | Some y \<Rightarrow> Some y)"

text \<open>
  Matching the whole string with backtracking; groups are greedy. The result is the values of the
  groups.
\<close>

primrec rx_match :: "rx_item list \<Rightarrow> string \<Rightarrow> replacements option" where
  "rx_match [] = (\<lambda>s. if s = [] then Some [] else None)"
| "rx_match (i # is) = (\<lambda>s.
     (case i of
        Lit c \<Rightarrow> (case s of [] \<Rightarrow> None | d # t \<Rightarrow> if c = d then rx_match is t else None)
      | Group n k \<Rightarrow>
          first_some (\<lambda>j. map_option (Cons (n, take j s)) (rx_match is (drop j s)))
            (rev [group_min k ..< Suc (length (takeWhile (group_char k) s))])))"

record url_request =
  ur_hostname :: string
  ur_pathname :: string

definition crossHost :: "string \<Rightarrow> bool" where
  "crossHost rule = startsWith rule ''https://''"

definition ruleSubject :: "string \<Rightarrow> url_request \<Rightarrow> string" where
  "ruleSubject rule rq =
     (if crossHost rule then ''https://'' @ ur_hostname rq @ ur_pathname rq else ur_pathname rq)"

definition matchRule :: "string \<Rightarrow> url_request \<Rightarrow> replacements option" where
  "matchRule rule rq = Option.bind (compile_rule rule) (\<lambda>is. rx_match is (ruleSubject rule rq))"

text \<open>\<open>generateRulesMatcher\<close>: the matches of all rules that apply, in the order of the rules.\<close>

definition generateRulesMatcher ::
  "(string \<times> 'a) list \<Rightarrow> ('a \<Rightarrow> replacements \<Rightarrow> 'b) \<Rightarrow> url_request \<Rightarrow> 'b list"
where
  "generateRulesMatcher rules replacerFn rq =
     List.map_filter (\<lambda>(rule, m). map_option (replacerFn m) (matchRule rule rq)) rules"

end
