(* ===== verification/PagesMetadata.thy ===== *)
theory PagesMetadata
  imports RulesEngine "HOL-Library.AList" Complex_Main
begin

text \<open>
  The parsers of \<^verbatim>\<open>_redirects\<close> and \<^verbatim>\<open>_headers\<close> and the metadata made of them,
  \<^verbatim>\<open>packages/pages-shared/metadata-generator\<close>.

  The URL parser of the platform is a parameter: \<open>url\<close> gives the path, search and hash of
  \<open>new URL(input, "relative://")\<close>, or \<^const>\<open>None\<close> if it throws. \<open>Number\<close> is over the rationals, and header
  names are not array indices.
\<close>

subsection \<open>Constants\<close>

definition PERMITTED_STATUS_CODES :: "nat list" where
  "PERMITTED_STATUS_CODES = [200, 301, 302, 303, 307, 308]"

definition MAX_LINE_LENGTH :: nat where
  "MAX_LINE_LENGTH = 2000"

definition MAX_HEADER_RULES :: nat where
  "MAX_HEADER_RULES = 100"

definition MAX_DYNAMIC_REDIRECT_RULES :: nat where
  "MAX_DYNAMIC_REDIRECT_RULES = 100"

definition MAX_STATIC_REDIRECT_RULES :: nat where
  "MAX_STATIC_REDIRECT_RULES = 2000"

definition UNSET_OPERATOR :: string where
  "UNSET_OPERATOR = ''! ''"

text \<open>\<open>SPLAT_REGEX\<close> and \<open>PLACEHOLDER_REGEX\<close>, whether the string has a match.\<close>

definition has_splat :: "string \<Rightarrow> bool" where
  "has_splat s \<longleftrightarrow> CHR ''*'' \<in> set s"

fun has_placeholder :: "string \<Rightarrow> bool" where
  "has_placeholder (c # d # s) \<longleftrightarrow> c = CHR '':'' \<and> is_letter d \<or> has_placeholder (d # s)"
| "has_placeholder s \<longleftrightarrow> False"

definition is_static :: "string \<Rightarrow> bool" where
  "is_static s \<longleftrightarrow> \<not> has_splat s \<and> \<not> has_placeholder s"

subsection \<open>URLs (\<^verbatim>\<open>validateURL.ts\<close>)\<close>

record url_parts =
  up_pathname :: string
  up_search :: string
  up_hash :: string

type_synonym url_parser = "string \<Rightarrow> url_parts option"

definition extractPathname :: "url_parser \<Rightarrow> string \<Rightarrow> bool \<Rightarrow> bool \<Rightarrow> string option" where
  "extractPathname url path0 includeSearch includeHash =
     (let path = (if startsWith path0 ''/'' then path0 else CHR ''/'' # path0)
      in map_option (\<lambda>u. up_pathname u @ (if includeSearch then up_search u else [])
           @ (if includeHash then up_hash u else [])) (url (''//'' @ path)))"

text \<open>\<open>URL_REGEX\<close>: the groups \<open>host\<close> and \<open>path\<close>.\<close>

definition urlRegex :: "string \<Rightarrow> (string \<times> string) option" where
  "urlRegex token =
     (if startsWith token ''https://'' then
        (let r = dropWhile (\<lambda>c. c = CHR ''/'') (drop 8 token);
             host = takeWhile (\<lambda>c. c \<noteq> CHR ''/'') r
         in if host = [] then None else Some (host, drop 1 (drop (length host) r)))
      else None)"

text \<open>\<open>HOST_WITH_PORT_REGEX\<close>: digits at the end, after a colon.\<close>

definition hostWithPort :: "string \<Rightarrow> bool" where
  "hostWithPort host =
     (let ds = takeWhile is_digit (rev host); r = dropWhile is_digit (rev host)
      in ds \<noteq> [] \<and> r \<noteq> [] \<and> hd r = CHR '':'')"

definition urlHasHost :: "string \<Rightarrow> bool" where
  "urlHasHost token \<longleftrightarrow> urlRegex token \<noteq> None"

text \<open>
  The result is the message of an invalid URL or the URL; the left value of the outer sum is the
  exception that only the second call of \<open>extractPathname\<close> catches.
\<close>

definition validateUrl ::
  "url_parser \<Rightarrow> string \<Rightarrow> bool \<Rightarrow> bool \<Rightarrow> bool \<Rightarrow> bool \<Rightarrow> (string + string) res"
where
  "validateUrl url token0 onlyRelative disallowPorts includeSearch includeHash =
     (case urlRegex token0 of
        Some (host, path) \<Rightarrow>
          if onlyRelative then
            Inr (Inl (''Only relative URLs are allowed. Skipping absolute URL '' @ token0 @ ''.''))
          else if disallowPorts \<and> hostWithPort host then
            Inr (Inl (''Specifying ports is not supported. Skipping absolute URL '' @ token0 @ ''.''))
          else
            (case extractPathname url path includeSearch includeHash of
               None \<Rightarrow> Inl TypeError
             | Some p \<Rightarrow> Inr (Inr (''https://'' @ host @ p)))
      | None \<Rightarrow>
          (let token = (if \<not> startsWith token0 ''/'' \<and> onlyRelative then CHR ''/'' # token0 else token0)
           in if startsWith token ''/'' then
                (case extractPathname url token includeSearch includeHash of
                   None \<Rightarrow> Inr (Inl (''Error parsing URL segment '' @ token @ ''. Skipping.''))
                 | Some p \<Rightarrow> Inr (Inr p))
              else Inr (Inl (if onlyRelative then ''URLs should begin with a forward-slash.''
                 else ''URLs should either be relative (e.g. begin with a forward-slash), or use HTTPS (e.g. begin with \"https://\").''))))"

subsection \<open>Numbers\<close>

text \<open>The value of digits in a base, \<^const>\<open>None\<close> unless all are digits of the base.\<close>

fun number_radix :: "nat \<Rightarrow> nat \<Rightarrow> string \<Rightarrow> nat option" where
  "number_radix base acc [] = Some acc"
| "number_radix base acc (c # s) =
     (case hex_val c of
        None \<Rightarrow> None
      | Some d \<Rightarrow> if d < base then number_radix base (base * acc + d) s else None)"

definition number_exponent :: "string \<Rightarrow> int option" where
  "number_exponent s =
     (let (sign, ds) = (if startsWith s ''-'' then (- 1, drop 1 s) else if startsWith s ''+'' then (1, drop 1 s) else (1, s))
      in if ds \<noteq> [] \<and> list_all is_digit ds then Some (sign * int (digits_val ds)) else None)"

definition number_decimal :: "string \<Rightarrow> rat option" where
  "number_decimal s =
     (let whole = takeWhile is_digit s; r = dropWhile is_digit s;
          frac = (if startsWith r ''.'' then takeWhile is_digit (drop 1 r) else []);
          e = (if startsWith r ''.'' then dropWhile is_digit (drop 1 r) else r);
          mantissa = of_nat (digits_val (whole @ frac)) / 10 ^ length frac
      in if whole = [] \<and> frac = [] then None
         else if e = [] then Some mantissa
         else if hd e = CHR ''e'' \<or> hd e = CHR ''E'' then
           map_option (\<lambda>x. if x < 0 then mantissa / 10 ^ nat (- x) else mantissa * 10 ^ nat x) (number_exponent (tl e))
         else None)"

text \<open>
  \<open>Number\<close> of a non-empty string without white space; an infinite value is \<^const>\<open>None\<close> like \<open>NaN\<close>.
\<close>

definition js_number :: "string \<Rightarrow> rat option" where
  "js_number s =
     (let p = toLowerCase (take 2 s); r = drop 2 s in
      if p \<in> {''0x'', ''0o'', ''0b''} then
        (if r = [] then None
         else map_option of_nat (number_radix (if p = ''0x'' then 16 else if p = ''0o'' then 8 else 2) 0 r))
      else if startsWith s ''-'' then map_option uminus (number_decimal (drop 1 s))
      else if startsWith s ''+'' then number_decimal (drop 1 s)
      else number_decimal s)"

definition permittedStatus :: "string \<Rightarrow> nat option" where
  "permittedStatus s =
     (case js_number s of
        None \<Rightarrow> None
      | Some q \<Rightarrow> find (\<lambda>n. of_nat n = q) PERMITTED_STATUS_CODES)"

subsection \<open>Redirects (\<^verbatim>\<open>parseRedirects.ts\<close>)\<close>

record redirectRule =
  rr_from :: string
  rr_to :: string
  rr_status :: nat
  rr_lineNumber :: nat

record invalidRule =
  iv_line :: "string option"
  iv_lineNumber :: "nat option"
  iv_message :: string

lemma dropWhile_twice_shorter:
  "dropWhile p s = c # r \<Longrightarrow> length (dropWhile q r) < length s"
  using length_dropWhile_le [of p s] length_dropWhile_le [of q r] by simp

text \<open>\<open>split(/\s+/)\<close> of a trimmed non-empty line.\<close>

function split_spaces :: "string \<Rightarrow> string list" where
  "split_spaces s =
     (case dropWhile (\<lambda>c. \<not> is_space c) s of
        [] \<Rightarrow> [s]
      | c # r \<Rightarrow> takeWhile (\<lambda>c. \<not> is_space c) s # split_spaces (dropWhile is_space r))"
  by pat_completeness auto
termination
  by (relation "measure length")
     (auto intro: dropWhile_twice_shorter)

declare split_spaces.simps [simp del]

record parse_state =
  pt_rules :: "redirectRule list"
  pt_seen :: "string list"
  pt_invalid :: "invalidRule list"
  pt_static :: nat
  pt_dynamic :: nat
  pt_canStatic :: bool

definition invalid_at :: "nat \<Rightarrow> string \<Rightarrow> string \<Rightarrow> parse_state \<Rightarrow> parse_state" where
  "invalid_at i line message st =
     st\<lparr>pt_invalid := pt_invalid st
          @ [\<lparr>iv_line = Some line, iv_lineNumber = Some (i + 1), iv_message = message\<rparr>]\<rparr>"

definition invalid_note :: "string \<Rightarrow> parse_state \<Rightarrow> parse_state" where
  "invalid_note message st =
     st\<lparr>pt_invalid := pt_invalid st @ [\<lparr>iv_line = None, iv_lineNumber = None, iv_message = message\<rparr>]\<rparr>"

text \<open>The redirect to \<^verbatim>\<open>/index.html\<close> that the asset server would undo.\<close>

definition ends_in_index :: "string \<Rightarrow> bool" where
  "ends_in_index to \<longleftrightarrow>
     endsWith to ''/index''
     \<or> endsWith to ''html'' \<and> 5 \<le> length to \<and> endsWith (take (length to - 5) to) ''/index''"

definition infinite_loop :: "string \<Rightarrow> string \<Rightarrow> bool" where
  "infinite_loop from to \<longleftrightarrow>
     (endsWith from ''/'' \<or> endsWith from ''/*'') \<and> ends_in_index to \<and> \<not> urlHasHost to"

definition infinite_loop_message :: string where
  "infinite_loop_message = ''Infinite loop detected in this rule and has been ignored. This will cause a redirect to strip `.html` or `/index` and end up triggering this rule again. Please fix or remove this rule to silence this warning.''"

definition status_message :: "string \<Rightarrow> string" where
  "status_message s = ''Valid status codes are 200, 301, 302 (default), 303, 307, or 308. Got '' @ s @ ''.''"

definition duplicate_message :: "string \<Rightarrow> string" where
  "duplicate_message from = ''Ignoring duplicate rule for path '' @ from @ ''.''"

definition proxy_message :: "string \<Rightarrow> string" where
  "proxy_message to = ''Proxy (200) redirects can only point to relative paths. Got '' @ to"

text \<open>The checks that follow the counting of a line: the target, the status, loops and duplicates.\<close>

definition redirect_rule ::
  "url_parser \<Rightarrow> nat \<Rightarrow> string \<Rightarrow> string \<Rightarrow> string \<Rightarrow> string \<Rightarrow> parse_state \<Rightarrow> parse_state res"
where
  "redirect_rule url i line from str_to str_status st =
     andThen (validateUrl url str_to False False True True) (\<lambda>toResult.
     case toResult of
       Inl message \<Rightarrow> Inr (invalid_at i line message st)
     | Inr to \<Rightarrow>
         (case permittedStatus str_status of
            None \<Rightarrow> Inr (invalid_at i line (status_message str_status) st)
          | Some status \<Rightarrow>
              if infinite_loop from to then Inr (invalid_at i line infinite_loop_message st)
              else if from \<in> set (pt_seen st) then
                Inr (invalid_at i line (duplicate_message from) st)
              else
                (let st1 = st\<lparr>pt_seen := from # pt_seen st\<rparr>
                 in if status = 200 \<and> urlHasHost to then
                      Inr (invalid_at i line (proxy_message to) st1)
                    else
                      Inr (st1\<lparr>pt_rules := pt_rules st1
                        @ [\<lparr>rr_from = from, rr_to = to, rr_status = status, rr_lineNumber = i + 1\<rparr>]\<rparr>))))"

definition max_static_message :: string where
  "max_static_message = ''Maximum number of static rules supported is ''
     @ show_nat MAX_STATIC_REDIRECT_RULES @ ''. Skipping line.''"

definition max_dynamic_message :: "nat \<Rightarrow> string" where
  "max_dynamic_message remaining = ''Maximum number of dynamic rules supported is ''
     @ show_nat MAX_DYNAMIC_REDIRECT_RULES @ ''. Skipping remaining '' @ show_nat remaining @ '' lines of file.''"

text \<open>
  Counting a rule as static or dynamic. The flag of the result is false when the loop is left.
\<close>

definition redirect_counted ::
  "url_parser \<Rightarrow> nat \<Rightarrow> nat \<Rightarrow> string \<Rightarrow> string \<Rightarrow> string \<Rightarrow> string \<Rightarrow> parse_state \<Rightarrow> (bool \<times> parse_state) res"
where
  "redirect_counted url n i line from str_to str_status st =
     (if pt_canStatic st \<and> is_static from then
        (let st1 = st\<lparr>pt_static := pt_static st + 1\<rparr> in
         if MAX_STATIC_REDIRECT_RULES < pt_static st1 then
           Inr (True, invalid_note max_static_message st1)
         else andThen (redirect_rule url i line from str_to str_status st1) (\<lambda>st2. Inr (True, st2)))
      else
        (let st1 = st\<lparr>pt_dynamic := pt_dynamic st + 1, pt_canStatic := False\<rparr> in
         if MAX_DYNAMIC_REDIRECT_RULES < pt_dynamic st1 then
           Inr (False, invalid_note (max_dynamic_message (n - i)) st1)
         else andThen (redirect_rule url i line from str_to str_status st1) (\<lambda>st2. Inr (True, st2))))"

text \<open>One line of the file.\<close>

definition redirect_line ::
  "url_parser \<Rightarrow> nat \<Rightarrow> nat \<Rightarrow> string \<Rightarrow> parse_state \<Rightarrow> (bool \<times> parse_state) res"
where
  "redirect_line url n i raw st =
     (let line = trim raw; tokens = split_spaces line in
      if line = [] \<or> startsWith line ''#'' then Inr (True, st)
      else if MAX_LINE_LENGTH < length line then
        Inr (True, invalid_note (''Ignoring line '' @ show_nat (i + 1)
          @ '' as it exceeds the maximum allowed length of '' @ show_nat MAX_LINE_LENGTH @ ''.'') st)
      else if length tokens < 2 \<or> 3 < length tokens then
        Inr (True, invalid_at i line (''Expected exactly 2 or 3 whitespace-separated tokens. Got ''
          @ show_nat (length tokens) @ ''.'') st)
      else
        andThen (validateUrl url (tokens ! 0) True True False False) (\<lambda>fromResult.
        case fromResult of
          Inl message \<Rightarrow> Inr (True, invalid_at i line message st)
        | Inr from \<Rightarrow>
            redirect_counted url n i line from (tokens ! 1)
              (if length tokens = 3 then tokens ! 2 else ''302'') st))"

fun redirect_lines ::
  "url_parser \<Rightarrow> nat \<Rightarrow> nat \<Rightarrow> string list \<Rightarrow> parse_state \<Rightarrow> parse_state res"
where
  "redirect_lines url n i [] st = Inr st"
| "redirect_lines url n i (raw # rest) st =
     andThen (redirect_line url n i raw st) (\<lambda>(go_on, st1).
       if go_on then redirect_lines url n (i + 1) rest st1 else Inr st1)"

record parsedRedirects =
  pd_rules :: "redirectRule list"
  pd_invalid :: "invalidRule list"

definition init_state :: parse_state where
  "init_state = \<lparr>pt_rules = [], pt_seen = [], pt_invalid = [], pt_static = 0, pt_dynamic = 0, pt_canStatic = True\<rparr>"

definition parseRedirects :: "url_parser \<Rightarrow> string \<Rightarrow> parsedRedirects res" where
  "parseRedirects url input =
     (let lines = split_on (CHR 0x0A) input in
      andThen (redirect_lines url (length lines) 0 lines init_state) (\<lambda>st.
        Inr \<lparr>pd_rules = pt_rules st, pd_invalid = pt_invalid st\<rparr>))"

subsection \<open>Headers (\<^verbatim>\<open>parseHeaders.ts\<close>)\<close>

record headersRule =
  hr_path :: string
  hr_headers :: "(string \<times> string) list"
  hr_unset :: "string list"

record open_rule = headersRule +
  hr_line :: string

record parsedHeaders =
  ph_rules :: "headersRule list"
  ph_invalid :: "invalidRule list"

record header_state =
  hs_rules :: "headersRule list"
  hs_invalid :: "invalidRule list"
  hs_rule :: "open_rule option"

text \<open>\<open>LINE_IS_PROBABLY_A_PATH\<close>: a slash, or \<^verbatim>\<open>://\<close> after characters other than white space.\<close>

fun scheme_after :: "string \<Rightarrow> bool" where
  "scheme_after [] = False"
| "scheme_after (c # s) = (\<not> is_space c \<and> (startsWith s ''://'' \<or> scheme_after s))"

definition probably_a_path :: "string \<Rightarrow> bool" where
  "probably_a_path line \<longleftrightarrow> startsWith line ''/'' \<or> scheme_after line"

definition isValidRule :: "'x headersRule_scheme \<Rightarrow> bool" where
  "isValidRule rule \<longleftrightarrow> hr_headers rule \<noteq> [] \<or> hr_unset rule \<noteq> []"

definition closed_rule :: "open_rule \<Rightarrow> headersRule" where
  "closed_rule r = \<lparr>hr_path = hr_path r, hr_headers = hr_headers r, hr_unset = hr_unset r\<rparr>"

definition header_invalid :: "string option \<Rightarrow> nat option \<Rightarrow> string \<Rightarrow> header_state \<Rightarrow> header_state" where
  "header_invalid line lineNumber message st =
     st\<lparr>hs_invalid := hs_invalid st
          @ [\<lparr>iv_line = line, iv_lineNumber = lineNumber, iv_message = message\<rparr>]\<rparr>"

text \<open>The open rule is moved to the rules, or reported if it has no headers.\<close>

definition close_rule :: "nat option \<Rightarrow> header_state \<Rightarrow> header_state" where
  "close_rule lineNumber st =
     (case hs_rule st of
        None \<Rightarrow> st
      | Some r \<Rightarrow>
          if isValidRule r then st\<lparr>hs_rules := hs_rules st @ [closed_rule r]\<rparr>
          else header_invalid (Some (hr_line r)) lineNumber ''No headers specified'' st)"

definition header_path_line ::
  "url_parser \<Rightarrow> nat \<Rightarrow> nat \<Rightarrow> string \<Rightarrow> header_state \<Rightarrow> (bool \<times> header_state) res"
where
  "header_path_line url n i line st =
     (if MAX_HEADER_RULES \<le> length (hs_rules st) then
        Inr (False, header_invalid None None (''Maximum number of rules supported is ''
          @ show_nat MAX_HEADER_RULES @ ''. Skipping remaining '' @ show_nat (n - i) @ '' lines of file.'') st)
      else
        (let st1 = close_rule (Some (i + 1)) st in
         andThen (validateUrl url line False True False False) (\<lambda>path.
         case path of
           Inl message \<Rightarrow>
             Inr (True, (header_invalid (Some line) (Some (i + 1)) message st1)\<lparr>hs_rule := None\<rparr>)
         | Inr p \<Rightarrow>
             Inr (True, st1\<lparr>hs_rule :=
               Some \<lparr>hr_path = p, hr_headers = [], hr_unset = [], hr_line = line\<rparr>\<rparr>))))"

definition set_header :: "string \<Rightarrow> string \<Rightarrow> (string \<times> string) list \<Rightarrow> (string \<times> string) list" where
  "set_header name val hs =
     AList.update name (case map_of hs name of None \<Rightarrow> val | Some old \<Rightarrow> old @ '', '' @ val) hs"

definition header_pair_line :: "nat \<Rightarrow> string \<Rightarrow> header_state \<Rightarrow> header_state" where
  "header_pair_line i line st =
     (let pieces = split_on CHR '':'' line;
          name = toLowerCase (trim (hd pieces));
          val = trim (join_with '':'' (tl pieces));
          bad = (\<lambda>message. header_invalid (Some line) (Some (i + 1)) message st)
      in if CHR '' '' \<in> set name then bad ''Header name cannot include spaces''
         else if name = [] then bad ''No header name specified''
         else if val = [] then bad ''No header value specified''
         else (case hs_rule st of
                 None \<Rightarrow> bad (''Path should come before header ('' @ name @ '': '' @ val @ '')'')
               | Some r \<Rightarrow> st\<lparr>hs_rule := Some (r\<lparr>hr_headers := set_header name val (hr_headers r)\<rparr>)\<rparr>))"

definition header_line ::
  "url_parser \<Rightarrow> nat \<Rightarrow> nat \<Rightarrow> string \<Rightarrow> header_state \<Rightarrow> (bool \<times> header_state) res"
where
  "header_line url n i raw st =
     (let line = trim raw in
      if line = [] \<or> startsWith line ''#'' then Inr (True, st)
      else if MAX_LINE_LENGTH < length line then
        Inr (True, header_invalid None None (''Ignoring line '' @ show_nat (i + 1)
          @ '' as it exceeds the maximum allowed length of '' @ show_nat MAX_LINE_LENGTH @ ''.'') st)
      else if probably_a_path line then header_path_line url n i line st
      else if CHR '':'' \<notin> set line then
        Inr (True,
          (case hs_rule st of
             None \<Rightarrow> header_invalid (Some line) (Some (i + 1))
                       ''Expected a path beginning with at least one forward-slash'' st
           | Some r \<Rightarrow>
               if startsWith line UNSET_OPERATOR
               then st\<lparr>hs_rule := Some (r\<lparr>hr_unset := hr_unset r @ [drop 2 line]\<rparr>)\<rparr>
               else header_invalid (Some line) (Some (i + 1))
                      ''Expected a colon-separated header pair (e.g. name: value)'' st))
      else Inr (True, header_pair_line i line st))"

fun header_lines ::
  "url_parser \<Rightarrow> nat \<Rightarrow> nat \<Rightarrow> string list \<Rightarrow> header_state \<Rightarrow> header_state res"
where
  "header_lines url n i [] st = Inr st"
| "header_lines url n i (raw # rest) st =
     andThen (header_line url n i raw st) (\<lambda>(go_on, st1).
       if go_on then header_lines url n (i + 1) rest st1 else Inr st1)"

definition parseHeaders :: "url_parser \<Rightarrow> string \<Rightarrow> parsedHeaders res" where
  "parseHeaders url input =
     (let lines = split_on (CHR 0x0A) input in
      andThen (header_lines url (length lines) 0 lines \<lparr>hs_rules = [], hs_invalid = [], hs_rule = None\<rparr>) (\<lambda>st.
        let st1 = close_rule None st in Inr \<lparr>ph_rules = hs_rules st1, ph_invalid = hs_invalid st1\<rparr>))"

subsection \<open>Metadata (\<^verbatim>\<open>createMetadataObject.ts\<close>)\<close>

record staticRedirect =
  sr_status :: nat
  sr_to :: string
  sr_lineNumber :: nat

record dynamicRedirect =
  dyn_status :: nat
  dyn_to :: string

record redirectsMetadata =
  rd_version :: nat
  rd_static :: "(string \<times> staticRedirect) list"
  rd_rules :: "(string \<times> dynamicRedirect) list"

record headerEntry =
  he_set :: "(string \<times> string) list option"
  he_unset :: "string list option"

record headersMetadata =
  hm_version :: nat
  hm_rules :: "(string \<times> headerEntry) list"

record metadata =
  md_redirects :: "redirectsMetadata option"
  md_headers :: "headersMetadata option"
  md_analytics :: "(nat \<times> string) option"
  md_deploymentId :: "string option"
  md_failOpen :: "bool option"

definition REDIRECTS_VERSION :: nat where "REDIRECTS_VERSION = 1"

definition HEADERS_VERSION :: nat where "HEADERS_VERSION = 2"

definition ANALYTICS_VERSION :: nat where "ANALYTICS_VERSION = 1"

text \<open>The loop over the rules: the flag \<open>canCreateStaticRule\<close>, the static and the dynamic rules.\<close>

fun split_redirects ::
  "redirectRule list \<Rightarrow> bool \<Rightarrow> (string \<times> staticRedirect) list \<Rightarrow> (string \<times> dynamicRedirect) list
   \<Rightarrow> (string \<times> staticRedirect) list \<times> (string \<times> dynamicRedirect) list"
where
  "split_redirects [] canStatic st dy = (st, dy)"
| "split_redirects (r # rs) canStatic st dy =
     (if is_static (rr_from r) \<and> canStatic then
        split_redirects rs canStatic
          (AList.update (rr_from r) \<lparr>sr_status = rr_status r, sr_to = rr_to r, sr_lineNumber = rr_lineNumber r\<rparr> st) dy
      else
        split_redirects rs False st (AList.update (rr_from r) \<lparr>dyn_status = rr_status r, dyn_to = rr_to r\<rparr> dy))"

definition constructRedirects :: "parsedRedirects option \<Rightarrow> redirectsMetadata option" where
  "constructRedirects redirects =
     (case redirects of
        None \<Rightarrow> None
      | Some p \<Rightarrow>
          if pd_rules p = [] then None
          else (let (st, dy) = split_redirects (pd_rules p) True [] [] in
                Some \<lparr>rd_version = REDIRECTS_VERSION, rd_static = st, rd_rules = dy\<rparr>))"

definition header_entry :: "headersRule \<Rightarrow> headerEntry" where
  "header_entry r =
     \<lparr>he_set = (if hr_headers r \<noteq> [] then Some (hr_headers r) else None),
      he_unset = (if hr_unset r \<noteq> [] then Some (hr_unset r) else None)\<rparr>"

definition constructHeaders :: "parsedHeaders option \<Rightarrow> headersMetadata option" where
  "constructHeaders headers =
     (case headers of
        None \<Rightarrow> None
      | Some p \<Rightarrow>
          if ph_rules p = [] then None
          else Some \<lparr>hm_version = HEADERS_VERSION,
                     hm_rules = fold (\<lambda>r m. AList.update (hr_path r) (header_entry r) m) (ph_rules p) []\<rparr>)"

definition constructWebAnalytics :: "string option \<Rightarrow> (nat \<times> string) option" where
  "constructWebAnalytics token =
     (case token of None \<Rightarrow> None | Some t \<Rightarrow> if t = [] then None else Some (ANALYTICS_VERSION, t))"

definition createMetadataObject ::
  "parsedRedirects option \<Rightarrow> parsedHeaders option \<Rightarrow> string option \<Rightarrow> string option \<Rightarrow> bool option \<Rightarrow> metadata"
where
  "createMetadataObject redirects headers webAnalyticsToken deploymentId failOpen =
     \<lparr>md_redirects = constructRedirects redirects, md_headers = constructHeaders headers,
      md_analytics = constructWebAnalytics webAnalyticsToken, md_deploymentId = deploymentId,
      md_failOpen = failOpen\<rparr>"

end
