(* ===== verification/RulesProperties.thy ===== *)
theory RulesProperties
  imports PagesMetadata
begin

text \<open>
  Static rules match exactly their own path and splats match prefixes; what the redirect parser accepts
  is bounded and free of duplicates; the division into static and dynamic rules.
\<close>

subsection \<open>Compiled rules\<close>

lemma placeholders_literal: "\<not> has_placeholder s \<Longrightarrow> placeholders (map Lit s) = []"
  by (induction s rule: has_placeholder.induct) auto

lemma host_placeholders_subset: "set (host_placeholders is) \<subseteq> set (placeholders is)"
proof (induction "is")
  case (Cons i "is")
  then show ?case by (auto split: option.splits list.splits rx_item.splits)
qed simp

lemma set_placeholders_append: "set (placeholders b) \<subseteq> set (placeholders (a @ b))"
  by (induction a) (auto split: option.splits)

lemma rule_host_placeholders_subset: "set (rule_host_placeholders is) \<subseteq> set (placeholders is)"
  using host_placeholders_subset [of "drop 8 is"] set_placeholders_append [of "drop 8 is" "take 8 is"]
  by (auto simp: rule_host_placeholders_def)

lemma splat_items_literal: "\<not> has_splat s \<Longrightarrow> splat_items s = map Lit s"
  by (auto simp: splat_items_def has_splat_def)

lemma group_names_literal [simp]: "group_names (map Lit s) = []"
  by (induction s) auto

lemma rx_match_literal: "rx_match (map Lit s) t = (if t = s then Some [] else None)"
  by (induction s arbitrary: t) (auto split: list.split)

lemma compile_static: "is_static rule \<Longrightarrow> compile_rule rule = Some (map Lit rule)"
  using rule_host_placeholders_subset [of "map Lit rule"]
  by (simp add: compile_rule_def compile_items_def splat_items_literal placeholders_literal is_static_def
      capture_def Let_def)

text \<open>A rule without splats, placeholders and host matches its own path only, and captures nothing.\<close>

lemma matchRule_static:
  assumes "is_static rule" "startsWith rule ''/''"
  shows "matchRule rule rq = (if ur_pathname rq = rule then Some [] else None)"
proof -
  have "\<not> crossHost rule" using assms(2) by (cases rule) (auto simp: crossHost_def startsWith_def)
  then show ?thesis by (simp add: matchRule_def compile_static [OF assms(1)] rx_match_literal ruleSubject_def)
qed

text \<open>A splat at the end.\<close>

lemma placeholders_literal_splat: "\<not> has_placeholder s \<Longrightarrow> placeholders (map Lit s @ [Group n k]) = []"
proof (induction s)
  case (Cons c s)
  then show ?case by (cases s) auto
qed simp

lemma rx_match_append_literal:
  "rx_match (map Lit s @ is) t = (if startsWith t s then rx_match is (drop (length s) t) else None)"
proof (induction s arbitrary: t)
  case (Cons c s)
  then show ?case by (cases t) (auto simp: startsWith_def)
qed simp

lemma rx_match_splat:
  assumes "list_all (group_char Splat) t"
  shows "rx_match [Group n Splat] t = Some [(n, t)]"
proof -
  have "length (takeWhile (group_char Splat) t) = length t"
    using assms by (simp add: list_all_iff takeWhile_eq_all_conv [THEN iffD2])
  then show ?thesis by (simp add: group_min_def)
qed

theorem splat_rule_matches_prefix:
  assumes "is_static base" "startsWith base ''/''" "list_all (group_char Splat) (ur_pathname rq)"
  shows "matchRule (base @ ''*'') rq =
    (if startsWith (ur_pathname rq) base then Some [(''splat'', drop (length base) (ur_pathname rq))] else None)"
proof -
  have items: "splat_items (base @ ''*'') = map Lit base @ [Group ''splat'' Splat]"
    using assms(1) by (auto simp: splat_items_def is_static_def has_splat_def)
  have none: "placeholders (map Lit base @ [Group ''splat'' Splat]) = []"
    using assms(1) by (simp add: placeholders_literal_splat is_static_def)
  then have "rule_host_placeholders (map Lit base @ [Group ''splat'' Splat]) = []"
    using rule_host_placeholders_subset [of "map Lit base @ [Group ''splat'' Splat]"] by simp
  moreover have "group_names (map Lit base @ [Group ''splat'' Splat]) = [''splat'']"
    by (induction base) auto
  ultimately have "compile_rule (base @ ''*'') = Some (map Lit base @ [Group ''splat'' Splat])"
    using none by (simp add: compile_rule_def compile_items_def items capture_def Let_def)
  moreover have "\<not> crossHost (base @ ''*'')"
    using assms(2) by (cases base) (auto simp: crossHost_def startsWith_def)
  moreover have "list_all (group_char Splat) (drop n (ur_pathname rq))" for n
    using assms(3) by (auto simp: list_all_iff dest: in_set_dropD)
  ultimately show ?thesis
    by (simp add: matchRule_def ruleSubject_def rx_match_append_literal rx_match_splat del: rx_match.simps)
qed

subsection \<open>What the redirect parser accepts\<close>

abbreviation static_rule :: "redirectRule \<Rightarrow> bool" where
  "static_rule r \<equiv> is_static (rr_from r)"

definition good_rule :: "redirectRule \<Rightarrow> bool" where
  "good_rule r \<longleftrightarrow> rr_status r \<in> set PERMITTED_STATUS_CODES \<and> \<not> infinite_loop (rr_from r) (rr_to r)
     \<and> (rr_status r = 200 \<longrightarrow> \<not> urlHasHost (rr_to r))"

definition parse_inv :: "nat \<Rightarrow> parse_state \<Rightarrow> bool" where
  "parse_inv i st \<longleftrightarrow>
     distinct (map rr_from (pt_rules st)) \<and> rr_from ` set (pt_rules st) \<subseteq> set (pt_seen st)
     \<and> list_all good_rule (pt_rules st)
     \<and> sorted_wrt (<) (map rr_lineNumber (pt_rules st)) \<and> (\<forall>r \<in> set (pt_rules st). rr_lineNumber r \<le> i)
     \<and> length (pt_rules st) \<le> min (pt_static st) MAX_STATIC_REDIRECT_RULES + min (pt_dynamic st) MAX_DYNAMIC_REDIRECT_RULES
     \<and> length (dropWhile static_rule (pt_rules st)) \<le> min (pt_dynamic st) MAX_DYNAMIC_REDIRECT_RULES
     \<and> (pt_canStatic st \<longrightarrow> list_all static_rule (pt_rules st) \<and> pt_dynamic st = 0)"

lemma parse_inv_report [simp]:
  "parse_inv i (invalid_at j line m st) = parse_inv i st" "parse_inv i (invalid_note m st) = parse_inv i st"
  by (simp_all add: parse_inv_def invalid_at_def invalid_note_def)

lemma parse_inv_mono: "parse_inv i st \<Longrightarrow> i \<le> j \<Longrightarrow> parse_inv j st"
  by (auto simp: parse_inv_def)

lemma dropWhile_all: "list_all P xs \<Longrightarrow> dropWhile P xs = []"
  by (simp add: list_all_iff)

lemma length_dropWhile_snoc: "length (dropWhile P (xs @ [x])) \<le> Suc (length (dropWhile P xs))"
  by (induction xs) auto

lemma redirect_rule_cases:
  assumes "redirect_rule url i line from str_to status st1 = Inr st2"
  shows "(\<exists>m. st2 = invalid_at i line m st1) \<or>
    (\<exists>m. st2 = invalid_at i line m (st1\<lparr>pt_seen := from # pt_seen st1\<rparr>)) \<or>
    (\<exists>to s. permittedStatus status = Some s \<and> \<not> infinite_loop from to \<and> from \<notin> set (pt_seen st1) \<and>
      \<not> (s = 200 \<and> urlHasHost to) \<and>
      st2 = st1\<lparr>pt_seen := from # pt_seen st1, pt_rules := pt_rules st1
        @ [\<lparr>rr_from = from, rr_to = to, rr_status = s, rr_lineNumber = i + 1\<rparr>]\<rparr>)"
proof -
  obtain toResult where v: "validateUrl url str_to False False True True = Inr toResult"
    using assms by (auto simp: redirect_rule_def)
  note u = assms [unfolded redirect_rule_def v andThen_simps]
  show ?thesis
  proof (cases toResult)
    case (Inl m)
    then show ?thesis using u by auto
  next
    case (Inr to)
    show ?thesis
    proof (cases "permittedStatus status")
      case None
      then show ?thesis using u Inr by auto
    next
      case (Some s)
      with u Inr show ?thesis by (simp only: sum.case option.case Let_def split: if_splits) auto
    qed
  qed
qed

definition counted :: "string \<Rightarrow> parse_state \<Rightarrow> parse_state \<Rightarrow> bool" where
  "counted from st st1 \<longleftrightarrow>
     (pt_canStatic st1 \<and> pt_canStatic st \<and> is_static from \<and> pt_static st1 = Suc (pt_static st)
        \<and> pt_dynamic st1 = pt_dynamic st \<and> pt_static st1 \<le> MAX_STATIC_REDIRECT_RULES) \<or>
     (\<not> pt_canStatic st1 \<and> pt_static st1 = pt_static st \<and> pt_dynamic st1 = Suc (pt_dynamic st)
        \<and> pt_dynamic st1 \<le> MAX_DYNAMIC_REDIRECT_RULES)"

lemma parse_inv_add:
  assumes "parse_inv i st" "pt_rules st1 = pt_rules st" "pt_seen st1 = pt_seen st"
    and "counted from st st1"
    and "from \<notin> set (pt_seen st1)" and "good_rule \<lparr>rr_from = from, rr_to = to, rr_status = s, rr_lineNumber = i + 1\<rparr>"
  shows "parse_inv (Suc i) (st1\<lparr>pt_seen := from # pt_seen st1, pt_rules := pt_rules st1
        @ [\<lparr>rr_from = from, rr_to = to, rr_status = s, rr_lineNumber = i + 1\<rparr>]\<rparr>)"
proof -
  let ?r = "\<lparr>rr_from = from, rr_to = to, rr_status = s, rr_lineNumber = i + 1\<rparr>"
  note c = assms(4) [unfolded counted_def]
  have len: "length (pt_rules st @ [?r]) \<le> min (pt_static st1) MAX_STATIC_REDIRECT_RULES + min (pt_dynamic st1) MAX_DYNAMIC_REDIRECT_RULES"
    using assms(1) c by (auto simp: parse_inv_def min_def split: if_splits)
  have dyn: "length (dropWhile static_rule (pt_rules st @ [?r])) \<le> min (pt_dynamic st1) MAX_DYNAMIC_REDIRECT_RULES"
    using c
  proof
    assume "pt_canStatic st1 \<and> pt_canStatic st \<and> is_static from \<and> pt_static st1 = Suc (pt_static st)
        \<and> pt_dynamic st1 = pt_dynamic st \<and> pt_static st1 \<le> MAX_STATIC_REDIRECT_RULES"
    then have "\<forall>x \<in> set (pt_rules st @ [?r]). static_rule x" using assms(1) by (auto simp: parse_inv_def list_all_iff)
    then have "dropWhile static_rule (pt_rules st @ [?r]) = []" unfolding dropWhile_eq_Nil_conv .
    then show ?thesis by simp
  next
    assume "\<not> pt_canStatic st1 \<and> pt_static st1 = pt_static st \<and> pt_dynamic st1 = Suc (pt_dynamic st)
        \<and> pt_dynamic st1 \<le> MAX_DYNAMIC_REDIRECT_RULES"
    then show ?thesis
      using assms(1) length_dropWhile_snoc [of static_rule "pt_rules st" ?r] by (simp add: parse_inv_def)
  qed
  show ?thesis
    unfolding parse_inv_def
  proof (intro conjI)
    show "distinct (map rr_from (pt_rules (st1\<lparr>pt_seen := from # pt_seen st1, pt_rules := pt_rules st1 @ [?r]\<rparr>)))"
      using assms(1-3,5) by (auto simp: parse_inv_def)
  qed (use assms(1-3,6) c len dyn in \<open>auto simp: parse_inv_def sorted_wrt_append less_Suc_eq_le\<close>)
qed

text \<open>
  A counted line (\<open>st1\<close> has one more static or dynamic rule than \<open>st\<close>) adds at most one rule.
\<close>

lemma redirect_rule_inv:
  assumes "redirect_rule url i line from str_to status st1 = Inr st2"
    and "parse_inv i st"
    and "pt_rules st1 = pt_rules st" "pt_seen st1 = pt_seen st"
    and "counted from st st1"
  shows "parse_inv (Suc i) st2"
proof -
  have st1: "parse_inv i st1" using assms(2-5) by (auto simp: parse_inv_def counted_def dropWhile_all)
  note base = parse_inv_mono [OF st1, of "Suc i"]
  consider m where "st2 = invalid_at i line m st1"
    | m where "st2 = invalid_at i line m (st1\<lparr>pt_seen := from # pt_seen st1\<rparr>)"
    | to s where "permittedStatus status = Some s" "\<not> infinite_loop from to" "from \<notin> set (pt_seen st1)"
      "\<not> (s = 200 \<and> urlHasHost to)"
      "st2 = st1\<lparr>pt_seen := from # pt_seen st1, pt_rules := pt_rules st1
        @ [\<lparr>rr_from = from, rr_to = to, rr_status = s, rr_lineNumber = i + 1\<rparr>]\<rparr>"
    using redirect_rule_cases [OF assms(1)] by blast
  then show ?thesis
  proof cases
    case (2 m)
    moreover have "parse_inv (Suc i) (st1\<lparr>pt_seen := from # pt_seen st1\<rparr>)" using base by (auto simp: parse_inv_def)
    ultimately show ?thesis by simp
  next
    case (3 to s)
    have "s \<in> set PERMITTED_STATUS_CODES"
      using 3(1) by (auto simp: permittedStatus_def find_Some_iff split: option.splits)
    then have "good_rule \<lparr>rr_from = from, rr_to = to, rr_status = s, rr_lineNumber = i + 1\<rparr>"
      using 3 by (simp add: good_rule_def)
    with assms(2-5) 3(3) show ?thesis unfolding 3(5) by (rule parse_inv_add)
  qed (use base in simp_all)
qed

lemma redirect_counted_inv:
  assumes "redirect_counted url n i line from str_to status st = Inr (b, st2)" "parse_inv i st"
  shows "parse_inv (Suc i) st2"
proof (cases "pt_canStatic st \<and> is_static from")
  case True
  let ?st1 = "st\<lparr>pt_static := pt_static st + 1\<rparr>"
  have "parse_inv (Suc i) ?st1" using parse_inv_mono [OF assms(2), of "Suc i"] by (auto simp: parse_inv_def)
  moreover have "counted from st ?st1" if "\<not> MAX_STATIC_REDIRECT_RULES < pt_static ?st1"
    using True that by (simp add: counted_def)
  ultimately show ?thesis
    using True assms redirect_rule_inv [of url i line "from" str_to status ?st1 st2 st]
    by (auto simp: redirect_counted_def Let_def split: if_splits)
next
  case False
  let ?st1 = "st\<lparr>pt_dynamic := pt_dynamic st + 1, pt_canStatic := False\<rparr>"
  have "parse_inv (Suc i) ?st1" using parse_inv_mono [OF assms(2), of "Suc i"] by (auto simp: parse_inv_def)
  moreover have "counted from st ?st1" if "\<not> MAX_DYNAMIC_REDIRECT_RULES < pt_dynamic ?st1"
    using that by (simp add: counted_def)
  ultimately show ?thesis
    using False assms redirect_rule_inv [of url i line "from" str_to status ?st1 st2 st]
    unfolding redirect_counted_def if_not_P [OF False] by (auto simp: Let_def split: if_splits)
qed

lemma redirect_line_cases:
  assumes "redirect_line url n i raw st = Inr (b, st2)"
  shows "(\<exists>m l. st2 = st \<or> st2 = invalid_note m st \<or> st2 = invalid_at i l m st) \<or>
    (\<exists>token line from str_to status. validateUrl url token True True False False = Inr (Inr from) \<and>
       redirect_counted url n i line from str_to status st = Inr (b, st2))"
  using assms
  by (auto simp: redirect_line_def Let_def andThen_def simp del: andThen_eq_Inr split: if_splits sum.splits)

lemma redirect_line_inv:
  assumes "redirect_line url n i raw st = Inr (b, st2)" "parse_inv i st"
  shows "parse_inv (Suc i) st2"
  using redirect_line_cases [OF assms(1)] parse_inv_mono [OF assms(2), of "Suc i"]
    redirect_counted_inv [OF _ assms(2)] by auto

text \<open>The paths of the rules are those the URL check returns.\<close>

lemma report_rules [simp]:
  "pt_rules (invalid_at i l m st) = pt_rules st" "pt_rules (invalid_note m st) = pt_rules st"
  by (simp_all add: invalid_at_def invalid_note_def)

lemma redirect_counted_rules:
  assumes "redirect_counted url n i line from str_to status st = Inr (b, st2)"
  shows "pt_rules st2 = pt_rules st \<or> (\<exists>r. rr_from r = from \<and> pt_rules st2 = pt_rules st @ [r])"
proof -
  have "pt_rules st2 = pt_rules st \<or>
      (\<exists>st1. redirect_rule url i line from str_to status st1 = Inr st2 \<and> pt_rules st1 = pt_rules st)"
    using assms
    by (auto simp: redirect_counted_def Let_def andThen_def simp del: andThen_eq_Inr split: if_splits sum.splits)
  then show ?thesis by (fastforce dest!: redirect_rule_cases)
qed

lemma redirect_lines_paths:
  assumes "redirect_lines url n i lines st = Inr st2" "\<forall>r \<in> set (pt_rules st). P (rr_from r)"
    and P: "\<And>token p. validateUrl url token True True False False = Inr (Inr p) \<Longrightarrow> P p"
  shows "\<forall>r \<in> set (pt_rules st2). P (rr_from r)"
  using assms(1,2)
proof (induction lines arbitrary: i st)
  case (Cons raw lines)
  then obtain b st1 where l: "redirect_line url n i raw st = Inr (b, st1)"
    and r: "(if b then redirect_lines url n (i + 1) lines st1 else Inr st1) = Inr st2"
    by auto
  have "\<forall>r \<in> set (pt_rules st1). P (rr_from r)"
    using redirect_line_cases [OF l] Cons.prems(2) by (fastforce dest: P redirect_counted_rules)
  with r Cons.IH show ?case by (auto split: if_splits)
qed simp

lemma redirect_lines_inv:
  "redirect_lines url n i lines st = Inr st2 \<Longrightarrow> parse_inv i st \<Longrightarrow> \<exists>j. parse_inv j st2"
proof (induction lines arbitrary: i st)
  case (Cons raw lines)
  then obtain b st1 where "redirect_line url n i raw st = Inr (b, st1)"
    "(if b then redirect_lines url n (i + 1) lines st1 else Inr st1) = Inr st2"
    by auto
  with redirect_line_inv [OF this(1) Cons.prems(2)] Cons.IH [of "i + 1" st1] show ?case
    by (auto split: if_splits)
qed auto

text \<open>
  The redirects accepted from a \<^verbatim>\<open>_redirects\<close> file are at most 2100, at most 100 of them from the
  first one with a splat or a placeholder on; no path has two, they are in the order of the lines,
  their status codes are permitted, proxies point to relative paths and none is an infinite loop.
\<close>

theorem redirects_within_limits:
  assumes "parseRedirects url input = Inr p"
  shows "length (pd_rules p) \<le> 2100 \<and> length (dropWhile (\<lambda>r. is_static (rr_from r)) (pd_rules p)) \<le> 100 \<and>
    distinct (map rr_from (pd_rules p)) \<and> sorted_wrt (<) (map rr_lineNumber (pd_rules p)) \<and>
    (\<forall>r \<in> set (pd_rules p). rr_status r \<in> {200, 301, 302, 303, 307, 308} \<and>
       (rr_status r = 200 \<longrightarrow> \<not> urlHasHost (rr_to r)) \<and> \<not> infinite_loop (rr_from r) (rr_to r))"
proof -
  obtain st where st: "redirect_lines url (length (split_on CHR 0x0A input)) 0 (split_on CHR 0x0A input) init_state = Inr st"
    and p: "pd_rules p = pt_rules st"
    using assms by (auto simp: parseRedirects_def Let_def)
  have "parse_inv 0 init_state" by (simp add: parse_inv_def init_state_def)
  from redirect_lines_inv [OF st this] obtain j where j: "parse_inv j st" by blast
  have "length (pt_rules st) \<le> 2100"
    using j by (auto simp: parse_inv_def MAX_STATIC_REDIRECT_RULES_def MAX_DYNAMIC_REDIRECT_RULES_def min_def
        split: if_splits)
  moreover have "length (dropWhile static_rule (pt_rules st)) \<le> 100"
    using j by (simp add: parse_inv_def MAX_DYNAMIC_REDIRECT_RULES_def)
  ultimately show ?thesis
    using j unfolding p by (auto simp: parse_inv_def good_rule_def list_all_iff PERMITTED_STATUS_CODES_def)
qed

definition ex_url :: url_parser where
  "ex_url s = Some \<lparr>up_pathname = drop 2 s, up_search = [], up_hash = []\<rparr>"

definition ex_redirects :: string where
  "ex_redirects = ''/a /b'' @ [CHR 0x0A] @ ''/c/* /d/:splat 301'' @ [CHR 0x0A] @ ''/* /index.html''"

lemma ex_statuses: "permittedStatus ''302'' = Some 302" "permittedStatus ''301'' = Some 301"
  by (simp_all add: permittedStatus_def js_number_def number_decimal_def toLowerCase_def lower_char_def is_upper_def
      is_digit_def less_eq_char_def startsWith_def digits_val_def digit_val_def PERMITTED_STATUS_CODES_def)

lemma ex_redirects_parsed:
  "parseRedirects ex_url ex_redirects = Inr \<lparr>
     pd_rules = [\<lparr>rr_from = ''/a'', rr_to = ''/b'', rr_status = 302, rr_lineNumber = 1\<rparr>,
                 \<lparr>rr_from = ''/c/*'', rr_to = ''/d/:splat'', rr_status = 301, rr_lineNumber = 2\<rparr>],
     pd_invalid = [\<lparr>iv_line = Some ''/* /index.html'', iv_lineNumber = Some 3, iv_message = infinite_loop_message\<rparr>]\<rparr>"
  by code_simp

theorem redirects_within_limits_witness:
  "\<exists>p. parseRedirects ex_url ex_redirects = Inr p \<and> length (pd_rules p) \<le> 2100"
  using redirects_within_limits [OF ex_redirects_parsed] ex_redirects_parsed by blast

subsection \<open>What the header parser accepts\<close>

definition good_headers :: "(string \<times> string) list \<Rightarrow> bool" where
  "good_headers hs \<longleftrightarrow> distinct (map fst hs) \<and>
     (\<forall>(n, v) \<in> set hs. n \<noteq> [] \<and> CHR '' '' \<notin> set n \<and> toLowerCase n = n \<and> v \<noteq> [])"

definition header_inv :: "header_state \<Rightarrow> bool" where
  "header_inv st \<longleftrightarrow> length (hs_rules st) \<le> MAX_HEADER_RULES
     \<and> (\<forall>r \<in> set (hs_rules st). isValidRule r \<and> good_headers (hr_headers r))
     \<and> (\<forall>r. hs_rule st = Some r \<longrightarrow> good_headers (hr_headers r))"

lemma header_invalid_sel [simp]:
  "hs_rules (header_invalid l n m st) = hs_rules st" "hs_rule (header_invalid l n m st) = hs_rule st"
  by (simp_all add: header_invalid_def)

lemma good_headers_set:
  assumes "good_headers hs" "name \<noteq> []" "CHR '' '' \<notin> set name" "toLowerCase name = name" "val \<noteq> []"
  shows "good_headers (set_header name val hs)"
proof -
  have "(n, v) \<in> set (AList.update name x hs) \<Longrightarrow> (n, v) \<in> set hs \<or> n = name \<and> v = x" for n v x
    by (induction hs) (auto split: if_splits)
  with assms show ?thesis
    by (fastforce simp: good_headers_def set_header_def distinct_update split: option.split)
qed

lemma close_rule_facts:
  assumes "header_inv st"
  shows "length (hs_rules (close_rule n st)) \<le> Suc (length (hs_rules st))"
    and "\<forall>r \<in> set (hs_rules (close_rule n st)). isValidRule r \<and> good_headers (hr_headers r)"
    and "hs_rule (close_rule n st) = hs_rule st"
proof -
  have "isValidRule (closed_rule r) = isValidRule r" "hr_headers (closed_rule r) = hr_headers r" for r
    by (simp_all add: closed_rule_def isValidRule_def)
  with assms show "\<forall>r \<in> set (hs_rules (close_rule n st)). isValidRule r \<and> good_headers (hr_headers r)"
    by (auto simp: header_inv_def close_rule_def split: option.split)
qed (auto simp: close_rule_def split: option.split)

lemma header_path_line_inv:
  assumes "header_path_line url n i line st = Inr (b, st2)" "header_inv st"
  shows "header_inv st2"
proof (cases "MAX_HEADER_RULES \<le> length (hs_rules st)")
  case True
  with assms show ?thesis by (auto simp: header_path_line_def header_inv_def)
next
  case False
  note c = close_rule_facts [OF assms(2), of "Some (i + 1)"]
  have "hs_rules st2 = hs_rules (close_rule (Some (i + 1)) st)"
    "hs_rule st2 = None \<or> (\<exists>p. hs_rule st2 = Some \<lparr>hr_path = p, hr_headers = [], hr_unset = [], hr_line = line\<rparr>)"
    using assms(1) False
    by (auto simp: header_path_line_def Let_def andThen_def simp del: andThen_eq_Inr split: sum.splits)
  with c(1,2) False show ?thesis by (auto simp: header_inv_def good_headers_def)
qed

lemma header_pair_line_inv: "header_inv st \<Longrightarrow> header_inv (header_pair_line i line st)"
  unfolding header_pair_line_def Let_def
  by (auto simp: header_inv_def intro!: good_headers_set split: option.split)

lemma header_line_inv:
  assumes "header_line url n i raw st = Inr (b, st2)" "header_inv st"
  shows "header_inv st2"
proof -
  have "header_path_line url n i (trim raw) st = Inr (b, st2) \<or> st2 = header_pair_line i (trim raw) st \<or>
    (hs_rules st2 = hs_rules st \<and> (hs_rule st2 = hs_rule st \<or>
       (\<exists>r r'. hs_rule st = Some r \<and> hs_rule st2 = Some r' \<and> hr_headers r' = hr_headers r)))"
    using assms(1) by (auto simp: header_line_def Let_def split: if_splits option.splits)
  with assms(2) header_path_line_inv [OF _ assms(2)] header_pair_line_inv [OF assms(2)]
  show ?thesis by (auto simp: header_inv_def)
qed

lemma header_lines_inv:
  "header_lines url n i lines st = Inr st2 \<Longrightarrow> header_inv st \<Longrightarrow> header_inv st2"
proof (induction lines arbitrary: i st)
  case (Cons raw lines)
  then obtain b st1 where "header_line url n i raw st = Inr (b, st1)"
    "(if b then header_lines url n (i + 1) lines st1 else Inr st1) = Inr st2"
    by auto
  with header_line_inv [OF this(1) Cons.prems(2)] Cons.IH [of "i + 1" st1] show ?case
    by (auto split: if_splits)
qed simp

text \<open>
  From a \<^verbatim>\<open>_headers\<close> file at most 101 rules are accepted, one more than the documented maximum;
  each sets or removes a header, names are in lower case, not empty, without spaces and set once per
  rule, and values are not empty.
\<close>

theorem headers_within_limits:
  assumes "parseHeaders url input = Inr p"
  shows "length (ph_rules p) \<le> 101 \<and>
    (\<forall>r \<in> set (ph_rules p). (hr_headers r \<noteq> [] \<or> hr_unset r \<noteq> []) \<and> distinct (map fst (hr_headers r)) \<and>
       (\<forall>(n, v) \<in> set (hr_headers r). n \<noteq> [] \<and> CHR '' '' \<notin> set n \<and> toLowerCase n = n \<and> v \<noteq> []))"
proof -
  obtain st where st: "header_lines url (length (split_on CHR 0x0A input)) 0 (split_on CHR 0x0A input)
      \<lparr>hs_rules = [], hs_invalid = [], hs_rule = None\<rparr> = Inr st"
    and p: "ph_rules p = hs_rules (close_rule None st)"
    using assms by (auto simp: parseHeaders_def Let_def)
  have inv: "header_inv st" by (rule header_lines_inv [OF st]) (simp add: header_inv_def)
  then have "length (hs_rules st) \<le> 100" by (simp add: header_inv_def MAX_HEADER_RULES_def)
  with close_rule_facts(1,2) [OF inv, of None] show ?thesis
    unfolding p by (auto simp: isValidRule_def good_headers_def)
qed

theorem headers_within_limits_witness:
  "\<exists>p. parseHeaders ex_url (''/a'' @ [CHR 0x0A] @ ''X-B: c'' @ [CHR 0x0A] @ ''! d'') = Inr p \<and> length (ph_rules p) \<le> 101"
proof -
  have "parseHeaders ex_url (''/a'' @ [CHR 0x0A] @ ''X-B: c'' @ [CHR 0x0A] @ ''! d'') =
    Inr \<lparr>ph_rules = [\<lparr>hr_path = ''/a'', hr_headers = [(''x-b'', ''c'')], hr_unset = [''d'']\<rparr>], ph_invalid = []\<rparr>"
    by code_simp
  with headers_within_limits [OF this] show ?thesis by blast
qed

end
