(* ===== verification/PagesHandler.thy ===== *)
theory PagesHandler
  imports PagesMetadata Http
begin

text \<open>
  The Pages asset server, \<^verbatim>\<open>packages/pages-shared/asset-server/handler.ts\<close> and \<^verbatim>\<open>responses.ts\<close>, as the
  development server calls it: without \<open>caches\<close> and \<open>waitUntil\<close>, so there is no preservation cache and
  no early hints.

  The functions of the context (finding, negotiating and fetching assets) and the resolution of a
  redirect target against the URL of the request are parameters. The body of a response says where it
  comes from.
\<close>

subsection \<open>Responses\<close>

datatype 'b page_body = NoBody | TextBody string | AssetBody 'b | AnalyticsBody 'b string

record 'b page_response =
  pg_status :: nat
  pg_headers :: headers_obj
  pg_body :: "'b page_body"

text \<open>The length of the match of \<^verbatim>\<open>\/|%2F|%2f|%5C|%5c|%09|\s|\\\<close> at the start, 0 if there is none.\<close>

definition slash_like :: "string \<Rightarrow> nat" where
  "slash_like s =
     (case s of
        [] \<Rightarrow> 0
      | c # _ \<Rightarrow>
          if c = CHR ''/'' \<or> c = CHR 0x5C \<or> is_space c then 1
          else if take 3 s \<in> {''%2F'', ''%2f'', ''%5C'', ''%5c'', ''%09''} then 3 else 0)"

function drop_slashes :: "string \<Rightarrow> string" where
  "drop_slashes s = (if slash_like s = 0 then s else drop_slashes (drop (slash_like s) s))"
  by pat_completeness auto
termination
  by (relation "measure length") (auto simp: slash_like_def split: list.splits if_splits)

declare drop_slashes.simps [simp del]

definition stripLeadingDoubleSlashes :: "string \<Rightarrow> string" where
  "stripLeadingDoubleSlashes location =
     (if slash_like location = 0 then location else CHR ''/'' # drop_slashes location)"

text \<open>A text body gives the response a content type.\<close>

definition redirectResponse :: "nat \<Rightarrow> string \<Rightarrow> bool \<Rightarrow> bool \<Rightarrow> 'b page_response res" where
  "redirectResponse st location0 withText preventLeadingDoubleSlash =
     (let location = (if preventLeadingDoubleSlash then stripLeadingDoubleSlashes location0 else location0) in
      andThen (headers_new [(''location'', location)]) (\<lambda>hs.
        Inr \<lparr>pg_status = st,
             pg_headers = hs @ (if withText then [(''content-type'', ''text/plain;charset=UTF-8'')] else []),
             pg_body = (if withText then TextBody (''Redirecting to '' @ location) else NoBody)\<rparr>))"

definition plain_response :: "nat \<Rightarrow> 'b page_response" where
  "plain_response st = \<lparr>pg_status = st, pg_headers = [], pg_body = NoBody\<rparr>"

subsection \<open>The context\<close>

record request_url =
  ru_host :: string
  ru_hostname :: string
  ru_pathname :: string
  ru_search :: string
  ru_origin :: string

record target_url =
  tu_origin :: string
  tu_pathname :: string
  tu_search :: string
  tu_hash :: string
  tu_href :: string

record page_request =
  pq_method :: string
  pq_url :: request_url
  pq_headers :: headers_obj

datatype handler_headers =
    HeadersV1 "(string \<times> (string \<times> string) list) list"
  | HeadersV2 "(string \<times> headerEntry) list"
  | HeadersOther

text \<open>
  \<open>hc_negotiate\<close> is \<^const>\<open>None\<close> if it throws, otherwise the encoding (empty for none); \<open>hc_fetch\<close> is
  \<^const>\<open>None\<close> if it throws; \<open>hc_resolve\<close> is \<open>new URL(target, request.url)\<close>.
\<close>

record ('e, 'b) handler_context =
  hc_redirects :: "redirectsMetadata option"
  hc_headers :: "handler_headers option"
  hc_analytics :: "(nat \<times> string) option"
  hc_deploymentId :: "string option"
  hc_serverEnv :: "string option"
  hc_deploymentIdHeader :: bool
  hc_find :: "string \<Rightarrow> 'e option"
  hc_assetKey :: "'e \<Rightarrow> string \<Rightarrow> string"
  hc_negotiate :: "'e \<Rightarrow> string option"
  hc_fetch :: "string \<Rightarrow> ('b \<times> string) option"
  hc_resolve :: "string \<Rightarrow> target_url option"

definition normaliseHeaders_v2 :: "handler_headers \<Rightarrow> (string \<times> headerEntry) list" where
  "normaliseHeaders_v2 h =
     (case h of
        HeadersV2 rules \<Rightarrow> rules
      | HeadersV1 rules \<Rightarrow> map (\<lambda>(k, s). (k, \<lparr>he_set = Some s, he_unset = None\<rparr>)) rules
      | HeadersOther \<Rightarrow> [])"

subsection \<open>Redirect rules\<close>

definition rules_request :: "request_url \<Rightarrow> url_request" where
  "rules_request u = \<lparr>ur_hostname = ru_hostname u, ur_pathname = ru_pathname u\<rparr>"

definition staticRedirectsMatcher :: "(string \<times> staticRedirect) list \<Rightarrow> request_url \<Rightarrow> staticRedirect option" where
  "staticRedirectsMatcher staticRules u =
     (case (map_of staticRules (''https://'' @ ru_host u @ ru_pathname u), map_of staticRules (ru_pathname u)) of
        (Some withHost, Some withoutHost) \<Rightarrow>
          Some (if sr_lineNumber withHost < sr_lineNumber withoutHost then withHost else withoutHost)
      | (Some withHost, None) \<Rightarrow> Some withHost
      | (None, withoutHost) \<Rightarrow> withoutHost)"

definition dynamicRedirects :: "(string \<times> dynamicRedirect) list \<Rightarrow> request_url \<Rightarrow> (nat \<times> string) list" where
  "dynamicRedirects rules u =
     generateRulesMatcher rules (\<lambda>m reps. (dyn_status m, replacer (dyn_to m) reps)) (rules_request u)"

definition redirectMatch :: "redirectsMetadata option \<Rightarrow> request_url \<Rightarrow> (nat \<times> string) option" where
  "redirectMatch redirects u =
     (case redirects of
        None \<Rightarrow> None
      | Some r \<Rightarrow>
          if rd_version r \<noteq> REDIRECTS_VERSION then None
          else (case staticRedirectsMatcher (rd_static r) u of
                  Some s \<Rightarrow> Some (sr_status s, sr_to s)
                | None \<Rightarrow> (case dynamicRedirects (rd_rules r) u of [] \<Rightarrow> None | m # _ \<Rightarrow> Some m)))"

definition redirectLocation :: "request_url \<Rightarrow> target_url \<Rightarrow> string" where
  "redirectLocation u d =
     (if tu_origin d = ru_origin u
      then tu_pathname d @ (if tu_search d \<noteq> [] then tu_search d else ru_search u) @ tu_hash d
      else tu_href d @ (if tu_search d \<noteq> [] then [] else ru_search u) @ tu_hash d)"

definition redirectRuleResponse :: "nat \<Rightarrow> string \<Rightarrow> 'b page_response res" where
  "redirectRuleResponse status location =
     (if status = 301 then redirectResponse 301 location True False
      else if status = 303 then redirectResponse 303 location True False
      else if status = 307 then redirectResponse 307 location True False
      else if status = 308 then redirectResponse 308 location False False
      else redirectResponse 302 location True False)"

subsection \<open>Routing to assets\<close>

datatype 'e route = Serve 'e | Redirect string | NotFound

text \<open>\<open>p.slice(1, -k)\<close>.\<close>

definition slice1 :: "string \<Rightarrow> nat \<Rightarrow> string" where
  "slice1 p k = take (length p - k - 1) (drop 1 p)"

definition strip_end :: "nat \<Rightarrow> string \<Rightarrow> string" where
  "strip_end k p = take (length p - k) p"

definition asset_route :: "(string \<Rightarrow> 'e option) \<Rightarrow> string \<Rightarrow> string \<Rightarrow> 'e route" where
  "asset_route findAsset p search =
     (if endsWith p ''/'' then
        (case findAsset (p @ ''index.html'') of
           Some e \<Rightarrow> Serve e
         | None \<Rightarrow>
             if endsWith p ''/index/'' then Redirect (''/'' @ slice1 p 6 @ search)
             else (case findAsset (strip_end 1 p @ ''.html'') of
                     Some _ \<Rightarrow> Redirect (''/'' @ slice1 p 1 @ search)
                   | None \<Rightarrow> NotFound))
      else
        (case findAsset p of
           Some e \<Rightarrow>
             if endsWith p ''.html'' then
               (let extensionlessPath = strip_end 5 p in
                if endsWith extensionlessPath ''/index'' then
                  Redirect (strip_end 6 extensionlessPath @ ''/'' @ search)
                else if findAsset extensionlessPath \<noteq> None \<or> extensionlessPath = ''/'' then Serve e
                else Redirect (extensionlessPath @ search))
             else Serve e
         | None \<Rightarrow>
             if endsWith p ''/index'' then Redirect (''/'' @ slice1 p 5 @ search)
             else (case findAsset (p @ ''.html'') of
                     Some e \<Rightarrow> Serve e
                   | None \<Rightarrow>
                       (case findAsset (p @ ''/index.html'') of
                          Some _ \<Rightarrow> Redirect (p @ ''/'' @ search)
                        | None \<Rightarrow> NotFound))))"

subsection \<open>Serving an asset\<close>

definition CACHE_CONTROL_BROWSER_PAGE :: string where
  "CACHE_CONTROL_BROWSER_PAGE = ''public, max-age=0, must-revalidate''"

definition isCacheable_page :: "page_request \<Rightarrow> bool" where
  "isCacheable_page rq \<longleftrightarrow> \<not> headers_has (pq_headers rq) ''authorization'' \<and> \<not> headers_has (pq_headers rq) ''range''"

definition isPreview :: "request_url \<Rightarrow> bool" where
  "isPreview u \<longleftrightarrow> endsWith (ru_hostname u) ''.pages.dev'' \<and> 3 < length (split_on CHR ''.'' (ru_hostname u))"

definition isHTMLContentType :: "string \<Rightarrow> bool" where
  "isHTMLContentType contentType = startsWith (toLowerCase contentType) ''text/html''"

definition assetHeaders ::
  "('e, 'b) handler_context \<Rightarrow> string \<Rightarrow> string \<Rightarrow> string \<Rightarrow> (string \<times> string) list"
where
  "assetHeaders ctx etag contentType encoding =
     [(''etag'', etag), (''content-type'', contentType)]
     @ (case hc_serverEnv ctx of None \<Rightarrow> [] | Some e \<Rightarrow> if e = [] then [] else [(''x-server-env'', e)])
     @ (case hc_deploymentId ctx of
          None \<Rightarrow> []
        | Some d \<Rightarrow> if hc_deploymentIdHeader ctx \<and> d \<noteq> [] then [(''x-deployment-id'', d)] else [])
     @ (if encoding \<noteq> [] then [(''cache-control'', ''no-transform''), (''content-encoding'', encoding)] else [])"

text \<open>The body of the response; the analytics script is added to pages.\<close>

definition assetBody :: "('e, 'b) handler_context \<Rightarrow> page_request \<Rightarrow> 'b \<Rightarrow> string \<Rightarrow> 'b page_body" where
  "assetBody ctx rq body contentType =
     (if pq_method rq = ''HEAD'' then NoBody
      else (case hc_analytics ctx of
              Some (v, token) \<Rightarrow>
                if isHTMLContentType contentType \<and> v = ANALYTICS_VERSION
                then AnalyticsBody body token else AssetBody body
            | None \<Rightarrow> AssetBody body))"

definition serveAsset ::
  "('e, 'b) handler_context \<Rightarrow> page_request \<Rightarrow> 'e \<Rightarrow> 'b page_response res"
where
  "serveAsset ctx rq entry =
     (case hc_negotiate ctx entry of
        None \<Rightarrow> Inr (plain_response 406)
      | Some encoding \<Rightarrow>
          (let assetKey = hc_assetKey ctx entry encoding;
               etag = [CHR 0x22] @ assetKey @ [CHR 0x22];
               ifNoneMatch = headers_get (pq_headers rq) ''if-none-match''
           in if ifNoneMatch = Some (''W/'' @ etag) \<or> ifNoneMatch = Some etag then Inr (plain_response 304)
              else
                (case hc_fetch ctx assetKey of
                   None \<Rightarrow> Inr (plain_response 500)
                 | Some (body, contentType) \<Rightarrow>
                     (case andThen (headers_new (assetHeaders ctx etag contentType encoding)) (\<lambda>hs.
                            andThen (if isCacheable_page rq then headers_append hs ''cache-control'' CACHE_CONTROL_BROWSER_PAGE
                                     else Inr hs) (\<lambda>hs1.
                            if isPreview (pq_url rq) then headers_set hs1 ''x-robots-tag'' ''noindex'' else Inr hs1)) of
                        Inl _ \<Rightarrow> Inr (plain_response 500)
                      | Inr hs \<Rightarrow>
                          Inr \<lparr>pg_status = 200, pg_headers = hs,
                            pg_body = assetBody ctx rq body contentType\<rparr>))))"

subsection \<open>Not found\<close>

text \<open>\<open>cwd.slice(0, cwd.lastIndexOf("/"))\<close>; without a slash the index is \<open>-1\<close>.\<close>

definition parent_dir :: "string \<Rightarrow> string" where
  "parent_dir cwd =
     (if CHR ''/'' \<in> set cwd then take (length cwd - length (takeWhile (\<lambda>c. c \<noteq> CHR ''/'') (rev cwd)) - 1) cwd
      else butlast cwd)"

lemma parent_dir_shorter: "cwd \<noteq> [] \<Longrightarrow> length (parent_dir cwd) < length cwd"
  by (auto simp: parent_dir_def intro!: diff_less)

function notFound_walk :: "(string \<Rightarrow> 'e option) \<Rightarrow> string \<Rightarrow> 'e option" where
  "notFound_walk findAsset cwd =
     (if cwd = [] then None
      else (case findAsset (parent_dir cwd @ ''/404.html'') of
              Some e \<Rightarrow> Some e
            | None \<Rightarrow> notFound_walk findAsset (parent_dir cwd)))"
  by pat_completeness auto
termination
  by (relation "measure (\<lambda>(f, cwd). length cwd)") (auto simp: parent_dir_shorter)

declare notFound_walk.simps [simp del]

definition notFound ::
  "('e, 'b) handler_context \<Rightarrow> page_request \<Rightarrow> string \<Rightarrow> 'b page_response res"
where
  "notFound ctx rq pathname =
     (case notFound_walk (hc_find ctx) pathname of
        Some entry \<Rightarrow>
          (case hc_negotiate ctx entry of
             None \<Rightarrow> Inr (plain_response 406)
           | Some encoding \<Rightarrow>
               (case hc_fetch ctx (hc_assetKey ctx entry encoding) of
                  None \<Rightarrow> Inr (plain_response 500)
                | Some (body, contentType) \<Rightarrow>
                    (case headers_set [] ''content-type'' contentType of
                       Inl _ \<Rightarrow> Inr (plain_response 500)
                     | Inr hs \<Rightarrow> Inr \<lparr>pg_status = 404, pg_headers = hs, pg_body = AssetBody body\<rparr>)))
      | None \<Rightarrow>
          (case hc_find ctx ''/index.html'' of
             Some entry \<Rightarrow> serveAsset ctx rq entry
           | None \<Rightarrow> Inr (plain_response 404)))"

subsection \<open>The response without headers\<close>

definition assetResponse ::
  "('e, 'b) handler_context \<Rightarrow> page_request \<Rightarrow> string \<Rightarrow> 'b page_response res"
where
  "assetResponse ctx rq pathname0 =
     (if toLowerCase (pq_method rq) \<notin> {''get'', ''head''} then Inr (plain_response 405)
      else
        (let pathname = (case decodeURIComponent pathname0 of None \<Rightarrow> pathname0 | Some p \<Rightarrow> p) in
         case asset_route (hc_find ctx) pathname (ru_search (pq_url rq)) of
           Serve e \<Rightarrow> serveAsset ctx rq e
         | Redirect location \<Rightarrow> redirectResponse 308 location False True
         | NotFound \<Rightarrow> notFound ctx rq pathname))"

definition generateResponse :: "('e, 'b) handler_context \<Rightarrow> page_request \<Rightarrow> 'b page_response res" where
  "generateResponse ctx rq =
     (case redirectMatch (hc_redirects ctx) (pq_url rq) of
        None \<Rightarrow> assetResponse ctx rq (ru_pathname (pq_url rq))
      | Some (status, to) \<Rightarrow>
          (case hc_resolve ctx to of
             None \<Rightarrow> Inl TypeError
           | Some d \<Rightarrow>
               if status = 200 then assetResponse ctx rq (tu_pathname d)
               else redirectRuleResponse status (redirectLocation (pq_url rq) d)))"

subsection \<open>Attaching headers\<close>

definition isNullBodyStatus :: "nat \<Rightarrow> bool" where
  "isNullBodyStatus st \<longleftrightarrow> st \<in> {101, 204, 205, 304}"

definition extraHeaders :: "headers_obj \<Rightarrow> (string \<times> string) list" where
  "extraHeaders existing =
     [(''access-control-allow-origin'', ''*''), (''referrer-policy'', ''strict-origin-when-cross-origin'')]
     @ (if headers_has existing ''content-type'' then [(''x-content-type-options'', ''nosniff'')] else [])"

text \<open>The object of the entries: a later entry replaces an earlier one of the same name.\<close>

definition mergedHeaders :: "headers_obj \<Rightarrow> headers_obj res" where
  "mergedHeaders existing =
     headers_new (fold (\<lambda>(k, v) m. AList.update k v m) (headers_entries existing @ extraHeaders existing) [])"

text \<open>One matched rule; the second component is \<open>setMap\<close>.\<close>

fun set_headers ::
  "(string \<times> string) list \<Rightarrow> headers_obj \<times> string list \<Rightarrow> (headers_obj \<times> string list) res"
where
  "set_headers [] st = Inr st"
| "set_headers ((key, v) # kvs) (hs, setMap) =
     (if toLowerCase key \<in> set setMap
      then andThen (headers_append hs key v) (\<lambda>hs1. set_headers kvs (hs1, setMap))
      else andThen (headers_set hs key v) (\<lambda>hs1. set_headers kvs (hs1, toLowerCase key # setMap)))"

text \<open>\<open>headers.delete\<close> throws for an invalid name.\<close>

fun unset_headers :: "string list \<Rightarrow> headers_obj \<Rightarrow> headers_obj res" where
  "unset_headers [] hs = Inr hs"
| "unset_headers (key # keys) hs =
     (if valid_name key then unset_headers keys (headers_delete hs key) else Inl TypeError)"

fun apply_rules ::
  "((string \<times> string) list \<times> string list) list \<Rightarrow> headers_obj \<times> string list \<Rightarrow> headers_obj res"
where
  "apply_rules [] (hs, setMap) = Inr hs"
| "apply_rules ((sets, unsets) # ms) (hs, setMap) =
     andThen (unset_headers unsets hs) (\<lambda>hs1.
     andThen (set_headers sets (hs1, setMap)) (apply_rules ms))"

definition headerMatches ::
  "(string \<times> headerEntry) list \<Rightarrow> request_url \<Rightarrow> ((string \<times> string) list \<times> string list) list"
where
  "headerMatches rules u =
     generateRulesMatcher rules
       (\<lambda>e reps. (map (\<lambda>(k, v). (k, replacer v reps)) (case he_set e of None \<Rightarrow> [] | Some s \<Rightarrow> s),
                  case he_unset e of None \<Rightarrow> [] | Some l \<Rightarrow> l))
       (rules_request u)"

definition attachHeaders ::
  "('e, 'b) handler_context \<Rightarrow> page_request \<Rightarrow> 'b page_response \<Rightarrow> 'b page_response res"
where
  "attachHeaders ctx rq rs =
     andThen (mergedHeaders (pg_headers rs)) (\<lambda>hs.
     andThen (apply_rules
        (headerMatches (case hc_headers ctx of None \<Rightarrow> [] | Some h \<Rightarrow> normaliseHeaders_v2 h) (pq_url rq)) (hs, []))
       (\<lambda>hs1.
     Inr \<lparr>pg_status = pg_status rs, pg_headers = hs1,
          pg_body = (if isNullBodyStatus (pg_status rs) then NoBody else pg_body rs)\<rparr>))"

definition generateHandler :: "('e, 'b) handler_context \<Rightarrow> page_request \<Rightarrow> 'b page_response res" where
  "generateHandler ctx rq =
     andThen (generateResponse ctx rq) (\<lambda>rs.
     if 500 \<le> pg_status rs then Inr rs
     else
       andThen (attachHeaders ctx rq rs) (\<lambda>rs1.
       if pg_status rs1 = 404 then
         andThen (headers_append (headers_delete (pg_headers rs1) ''cache-control'') ''cache-control'' ''no-store'')
           (\<lambda>hs. Inr (rs1\<lparr>pg_headers := hs\<rparr>))
       else Inr rs1))"

end
