(* ===== verification/PagesProperties.thy ===== *)
theory PagesProperties
  imports RulesProperties PagesHandler
begin

text \<open>
  The asset server as a whole: it applies the first rule of the \<^verbatim>\<open>_redirects\<close> file that matches, its own
  redirects stay on the host and come to an end, and a response for a missing asset is never cached.
\<close>

subsection \<open>The first matching rule wins\<close>

lemma update_fresh: "k \<notin> fst ` set al \<Longrightarrow> AList.update k v al = al @ [(k, v)]"
  by (induction al) auto

definition static_entry :: "redirectRule \<Rightarrow> string \<times> staticRedirect" where
  "static_entry r = (rr_from r, \<lparr>sr_status = rr_status r, sr_to = rr_to r, sr_lineNumber = rr_lineNumber r\<rparr>)"

definition dynamic_entry :: "redirectRule \<Rightarrow> string \<times> dynamicRedirect" where
  "dynamic_entry r = (rr_from r, \<lparr>dyn_status = rr_status r, dyn_to = rr_to r\<rparr>)"

lemma split_redirects_dynamic:
  "distinct (map fst dy @ map rr_from rs) \<Longrightarrow>
     split_redirects rs False st dy = (st, dy @ map dynamic_entry rs)"
  by (induction rs arbitrary: dy) (auto simp: update_fresh dynamic_entry_def)

lemma split_redirects_parts:
  "distinct (map fst st @ map rr_from rs) \<Longrightarrow>
     split_redirects rs True st [] =
       (st @ map static_entry (takeWhile static_rule rs), map dynamic_entry (dropWhile static_rule rs))"
proof (induction rs arbitrary: st)
  case (Cons r rs)
  show ?case
  proof (cases "static_rule r")
    case True
    with Cons.prems Cons.IH [of "st @ [static_entry r]"] show ?thesis
      by (auto simp: update_fresh static_entry_def)
  next
    case False
    with Cons.prems split_redirects_dynamic [of "[dynamic_entry r]" rs st] show ?thesis
      by (auto simp: dynamic_entry_def)
  qed
qed simp

lemma map_of_static_entries:
  "map_of (map static_entry rs) k = map_option (snd \<circ> static_entry) (find (\<lambda>r. rr_from r = k) rs)"
  by (induction rs) (auto simp: static_entry_def)

text \<open>The target of the first rule of the file that matches.\<close>

definition first_redirect :: "redirectRule list \<Rightarrow> request_url \<Rightarrow> (nat \<times> string) option" where
  "first_redirect rules u =
     first_some (\<lambda>r. map_option (\<lambda>reps. (rr_status r, replacer (rr_to r) reps))
       (matchRule (rr_from r) (rules_request u))) rules"

lemma first_some_append:
  "first_some f (xs @ ys) = (case first_some f xs of None \<Rightarrow> first_some f ys | Some y \<Rightarrow> Some y)"
  by (induction xs) (auto split: option.split)

lemma first_some_map_filter:
  "first_some f xs = (case List.map_filter f xs of [] \<Rightarrow> None | y # _ \<Rightarrow> Some y)"
  by (induction xs) (auto simp: List.map_filter_simps split: option.split)

lemma first_redirect_static:
  assumes "\<forall>r \<in> set rs. static_rule r \<and> startsWith (rr_from r) ''/''"
  shows "first_redirect rs u =
    map_option (\<lambda>r. (rr_status r, rr_to r)) (find (\<lambda>r. rr_from r = ru_pathname u) rs)"
  using assms
  by (induction rs) (auto simp: first_redirect_def matchRule_static rules_request_def replacer_def)

lemma dynamicRedirects_first:
  "(case dynamicRedirects (map dynamic_entry rs) u of [] \<Rightarrow> None | m # _ \<Rightarrow> Some m) = first_redirect rs u"
proof -
  have "dynamicRedirects (map dynamic_entry rs) u =
      List.map_filter (\<lambda>r. map_option (\<lambda>reps. (rr_status r, replacer (rr_to r) reps))
        (matchRule (rr_from r) (rules_request u))) rs"
    by (simp add: dynamicRedirects_def generateRulesMatcher_def dynamic_entry_def List.map_filter_def
        filter_map o_def)
  then show ?thesis by (simp add: first_redirect_def first_some_map_filter)
qed

lemma validateUrl_relative:
  assumes "validateUrl url token True dp False False = Inr (Inr p)"
    and "\<And>s u. url s = Some u \<Longrightarrow> startsWith (up_pathname u) ''/''"
  shows "startsWith p ''/''"
  using assms by (auto simp: validateUrl_def extractPathname_def Let_def split: option.splits if_splits)

lemma parseRedirects_paths:
  assumes "parseRedirects url input = Inr p"
    and "\<And>s u. url s = Some u \<Longrightarrow> startsWith (up_pathname u) ''/''"
  shows "\<forall>r \<in> set (pd_rules p). startsWith (rr_from r) ''/''"
proof -
  obtain st where st: "redirect_lines url (length (split_on CHR 0x0A input)) 0 (split_on CHR 0x0A input) init_state = Inr st"
    and p: "pd_rules p = pt_rules st"
    using assms by (auto simp: parseRedirects_def Let_def)
  show ?thesis unfolding p
    by (rule redirect_lines_paths [OF st, where P = "\<lambda>s. startsWith s ''/''"])
      (use validateUrl_relative [OF _ assms(2)] in \<open>auto simp: init_state_def\<close>)
qed

text \<open>
  C35: The asset server applies the first redirect of the \<^verbatim>\<open>_redirects\<close> file whose rule matches the
  request: looking up the static rules before trying the dynamic ones gives the same redirect as
  going through the file from the top.
\<close>

theorem redirects_first_match:
  assumes "parseRedirects url input = Inr p"
    and "\<And>s u. url s = Some u \<Longrightarrow> startsWith (up_pathname u) ''/''"
  shows "redirectMatch (constructRedirects (Some p)) u = first_redirect (pd_rules p) u"
proof (cases "pd_rules p = []")
  case True
  then show ?thesis by (simp add: constructRedirects_def redirectMatch_def first_redirect_def)
next
  case False
  let ?S = "takeWhile static_rule (pd_rules p)" and ?D = "dropWhile static_rule (pd_rules p)"
  note slash = parseRedirects_paths [OF assms]
  have md: "constructRedirects (Some p) = Some \<lparr>rd_version = REDIRECTS_VERSION,
      rd_static = map static_entry ?S, rd_rules = map dynamic_entry ?D\<rparr>"
    using split_redirects_parts [of "[]" "pd_rules p"] redirects_within_limits [OF assms(1)] False
    by (simp add: constructRedirects_def)
  have S: "\<forall>r \<in> set ?S. static_rule r \<and> startsWith (rr_from r) ''/''"
    using slash by (auto dest: set_takeWhileD)
  have "rr_from r \<noteq> ''https://'' @ s" if "r \<in> set ?S" for r s
    using S that by (cases "rr_from r") (auto simp: startsWith_def)
  then have "map_of (map static_entry ?S) (''https://'' @ s) = None" for s
    unfolding map_of_static_entries by (auto simp: find_None_iff)
  then have "staticRedirectsMatcher (map static_entry ?S) u =
      map_option (snd \<circ> static_entry) (find (\<lambda>r. rr_from r = ru_pathname u) ?S)"
    by (simp add: staticRedirectsMatcher_def map_of_static_entries)
  then have "redirectMatch (constructRedirects (Some p)) u =
      (case first_redirect ?S u of None \<Rightarrow> first_redirect ?D u | Some m \<Rightarrow> Some m)"
    unfolding md first_redirect_static [OF S] dynamicRedirects_first [of ?D, symmetric]
    by (simp add: redirectMatch_def static_entry_def split: option.split)
  also have "\<dots> = first_redirect (?S @ ?D) u" unfolding first_redirect_def first_some_append ..
  finally show ?thesis by simp
qed

theorem redirects_first_match_witness:
  "redirectMatch (constructRedirects (Some \<lparr>
     pd_rules = [\<lparr>rr_from = ''/a'', rr_to = ''/b'', rr_status = 302, rr_lineNumber = 1\<rparr>], pd_invalid = []\<rparr>))
     \<lparr>ru_host = ''h'', ru_hostname = ''h'', ru_pathname = ''/a'', ru_search = [], ru_origin = ''https://h''\<rparr>
   = Some (302, ''/b'')"
proof -
  let ?url = "\<lambda>s. if s = ''///a'' \<or> s = ''///b'' then Some \<lparr>up_pathname = drop 2 s, up_search = [], up_hash = []\<rparr> else None"
  have p: "parseRedirects ?url ''/a /b'' = Inr \<lparr>
     pd_rules = [\<lparr>rr_from = ''/a'', rr_to = ''/b'', rr_status = 302, rr_lineNumber = 1\<rparr>], pd_invalid = []\<rparr>"
    by code_simp
  have "startsWith (up_pathname u) ''/''" if "?url s = Some u" for s u
    using that by (auto simp: startsWith_def split: if_splits)
  from redirects_first_match [OF p this, where u = "\<lparr>ru_host = ''h'', ru_hostname = ''h'', ru_pathname = ''/a'',
      ru_search = [], ru_origin = ''https://h''\<rparr>"]
  show ?thesis
    by (simp add: first_redirect_def matchRule_static is_static_def has_splat_def startsWith_def
        rules_request_def replacer_def)
qed

subsection \<open>Redirects of the server stay on the host\<close>

lemma slash_like_drop_slashes [simp]: "slash_like (drop_slashes s) = 0"
  by (induction s rule: drop_slashes.induct) (subst drop_slashes.simps, simp)

lemma drop_slashes_fixed [simp]: "slash_like s = 0 \<Longrightarrow> drop_slashes s = s"
  by (subst drop_slashes.simps) simp

lemma slash_like_slash [simp]: "slash_like (CHR ''/'' # s) = 1"
  by (simp add: slash_like_def)

lemma startsWith_slash_iff: "startsWith s ''/'' \<longleftrightarrow> (\<exists>r. s = CHR ''/'' # r)"
  by (cases s) (auto simp: startsWith_def)

lemma ends_longer:
  assumes "endsWith p t" "startsWith p ''/''" "t \<noteq> []" "hd t \<noteq> CHR ''/''"
  shows "length t < length p"
proof -
  obtain q where p: "p = q @ t" using assms(1) by (auto simp: endsWith_iff_suffix suffix_def)
  with assms(2-4) have "q \<noteq> []" by (cases t) (auto simp: startsWith_slash_iff)
  with p show ?thesis by simp
qed

lemma strip_end_slash: "startsWith p ''/'' \<Longrightarrow> k < length p \<Longrightarrow> startsWith (strip_end k p @ s) ''/''"
  by (auto simp: startsWith_slash_iff strip_end_def take_Cons')

lemma strip_end_slash': "startsWith p ''/'' \<Longrightarrow> startsWith (strip_end k p @ ''/'' @ s) ''/''"
  by (auto simp: startsWith_slash_iff strip_end_def take_Cons')

lemma asset_route_redirect:
  assumes "asset_route f p search = Redirect location"
  shows "(endsWith p ''/index/'' \<and> location = ''/'' @ slice1 p 6 @ search) \<or>
    (endsWith p ''/'' \<and> f (strip_end 1 p @ ''.html'') \<noteq> None \<and> location = ''/'' @ slice1 p 1 @ search) \<or>
    (endsWith p ''/index'' \<and> location = ''/'' @ slice1 p 5 @ search) \<or>
    (endsWith p ''.html'' \<and> endsWith (strip_end 5 p) ''/index'' \<and>
       location = strip_end 6 (strip_end 5 p) @ ''/'' @ search) \<or>
    (endsWith p ''.html'' \<and> location = strip_end 5 p @ search) \<or>
    (\<not> endsWith p ''/'' \<and> f (p @ ''/index.html'') \<noteq> None \<and> location = p @ ''/'' @ search)"
  using assms unfolding asset_route_def Let_def
  by (simp only: split: option.splits if_splits) auto

lemma asset_route_slash:
  assumes "asset_route f p search = Redirect location" "startsWith p ''/''"
  shows "startsWith location ''/''"
proof -
  have html: "5 < length p" if "endsWith p ''.html''"
    using ends_longer [OF that assms(2)] by simp
  have ext: "startsWith (strip_end 5 p) ''/''" if "endsWith p ''.html''"
    using strip_end_slash [OF assms(2) html [OF that], of "[]"] by simp
  have "startsWith (p @ ''/'' @ search) ''/''" using assms(2) by (auto simp: startsWith_slash_iff)
  moreover have "startsWith (''/'' @ s) ''/''" for s by (simp add: startsWith_slash_iff)
  ultimately show ?thesis
    using asset_route_redirect [OF assms(1)] strip_end_slash [OF assms(2) html] strip_end_slash' [OF ext]
    by metis
qed

lemma no_second_slash:
  assumes "slash_like r = 0"
  shows "(\<forall>c t. r = c # t \<longrightarrow> c \<noteq> CHR ''/'' \<and> c \<noteq> CHR 0x5C \<and> \<not> is_space c) \<and>
    (\<forall>e \<in> {''%2F'', ''%2f'', ''%5C'', ''%5c'', ''%09''}. \<not> startsWith r e)"
proof (cases r)
  case (Cons c t)
  then have c: "c \<noteq> CHR ''/''" "c \<noteq> CHR 0x5C" "\<not> is_space c"
    and e: "take 3 r \<notin> {''%2F'', ''%2f'', ''%5C'', ''%5c'', ''%09''}"
    using assms by (auto simp: slash_like_def split: if_splits)
  have "length e = 3" if "e \<in> {''%2F'', ''%2f'', ''%5C'', ''%5c'', ''%09''}" for e :: string using that by auto
  then have "\<not> startsWith r e" if "e \<in> {''%2F'', ''%2f'', ''%5C'', ''%5c'', ''%09''}" for e
    using e that by (metis startsWith_def)
  with c Cons show ?thesis by blast
qed (auto simp: startsWith_def)

text \<open>
  C36: A redirect the asset server makes by itself, to the canonical URL of an asset, keeps the host: its
  location is a slash followed by nothing that a browser would take for a second slash.
\<close>

theorem asset_redirects_stay_on_host:
  assumes "asset_route findAsset p search = Redirect location" and "startsWith p ''/''"
  shows "\<exists>r. stripLeadingDoubleSlashes location = CHR ''/'' # r \<and>
    (\<forall>c t. r = c # t \<longrightarrow> c \<noteq> CHR ''/'' \<and> c \<noteq> CHR 0x5C \<and> \<not> is_space c) \<and>
    (\<forall>e \<in> {''%2F'', ''%2f'', ''%5C'', ''%5c'', ''%09''}. \<not> startsWith r e)"
proof -
  obtain r where "location = CHR ''/'' # r"
    using asset_route_slash [OF assms] by (auto simp: startsWith_slash_iff)
  then have "stripLeadingDoubleSlashes location = CHR ''/'' # drop_slashes location"
    by (simp add: stripLeadingDoubleSlashes_def)
  then show ?thesis using slash_like_drop_slashes [of location] no_second_slash by blast
qed

theorem asset_redirects_stay_on_host_witness:
  "\<exists>r. stripLeadingDoubleSlashes ''//evil.com/a'' = CHR ''/'' # r \<and> \<not> startsWith r ''%2F''"
proof -
  let ?f = "\<lambda>p. if p = ''//evil.com/a.html'' then Some () else None"
  have "asset_route ?f ''//evil.com/a.html'' [] = Redirect ''//evil.com/a''" by code_simp
  from asset_redirects_stay_on_host [OF this] show ?thesis by (auto simp: startsWith_def)
qed

subsection \<open>Following the redirects of the server ends\<close>

text \<open>
  A client that follows redirects, for paths and locations that the URL parser and
  \<open>decodeURIComponent\<close> leave as they are.
\<close>

fun follow :: "(string \<Rightarrow> 'e option) \<Rightarrow> nat \<Rightarrow> string \<Rightarrow> 'e route option" where
  "follow f 0 p = None"
| "follow f (Suc n) p =
     (case asset_route f p [] of
        Redirect location \<Rightarrow> follow f n (stripLeadingDoubleSlashes location)
      | r \<Rightarrow> Some r)"

lemma follow_mono: "follow f n p = Some r \<Longrightarrow> n \<le> m \<Longrightarrow> follow f m p = Some r"
proof (induction f n p arbitrary: m rule: follow.induct)
  case (2 f n p)
  then obtain k where "m = Suc k" "n \<le> k" by (cases m) auto
  with 2 show ?case by (auto split: route.splits)
qed simp

lemma length_drop_slashes: "length (drop_slashes s) \<le> length s"
  by (induction s rule: drop_slashes.induct) (subst drop_slashes.simps, auto)

lemma strip_slash: "stripLeadingDoubleSlashes (CHR ''/'' # s) = CHR ''/'' # drop_slashes s"
  by (simp add: stripLeadingDoubleSlashes_def) (subst drop_slashes.simps, simp)

lemma slash_like_snoc:
  assumes "slash_like r = 0" "r \<noteq> []"
  shows "slash_like (r @ ''/'') = 0"
proof -
  obtain c s where r: "r = c # s" using assms(2) by (cases r) auto
  show ?thesis
    using assms(1) unfolding r by (cases s; cases "tl s") (auto simp: slash_like_def split: if_splits)
qed

lemma slice1_length: "length (slice1 p k) = length p - k - 1"
  by (simp add: slice1_def)

text \<open>
  The root is redirected, to itself, only if there is an asset for \<^verbatim>\<open>.html\<close> and no index.
\<close>

definition root_ends :: "(string \<Rightarrow> 'e option) \<Rightarrow> bool" where
  "root_ends f \<longleftrightarrow> f ''.html'' = None \<or> f ''/index.html'' \<noteq> None"

lemma root_route: "asset_route f ''/'' [] = Redirect location \<Longrightarrow> \<not> root_ends f"
  by (auto simp: root_ends_def asset_route_def endsWith_def startsWith_def strip_end_def slice1_def split: option.splits)

text \<open>A location that is not longer than the path leads to a shorter path, unless a slash was added.\<close>

lemma redirect_shorter:
  assumes "asset_route f p [] = Redirect location" "startsWith p ''/''" "root_ends f"
  shows "length location < length p \<or> (\<not> endsWith p ''/'' \<and> f (p @ ''/index.html'') \<noteq> None \<and> location = p @ ''/'')"
proof -
  have long: "length t < length p" if "endsWith p t" "t \<noteq> []" "hd t \<noteq> CHR ''/''" for t
    using ends_longer [OF that(1) assms(2) that(2,3)] .
  have len: "length t \<le> length p" if "endsWith p t" for t
    using that by (simp add: endsWith_iff_suffix suffix_length_le)
  have "p \<noteq> ''/''" using assms(1,3) root_route by blast
  moreover have "2 \<le> length p" if "p \<noteq> ''/''" 
    using that assms(2) by (cases p; cases "tl p") (auto simp: startsWith_slash_iff)
  moreover have "6 \<le> length (strip_end 5 p)" if "endsWith (strip_end 5 p) ''/index''"
    using that by (auto simp: endsWith_iff_suffix dest: suffix_length_le)
  ultimately show ?thesis
    using asset_route_redirect [OF assms(1)] len [of "''/index/''"] len [of "''/index''"] long [of "''.html''"]
    by (auto simp: slice1_length) (auto simp: strip_end_def)
qed

lemma follow_normalised:
  assumes "root_ends f"
  shows "p = CHR ''/'' # r \<Longrightarrow> slash_like r = 0 \<Longrightarrow> \<exists>x. follow f (Suc (length p)) p = Some x"
proof (induction "length p" arbitrary: p r rule: less_induct)
  case less
  then have sw: "startsWith p ''/''" by (simp add: startsWith_slash_iff)
  show ?case
  proof (cases "asset_route f p []")
    case (Redirect location)
    obtain l where l: "location = CHR ''/'' # l"
      using asset_route_slash [OF Redirect sw] by (auto simp: startsWith_slash_iff)
    let ?q = "CHR ''/'' # drop_slashes l"
    from redirect_shorter [OF Redirect sw assms] show ?thesis
    proof
      assume "length location < length p"
      then have "length ?q < length p" using length_drop_slashes [of l] l by simp
      with less.hyps [of ?q "drop_slashes l"] obtain x where "follow f (Suc (length ?q)) ?q = Some x" by auto
      then have "follow f (length p) ?q = Some x" by (rule follow_mono) (use \<open>length ?q < length p\<close> in simp)
      with Redirect l show ?thesis by (simp add: strip_slash)
    next
      assume a: "\<not> endsWith p ''/'' \<and> f (p @ ''/index.html'') \<noteq> None \<and> location = p @ ''/''"
      then have "r \<noteq> []" using less.prems by (auto simp: endsWith_def startsWith_def)
      then have q: "stripLeadingDoubleSlashes location = p @ ''/''"
        using a less.prems slash_like_snoc [of r] by (simp add: strip_slash)
      obtain e where "asset_route f (p @ ''/'') [] = Serve e"
        using a by (auto simp: asset_route_def endsWith_def startsWith_def)
      then have "follow f (Suc (Suc n)) p = Some (Serve e)" for n using Redirect q by simp
      then show ?thesis using less.prems by simp
    qed
  qed (simp_all)
qed

lemma root_redirect_loop: "\<not> root_ends f \<Longrightarrow> follow f n ''/'' = None"
proof (induction n)
  case (Suc n)
  have "asset_route f ''/'' [] = Redirect ''/''"
    using Suc.prems by (auto simp: root_ends_def asset_route_def endsWith_def startsWith_def strip_end_def slice1_def)
  moreover have "stripLeadingDoubleSlashes ''/'' = ''/''" by (simp add: strip_slash slash_like_def)
  ultimately show ?case using Suc by simp
qed simp

lemma follow_ends:
  assumes "startsWith p ''/''" "root_ends f"
  shows "\<exists>r. follow f (length p + 3) p = Some r"
proof (cases "asset_route f p []")
  case (Redirect location)
  obtain l where l: "location = CHR ''/'' # l"
    using asset_route_slash [OF Redirect assms(1)] by (auto simp: startsWith_slash_iff)
  let ?q = "CHR ''/'' # drop_slashes l"
  obtain x where x: "follow f (Suc (length ?q)) ?q = Some x"
    using follow_normalised [where f = f and p = ?q and r = "drop_slashes l"] assms(2) by auto
  have "length location \<le> length p + 1" using redirect_shorter [OF Redirect assms] by auto
  then have "length ?q \<le> length p + 1" using length_drop_slashes [of l] l by simp
  then have "follow f (length p + 2) ?q = Some x" by (intro follow_mono [OF x]) simp
  with Redirect l show ?thesis by (simp add: strip_slash numeral_3_eq_3)
qed (simp_all add: numeral_3_eq_3)

text \<open>
  C37: If there is an asset for the name \<^verbatim>\<open>.html\<close> and none for \<^verbatim>\<open>/index.html\<close>, the root is redirected to itself
  for ever. In all other cases following the redirects of the asset server ends from every path: after at
  most three requests more than the path has characters an asset is served or nothing is found.
\<close>

theorem asset_redirects_end:
  "if findAsset ''.html'' \<noteq> None \<and> findAsset ''/index.html'' = None
   then \<forall>n. follow findAsset n ''/'' = None
   else \<forall>p. startsWith p ''/'' \<longrightarrow> (\<exists>r. follow findAsset (length p + 3) p = Some r)"
  using root_redirect_loop [of findAsset] follow_ends [of _ findAsset] by (auto simp: root_ends_def)

theorem asset_redirects_end_witness:
  "\<exists>r. follow (\<lambda>p. if p = ''/a/index.html'' then Some () else None) (length ''/a/index'' + 3) ''/a/index'' = Some r"
proof -
  let ?f = "\<lambda>p. if p = ''/a/index.html'' then Some () else None"
  have "\<forall>p. startsWith p ''/'' \<longrightarrow> (\<exists>r. follow ?f (length p + 3) p = Some r)"
    using asset_redirects_end [of ?f] by simp
  then show ?thesis by (rule allE [of _ "''/a/index''"]) (simp add: startsWith_def)
qed

subsection \<open>Missing assets are not cached\<close>

text \<open>
  A response with status 404 has the single cache directive \<open>no-store\<close>, whatever the header rules
  of the user say.
\<close>

theorem not_found_is_never_cached:
  assumes "generateHandler ctx rq = Inr rs" and "pg_status rs = 404"
  shows "headers_get (pg_headers rs) ''Cache-Control'' = Some ''no-store''"
proof -
  have "\<exists>rs1 hs. headers_append (headers_delete (pg_headers rs1) ''cache-control'') ''cache-control'' ''no-store'' = Inr hs
      \<and> rs = rs1\<lparr>pg_headers := hs\<rparr>"
  proof (cases "generateResponse ctx rq")
    case (Inr rs0)
    show ?thesis
    proof (cases "attachHeaders ctx rq rs0")
      case att: (Inr rs1)
      have "pg_status rs1 = pg_status rs0" using att by (auto simp: attachHeaders_def)
      with assms Inr att show ?thesis by (auto simp: generateHandler_def split: if_splits)
    qed (use assms Inr in \<open>auto simp: generateHandler_def split: if_splits\<close>)
  qed (use assms in \<open>simp add: generateHandler_def\<close>)
  then obtain hs0 hs where hs: "headers_append (headers_delete hs0 ''cache-control'') ''cache-control'' ''no-store'' = Inr hs"
    and rs: "pg_headers rs = hs" by fastforce
  then have s: "headers_set hs0 ''cache-control'' ''no-store'' = Inr hs"
    by (simp add: headers_set_def)
  have "toLowerCase ''Cache-Control'' = toLowerCase ''cache-control''" "normalise_value ''no-store'' = ''no-store''"
    by code_simp+
  with headers_set_get [OF s, of "''Cache-Control''"] rs show ?thesis by simp
qed

definition ex_page_context :: "(unit, string) handler_context" where
  "ex_page_context = \<lparr>hc_redirects = None,
     hc_headers = Some (HeadersV2 [(''/*'', \<lparr>he_set = Some [(''Cache-Control'', ''max-age=9'')], he_unset = None\<rparr>)]),
     hc_analytics = None, hc_deploymentId = None, hc_serverEnv = None, hc_deploymentIdHeader = False,
     hc_find = (\<lambda>_. None), hc_assetKey = (\<lambda>_ _. []), hc_negotiate = (\<lambda>_. Some []), hc_fetch = (\<lambda>_. None),
     hc_resolve = (\<lambda>_. None)\<rparr>"

definition ex_page_request :: page_request where
  "ex_page_request = \<lparr>pq_method = ''GET'',
     pq_url = \<lparr>ru_host = ''h'', ru_hostname = ''h'', ru_pathname = ''/a'', ru_search = [], ru_origin = ''https://h''\<rparr>,
     pq_headers = []\<rparr>"

theorem not_found_is_never_cached_witness:
  "\<exists>rs. generateHandler ex_page_context ex_page_request = Inr rs \<and>
    headers_get (pg_headers rs) ''Cache-Control'' = Some ''no-store''"
proof -
  have "case generateHandler ex_page_context ex_page_request of Inl _ \<Rightarrow> False | Inr rs \<Rightarrow> pg_status rs = 404"
    by code_simp
  then obtain rs where "generateHandler ex_page_context ex_page_request = Inr rs" "pg_status rs = 404"
    by (auto split: sum.splits)
  with not_found_is_never_cached [OF this] show ?thesis by blast
qed

end
