(* ===== verification/ConfigValue.thy ===== *)
theory ConfigValue
  imports Prelude
begin

text \<open>
  The values of configuration files and the tree of messages of a validation:
  \<^verbatim>\<open>wrangler/src/config/diagnostics.ts\<close>, with the operations of JavaScript the validation applies to a
  value it knows nothing about (\<open>typeof\<close>, \<open>in\<close>, property access, \<open>Object.keys\<close>, \<open>JSON.stringify\<close>).
\<close>

subsection \<open>Values\<close>

text \<open>
  What the parsers of TOML and JSON produce, and \<open>undefined\<close>. A number is the text JavaScript prints for
  it, so zero is \<open>''0''\<close>; an object is the list of its own properties in the order of \<open>Object.keys\<close>, and a
  property can have the value \<open>undefined\<close>. The dates of TOML are not values of the model.
\<close>

datatype jval =
    JUndefined
  | JNull
  | JBool bool
  | JNumber string
  | JString string
  | JArray "jval list"
  | JObject "(string \<times> jval) list"

fun js_typeof :: "jval \<Rightarrow> string" where
  "js_typeof JUndefined = ''undefined''"
| "js_typeof JNull = ''object''"
| "js_typeof (JBool _) = ''boolean''"
| "js_typeof (JNumber _) = ''number''"
| "js_typeof (JString _) = ''string''"
| "js_typeof (JArray _) = ''object''"
| "js_typeof (JObject _) = ''object''"

fun truthy :: "jval \<Rightarrow> bool" where
  "truthy JUndefined = False"
| "truthy JNull = False"
| "truthy (JBool b) = b"
| "truthy (JNumber t) = (t \<noteq> ''0'')"
| "truthy (JString s) = (s \<noteq> [])"
| "truthy _ = True"

text \<open>The operator \<open>??\<close>, and the test \<open>typeof value !== "object" || value === null\<close>.\<close>

definition coalesce :: "jval \<Rightarrow> jval \<Rightarrow> jval" where
  "coalesce v w = (if v = JUndefined \<or> v = JNull then w else v)"

definition is_object :: "jval \<Rightarrow> bool" where
  "is_object v \<longleftrightarrow> js_typeof v = ''object'' \<and> v \<noteq> JNull"

fun is_array :: "jval \<Rightarrow> bool" where
  "is_array (JArray _) = True"
| "is_array _ = False"

fun elements :: "jval \<Rightarrow> jval list" where
  "elements (JArray vs) = vs"
| "elements _ = []"

text \<open>The own properties of a value; those of arrays and strings have their indices as names.\<close>

definition indexed :: "jval list \<Rightarrow> (string \<times> jval) list" where
  "indexed vs = zip (map show_nat [0..<length vs]) vs"

fun own_entries :: "jval \<Rightarrow> (string \<times> jval) list" where
  "own_entries (JObject ps) = ps"
| "own_entries (JArray vs) = indexed vs"
| "own_entries (JString s) = indexed (map (\<lambda>c. JString [c]) s)"
| "own_entries _ = []"

abbreviation object_keys :: "jval \<Rightarrow> string list" where
  "object_keys v \<equiv> map fst (own_entries v)"

text \<open>
  Reading a property of \<open>null\<close> and \<open>undefined\<close> is an error unless the access is optional (\<open>?.\<close>). The
  methods every object inherits are not values of the model; the operator \<open>in\<close> knows their names.
\<close>

fun prop_of :: "jval \<Rightarrow> string \<Rightarrow> jval" where
  "prop_of (JArray vs) k =
     (if k = ''length'' then JNumber (show_nat (length vs))
      else case map_of (indexed vs) k of None \<Rightarrow> JUndefined | Some v \<Rightarrow> v)"
| "prop_of (JString s) k =
     (if k = ''length'' then JNumber (show_nat (length s))
      else case map_of (own_entries (JString s)) k of None \<Rightarrow> JUndefined | Some v \<Rightarrow> v)"
| "prop_of (JObject ps) k = (case map_of ps k of None \<Rightarrow> JUndefined | Some v \<Rightarrow> v)"
| "prop_of _ k = JUndefined"

definition get_prop :: "jval \<Rightarrow> string \<Rightarrow> jval res" where
  "get_prop v k = (if v = JUndefined \<or> v = JNull then Inl TypeError else Inr (prop_of v k))"

definition inherited_names :: "string list" where
  "inherited_names =
     [''constructor'', ''__defineGetter__'', ''__defineSetter__'', ''hasOwnProperty'',
      ''__lookupGetter__'', ''__lookupSetter__'', ''isPrototypeOf'', ''propertyIsEnumerable'',
      ''toString'', ''valueOf'', ''__proto__'', ''toLocaleString'']"

definition has_prop :: "jval \<Rightarrow> string \<Rightarrow> bool" where
  "has_prop v k \<longleftrightarrow> k \<in> set (object_keys v) \<or> k \<in> set inherited_names \<or> (is_array v \<and> k = ''length'')"

definition in_op :: "string \<Rightarrow> jval \<Rightarrow> bool res" where
  "in_op k v = (if is_object v then Inr (has_prop v k) else Inl TypeError)"

text \<open>Assignment and deletion of an own property.\<close>

fun set_prop :: "string \<Rightarrow> jval \<Rightarrow> jval \<Rightarrow> jval" where
  "set_prop k w (JObject ps) = JObject (AList.update k w ps)"
| "set_prop k w v = v"

fun delete_prop :: "string \<Rightarrow> jval \<Rightarrow> jval" where
  "delete_prop k (JObject ps) = JObject (AList.delete k ps)"
| "delete_prop k v = v"

subsection \<open>Text of values\<close>

abbreviation newline :: string where
  "newline \<equiv> [CHR 0x0A]"

definition json_hex_digit :: "nat \<Rightarrow> char" where
  "json_hex_digit n = (if n < 10 then char_of (48 + n) else char_of (87 + n))"

definition json_char :: "char \<Rightarrow> string" where
  "json_char c =
     (if c = CHR 0x22 \<or> c = CHR 0x5C then [CHR 0x5C, c]
      else if c = CHR 0x08 then [CHR 0x5C, CHR ''b'']
      else if c = CHR 0x0C then [CHR 0x5C, CHR ''f'']
      else if c = CHR 0x0A then [CHR 0x5C, CHR ''n'']
      else if c = CHR 0x0D then [CHR 0x5C, CHR ''r'']
      else if c = CHR 0x09 then [CHR 0x5C, CHR ''t'']
      else if c < CHR '' '' then
        CHR 0x5C # ''u00'' @ [json_hex_digit (of_char c div 16), json_hex_digit (of_char c mod 16)]
      else [c])"

definition quote :: "string \<Rightarrow> string" where
  "quote s = CHR 0x22 # s @ [CHR 0x22]"

definition json_string :: "string \<Rightarrow> string" where
  "json_string s = quote (concat (map json_char s))"

text \<open>
  The list of members between brackets: on one line without a gap, otherwise one on a line, indented by
  one gap more than the bracket.
\<close>

definition json_block :: "string \<Rightarrow> string \<Rightarrow> char \<Rightarrow> char \<Rightarrow> string list \<Rightarrow> string" where
  "json_block gap indent l r ms =
     (if ms = [] then [l, r]
      else if gap = [] then [l] @ join_with '','' ms @ [r]
      else [l] @ newline @ indent @ gap @ join_with ('','' @ newline @ indent @ gap) ms
           @ newline @ indent @ [r])"

lemma size_entry: "p \<in> set ps \<Longrightarrow> size (snd p) < Suc (size_list (size_prod (\<lambda>_. 0) size) ps)"
  by (induction ps) (auto simp: size_prod_def split: prod.splits)

text \<open>\<open>JSON.stringify\<close> with an indentation; \<open>undefined\<close> has no text.\<close>

function json_with :: "string \<Rightarrow> string \<Rightarrow> jval \<Rightarrow> string option" where
  "json_with gap indent JUndefined = None"
| "json_with gap indent JNull = Some ''null''"
| "json_with gap indent (JBool b) = Some (if b then ''true'' else ''false'')"
| "json_with gap indent (JNumber t) = Some t"
| "json_with gap indent (JString s) = Some (json_string s)"
| "json_with gap indent (JArray vs) =
     Some (json_block gap indent CHR ''['' CHR '']''
       (map (\<lambda>v. case json_with gap (indent @ gap) v of None \<Rightarrow> ''null'' | Some t \<Rightarrow> t) vs))"
| "json_with gap indent (JObject ps) =
     Some (json_block gap indent CHR ''{'' CHR ''}''
       (concat (map (\<lambda>p. case json_with gap (indent @ gap) (snd p) of
            None \<Rightarrow> []
          | Some t \<Rightarrow> [json_string (fst p) @ '':'' @ (if gap = [] then [] else '' '') @ t]) ps)))"
  by pat_completeness auto
termination
  by (relation "measure (\<lambda>(gap, indent, v). size v)") (auto simp: size_entry less_Suc_eq_le size_list_estimation')

definition stringify :: "jval \<Rightarrow> string" where
  "stringify v = (case json_with [] [] v of None \<Rightarrow> ''undefined'' | Some t \<Rightarrow> t)"

definition stringify_indented :: "jval \<Rightarrow> string" where
  "stringify_indented v = (case json_with ''  '' [] v of None \<Rightarrow> ''undefined'' | Some t \<Rightarrow> t)"

text \<open>The conversion of a value to a string in a template.\<close>

function js_string :: "jval \<Rightarrow> string" where
  "js_string JUndefined = ''undefined''"
| "js_string JNull = ''null''"
| "js_string (JBool b) = (if b then ''true'' else ''false'')"
| "js_string (JNumber t) = t"
| "js_string (JString s) = s"
| "js_string (JArray vs) =
     join_with '','' (map (\<lambda>v. if v = JUndefined \<or> v = JNull then [] else js_string v) vs)"
| "js_string (JObject _) = ''[object Object]''"
  by pat_completeness auto
termination
  by (relation "measure size") (auto simp: less_Suc_eq_le size_list_estimation')

subsection \<open>Diagnostics\<close>

datatype diagnostics =
  Diagnostics (description: string) (errors: "string list") (warnings: "string list")
    (children: "diagnostics list")

definition newDiagnostics :: "string \<Rightarrow> diagnostics" where
  "newDiagnostics text = Diagnostics text [] [] []"

fun hasErrors :: "diagnostics \<Rightarrow> bool" where
  "hasErrors (Diagnostics text es ws cs) = (es \<noteq> [] \<or> list_ex hasErrors cs)"

fun hasWarnings :: "diagnostics \<Rightarrow> bool" where
  "hasWarnings (Diagnostics text es ws cs) = (ws \<noteq> [] \<or> list_ex hasWarnings cs)"

fun pushError :: "string \<Rightarrow> diagnostics \<Rightarrow> diagnostics" where
  "pushError msg (Diagnostics text es ws cs) = Diagnostics text (es @ [msg]) ws cs"

fun pushWarning :: "string \<Rightarrow> diagnostics \<Rightarrow> diagnostics" where
  "pushWarning msg (Diagnostics text es ws cs) = Diagnostics text es (ws @ [msg]) cs"

fun addChild :: "diagnostics \<Rightarrow> diagnostics \<Rightarrow> diagnostics" where
  "addChild c (Diagnostics text es ws cs) =
     Diagnostics text es ws (if hasErrors c \<or> hasWarnings c then cs @ [c] else cs)"

definition indentText :: "string \<Rightarrow> string" where
  "indentText s =
     join_with newline
       (case split_on CHR 0x0A s of
          [] \<Rightarrow> []
        | l # ls \<Rightarrow> map (\<lambda>line. if list_all is_space line then [] else line)
                     (l # map (\<lambda>line. ''  '' @ line) ls))"

text \<open>The rendering of one of the two kinds of messages: \<open>field\<close> selects them, \<open>has\<close> finds them.\<close>

fun renderWith :: "(diagnostics \<Rightarrow> string list) \<Rightarrow> (diagnostics \<Rightarrow> bool) \<Rightarrow> diagnostics \<Rightarrow> string" where
  "renderWith field has (Diagnostics text es ws cs) =
     indentText (text @ newline
       @ join_with newline (map (\<lambda>msg. ''- '' @ indentText msg) (field (Diagnostics text es ws cs)))
       @ join_with newline
           (filter (\<lambda>out. out \<noteq> [])
             (map (\<lambda>c. if has c then newline @ ''- '' @ renderWith field has c else []) cs)))"

definition renderErrors :: "diagnostics \<Rightarrow> string" where
  "renderErrors = renderWith errors hasErrors"

definition renderWarnings :: "diagnostics \<Rightarrow> string" where
  "renderWarnings = renderWith warnings hasWarnings"

text \<open>How many errors and warnings a tree holds.\<close>

fun errorCount :: "diagnostics \<Rightarrow> nat" where
  "errorCount (Diagnostics text es ws cs) = length es + sum_list (map errorCount cs)"

fun warningCount :: "diagnostics \<Rightarrow> nat" where
  "warningCount (Diagnostics text es ws cs) = length ws + sum_list (map warningCount cs)"

lemma sum_list_map_pos: "0 < sum_list (map f xs) \<longleftrightarrow> (\<exists>x \<in> set xs. 0 < (f x :: nat))"
  by (induction xs) auto

lemma hasErrors_iff: "hasErrors d \<longleftrightarrow> 0 < errorCount d"
  by (induction d rule: errorCount.induct) (auto simp: list_ex_iff sum_list_map_pos)

lemma hasWarnings_iff: "hasWarnings d \<longleftrightarrow> 0 < warningCount d"
  by (induction d rule: warningCount.induct) (auto simp: list_ex_iff sum_list_map_pos)

lemma counts_push [simp]:
  "errorCount (pushError msg d) = Suc (errorCount d)"
  "warningCount (pushError msg d) = warningCount d"
  "errorCount (pushWarning msg d) = errorCount d"
  "warningCount (pushWarning msg d) = Suc (warningCount d)"
  by (cases d; simp)+

lemma counts_addChild [simp]:
  "errorCount (addChild c d) = errorCount d + errorCount c"
  "warningCount (addChild c d) = warningCount d + warningCount c"
  by (cases d; simp add: hasErrors_iff hasWarnings_iff)+

lemma counts_new [simp]:
  "errorCount (newDiagnostics text) = 0"
  "warningCount (newDiagnostics text) = 0"
  by (simp_all add: newDiagnostics_def)

end
