(* ===== verification/ConfigHelpers.thy ===== *)
theory ConfigHelpers
  imports ConfigValue
begin

text \<open>
  The validators of configuration fields that others are built from:
  \<^verbatim>\<open>wrangler/src/config/validation-helpers.ts\<close>. A validator appends to the diagnostics and says whether
  the value is valid.
\<close>

type_synonym verdict = "bool \<times> diagnostics"
type_synonym validator = "diagnostics \<Rightarrow> string \<Rightarrow> jval \<Rightarrow> jval \<Rightarrow> verdict"

named_theorems verdict_simps \<open>unfolding rules for the steps of a validator\<close>

subsection \<open>The steps of a validator\<close>

text \<open>
  A step that fails (\<open>push; return false\<close>), a test that is recorded (\<open>if (!c) { push; isValid = false; }\<close>),
  a validation whose result is recorded (\<open>isValid = f() && isValid\<close>), one that runs only while the value
  is valid (\<open>isValid = isValid && f()\<close>), and one whose result is ignored.
\<close>

definition reject :: "string \<Rightarrow> diagnostics \<Rightarrow> verdict" where
  "reject msg d = (False, pushError msg d)"

definition accept :: "diagnostics \<Rightarrow> verdict" where
  "accept d = (True, d)"

definition require :: "bool \<Rightarrow> string \<Rightarrow> verdict \<Rightarrow> verdict" where
  "require c msg r = (if c then r else reject msg (snd r))"

definition both :: "(diagnostics \<Rightarrow> verdict) \<Rightarrow> verdict \<Rightarrow> verdict" where
  "both f r = (let (ok, d) = f (snd r) in (ok \<and> fst r, d))"

definition while_valid :: "(diagnostics \<Rightarrow> verdict) \<Rightarrow> verdict \<Rightarrow> verdict" where
  "while_valid f r = (if fst r then f (snd r) else r)"

definition noting :: "(diagnostics \<Rightarrow> verdict) \<Rightarrow> verdict \<Rightarrow> verdict" where
  "noting f r = (fst r, snd (f (snd r)))"

declare reject_def [verdict_simps] accept_def [verdict_simps] require_def [verdict_simps]
  both_def [verdict_simps] while_valid_def [verdict_simps] noting_def [verdict_simps]

text \<open>A loop over the elements of an array with their indices.\<close>

fun each :: "(nat \<Rightarrow> jval \<Rightarrow> diagnostics \<Rightarrow> verdict) \<Rightarrow> nat \<Rightarrow> jval list \<Rightarrow> verdict \<Rightarrow> verdict" where
  "each f i [] r = r"
| "each f i (v # vs) r = each f (Suc i) vs (both (f i v) r)"

subsection \<open>Messages\<close>

definition expected_type :: "string \<Rightarrow> string \<Rightarrow> jval \<Rightarrow> string" where
  "expected_type field type v =
     ''Expected '' @ quote field @ '' to be of type '' @ type @ '' but got '' @ stringify v @ ''.''"

definition name_type :: string where
  "name_type = ''string, alphanumeric and lowercase with dashes only''"

definition nonempty_message :: "string \<Rightarrow> string" where
  "nonempty_message field = ''Expected '' @ quote field @ '' to be a non-empty string.''"

definition object_message :: "string \<Rightarrow> string list \<Rightarrow> jval \<Rightarrow> string" where
  "object_message field properties v =
     ''Expected '' @ quote field @ '' to be of type object, containing only properties ''
       @ join_with '','' properties @ '', but got '' @ stringify v @ ''.''"

definition one_of_message :: "string \<Rightarrow> jval list \<Rightarrow> jval \<Rightarrow> string" where
  "one_of_message field choices v =
     ''Expected '' @ quote field @ '' field to be one of '' @ stringify (JArray choices)
       @ '' but got '' @ stringify v @ ''.''"

definition exclusive_message :: "string \<Rightarrow> string list \<Rightarrow> string" where
  "exclusive_message field others =
     ''Expected exactly one of the following fields ''
       @ stringify (JArray (map JString (field # others))) @ ''.''"

definition required_message :: "string \<Rightarrow> string" where
  "required_message field = quote field @ '' is a required field.''"

definition array_of_message :: "string \<Rightarrow> string \<Rightarrow> jval \<Rightarrow> string" where
  "array_of_message container type v =
     ''Expected '' @ quote container @ '' to be an array of '' @ type @ ''s but got '' @ stringify v"

definition unexpected_message :: "string \<Rightarrow> string list \<Rightarrow> string" where
  "unexpected_message fieldPath unknown =
     ''Unexpected fields found in '' @ fieldPath @ '' field: '' @ join_with '','' (map quote unknown)"

definition deprecated_message :: "string \<Rightarrow> string \<Rightarrow> string \<Rightarrow> string" where
  "deprecated_message title fieldPath msg =
     CHR 0x1B # ''[1m'' @ title @ CHR 0x1B # ''[0m: '' @ quote fieldPath @ '':'' @ newline @ msg"

definition experimental_message :: "string \<Rightarrow> string" where
  "experimental_message fieldPath =
     quote fieldPath @ '' fields are experimental and may change or break at any time.''"

definition not_allowed_message :: "string \<Rightarrow> string" where
  "not_allowed_message field =
     ''The '' @ quote field @ '' field is not allowed in named service environments.'' @ newline
       @ ''Please remove the field from this environment.''"

definition not_inherited_message :: "string \<Rightarrow> string \<Rightarrow> string" where
  "not_inherited_message field envName =
     quote field @ '' exists at the top level, but not on '' @ quote (''env.'' @ envName) @ ''.'' @ newline
       @ ''This is not what you probably want, since '' @ quote field
       @ '' is not inherited by environments.'' @ newline
       @ ''Please add '' @ quote field @ '' to '' @ quote (''env.'' @ envName) @ ''.''"

subsection \<open>Properties with a type\<close>

definition isRequiredProperty :: "jval \<Rightarrow> string \<Rightarrow> string \<Rightarrow> bool" where
  "isRequiredProperty obj k type \<longleftrightarrow> has_prop obj k \<and> js_typeof (prop_of obj k) = type"

definition isRequiredChoice :: "jval \<Rightarrow> string \<Rightarrow> string \<Rightarrow> jval list \<Rightarrow> bool" where
  "isRequiredChoice obj k type choices \<longleftrightarrow> isRequiredProperty obj k type \<and> prop_of obj k \<in> set choices"

definition isOptionalProperty :: "jval \<Rightarrow> string \<Rightarrow> string \<Rightarrow> bool" where
  "isOptionalProperty obj k type \<longleftrightarrow> has_prop obj k \<longrightarrow> js_typeof (prop_of obj k) = type"

text \<open>
  The set of the remaining properties keeps their order. The validation only warns, but its result is
  false.
\<close>

definition validateAdditionalProperties ::
    "string \<Rightarrow> string list \<Rightarrow> string list \<Rightarrow> diagnostics \<Rightarrow> verdict" where
  "validateAdditionalProperties fieldPath restProps knownProps d =
     (let rest = filter (\<lambda>k. k \<notin> set knownProps) (rev (remdups (rev restProps))) in
      if rest \<noteq> [] then (False, pushWarning (unexpected_message fieldPath rest) d)
      else accept d)"

subsection \<open>Validators\<close>

definition isString :: validator where
  "isString d field v env =
     (if v \<noteq> JUndefined \<and> js_typeof v \<noteq> ''string'' then reject (expected_type field ''string'' v) d
      else accept d)"

fun blank_string :: "jval \<Rightarrow> bool" where
  "blank_string (JString s) = (trim s = [])"
| "blank_string _ = False"

definition isNonEmptyString :: validator where
  "isNonEmptyString d field v env =
     (let (ok, d') = isString d field v env in
      if \<not> ok then (False, d')
      else if blank_string v then reject (nonempty_message field) d'
      else accept d')"

text \<open>The regular expression of names, \<open>^$|^[a-z0-9_][a-z0-9-_]*$\<close>.\<close>

definition name_char :: "char \<Rightarrow> bool" where
  "name_char c \<longleftrightarrow> is_lower c \<or> is_digit c \<or> c = CHR ''_''"

fun valid_name_text :: "string \<Rightarrow> bool" where
  "valid_name_text [] = True"
| "valid_name_text (c # cs) = (name_char c \<and> list_all (\<lambda>c. name_char c \<or> c = CHR ''-'') cs)"

fun is_valid_name_value :: "jval \<Rightarrow> bool" where
  "is_valid_name_value (JString s) = valid_name_text s"
| "is_valid_name_value v = (v = JUndefined)"

definition isValidName :: validator where
  "isValidName d field v env =
     (if is_valid_name_value v then accept d else reject (expected_type field name_type v) d)"

definition isStringArray :: validator where
  "isStringArray d field v env =
     (if v \<noteq> JUndefined \<and>
         (\<not> is_array v \<or> list_ex (\<lambda>item. js_typeof item \<noteq> ''string'') (elements v))
      then reject (expected_type field ''string array'' v) d else accept d)"

definition isObjectWith :: "string list \<Rightarrow> validator" where
  "isObjectWith properties d field v env =
     (if v \<noteq> JUndefined \<and> (\<not> is_object v \<or> \<not> list_all (has_prop v) properties)
      then reject (object_message field properties v) d
      else if v \<noteq> JUndefined then
        noting (validateAdditionalProperties field
                  (filter (\<lambda>k. k \<notin> set properties) (object_keys v)) []) (accept d)
      else accept d)"

definition isOneOf :: "jval list \<Rightarrow> validator" where
  "isOneOf choices d field v env =
     (if v \<noteq> JUndefined \<and> v \<notin> set choices then reject (one_of_message field choices v) d
      else accept d)"

fun all_validators :: "validator list \<Rightarrow> bool \<Rightarrow> validator" where
  "all_validators [] passed d field v env = (passed, d)"
| "all_validators (f # fs) passed d field v env =
     (let (ok, d') = f d field v env in all_validators fs (ok \<and> passed) d' field v env)"

definition all :: "validator list \<Rightarrow> validator" where
  "all validations = all_validators validations True"

definition isMutuallyExclusiveWith :: "jval \<Rightarrow> string list \<Rightarrow> validator" where
  "isMutuallyExclusiveWith container others d field v env =
     (if v = JUndefined then accept d
      else if list_ex (\<lambda>k. prop_of container k \<noteq> JUndefined) others
      then reject (exclusive_message field others) d
      else accept d)"

definition isBoolean :: validator where
  "isBoolean d field v env =
     (if v \<noteq> JUndefined \<and> js_typeof v \<noteq> ''boolean'' then reject (expected_type field ''boolean'' v) d
      else accept d)"

definition anything :: validator where
  "anything d field v env = accept d"

definition full_path :: "string \<Rightarrow> string \<Rightarrow> string" where
  "full_path container key = (if container = [] then key else container @ ''.'' @ key)"

definition validateRequiredProperty ::
    "string \<Rightarrow> string \<Rightarrow> jval \<Rightarrow> string \<Rightarrow> jval list option \<Rightarrow> diagnostics \<Rightarrow> verdict" where
  "validateRequiredProperty container key v type choices d =
     (let field = full_path container key in
      if v = JUndefined then reject (required_message field) d
      else if js_typeof v \<noteq> type then reject (expected_type field type v) d
      else case choices of None \<Rightarrow> accept d | Some cs \<Rightarrow> isOneOf cs d field v JUndefined)"

definition validateOptionalProperty ::
    "string \<Rightarrow> string \<Rightarrow> jval \<Rightarrow> string \<Rightarrow> jval list option \<Rightarrow> diagnostics \<Rightarrow> verdict" where
  "validateOptionalProperty container key v type choices d =
     (if v \<noteq> JUndefined then validateRequiredProperty container key v type choices d else accept d)"

definition element_key :: "nat \<Rightarrow> string" where
  "element_key i = ''['' @ show_nat i @ '']''"

definition validateTypedArray :: "string \<Rightarrow> jval \<Rightarrow> string \<Rightarrow> diagnostics \<Rightarrow> verdict" where
  "validateTypedArray container v type d =
     (if \<not> is_array v then reject (array_of_message container type v) d
      else each (\<lambda>i w. validateRequiredProperty container (element_key i) w type None) 0 (elements v)
             (accept d))"

definition validateOptionalTypedArray :: "string \<Rightarrow> jval \<Rightarrow> string \<Rightarrow> diagnostics \<Rightarrow> verdict" where
  "validateOptionalTypedArray container v type d =
     (if v \<noteq> JUndefined then validateTypedArray container v type d else accept d)"

subsection \<open>Names of bindings\<close>

fun binding_named :: "jval \<Rightarrow> bool" where
  "binding_named (JObject ps) = (js_typeof (prop_of (JObject ps) ''name'') = ''string'')"
| "binding_named _ = False"

fun is_binding_list :: "jval \<Rightarrow> bool" where
  "is_binding_list (JObject ps) =
     (is_array (prop_of (JObject ps) ''bindings'') \<and>
      list_all binding_named (elements (prop_of (JObject ps) ''bindings'')))"
| "is_binding_list _ = False"

fun binding_entry :: "jval \<Rightarrow> bool" where
  "binding_entry (JObject ps) = (js_typeof (prop_of (JObject ps) ''binding'') = ''string'')"
| "binding_entry _ = False"

fun is_namespace_list :: "jval \<Rightarrow> bool" where
  "is_namespace_list (JArray vs) = list_all binding_entry vs"
| "is_namespace_list _ = False"

text \<open>The value of a single binding is taken for a string without a check.\<close>

definition getBindingNames :: "jval \<Rightarrow> jval list" where
  "getBindingNames v =
     (if \<not> is_object v then []
      else if is_binding_list v
      then map (\<lambda>b. prop_of b ''name'') (elements (prop_of v ''bindings''))
      else if is_namespace_list v then map (\<lambda>b. prop_of b ''binding'') (elements v)
      else case v of
          JObject ps \<Rightarrow>
            if prop_of v ''binding'' \<noteq> JUndefined then [prop_of v ''binding'']
            else map (\<lambda>p. JString (fst p)) (filter (\<lambda>p. prop_of v (fst p) \<noteq> JUndefined) ps)
        | _ \<Rightarrow> [])"

subsection \<open>Fields of an environment\<close>

text \<open>
  The container of the last property of a dotted path. The operator \<open>in\<close> throws if a value on the way is
  not an object.
\<close>

fun unwindPropertyPath :: "jval \<Rightarrow> string list \<Rightarrow> (jval \<times> string) option res" where
  "unwindPropertyPath c [] = Inr None"
| "unwindPropertyPath c [k] = Inr (Some (c, k))"
| "unwindPropertyPath c (k # ks) =
     andThen (in_op k c) (\<lambda>found. if \<not> found then Inr None else unwindPropertyPath (prop_of c k) ks)"

fun delete_path :: "string list \<Rightarrow> jval \<Rightarrow> jval" where
  "delete_path [] c = c"
| "delete_path [k] c = delete_prop k c"
| "delete_path (k # ks) c = set_prop k (delete_path ks (prop_of c k)) c"

text \<open>Is the field there, and the configuration without it.\<close>

definition has_path :: "jval \<Rightarrow> string \<Rightarrow> bool res" where
  "has_path config fieldPath =
     andThen (unwindPropertyPath config (split_on CHR ''.'' fieldPath)) (\<lambda>r.
       case r of None \<Rightarrow> Inr False | Some (c, k) \<Rightarrow> in_op k c)"

definition deprecated ::
    "string \<Rightarrow> string \<Rightarrow> bool \<Rightarrow> string \<Rightarrow> diagnostics \<times> jval \<Rightarrow> (diagnostics \<times> jval) res" where
  "deprecated fieldPath msg remove title = (\<lambda>(d, config).
     andThen (has_path config fieldPath) (\<lambda>found. Inr
       (if found then
          (pushWarning (deprecated_message title fieldPath msg) d,
           if remove then delete_path (split_on CHR ''.'' fieldPath) config else config)
        else (d, config))))"

definition experimental :: "bool \<Rightarrow> string \<Rightarrow> jval \<Rightarrow> diagnostics \<Rightarrow> diagnostics res" where
  "experimental quiet fieldPath config d =
     andThen (has_path config fieldPath) (\<lambda>found. Inr
       (if found \<and> \<not> quiet then pushWarning (experimental_message fieldPath) d else d))"

type_synonym throwing_validator = "diagnostics \<Rightarrow> string \<Rightarrow> jval \<Rightarrow> jval \<Rightarrow> verdict res"

text \<open>Most validators throw no error.\<close>

definition never_throws :: "validator \<Rightarrow> throwing_validator" where
  "never_throws f d field v env = Inr (f d field v env)"

definition inheritable ::
    "jval \<Rightarrow> jval \<Rightarrow> string \<Rightarrow> throwing_validator \<Rightarrow> jval \<Rightarrow> (jval \<Rightarrow> jval) \<Rightarrow>
     diagnostics \<Rightarrow> (jval \<times> diagnostics) res" where
  "inheritable topLevelEnv rawEnv field f defaultValue transformFn d =
     andThen (f d field (prop_of rawEnv field) topLevelEnv) (\<lambda>(ok, d').
       Inr (coalesce (prop_of rawEnv field)
              (coalesce (transformFn (prop_of topLevelEnv field)) defaultValue), d'))"

definition notAllowedInNamedServiceEnvironment ::
    "jval \<Rightarrow> jval \<Rightarrow> string \<Rightarrow> diagnostics \<Rightarrow> (jval \<times> diagnostics) res" where
  "notAllowedInNamedServiceEnvironment topLevelEnv rawEnv field d =
     andThen (in_op field rawEnv) (\<lambda>found.
       Inr (prop_of topLevelEnv field, if found then pushError (not_allowed_message field) d else d))"

definition inheritableInLegacyEnvironments ::
    "bool \<Rightarrow> jval \<Rightarrow> jval \<Rightarrow> string \<Rightarrow> throwing_validator \<Rightarrow> (jval \<Rightarrow> jval) \<Rightarrow> jval \<Rightarrow>
     diagnostics \<Rightarrow> (jval \<times> diagnostics) res" where
  "inheritableInLegacyEnvironments isLegacyEnv topLevelEnv rawEnv field f transformFn defaultValue d =
     (if topLevelEnv = JUndefined \<or> isLegacyEnv
      then inheritable topLevelEnv rawEnv field f defaultValue transformFn d
      else notAllowedInNamedServiceEnvironment topLevelEnv rawEnv field d)"

definition appendEnvName :: "string \<Rightarrow> jval \<Rightarrow> jval" where
  "appendEnvName envName v =
     (if truthy v then JString (js_string v @ ''-'' @ envName) else JUndefined)"

definition notInheritable ::
    "jval \<Rightarrow> jval \<Rightarrow> jval \<Rightarrow> string \<Rightarrow> string \<Rightarrow> throwing_validator \<Rightarrow> jval \<Rightarrow>
     diagnostics \<Rightarrow> (jval \<times> diagnostics) res" where
  "notInheritable topLevelEnv rawConfig rawEnv envName field f defaultValue d =
     andThen
       (if prop_of rawEnv field \<noteq> JUndefined
        then andThen (f d field (prop_of rawEnv field) topLevelEnv) (\<lambda>(ok, d'). Inr d')
        else Inr (if prop_of rawConfig field \<noteq> JUndefined
                  then pushWarning (not_inherited_message field envName) d else d))
       (\<lambda>d'. Inr (coalesce (prop_of rawEnv field) defaultValue, d'))"

end
