(* ===== verification/ConfigBindings.thy ===== *)
theory ConfigBindings
  imports ConfigHelpers PagesMetadata
begin

text \<open>
  The validators of the bindings of a worker and of the fields that hold them, of
  \<^verbatim>\<open>wrangler/src/config/validation.ts\<close>.
\<close>

subsection \<open>Messages\<close>

definition env_path :: "string \<Rightarrow> string \<Rightarrow> jval \<Rightarrow> string" where
  "env_path envName field config =
     (if config = JUndefined then field else ''env.'' @ envName @ ''.'' @ field)"

definition field_object_message :: "string \<Rightarrow> jval \<Rightarrow> string" where
  "field_object_message path v =
     ''The field '' @ quote path @ '' should be an object but got '' @ stringify v @ ''.''"

definition field_array_message :: "string \<Rightarrow> jval \<Rightarrow> string" where
  "field_array_message path v =
     ''The field '' @ quote path @ '' should be an array but got '' @ stringify v @ ''.''"

definition should_be_object_message :: "string \<Rightarrow> jval \<Rightarrow> string" where
  "should_be_object_message field v =
     quote field @ '' should be an object but got '' @ stringify v @ ''.''"

definition expected_object_message :: "string \<Rightarrow> jval \<Rightarrow> string" where
  "expected_object_message field v =
     ''Expected '' @ quote field @ '' to be an object but got '' @ stringify v"

definition binding_objects_message :: "string \<Rightarrow> jval \<Rightarrow> string" where
  "binding_objects_message kind v =
     quote kind @ '' bindings should be objects, but got '' @ stringify v"

definition binding_field_message :: "string \<Rightarrow> string" where
  "binding_field_message key = ''binding should have a string '' @ quote key @ '' field.''"

definition when_present_message :: "string \<Rightarrow> string \<Rightarrow> string" where
  "when_present_message key type =
     ''the field '' @ quote key @ '', when present, should be a '' @ type @ ''.''"

definition bindings_need_message :: "string \<Rightarrow> string \<Rightarrow> jval \<Rightarrow> string" where
  "bindings_need_message field key v =
     quote field @ '' bindings should have a string '' @ quote key @ '' field but got ''
       @ stringify v @ ''.''"

definition bindings_may_message :: "string \<Rightarrow> string \<Rightarrow> string \<Rightarrow> jval \<Rightarrow> string" where
  "bindings_may_message field type key v =
     quote field @ '' bindings should, optionally, have a '' @ type @ '' '' @ quote key
       @ '' field but got '' @ stringify v @ ''.''"

definition bindings_must_message :: "string \<Rightarrow> string \<Rightarrow> string \<Rightarrow> jval \<Rightarrow> string" where
  "bindings_must_message field article key v =
     quote field @ '' bindings must have '' @ article @ '' '' @ quote key @ '' field but got ''
       @ stringify v @ ''.''"

definition field_needs_message :: "string \<Rightarrow> string \<Rightarrow> jval \<Rightarrow> string" where
  "field_needs_message field key v =
     quote field @ '' should have a string '' @ quote key @ '' field but got '' @ stringify v @ ''.''"

definition field_may_message :: "string \<Rightarrow> string \<Rightarrow> string \<Rightarrow> jval \<Rightarrow> string" where
  "field_may_message field type key v =
     quote field @ '' should, optionally, have a '' @ type @ '' '' @ quote key
       @ '' field but got '' @ stringify v @ ''.''"

definition unwanted_message :: "string \<Rightarrow> string" where
  "unwanted_message what =
     ''This is not what you probably want, since '' @ what @ newline"

subsection \<open>Bindings\<close>

definition validateDurableObjectBinding :: validator where
  "validateDurableObjectBinding d field v env =
     (if \<not> is_object v then reject (expected_object_message field v) d
      else
       let r = accept d;
         r = require (isRequiredProperty v ''name'' ''string'') (binding_field_message ''name'') r;
         r = require (isRequiredProperty v ''class_name'' ''string'')
               (binding_field_message ''class_name'') r;
         r = require (isOptionalProperty v ''script_name'' ''string'')
               (when_present_message ''script_name'' ''string'') r;
         r = require (isOptionalProperty v ''environment'' ''string'')
               (when_present_message ''environment'' ''string'') r;
         r = require (\<not> (has_prop v ''environment'' \<and> \<not> has_prop v ''script_name''))
               (''binding should have a '' @ quote ''script_name'' @ '' field if ''
                @ quote ''environment'' @ '' is present.'') r
       in noting (validateAdditionalProperties field (object_keys v)
                    [''class_name'', ''environment'', ''name'', ''script_name'']) r)"

definition validateCflogfwdrBinding :: validator where
  "validateCflogfwdrBinding d field v env =
     (if \<not> is_object v then reject (expected_object_message field v) d
      else
       let r = accept d;
         r = require (isRequiredProperty v ''name'' ''string'') (binding_field_message ''name'') r;
         r = require (isRequiredProperty v ''destination'' ''string'')
               (binding_field_message ''destination'') r
       in noting (validateAdditionalProperties field (object_keys v) [''destination'', ''name'']) r)"

definition validateAssetsConfig :: validator where
  "validateAssetsConfig d field v env =
     (if v = JUndefined then accept d
      else if \<not> is_object v then
        reject (quote field @ '' should be an object, but got value '' @ json_string field
                @ '' of type '' @ js_typeof v) d
      else
       let r = accept d;
         r = both (validateRequiredProperty field ''directory'' (prop_of v ''directory'') ''string'' None) r;
         r = both (\<lambda>d. isNonEmptyString d (field @ ''.directory'') (prop_of v ''directory'') JUndefined) r;
         r = both (validateOptionalProperty field ''binding'' (prop_of v ''binding'') ''string'' None) r
       in both (validateAdditionalProperties field (object_keys v) [''directory'', ''binding'']) r)"

definition validateBrowserBinding :: "string \<Rightarrow> validator" where
  "validateBrowserBinding envName d field v config =
     (if \<not> is_object v \<or> is_array v
      then reject (field_object_message (env_path envName field config) v) d
      else
       noting (validateAdditionalProperties field (object_keys v) [''binding''])
         (require (isRequiredProperty v ''binding'' ''string'') (binding_field_message ''binding'')
           (accept d)))"

definition validateAIBinding :: "string \<Rightarrow> validator" where
  "validateAIBinding envName d field v config =
     (if \<not> is_object v \<or> is_array v
      then reject (field_object_message (env_path envName field config) v) d
      else require (isRequiredProperty v ''binding'' ''string'') (binding_field_message ''binding'')
             (accept d))"

definition validateVersionMetadataBinding :: "string \<Rightarrow> validator" where
  "validateVersionMetadataBinding envName d field v config =
     (if \<not> is_object v \<or> is_array v
      then reject (field_object_message (env_path envName field config) v) d
      else require (isRequiredProperty v ''binding'' ''string'') (binding_field_message ''binding'')
             (accept d))"

definition safeBindings :: "string list" where
  "safeBindings =
     [''plain_text'', ''secret_text'', ''json'', ''wasm_module'', ''data_blob'', ''text_blob'',
      ''browser'', ''ai'', ''kv_namespace'', ''durable_object_namespace'', ''d1_database'',
      ''r2_bucket'', ''service'', ''logfwdr'', ''mtls_certificate'']"

definition safe_binding_message :: "string \<Rightarrow> string" where
  "safe_binding_message type =
     ''The binding type '' @ quote type @ '' is directly supported by wrangler.'' @ newline
       @ ''Consider migrating this unsafe binding to a format for '' @ [CHR 0x27] @ type @ [CHR 0x27]
       @ '' bindings that is supported by wrangler for optimal support.'' @ newline
       @ ''For more details, see https://developers.cloudflare.com/workers/cli-wrangler/configuration''"

definition metadata_binding_message :: string where
  "metadata_binding_message =
     ''The deployment object in the metadata binding is now deprecated. ''
       @ ''Please switch using the version_metadata binding for access to version specific fields: ''
       @ ''https://developers.cloudflare.com/workers/runtime-apis/bindings/version-metadata''"

definition validateUnsafeBinding :: validator where
  "validateUnsafeBinding d field v env =
     (if \<not> is_object v
      then reject (''Expected '' @ field @ '' to be an object but got '' @ stringify v @ ''.'') d
      else
       let r = require (isRequiredProperty v ''name'' ''string'') (binding_field_message ''name'')
                 (accept d)
       in if isRequiredProperty v ''type'' ''string'' then
            let type = js_string (prop_of v ''type'');
              r = (if type \<in> set safeBindings then noting (\<lambda>d. accept (pushWarning (safe_binding_message type) d)) r
                   else r)
            in if type = ''metadata'' \<and> isRequiredProperty v ''name'' ''string''
               then noting (\<lambda>d. accept (pushWarning metadata_binding_message d)) r else r
          else require False (binding_field_message ''type'') r)"

definition validateKVBinding :: validator where
  "validateKVBinding d field v env =
     (if \<not> is_object v then reject (binding_objects_message ''kv_namespaces'' v) d
      else
       let r = accept d;
         r = require (isRequiredProperty v ''binding'' ''string'')
               (bindings_need_message field ''binding'' v) r;
         r = require (isRequiredProperty v ''id'' ''string'' \<and> prop_of v ''id'' \<noteq> JString [])
               (bindings_need_message field ''id'' v) r;
         r = require (isOptionalProperty v ''preview_id'' ''string'')
               (bindings_may_message field ''string'' ''preview_id'' v) r
       in noting (validateAdditionalProperties field (object_keys v)
                    [''binding'', ''id'', ''preview_id'']) r)"

definition validateSendEmailBinding :: validator where
  "validateSendEmailBinding d field v env =
     (if \<not> is_object v then reject (binding_objects_message ''send_email'' v) d
      else
       let r = accept d;
         r = require (isRequiredProperty v ''name'' ''string'') (bindings_need_message field ''name'' v) r;
         r = require (isOptionalProperty v ''destination_address'' ''string'')
               (bindings_may_message field ''string'' ''destination_address'' v) r;
         r = require (isOptionalProperty v ''allowed_destination_addresses'' ''object'')
               (bindings_may_message field ''[]string'' ''allowed_destination_addresses'' v) r;
         r = require (\<not> (has_prop v ''destination_address'' \<and> has_prop v ''allowed_destination_addresses''))
               (quote field @ '' bindings should have either a '' @ quote ''destination_address''
                @ '' or '' @ quote ''allowed_destination_addresses'' @ '' field, but not both.'') r
       in noting (validateAdditionalProperties field (object_keys v)
                    [''allowed_destination_addresses'', ''destination_address'', ''name'', ''binding'']) r)"

text \<open>An unexpected field of a queue producer ends its validation with a warning.\<close>

definition validateQueueBinding :: validator where
  "validateQueueBinding d field v env =
     (if \<not> is_object v then reject (binding_objects_message ''queue'' v) d
      else
       let (ok, d') = validateAdditionalProperties field (object_keys v)
                        [''binding'', ''queue'', ''delivery_delay''] d
       in if \<not> ok then (False, d')
          else
           let r = accept d';
             r = require (isRequiredProperty v ''binding'' ''string'')
                   (bindings_need_message field ''binding'' v) r;
             r = require (isRequiredProperty v ''queue'' ''string'' \<and> prop_of v ''queue'' \<noteq> JString [])
                   (bindings_need_message field ''queue'' v) r
           in require (isOptionalProperty v ''delivery_delay'' ''number'')
                (field_may_message field ''number'' ''delivery_delay'' v) r)"

definition validateR2Binding :: validator where
  "validateR2Binding d field v env =
     (if \<not> is_object v then reject (binding_objects_message ''r2_buckets'' v) d
      else
       let r = accept d;
         r = require (isRequiredProperty v ''binding'' ''string'')
               (bindings_need_message field ''binding'' v) r;
         r = require (isRequiredProperty v ''bucket_name'' ''string'' \<and> prop_of v ''bucket_name'' \<noteq> JString [])
               (bindings_need_message field ''bucket_name'' v) r;
         r = require (isOptionalProperty v ''preview_bucket_name'' ''string'')
               (bindings_may_message field ''string'' ''preview_bucket_name'' v) r;
         r = require (isOptionalProperty v ''jurisdiction'' ''string'')
               (bindings_may_message field ''string'' ''jurisdiction'' v) r
       in noting (validateAdditionalProperties field (object_keys v)
                    [''binding'', ''bucket_name'', ''preview_bucket_name'', ''jurisdiction'']) r)"

definition validateD1Binding :: validator where
  "validateD1Binding d field v env =
     (if \<not> is_object v then reject (binding_objects_message ''d1_databases'' v) d
      else
       let r = accept d;
         r = require (isRequiredProperty v ''binding'' ''string'')
               (bindings_need_message field ''binding'' v) r;
         r = require (isRequiredProperty v ''database_id'' ''string'')
               (bindings_must_message field ''a'' ''database_id'' v) r;
         r = require (isOptionalProperty v ''preview_database_id'' ''string'')
               (bindings_may_message field ''string'' ''preview_database_id'' v) r
       in noting (validateAdditionalProperties field (object_keys v)
                    [''binding'', ''database_id'', ''database_internal_env'', ''database_name'',
                     ''migrations_dir'', ''migrations_table'', ''preview_database_id'']) r)"

definition validateVectorizeBinding :: validator where
  "validateVectorizeBinding d field v env =
     (if \<not> is_object v then reject (binding_objects_message ''vectorize'' v) d
      else
       let r = accept d;
         r = require (isRequiredProperty v ''binding'' ''string'')
               (bindings_need_message field ''binding'' v) r;
         r = require (isRequiredProperty v ''index_name'' ''string'')
               (bindings_must_message field ''an'' ''index_name'' v) r
       in noting (validateAdditionalProperties field (object_keys v) [''binding'', ''index_name'']) r)"

definition validateHyperdriveBinding :: validator where
  "validateHyperdriveBinding d field v env =
     (if \<not> is_object v then reject (binding_objects_message ''hyperdrive'' v) d
      else
       let r = accept d;
         r = require (isRequiredProperty v ''binding'' ''string'')
               (bindings_need_message field ''binding'' v) r;
         r = require (isRequiredProperty v ''id'' ''string'')
               (bindings_must_message field ''a'' ''id'' v) r
       in noting (validateAdditionalProperties field (object_keys v)
                    [''binding'', ''id'', ''localConnectionString'']) r)"

definition validateServiceBinding :: validator where
  "validateServiceBinding d field v env =
     (if \<not> is_object v then reject (binding_objects_message ''services'' v) d
      else
       let r = accept d;
         r = require (isRequiredProperty v ''binding'' ''string'')
               (bindings_need_message field ''binding'' v) r;
         r = require (isRequiredProperty v ''service'' ''string'')
               (bindings_need_message field ''service'' v) r;
         r = require (isOptionalProperty v ''environment'' ''string'')
               (bindings_need_message field ''environment'' v) r
       in require (isOptionalProperty v ''entrypoint'' ''string'')
            (bindings_need_message field ''entrypoint'' v) r)"

definition validateAnalyticsEngineBinding :: validator where
  "validateAnalyticsEngineBinding d field v env =
     (if \<not> is_object v then reject (binding_objects_message ''analytics_engine'' v) d
      else
       let r = accept d;
         r = require (isRequiredProperty v ''binding'' ''string'')
               (bindings_need_message field ''binding'' v) r;
         r = require (isOptionalProperty v ''dataset'' ''string'' \<and> prop_of v ''dataset'' \<noteq> JString [])
               (bindings_may_message field ''string'' ''dataset'' v) r
       in noting (validateAdditionalProperties field (object_keys v) [''binding'', ''dataset'']) r)"

definition validateWorkerNamespaceOutbound :: "string \<Rightarrow> jval \<Rightarrow> diagnostics \<Rightarrow> verdict" where
  "validateWorkerNamespaceOutbound field v d =
     (if \<not> is_object v
      then reject (quote field @ '' should be an object, but got '' @ stringify v) d
      else
       let r = accept d;
         r = while_valid (validateRequiredProperty field ''service'' (prop_of v ''service'') ''string'' None) r;
         r = while_valid (validateOptionalProperty field ''environment'' (prop_of v ''environment'') ''string'' None) r
       in while_valid (validateOptionalTypedArray (field @ ''.parameters'') (prop_of v ''parameters'') ''string'') r)"

definition validateWorkerNamespaceBinding :: validator where
  "validateWorkerNamespaceBinding d field v env =
     (if \<not> is_object v
      then reject (quote field @ '' binding should be objects, but got '' @ stringify v) d
      else
       let r = accept d;
         r = require (isRequiredProperty v ''binding'' ''string'') (field_needs_message field ''binding'' v) r;
         r = require (isRequiredProperty v ''namespace'' ''string'') (field_needs_message field ''namespace'' v) r
       in if has_prop v ''outbound'' then
            let (ok, d') = validateWorkerNamespaceOutbound (field @ ''.outbound'')
                             (coalesce (prop_of v ''outbound'') (JObject [])) (snd r)
            in require ok (quote field @ '' has an invalid outbound definition.'') (fst r, d')
          else r)"

definition validateMTlsCertificateBinding :: validator where
  "validateMTlsCertificateBinding d field v env =
     (if \<not> is_object v then reject (binding_objects_message ''mtls_certificates'' v) d
      else
       let r = accept d;
         r = require (isRequiredProperty v ''binding'' ''string'')
               (bindings_need_message field ''binding'' v) r;
         r = require (isRequiredProperty v ''certificate_id'' ''string'' \<and>
                      prop_of v ''certificate_id'' \<noteq> JString [])
               (bindings_need_message field ''certificate_id'' v) r
       in noting (validateAdditionalProperties field (object_keys v) [''binding'', ''certificate_id'']) r)"

definition validateCloudchamberConfig :: validator where
  "validateCloudchamberConfig d field v env =
     (if \<not> is_object v \<or> is_array v
      then reject (quote ''cloudchamber'' @ '' should be an object, but got '' @ stringify v) d
      else
       foldl (\<lambda>r (type, key). require (isOptionalProperty v key type) (bindings_may_message field type key v) r)
         (accept d)
         [(''string'', ''memory''), (''string'', ''image''), (''string'', ''location''),
          (''boolean'', ''ipv4''), (''number'', ''vcpu'')])"

text \<open>The missing queue of a consumer is reported, but the result stays true.\<close>

definition validateConsumer :: validator where
  "validateConsumer d field v env =
     (if \<not> is_object v
      then reject (quote field @ '' should be a objects, but got '' @ stringify v) d
      else
       let r = validateAdditionalProperties field (object_keys v)
                 [''queue'', ''type'', ''max_batch_size'', ''max_batch_timeout'', ''max_retries'',
                  ''dead_letter_queue'', ''max_concurrency'', ''visibility_timeout_ms'', ''retry_delay''] d;
         r = noting (\<lambda>d. require (isRequiredProperty v ''queue'' ''string'')
                             (field_needs_message field ''queue'' v) (accept d)) r
       in foldl (\<lambda>r (key, type). require (isOptionalProperty v key type) (field_may_message field type key v) r)
            r
            [(''type'', ''string''), (''max_batch_size'', ''number''), (''max_batch_timeout'', ''number''),
             (''max_retries'', ''number''), (''dead_letter_queue'', ''string''),
             (''max_concurrency'', ''number''), (''visibility_timeout_ms'', ''number''),
             (''retry_delay'', ''number'')])"

end
