(* ===== verification/ConfigContainers.thy ===== *)
theory ConfigContainers
  imports ConfigBindings
begin

text \<open>
  The fields of an environment that hold several values, of \<^verbatim>\<open>wrangler/src/config/validation.ts\<close>: rules,
  definitions, variables, lists of bindings, queues, migrations, routes and tail consumers; and the test
  that the names of bindings are unique.
\<close>

subsection \<open>Rules, definitions and variables\<close>

definition rule_types :: "jval list" where
  "rule_types = map JString [''ESModule'', ''CommonJS'', ''CompiledWasm'', ''Text'', ''Data'']"

definition rule_type_message :: string where
  "rule_type_message =
     ''bindings should have a string '' @ quote ''type'' @ '' field, which contains one of ''
       @ quote ''ESModule'' @ '', '' @ quote ''CommonJS'' @ '', '' @ quote ''CompiledWasm'' @ '', ''
       @ quote ''Text'' @ '', or '' @ quote ''Data'' @ ''.''"

definition validateRule :: validator where
  "validateRule d field v env =
     (if \<not> is_object v then reject (should_be_object_message field v) d
      else
       let r = require (isRequiredChoice v ''type'' ''string'' rule_types) rule_type_message (accept d);
         r = both (validateTypedArray (field @ ''.globs'') (prop_of v ''globs'') ''string'') r
       in require (isOptionalProperty v ''fallthrough'' ''boolean'')
            (when_present_message ''fallthrough'' ''boolean'') r)"

definition validateRules :: "string \<Rightarrow> validator" where
  "validateRules envName d field v config =
     (if \<not> truthy v then accept d
      else if \<not> is_array v then reject (field_array_message (env_path envName field config) v) d
      else each (\<lambda>i w d. validateRule d (env_path envName field config @ element_key i) w config) 0
             (elements v) (accept d))"

definition missing_message :: "string \<Rightarrow> string \<Rightarrow> string \<Rightarrow> string \<Rightarrow> string" where
  "missing_message kind varName fieldPath envName =
     quote (kind @ ''.'' @ varName) @ '' exists at the top level, but not on '' @ quote fieldPath @ ''.''
       @ newline @ unwanted_message (quote kind @ '' configuration is not inherited by environments.'')
       @ ''Please add '' @ quote (kind @ ''.'' @ varName) @ '' to '' @ quote (''env.'' @ envName) @ ''.''"

definition surplus_message :: "string \<Rightarrow> string \<Rightarrow> string \<Rightarrow> string" where
  "surplus_message varName fieldPath envName =
     quote varName @ '' exists on '' @ quote (''env.'' @ envName) @ '', but not on the top level.'' @ newline
       @ unwanted_message (quote ''define'' @ '' configuration within environments can only override''
           @ '' existing top level '' @ quote ''define'' @ '' configuration'')
       @ ''Please remove '' @ quote (fieldPath @ ''.'' @ varName) @ '', or add ''
       @ quote (''define.'' @ varName) @ ''.''"

text \<open>A warning for each of the names that fail a test.\<close>

definition warn_each :: "(string \<Rightarrow> bool) \<Rightarrow> (string \<Rightarrow> string) \<Rightarrow> string list \<Rightarrow> diagnostics \<Rightarrow> diagnostics" where
  "warn_each ok msg ks d = foldl (\<lambda>d k. if ok k then d else pushWarning (msg k) d) d ks"

definition object_line_message :: "string \<Rightarrow> jval \<Rightarrow> string" where
  "object_line_message path v = field_object_message path v @ newline"

definition define_string_message :: "string \<Rightarrow> string \<Rightarrow> jval \<Rightarrow> string" where
  "define_string_message fieldPath varName v =
     ''The field '' @ quote (fieldPath @ ''.'' @ varName) @ '' should be a string but got '' @ stringify v @ ''.''"

definition validateDefines :: "string \<Rightarrow> validator" where
  "validateDefines envName d field v config =
     (let fieldPath = env_path envName field config;
        configDefines = object_keys (prop_of config ''define'');
        r = (if is_object v
             then foldl (\<lambda>r (k, w). require (js_typeof w = ''string'') (define_string_message fieldPath k w) r)
                    (accept d) (own_entries v)
             else require (v = JUndefined) (object_line_message fieldPath v) (accept d))
      in if configDefines \<noteq> [] \<and> is_object v then
           noting (\<lambda>d. accept
             (warn_each (\<lambda>k. k \<in> set configDefines) (\<lambda>k. surplus_message k fieldPath envName)
                (if config = JUndefined then [] else object_keys v)
               (warn_each (has_prop v) (\<lambda>k. missing_message ''define'' k fieldPath envName) configDefines d))) r
         else r)"

definition validateVars :: "string \<Rightarrow> validator" where
  "validateVars envName d field v config =
     (let fieldPath = env_path envName field config;
        configVars = object_keys (prop_of config ''vars'')
      in if configVars = [] then accept d
         else if \<not> is_object v then reject (object_line_message fieldPath v) d
         else accept (warn_each (has_prop v) (\<lambda>k. missing_message ''vars'' k fieldPath envName) configVars d))"

subsection \<open>Containers of bindings\<close>

definition binding_path :: "string \<Rightarrow> nat \<Rightarrow> string" where
  "binding_path fieldPath i = fieldPath @ ''.bindings'' @ element_key i"

definition binding_diagnostics :: "string \<Rightarrow> jval \<Rightarrow> diagnostics" where
  "binding_diagnostics path b = newDiagnostics (quote path @ '': '' @ stringify b)"

definition child_binding :: "validator \<Rightarrow> string \<Rightarrow> jval \<Rightarrow> nat \<Rightarrow> jval \<Rightarrow> diagnostics \<Rightarrow> verdict" where
  "child_binding f fieldPath config i b d =
     (let path = binding_path fieldPath i;
        (ok, bd) = f (binding_diagnostics path b) path b config
      in (ok, addChild bd d))"

definition missing_bindings_message :: "string \<Rightarrow> string \<Rightarrow> string \<Rightarrow> jval list \<Rightarrow> string" where
  "missing_bindings_message field fieldPath envName missing =
     ''The following bindings are at the top level, but not on '' @ quote (''env.'' @ envName) @ ''.'' @ newline
       @ unwanted_message (quote field @ '' configuration is not inherited by environments.'')
       @ ''Please add a binding for each to '' @ quote (fieldPath @ ''.bindings'') @ '':'' @ newline
       @ join_with newline (map (\<lambda>n. ''- '' @ js_string n) missing)"

definition no_bindings_message :: "string \<Rightarrow> string" where
  "no_bindings_message fieldPath =
     ''The field '' @ quote fieldPath @ '' is missing the required '' @ quote ''bindings'' @ '' property.''"

definition bindings_verdict :: "validator \<Rightarrow> string \<Rightarrow> jval \<Rightarrow> jval \<Rightarrow> diagnostics \<Rightarrow> verdict" where
  "bindings_verdict f fieldPath config v d =
     (let bindings = prop_of v ''bindings'' in
      if \<not> is_object v \<or> is_array v then reject (field_object_message fieldPath v) d
      else if \<not> has_prop v ''bindings'' then reject (no_bindings_message fieldPath) d
      else if \<not> is_array bindings
      then reject (field_array_message (fieldPath @ ''.bindings'') bindings) d
      else each (child_binding f fieldPath config) 0 (elements bindings) (accept d))"

definition validateBindingsProperty :: "string \<Rightarrow> validator \<Rightarrow> validator" where
  "validateBindingsProperty envName f d field v config =
     (if v = JUndefined then accept d
      else
       let fieldPath = env_path envName field config;
         (ok, d') = bindings_verdict f fieldPath config v d;
         missing = filter (\<lambda>n. n \<notin> set (getBindingNames v)) (getBindingNames (prop_of config field))
       in (ok, if ok \<and> missing \<noteq> []
               then pushWarning (missing_bindings_message field fieldPath envName missing) d' else d'))"

definition unsafe_needs_message :: "string \<Rightarrow> jval \<Rightarrow> string" where
  "unsafe_needs_message fieldPath v =
     ''The field '' @ quote fieldPath @ '' should contain at least one of '' @ quote ''bindings'' @ '', ''
       @ quote ''metadata'' @ '' or '' @ quote ''capnp'' @ '' properties but got '' @ stringify v @ ''.''"

definition capnp_both_message :: "string \<Rightarrow> string" where
  "capnp_both_message fieldPath =
     ''The field '' @ quote (fieldPath @ ''.capnp'') @ '' cannot contain both '' @ quote ''compiled_schema''
       @ '' and one of '' @ quote ''base_path'' @ '' or '' @ quote ''source_schemas'' @ ''.''"

definition capnp_string_message :: "string \<Rightarrow> string \<Rightarrow> jval \<Rightarrow> string" where
  "capnp_string_message fieldPath key v =
     ''The field '' @ quote (fieldPath @ ''.capnp.'' @ key) @ '', when present, should be a string but got ''
       @ stringify v"

text \<open>The capnp schema: a wrong \<open>base_path\<close> is reported without making the result false.\<close>

definition validateCapnp :: "string \<Rightarrow> jval \<Rightarrow> diagnostics \<Rightarrow> verdict" where
  "validateCapnp fieldPath c d =
     (if \<not> is_object c \<or> is_array c
      then reject (field_object_message (fieldPath @ ''.capnp'') c) d
      else if has_prop c ''compiled_schema'' then
        (if has_prop c ''base_path'' \<or> has_prop c ''source_schemas''
         then reject (capnp_both_message fieldPath) d
         else if js_typeof (prop_of c ''compiled_schema'') \<noteq> ''string''
         then reject (capnp_string_message fieldPath ''compiled_schema'' (prop_of c ''compiled_schema'') @ ''.'') d
         else accept d)
      else
        validateTypedArray (fieldPath @ ''.capnp.source_schemas'') (prop_of c ''source_schemas'') ''string''
          (if isRequiredProperty c ''base_path'' ''string'' then d
           else pushError (capnp_string_message fieldPath ''base_path'' (prop_of c ''base_path'')) d))"

definition validateUnsafeSettings :: "string \<Rightarrow> validator" where
  "validateUnsafeSettings envName d field v config =
     (let fieldPath = env_path envName field config;
        metadata = prop_of v ''metadata'' in
      if \<not> is_object v \<or> is_array v then reject (field_object_message fieldPath v) d
      else if \<not> has_prop v ''bindings'' \<and> \<not> has_prop v ''metadata'' \<and> \<not> has_prop v ''capnp''
      then reject (unsafe_needs_message fieldPath v) d
      else
       let (ok, d') =
         (if prop_of v ''bindings'' \<noteq> JUndefined
          then validateBindingsProperty envName validateUnsafeBinding d field v config
          else accept d)
       in if \<not> ok then (False, d')
          else if metadata \<noteq> JUndefined \<and> (\<not> is_object metadata \<or> is_array metadata)
          then reject (field_object_message (fieldPath @ ''.metadata'') metadata) d'
          else if prop_of v ''capnp'' \<noteq> JUndefined then validateCapnp fieldPath (prop_of v ''capnp'') d'
          else accept d')"

definition schema_message :: "string \<Rightarrow> string" where
  "schema_message field =
     quote field @ '' binding '' @ quote ''schema'' @ '' property has been replaced with the ''
       @ quote ''unsafe.capnp'' @ '' object, which expects a '' @ quote ''base_path'' @ '' and an array of ''
       @ quote ''source_schemas'' @ '' to compile, or a '' @ quote ''compiled_schema'' @ '' property.''"

definition validateCflogfwdrObject :: "string \<Rightarrow> validator" where
  "validateCflogfwdrObject envName d field v topLevelEnv =
     (let (ok, d') = validateBindingsProperty envName validateCflogfwdrBinding d field v topLevelEnv in
      if \<not> ok then (False, d')
      else if prop_of v ''schema'' \<noteq> JUndefined then reject (schema_message field) d'
      else accept d')"

text \<open>The names of the bindings of an array; an element that is \<open>null\<close> is an error of the program.\<close>

fun array_names :: "jval list \<Rightarrow> jval list res" where
  "array_names [] = Inr []"
| "array_names (v # vs) =
     andThen (get_prop v ''binding'') (\<lambda>n. andThen (array_names vs) (\<lambda>ns. Inr (n # ns)))"

definition missing_binding_message :: "string \<Rightarrow> string \<Rightarrow> jval \<Rightarrow> string" where
  "missing_binding_message field envName n =
     ''There is a '' @ field @ '' binding with name '' @ quote (js_string n)
       @ '' at the top level, but not on '' @ quote (''env.'' @ envName) @ ''.'' @ newline
       @ unwanted_message (quote field @ '' configuration is not inherited by environments.'')
       @ ''Please add a binding for '' @ quote (js_string n) @ '' to ''
       @ quote (''env.'' @ envName @ ''.'' @ field @ ''.bindings'') @ ''.''"

definition array_verdict :: "validator \<Rightarrow> string \<Rightarrow> jval \<Rightarrow> jval list \<Rightarrow> diagnostics \<Rightarrow> verdict" where
  "array_verdict f fieldPath config vs d =
     each (\<lambda>i w d. f d (fieldPath @ element_key i) w config) 0 vs (accept d)"

definition validateBindingArray :: "string \<Rightarrow> validator \<Rightarrow> throwing_validator" where
  "validateBindingArray envName f d field v config =
     (let fieldPath = env_path envName field config; configValue = prop_of config field in
      if v = JUndefined then Inr (accept d)
      else if \<not> is_array v then Inr (reject (field_array_message fieldPath v) d)
      else
       let (ok, d') = array_verdict f fieldPath config (elements v) d
       in if \<not> is_array configValue then Inr (ok, d')
          else
           andThen (array_names (elements configValue)) (\<lambda>configNames.
             if configNames = [] then Inr (ok, d')
             else andThen (array_names (elements v)) (\<lambda>envNames.
               Inr (ok, foldl (\<lambda>d n. if n \<in> set envNames then d
                                     else pushWarning (missing_binding_message field envName n) d)
                      d' configNames))))"

subsection \<open>Queues\<close>

text \<open>
  What \<open>for (let i = 0; i < v.length; i++)\<close> visits, also if \<open>v\<close> is not an array: the length is converted
  to a number.
\<close>

fun to_length :: "jval \<Rightarrow> nat" where
  "to_length JUndefined = 0"
| "to_length JNull = 0"
| "to_length (JBool b) = (if b then 1 else 0)"
| "to_length v =
     (let s = trim (js_string v)
      in if s = [] then 0 else case js_number s of None \<Rightarrow> 0 | Some r \<Rightarrow> nat \<lceil>r\<rceil>)"

definition loop_elements :: "jval \<Rightarrow> jval list res" where
  "loop_elements v =
     (if is_array v then Inr (elements v)
      else andThen (get_prop v ''length'') (\<lambda>n.
        Inr (map (\<lambda>i. prop_of v (show_nat i)) [0..<to_length n])))"

definition validateQueueConsumers :: "string \<Rightarrow> jval \<Rightarrow> jval \<Rightarrow> verdict \<Rightarrow> verdict res" where
  "validateQueueConsumers path v config r =
     (let consumers = prop_of v ''consumers'' in
      if has_prop v ''consumers'' then
        andThen (loop_elements consumers) (\<lambda>ws. Inr
          (each (\<lambda>i w d. validateConsumer d (path @ element_key i) w config) 0 ws
            (require (is_array consumers) (field_array_message path consumers) r)))
      else Inr r)"

definition validateQueueProducers :: "string \<Rightarrow> string \<Rightarrow> jval \<Rightarrow> jval \<Rightarrow> verdict \<Rightarrow> verdict res" where
  "validateQueueProducers envName field v config r =
     (if has_prop v ''producers'' then
        andThen (validateBindingArray envName validateQueueBinding (snd r) (field @ ''.producers'')
                   (prop_of v ''producers'') config)
          (\<lambda>p. Inr (fst p \<and> fst r, snd p))
      else Inr r)"

definition validateQueues :: "string \<Rightarrow> throwing_validator" where
  "validateQueues envName d field v config =
     (let fieldPath = env_path envName field config in
      if \<not> is_object v \<or> is_array v then Inr (reject (field_object_message fieldPath v) d)
      else
       andThen (validateQueueConsumers (fieldPath @ ''.consumers'') v config
                  (validateAdditionalProperties fieldPath (object_keys v) [''consumers'', ''producers''] d))
         (validateQueueProducers envName field v config))"

subsection \<open>Migrations\<close>

definition migrations_message :: "string \<Rightarrow> jval \<Rightarrow> string" where
  "migrations_message field v =
     ''The optional '' @ quote field @ '' field should be an array, but got '' @ stringify v"

definition renamed_message :: "string \<Rightarrow> jval \<Rightarrow> string" where
  "renamed_message path v =
     ''Expected '' @ quote (path @ ''.renamed_classes'') @ '' to be an array of ''
       @ quote ''{from: string, to: string}'' @ '' objects but got '' @ stringify v @ ''.''"

text \<open>Is there a class that is not renamed properly? \<open>null\<close> passes for an object here.\<close>

fun some_not_renamed :: "jval list \<Rightarrow> bool res" where
  "some_not_renamed [] = Inr False"
| "some_not_renamed (c # cs) =
     (if js_typeof c \<noteq> ''object'' then Inr True
      else if c = JNull then Inl TypeError
      else if \<not> isRequiredProperty c ''from'' ''string'' \<or> \<not> isRequiredProperty c ''to'' ''string''
      then Inr True else some_not_renamed cs)"

definition validateRenamed :: "string \<Rightarrow> jval \<Rightarrow> verdict \<Rightarrow> verdict res" where
  "validateRenamed path v r =
     (if v = JUndefined then Inr r
      else if \<not> is_array v then Inr (require False (renamed_message path v) r)
      else andThen (some_not_renamed (elements v)) (\<lambda>bad. Inr (require (\<not> bad) (renamed_message path v) r)))"

definition migration_path :: "nat \<Rightarrow> string" where
  "migration_path i = ''migrations'' @ element_key i"

definition migration_head :: "nat \<Rightarrow> jval \<Rightarrow> verdict \<Rightarrow> verdict" where
  "migration_head i m r =
     (let rest = filter (\<lambda>k. k \<notin> {''tag'', ''new_classes'', ''renamed_classes'', ''deleted_classes''})
                   (object_keys m);
        r = both (validateAdditionalProperties ''migrations'' rest []) r;
        r = both (validateRequiredProperty (migration_path i) ''tag'' (prop_of m ''tag'') ''string'' None) r
      in both (validateOptionalTypedArray (migration_path i @ ''.new_classes'') (prop_of m ''new_classes'')
                ''string'') r)"

definition validateMigration :: "nat \<Rightarrow> jval \<Rightarrow> verdict \<Rightarrow> verdict res" where
  "validateMigration i m r =
     (if m = JUndefined \<or> m = JNull then Inl TypeError
      else andThen (validateRenamed (migration_path i) (prop_of m ''renamed_classes'') (migration_head i m r)) (\<lambda>r.
             Inr (both (validateOptionalTypedArray (migration_path i @ ''.deleted_classes'')
                         (prop_of m ''deleted_classes'') ''string'') r)))"

fun each_migration :: "nat \<Rightarrow> jval list \<Rightarrow> verdict \<Rightarrow> verdict res" where
  "each_migration i [] r = Inr r"
| "each_migration i (m # ms) r = andThen (validateMigration i m r) (each_migration (Suc i) ms)"

definition validateMigrations :: throwing_validator where
  "validateMigrations d field v env =
     (let raw = coalesce v (JArray []) in
      if \<not> is_array raw then Inr (reject (migrations_message field raw) d)
      else each_migration 0 (elements raw) (accept d))"

subsection \<open>Routes and tail consumers\<close>

fun isValidRouteValue :: "jval \<Rightarrow> bool" where
  "isValidRouteValue (JString s) = (s \<noteq> [])"
| "isValidRouteValue (JObject ps) =
     (let item = JObject ps; otherKeys = length ps - 1;
        hasZoneId = isRequiredProperty item ''zone_id'' ''string'';
        hasZoneName = isRequiredProperty item ''zone_name'' ''string'';
        hasCustomDomainFlag = isRequiredProperty item ''custom_domain'' ''boolean''
      in isRequiredProperty item ''pattern'' ''string'' \<and>
         (otherKeys = 2 \<and> hasCustomDomainFlag \<and> (hasZoneId \<or> hasZoneName) \<or>
          otherKeys = 1 \<and> (hasZoneId \<or> hasZoneName \<or> hasCustomDomainFlag)))"
| "isValidRouteValue _ = False"

definition route_message :: "string \<Rightarrow> jval \<Rightarrow> string" where
  "route_message field v =
     ''Expected '' @ quote field @ '' to be either a string, or an object with shape ''
       @ ''{ pattern, custom_domain, zone_id | zone_name }, but got '' @ stringify v @ ''.''"

definition isRoute :: validator where
  "isRoute d field v env =
     (if v \<noteq> JUndefined \<and> \<not> isValidRouteValue v then reject (route_message field v) d else accept d)"

definition expected_array_message :: "string \<Rightarrow> jval \<Rightarrow> string" where
  "expected_array_message field v =
     ''Expected '' @ quote field @ '' to be an array but got '' @ stringify v @ ''.''"

definition routes_message :: "string \<Rightarrow> jval list \<Rightarrow> string" where
  "routes_message field bad =
     ''Expected '' @ quote field @ '' to be an array of either strings or objects with the shape ''
       @ ''{ pattern, custom_domain, zone_id | zone_name }, but these weren'' @ [CHR 0x27]
       @ ''t valid: '' @ stringify_indented (JArray bad) @ ''.''"

definition isRouteArray :: validator where
  "isRouteArray d field v env =
     (let invalidRoutes = filter (\<lambda>item. \<not> isValidRouteValue item) (elements v) in
      if v = JUndefined then accept d
      else if \<not> is_array v then reject (expected_array_message field v) d
      else require (invalidRoutes = []) (routes_message field invalidRoutes) (accept d))"

definition validateTailConsumer :: "string \<Rightarrow> jval \<Rightarrow> diagnostics \<Rightarrow> verdict" where
  "validateTailConsumer field v d =
     (if \<not> is_object v then reject (should_be_object_message field v) d
      else
       while_valid (validateOptionalProperty field ''environment'' (prop_of v ''environment'') ''string'' None)
         (while_valid (validateRequiredProperty field ''service'' (prop_of v ''service'') ''string'' None)
           (accept d)))"

definition validateTailConsumers :: validator where
  "validateTailConsumers d field v env =
     (if \<not> truthy v then accept d
      else if \<not> is_array v then reject (expected_array_message field v) d
      else each (\<lambda>i. validateTailConsumer (field @ element_key i)) 0 (elements v) (accept d))"

subsection \<open>Names of bindings are unique\<close>

definition typed_fields :: "(string \<times> string) list" where
  "typed_fields =
     [(''Durable Object'', ''durable_objects''), (''KV Namespace'', ''kv_namespaces''),
      (''R2 Bucket'', ''r2_buckets''), (''Analytics Engine Dataset'', ''analytics_engine_datasets''),
      (''Text Blob'', ''text_blobs''), (''Browser'', ''browser''), (''AI'', ''ai''), (''Unsafe'', ''unsafe''),
      (''Environment Variable'', ''vars''), (''Definition'', ''define''), (''WASM Module'', ''wasm_modules''),
      (''Data Blob'', ''data_blobs'')]"

text \<open>The names of all bindings with their types, in the order of the loops.\<close>

definition typed_names :: "jval \<Rightarrow> (string \<times> string) list" where
  "typed_names config =
     concat (map (\<lambda>(type, field). map (\<lambda>n. (js_string n, type)) (getBindingNames (prop_of config field)))
              typed_fields)"

text \<open>
  The types are grouped by name in an object literal, in which the inherited names are found: the loop
  then calls \<open>push\<close> of a function.
\<close>

fun binding_groups :: "(string \<times> string) list \<Rightarrow> (string \<times> string list) list \<Rightarrow> (string \<times> string list) list res" where
  "binding_groups [] groups = Inr groups"
| "binding_groups ((name, type) # rest) groups =
     (if name \<in> set inherited_names then Inl TypeError
      else binding_groups rest
             (AList.update name (case map_of groups name of None \<Rightarrow> [type] | Some ts \<Rightarrow> ts @ [type]) groups))"

text \<open>An object lists the names that are array indices first, in numeric order.\<close>

definition is_index :: "string \<Rightarrow> bool" where
  "is_index k \<longleftrightarrow> k \<noteq> [] \<and> list_all is_digit k \<and> show_nat (digits_val k) = k \<and> digits_val k < 2 ^ 32 - 1"

definition object_order :: "(string \<times> 'a) list \<Rightarrow> (string \<times> 'a) list" where
  "object_order ps =
     sort_key (\<lambda>p. digits_val (fst p)) (filter (\<lambda>p. is_index (fst p)) ps) @ filter (\<lambda>p. \<not> is_index (fst p)) ps"

definition first_occurrences :: "'a list \<Rightarrow> 'a list" where
  "first_occurrences xs = rev (remdups (rev xs))"

definition later_occurrences :: "'a list \<Rightarrow> 'a list" where
  "later_occurrences xs = map (nth xs) (filter (\<lambda>i. xs ! i \<in> set (take i xs)) [0..<length xs])"

text \<open>\<open>Intl.ListFormat\<close> for English.\<close>

definition english_list :: "string list \<Rightarrow> string" where
  "english_list ws =
     (case ws of
        [] \<Rightarrow> []
      | [a] \<Rightarrow> a
      | [a, b] \<Rightarrow> a @ '' and '' @ b
      | _ \<Rightarrow> join_with '', '' (butlast ws) @ '', and '' @ last ws)"

definition duplicate_errors :: "string \<Rightarrow> string list \<Rightarrow> string list" where
  "duplicate_errors name types =
     (if length types < 2 then []
      else
       (if 1 < length (first_occurrences types)
        then [name @ '' assigned to '' @ english_list (first_occurrences types) @ '' bindings.''] else [])
       @ map (\<lambda>type. name @ '' assigned to multiple '' @ type @ '' bindings.'')
           (first_occurrences (later_occurrences types)))"

definition unique_names_message :: string where
  "unique_names_message =
     ''Bindings must have unique names, so that they can all be referenced in the worker.'' @ newline
       @ ''Please change your bindings to have unique names.''"

definition validateBindingsHaveUniqueNames :: "jval \<Rightarrow> diagnostics \<Rightarrow> verdict res" where
  "validateBindingsHaveUniqueNames config d =
     andThen (binding_groups (typed_names config) []) (\<lambda>groups.
       let msgs = concat (map (\<lambda>(name, types). duplicate_errors name types) (object_order groups));
         hasDuplicates = list_ex (\<lambda>(name, types). 2 \<le> length types) groups;
         d' = foldl (\<lambda>d msg. pushError msg d) d msgs
       in Inr (\<not> hasDuplicates, if hasDuplicates then pushError unique_names_message d' else d'))"

end
