(* ===== verification/PagesRoutes.thy ===== *)
theory PagesRoutes
  imports Prelude
begin

text \<open>
  The routing rules of Pages Functions: how the routes found in a project become the rules of
  \<^verbatim>\<open>_routes.json\<close> (\<^verbatim>\<open>wrangler/src/pages/functions/routes-transformation.ts\<close> and
  \<^verbatim>\<open>routes-consolidation.ts\<close>), how such a file is validated (\<^verbatim>\<open>routes-validation.ts\<close>), and how the
  development server applies the rules to a request (\<^verbatim>\<open>wrangler/templates/pages-dev-util.ts\<close> and
  \<^verbatim>\<open>pages-dev-pipeline.ts\<close>).

  A string is the list of its code units, so that \<^const>\<open>length\<close> is the \<open>length\<close> of JavaScript. The
  collation of \<open>localeCompare\<close> is a parameter.
\<close>

subsection \<open>Constants\<close>

definition MAX_FUNCTIONS_ROUTES_RULES :: nat where "MAX_FUNCTIONS_ROUTES_RULES = 100"
definition MAX_FUNCTIONS_ROUTES_RULE_LENGTH :: nat where "MAX_FUNCTIONS_ROUTES_RULE_LENGTH = 100"
definition ROUTES_SPEC_VERSION :: int where "ROUTES_SPEC_VERSION = 1"

lemmas routes_limits = MAX_FUNCTIONS_ROUTES_RULES_def MAX_FUNCTIONS_ROUTES_RULE_LENGTH_def
  ROUTES_SPEC_VERSION_def

subsection \<open>Consolidation\<close>

text \<open>The inner loop of \<open>shortenRoute\<close>: the last slash at a position from \<open>j\<close> down to 1.\<close>

fun slash_below :: "string \<Rightarrow> nat \<Rightarrow> nat option" where
  "slash_below route 0 = None"
| "slash_below route (Suc j) =
     (if Suc j < length route \<and> route ! Suc j = CHR ''/'' then Some (Suc j) else slash_below route j)"

text \<open>The outer loop, from \<open>i\<close> on, with \<open>n\<close> rounds left.\<close>

fun shorten_loop :: "nat \<Rightarrow> nat \<Rightarrow> nat \<Rightarrow> string \<Rightarrow> string" where
  "shorten_loop maxLength i 0 route = route"
| "shorten_loop maxLength i (Suc n) route =
     (let route' = (case slash_below route (maxLength - 1 - i) of
                      None \<Rightarrow> route
                    | Some j \<Rightarrow> take j route @ ''/*'')
      in if length route' \<le> maxLength then route' else shorten_loop maxLength (Suc i) n route')"

definition shortenRoute :: "nat \<Rightarrow> string \<Rightarrow> string" where
  "shortenRoute maxLength routeToShorten =
     (if length routeToShorten \<le> maxLength then routeToShorten
      else
        let route = shorten_loop maxLength 0 (length routeToShorten) routeToShorten
        in if maxLength < length route then ''/*'' else route)"

text \<open>\<open>Array.from(new Set(xs))\<close>: the first occurrences, in order.\<close>

definition js_unique :: "'a list \<Rightarrow> 'a list" where
  "js_unique xs = rev (remdups (rev xs))"

text \<open>The loop over the rules that end in a splat; \<open>keys\<close> are the keys of the map, in order.\<close>

fun consolidate_loop :: "string list \<Rightarrow> string list \<Rightarrow> string list" where
  "consolidate_loop [] keys = keys"
| "consolidate_loop (route # routes) keys =
     consolidate_loop routes
       (if route \<in> set keys
        then filter (\<lambda>nextRoute. \<not> (nextRoute \<noteq> route \<and> startsWith nextRoute (butlast route))) keys
        else keys)"

definition consolidateRoutes :: "string list \<Rightarrow> string list" where
  "consolidateRoutes routes =
     (let routesShortened = js_unique (map (shortenRoute MAX_FUNCTIONS_ROUTES_RULE_LENGTH) routes)
      in consolidate_loop (filter (\<lambda>r. endsWith r ''/*'') routesShortened) routesShortened)"

subsection \<open>Transformation\<close>

record routesJSONSpec =
  rs_version :: int
  rs_include :: "string list"
  rs_exclude :: "string list"

datatype middleware = NoMiddleware | MiddlewareString string | MiddlewareList "string list"

record routeInput =
  ri_routePath :: string
  ri_middleware :: middleware

definition is_word_char :: "char \<Rightarrow> bool" where
  "is_word_char c \<longleftrightarrow> is_digit c \<or> is_upper c \<or> is_lower c \<or> c = CHR ''_''"

text \<open>\<open>routePath.replace(/:\w+\*?.*/, "*")\<close>: from the first parameter to the end of the line.\<close>

fun globRoutePath :: "string \<Rightarrow> string" where
  "globRoutePath [] = []"
| "globRoutePath (c # s) =
     (if c = CHR '':'' \<and> s \<noteq> [] \<and> is_word_char (hd s)
      then ''*'' @ dropWhile (\<lambda>d. d \<noteq> CHR 0x0A \<and> d \<noteq> CHR 0x0D) s
      else c # globRoutePath s)"

text \<open>
  \<open>path.join\<close> of two non-empty POSIX paths: the segments, without empty ones and dots, and with the
  double dots resolved.
\<close>

fun normalize_segments :: "bool \<Rightarrow> string list \<Rightarrow> string list \<Rightarrow> string list" where
  "normalize_segments absolute [] acc = rev acc"
| "normalize_segments absolute (s # ss) acc =
     (if s = [] \<or> s = ''.'' then normalize_segments absolute ss acc
      else if s = ''..'' then
        (if acc \<noteq> [] \<and> hd acc \<noteq> ''..'' then normalize_segments absolute ss (tl acc)
         else if absolute then normalize_segments absolute ss acc
         else normalize_segments absolute ss (s # acc))
      else normalize_segments absolute ss (s # acc))"

definition pathJoin :: "string \<Rightarrow> string \<Rightarrow> string" where
  "pathJoin a b =
     (let p = (if a = [] then b else a @ ''/'' @ b);
          absolute = startsWith p ''/'';
          joined = join_with ''/'' (normalize_segments absolute (split_on CHR ''/'' p) []);
          full = (if joined \<noteq> [] \<and> endsWith p ''/'' then joined @ ''/'' else joined)
      in if absolute then ''/'' @ full else if full = [] then ''.'' else full)"

definition toUrlPath :: "string \<Rightarrow> string" where
  "toUrlPath filePath = map (\<lambda>c. if c = CHR 0x5C then CHR ''/'' else c) filePath"

definition has_middleware :: "middleware \<Rightarrow> bool" where
  "has_middleware m =
     (case m of NoMiddleware \<Rightarrow> False | MiddlewareString _ \<Rightarrow> True | MiddlewareList l \<Rightarrow> l \<noteq> [])"

definition convertRoute :: "routeInput \<Rightarrow> string" where
  "convertRoute r =
     (let globbed = globRoutePath (ri_routePath r) in
      if has_middleware (ri_middleware r) \<and> \<not> endsWith globbed ''*''
      then toUrlPath (pathJoin globbed ''*'')
      else toUrlPath globbed)"

definition convertRoutesToGlobPatterns :: "routeInput list \<Rightarrow> string list" where
  "convertRoutesToGlobPatterns routes = js_unique (map convertRoute routes)"

definition parseRoutePath :: "string \<Rightarrow> string list" where
  "parseRoutePath routePath = filter (\<lambda>s. s \<noteq> []) (split_on CHR ''/'' (drop 1 routePath))"

fun compareSegments :: "string list \<Rightarrow> string list \<Rightarrow> int option" where
  "compareSegments (a # as) (b # bs) =
     (let isWildcardA = CHR ''*'' \<in> set a; isWildcardB = CHR ''*'' \<in> set b in
      if isWildcardA \<and> \<not> isWildcardB then Some 1
      else if \<not> isWildcardA \<and> isWildcardB then Some (-1)
      else compareSegments as bs)"
| "compareSegments _ _ = None"

definition compareRoutes :: "(string \<Rightarrow> string \<Rightarrow> int) \<Rightarrow> string \<Rightarrow> string \<Rightarrow> int" where
  "compareRoutes localeCompare routeA routeB =
     (let segmentsA = parseRoutePath routeA; segmentsB = parseRoutePath routeB in
      if length segmentsA \<noteq> length segmentsB then int (length segmentsB) - int (length segmentsA)
      else (case compareSegments segmentsA segmentsB of
              Some n \<Rightarrow> n
            | None \<Rightarrow> localeCompare routeA routeB))"

definition optimizeRoutesJSONSpec ::
    "(string \<Rightarrow> string \<Rightarrow> int) \<Rightarrow> routesJSONSpec \<Rightarrow> routesJSONSpec" where
  "optimizeRoutesJSONSpec localeCompare spec =
     (let consolidated = consolidateRoutes (rs_include spec);
          limited = (if MAX_FUNCTIONS_ROUTES_RULES < length consolidated then [''/*''] else consolidated)
      in spec\<lparr>rs_include := js_sort (\<lambda>a b. compareRoutes localeCompare b a) limited\<rparr>)"

definition convertRoutesToRoutesJSONSpec ::
    "(string \<Rightarrow> string \<Rightarrow> int) \<Rightarrow> routeInput list \<Rightarrow> routesJSONSpec" where
  "convertRoutesToRoutesJSONSpec localeCompare routes =
     optimizeRoutesJSONSpec localeCompare
       \<lparr>rs_version = ROUTES_SPEC_VERSION, rs_include = convertRoutesToGlobPatterns (rev routes),
        rs_exclude = []\<rparr>"

subsection \<open>Validation\<close>

datatype routesValidationError =
    INVALID_JSON_SPEC | NO_INCLUDE_RULES | INVALID_RULES | TOO_MANY_RULES | RULE_TOO_LONG
  | OVERLAPPING_RULES

definition isRoutesJSONSpec :: "routesJSONSpec \<Rightarrow> bool" where
  "isRoutesJSONSpec spec \<longleftrightarrow> rs_version spec = ROUTES_SPEC_VERSION"

definition hasIncludeRules :: "routesJSONSpec \<Rightarrow> bool" where
  "hasIncludeRules spec \<longleftrightarrow> 0 < length (rs_include spec)"

definition hasValidRulesCount :: "routesJSONSpec \<Rightarrow> bool" where
  "hasValidRulesCount spec \<longleftrightarrow>
     length (rs_include spec) + length (rs_exclude spec) \<le> MAX_FUNCTIONS_ROUTES_RULES"

definition hasValidRuleCharCount :: "routesJSONSpec \<Rightarrow> bool" where
  "hasValidRuleCharCount spec \<longleftrightarrow>
     length (filter (\<lambda>rule. MAX_FUNCTIONS_ROUTES_RULE_LENGTH < length rule)
       (rs_include spec @ rs_exclude spec)) = 0"

definition hasValidRules :: "routesJSONSpec \<Rightarrow> bool" where
  "hasValidRules spec \<longleftrightarrow>
     length (filter (\<lambda>rule. \<not> startsWith rule ''/'') (rs_include spec @ rs_exclude spec)) = 0"

definition hasOverlappingRules :: "string list \<Rightarrow> bool" where
  "hasOverlappingRules routes \<longleftrightarrow>
     list_ex (\<lambda>crrRoute. list_ex (\<lambda>nextRoute.
         nextRoute \<noteq> crrRoute \<and> startsWith nextRoute (butlast crrRoute)) routes)
       (filter (\<lambda>route. endsWith route ''/*'') routes)"

definition validateRoutes :: "routesJSONSpec \<Rightarrow> routesValidationError + unit" where
  "validateRoutes spec =
     andThen (check (isRoutesJSONSpec spec) INVALID_JSON_SPEC) (\<lambda>_.
     andThen (check (hasIncludeRules spec) NO_INCLUDE_RULES) (\<lambda>_.
     andThen (check (hasValidRulesCount spec) TOO_MANY_RULES) (\<lambda>_.
     andThen (check (hasValidRuleCharCount spec) RULE_TOO_LONG) (\<lambda>_.
     andThen (check (hasValidRules spec) INVALID_RULES) (\<lambda>_.
     check (\<not> (hasOverlappingRules (rs_include spec) \<or> hasOverlappingRules (rs_exclude spec)))
       OVERLAPPING_RULES)))))"

subsection \<open>Matching a request\<close>

text \<open>
  The regular expressions that rules become: literal characters, \<open>.*\<close>, and the optional groups
  \<open>(/)?\<close> and \<open>(/.*)?\<close> at the end. Only the dot and the star of a rule are translated; a rule with
  another operator of regular expressions is not modelled.
\<close>

datatype rule_token = Lit char | AnyChars | OptSlash | OptSlashAny

definition plain_rule :: "string \<Rightarrow> bool" where
  "plain_rule rule \<longleftrightarrow> (\<forall>c \<in> set rule. c \<notin> set ''+?()[]{}|^$'' \<and> c \<noteq> CHR 0x5C)"

definition rule_tokens :: "string \<Rightarrow> rule_token list" where
  "rule_tokens s = map (\<lambda>c. if c = CHR ''*'' then AnyChars else Lit c) s"

definition transformRoutingRuleToRegExp :: "string \<Rightarrow> rule_token list" where
  "transformRoutingRuleToRegExp rule =
     (if rule = ''/'' \<or> rule = ''/*'' then rule_tokens rule
      else if endsWith rule ''/*'' then rule_tokens (take (length rule - 2) rule) @ [OptSlashAny]
      else if endsWith rule ''/'' then rule_tokens (butlast rule) @ [OptSlash]
      else if endsWith rule ''*'' then rule_tokens rule
      else rule_tokens rule @ [OptSlash])"

definition line_end :: "char \<Rightarrow> bool" where
  "line_end c \<longleftrightarrow> c = CHR 0x0A \<or> c = CHR 0x0D"

text \<open>A match of the whole string, as between \<open>^\<close> and \<open>$\<close>.\<close>

function match_tokens :: "rule_token list \<Rightarrow> string \<Rightarrow> bool" where
  "match_tokens [] s = (s = [])"
| "match_tokens (Lit c # ts) s = (case s of [] \<Rightarrow> False | d # r \<Rightarrow> d = c \<and> match_tokens ts r)"
| "match_tokens (AnyChars # ts) s =
     (match_tokens ts s
      \<or> (case s of [] \<Rightarrow> False | d # r \<Rightarrow> \<not> line_end d \<and> match_tokens (AnyChars # ts) r))"
| "match_tokens (OptSlash # ts) s =
     (match_tokens ts s \<or> (case s of [] \<Rightarrow> False | d # r \<Rightarrow> d = CHR ''/'' \<and> match_tokens ts r))"
| "match_tokens (OptSlashAny # ts) s =
     (match_tokens ts s
      \<or> (case s of [] \<Rightarrow> False | d # r \<Rightarrow> d = CHR ''/'' \<and> match_tokens (AnyChars # ts) r))"
  by pat_completeness auto
termination
  by (relation "measures [\<lambda>(ts, s). length s, \<lambda>(ts, s). length ts]") auto

datatype match_error = UndefinedPathname | UndefinedRule | UnsupportedRule

definition isRoutingRuleMatch :: "string \<Rightarrow> string \<Rightarrow> match_error + bool" where
  "isRoutingRuleMatch pathname rule =
     (if pathname = [] then Inl UndefinedPathname
      else if rule = [] then Inl UndefinedRule
      else if \<not> plain_rule rule then Inl UnsupportedRule
      else Inr (match_tokens (transformRoutingRuleToRegExp rule) pathname))"

text \<open>Which of the two services the development pipeline sends a request to.\<close>

datatype pages_target = ToAssets | ToWorker

fun first_match :: "string \<Rightarrow> string list \<Rightarrow> match_error + bool" where
  "first_match pathname [] = Inr False"
| "first_match pathname (rule # rules) =
     andThen (isRoutingRuleMatch pathname rule) (\<lambda>m. if m then Inr True else first_match pathname rules)"

definition pipeline_fetch :: "routesJSONSpec \<Rightarrow> string \<Rightarrow> match_error + pages_target" where
  "pipeline_fetch spec pathname =
     andThen (first_match pathname (rs_exclude spec)) (\<lambda>excluded.
       if excluded then Inr ToAssets
       else andThen (first_match pathname (rs_include spec)) (\<lambda>included.
         Inr (if included then ToWorker else ToAssets)))"

end
