(* ===== verification/FunctionFiles.thy ===== *)
theory FunctionFiles
  imports PagesRoutes
begin

text \<open>
  Pages Functions from files, \<^verbatim>\<open>packages/wrangler/src/pages/functions/filepath-routing.ts\<close>: the walk over
  the directory, the routes of the handlers the files export, and their order.

  The directory is a finite tree; a path in it is the list of the names below the base directory. The
  exports of a file come from the bundler, which is a parameter, as is the collation of
  \<open>localeCompare\<close>. Paths are POSIX paths.
\<close>

datatype function_error = FunctionsBuildError | FatalError string | UserError string | FunctionsNoRoutesError

subsection \<open>The walk\<close>

datatype fs_node = FileNode | DirNode "(string \<times> fs_node) list" | OtherNode

type_synonym fs_dir = "(string \<times> fs_node) list"

definition dir_files :: "string list \<Rightarrow> fs_dir \<Rightarrow> string list list" where
  "dir_files cwd es = map (\<lambda>(name, n). cwd @ [name]) (filter (\<lambda>(name, n). n = FileNode) es)"

fun dir_dirs :: "string list \<Rightarrow> fs_dir \<Rightarrow> (string list \<times> fs_dir) list" where
  "dir_dirs cwd [] = []"
| "dir_dirs cwd ((name, n) # es) =
     (case n of DirNode es1 \<Rightarrow> (cwd @ [name], es1) # dir_dirs cwd es | _ \<Rightarrow> dir_dirs cwd es)"

definition dir_size :: "fs_dir \<Rightarrow> nat" where
  "dir_size es = size (DirNode es)"

lemma dir_dirs_smaller: "sum_list (map (\<lambda>(c, es1). dir_size es1) (dir_dirs cwd es)) < dir_size es"
  by (induction cwd es rule: dir_dirs.induct) (auto simp: dir_size_def split: fs_node.splits)

text \<open>\<open>forEachFile\<close>: the queue of directories still to read; the result is the files in the order of the calls.\<close>

function forEachFile :: "(string list \<times> fs_dir) list \<Rightarrow> string list list" where
  "forEachFile [] = []"
| "forEachFile ((cwd, es) # searchPaths) = dir_files cwd es @ forEachFile (searchPaths @ dir_dirs cwd es)"
  by pat_completeness auto
termination
  by (relation "measure (\<lambda>q. sum_list (map (\<lambda>(c, es). dir_size es) q))") (auto simp: dir_dirs_smaller)

subsection \<open>Names\<close>

text \<open>\<open>path.extname\<close> of a file name.\<close>

definition extname :: "string \<Rightarrow> string" where
  "extname name =
     (let after = takeWhile (\<lambda>c. c \<noteq> CHR ''.'') (rev name) in
      if CHR ''.'' \<in> set name \<and> name \<noteq> ''..'' \<and> Suc (length after) < length name
      then CHR ''.'' # rev after else [])"

text \<open>\<open>path.dirname\<close> of a path without a slash at the end.\<close>

definition dirname :: "string \<Rightarrow> string" where
  "dirname p =
     (case dropWhile (\<lambda>c. c \<noteq> CHR ''/'') (rev p) of
        [] \<Rightarrow> ''.''
      | c # r \<Rightarrow> if r = [] then ''/'' else rev r)"

definition isFunctionExtension :: "string \<Rightarrow> bool" where
  "isFunctionExtension ext \<longleftrightarrow> ext \<in> {''.mjs'', ''.js'', ''.ts'', ''.tsx'', ''.jsx''}"

definition METHOD_SUFFIXES :: "string list" where
  "METHOD_SUFFIXES = [''Get'', ''Post'', ''Put'', ''Patch'', ''Delete'', ''Options'', ''Head'']"

text \<open>The match of an export name: the method, empty for all methods.\<close>

definition exportMethod :: "string \<Rightarrow> string option" where
  "exportMethod exportName =
     (if exportName = ''onRequest'' then Some []
      else if startsWith exportName ''onRequest'' \<and> drop 9 exportName \<in> set METHOD_SUFFIXES
      then Some (drop 9 exportName) else None)"

definition upper_char :: "char \<Rightarrow> char" where
  "upper_char c = (if is_lower c then char_of (of_char c - (32 :: nat)) else c)"

definition toUpperCase :: "string \<Rightarrow> string" where
  "toUpperCase s = map upper_char s"

subsection \<open>Parameters\<close>

definition validParamName :: "string \<Rightarrow> bool" where
  "validParamName p \<longleftrightarrow> p \<noteq> [] \<and> list_all is_word_char p"

definition param_message :: "nat \<Rightarrow> string \<Rightarrow> string" where
  "param_message k prm =
     ''Invalid Pages function route parameter - '' @ [CHR 0x22] @ replicate k CHR ''['' @ prm @ replicate k CHR '']''
       @ [CHR 0x22] @ (if k = 2 then ''. Parameters names'' else ''. Parameter names'')
       @ '' must only contain alphanumeric and underscore characters.''"

text \<open>The text between two opening brackets and the next closing bracket, and what follows it.\<close>

definition bracketed :: "nat \<Rightarrow> string \<Rightarrow> (string \<times> string) option" where
  "bracketed k s =
     (let r = drop k s;
          prm = takeWhile (\<lambda>c. c \<noteq> CHR '']'') r; rest = dropWhile (\<lambda>c. c \<noteq> CHR '']'') r
      in if startsWith s (replicate k CHR ''['') \<and> prm \<noteq> [] \<and> startsWith rest (replicate k CHR '']'')
         then Some (prm, drop k rest) else None)"

lemma bracketed_shorter: "bracketed k s = Some (prm, rest) \<Longrightarrow> length rest < length s"
proof -
  assume a: "bracketed k s = Some (prm, rest)"
  then have "prm \<noteq> []" and e: "prm @ dropWhile (\<lambda>c. c \<noteq> CHR '']'') (drop k s) = drop k s"
    and r: "rest = drop k (dropWhile (\<lambda>c. c \<noteq> CHR '']'') (drop k s))"
    by (auto simp: bracketed_def Let_def split: if_splits)
  from e have "length prm + length (dropWhile (\<lambda>c. c \<noteq> CHR '']'') (drop k s)) = length s - k"
    by (metis length_append length_drop)
  with \<open>prm \<noteq> []\<close> r show ?thesis by (cases prm) auto
qed

text \<open>
  \<open>convertCatchallParams\<close> (\<open>k\<close> is 2 and the suffix a star) and \<open>convertSimpleParams\<close> (\<open>k\<close> is 1, no suffix).
\<close>

function convertParams :: "nat \<Rightarrow> string \<Rightarrow> string \<Rightarrow> function_error + string" where
  "convertParams k star [] = Inr []"
| "convertParams k star (c # s) =
     (case bracketed k (c # s) of
        Some (prm, rest) \<Rightarrow>
          if validParamName prm then
            andThen (convertParams k star rest) (\<lambda>t. Inr (CHR '':'' # prm @ star @ t))
          else Inl (FatalError (param_message k prm))
      | None \<Rightarrow> andThen (convertParams k star s) (\<lambda>t. Inr (c # t)))"
  by pat_completeness auto
termination
  by (relation "measure (\<lambda>(k, star, s). length s)") (auto dest: bracketed_shorter)

definition convertCatchallParams :: "string \<Rightarrow> function_error + string" where
  "convertCatchallParams routePath = convertParams 2 ''*'' routePath"

definition convertSimpleParams :: "string \<Rightarrow> function_error + string" where
  "convertSimpleParams routePath = convertParams 1 [] routePath"

definition convertPath :: "string \<Rightarrow> function_error + string" where
  "convertPath p = andThen (convertCatchallParams p) convertSimpleParams"

subsection \<open>Routes\<close>

record routeConfig =
  rc_routePath :: string
  rc_mountPath :: string
  rc_method :: string
  rc_middleware :: "string list option"
  rc_module :: "string list option"

definition normaliseBaseURL :: "string \<Rightarrow> string" where
  "normaliseBaseURL baseURL0 =
     (let baseURL = (if startsWith baseURL0 ''/'' then baseURL0 else ''/'' @ baseURL0)
      in if endsWith baseURL ''/'' then butlast baseURL else baseURL)"

definition isMiddlewareName :: "string \<Rightarrow> bool" where
  "isMiddlewareName basename \<longleftrightarrow> basename = ''_middleware'' \<or> basename = ''_middleware_''"

text \<open>The unconverted route and mount path of a file, by its path relative to the base directory.\<close>

definition routePaths :: "string \<Rightarrow> string list \<Rightarrow> string \<times> string" where
  "routePaths baseURL names =
     (let ext = extname (last names);
          basename = take (length (last names) - length ext) (last names);
          relative = join_with ''/'' names;
          routePath0 = take (length relative - length ext) relative;
          mountPath = dirname routePath0;
          routePath = (if basename = ''index'' \<or> isMiddlewareName basename then dirname routePath0 else routePath0);
          unDot = (\<lambda>p. if p = ''.'' then [] else p)
      in (baseURL @ ''/'' @ unDot routePath, baseURL @ ''/'' @ unDot mountPath))"

definition routeEntry :: "string \<Rightarrow> string list \<Rightarrow> string \<Rightarrow> string \<Rightarrow> function_error + routeConfig" where
  "routeEntry baseURL names exportName method =
     (let ext = extname (last names);
          basename = take (length (last names) - length ext) (last names);
          (routePath, mountPath) = routePaths baseURL names;
          modules = Some [toUrlPath (join_with ''/'' names) @ '':'' @ exportName]
      in andThen (convertPath routePath) (\<lambda>route.
         andThen (convertPath mountPath) (\<lambda>mount.
         Inr \<lparr>rc_routePath = toUrlPath route, rc_mountPath = toUrlPath mount, rc_method = toUpperCase method,
              rc_middleware = (if isMiddlewareName basename then modules else None),
              rc_module = (if isMiddlewareName basename then None else modules)\<rparr>)))"

text \<open>The entries of the exports of one file, in order.\<close>

fun exportEntries :: "string \<Rightarrow> string list \<Rightarrow> string list \<Rightarrow> function_error + routeConfig list" where
  "exportEntries baseURL names [] = Inr []"
| "exportEntries baseURL names (e # es) =
     (case exportMethod e of
        None \<Rightarrow> exportEntries baseURL names es
      | Some method \<Rightarrow>
          andThen (routeEntry baseURL names e method) (\<lambda>r.
          andThen (exportEntries baseURL names es) (\<lambda>rs. Inr (r # rs))))"

definition fileEntries ::
  "(string list \<Rightarrow> string list option) \<Rightarrow> string \<Rightarrow> string list \<Rightarrow> function_error + routeConfig list"
where
  "fileEntries exportNames baseURL names =
     (if isFunctionExtension (extname (last names)) then
        (case exportNames names of
           None \<Rightarrow> Inl FunctionsBuildError
         | Some es \<Rightarrow> exportEntries baseURL names es)
      else Inr [])"

fun allEntries ::
  "(string list \<Rightarrow> string list option) \<Rightarrow> string \<Rightarrow> string list list \<Rightarrow> function_error + routeConfig list"
where
  "allEntries exportNames baseURL [] = Inr []"
| "allEntries exportNames baseURL (f # fs) =
     andThen (fileEntries exportNames baseURL f) (\<lambda>rs.
     andThen (allEntries exportNames baseURL fs) (\<lambda>rs1. Inr (rs @ rs1)))"

text \<open>\<open>Object.assign(existing, rest)\<close>: only the properties that \<open>rest\<close> has are replaced.\<close>

definition assignEntry :: "routeConfig \<Rightarrow> routeConfig \<Rightarrow> routeConfig" where
  "assignEntry existing e =
     existing\<lparr>rc_mountPath := rc_mountPath e, rc_method := rc_method e,
       rc_middleware := (if rc_middleware e = None then rc_middleware existing else rc_middleware e),
       rc_module := (if rc_module e = None then rc_module existing else rc_module e)\<rparr>"

definition same_route :: "routeConfig \<Rightarrow> routeConfig \<Rightarrow> bool" where
  "same_route a b \<longleftrightarrow> rc_routePath a = rc_routePath b \<and> rc_method a = rc_method b"

fun combineEntry :: "routeConfig list \<Rightarrow> routeConfig \<Rightarrow> routeConfig list" where
  "combineEntry [] e = [e]"
| "combineEntry (r # rs) e = (if same_route r e then assignEntry r e # rs else r # combineEntry rs e)"

definition combineEntries :: "routeConfig list \<Rightarrow> routeConfig list" where
  "combineEntries es = foldl combineEntry [] es"

subsection \<open>The order of routes\<close>

fun compareRouteSegments :: "string list \<Rightarrow> string list \<Rightarrow> int option" where
  "compareRouteSegments (a # as) (b # bs) =
     (let isWildcardA = CHR ''*'' \<in> set a; isWildcardB = CHR ''*'' \<in> set b;
          isParamA = CHR '':'' \<in> set a; isParamB = CHR '':'' \<in> set b in
      if isWildcardA \<and> \<not> isWildcardB then Some 1
      else if \<not> isWildcardA \<and> isWildcardB then Some (-1)
      else if isParamA \<and> \<not> isParamB then Some 1
      else if \<not> isParamA \<and> isParamB then Some (-1)
      else compareRouteSegments as bs)"
| "compareRouteSegments _ _ = None"

definition compareRouteConfigs :: "(string \<Rightarrow> string \<Rightarrow> int) \<Rightarrow> routeConfig \<Rightarrow> routeConfig \<Rightarrow> int" where
  "compareRouteConfigs localeCompare a b =
     (let segmentsA = parseRoutePath (rc_routePath a); segmentsB = parseRoutePath (rc_routePath b) in
      if length segmentsA \<noteq> length segmentsB then int (length segmentsB) - int (length segmentsA)
      else (case compareRouteSegments segmentsA segmentsB of
              Some n \<Rightarrow> n
            | None \<Rightarrow>
                if rc_method a \<noteq> [] \<and> rc_method b = [] then -1
                else if rc_method a = [] \<and> rc_method b \<noteq> [] then 1
                else localeCompare (rc_routePath a) (rc_routePath b)))"

definition generateConfigFromFileTree ::
  "(string \<Rightarrow> string \<Rightarrow> int) \<Rightarrow> (string list \<Rightarrow> string list option) \<Rightarrow> string \<Rightarrow> fs_dir
   \<Rightarrow> function_error + routeConfig list"
where
  "generateConfigFromFileTree localeCompare exportNames baseURL baseDir =
     andThen (allEntries exportNames (normaliseBaseURL baseURL) (forEachFile [([], baseDir)])) (\<lambda>es.
     Inr (js_sort (compareRouteConfigs localeCompare) (combineEntries es)))"

text \<open>What \<open>buildFunctions\<close> does with the routes: none is an error, otherwise they become routing rules.\<close>

definition routeInputOf :: "routeConfig \<Rightarrow> routeInput" where
  "routeInputOf r =
     \<lparr>ri_routePath = rc_routePath r,
      ri_middleware = (case rc_middleware r of None \<Rightarrow> NoMiddleware | Some l \<Rightarrow> MiddlewareList l)\<rparr>"

definition buildRoutes ::
  "(string \<Rightarrow> string \<Rightarrow> int) \<Rightarrow> (string list \<Rightarrow> string list option) \<Rightarrow> fs_dir
   \<Rightarrow> function_error + routeConfig list \<times> routesJSONSpec"
where
  "buildRoutes localeCompare exportNames functionsDirectory =
     andThen (generateConfigFromFileTree localeCompare exportNames (toUrlPath ''/'') functionsDirectory) (\<lambda>routes.
     if routes = [] then Inl FunctionsNoRoutesError
     else Inr (routes, convertRoutesToRoutesJSONSpec localeCompare (map routeInputOf routes)))"

end
