(* ===== verification/NodePath.thy ===== *)
theory NodePath
  imports FunctionFiles
begin

text \<open>
  The functions of Node's \<^verbatim>\<open>path\<close> module (for POSIX) that the validation of configurations uses.
\<close>

definition absolute :: "string \<Rightarrow> bool" where
  "absolute p \<longleftrightarrow> startsWith p ''/''"

text \<open>Dots are resolved segment by segment; a relative path may go above its start.\<close>

definition path_step :: "bool \<Rightarrow> string list \<Rightarrow> string \<Rightarrow> string list" where
  "path_step up acc s =
     (if s = [] \<or> s = ''.'' then acc
      else if s = ''..'' then
        (if acc \<noteq> [] \<and> last acc \<noteq> ''..'' then butlast acc else if up then acc @ [''..''] else acc)
      else acc @ [s])"

definition normal_segments :: "bool \<Rightarrow> string list \<Rightarrow> string list" where
  "normal_segments up = foldl (path_step up) []"

definition path_segments :: "string \<Rightarrow> string list" where
  "path_segments p = normal_segments (\<not> absolute p) (split_on CHR ''/'' p)"

definition path_normalize :: "string \<Rightarrow> string" where
  "path_normalize p =
     (let q = join_with ''/'' (path_segments p); trailing = endsWith p ''/'' in
      if p = [] then ''.''
      else if q = [] then (if absolute p then ''/'' else if trailing then ''./'' else ''.'')
      else (if absolute p then ''/'' else []) @ q @ (if trailing then ''/'' else []))"

definition path_join :: "string list \<Rightarrow> string" where
  "path_join ps = path_normalize (join_with ''/'' (filter (\<lambda>p. p \<noteq> []) ps))"

text \<open>\<open>resolve\<close> starts from the last absolute argument, or from the working directory.\<close>

definition resolve_step :: "string \<Rightarrow> string \<Rightarrow> string" where
  "resolve_step base p = (if p = [] then base else if absolute p then p else base @ ''/'' @ p)"

definition absolute_segments :: "string \<Rightarrow> string list \<Rightarrow> string list" where
  "absolute_segments cwd ps = normal_segments False (split_on CHR ''/'' (foldl resolve_step cwd ps))"

definition path_resolve :: "string \<Rightarrow> string list \<Rightarrow> string" where
  "path_resolve cwd ps = ''/'' @ join_with ''/'' (absolute_segments cwd ps)"

fun common_length :: "string list \<Rightarrow> string list \<Rightarrow> nat" where
  "common_length (x # xs) (y # ys) = (if x = y then Suc (common_length xs ys) else 0)"
| "common_length _ _ = 0"

definition path_relative :: "string \<Rightarrow> string \<Rightarrow> string \<Rightarrow> string" where
  "path_relative cwd start target =
     (let a = absolute_segments cwd [start]; b = absolute_segments cwd [target]; n = common_length a b in
      join_with ''/'' (replicate (length a - n) ''..'' @ drop n b))"

definition path_dirname :: "string \<Rightarrow> string" where
  "path_dirname p =
     (let body = dropWhile (\<lambda>c. c = CHR ''/'') (rev p); up = dropWhile (\<lambda>c. c \<noteq> CHR ''/'') body in
      if p = [] then ''.''
      else if body = [] then ''/''
      else if up = [] then ''.''
      else if tl up = [] then ''/''
      else if tl up = ''/'' then ''//''
      else rev (tl up))"

definition path_extname :: "string \<Rightarrow> string" where
  "path_extname p =
     extname (rev (takeWhile (\<lambda>c. c \<noteq> CHR ''/'') (dropWhile (\<lambda>c. c = CHR ''/'') (rev p))))"

subsection \<open>A relative path leads to its target\<close>

definition clean :: "string list \<Rightarrow> bool" where
  "clean ws \<longleftrightarrow> (\<forall>w \<in> set ws. w \<noteq> [] \<and> w \<noteq> ''.'' \<and> w \<noteq> ''..'' \<and> CHR ''/'' \<notin> set w)"

lemma clean_drop: "clean b \<Longrightarrow> clean (drop n b)"
  unfolding clean_def using set_drop_subset [of n b] by blast

lemma clean_step: "clean acc \<Longrightarrow> CHR ''/'' \<notin> set s \<Longrightarrow> clean (path_step False acc s)"
  by (auto simp: clean_def path_step_def dest: in_set_butlastD)

lemma clean_foldl:
  "clean acc \<Longrightarrow> (\<And>s. s \<in> set ss \<Longrightarrow> CHR ''/'' \<notin> set s) \<Longrightarrow> clean (foldl (path_step False) acc ss)"
  by (induction ss arbitrary: acc) (auto simp: clean_step)

lemma clean_absolute: "clean (absolute_segments cwd ps)"
  unfolding absolute_segments_def normal_segments_def
  by (rule clean_foldl) (auto simp: clean_def dest: split_on_no_sep)

lemma foldl_clean: "clean ss \<Longrightarrow> foldl (path_step False) acc ss = acc @ ss"
  by (induction ss arbitrary: acc) (auto simp: clean_def path_step_def)

lemma foldl_up: "clean acc \<Longrightarrow> n \<le> length acc \<Longrightarrow>
    foldl (path_step False) acc (replicate n ''..'') = take (length acc - n) acc"
proof (induction n arbitrary: acc)
  case (Suc n)
  then have "acc \<noteq> []" by auto
  with Suc.prems have "path_step False acc ''..'' = butlast acc"
    by (auto simp: path_step_def clean_def)
  moreover have "clean (butlast acc)" using Suc.prems by (auto simp: clean_def dest: in_set_butlastD)
  ultimately show ?case using Suc by (simp add: take_butlast)
qed simp

lemma common_length_le: "common_length a b \<le> length a" "common_length a b \<le> length b"
  by (induction a b rule: common_length.induct) auto

lemma take_common: "take (common_length a b) a = take (common_length a b) b"
  by (induction a b rule: common_length.induct) auto

definition relative_segments :: "string list \<Rightarrow> bool" where
  "relative_segments ws \<longleftrightarrow> (\<forall>w \<in> set ws. w \<noteq> [] \<and> CHR ''/'' \<notin> set w)"

lemma relative_segments_clean: "clean b \<Longrightarrow> relative_segments (replicate k ''..'' @ drop n b)"
proof -
  assume "clean b"
  then have b: "clean (drop n b)" by (rule clean_drop)
  show ?thesis unfolding relative_segments_def
  proof
    fix w
    assume "w \<in> set (replicate k ''..'' @ drop n b)"
    then consider "w = ''..''" | "w \<in> set (drop n b)"
      unfolding set_append in_set_replicate Un_iff by blast
    then show "w \<noteq> [] \<and> CHR ''/'' \<notin> set w"
    proof cases
      case 2
      with b show ?thesis unfolding clean_def by blast
    qed simp
  qed
qed

lemma relative_not_absolute:
  assumes "relative_segments ws"
  shows "\<not> absolute (join_with ''/'' ws)"
proof (cases ws)
  case (Cons w vs)
  with assms obtain c u where w: "w = c # u" "c \<noteq> CHR ''/''"
    by (cases w) (auto simp: relative_segments_def)
  then show ?thesis using Cons by (cases vs) (simp_all add: absolute_def startsWith_def)
qed (simp add: absolute_def startsWith_def)

lemma split_on_relative:
  assumes "relative_segments ws" "ws \<noteq> []"
  shows "split_on CHR ''/'' (join_with ''/'' ws) = ws" "join_with ''/'' ws \<noteq> []"
proof -
  show s: "split_on CHR ''/'' (join_with ''/'' ws) = ws"
    using assms by (intro split_on_join) (auto simp: relative_segments_def)
  show "join_with ''/'' ws \<noteq> []"
  proof
    assume "join_with ''/'' ws = []"
    with s have "ws = [[]]" by simp
    with assms(1) show False by (simp add: relative_segments_def)
  qed
qed

lemma path_relative_resolves:
  "absolute_segments cwd [start, path_relative cwd start target] = absolute_segments cwd [target]"
proof -
  define a where "a = absolute_segments cwd [start]"
  define b where "b = absolute_segments cwd [target]"
  define n where "n = common_length a b"
  define ws where "ws = replicate (length a - n) ''..'' @ drop n b"
  have clean: "clean a" "clean b" by (simp_all add: a_def b_def clean_absolute)
  have n: "n \<le> length a" "take n a = take n b"
    unfolding n_def by (rule common_length_le take_common)+
  have rel: "path_relative cwd start target = join_with ''/'' ws"
    by (simp add: path_relative_def ws_def n_def a_def b_def Let_def)
  have goal: "foldl (path_step False) a ws = b"
  proof -
    have "foldl (path_step False) a ws = take n a @ drop n b"
      using clean n(1) by (simp add: ws_def foldl_up foldl_clean clean_drop)
    then show ?thesis by (simp only: n(2) append_take_drop_id)
  qed
  have seg: "relative_segments ws" unfolding ws_def by (rule relative_segments_clean [OF clean(2)])
  show ?thesis
  proof (cases "ws = []")
    case True
    with goal show ?thesis by (simp add: rel absolute_segments_def resolve_step_def a_def b_def)
  next
    case False
    note split = split_on_relative [OF seg False]
    have "absolute_segments cwd [start, path_relative cwd start target] = foldl (path_step False) a ws"
      unfolding rel
      by (simp add: absolute_segments_def normal_segments_def resolve_step_def
            split_on_append_sep a_def split relative_not_absolute [OF seg])
    with goal show ?thesis by (simp add: b_def)
  qed
qed

text \<open>Absolute paths stay as they are; the working directory may be given as a start.\<close>

lemma clean_join:
  assumes "clean ss"
  shows "normal_segments False (split_on CHR ''/'' (''/'' @ join_with ''/'' ss)) = ss"
proof -
  have "split_on CHR ''/'' (''/'' @ join_with ''/'' ss) = [] # split_on CHR ''/'' (join_with ''/'' ss)"
    using split_on_append_sep [of "CHR ''/''" "[]"] by simp
  moreover have "foldl (path_step False) [] (split_on CHR ''/'' (join_with ''/'' ss)) = ss"
  proof (cases "ss = []")
    case True
    then show ?thesis by (simp add: path_step_def)
  next
    case False
    with assms have "split_on CHR ''/'' (join_with ''/'' ss) = ss" by (auto simp: clean_def intro: split_on_join)
    with foldl_clean [OF assms, of "[]"] show ?thesis by simp
  qed
  ultimately show ?thesis by (simp add: normal_segments_def path_step_def)
qed

lemma absolute_path_resolve: "absolute (path_resolve cwd ps)"
  by (simp add: path_resolve_def absolute_def startsWith_def)

lemma resolve_absolute:
  "absolute p \<Longrightarrow> absolute_segments cwd [start, p] = normal_segments False (split_on CHR ''/'' p)"
  by (auto simp: absolute_segments_def resolve_step_def absolute_def startsWith_def)

lemma resolve_resolved: "path_resolve cwd [start, path_resolve cwd' ps] = path_resolve cwd' ps"
  unfolding path_resolve_def [of cwd "[start, path_resolve cwd' ps]"] resolve_absolute [OF absolute_path_resolve]
  unfolding path_resolve_def clean_join [OF clean_absolute] ..

lemma resolve_from_cwd: "absolute cwd \<Longrightarrow> absolute_segments cwd [cwd, p] = absolute_segments cwd [p]"
  by (cases "cwd = []") (simp_all add: absolute_segments_def resolve_step_def absolute_def)

end
