(* ===== verification/ConfigFields.thy ===== *)
theory ConfigFields
  imports ConfigContainers NodePath
begin

text \<open>
  The parts of a configuration that are normalised as well as validated, of
  \<^verbatim>\<open>wrangler/src/config/validation.ts\<close>: paths, \<open>build\<close>, \<open>dev\<close>, \<open>site\<close>, \<open>alias\<close>, \<open>legacy_assets\<close>, the
  modules, the rules.
\<close>

subsection \<open>The process\<close>

text \<open>
  What the validation reads of its process, and two libraries: the working directory, whether the
  platform is Windows, whether warnings of experimental fields are off, \<open>TOML.stringify({ rules })\<close> and
  the template tag \<open>dedent\<close>.
\<close>

record config_host =
  h_cwd :: string
  h_windows :: bool
  h_quiet :: bool
  h_toml_rules :: "jval \<Rightarrow> string"
  h_dedent :: "string list \<Rightarrow> string list \<Rightarrow> string"

definition has_path_text :: "string option \<Rightarrow> bool" where
  "has_path_text configPath \<longleftrightarrow> configPath \<noteq> None \<and> configPath \<noteq> Some []"

definition configDir :: "string option \<Rightarrow> string" where
  "configDir configPath =
     path_dirname (case configPath of None \<Rightarrow> ''wrangler.toml'' | Some p \<Rightarrow> p)"

text \<open>The functions of \<^verbatim>\<open>path\<close> refuse arguments that are not strings.\<close>

fun text_of :: "jval \<Rightarrow> string res" where
  "text_of (JString s) = Inr s"
| "text_of _ = Inl TypeError"

text \<open>A path in the configuration file, rewritten to be relative to the working directory.\<close>

definition relative_to_cwd :: "config_host \<Rightarrow> string option \<Rightarrow> string \<Rightarrow> string" where
  "relative_to_cwd h configPath p =
     path_relative (h_cwd h) (h_cwd h) (path_join [configDir configPath, p])"

subsection \<open>Deprecated fields\<close>

definition build_message :: "string \<Rightarrow> string" where
  "build_message main =
     ''Delete the `build.upload.main` and `build.upload.dir` fields.'' @ newline
       @ ''Then add the top level `main` field to your configuration file:'' @ newline
       @ ''```'' @ newline @ ''main = '' @ quote main @ newline @ ''```''"

definition build_format_message :: string where
  "build_format_message = ''The format is inferred automatically from the code.''"

definition build_dir_message :: string where
  "build_dir_message =
     ''Use the top level '' @ quote ''main''
       @ '' field or a command-line argument to specify the entry-point for the Worker.''"

definition both_mains_message :: string where
  "both_mains_message =
     ''Don'' @ [CHR 0x27] @ ''t define both the `main` and `build.upload.main` fields in your configuration.'' @ newline
       @ ''They serve the same purpose: to point to the entry-point of your worker.'' @ newline
       @ ''Delete the `build.upload.main` and `build.upload.dir` field from your config.''"

subsection \<open>Build\<close>

definition default_to :: "jval \<Rightarrow> jval \<Rightarrow> jval" where
  "default_to w v = (if v = JUndefined then w else v)"

definition rest_keys :: "jval \<Rightarrow> string list \<Rightarrow> string list" where
  "rest_keys v taken = filter (\<lambda>k. k \<notin> set taken) (object_keys v)"

definition validateWatchDir :: "jval \<Rightarrow> diagnostics \<Rightarrow> verdict" where
  "validateWatchDir watch_dir =
     (if is_array watch_dir then validateTypedArray ''build.watch_dir'' watch_dir ''string''
      else validateOptionalProperty ''build'' ''watch_dir'' watch_dir ''string'' None)"

definition deprecatedBuildFields ::
    "jval \<Rightarrow> diagnostics \<times> jval \<Rightarrow> (diagnostics \<times> jval) res" where
  "deprecatedBuildFields upload = (\<lambda>(d, rawEnv).
     andThen (deprecated ''build.upload.format'' build_format_message True ''Deprecation'' (d, rawEnv)) (\<lambda>(d, rawEnv).
       if prop_of rawEnv ''main'' \<noteq> JUndefined \<and> truthy (prop_of upload ''main'')
       then Inr (pushError both_mains_message d, rawEnv)
       else
         andThen (text_of (coalesce (prop_of upload ''dir'') (JString ''./dist''))) (\<lambda>dir.
         andThen (text_of (coalesce (prop_of upload ''main'') (JString ''.''))) (\<lambda>main.
         andThen (deprecated ''build.upload.main'' (build_message (path_join [dir, main])) True
                    ''Deprecation'' (d, rawEnv))
           (deprecated ''build.upload.dir'' build_dir_message True ''Deprecation'')))))"

definition watchDirs :: "config_host \<Rightarrow> string option \<Rightarrow> jval \<Rightarrow> jval \<Rightarrow> jval" where
  "watchDirs h configPath command watch_dir =
     (if truthy command \<and> has_path_text configPath then
        (if is_array watch_dir
         then JArray (map (\<lambda>dir. JString (relative_to_cwd h configPath (js_string dir))) (elements watch_dir))
         else JString (relative_to_cwd h configPath (js_string watch_dir)))
      else watch_dir)"

text \<open>The normalised \<open>build\<close>, the deprecated \<open>upload\<close> and the environment without its fields.\<close>

definition normalizeAndValidateBuild ::
    "config_host \<Rightarrow> string option \<Rightarrow> jval \<Rightarrow> diagnostics \<times> jval \<Rightarrow> (jval \<times> jval \<times> diagnostics \<times> jval) res" where
  "normalizeAndValidateBuild h configPath rawBuild = (\<lambda>(d, rawEnv).
     let command = prop_of rawBuild ''command''; dir = prop_of rawBuild ''cwd'';
       watch_dir = default_to (JString ''./src'') (prop_of rawBuild ''watch_dir'');
       upload = prop_of rawBuild ''upload'';
       (_, d) = validateAdditionalProperties ''build''
                  (rest_keys rawBuild [''command'', ''cwd'', ''watch_dir'', ''upload'']) [] d;
       (_, d) = validateOptionalProperty ''build'' ''command'' command ''string'' None d;
       (_, d) = validateOptionalProperty ''build'' ''cwd'' dir ''string'' None d;
       (_, d) = validateWatchDir watch_dir d
     in andThen (deprecatedBuildFields upload (d, rawEnv)) (\<lambda>(d, rawEnv). Inr
          (JObject [(''command'', command), (''watch_dir'', watchDirs h configPath command watch_dir), (''cwd'', dir)],
           JObject (own_entries upload), d, rawEnv)))"

subsection \<open>Paths\<close>

text \<open>A path is resolved against the directory of the configuration; other values are left alone.\<close>

fun resolve_field :: "config_host \<Rightarrow> string option \<Rightarrow> jval \<Rightarrow> jval" where
  "resolve_field h configPath (JString p) =
     JString (path_resolve (h_cwd h) [path_resolve (h_cwd h) [configDir configPath], p])"
| "resolve_field h configPath v = v"

definition normalizeAndValidateMainField ::
    "config_host \<Rightarrow> string option \<Rightarrow> jval \<Rightarrow> jval \<Rightarrow> jval res" where
  "normalizeAndValidateMainField h configPath rawMain deprecatedUpload =
     (if rawMain \<noteq> JUndefined then Inr (resolve_field h configPath rawMain)
      else if prop_of deprecatedUpload ''main'' \<noteq> JUndefined then
        (let dir = prop_of deprecatedUpload ''dir'' in
         andThen (text_of (if truthy dir then dir else JString ''./dist'')) (\<lambda>dir.
         andThen (text_of (prop_of deprecatedUpload ''main'')) (\<lambda>main. Inr
           (JString (path_resolve (h_cwd h) [path_resolve (h_cwd h) [configDir configPath, dir], main])))))
      else Inr JUndefined)"

definition normalizeAndValidateBaseDirField :: "config_host \<Rightarrow> string option \<Rightarrow> jval \<Rightarrow> jval" where
  "normalizeAndValidateBaseDirField h configPath rawDir = resolve_field h configPath rawDir"

definition normalizeAndValidatePagesBuildOutputDir :: "config_host \<Rightarrow> string option \<Rightarrow> jval \<Rightarrow> jval" where
  "normalizeAndValidatePagesBuildOutputDir h configPath rawPagesDir = resolve_field h configPath rawPagesDir"

subsection \<open>Development server\<close>

definition http_protocols :: "jval list" where
  "http_protocols = [JString ''http'', JString ''https'']"

definition valid_protocol_arg :: "jval \<Rightarrow> bool" where
  "valid_protocol_arg v \<longleftrightarrow> v = JUndefined \<or> v \<in> set http_protocols"

text \<open>
  The default of \<open>upstream_protocol\<close> is read as \<open>(upstreamProtocolArg ?? remoteArg) ? "https" : local_protocol\<close>.
\<close>

definition dev_defaults :: "config_host \<Rightarrow> jval \<Rightarrow> jval \<Rightarrow> (string \<times> jval) list" where
  "dev_defaults h args rawDev =
     (let local = default_to (coalesce (prop_of args ''localProtocol'') (JString ''http''))
                    (prop_of rawDev ''local_protocol'')
      in [(''ip'', default_to (JString (if h_windows h then ''127.0.0.1'' else ''localhost''))
                     (prop_of rawDev ''ip'')),
          (''port'', prop_of rawDev ''port''),
          (''inspector_port'', prop_of rawDev ''inspector_port''),
          (''local_protocol'', local),
          (''upstream_protocol'',
             default_to (if truthy (coalesce (prop_of args ''upstreamProtocol'') (prop_of args ''remote''))
                         then JString ''https'' else local)
               (prop_of rawDev ''upstream_protocol'')),
          (''host'', prop_of rawDev ''host'')])"

definition normalizeAndValidateDev ::
    "config_host \<Rightarrow> jval \<Rightarrow> jval \<Rightarrow> diagnostics \<Rightarrow> (jval \<times> diagnostics) res" where
  "normalizeAndValidateDev h args rawDev d =
     andThen (check (is_object args \<and> \<not> is_array args \<and>
                     valid_protocol_arg (prop_of args ''localProtocol'') \<and>
                     valid_protocol_arg (prop_of args ''upstreamProtocol'') \<and>
                     (prop_of args ''remote'' = JUndefined \<or> js_typeof (prop_of args ''remote'') = ''boolean''))
                AssertionError) (\<lambda>_.
       let dev = JObject (dev_defaults h args rawDev);
         optional = (\<lambda>k type choices d. snd (validateOptionalProperty ''dev'' k (prop_of dev k) type choices d));
         d = snd (validateAdditionalProperties ''dev'' (rest_keys rawDev
               [''ip'', ''port'', ''inspector_port'', ''local_protocol'', ''upstream_protocol'', ''host'']) [] d);
         d = optional ''ip'' ''string'' None d;
         d = optional ''port'' ''number'' None d;
         d = optional ''inspector_port'' ''number'' None d;
         d = optional ''local_protocol'' ''string'' (Some http_protocols) d;
         d = optional ''upstream_protocol'' ''string'' (Some http_protocols) d;
         d = optional ''host'' ''string'' None d
       in Inr (dev, d))"

subsection \<open>Sites\<close>

definition main_fence :: "string \<Rightarrow> string" where
  "main_fence main = ''```'' @ newline @ ''main = '' @ quote main @ newline @ ''```''"

definition site_entry_message :: "jval \<Rightarrow> string" where
  "site_entry_message entry =
     (let e = (if js_string entry = [] then ''workers-site'' else js_string entry) in
      ''Delete the `site.entry-point` field, then add the top level `main` field to your configuration file:''
        @ newline @ main_fence (path_join [e, if path_extname e \<noteq> [] then [] else ''index.js'']))"

definition site_default_message :: string where
  "site_default_message =
     ''Because you'' @ [CHR 0x27] @ ''ve defined a [site] configuration, we'' @ [CHR 0x27] @ ''re defaulting to ''
       @ quote ''workers-site'' @ '' for the deprecated `site.entry-point`field.'' @ newline
       @ ''Add the top level `main` field to your configuration file:'' @ newline
       @ main_fence ''workers-site/index.js''"

definition site_both_message :: string where
  "site_both_message =
     ''Don'' @ [CHR 0x27] @ ''t define both the `main` and `site.entry-point` fields in your configuration.'' @ newline
       @ ''They serve the same purpose: to point to the entry-point of your worker.'' @ newline
       @ ''Delete the deprecated `site.entry-point` field from your config.''"

definition siteEntryPoint ::
    "config_host \<Rightarrow> string option \<Rightarrow> jval \<Rightarrow> jval \<Rightarrow> diagnostics \<Rightarrow> (jval \<times> diagnostics) res" where
  "siteEntryPoint h configPath main entry d =
     (let (entry, d) =
        (if \<not> truthy main \<and> \<not> truthy entry then (JString ''workers-site'', pushWarning site_default_message d)
         else if truthy main \<and> truthy entry then (entry, pushError site_both_message d)
         else (entry, d))
      in if has_path_text configPath \<and> truthy entry
         then andThen (text_of entry) (\<lambda>e. Inr (JString (relative_to_cwd h configPath e), d))
         else Inr (entry, d))"

definition siteList :: "jval \<Rightarrow> string \<Rightarrow> jval" where
  "siteList site key = default_to (JArray []) (prop_of site key)"

definition siteChecks :: "jval \<Rightarrow> diagnostics \<Rightarrow> diagnostics" where
  "siteChecks site d =
     (let d = snd (validateAdditionalProperties ''site'' (rest_keys site [''bucket'', ''include'', ''exclude''])
                     [''entry-point''] d);
        d = snd (validateRequiredProperty ''site'' ''bucket'' (prop_of site ''bucket'') ''string'' None d);
        d = snd (validateTypedArray ''sites.include'' (siteList site ''include'') ''string'' d);
        d = snd (validateTypedArray ''sites.exclude'' (siteList site ''exclude'') ''string'' d)
      in snd (validateOptionalProperty ''site'' ''entry-point'' (prop_of site ''entry-point'') ''string'' None d))"

definition normalizeAndValidateSite ::
    "config_host \<Rightarrow> string option \<Rightarrow> jval \<Rightarrow> jval \<Rightarrow> diagnostics \<Rightarrow> (jval \<times> diagnostics) res" where
  "normalizeAndValidateSite h configPath rawConfig mainEntryPoint d =
     (let site = prop_of rawConfig ''site''; entry = prop_of site ''entry-point'' in
      if site = JUndefined then Inr (JUndefined, d)
      else if site = JNull then Inl TypeError
      else
       andThen (deprecated ''site.entry-point'' (site_entry_message entry) False ''Deprecation''
                  (siteChecks site d, rawConfig))
         (\<lambda>(d, _). andThen (siteEntryPoint h configPath mainEntryPoint entry d) (\<lambda>(point, d). Inr
            (JObject [(''bucket'', prop_of site ''bucket''), (''entry-point'', point),
                      (''include'', siteList site ''include''), (''exclude'', siteList site ''exclude'')], d))))"

subsection \<open>Aliases, assets and modules\<close>

definition alias_object_message :: "jval \<Rightarrow> string" where
  "alias_object_message v = ''Expected alias to be an object, but got '' @ js_typeof v"

definition alias_string_message :: "string \<Rightarrow> jval \<Rightarrow> string" where
  "alias_string_message k v =
     ''Expected alias['' @ quote k @ ''] to be a string, but got '' @ js_typeof v"

definition normalizeAndValidateAliases :: "jval \<Rightarrow> diagnostics \<Rightarrow> (jval \<times> diagnostics) res" where
  "normalizeAndValidateAliases rawConfig d =
     (let a = prop_of rawConfig ''alias'' in
      if a = JUndefined then Inr (JUndefined, d)
      else if js_typeof a \<noteq> ''object'' then Inr (JUndefined, pushError (alias_object_message a) d)
      else if a = JNull then Inl TypeError
      else
       let (ok, d') = foldl (\<lambda>r (k, v). require (js_typeof v = ''string'') (alias_string_message k v) r)
                        (accept d) (own_entries a)
       in Inr (if ok then a else JUndefined, d'))"

definition legacy_assets_object :: "jval \<Rightarrow> jval \<Rightarrow> jval \<Rightarrow> jval \<Rightarrow> jval \<Rightarrow> jval" where
  "legacy_assets_object bucket includes excludes ttl spa =
     JObject [(''bucket'', bucket), (''include'', includes), (''exclude'', excludes), (''browser_TTL'', ttl),
              (''serve_single_page_app'', spa)]"

definition legacy_assets_message :: "string \<Rightarrow> jval \<Rightarrow> string" where
  "legacy_assets_message fieldName v =
     ''Expected the `'' @ fieldName @ ''` field to be a string or an object, but got '' @ js_typeof v @ ''.''"

definition normalizeAndValidateLegacyAssets :: "jval \<Rightarrow> diagnostics \<Rightarrow> (jval \<times> diagnostics) res" where
  "normalizeAndValidateLegacyAssets rawConfig d =
     (let merged = coalesce (prop_of rawConfig ''legacy_assets'') (prop_of rawConfig ''assets'');
        fieldName = (if truthy (prop_of rawConfig ''assets'') then ''assets'' else ''legacy_assets'') in
      if js_typeof merged = ''string''
      then Inr (legacy_assets_object merged (JArray []) (JArray []) JUndefined (JBool False), d)
      else if merged = JUndefined then Inr (JUndefined, d)
      else if js_typeof merged \<noteq> ''object'' then Inr (JUndefined, pushError (legacy_assets_message fieldName merged) d)
      else if merged = JNull then Inl TypeError
      else
       let bucket = prop_of merged ''bucket'';
         includes = default_to (JArray []) (prop_of merged ''include'');
         excludes = default_to (JArray []) (prop_of merged ''exclude'');
         ttl = prop_of merged ''browser_TTL''; spa = prop_of merged ''serve_single_page_app'';
         d = snd (validateAdditionalProperties fieldName (rest_keys merged
               [''bucket'', ''include'', ''exclude'', ''browser_TTL'', ''serve_single_page_app'']) [] d);
         d = snd (validateRequiredProperty fieldName ''bucket'' bucket ''string'' None d);
         d = snd (validateTypedArray (fieldName @ ''.include'') includes ''string'' d);
         d = snd (validateTypedArray (fieldName @ ''.exclude'') excludes ''string'' d);
         d = snd (validateOptionalProperty fieldName ''browser_TTL'' ttl ''number'' None d);
         d = snd (validateOptionalProperty fieldName ''serve_single_page_app'' spa ''boolean'' None d)
       in Inr (legacy_assets_object bucket includes excludes ttl spa, d))"

text \<open>Without the path of the configuration the modules are lost.\<close>

definition module_step ::
    "config_host \<Rightarrow> string option \<Rightarrow> string \<Rightarrow> (string \<times> jval) list \<times> diagnostics \<Rightarrow> string \<times> jval \<Rightarrow>
     (string \<times> jval) list \<times> diagnostics" where
  "module_step h configPath field = (\<lambda>(mapping, d) (name, filePath).
     let (ok, d') = isString d (field @ ''['' @ [CHR 0x27] @ name @ [CHR 0x27] @ '']'') filePath JUndefined in
     (if ok \<and> has_path_text configPath \<and> name \<noteq> ''__proto__''
      then AList.update name (JString (relative_to_cwd h configPath (js_string filePath))) mapping
      else mapping, d'))"

definition normalizeAndValidateModulePaths ::
    "config_host \<Rightarrow> string option \<Rightarrow> string \<Rightarrow> jval \<Rightarrow> diagnostics \<Rightarrow> (jval \<times> diagnostics) res" where
  "normalizeAndValidateModulePaths h configPath field rawMapping d =
     (if rawMapping = JUndefined then Inr (JUndefined, d)
      else if rawMapping = JNull then Inl TypeError
      else
       let (mapping, d') = foldl (module_step h configPath field) ([], d) (own_entries rawMapping)
       in Inr (JObject mapping, d'))"

subsection \<open>Fields with their own checks\<close>

definition empty_message :: "string \<Rightarrow> string" where
  "empty_message field =
     ''The '' @ quote field @ '' field in your configuration is an empty string and will be ignored.'' @ newline
       @ ''Please remove the '' @ quote field @ '' field from your configuration.''"

definition drop_empty :: "string \<Rightarrow> diagnostics \<times> jval \<Rightarrow> diagnostics \<times> jval" where
  "drop_empty field = (\<lambda>(d, rawEnv).
     if prop_of rawEnv field = JString []
     then (pushWarning (empty_message field) d, set_prop field JUndefined rawEnv)
     else (d, rawEnv))"

definition mutateEmptyStringAccountIDValue :: "diagnostics \<times> jval \<Rightarrow> diagnostics \<times> jval" where
  "mutateEmptyStringAccountIDValue = drop_empty ''account_id''"

definition mutateEmptyStringRouteValue :: "diagnostics \<times> jval \<Rightarrow> diagnostics \<times> jval" where
  "mutateEmptyStringRouteValue = drop_empty ''route''"

definition simple ::
    "jval \<Rightarrow> jval \<Rightarrow> string \<Rightarrow> validator \<Rightarrow> jval \<Rightarrow> diagnostics \<Rightarrow> (jval \<times> diagnostics) res" where
  "simple topLevelEnv rawEnv field f defaultValue =
     inheritable topLevelEnv rawEnv field (never_throws f) defaultValue (\<lambda>v. v)"

definition normalizeAndValidateRoute ::
    "jval \<Rightarrow> diagnostics \<times> jval \<Rightarrow> (jval \<times> diagnostics \<times> jval) res" where
  "normalizeAndValidateRoute topLevelEnv st =
     (let (d, rawEnv) = mutateEmptyStringRouteValue st in
      andThen (simple topLevelEnv rawEnv ''route'' isRoute JUndefined d) (\<lambda>(v, d). Inr (v, d, rawEnv)))"

definition validateRoutesField :: "jval \<Rightarrow> jval \<Rightarrow> diagnostics \<Rightarrow> (jval \<times> diagnostics) res" where
  "validateRoutesField topLevelEnv rawEnv =
     simple topLevelEnv rawEnv ''routes'' (all [isRouteArray, isMutuallyExclusiveWith rawEnv [''route'']]) JUndefined"

definition normalizeAndValidatePlacement :: "jval \<Rightarrow> jval \<Rightarrow> diagnostics \<Rightarrow> (jval \<times> diagnostics) res" where
  "normalizeAndValidatePlacement topLevelEnv rawEnv d =
     (let placement = prop_of rawEnv ''placement'';
        d = (if truthy placement
             then snd (validateRequiredProperty ''placement'' ''mode'' (prop_of placement ''mode'') ''string''
                         (Some [JString ''off'', JString ''smart'']) d)
             else d)
      in simple topLevelEnv rawEnv ''placement'' anything JUndefined d)"

definition normalizeAndValidateLimits :: "jval \<Rightarrow> jval \<Rightarrow> diagnostics \<Rightarrow> (jval \<times> diagnostics) res" where
  "normalizeAndValidateLimits topLevelEnv rawEnv d =
     (let limits = prop_of rawEnv ''limits'';
        d = (if truthy limits
             then snd (validateRequiredProperty ''limits'' ''cpu_ms'' (prop_of limits ''cpu_ms'') ''number'' None d)
             else d)
      in simple topLevelEnv rawEnv ''limits'' anything JUndefined d)"

definition validateAndNormalizeTsconfig ::
    "config_host \<Rightarrow> string option \<Rightarrow> jval \<Rightarrow> jval \<Rightarrow> diagnostics \<Rightarrow> (jval \<times> diagnostics) res" where
  "validateAndNormalizeTsconfig h configPath topLevelEnv rawEnv d =
     andThen (simple topLevelEnv rawEnv ''tsconfig'' isString JUndefined d) (\<lambda>(tsconfig, d).
       if has_path_text configPath \<and> truthy tsconfig
       then andThen (text_of tsconfig) (\<lambda>p. Inr (JString (relative_to_cwd h configPath p), d))
       else Inr (tsconfig, d))"

definition both_rules_message :: string where
  "both_rules_message =
     ''You cannot configure both [rules] and [build.upload.rules] in your wrangler.toml. ''
       @ ''Delete the `build.upload` section.''"

definition moved_rules_message :: "string \<Rightarrow> string" where
  "moved_rules_message toml =
     ''Deprecation: The `build.upload.rules` config field is no longer used, the rules should be specified ''
       @ ''via the `rules` config field. Delete the `build.upload` field from the configuration file, and add this:''
       @ newline @ ''```'' @ newline @ toml @ ''```''"

definition validateAndNormalizeRules ::
    "config_host \<Rightarrow> jval \<Rightarrow> jval \<Rightarrow> jval \<Rightarrow> string \<Rightarrow> diagnostics \<Rightarrow> (jval \<times> diagnostics) res" where
  "validateAndNormalizeRules h topLevelEnv rawEnv deprecatedRules envName d =
     (let d = (if topLevelEnv \<noteq> JUndefined then d
               else if truthy (prop_of rawEnv ''rules'') \<and> truthy deprecatedRules
               then pushError both_rules_message d
               else if truthy deprecatedRules
               then pushWarning (moved_rules_message (h_toml_rules h deprecatedRules)) d
               else d)
      in simple topLevelEnv rawEnv ''rules'' (validateRules envName) (coalesce deprecatedRules (JArray [])) d)"

definition migrations_texts :: "string list" where
  "migrations_texts =
     [''In wrangler.toml, you have configured [durable_objects] exported by this Worker ('',
      ''), but no [migrations] for them. This may not work as expected until you add a [migrations] section ''
        @ ''to your wrangler.toml. Add this configuration to your wrangler.toml:'' @ newline @ newline
        @ ''  ```'' @ newline @ ''  [[migrations]]'' @ newline
        @ ''  tag = '' @ quote ''v1'' @ '' # Should be unique for each entry'' @ newline @ ''  new_classes = ['',
      '']'' @ newline @ ''  ```'' @ newline @ newline
        @ ''Refer to https://developers.cloudflare.com/durable-objects/reference/durable-objects-migrations/ ''
        @ ''for more details.'']"

text \<open>The Durable Objects of this worker: bindings without the name of another script.\<close>

fun exported_objects :: "jval list \<Rightarrow> jval list res" where
  "exported_objects [] = Inr []"
| "exported_objects (b # bs) =
     andThen (get_prop b ''script_name'') (\<lambda>s. andThen (exported_objects bs) (\<lambda>es.
       Inr (if truthy s then es else b # es)))"

definition warnIfDurableObjectsHaveNoMigrations ::
    "config_host \<Rightarrow> jval \<Rightarrow> jval \<Rightarrow> diagnostics \<Rightarrow> diagnostics res" where
  "warnIfDurableObjectsHaveNoMigrations h durableObjects migrations d =
     (let bindings = prop_of durableObjects ''bindings'' in
      if is_array bindings \<and> elements bindings \<noteq> [] then
        andThen (exported_objects (elements bindings)) (\<lambda>exported. Inr
          (let names = map (\<lambda>b. prop_of b ''class_name'') exported in
           if exported \<noteq> [] \<and> prop_of migrations ''length'' = JNumber ''0'' \<and>
              list_all (\<lambda>n. js_typeof n = ''string'') names
           then pushWarning (h_dedent h migrations_texts
                  [join_with '', '' (map js_string names),
                   join_with '', '' (map (\<lambda>n. quote (js_string n)) names)]) d
           else d))
      else Inr d)"

end
