(* ===== verification/ConfigValidation.thy ===== *)
theory ConfigValidation
  imports ConfigFields
begin

text \<open>
  The environments of a worker and the whole configuration: \<open>normalizeAndValidateEnvironment\<close> and
  \<open>normalizeAndValidateConfig\<close> of \<^verbatim>\<open>wrangler/src/config/validation.ts\<close>.
\<close>

subsection \<open>Object literals\<close>

text \<open>
  The value of a property of an object literal is computed with the diagnostics so far; the properties
  are computed in their order.
\<close>

type_synonym field_value = "diagnostics \<Rightarrow> (jval \<times> diagnostics) res"

definition given :: "jval \<Rightarrow> field_value" where
  "given v d = Inr (v, d)"

fun object_literal :: "(string \<times> field_value) list \<Rightarrow> diagnostics \<Rightarrow> ((string \<times> jval) list \<times> diagnostics) res" where
  "object_literal [] d = Inr ([], d)"
| "object_literal ((k, f) # ps) d =
     andThen (f d) (\<lambda>(v, d). andThen (object_literal ps d) (\<lambda>(vs, d). Inr ((k, v) # vs, d)))"

text \<open>A property whose value is passed through a function that may throw.\<close>

definition then_value :: "field_value \<Rightarrow> (jval \<Rightarrow> jval res) \<Rightarrow> field_value" where
  "then_value f g d = andThen (f d) (\<lambda>(v, d). andThen (g v) (\<lambda>w. Inr (w, d)))"

subsection \<open>The fields of an environment\<close>

text \<open>What the validation of one environment is given.\<close>

record env_context =
  c_host :: config_host
  c_path :: "string option"
  c_dispatch :: bool
  c_name :: string
  c_top :: jval
  c_legacy :: bool
  c_raw_config :: jval

definition inherits ::
    "env_context \<Rightarrow> jval \<Rightarrow> string \<Rightarrow> throwing_validator \<Rightarrow> jval \<Rightarrow> string \<times> field_value" where
  "inherits c rawEnv field f defaultValue =
     (field, inheritable (c_top c) rawEnv field f defaultValue (\<lambda>v. v))"

definition separate ::
    "env_context \<Rightarrow> jval \<Rightarrow> string \<times> throwing_validator \<times> jval \<Rightarrow> string \<times> field_value" where
  "separate c rawEnv = (\<lambda>(field, f, defaultValue).
     (field, notInheritable (c_top c) (c_raw_config c) rawEnv (c_name c) field f defaultValue))"

definition no_bindings :: jval where
  "no_bindings = JObject [(''bindings'', JArray [])]"

definition inherited_fields ::
    "env_context \<Rightarrow> jval \<Rightarrow> jval \<Rightarrow> jval \<Rightarrow> jval \<Rightarrow> jval \<Rightarrow> jval \<Rightarrow> jval \<Rightarrow> (string \<times> field_value) list" where
  "inherited_fields c rawEnv account_id route routes workers_dev deprecatedUpload build =
     [(''account_id'', given account_id),
      inherits c rawEnv ''compatibility_date'' (never_throws isString) JUndefined,
      inherits c rawEnv ''compatibility_flags'' (never_throws isStringArray) (JArray []),
      inherits c rawEnv ''jsx_factory'' (never_throws isString) (JString ''React.createElement''),
      inherits c rawEnv ''jsx_fragment'' (never_throws isString) (JString ''React.Fragment''),
      (''tsconfig'', validateAndNormalizeTsconfig (c_host c) (c_path c) (c_top c) rawEnv),
      (''rules'', validateAndNormalizeRules (c_host c) (c_top c) rawEnv (prop_of deprecatedUpload ''rules'') (c_name c)),
      (''name'', inheritableInLegacyEnvironments (c_legacy c) (c_top c) rawEnv ''name''
                   (never_throws (if c_dispatch c then isString else isValidName)) (appendEnvName (c_name c)) JUndefined),
      (''main'', then_value (snd (inherits c rawEnv ''main'' (never_throws isString) JUndefined))
                   (\<lambda>v. normalizeAndValidateMainField (c_host c) (c_path c) v deprecatedUpload)),
      inherits c rawEnv ''find_additional_modules'' (never_throws isBoolean) JUndefined,
      inherits c rawEnv ''preserve_file_names'' (never_throws isBoolean) JUndefined,
      (''base_dir'', then_value (snd (inherits c rawEnv ''base_dir'' (never_throws isString) JUndefined))
                       (\<lambda>v. Inr (normalizeAndValidateBaseDirField (c_host c) (c_path c) v))),
      (''route'', given route),
      (''routes'', given routes),
      inherits c rawEnv ''triggers'' (never_throws (isObjectWith [''crons''])) (JObject [(''crons'', JArray [])]),
      inherits c rawEnv ''experimental_assets'' (never_throws validateAssetsConfig) JUndefined,
      inherits c rawEnv ''usage_model'' (never_throws (isOneOf [JString ''bundled'', JString ''unbound''])) JUndefined,
      (''limits'', normalizeAndValidateLimits (c_top c) rawEnv),
      (''placement'', normalizeAndValidatePlacement (c_top c) rawEnv),
      (''build'', given build),
      (''workers_dev'', given workers_dev)]"

text \<open>The fields that are not inherited, with their validators and defaults, in the order of the literal.\<close>

type_synonym field_row = "string \<times> throwing_validator \<times> jval"

definition array_row :: "string \<Rightarrow> string \<Rightarrow> validator \<Rightarrow> field_row" where
  "array_row envName field f = (field, validateBindingArray envName f, JArray [])"

definition first_rows :: "string \<Rightarrow> field_row list" where
  "first_rows n =
     [(''vars'', never_throws (validateVars n), JObject []),
      (''define'', never_throws (validateDefines n), JObject []),
      (''durable_objects'', never_throws (validateBindingsProperty n validateDurableObjectBinding), no_bindings)]"

definition binding_rows :: "string \<Rightarrow> field_row list" where
  "binding_rows n =
     [array_row n ''kv_namespaces'' validateKVBinding,
      (''cloudchamber'', never_throws validateCloudchamberConfig, JObject []),
      array_row n ''send_email'' validateSendEmailBinding,
      (''queues'', validateQueues n, JObject [(''producers'', JArray []), (''consumers'', JArray [])]),
      array_row n ''r2_buckets'' validateR2Binding,
      array_row n ''d1_databases'' validateD1Binding,
      array_row n ''vectorize'' validateVectorizeBinding,
      array_row n ''hyperdrive'' validateHyperdriveBinding,
      array_row n ''services'' validateServiceBinding,
      array_row n ''analytics_engine_datasets'' validateAnalyticsEngineBinding,
      array_row n ''dispatch_namespaces'' validateWorkerNamespaceBinding,
      array_row n ''mtls_certificates'' validateMTlsCertificateBinding]"

definition single_rows :: "string \<Rightarrow> field_row list" where
  "single_rows n =
     [(''tail_consumers'', never_throws validateTailConsumers, JUndefined),
      (''unsafe'', never_throws (validateUnsafeSettings n), JObject []),
      (''browser'', never_throws (validateBrowserBinding n), JUndefined),
      (''ai'', never_throws (validateAIBinding n), JUndefined),
      (''version_metadata'', never_throws (validateVersionMetadataBinding n), JUndefined)]"

definition separate_fields :: "env_context \<Rightarrow> jval \<Rightarrow> (string \<times> field_value) list" where
  "separate_fields c rawEnv =
     map (separate c rawEnv) (first_rows (c_name c))
     @ inherits c rawEnv ''migrations'' validateMigrations (JArray [])
     # map (separate c rawEnv) (binding_rows (c_name c) @ single_rows (c_name c))"

definition last_fields :: "env_context \<Rightarrow> jval \<Rightarrow> (string \<times> field_value) list" where
  "last_fields c rawEnv =
     [(''zone_id'', given (prop_of rawEnv ''zone_id'')),
      inherits c rawEnv ''logfwdr'' (never_throws (validateCflogfwdrObject (c_name c))) no_bindings,
      inherits c rawEnv ''no_bundle'' (never_throws isBoolean) JUndefined,
      inherits c rawEnv ''minify'' (never_throws isBoolean) JUndefined,
      inherits c rawEnv ''node_compat'' (never_throws isBoolean) JUndefined,
      inherits c rawEnv ''first_party_worker'' (never_throws isBoolean) JUndefined,
      inherits c rawEnv ''logpush'' (never_throws isBoolean) JUndefined,
      inherits c rawEnv ''upload_source_maps'' (never_throws isBoolean) JUndefined]"

subsection \<open>Environments\<close>

definition kv_namespaces_message :: string where
  "kv_namespaces_message =
     ''The '' @ quote ''kv-namespaces'' @ '' field is no longer supported, please rename to '' @ quote ''kv_namespaces''"

definition zone_id_message :: string where
  "zone_id_message = ''This is unnecessary since we can deduce this from routes directly.''"

definition services_message :: string where
  "services_message =
     ''The '' @ quote ''experimental_services'' @ '' field is no longer supported. Simply rename the ''
       @ ''[experimental_services] field to [services].''"

definition deprecated_env_fields :: "diagnostics \<times> jval \<Rightarrow> (diagnostics \<times> jval) res" where
  "deprecated_env_fields st =
     andThen (deprecated ''kv-namespaces'' kv_namespaces_message True ''Deprecation'' st) (\<lambda>st.
     andThen (deprecated ''zone_id'' zone_id_message False ''Deprecation'' st)
       (deprecated ''experimental_services'' services_message True ''Deprecation''))"

definition normalizeAccountId ::
    "env_context \<Rightarrow> diagnostics \<times> jval \<Rightarrow> (jval \<times> diagnostics \<times> jval) res" where
  "normalizeAccountId c st =
     (let (d, rawEnv) = mutateEmptyStringAccountIDValue st in
      andThen (inheritableInLegacyEnvironments (c_legacy c) (c_top c) rawEnv ''account_id'' (never_throws isString)
                 (\<lambda>v. v) JUndefined d)
        (\<lambda>(v, d). Inr (v, d, rawEnv)))"

definition environment_fields ::
    "env_context \<Rightarrow> jval \<Rightarrow> jval \<Rightarrow> jval \<Rightarrow> jval \<Rightarrow> jval \<Rightarrow> jval \<Rightarrow> jval \<Rightarrow> (string \<times> field_value) list" where
  "environment_fields c rawEnv account_id route routes workers_dev deprecatedUpload build =
     inherited_fields c rawEnv account_id route routes workers_dev deprecatedUpload build
     @ separate_fields c rawEnv @ last_fields c rawEnv"

definition normalizeAndValidateEnvironment ::
    "env_context \<Rightarrow> diagnostics \<times> jval \<Rightarrow> (jval \<times> diagnostics \<times> jval) res" where
  "normalizeAndValidateEnvironment c st =
     andThen (deprecated_env_fields st) (\<lambda>(d, rawEnv).
     andThen (experimental (h_quiet (c_host c)) ''unsafe'' rawEnv d) (\<lambda>d.
     andThen (normalizeAndValidateRoute (c_top c) (d, rawEnv)) (\<lambda>(route, d, rawEnv).
     andThen (normalizeAccountId c (d, rawEnv)) (\<lambda>(account_id, d, rawEnv).
     andThen (validateRoutesField (c_top c) rawEnv d) (\<lambda>(routes, d).
     andThen (simple (c_top c) rawEnv ''workers_dev'' isBoolean JUndefined d) (\<lambda>(workers_dev, d).
     andThen (normalizeAndValidateBuild (c_host c) (c_path c)
                (coalesce (prop_of rawEnv ''build'') (coalesce (prop_of (c_top c) ''build'') (JObject [])))
                (d, rawEnv)) (\<lambda>(build, deprecatedUpload, d, rawEnv).
     andThen (object_literal
                (environment_fields c rawEnv account_id route routes workers_dev deprecatedUpload build) d)
       (\<lambda>(fs, d).
     andThen (warnIfDurableObjectsHaveNoMigrations (c_host c) (prop_of (JObject fs) ''durable_objects'')
                (prop_of (JObject fs) ''migrations'') d)
       (\<lambda>d. Inr (JObject fs, d, rawEnv))))))))))"

subsection \<open>Configurations\<close>

definition isPagesConfig :: "jval \<Rightarrow> bool" where
  "isPagesConfig rawConfig \<longleftrightarrow> prop_of rawConfig ''pages_build_output_dir'' \<noteq> JUndefined"

definition ignored_title :: string where
  "ignored_title = [CHR 0xF0, CHR 0x9F, CHR 0x98, CHR 0xB6] @ '' Ignored''"

definition miniflare_message :: string where
  "miniflare_message =
     ''Wrangler does not use configuration in the `miniflare` section. Unless you are using Miniflare directly ''
       @ ''you can remove this section.''"

definition out_of_the_box_message :: string where
  "out_of_the_box_message =
     ''Most common features now work out of the box with wrangler, including modules, jsx, typescript, etc. ''
       @ ''If you need anything more, use a custom build.''"

definition service_environments_message :: string where
  "service_environments_message =
     ''Experimental: Service environments are in beta, and their behaviour is guaranteed to change in the ''
       @ ''future. DO NOT USE IN PRODUCTION.''"

definition assets_message :: string where
  "assets_message =
     ''The `assets` feature is experimental. We are going to be changing its behavior after August 15th.'' @ newline
       @ ''Releases of wrangler after this date will no longer support current functionality.'' @ newline
       @ ''Please shift to `legacy_assets` to preserve the current functionality. ''"

definition two_assets_message :: string where
  "two_assets_message = ''Expected only one of `assets` or `legacy_assets`.''"

definition env_names_text :: "jval \<Rightarrow> string" where
  "env_names_text envs =
     (if truthy envs
      then ''The available configured environment names are: ''
             @ stringify (JArray (map JString (object_keys envs))) @ newline
      else [])"

definition no_environment_message :: "string \<Rightarrow> jval \<Rightarrow> string" where
  "no_environment_message envName envs =
     ''No environment found in configuration with name '' @ quote envName @ ''.'' @ newline
       @ ''Before using `--env='' @ envName
       @ ''` there should be an equivalent environment section in the configuration.'' @ newline
       @ env_names_text envs @ newline
       @ ''Consider adding an environment configuration section to the wrangler.toml file:'' @ newline
       @ ''```'' @ newline @ ''[env.'' @ envName @ '']'' @ newline @ ''```'' @ newline"

definition processing_text :: "config_host \<Rightarrow> string option \<Rightarrow> string" where
  "processing_text h configPath =
     ''Processing ''
       @ (if has_path_text configPath then path_relative (h_cwd h) (h_cwd h) (the configPath) else ''wrangler'')
       @ '' configuration:''"

definition optional_top :: "jval \<Rightarrow> string \<times> string \<Rightarrow> diagnostics \<Rightarrow> diagnostics" where
  "optional_top rawConfig = (\<lambda>(key, type) d.
     snd (validateOptionalProperty [] key (prop_of rawConfig key) type None d))"

definition deprecated_top_fields :: "diagnostics \<times> jval \<Rightarrow> (diagnostics \<times> jval) res" where
  "deprecated_top_fields st =
     andThen (deprecated ''miniflare'' miniflare_message True ignored_title st) (\<lambda>st.
     andThen (deprecated ''type'' out_of_the_box_message True ignored_title st)
       (deprecated ''webpack_config'' out_of_the_box_message True ignored_title))"

definition legacy_env_value :: "jval \<Rightarrow> jval \<Rightarrow> jval" where
  "legacy_env_value args rawConfig =
     (if js_typeof (prop_of args ''legacy-env'') = ''boolean'' then prop_of args ''legacy-env''
      else coalesce (prop_of rawConfig ''legacy_env'') (JBool True))"

definition dispatch_namespace :: "jval \<Rightarrow> bool" where
  "dispatch_namespace args \<longleftrightarrow>
     js_typeof (prop_of args ''dispatch-namespace'') = ''string'' \<and>
     \<not> blank_string (prop_of args ''dispatch-namespace'')"

definition env_name_text :: "jval \<Rightarrow> string" where
  "env_name_text v = (case v of JString s \<Rightarrow> s | _ \<Rightarrow> ''top level'')"

text \<open>The environment \<open>--env\<close> names: from the configuration, or an empty one for a worker.\<close>

definition activeEnvironment ::
    "env_context \<Rightarrow> jval \<Rightarrow> jval \<Rightarrow> diagnostics \<Rightarrow> (jval \<times> diagnostics) res" where
  "activeEnvironment c envs topLevelEnv d =
     (let envDiagnostics = newDiagnostics (quote (''env.'' @ c_name c) @ '' environment configuration'');
        rawEnv = prop_of envs (c_name c) in
      if rawEnv \<noteq> JUndefined then
        andThen (normalizeAndValidateEnvironment c (envDiagnostics, rawEnv)) (\<lambda>(e, ed, _).
          Inr (e, addChild ed d))
      else if \<not> isPagesConfig (c_raw_config c) then
        andThen (normalizeAndValidateEnvironment c (envDiagnostics, JObject [])) (\<lambda>(e, _, _).
          Inr (e, if truthy envs then pushError (no_environment_message (c_name c) envs) d
                  else pushWarning (no_environment_message (c_name c) envs) d))
      else Inr (topLevelEnv, d))"

definition config_fields ::
    "config_host \<Rightarrow> string option \<Rightarrow> jval \<Rightarrow> jval \<Rightarrow> jval \<Rightarrow> (string \<times> field_value) list" where
  "config_fields h configPath args rawConfig activeEnv =
     [(''dev'', normalizeAndValidateDev h args (coalesce (prop_of rawConfig ''dev'') (JObject []))),
      (''site'', normalizeAndValidateSite h configPath rawConfig (prop_of activeEnv ''main'')),
      (''legacy_assets'', normalizeAndValidateLegacyAssets rawConfig),
      (''alias'', normalizeAndValidateAliases rawConfig),
      (''wasm_modules'', normalizeAndValidateModulePaths h configPath ''wasm_modules'' (prop_of rawConfig ''wasm_modules'')),
      (''text_blobs'', normalizeAndValidateModulePaths h configPath ''text_blobs'' (prop_of rawConfig ''text_blobs'')),
      (''data_blobs'', normalizeAndValidateModulePaths h configPath ''data_blobs'' (prop_of rawConfig ''data_blobs''))]"

definition config_head :: "config_host \<Rightarrow> string option \<Rightarrow> jval \<Rightarrow> jval \<Rightarrow> (string \<times> jval) list" where
  "config_head h configPath rawConfig isLegacyEnv =
     [(''configPath'', case configPath of None \<Rightarrow> JUndefined | Some p \<Rightarrow> JString p),
      (''pages_build_output_dir'',
         normalizeAndValidatePagesBuildOutputDir h configPath (prop_of rawConfig ''pages_build_output_dir'')),
      (''legacy_env'', isLegacyEnv),
      (''send_metrics'', prop_of rawConfig ''send_metrics''),
      (''keep_vars'', prop_of rawConfig ''keep_vars'')]"

definition assetsMessages :: "config_host \<Rightarrow> diagnostics \<times> jval \<Rightarrow> (diagnostics \<times> jval) res" where
  "assetsMessages h st =
     andThen (deprecated ''assets'' assets_message False ''Behavior change'' st) (\<lambda>(d, rawConfig).
     andThen (experimental (h_quiet h) ''legacy_assets'' rawConfig d) (\<lambda>d. Inr
       (if truthy (prop_of rawConfig ''assets'') \<and> truthy (prop_of rawConfig ''legacy_assets'')
        then pushError two_assets_message d else d, rawConfig)))"

definition assembleConfig ::
    "config_host \<Rightarrow> string option \<Rightarrow> jval \<Rightarrow> jval \<Rightarrow> jval \<Rightarrow> (string \<times> jval) list \<Rightarrow> jval" where
  "assembleConfig h configPath rawConfig isLegacyEnv activeEnv fs =
     JObject (config_head h configPath rawConfig isLegacyEnv @ own_entries activeEnv @ fs)"

definition checkNames :: "jval \<Rightarrow> jval \<Rightarrow> diagnostics \<Rightarrow> (jval \<times> diagnostics) res" where
  "checkNames rawConfig config d =
     andThen (validateBindingsHaveUniqueNames config d) (\<lambda>(_, d). Inr
       (config, snd (validateAdditionalProperties ''top-level'' (object_keys rawConfig)
                  (object_keys config @ [''env'', ''$schema'', ''assets'']) d)))"

definition finishConfig ::
    "config_host \<Rightarrow> string option \<Rightarrow> jval \<Rightarrow> jval \<Rightarrow> jval \<Rightarrow> jval \<Rightarrow> diagnostics \<Rightarrow> (jval \<times> diagnostics) res" where
  "finishConfig h configPath args rawConfig isLegacyEnv activeEnv d =
     andThen (assetsMessages h (d, rawConfig)) (\<lambda>(d, rawConfig).
     andThen (object_literal (config_fields h configPath args rawConfig activeEnv) d) (\<lambda>(fs, d).
     checkNames rawConfig (assembleConfig h configPath rawConfig isLegacyEnv activeEnv fs) d))"

definition top_context :: "config_host \<Rightarrow> string option \<Rightarrow> jval \<Rightarrow> env_context" where
  "top_context h configPath args =
     \<lparr>c_host = h, c_path = configPath, c_dispatch = dispatch_namespace args, c_name = ''top level'',
      c_top = JUndefined, c_legacy = False, c_raw_config = JUndefined\<rparr>"

definition named_context ::
    "config_host \<Rightarrow> string option \<Rightarrow> jval \<Rightarrow> string \<Rightarrow> jval \<Rightarrow> jval \<Rightarrow> jval \<Rightarrow> env_context" where
  "named_context h configPath args envName topLevelEnv isLegacyEnv rawConfig =
     \<lparr>c_host = h, c_path = configPath, c_dispatch = dispatch_namespace args, c_name = envName,
      c_top = topLevelEnv, c_legacy = (isLegacyEnv = JBool True), c_raw_config = rawConfig\<rparr>"

definition topMessages :: "jval \<Rightarrow> jval \<Rightarrow> diagnostics \<Rightarrow> diagnostics" where
  "topMessages args rawConfig d =
     (let d = fold (optional_top rawConfig)
                [(''legacy_env'', ''boolean''), (''send_metrics'', ''boolean''), (''keep_vars'', ''boolean''),
                 (''pages_build_output_dir'', ''string''), (''$schema'', ''string'')] d
      in if truthy (legacy_env_value args rawConfig) then d else pushWarning service_environments_message d)"

definition chooseEnvironment ::
    "config_host \<Rightarrow> string option \<Rightarrow> jval \<Rightarrow> jval \<Rightarrow> jval \<Rightarrow> jval \<Rightarrow> diagnostics \<Rightarrow> (jval \<times> diagnostics) res" where
  "chooseEnvironment h configPath args rawConfig isLegacyEnv topLevelEnv d =
     (let envName = prop_of args ''env'' in
      if envName = JUndefined then Inr (topLevelEnv, d)
      else if js_typeof envName \<noteq> ''string'' then Inl AssertionError
      else activeEnvironment
             (named_context h configPath args (env_name_text envName) topLevelEnv isLegacyEnv rawConfig)
             (prop_of rawConfig ''env'') topLevelEnv d)"

definition normalizeAndValidateConfig ::
    "config_host \<Rightarrow> string option \<Rightarrow> jval \<Rightarrow> jval \<Rightarrow> (jval \<times> diagnostics) res" where
  "normalizeAndValidateConfig h configPath args rawConfig =
     andThen (deprecated_top_fields (newDiagnostics (processing_text h configPath), rawConfig)) (\<lambda>(d, rawConfig).
     andThen (normalizeAndValidateEnvironment (top_context h configPath args) (topMessages args rawConfig d, rawConfig))
       (\<lambda>(topLevelEnv, d, rawConfig').
     andThen (chooseEnvironment h configPath args rawConfig' (legacy_env_value args rawConfig) topLevelEnv d)
       (\<lambda>(activeEnv, d).
     finishConfig h configPath args rawConfig' (legacy_env_value args rawConfig) activeEnv d)))"

end
