(* ===== verification/ConfigContract.thy ===== *)
theory ConfigContract
  imports ConfigValidation
begin

text \<open>
  The contract of validators: they only add messages, they say false only if they added an error, and
  most of them say false exactly if they did. The contract is stated as three locales; the loops over
  bindings are proved for any validator that keeps it.
\<close>

named_theorems contract_intros \<open>how the steps of a validator keep its contract\<close>

subsection \<open>Steps\<close>

definition grows :: "diagnostics \<Rightarrow> verdict \<Rightarrow> bool" where
  "grows d r \<longleftrightarrow> errorCount d \<le> errorCount (snd r)"

definition reports :: "diagnostics \<Rightarrow> verdict \<Rightarrow> bool" where
  "reports d r \<longleftrightarrow> grows d r \<and> (\<not> fst r \<longrightarrow> errorCount d < errorCount (snd r))"

definition exact :: "diagnostics \<Rightarrow> verdict \<Rightarrow> bool" where
  "exact d r \<longleftrightarrow> grows d r \<and> (fst r \<longleftrightarrow> errorCount (snd r) = errorCount d)"

lemma exact_reports: "exact d r \<Longrightarrow> reports d r"
  by (auto simp: exact_def reports_def grows_def)

lemma reports_grows: "reports d r \<Longrightarrow> grows d r"
  by (simp add: reports_def)

lemmas exact_grows = exact_reports [THEN reports_grows]

text \<open>What the steps do to the verdict and to the number of errors.\<close>

lemma fst_step [simp]:
  "fst (reject m d) = False"
  "fst (accept d) = True"
  "fst (require c m r) = (c \<and> fst r)"
  "fst (both f r) = (fst (f (snd r)) \<and> fst r)"
  "fst (while_valid f r) = (fst r \<and> fst (f (snd r)))"
  "fst (noting f r) = fst r"
  "fst (validateAdditionalProperties p ks known d) = (set ks \<subseteq> set known)"
  by (auto simp: verdict_simps validateAdditionalProperties_def Let_def split: prod.splits)
    (auto simp: filter_empty_conv)

lemma errors_step [simp]:
  "errorCount (snd (reject m d)) = Suc (errorCount d)"
  "errorCount (snd (accept d)) = errorCount d"
  "errorCount (snd (require c m r)) = errorCount (snd r) + (if c then 0 else 1)"
  "snd (both f r) = snd (f (snd r))"
  "snd (noting f r) = snd (f (snd r))"
  "errorCount (snd (validateAdditionalProperties p ks known d)) = errorCount d"
  by (auto simp: verdict_simps validateAdditionalProperties_def Let_def split: prod.splits)

lemma exact_accept [contract_intros]: "exact d (accept d)"
  by (simp add: exact_def grows_def)

lemma exact_reject [contract_intros]: "exact d (reject m d)"
  by (simp add: exact_def grows_def)

lemma exact_require [contract_intros]: "exact d r \<Longrightarrow> exact d (require c m r)"
  by (auto simp: exact_def grows_def)

lemma exact_both [contract_intros]:
  assumes "\<And>d. exact d (f d)" "exact d r"
  shows "exact d (both f r)"
  using assms(1) [of "snd r"] assms(2) by (auto simp: exact_def grows_def)

lemma exact_while [contract_intros]:
  assumes "\<And>d. exact d (f d)" "exact d r"
  shows "exact d (while_valid f r)"
  using assms(1) [of "snd r"] assms(2) by (auto simp: exact_def grows_def while_valid_def)

lemma exact_noting_additional [contract_intros]:
  "exact d r \<Longrightarrow> exact d (noting (validateAdditionalProperties p ks known) r)"
  by (simp add: exact_def grows_def)

lemma exact_noting_warning [contract_intros]:
  "exact d r \<Longrightarrow> (\<And>d. errorCount (f d) = errorCount d) \<Longrightarrow> exact d (noting (\<lambda>d. accept (f d)) r)"
  by (simp add: exact_def grows_def accept_def)

lemma exact_if [contract_intros]:
  "(c \<Longrightarrow> exact d r) \<Longrightarrow> (\<not> c \<Longrightarrow> exact d s) \<Longrightarrow> exact d (if c then r else s)"
  by simp

lemma exact_each [contract_intros]:
  assumes "\<And>i v d. exact d (f i v d)" "exact d r"
  shows "exact d (each f i vs r)"
  using assms(2)
proof (induction vs arbitrary: i r)
  case (Cons v vs)
  show ?case using Cons assms(1) by (simp add: exact_both)
qed simp

lemma exact_foldl_require [contract_intros]:
  "exact d r \<Longrightarrow> exact d (foldl (\<lambda>r (k, t). require (c k t) (m k t) r) r ks)"
proof (induction ks arbitrary: r)
  case (Cons p ks)
  then show ?case by (cases p) (simp add: exact_require)
qed simp

lemma grows_both: "(\<And>d. grows d (f d)) \<Longrightarrow> grows d r \<Longrightarrow> grows d (both f r)"
  unfolding grows_def by (auto intro: le_trans)

lemma grows_require: "grows d r \<Longrightarrow> grows d (require c m r)"
  by (auto simp: grows_def)

lemma grows_each:
  assumes "\<And>i v d. grows d (f i v d)" "grows d r"
  shows "grows d (each f i vs r)"
  using assms(2)
proof (induction vs arbitrary: i r)
  case (Cons v vs)
  show ?case using Cons assms(1) by (simp add: grows_both)
qed simp

lemma grows_foldl_require:
  "grows d r \<Longrightarrow> grows d (foldl (\<lambda>r (k, t). require (c k t) (m k t) r) r ks)"
proof (induction ks arbitrary: r)
  case (Cons p ks)
  then show ?case by (cases p) (simp add: grows_require)
qed simp

text \<open>If no error is added by a loop, no iteration failed.\<close>

lemma reports_each:
  assumes "\<And>i v d. reports d (f i v d)" "reports d r"
  shows "reports d (each f i vs r)"
  using assms(2)
proof (induction vs arbitrary: i r)
  case (Cons v vs)
  have "reports d (both (f i v) r)"
    using assms(1) [of "snd r" i v] Cons.prems by (auto simp: reports_def grows_def)
  with Cons show ?case by simp
qed simp

lemma each_true:
  "fst (each f i vs r) \<Longrightarrow> fst r \<and> (\<forall>v \<in> set vs. \<exists>j d. fst (f j v d))"
proof (induction vs arbitrary: i r)
  case (Cons v vs)
  from Cons.IH [of "Suc i" "both (f i v) r"] Cons.prems show ?case by auto
qed simp

subsection \<open>The interface of validators\<close>

locale checker =
  fixes v :: validator
  assumes only_adds: "grows d (v d field x env)"

locale reporter = checker +
  assumes false_reported: "reports d (v d field x env)"

locale exact_validator = reporter +
  assumes false_iff_error: "exact d (v d field x env)"

text \<open>Reading the verdict of a container of bindings.\<close>

lemma bindings_property [simp]:
  "fst (validateBindingsProperty envName f d field x config) \<longleftrightarrow>
     x = JUndefined \<or> fst (bindings_verdict f (env_path envName field config) config x d)"
  "errorCount (snd (validateBindingsProperty envName f d field x config)) =
     (if x = JUndefined then errorCount d
      else errorCount (snd (bindings_verdict f (env_path envName field config) config x d)))"
  unfolding validateBindingsProperty_def Let_def by (simp_all split: prod.splits)

lemma child_step [simp]:
  "fst (child_binding f p config i b d) =
     fst (f (binding_diagnostics (binding_path p i) b) (binding_path p i) b config)"
  "errorCount (snd (child_binding f p config i b d)) = errorCount d +
     errorCount (snd (f (binding_diagnostics (binding_path p i) b) (binding_path p i) b config))"
  unfolding child_binding_def Let_def by (simp_all split: prod.splits)

lemma fresh_binding [simp]: "errorCount (binding_diagnostics p b) = 0"
  by (simp add: binding_diagnostics_def)

lemma errors_foldl_warnings [simp]:
  "errorCount (foldl (\<lambda>d n. if P n then d else pushWarning (m n) d) d ns) = errorCount d"
  by (induction ns arbitrary: d) auto

lemma binding_array_cases:
  assumes "validateBindingArray envName f d field x config = Inr r"
  shows "x = JUndefined \<and> r = accept d \<or>
         x \<noteq> JUndefined \<and> \<not> is_array x \<and> r = reject (field_array_message (env_path envName field config) x) d \<or>
         is_array x \<and> fst r = fst (array_verdict f (env_path envName field config) config (elements x) d) \<and>
         errorCount (snd r) = errorCount (snd (array_verdict f (env_path envName field config) config (elements x) d))"
proof (cases "is_array x")
  case True
  then have "x \<noteq> JUndefined" by auto
  obtain ok d' where v: "array_verdict f (env_path envName field config) config (elements x) d = (ok, d')"
    by (cases "array_verdict f (env_path envName field config) config (elements x) d")
  from assms True \<open>x \<noteq> JUndefined\<close> have "fst r = ok \<and> errorCount (snd r) = errorCount d'"
    by (cases "is_array (prop_of config field)")
      (auto simp: validateBindingArray_def Let_def v simp del: prod.case_eq_if split: if_splits)
  with True show ?thesis by (simp add: v)
next
  case False
  with assms show ?thesis by (auto simp: validateBindingArray_def Let_def split: if_splits)
qed

context checker
begin

lemma child_grows: "grows d (child_binding v p config i b d)"
  by (simp add: grows_def)

lemma bindings_grow: "grows d (bindings_verdict v p config x d)"
proof -
  have "grows d (each (child_binding v p config) 0 vs (accept d))" for vs
    by (rule grows_each [OF child_grows]) (simp add: grows_def)
  then show ?thesis by (simp add: bindings_verdict_def Let_def) (simp add: grows_def)
qed

lemma array_verdict_grows: "grows d (array_verdict v p config xs d)"
  unfolding array_verdict_def by (rule grows_each [OF only_adds]) (simp add: grows_def)

lemma array_grows: "validateBindingArray envName v d field x config = Inr r \<Longrightarrow> grows d r"
  using array_verdict_grows binding_array_cases by (fastforce simp: grows_def)

end

context reporter
begin

lemma child_reports: "reports d (child_binding v p config i b d)"
  using false_reported [of "binding_diagnostics (binding_path p i) b"] by (simp add: reports_def grows_def)

lemma bindings_report: "reports d (bindings_verdict v p config x d)"
proof -
  have "reports d (each (child_binding v p config) 0 vs (accept d))" for vs
    by (rule reports_each [OF child_reports]) (simp add: reports_def grows_def)
  then show ?thesis by (simp add: bindings_verdict_def Let_def) (simp add: reports_def grows_def)
qed

text \<open>If no error was added, the field holds an array of valid bindings.\<close>

lemma bindings_valid:
  assumes "errorCount (snd (validateBindingsProperty envName v d field x config)) = errorCount d"
    and "x \<noteq> JUndefined"
  shows "is_array (prop_of x ''bindings'') \<and>
         (\<forall>b \<in> set (elements (prop_of x ''bindings'')). \<exists>d p. fst (v d p b config))"
proof -
  define r where "r = bindings_verdict v (env_path envName field config) config x d"
  from assms have "errorCount (snd r) = errorCount d" by (simp add: r_def)
  with bindings_report have "fst r" unfolding r_def reports_def by (metis less_irrefl)
  then have "is_array (prop_of x ''bindings'') \<and>
    fst (each (child_binding v (env_path envName field config) config) 0 (elements (prop_of x ''bindings'')) (accept d))"
    unfolding r_def by (simp add: bindings_verdict_def Let_def split: if_splits)
  with each_true show ?thesis by fastforce
qed

lemma array_valid:
  assumes "validateBindingArray envName v d field x config = Inr r"
    and "errorCount (snd r) = errorCount d" "x \<noteq> JUndefined"
  shows "is_array x \<and> (\<forall>b \<in> set (elements x). \<exists>d p. fst (v d p b config))"
proof -
  have *: "reports d (array_verdict v p config xs d)" for p xs
    unfolding array_verdict_def by (rule reports_each [OF false_reported]) (simp add: reports_def grows_def)
  from binding_array_cases [OF assms(1)] assms(2,3)
  have "is_array x \<and> fst (array_verdict v (env_path envName field config) config (elements x) d)"
    using * [of "env_path envName field config" "elements x"] by (auto simp: reports_def)
  then show ?thesis using each_true unfolding array_verdict_def by fastforce
qed

end

context exact_validator
begin

lemma bindings_exact: "exact d (validateBindingsProperty envName v d field x config)"
proof -
  have "exact d (child_binding v p config i b d)" for p i b d
    using false_iff_error [of "binding_diagnostics (binding_path p i) b"]
    by (simp add: exact_def grows_def)
  then have "exact d (each (child_binding v p config) 0 vs (accept d))" for p vs
    by (rule exact_each) (rule exact_accept)
  then have "exact d (bindings_verdict v p config x d)" for p
    by (simp add: bindings_verdict_def Let_def exact_reject)
  then show ?thesis by (auto simp: exact_def grows_def)
qed

lemma array_exact: "validateBindingArray envName v d field x config = Inr r \<Longrightarrow> exact d r"
proof -
  assume r: "validateBindingArray envName v d field x config = Inr r"
  have "exact d (array_verdict v p config xs d)" for p xs
    unfolding array_verdict_def by (rule exact_each [OF false_iff_error exact_accept])
  with binding_array_cases [OF r] show ?thesis
    using exact_accept exact_reject unfolding exact_def grows_def by metis
qed

end

end
