(* ===== verification/ConfigSchema.thy ===== *)
theory ConfigSchema
  imports ConfigContract
begin

text \<open>
  Every validator of a binding keeps the contract, and accepts the objects of a schema. A schema is a
  list of rules about the own properties of an object.
\<close>

subsection \<open>The contract of the helpers\<close>

lemma exact_isString [contract_intros]: "exact d (isString d field v env)"
  unfolding isString_def by (intro contract_intros)

lemma exact_isBoolean [contract_intros]: "exact d (isBoolean d field v env)"
  unfolding isBoolean_def by (intro contract_intros)

lemma exact_isOneOf [contract_intros]: "exact d (isOneOf cs d field v env)"
  unfolding isOneOf_def by (intro contract_intros)

lemma exact_isValidName [contract_intros]: "exact d (isValidName d field v env)"
  unfolding isValidName_def by (intro contract_intros)

lemma exact_isStringArray [contract_intros]: "exact d (isStringArray d field v env)"
  unfolding isStringArray_def by (intro contract_intros)

lemma exact_isObjectWith [contract_intros]: "exact d (isObjectWith ks d field v env)"
  unfolding isObjectWith_def by (intro contract_intros)

lemma exact_exclusive [contract_intros]: "exact d (isMutuallyExclusiveWith c ks d field v env)"
  unfolding isMutuallyExclusiveWith_def by (intro contract_intros)

lemma exact_anything [contract_intros]: "exact d (anything d field v env)"
  unfolding anything_def by (intro contract_intros)

lemma exact_isNonEmptyString [contract_intros]: "exact d (isNonEmptyString d field v env)"
proof -
  obtain ok d' where "isString d field v env = (ok, d')" by (cases "isString d field v env")
  with exact_isString [of d field v env] show ?thesis
    by (auto simp: isNonEmptyString_def exact_def grows_def)
qed

lemma exact_required [contract_intros]: "exact d (validateRequiredProperty c k v t cs d)"
  unfolding validateRequiredProperty_def Let_def
  by (cases cs) (simp_all add: exact_reject exact_accept exact_isOneOf)

lemma exact_optional [contract_intros]: "exact d (validateOptionalProperty c k v t cs d)"
  unfolding validateOptionalProperty_def by (intro contract_intros)

lemma exact_typed_array [contract_intros]: "exact d (validateTypedArray c v t d)"
  unfolding validateTypedArray_def by (intro contract_intros)

lemma exact_optional_array [contract_intros]: "exact d (validateOptionalTypedArray c v t d)"
  unfolding validateOptionalTypedArray_def by (intro contract_intros)

lemma exact_all_validators:
  "list_all (\<lambda>f. \<forall>d. exact d (f d field v env)) fs \<Longrightarrow> exact d0 (ok, d) \<Longrightarrow>
     exact d0 (all_validators fs ok d field v env)"
proof (induction fs arbitrary: ok d)
  case (Cons f fs)
  obtain b d' where f: "f d field v env = (b, d')" by (cases "f d field v env")
  from Cons.prems(1) have "exact d (f d field v env)" by simp
  with Cons.prems(2) f have "exact d0 (b \<and> ok, d')" by (auto simp: exact_def grows_def)
  with Cons f show ?case by simp
qed simp

lemma exact_all:
  "list_all (\<lambda>f. \<forall>d. exact d (f d field v env)) fs \<Longrightarrow> exact d (all fs d field v env)"
  unfolding all_def by (rule exact_all_validators) (simp_all add: exact_def grows_def)

subsection \<open>The validators of bindings\<close>

lemma exact_durable_object: "exact d (validateDurableObjectBinding d field v env)"
  unfolding validateDurableObjectBinding_def Let_def by (intro contract_intros)

lemma exact_cflogfwdr: "exact d (validateCflogfwdrBinding d field v env)"
  unfolding validateCflogfwdrBinding_def Let_def by (intro contract_intros)

lemma exact_unsafe_binding: "exact d (validateUnsafeBinding d field v env)"
  unfolding validateUnsafeBinding_def Let_def by (intro contract_intros) simp_all

lemma exact_kv: "exact d (validateKVBinding d field v env)"
  unfolding validateKVBinding_def Let_def by (intro contract_intros)

lemma exact_send_email: "exact d (validateSendEmailBinding d field v env)"
  unfolding validateSendEmailBinding_def Let_def by (intro contract_intros)

lemma exact_r2: "exact d (validateR2Binding d field v env)"
  unfolding validateR2Binding_def Let_def by (intro contract_intros)

lemma exact_d1: "exact d (validateD1Binding d field v env)"
  unfolding validateD1Binding_def Let_def by (intro contract_intros)

lemma exact_vectorize: "exact d (validateVectorizeBinding d field v env)"
  unfolding validateVectorizeBinding_def Let_def by (intro contract_intros)

lemma exact_hyperdrive: "exact d (validateHyperdriveBinding d field v env)"
  unfolding validateHyperdriveBinding_def Let_def by (intro contract_intros)

lemma exact_service: "exact d (validateServiceBinding d field v env)"
  unfolding validateServiceBinding_def Let_def by (intro contract_intros)

lemma exact_analytics: "exact d (validateAnalyticsEngineBinding d field v env)"
  unfolding validateAnalyticsEngineBinding_def Let_def by (intro contract_intros)

lemma exact_outbound: "exact d (validateWorkerNamespaceOutbound field v d)"
  unfolding validateWorkerNamespaceOutbound_def Let_def by (intro contract_intros)

lemma exact_worker_namespace: "exact d (validateWorkerNamespaceBinding d field v env)"
proof (cases "is_object v")
  case True
  define r where "r = require (isRequiredProperty v ''namespace'' ''string'') (field_needs_message field ''namespace'' v)
    (require (isRequiredProperty v ''binding'' ''string'') (field_needs_message field ''binding'' v) (accept d))"
  have r: "exact d r" unfolding r_def by (intro contract_intros)
  define o' where "o' = validateWorkerNamespaceOutbound (field @ ''.outbound'')
    (coalesce (prop_of v ''outbound'') (JObject [])) (snd r)"
  have "exact (snd r) o'" unfolding o'_def by (rule exact_outbound)
  with r have "exact d (require (fst o') (quote field @ '' has an invalid outbound definition.'') (fst r, snd o'))"
    by (auto simp: exact_def grows_def)
  with r show ?thesis using True
    by (cases o') (simp add: validateWorkerNamespaceBinding_def Let_def r_def [symmetric] o'_def [symmetric])
qed (simp add: validateWorkerNamespaceBinding_def exact_reject)

lemma exact_mtls: "exact d (validateMTlsCertificateBinding d field v env)"
  unfolding validateMTlsCertificateBinding_def Let_def by (intro contract_intros)

lemma exact_validatorI: "(\<And>d field x env. exact d (v d field x env)) \<Longrightarrow> exact_validator v"
  by unfold_locales (auto intro: exact_grows exact_reports)

interpretation durable_object: exact_validator validateDurableObjectBinding
  by (rule exact_validatorI exact_durable_object)+

interpretation cflogfwdr: exact_validator validateCflogfwdrBinding
  by (rule exact_validatorI exact_cflogfwdr)+

interpretation unsafe_binding: exact_validator validateUnsafeBinding
  by (rule exact_validatorI exact_unsafe_binding)+

interpretation kv_binding: exact_validator validateKVBinding
  by (rule exact_validatorI exact_kv)+

interpretation send_email: exact_validator validateSendEmailBinding
  by (rule exact_validatorI exact_send_email)+

interpretation r2_binding: exact_validator validateR2Binding
  by (rule exact_validatorI exact_r2)+

interpretation d1_binding: exact_validator validateD1Binding
  by (rule exact_validatorI exact_d1)+

interpretation vectorize: exact_validator validateVectorizeBinding
  by (rule exact_validatorI exact_vectorize)+

interpretation hyperdrive: exact_validator validateHyperdriveBinding
  by (rule exact_validatorI exact_hyperdrive)+

interpretation service_binding: exact_validator validateServiceBinding
  by (rule exact_validatorI exact_service)+

interpretation analytics: exact_validator validateAnalyticsEngineBinding
  by (rule exact_validatorI exact_analytics)+

interpretation worker_namespace: exact_validator validateWorkerNamespaceBinding
  by (rule exact_validatorI exact_worker_namespace)+

interpretation mtls: exact_validator validateMTlsCertificateBinding
  by (rule exact_validatorI exact_mtls)+

text \<open>A queue producer with an unexpected field is rejected with a warning only.\<close>

interpretation queue_binding: checker validateQueueBinding
proof
  fix d field x env
  have "grows d (validateQueueBinding d field x env)" if "is_object x"
  proof -
    obtain ok d' where v: "validateAdditionalProperties field (object_keys x)
      [''binding'', ''queue'', ''delivery_delay''] d = (ok, d')"
      by (cases "validateAdditionalProperties field (object_keys x) [''binding'', ''queue'', ''delivery_delay''] d")
    then have "errorCount d' = errorCount d"
      using errors_step(6) by (metis snd_conv)
    with that v show ?thesis by (simp add: validateQueueBinding_def Let_def grows_def)
  qed
  then show "grows d (validateQueueBinding d field x env)"
    by (cases "is_object x") (auto simp: validateQueueBinding_def grows_def)
qed

interpretation consumer: checker validateConsumer
proof
  fix d field x env
  show "grows d (validateConsumer d field x env)"
  proof (cases "is_object x")
    case True
    then show ?thesis unfolding validateConsumer_def Let_def if_not_P [OF not_not [THEN iffD2, OF True]]
      by (intro grows_foldl_require) (simp add: grows_def)
  next
    case False
    then show ?thesis by (simp add: validateConsumer_def grows_def)
  qed
qed

subsection \<open>Schemas\<close>

datatype shape_rule =
    Required string string
  | RequiredText string
  | Optional string string
  | OptionalText string
  | NotBoth string string
  | Together string string
  | Only "string list"

definition own :: "jval \<Rightarrow> string \<Rightarrow> jval option" where
  "own v = map_of (own_entries v)"

definition text_value :: "jval \<Rightarrow> bool" where
  "text_value w \<longleftrightarrow> js_typeof w = ''string'' \<and> w \<noteq> JString []"

fun obeys :: "jval \<Rightarrow> shape_rule \<Rightarrow> bool" where
  "obeys v (Required k type) = (case own v k of None \<Rightarrow> False | Some w \<Rightarrow> js_typeof w = type)"
| "obeys v (RequiredText k) = (case own v k of None \<Rightarrow> False | Some w \<Rightarrow> text_value w)"
| "obeys v (Optional k type) = (case own v k of None \<Rightarrow> True | Some w \<Rightarrow> js_typeof w = type)"
| "obeys v (OptionalText k) = (case own v k of None \<Rightarrow> True | Some w \<Rightarrow> text_value w)"
| "obeys v (NotBoth k l) = (own v k = None \<or> own v l = None)"
| "obeys v (Together k l) = (own v k = None \<or> own v l \<noteq> None)"
| "obeys v (Only ks) = list_all (\<lambda>k. k \<in> set ks) (object_keys v)"

definition conforms :: "shape_rule list \<Rightarrow> jval \<Rightarrow> bool" where
  "conforms rules v \<longleftrightarrow> is_object v \<and> list_all (obeys v) rules"

definition outbound_ok :: "jval \<Rightarrow> bool" where
  "outbound_ok v \<longleftrightarrow>
     conforms [Required ''service'' ''string''] v \<and>
     (prop_of v ''environment'' = JUndefined \<or> js_typeof (prop_of v ''environment'') = ''string'') \<and>
     (prop_of v ''parameters'' = JUndefined \<or>
      is_array (prop_of v ''parameters'') \<and>
      list_all (\<lambda>w. js_typeof w = ''string'') (elements (prop_of v ''parameters'')))"

definition dispatch_namespace_ok :: "jval \<Rightarrow> bool" where
  "dispatch_namespace_ok v \<longleftrightarrow>
     conforms [Required ''binding'' ''string'', Required ''namespace'' ''string''] v \<and>
     (case own v ''outbound'' of None \<Rightarrow> True | Some w \<Rightarrow> outbound_ok (coalesce w (JObject [])))"

text \<open>The schemas of the elements of the fields that are arrays of bindings.\<close>

definition array_schemas :: "(string \<times> validator \<times> (jval \<Rightarrow> bool)) list" where
  "array_schemas =
     [(''kv_namespaces'', validateKVBinding,
       conforms [Required ''binding'' ''string'', RequiredText ''id'', Optional ''preview_id'' ''string'']),
      (''send_email'', validateSendEmailBinding,
       conforms [Required ''name'' ''string'', Optional ''destination_address'' ''string'',
                 Optional ''allowed_destination_addresses'' ''object'',
                 NotBoth ''destination_address'' ''allowed_destination_addresses'']),
      (''r2_buckets'', validateR2Binding,
       conforms [Required ''binding'' ''string'', RequiredText ''bucket_name'',
                 Optional ''preview_bucket_name'' ''string'', Optional ''jurisdiction'' ''string'']),
      (''d1_databases'', validateD1Binding,
       conforms [Required ''binding'' ''string'', Required ''database_id'' ''string'',
                 Optional ''preview_database_id'' ''string'']),
      (''vectorize'', validateVectorizeBinding,
       conforms [Required ''binding'' ''string'', Required ''index_name'' ''string'']),
      (''hyperdrive'', validateHyperdriveBinding,
       conforms [Required ''binding'' ''string'', Required ''id'' ''string'']),
      (''services'', validateServiceBinding,
       conforms [Required ''binding'' ''string'', Required ''service'' ''string'',
                 Optional ''environment'' ''string'', Optional ''entrypoint'' ''string'']),
      (''analytics_engine_datasets'', validateAnalyticsEngineBinding,
       conforms [Required ''binding'' ''string'', OptionalText ''dataset'']),
      (''dispatch_namespaces'', validateWorkerNamespaceBinding, dispatch_namespace_ok),
      (''mtls_certificates'', validateMTlsCertificateBinding,
       conforms [Required ''binding'' ''string'', RequiredText ''certificate_id''])]"

text \<open>The schemas of the bindings in other containers.\<close>

definition other_schemas :: "(string \<times> validator \<times> (jval \<Rightarrow> bool)) list" where
  "other_schemas =
     [(''durable_objects'', validateDurableObjectBinding,
       conforms [Required ''name'' ''string'', Required ''class_name'' ''string'', Optional ''script_name'' ''string'',
                 Optional ''environment'' ''string'', Together ''environment'' ''script_name'']),
      (''logfwdr'', validateCflogfwdrBinding,
       conforms [Required ''name'' ''string'', Required ''destination'' ''string'']),
      (''unsafe'', validateUnsafeBinding,
       conforms [Required ''name'' ''string'', Required ''type'' ''string'']),
      (''queues.producers'', validateQueueBinding,
       conforms [Only [''binding'', ''queue'', ''delivery_delay''], Required ''binding'' ''string'',
                 RequiredText ''queue'', Optional ''delivery_delay'' ''number''])]"

definition plain :: "string \<Rightarrow> bool" where
  "plain k \<longleftrightarrow> k \<notin> set inherited_names \<and> k \<noteq> ''length''"

lemma has_own: "plain k \<Longrightarrow> has_prop v k \<longleftrightarrow> own v k \<noteq> None"
  by (auto simp: plain_def has_prop_def own_def map_of_eq_None_iff)

lemma prop_own: "plain k \<Longrightarrow> is_object v \<Longrightarrow> prop_of v k = (case own v k of None \<Rightarrow> JUndefined | Some w \<Rightarrow> w)"
  by (cases v) (auto simp: plain_def own_def is_object_def)

text \<open>The rules in terms of the tests of the code, for names that no object inherits.\<close>

lemma obeys_code:
  assumes "is_object v" "plain k"
  shows "obeys v (Required k type) \<longleftrightarrow> isRequiredProperty v k type"
    "obeys v (RequiredText k) \<longleftrightarrow> isRequiredProperty v k ''string'' \<and> prop_of v k \<noteq> JString []"
    "obeys v (Optional k type) \<longleftrightarrow> isOptionalProperty v k type"
    "obeys v (OptionalText k) \<longleftrightarrow> isOptionalProperty v k ''string'' \<and> prop_of v k \<noteq> JString []"
  using assms
  by (simp_all add: isRequiredProperty_def isOptionalProperty_def has_own prop_own text_value_def
        split: option.splits)

lemma obeys_code_pair:
  assumes "plain k" "plain l"
  shows "obeys v (NotBoth k l) \<longleftrightarrow> \<not> (has_prop v k \<and> has_prop v l)"
    "obeys v (Together k l) \<longleftrightarrow> \<not> (has_prop v k \<and> \<not> has_prop v l)"
  using assms by (auto simp: has_own)

lemma obeys_only: "obeys v (Only ks) \<longleftrightarrow> set (object_keys v) \<subseteq> set ks"
  by (auto simp: list_all_iff)

declare obeys.simps [simp del]

lemma plain_keys [simp]:
  "plain ''binding''" "plain ''id''" "plain ''preview_id''" "plain ''name''" "plain ''destination_address''"
  "plain ''allowed_destination_addresses''" "plain ''bucket_name''" "plain ''preview_bucket_name''"
  "plain ''jurisdiction''" "plain ''database_id''" "plain ''preview_database_id''" "plain ''index_name''"
  "plain ''service''" "plain ''environment''" "plain ''entrypoint''" "plain ''dataset''" "plain ''namespace''"
  "plain ''outbound''" "plain ''certificate_id''" "plain ''class_name''" "plain ''script_name''"
  "plain ''destination''" "plain ''type''" "plain ''queue''" "plain ''delivery_delay''" "plain ''parameters''"
  by (simp_all add: plain_def inherited_names_def)

lemmas schema_simps = Let_def conforms_def obeys_code obeys_code_pair obeys_only

lemma kv_schema:
  "fst (validateKVBinding d f v e) \<longleftrightarrow>
     conforms [Required ''binding'' ''string'', RequiredText ''id'', Optional ''preview_id'' ''string''] v"
  by (cases "is_object v") (auto simp: validateKVBinding_def schema_simps)

lemma send_email_schema:
  "fst (validateSendEmailBinding d f v e) \<longleftrightarrow>
     conforms [Required ''name'' ''string'', Optional ''destination_address'' ''string'',
               Optional ''allowed_destination_addresses'' ''object'',
               NotBoth ''destination_address'' ''allowed_destination_addresses''] v"
  by (cases "is_object v") (auto simp: validateSendEmailBinding_def schema_simps)

lemma r2_schema:
  "fst (validateR2Binding d f v e) \<longleftrightarrow>
     conforms [Required ''binding'' ''string'', RequiredText ''bucket_name'',
               Optional ''preview_bucket_name'' ''string'', Optional ''jurisdiction'' ''string''] v"
  by (cases "is_object v") (auto simp: validateR2Binding_def schema_simps)

lemma d1_schema:
  "fst (validateD1Binding d f v e) \<longleftrightarrow>
     conforms [Required ''binding'' ''string'', Required ''database_id'' ''string'',
               Optional ''preview_database_id'' ''string''] v"
  by (cases "is_object v") (auto simp: validateD1Binding_def schema_simps)

lemma vectorize_schema:
  "fst (validateVectorizeBinding d f v e) \<longleftrightarrow>
     conforms [Required ''binding'' ''string'', Required ''index_name'' ''string''] v"
  by (cases "is_object v") (auto simp: validateVectorizeBinding_def schema_simps)

lemma hyperdrive_schema:
  "fst (validateHyperdriveBinding d f v e) \<longleftrightarrow>
     conforms [Required ''binding'' ''string'', Required ''id'' ''string''] v"
  by (cases "is_object v") (auto simp: validateHyperdriveBinding_def schema_simps)

lemma service_schema:
  "fst (validateServiceBinding d f v e) \<longleftrightarrow>
     conforms [Required ''binding'' ''string'', Required ''service'' ''string'',
               Optional ''environment'' ''string'', Optional ''entrypoint'' ''string''] v"
  by (cases "is_object v") (auto simp: validateServiceBinding_def schema_simps)

lemma analytics_schema:
  "fst (validateAnalyticsEngineBinding d f v e) \<longleftrightarrow>
     conforms [Required ''binding'' ''string'', OptionalText ''dataset''] v"
  by (cases "is_object v") (auto simp: validateAnalyticsEngineBinding_def schema_simps)

lemma mtls_schema:
  "fst (validateMTlsCertificateBinding d f v e) \<longleftrightarrow>
     conforms [Required ''binding'' ''string'', RequiredText ''certificate_id''] v"
  by (cases "is_object v") (auto simp: validateMTlsCertificateBinding_def schema_simps)

lemma durable_object_schema:
  "fst (validateDurableObjectBinding d f v e) \<longleftrightarrow>
     conforms [Required ''name'' ''string'', Required ''class_name'' ''string'', Optional ''script_name'' ''string'',
               Optional ''environment'' ''string'', Together ''environment'' ''script_name''] v"
  by (cases "is_object v") (auto simp: validateDurableObjectBinding_def schema_simps)

lemma cflogfwdr_schema:
  "fst (validateCflogfwdrBinding d f v e) \<longleftrightarrow>
     conforms [Required ''name'' ''string'', Required ''destination'' ''string''] v"
  by (cases "is_object v") (auto simp: validateCflogfwdrBinding_def schema_simps)

lemma unsafe_schema:
  "fst (validateUnsafeBinding d f v e) \<longleftrightarrow> conforms [Required ''name'' ''string'', Required ''type'' ''string''] v"
  by (cases "is_object v") (auto simp: validateUnsafeBinding_def schema_simps)

lemma queue_schema:
  "fst (validateQueueBinding d f v e) \<longleftrightarrow>
     conforms [Only [''binding'', ''queue'', ''delivery_delay''], Required ''binding'' ''string'',
               RequiredText ''queue'', Optional ''delivery_delay'' ''number''] v"
proof (cases "is_object v")
  case True
  define a where "a = validateAdditionalProperties f (object_keys v) [''binding'', ''queue'', ''delivery_delay''] d"
  have a: "fst a \<longleftrightarrow> obeys v (Only [''binding'', ''queue'', ''delivery_delay''])"
    unfolding a_def fst_step(7) obeys_only ..
  show ?thesis using True a
    by (cases a) (auto simp: validateQueueBinding_def a_def [symmetric] schema_simps(1-8))
qed (simp add: validateQueueBinding_def conforms_def)

lemma fst_each:
  "(\<And>i v d. fst (f i v d) = P v) \<Longrightarrow> fst (each f i vs r) \<longleftrightarrow> fst r \<and> (\<forall>v \<in> set vs. P v)"
  by (induction vs arbitrary: i r) auto

lemma fst_required: "fst (validateRequiredProperty c k v t None d) \<longleftrightarrow> v \<noteq> JUndefined \<and> js_typeof v = t"
  by (simp add: validateRequiredProperty_def Let_def)

lemma fst_optional: "fst (validateOptionalProperty c k v t None d) \<longleftrightarrow> v = JUndefined \<or> js_typeof v = t"
  by (simp add: validateOptionalProperty_def fst_required)

lemma fst_typed_array:
  "fst (validateTypedArray c v ''string'' d) \<longleftrightarrow>
     is_array v \<and> list_all (\<lambda>w. js_typeof w = ''string'') (elements v)"
proof -
  have "fst (each (\<lambda>i w. validateRequiredProperty c (element_key i) w ''string'' None) 0 (elements v) (accept d)) \<longleftrightarrow>
    (\<forall>w \<in> set (elements v). js_typeof w = ''string'')"
    by (subst fst_each [where P = "\<lambda>w. js_typeof w = ''string''"]) (auto simp: fst_required)
  then show ?thesis by (simp add: validateTypedArray_def list_all_iff)
qed

lemma outbound_schema: "fst (validateWorkerNamespaceOutbound f v d) \<longleftrightarrow> outbound_ok v"
proof (cases "is_object v")
  case True
  then have "obeys v (Required ''service'' ''string'') \<longleftrightarrow>
    prop_of v ''service'' \<noteq> JUndefined \<and> js_typeof (prop_of v ''service'') = ''string''"
    by (auto simp: obeys.simps prop_own split: option.splits)
  with True show ?thesis
    by (auto simp: validateWorkerNamespaceOutbound_def outbound_ok_def conforms_def Let_def
          fst_required fst_optional validateOptionalTypedArray_def fst_typed_array)
qed (simp add: validateWorkerNamespaceOutbound_def outbound_ok_def conforms_def)

lemma worker_namespace_schema: "fst (validateWorkerNamespaceBinding d f v e) \<longleftrightarrow> dispatch_namespace_ok v"
proof (cases "is_object v")
  case True
  define r where "r = require (isRequiredProperty v ''namespace'' ''string'') (field_needs_message f ''namespace'' v)
    (require (isRequiredProperty v ''binding'' ''string'') (field_needs_message f ''binding'' v) (accept d))"
  have r: "fst r \<longleftrightarrow> conforms [Required ''binding'' ''string'', Required ''namespace'' ''string''] v"
    using True by (auto simp: r_def schema_simps)
  define x where "x = validateWorkerNamespaceOutbound (f @ ''.outbound'')
    (coalesce (prop_of v ''outbound'') (JObject [])) (snd r)"
  have x: "fst x \<longleftrightarrow> outbound_ok (coalesce (prop_of v ''outbound'') (JObject []))"
    unfolding x_def by (rule outbound_schema)
  have "fst (validateWorkerNamespaceBinding d f v e) \<longleftrightarrow> fst r \<and> (has_prop v ''outbound'' \<longrightarrow> fst x)"
    using True
    by (cases x) (auto simp: validateWorkerNamespaceBinding_def Let_def r_def [symmetric] x_def [symmetric])
  with True show ?thesis
    by (auto simp: r x dispatch_namespace_ok_def has_own prop_own split: option.splits)
qed (simp add: validateWorkerNamespaceBinding_def dispatch_namespace_ok_def conforms_def)

text \<open>The validators of all bindings accept the values of their schemas.\<close>

definition follows_schema :: "string \<times> validator \<times> (jval \<Rightarrow> bool) \<Rightarrow> bool" where
  "follows_schema = (\<lambda>(_, v, shape). \<forall>d f x e. fst (v d f x e) = shape x)"

lemma array_schemas_follow: "list_all follows_schema array_schemas"
  by (simp add: array_schemas_def follows_schema_def kv_schema send_email_schema r2_schema d1_schema
      vectorize_schema hyperdrive_schema service_schema analytics_schema worker_namespace_schema mtls_schema)

lemma other_schemas_follow: "list_all follows_schema other_schemas"
  by (simp add: other_schemas_def follows_schema_def durable_object_schema cflogfwdr_schema unsafe_schema queue_schema)

lemma array_schemas_exact: "list_all (\<lambda>(_, v, _). exact_validator v) array_schemas"
  by (simp add: array_schemas_def kv_binding.exact_validator_axioms send_email.exact_validator_axioms
      r2_binding.exact_validator_axioms d1_binding.exact_validator_axioms vectorize.exact_validator_axioms
      hyperdrive.exact_validator_axioms service_binding.exact_validator_axioms analytics.exact_validator_axioms
      worker_namespace.exact_validator_axioms mtls.exact_validator_axioms)

end
