(* ===== verification/ConfigGrowth.thy ===== *)
theory ConfigGrowth
  imports ConfigSchema
begin

text \<open>
  No step of the validation of a configuration takes a message back: the number of errors only grows. So
  a configuration without errors is one in which no field has an error.
\<close>

named_theorems growth_intros \<open>why the computation of a field only adds errors\<close>

definition growing :: "field_value \<Rightarrow> bool" where
  "growing f \<longleftrightarrow> (\<forall>d v d'. f d = Inr (v, d') \<longrightarrow> errorCount d \<le> errorCount d')"

definition growing_validator :: "throwing_validator \<Rightarrow> bool" where
  "growing_validator f \<longleftrightarrow> (\<forall>d field v env r. f d field v env = Inr r \<longrightarrow> grows d r)"

lemma growing_total [growth_intros]:
  "(\<And>d field v env. grows d (f d field v env)) \<Longrightarrow> growing_validator (never_throws f)"
  by (simp add: growing_validator_def never_throws_def)

lemma growing_total_exact: "(\<And>d field v env. exact d (f d field v env)) \<Longrightarrow> growing_validator (never_throws f)"
  by (intro growth_intros exact_grows)

subsection \<open>Environment fields\<close>

lemma growing_given [growth_intros]: "growing (given v)"
  by (simp add: growing_def given_def)

lemma growing_then [growth_intros]: "growing f \<Longrightarrow> growing (then_value f g)"
  by (auto simp: growing_def then_value_def)

lemma growing_inheritable [growth_intros]:
  "growing_validator f \<Longrightarrow> growing (inheritable te raw field f def tr)"
  by (fastforce simp: growing_def growing_validator_def inheritable_def grows_def)

lemma growing_inherits [growth_intros]: "growing_validator f \<Longrightarrow> growing (snd (inherits c raw field f def))"
  by (simp add: inherits_def growing_inheritable)

lemma growing_separate [growth_intros]: "growing_validator f \<Longrightarrow> growing (snd (separate c raw (field, f, def)))"
  by (fastforce simp: separate_def growing_def growing_validator_def notInheritable_def grows_def split: if_splits)

lemma growing_legacy [growth_intros]:
  "growing_validator f \<Longrightarrow> growing (inheritableInLegacyEnvironments l te raw field f tr def)"
  using growing_inheritable
  by (fastforce simp: growing_def inheritableInLegacyEnvironments_def notAllowedInNamedServiceEnvironment_def
      split: if_splits)

lemma growing_simple [growth_intros]:
  "(\<And>d field v env. exact d (f d field v env)) \<Longrightarrow> growing (simple te raw field f def)"
  unfolding simple_def by (intro growth_intros exact_grows)

lemma growing_tsconfig [growth_intros]: "growing (validateAndNormalizeTsconfig h p te raw)"
  using growing_simple [OF exact_isString]
  by (fastforce simp: growing_def validateAndNormalizeTsconfig_def split: if_splits)

lemma exact_rule [contract_intros]: "exact d (validateRule d field v env)"
  unfolding validateRule_def Let_def by (intro contract_intros)

lemma exact_rules [contract_intros]: "exact d (validateRules n d field v env)"
  unfolding validateRules_def by (intro contract_intros)

lemma growing_after:
  assumes "growing f" "\<And>d. errorCount d \<le> errorCount (g d)"
  shows "growing (\<lambda>d. f (g d))"
  unfolding growing_def
proof (intro allI impI)
  fix d v d'
  assume "f (g d) = Inr (v, d')"
  with assms(1) have "errorCount (g d) \<le> errorCount d'" by (auto simp: growing_def)
  with assms(2) show "errorCount d \<le> errorCount d'" by (rule le_trans)
qed

lemma growing_rules [growth_intros]: "growing (validateAndNormalizeRules h te raw dep n)"
  unfolding validateAndNormalizeRules_def Let_def
  by (rule growing_after [where g = "\<lambda>d. if te \<noteq> JUndefined then d else _ d", OF growing_simple [OF exact_rules]])
    simp

lemma exact_snd: "exact d r \<Longrightarrow> errorCount d \<le> errorCount (snd r)"
  by (simp add: exact_def grows_def)

lemma growing_placement [growth_intros]: "growing (normalizeAndValidatePlacement te raw)"
  unfolding normalizeAndValidatePlacement_def Let_def
  by (rule growing_after [OF growing_simple [OF exact_anything]]) (simp add: exact_snd [OF exact_required])

lemma growing_limits [growth_intros]: "growing (normalizeAndValidateLimits te raw)"
  unfolding normalizeAndValidateLimits_def Let_def
  by (rule growing_after [OF growing_simple [OF exact_anything]]) (simp add: exact_snd [OF exact_required])

subsection \<open>Fields that are not inherited\<close>

lemma errors_warn_each [simp]: "errorCount (warn_each ok msg ks d) = errorCount d"
  unfolding warn_each_def by (rule errors_foldl_warnings)

lemma exact_vars [contract_intros]: "exact d (validateVars n d field v env)"
  unfolding validateVars_def Let_def
  by (intro contract_intros) (simp add: exact_def grows_def)

lemma exact_defines [contract_intros]: "exact d (validateDefines n d field v env)"
  unfolding validateDefines_def Let_def by (intro contract_intros) simp_all

lemma exact_cloudchamber [contract_intros]: "exact d (validateCloudchamberConfig d field v env)"
proof (cases "is_object v \<and> \<not> is_array v")
  case True
  then show ?thesis by (simp add: validateCloudchamberConfig_def exact_require exact_accept)
next
  case False
  then show ?thesis by (auto simp: validateCloudchamberConfig_def exact_reject)
qed

lemma exact_tail_consumer [contract_intros]: "exact d (validateTailConsumer field v d)"
  unfolding validateTailConsumer_def by (intro contract_intros)

lemma exact_tail_consumers [contract_intros]: "exact d (validateTailConsumers d field v env)"
  unfolding validateTailConsumers_def by (intro contract_intros)

lemma exact_browser [contract_intros]: "exact d (validateBrowserBinding n d field v env)"
  unfolding validateBrowserBinding_def by (intro contract_intros)

lemma exact_ai [contract_intros]: "exact d (validateAIBinding n d field v env)"
  unfolding validateAIBinding_def by (intro contract_intros)

lemma exact_version_metadata [contract_intros]: "exact d (validateVersionMetadataBinding n d field v env)"
  unfolding validateVersionMetadataBinding_def by (intro contract_intros)

lemma exact_route [contract_intros]: "exact d (isRoute d field v env)"
  unfolding isRoute_def by (intro contract_intros)

lemma exact_route_array [contract_intros]: "exact d (isRouteArray d field v env)"
  unfolding isRouteArray_def Let_def by (intro contract_intros)

lemma exact_routes: "exact d (all [isRouteArray, isMutuallyExclusiveWith raw ks] d field v env)"
  by (rule exact_all) (simp add: exact_route_array exact_exclusive)

lemma exact_cflogfwdr_object [contract_intros]: "exact d (validateCflogfwdrObject n d field v env)"
proof -
  obtain ok d' where r: "validateBindingsProperty n validateCflogfwdrBinding d field v env = (ok, d')"
    by (cases "validateBindingsProperty n validateCflogfwdrBinding d field v env")
  from cflogfwdr.bindings_exact [of d n field v env] show ?thesis
    by (auto simp: validateCflogfwdrObject_def r exact_def grows_def)
qed

text \<open>A wrong \<open>base_path\<close> of a capnp schema is reported although the settings pass.\<close>

lemma reports_capnp: "reports d (validateCapnp p c d)"
proof -
  define s where "s = validateTypedArray (p @ ''.capnp.source_schemas'') (prop_of c ''source_schemas'') ''string''"
  have *: "exact d (s d)" for d unfolding s_def by (rule exact_typed_array)
  have "reports d (s d)" by (rule exact_reports [OF *])
  moreover have "reports d (s (pushError m d))" for m
    using * [of "pushError m d"] by (auto simp: exact_def reports_def grows_def)
  ultimately have "reports d (s d) \<and> reports d (s (pushError m d))" for m by blast
  then show ?thesis unfolding s_def
    by (simp add: validateCapnp_def exact_accept [THEN exact_reports] exact_reject [THEN exact_reports])
qed

interpretation unsafe_settings: reporter "validateUnsafeSettings n"
proof -
  have "reports d (validateUnsafeSettings n d field x env)" for d field x env
  proof (cases "is_object x \<and> \<not> is_array x \<and>
      (has_prop x ''bindings'' \<or> has_prop x ''metadata'' \<or> has_prop x ''capnp'')")
    case True
    define r where "r = (if prop_of x ''bindings'' \<noteq> JUndefined
      then validateBindingsProperty n validateUnsafeBinding d field x env else accept d)"
    have r: "exact d r" unfolding r_def by (intro contract_intros unsafe_binding.bindings_exact)
    define s where "s = (if prop_of x ''metadata'' \<noteq> JUndefined \<and>
        (\<not> is_object (prop_of x ''metadata'') \<or> is_array (prop_of x ''metadata''))
      then reject (field_object_message (env_path n field env @ ''.metadata'') (prop_of x ''metadata'')) (snd r)
      else if prop_of x ''capnp'' \<noteq> JUndefined then validateCapnp (env_path n field env) (prop_of x ''capnp'') (snd r)
      else accept (snd r))"
    have s: "reports (snd r) s"
      unfolding s_def by (simp add: reports_capnp exact_reject [THEN exact_reports] exact_accept [THEN exact_reports])
    have "validateUnsafeSettings n d field x env = (if fst r then s else (False, snd r))"
      using True unfolding validateUnsafeSettings_def Let_def r_def [symmetric] s_def
      by (auto split: prod.splits)
    with r s show ?thesis by (auto simp: exact_def reports_def grows_def)
  next
    case False
    then show ?thesis
      by (auto simp: validateUnsafeSettings_def Let_def exact_reject [THEN exact_reports])
  qed
  then show "reporter (validateUnsafeSettings n)"
    by unfold_locales (auto intro: reports_grows)
qed

lemma grows_assets_config: "grows d (validateAssetsConfig d field v env)"
proof -
  have "grows d (both (validateAdditionalProperties field ks known) r)" if "grows d r" for r ks known
    using that by (simp add: grows_def)
  moreover have "grows d (both f r)" if "\<And>d. exact d (f d)" "grows d r" for f r
    by (rule grows_both [OF exact_grows [OF that(1)] that(2)])
  ultimately show ?thesis
    unfolding validateAssetsConfig_def Let_def
    by (simp add: exact_required exact_optional exact_isNonEmptyString exact_accept [THEN exact_grows]
        exact_reject [THEN exact_grows])
qed

lemma both_mono:
  assumes "\<And>d. exact d (f d)" "n \<le> errorCount (snd r)"
  shows "n \<le> errorCount (snd (both f r))"
  using assms(1) [of "snd r"] assms(2) by (simp add: exact_def grows_def)

lemma growing_migrations [growth_intros]: "growing_validator validateMigrations"
proof -
  have renamed: "errorCount (snd r) \<le> errorCount (snd r')"
    if "validateRenamed p v r = Inr r'" for p v r r'
    using that by (auto simp: validateRenamed_def split: if_splits)
  have step: "errorCount (snd r) \<le> errorCount (snd r')"
    if "validateMigration i m r = Inr r'" for i m r r'
  proof -
    define s where "s = migration_head i m r"
    from that obtain t where t: "validateRenamed (migration_path i) (prop_of m ''renamed_classes'') s = Inr t"
      "r' = both (validateOptionalTypedArray (migration_path i @ ''.deleted_classes'')
         (prop_of m ''deleted_classes'') ''string'') t"
      unfolding s_def by (auto simp: validateMigration_def split: if_splits)
    have "errorCount (snd r) \<le> errorCount (snd s)"
      unfolding s_def migration_head_def Let_def
      by (rule both_mono [OF exact_optional_array], rule both_mono [OF exact_required]) simp
    also have "\<dots> \<le> errorCount (snd t)" by (rule renamed [OF t(1)])
    also have "\<dots> \<le> errorCount (snd r')" unfolding t(2) by (rule both_mono [OF exact_optional_array order_refl])
    finally show ?thesis .
  qed
  have each: "errorCount (snd r) \<le> errorCount (snd r')" if "each_migration i ms r = Inr r'" for i ms r r'
    using that
  proof (induction i ms r rule: each_migration.induct)
    case (2 i m ms r)
    from 2(2) obtain s where s: "validateMigration i m r = Inr s" "each_migration (Suc i) ms s = Inr r'" by auto
    from 2(1) [OF s(2)] step [OF s(1)] show ?case by (rule le_trans [rotated])
  qed simp
  show ?thesis
    using each [of 0 _ "accept _"]
    by (auto simp: growing_validator_def validateMigrations_def Let_def grows_def reject_def split: if_splits)
qed

lemma growing_binding_array [growth_intros]:
  "checker f \<Longrightarrow> growing_validator (validateBindingArray n f)"
  using checker.array_grows by (fastforce simp: growing_validator_def)

lemma grows_consumers:
  assumes "validateQueueConsumers path v config r = Inr s"
  shows "errorCount (snd r) \<le> errorCount (snd s)"
proof -
  have "grows (snd r) (each (\<lambda>i w d. validateConsumer d (path @ element_key i) w config) 0 ws (require b m r))"
    for ws b m by (intro grows_each consumer.only_adds grows_require) (simp add: grows_def)
  with assms show ?thesis
    by (auto simp: validateQueueConsumers_def Let_def grows_def split: if_splits)
qed

lemma grows_producers:
  assumes "validateQueueProducers n field v config r = Inr s"
  shows "errorCount (snd r) \<le> errorCount (snd s)"
proof (cases "has_prop v ''producers''")
  case True
  with assms obtain p where "validateBindingArray n validateQueueBinding (snd r) (field @ ''.producers'')
      (prop_of v ''producers'') config = Inr p" "snd s = snd p"
    by (auto simp: validateQueueProducers_def)
  with queue_binding.array_grows show ?thesis by (auto simp: grows_def)
next
  case False
  with assms show ?thesis by (simp add: validateQueueProducers_def)
qed

lemma growing_queues [growth_intros]: "growing_validator (validateQueues n)"
  unfolding growing_validator_def
proof (intro allI impI)
  fix d field v config r
  assume run: "validateQueues n d field v config = Inr r"
  show "grows d r"
  proof (cases "\<not> is_object v \<or> is_array v")
    case True
    with run have "r = reject (field_object_message (env_path n field config) v) d"
      by (simp only: validateQueues_def Let_def if_True sum.inject)
    then show ?thesis by (simp add: grows_def)
  next
    case False
    with run obtain s where s: "validateQueueConsumers (env_path n field config @ ''.consumers'') v config
        (validateAdditionalProperties (env_path n field config) (object_keys v) [''consumers'', ''producers''] d) = Inr s"
      "validateQueueProducers n field v config s = Inr r"
      by (auto simp: validateQueues_def Let_def)
    have "errorCount d \<le> errorCount (snd s)" using grows_consumers [OF s(1)] by simp
    also have "\<dots> \<le> errorCount (snd r)" by (rule grows_producers [OF s(2)])
    finally show ?thesis by (simp add: grows_def)
  qed
qed

end
