(* ===== verification/ConfigEnvironments.thy ===== *)
theory ConfigEnvironments
  imports ConfigGrowth
begin

text \<open>
  What the validation of an environment computes: every field has the value its rule of inheritance
  gives, from the configuration without the fields the validation removes.
\<close>

subsection \<open>Object literals\<close>

lemma growingD: "growing f \<Longrightarrow> f d = Inr (v, d') \<Longrightarrow> errorCount d \<le> errorCount d'"
  by (auto simp: growing_def)

lemma growing_literal:
  "list_all (\<lambda>p. growing (snd p)) ps \<Longrightarrow> object_literal ps d = Inr (vs, d') \<Longrightarrow> errorCount d \<le> errorCount d'"
proof (induction ps d arbitrary: vs d' rule: object_literal.induct)
  case (2 k f ps d)
  from 2(3) obtain v d1 ws where *: "f d = Inr (v, d1)" "object_literal ps d1 = Inr (ws, d')"
    by (auto split: prod.splits)
  from 2(2) * have "errorCount d \<le> errorCount d1" by (auto simp: growing_def)
  also have "\<dots> \<le> errorCount d'" by (rule 2(1)) (use 2(2) * in auto)
  finally show ?case .
qed simp

lemma literal_keys: "object_literal ps d = Inr (vs, d') \<Longrightarrow> map fst vs = map fst ps"
  by (induction ps d arbitrary: vs d' rule: object_literal.induct) (auto split: prod.splits)

lemma literal_lookup:
  assumes "object_literal ps d = Inr (vs, d')" "(k, f) \<in> set ps" "distinct (map fst ps)"
  shows "\<exists>d1 v d2. f d1 = Inr (v, d2) \<and> map_of vs k = Some v \<and>
           (list_all (\<lambda>p. growing (snd p)) ps \<longrightarrow>
              errorCount d \<le> errorCount d1 \<and> errorCount d2 \<le> errorCount d')"
  using assms
proof (induction ps d arbitrary: vs d' rule: object_literal.induct)
  case (2 k' f' ps d)
  from 2(2) obtain v d1 ws where *: "f' d = Inr (v, d1)" "object_literal ps d1 = Inr (ws, d')"
    "vs = (k', v) # ws" by (auto split: prod.splits)
  have tail: "list_all (\<lambda>p. growing (snd p)) ps \<Longrightarrow> errorCount d1 \<le> errorCount d'"
    using growing_literal *(2) by blast
  show ?case
  proof (cases "k = k'")
    case True
    with 2(3,4) have "f = f'" by (auto simp: image_iff)
    with True * tail show ?thesis by (intro exI [of _ d] exI [of _ v] exI [of _ d1]) auto
  next
    case False
    with 2(3) have "(k, f) \<in> set ps" by auto
    with 2(1) [OF *(2)] 2(4) obtain e1 w e2 where w: "f e1 = Inr (w, e2)" "map_of ws k = Some w"
      "list_all (\<lambda>p. growing (snd p)) ps \<longrightarrow> errorCount d1 \<le> errorCount e1 \<and> errorCount e2 \<le> errorCount d'"
      by auto
    have "growing f' \<Longrightarrow> errorCount d \<le> errorCount d1" using *(1) by (auto simp: growing_def)
    with w False *(3) show ?thesis
      by (intro exI [of _ e1] exI [of _ w] exI [of _ e2]) auto
  qed
qed simp

subsection \<open>Removed fields\<close>

lemma deprecated_errors: "deprecated p m r t (d, c) = Inr (d', c') \<Longrightarrow> errorCount d' = errorCount d"
  by (auto simp: deprecated_def split: if_splits)

lemma experimental_errors: "experimental q p c d = Inr d' \<Longrightarrow> errorCount d' = errorCount d"
  by (auto simp: experimental_def split: if_splits)

lemma prop_delete [simp]: "k \<noteq> j \<Longrightarrow> prop_of (delete_prop j c) k = prop_of c k"
  by (cases c) (auto simp: AList.delete_conv')

lemma prop_set [simp]: "k \<noteq> j \<Longrightarrow> prop_of (set_prop j w c) k = prop_of c k"
  by (cases c) (auto simp: AList.update_conv')

lemma prop_delete_path: "p \<noteq> [] \<Longrightarrow> k \<noteq> hd p \<Longrightarrow> prop_of (delete_path p c) k = prop_of c k"
  by (induction p c rule: delete_path.induct) auto

lemma deprecated_keeps:
  assumes "deprecated p m r t (d, c) = Inr (d', c')" "k \<noteq> hd (split_on CHR ''.'' p)"
  shows "prop_of c' k = prop_of c k"
  using assms by (auto simp: deprecated_def prop_delete_path split: if_splits)

lemma drop_empty_errors: "drop_empty f (d, c) = (d', c') \<Longrightarrow> errorCount d' = errorCount d"
  by (auto simp: drop_empty_def split: if_splits)

lemma drop_empty_keeps: "drop_empty f (d, c) = (d', c') \<Longrightarrow> k \<noteq> f \<Longrightarrow> prop_of c' k = prop_of c k"
  by (auto simp: drop_empty_def split: if_splits)

text \<open>The fields of the raw environment that the validation changes.\<close>

definition changed_fields :: "string list" where
  "changed_fields = [''kv-namespaces'', ''experimental_services'', ''zone_id'', ''route'', ''account_id'', ''build'']"

lemma path_heads [simp]:
  "hd (split_on CHR ''.'' ''kv-namespaces'') = ''kv-namespaces''"
  "hd (split_on CHR ''.'' ''experimental_services'') = ''experimental_services''"
  "hd (split_on CHR ''.'' ''zone_id'') = ''zone_id''"
  "hd (split_on CHR ''.'' ''build.upload.format'') = ''build''"
  "hd (split_on CHR ''.'' ''build.upload.main'') = ''build''"
  "hd (split_on CHR ''.'' ''build.upload.dir'') = ''build''"
  by code_simp+

definition same_fields :: "jval \<Rightarrow> jval \<Rightarrow> bool" where
  "same_fields c c' \<longleftrightarrow> (\<forall>k. k \<notin> set changed_fields \<longrightarrow> prop_of c' k = prop_of c k)"

lemma same_fields_refl: "same_fields c c"
  by (simp add: same_fields_def)

lemma same_fields_trans: "same_fields a b \<Longrightarrow> same_fields b c \<Longrightarrow> same_fields a c"
  by (simp add: same_fields_def)

lemma deprecated_same:
  "deprecated p m r t (d, c) = Inr (d', c') \<Longrightarrow> hd (split_on CHR ''.'' p) \<in> set changed_fields \<Longrightarrow>
     errorCount d' = errorCount d \<and> same_fields c c'"
  using deprecated_errors deprecated_keeps unfolding same_fields_def by metis

lemma deprecated_env_same:
  assumes "deprecated_env_fields (d, c) = Inr (d', c')"
  shows "errorCount d' = errorCount d \<and> same_fields c c'"
proof -
  from assms obtain d1 c1 d2 c2 where *:
    "deprecated ''kv-namespaces'' kv_namespaces_message True ''Deprecation'' (d, c) = Inr (d1, c1)"
    "deprecated ''zone_id'' zone_id_message False ''Deprecation'' (d1, c1) = Inr (d2, c2)"
    "deprecated ''experimental_services'' services_message True ''Deprecation'' (d2, c2) = Inr (d', c')"
    by (auto simp: deprecated_env_fields_def)
  have 1: "errorCount d1 = errorCount d \<and> same_fields c c1"
    by (rule deprecated_same [OF *(1)]) (simp add: changed_fields_def)
  have 2: "errorCount d2 = errorCount d1 \<and> same_fields c1 c2"
    by (rule deprecated_same [OF *(2)]) (simp add: changed_fields_def)
  have 3: "errorCount d' = errorCount d2 \<and> same_fields c2 c'"
    by (rule deprecated_same [OF *(3)]) (simp add: changed_fields_def)
  show ?thesis using 1 2 3 same_fields_trans by metis
qed

lemma drop_empty_same:
  "drop_empty f (d, c) = (d', c') \<Longrightarrow> f \<in> set changed_fields \<Longrightarrow> errorCount d' = errorCount d \<and> same_fields c c'"
  using drop_empty_errors drop_empty_keeps unfolding same_fields_def by metis

lemma route_same:
  assumes "normalizeAndValidateRoute te (d, c) = Inr (v, d', c')"
  shows "errorCount d \<le> errorCount d' \<and> same_fields c c'"
proof -
  obtain d1 c1 where 1: "drop_empty ''route'' (d, c) = (d1, c1)" by (cases "drop_empty ''route'' (d, c)")
  with assms have run: "simple te c1 ''route'' isRoute JUndefined d1 = Inr (v, d')" "c' = c1"
    by (auto simp: normalizeAndValidateRoute_def mutateEmptyStringRouteValue_def)
  have "errorCount d1 = errorCount d \<and> same_fields c c1"
    by (rule drop_empty_same [OF 1]) (simp add: changed_fields_def)
  with growingD [OF growing_simple [where f = isRoute, OF exact_route] run(1)] run(2) show ?thesis by simp
qed

lemma account_same:
  assumes "normalizeAccountId e (d, c) = Inr (v, d', c')"
  shows "errorCount d \<le> errorCount d' \<and> same_fields c c'"
proof -
  obtain d1 c1 where 1: "drop_empty ''account_id'' (d, c) = (d1, c1)"
    by (cases "drop_empty ''account_id'' (d, c)")
  with assms have run: "inheritableInLegacyEnvironments (c_legacy e) (c_top e) c1 ''account_id'' (never_throws isString)
      (\<lambda>v. v) JUndefined d1 = Inr (v, d')" "c' = c1"
    by (auto simp: normalizeAccountId_def mutateEmptyStringAccountIDValue_def)
  have "errorCount d1 = errorCount d \<and> same_fields c c1"
    by (rule drop_empty_same [OF 1]) (simp add: changed_fields_def)
  with growingD [OF growing_legacy [OF growing_total_exact [where f = isString, OF exact_isString]] run(1)] run(2)
  show ?thesis by simp
qed

lemma deprecated_build_same:
  assumes "deprecatedBuildFields u (d, c) = Inr (d', c')"
  shows "errorCount d \<le> errorCount d' \<and> same_fields c c'"
proof -
  have build: "''build'' \<in> set changed_fields" by (simp add: changed_fields_def)
  from assms obtain d1 c1 where 1:
    "deprecated ''build.upload.format'' build_format_message True ''Deprecation'' (d, c) = Inr (d1, c1)"
    and rest: "d' = pushError both_mains_message d1 \<and> c' = c1 \<or>
      (\<exists>m d2 c2. deprecated ''build.upload.main'' m True ''Deprecation'' (d1, c1) = Inr (d2, c2) \<and>
        deprecated ''build.upload.dir'' build_dir_message True ''Deprecation'' (d2, c2) = Inr (d', c'))"
    by (auto simp: deprecatedBuildFields_def split: if_splits) blast+
  have *: "errorCount d1 = errorCount d \<and> same_fields c c1"
    by (rule deprecated_same [OF 1]) (simp add: build)
  from rest show ?thesis
  proof
    assume "\<exists>m d2 c2. deprecated ''build.upload.main'' m True ''Deprecation'' (d1, c1) = Inr (d2, c2) \<and>
        deprecated ''build.upload.dir'' build_dir_message True ''Deprecation'' (d2, c2) = Inr (d', c')"
    then obtain m d2 c2 where
      2: "deprecated ''build.upload.main'' m True ''Deprecation'' (d1, c1) = Inr (d2, c2)" and
      3: "deprecated ''build.upload.dir'' build_dir_message True ''Deprecation'' (d2, c2) = Inr (d', c')"
      by blast
    have "errorCount d2 = errorCount d1 \<and> same_fields c1 c2"
      by (rule deprecated_same [OF 2]) (simp add: build)
    moreover have "errorCount d' = errorCount d2 \<and> same_fields c2 c'"
      by (rule deprecated_same [OF 3]) (simp add: build)
    ultimately show ?thesis using * same_fields_trans by (metis order_refl)
  qed (use * in simp)
qed

lemma build_same:
  assumes "normalizeAndValidateBuild h p raw (d, c) = Inr (b, u, d', c')"
  shows "errorCount d \<le> errorCount d' \<and> same_fields c c'"
proof -
  define dir where "dir = default_to (JString ''./src'') (prop_of raw ''watch_dir'')"
  define d1 where "d1 = snd (validateAdditionalProperties ''build''
    (rest_keys raw [''command'', ''cwd'', ''watch_dir'', ''upload'']) [] d)"
  define d2 where "d2 = snd (validateOptionalProperty ''build'' ''command'' (prop_of raw ''command'') ''string'' None d1)"
  define d3 where "d3 = snd (validateOptionalProperty ''build'' ''cwd'' (prop_of raw ''cwd'') ''string'' None d2)"
  define d4 where "d4 = snd (validateWatchDir dir d3)"
  from assms have run: "deprecatedBuildFields (prop_of raw ''upload'') (d4, c) = Inr (d', c')"
    by (auto simp: normalizeAndValidateBuild_def Let_def case_prod_unfold d1_def d2_def d3_def d4_def dir_def)
  have "errorCount d \<le> errorCount d1" by (simp add: d1_def)
  also have "errorCount d1 \<le> errorCount d2" unfolding d2_def by (rule exact_snd [OF exact_optional])
  also have "\<dots> \<le> errorCount d3" unfolding d3_def by (rule exact_snd [OF exact_optional])
  also have "\<dots> \<le> errorCount d4" unfolding d4_def validateWatchDir_def
    by (simp add: exact_snd [OF exact_optional] exact_snd [OF exact_typed_array])
  finally show ?thesis using deprecated_build_same [OF run] by simp
qed

lemma warn_migrations_errors:
  "warnIfDurableObjectsHaveNoMigrations h ob m d = Inr d' \<Longrightarrow> errorCount d' = errorCount d"
  by (auto simp: warnIfDurableObjectsHaveNoMigrations_def Let_def split: if_splits)

subsection \<open>The run of an environment\<close>

definition environment_names :: "string list" where
  "environment_names =
     [''account_id'', ''compatibility_date'', ''compatibility_flags'', ''jsx_factory'', ''jsx_fragment'', ''tsconfig'',
      ''rules'', ''name'', ''main'', ''find_additional_modules'', ''preserve_file_names'', ''base_dir'', ''route'',
      ''routes'', ''triggers'', ''experimental_assets'', ''usage_model'', ''limits'', ''placement'', ''build'',
      ''workers_dev'', ''vars'', ''define'', ''durable_objects'', ''migrations'', ''kv_namespaces'', ''cloudchamber'',
      ''send_email'', ''queues'', ''r2_buckets'', ''d1_databases'', ''vectorize'', ''hyperdrive'', ''services'',
      ''analytics_engine_datasets'', ''dispatch_namespaces'', ''mtls_certificates'', ''tail_consumers'', ''unsafe'',
      ''browser'', ''ai'', ''version_metadata'', ''zone_id'', ''logfwdr'', ''no_bundle'', ''minify'', ''node_compat'',
      ''first_party_worker'', ''logpush'', ''upload_source_maps'']"

lemmas row_tables = first_rows_def binding_rows_def single_rows_def array_row_def

lemma fst_pairs [simp]:
  "fst (inherits c raw field f v) = field"
  "fst (separate c raw row) = fst row"
  by (simp_all add: inherits_def separate_def split: prod.splits)

lemma environment_field_names:
  "map fst (environment_fields c raw a r rs w dep b) = environment_names"
  by (simp add: environment_fields_def inherited_fields_def separate_fields_def last_fields_def
      row_tables environment_names_def)

lemma environment_names_distinct: "distinct environment_names"
  by code_simp

lemma growing_environment:
  "list_all (\<lambda>p. growing (snd p)) (environment_fields c raw a r rs w dep b)"
proof -
  have array: "growing (snd (separate c raw (field, validateBindingArray n f, v)))" if "exact_validator f" for field n f v
    using that by (intro growth_intros) (simp add: exact_validator_def reporter_def)
  have exact: "growing (snd (separate c raw (field, never_throws f, v)))" "growing (snd (inherits c raw field (never_throws f) v))"
    if "\<And>d field v env. exact d (f d field v env)" for field f v
    by (intro growth_intros exact_grows that)+
  have name: "growing (inheritableInLegacyEnvironments l te raw ''name''
      (never_throws (if disp then isString else isValidName)) tr v)" for l te disp tr v
    by (cases disp) (simp_all add: growing_legacy growing_total_exact exact_isString exact_isValidName)
  have assets: "growing (snd (inherits c raw field (never_throws validateAssetsConfig) v))" for field v
    by (intro growth_intros grows_assets_config)
  have unsafe: "growing (snd (separate c raw (field, never_throws (validateUnsafeSettings n), v)))" for field n v
    by (intro growth_intros unsafe_settings.only_adds)
  note validators = kv_binding.exact_validator_axioms send_email.exact_validator_axioms
    r2_binding.exact_validator_axioms d1_binding.exact_validator_axioms vectorize.exact_validator_axioms
    hyperdrive.exact_validator_axioms service_binding.exact_validator_axioms analytics.exact_validator_axioms
    worker_namespace.exact_validator_axioms mtls.exact_validator_axioms
  show ?thesis
    by (simp add: environment_fields_def inherited_fields_def separate_fields_def last_fields_def
        row_tables growth_intros exact array contract_intros name assets unsafe validators
        durable_object.bindings_exact)
qed

text \<open>
  A run of the validation of an environment evaluates the literal of its fields on the raw environment
  without the deprecated fields; before and after it only messages are added.
\<close>

definition environment_literal ::
    "env_context \<Rightarrow> jval \<Rightarrow> diagnostics \<Rightarrow> (string \<times> jval) list \<Rightarrow> diagnostics \<Rightarrow> bool" where
  "environment_literal c raw d fs d' \<longleftrightarrow>
     (\<exists>a r rs w dep b. object_literal (environment_fields c raw a r rs w dep b) d = Inr (fs, d'))"

lemma environment_run:
  assumes "normalizeAndValidateEnvironment c (d, raw) = Inr (e, d', raw')"
  shows "\<exists>fs d1 d2. e = JObject fs \<and> environment_literal c raw' d1 fs d2 \<and> errorCount d \<le> errorCount d1 \<and>
           errorCount d2 = errorCount d' \<and> same_fields raw raw'"
proof -
  from assms obtain d1 r1 d2 route d3 r3 a d4 r4 rs d5 w d6 b dep d7 r7 fs d8 where *:
    "deprecated_env_fields (d, raw) = Inr (d1, r1)"
    "experimental (h_quiet (c_host c)) ''unsafe'' r1 d1 = Inr d2"
    "normalizeAndValidateRoute (c_top c) (d2, r1) = Inr (route, d3, r3)"
    "normalizeAccountId c (d3, r3) = Inr (a, d4, r4)"
    "validateRoutesField (c_top c) r4 d4 = Inr (rs, d5)"
    "simple (c_top c) r4 ''workers_dev'' isBoolean JUndefined d5 = Inr (w, d6)"
    "normalizeAndValidateBuild (c_host c) (c_path c)
       (coalesce (prop_of r4 ''build'') (coalesce (prop_of (c_top c) ''build'') (JObject []))) (d6, r4) =
       Inr (b, dep, d7, r7)"
    "object_literal (environment_fields c r7 a route rs w dep b) d7 = Inr (fs, d8)"
    "warnIfDurableObjectsHaveNoMigrations (c_host c) (prop_of (JObject fs) ''durable_objects'')
       (prop_of (JObject fs) ''migrations'') d8 = Inr d'"
    "e = JObject fs" "raw' = r7"
    unfolding normalizeAndValidateEnvironment_def
    by (auto simp del: prop_of.simps split: prod.splits)
  note e = deprecated_env_same [OF *(1)] experimental_errors [OF *(2)] route_same [OF *(3)]
    account_same [OF *(4)] build_same [OF *(7)] warn_migrations_errors [OF *(9)]
  have rs: "errorCount d4 \<le> errorCount d5"
    using *(5) unfolding validateRoutesField_def
    by (rule growingD [OF growing_simple [where f = "all [isRouteArray, isMutuallyExclusiveWith r4 [''route'']]", OF exact_routes]])
  have w: "errorCount d5 \<le> errorCount d6"
    using *(6) by (rule growingD [OF growing_simple [where f = isBoolean, OF exact_isBoolean]])
  have "same_fields raw r7" using e same_fields_trans by metis
  moreover have "errorCount d \<le> errorCount d7" using e rs w by linarith
  moreover have "environment_literal c r7 d7 fs d8"
    unfolding environment_literal_def using *(8) by blast
  ultimately show ?thesis using *(10,11) e(6) by metis
qed

text \<open>The value of one field, and the messages of its computation.\<close>

lemma environment_value:
  assumes "environment_literal c raw d fs d'"
    and "\<And>a r rs w dep b. (k, f) \<in> set (environment_fields c raw a r rs w dep b)"
  shows "\<exists>d1 v d2. f d1 = Inr (v, d2) \<and> prop_of (JObject fs) k = v \<and>
           errorCount d \<le> errorCount d1 \<and> errorCount d1 \<le> errorCount d2 \<and> errorCount d2 \<le> errorCount d'"
proof -
  from assms(1) obtain a r rs w dep b where
    "object_literal (environment_fields c raw a r rs w dep b) d = Inr (fs, d')"
    by (auto simp: environment_literal_def)
  from literal_lookup [OF this assms(2)] obtain d1 v d2 where "f d1 = Inr (v, d2)" "map_of fs k = Some v"
    "errorCount d \<le> errorCount d1" "errorCount d2 \<le> errorCount d'"
    using environment_names_distinct growing_environment by (auto simp: environment_field_names)
  moreover have "growing f"
    using growing_environment [of c raw a r rs w dep b] assms(2) [of a r rs w dep b] by (auto simp: list_all_iff)
  ultimately show ?thesis using growingD by (intro exI [of _ d1] exI [of _ v] exI [of _ d2]) auto
qed

subsection \<open>Inheritance\<close>

text \<open>The fields an environment does not inherit and the fields it does, with their defaults.\<close>

definition separate_defaults :: "(string \<times> jval) list" where
  "separate_defaults =
     [(''vars'', JObject []), (''define'', JObject []), (''durable_objects'', no_bindings),
      (''kv_namespaces'', JArray []), (''cloudchamber'', JObject []), (''send_email'', JArray []),
      (''queues'', JObject [(''producers'', JArray []), (''consumers'', JArray [])]),
      (''r2_buckets'', JArray []), (''d1_databases'', JArray []), (''vectorize'', JArray []),
      (''hyperdrive'', JArray []), (''services'', JArray []), (''analytics_engine_datasets'', JArray []),
      (''dispatch_namespaces'', JArray []), (''mtls_certificates'', JArray []), (''tail_consumers'', JUndefined),
      (''unsafe'', JObject []), (''browser'', JUndefined), (''ai'', JUndefined), (''version_metadata'', JUndefined)]"

definition inherited_defaults :: "(string \<times> jval) list" where
  "inherited_defaults =
     [(''compatibility_date'', JUndefined), (''compatibility_flags'', JArray []),
      (''jsx_factory'', JString ''React.createElement''), (''jsx_fragment'', JString ''React.Fragment''),
      (''find_additional_modules'', JUndefined), (''preserve_file_names'', JUndefined),
      (''triggers'', JObject [(''crons'', JArray [])]), (''experimental_assets'', JUndefined),
      (''usage_model'', JUndefined), (''migrations'', JArray []), (''logfwdr'', no_bindings),
      (''no_bundle'', JUndefined), (''minify'', JUndefined), (''node_compat'', JUndefined),
      (''first_party_worker'', JUndefined), (''logpush'', JUndefined), (''upload_source_maps'', JUndefined)]"

definition separate_rows :: "string \<Rightarrow> field_row list" where
  "separate_rows n = first_rows n @ binding_rows n @ single_rows n"

definition inherited_rows :: "string \<Rightarrow> field_row list" where
  "inherited_rows n =
     [(''compatibility_date'', never_throws isString, JUndefined),
      (''compatibility_flags'', never_throws isStringArray, JArray []),
      (''jsx_factory'', never_throws isString, JString ''React.createElement''),
      (''jsx_fragment'', never_throws isString, JString ''React.Fragment''),
      (''find_additional_modules'', never_throws isBoolean, JUndefined),
      (''preserve_file_names'', never_throws isBoolean, JUndefined),
      (''triggers'', never_throws (isObjectWith [''crons'']), JObject [(''crons'', JArray [])]),
      (''experimental_assets'', never_throws validateAssetsConfig, JUndefined),
      (''usage_model'', never_throws (isOneOf [JString ''bundled'', JString ''unbound'']), JUndefined),
      (''migrations'', validateMigrations, JArray []),
      (''logfwdr'', never_throws (validateCflogfwdrObject n), no_bindings),
      (''no_bundle'', never_throws isBoolean, JUndefined), (''minify'', never_throws isBoolean, JUndefined),
      (''node_compat'', never_throws isBoolean, JUndefined),
      (''first_party_worker'', never_throws isBoolean, JUndefined),
      (''logpush'', never_throws isBoolean, JUndefined),
      (''upload_source_maps'', never_throws isBoolean, JUndefined)]"

lemma separate_member:
  "row \<in> set (separate_rows (c_name c)) \<Longrightarrow> separate c raw row \<in> set (environment_fields c raw a r rs w dep b)"
  by (auto simp: separate_rows_def environment_fields_def separate_fields_def)

lemma inherited_members:
  "list_all (\<lambda>(k, f, v). inherits c raw k f v \<in> set (environment_fields c raw a r rs w dep b)) (inherited_rows (c_name c))"
  by (simp add: inherited_rows_def environment_fields_def inherited_fields_def separate_fields_def last_fields_def)

lemma separate_rows_defaults: "map (\<lambda>(k, f, v). (k, v)) (separate_rows n) = separate_defaults"
  by (simp add: separate_rows_def row_tables separate_defaults_def)

lemma inherited_rows_defaults: "map (\<lambda>(k, f, v). (k, v)) (inherited_rows n) = inherited_defaults"
  by (simp add: inherited_rows_def inherited_defaults_def)

end
