(* ===== verification/ConfigNames.thy ===== *)
theory ConfigNames
  imports ConfigSchema
begin

text \<open>The test for unique names of bindings decides whether the names are distinct.\<close>

definition lookup_group :: "(string \<times> string list) list \<Rightarrow> string \<Rightarrow> string list" where
  "lookup_group groups n = (case map_of groups n of None \<Rightarrow> [] | Some ts \<Rightarrow> ts)"

definition types_of :: "string \<Rightarrow> (string \<times> string) list \<Rightarrow> string list" where
  "types_of n ps = map snd (filter (\<lambda>p. fst p = n) ps)"

lemma binding_groups_lookup:
  "binding_groups ps groups = Inr groups' \<Longrightarrow> lookup_group groups' n = lookup_group groups n @ types_of n ps"
proof (induction ps groups rule: binding_groups.induct)
  case (2 name type rest groups)
  then show ?case
    by (cases "map_of groups name") (auto simp: lookup_group_def types_of_def AList.update_conv' split: if_splits)
qed (simp add: types_of_def)

lemma binding_groups_distinct:
  "binding_groups ps groups = Inr groups' \<Longrightarrow> distinct (map fst groups) \<Longrightarrow> distinct (map fst groups')"
  by (induction ps groups rule: binding_groups.induct) (auto simp: AList.distinct_update split: if_splits)

lemma binding_groups_error:
  "binding_groups ps groups = Inl e \<longleftrightarrow> e = TypeError \<and> (\<exists>p \<in> set ps. fst p \<in> set inherited_names)"
  by (induction ps groups rule: binding_groups.induct) auto

lemma distinct_count: "distinct xs \<longleftrightarrow> (\<forall>x. count_list xs x < 2)"
proof (induction xs)
  case (Cons a xs)
  have "a \<in> set xs \<longleftrightarrow> 0 < count_list xs a" by (metis count_list_0_iff gr0I less_irrefl)
  with Cons show ?case
    by (auto simp: less_Suc_eq numeral_2_eq_2)
qed simp

lemma length_types: "length (types_of n ps) = count_list (map fst ps) n"
  by (induction ps) (auto simp: types_of_def)

lemma groups_distinct:
  assumes "binding_groups ps [] = Inr groups"
  shows "list_ex (\<lambda>(name, types). 2 \<le> length types) groups \<longleftrightarrow> \<not> distinct (map fst ps)"
proof -
  have d: "distinct (map fst groups)" by (rule binding_groups_distinct [OF assms]) simp
  have l: "lookup_group groups n = types_of n ps" for n
    using binding_groups_lookup [OF assms, of n] by (simp add: lookup_group_def)
  have "list_ex (\<lambda>(name, types). 2 \<le> length types) groups \<longleftrightarrow> (\<exists>n. 2 \<le> length (lookup_group groups n))"
  proof
    assume "list_ex (\<lambda>(name, types). 2 \<le> length types) groups"
    then obtain n ts where "(n, ts) \<in> set groups" "2 \<le> length ts" by (auto simp: list_ex_iff)
    with d show "\<exists>n. 2 \<le> length (lookup_group groups n)"
      by (auto simp: lookup_group_def intro!: exI [of _ n])
  next
    assume "\<exists>n. 2 \<le> length (lookup_group groups n)"
    then obtain n where "2 \<le> length (lookup_group groups n)" by blast
    then obtain ts where "map_of groups n = Some ts" "2 \<le> length ts"
      by (auto simp: lookup_group_def split: option.splits)
    then show "list_ex (\<lambda>(name, types). 2 \<le> length types) groups"
      by (auto simp: list_ex_iff dest!: map_of_SomeD)
  qed
  also have "\<dots> \<longleftrightarrow> \<not> distinct (map fst ps)"
    by (simp add: l length_types distinct_count not_less)
  finally show ?thesis .
qed

lemma errors_foldl_push [simp]: "errorCount (foldl (\<lambda>d msg. pushError msg d) d msgs) = errorCount d + length msgs"
  by (induction msgs arbitrary: d) auto

lemma no_duplicate_errors:
  assumes "\<not> list_ex (\<lambda>(name, types). 2 \<le> length types) groups"
  shows "concat (map (\<lambda>(name, types). duplicate_errors name types) (object_order groups)) = []"
proof -
  have "set (object_order groups) \<subseteq> set groups" by (auto simp: object_order_def)
  with assms show ?thesis by (fastforce simp: list_ex_iff duplicate_errors_def)
qed

lemma unique_names_verdict:
  assumes "validateBindingsHaveUniqueNames config d = Inr r"
  shows "set (map fst (typed_names config)) \<inter> set inherited_names = {} \<and>
         (fst r = distinct (map fst (typed_names config))) \<and> exact d r"
proof -
  from assms obtain groups where g: "binding_groups (typed_names config) [] = Inr groups"
    by (auto simp: validateBindingsHaveUniqueNames_def)
  have "set (map fst (typed_names config)) \<inter> set inherited_names = {}"
    using binding_groups_error [of "typed_names config" "[]" TypeError] g by auto
  moreover note groups_distinct [OF g] no_duplicate_errors [of groups]
  ultimately show ?thesis
    using assms g by (auto simp: validateBindingsHaveUniqueNames_def Let_def exact_def grows_def)
qed

text \<open>
  C13: The test of the names of the bindings throws exactly if a binding has the name of a method every
  object inherits; otherwise it says whether the names are distinct, and adds an error exactly if they
  are not.
\<close>

theorem unique_names_exact:
  "case validateBindingsHaveUniqueNames config d of
     Inl e \<Rightarrow> e = TypeError \<and> (\<exists>n \<in> set (map fst (typed_names config)). n \<in> set inherited_names)
   | Inr r \<Rightarrow> set (map fst (typed_names config)) \<inter> set inherited_names = {} \<and>
       (fst r = distinct (map fst (typed_names config))) \<and> exact d r"
proof (cases "validateBindingsHaveUniqueNames config d")
  case (Inl e)
  then show ?thesis
    using binding_groups_error [of "typed_names config" "[]" e]
    by (auto simp: validateBindingsHaveUniqueNames_def Let_def andThen_eq_Inl)
next
  case (Inr r)
  from unique_names_verdict [OF this] Inr show ?thesis by simp
qed

end
