(* ===== verification/ConfigTheorems.thy ===== *)
theory ConfigTheorems
  imports ConfigEnvironments ConfigNames
begin

text \<open>
  What a configuration without errors guarantees, how environments inherit, and what the messages show.
\<close>

subsection \<open>Inheritance\<close>

lemma separate_value:
  assumes "snd (separate c raw (k, f, v)) d = Inr (w, d')"
  shows "w = coalesce (prop_of raw k) v \<and>
         (prop_of raw k \<noteq> JUndefined \<longrightarrow>
            (\<exists>r. f d k (prop_of raw k) (c_top c) = Inr r \<and> errorCount (snd r) = errorCount d'))"
  using assms by (fastforce simp: separate_def notInheritable_def split: if_splits)

lemma inherits_value:
  "snd (inherits c raw k f v) d = Inr (w, d') \<Longrightarrow>
     w = coalesce (prop_of raw k) (coalesce (prop_of (c_top c) k) v)"
  by (auto simp: inherits_def inheritable_def)

lemma separate_field_value:
  assumes "environment_literal c raw d fs d'" "(k, f, v) \<in> set (separate_rows (c_name c))"
  shows "\<exists>d1 d2. errorCount d \<le> errorCount d1 \<and> errorCount d1 \<le> errorCount d2 \<and> errorCount d2 \<le> errorCount d' \<and>
           prop_of (JObject fs) k = coalesce (prop_of raw k) v \<and>
           (prop_of raw k \<noteq> JUndefined \<longrightarrow>
              (\<exists>r. f d1 k (prop_of raw k) (c_top c) = Inr r \<and> errorCount (snd r) = errorCount d2))"
proof -
  have "(k, snd (separate c raw (k, f, v))) \<in> set (environment_fields c raw a r rs w dep b)" for a r rs w dep b
    using separate_member [OF assms(2)] by (metis fst_pairs(2) fst_conv prod.collapse)
  from environment_value [OF assms(1) this] separate_value show ?thesis by metis
qed

lemma inherited_field_value:
  assumes "environment_literal c raw d fs d'" "(k, f, v) \<in> set (inherited_rows (c_name c))"
  shows "prop_of (JObject fs) k = coalesce (prop_of raw k) (coalesce (prop_of (c_top c) k) v)"
proof -
  have "(k, snd (inherits c raw k f v)) \<in> set (environment_fields c raw a r rs w dep b)" for a r rs w dep b
    using inherited_members [of c raw a r rs w dep b] assms(2) unfolding list_all_iff
    by (metis (mono_tags, lifting) fst_pairs(1) prod.case prod.collapse)
  from environment_value [OF assms(1) this] inherits_value show ?thesis by metis
qed

lemma unchanged_names:
  "list_all (\<lambda>k. k \<notin> set changed_fields) (map fst separate_defaults @ map fst inherited_defaults)"
  by code_simp

text \<open>
  C11: An environment takes the fields that hold bindings, variables and the like from its own section
  only, never from the top level, and every other plain field from its own section, else from the top
  level, else from the default.
\<close>

theorem environment_inheritance:
  assumes "normalizeAndValidateEnvironment c (d, rawEnv) = Inr (env, d', rawEnv')"
  shows "list_all (\<lambda>(k, v). prop_of env k = coalesce (prop_of rawEnv k) v) separate_defaults \<and>
         list_all (\<lambda>(k, v). prop_of env k = coalesce (prop_of rawEnv k) (coalesce (prop_of (c_top c) k) v))
           inherited_defaults"
proof -
  from environment_run [OF assms] obtain fs d1 d2 where
    e: "env = JObject fs" "environment_literal c rawEnv' d1 fs d2" "same_fields rawEnv rawEnv'" by blast
  have same: "prop_of rawEnv' k = prop_of rawEnv k" if "k \<in> fst ` set separate_defaults \<union> fst ` set inherited_defaults" for k
    using e(3) unchanged_names that unfolding same_fields_def list_all_iff by auto
  have "prop_of env k = coalesce (prop_of rawEnv k) v" if "(k, v) \<in> set separate_defaults" for k v
  proof -
    from that obtain f where "(k, f, v) \<in> set (separate_rows (c_name c))"
      unfolding separate_rows_defaults [of "c_name c", symmetric] by auto
    from separate_field_value [OF e(2) this] same [of k] that e(1) show ?thesis by force
  qed
  moreover have "prop_of env k = coalesce (prop_of rawEnv k) (coalesce (prop_of (c_top c) k) v)"
    if "(k, v) \<in> set inherited_defaults" for k v
  proof -
    from that obtain f where "(k, f, v) \<in> set (inherited_rows (c_name c))"
      unfolding inherited_rows_defaults [of "c_name c", symmetric] by auto
    from inherited_field_value [OF e(2) this] same [of k] that e(1) show ?thesis by force
  qed
  ultimately show ?thesis by (auto simp: list_all_iff)
qed

subsection \<open>Valid environments\<close>

definition valid_arrays :: "jval \<Rightarrow> bool" where
  "valid_arrays e \<longleftrightarrow> list_all (\<lambda>(k, _, shape).
     is_array (prop_of e k) \<and> list_all shape (elements (prop_of e k))) array_schemas"

lemma schema_rows:
  "list_all (\<lambda>(k, v, shape). (k, validateBindingArray n v, JArray []) \<in> set (separate_rows n)) array_schemas"
  by (simp add: array_schemas_def separate_rows_def row_tables)

lemma schema_unchanged: "list_all (\<lambda>(k, _, _). k \<notin> set changed_fields) array_schemas"
  by (simp add: array_schemas_def changed_fields_def)

lemma environment_arrays:
  assumes "normalizeAndValidateEnvironment c (d, rawEnv) = Inr (env, d', rawEnv')"
    and "errorCount d' = errorCount d \<or> rawEnv = JObject []"
  shows "valid_arrays env"
proof -
  from environment_run [OF assms(1)] obtain fs d1 d2 where
    e: "env = JObject fs" "environment_literal c rawEnv' d1 fs d2" "same_fields rawEnv rawEnv'"
    "errorCount d \<le> errorCount d1" "errorCount d2 = errorCount d'" by blast
  have "is_array (prop_of env k) \<and> list_all shape (elements (prop_of env k))"
    if row: "(k, v, shape) \<in> set array_schemas" for k v shape
  proof -
    define x where "x = prop_of rawEnv' k"
    have "(k, validateBindingArray (c_name c) v, JArray []) \<in> set (separate_rows (c_name c))"
      using schema_rows row by (fastforce simp: list_all_iff)
    from separate_field_value [OF e(2) this] obtain e1 e2 where *:
      "errorCount d1 \<le> errorCount e1" "errorCount e1 \<le> errorCount e2" "errorCount e2 \<le> errorCount d2"
      "prop_of env k = coalesce x (JArray [])"
      "x \<noteq> JUndefined \<longrightarrow> (\<exists>r. validateBindingArray (c_name c) v e1 k x (c_top c) = Inr r \<and>
          errorCount (snd r) = errorCount e2)"
      unfolding e(1) x_def by blast
    show ?thesis
    proof (cases "x = JUndefined")
      case True
      then show ?thesis by (simp add: *(4) coalesce_def)
    next
      case False
      have "k \<notin> set changed_fields" using schema_unchanged row by (auto simp: list_all_iff)
      then have "rawEnv \<noteq> JObject []" using False e(3) by (auto simp: x_def same_fields_def)
      with assms(2) e(4,5) *(1-3) have same: "errorCount e2 = errorCount e1" by linarith
      have rep: "reporter v"
        using array_schemas_exact row by (auto simp: list_all_iff exact_validator_def)
      from *(5) False same obtain r where "validateBindingArray (c_name c) v e1 k x (c_top c) = Inr r"
        "errorCount (snd r) = errorCount e1" by auto
      from reporter.array_valid [OF rep this False] have valid: "is_array x"
        "\<forall>b \<in> set (elements x). \<exists>d p. fst (v d p b (c_top c))" by auto
      have "fst (v d p b e) = shape b" for d p b e
        using array_schemas_follow row by (auto simp: list_all_iff follows_schema_def)
      with valid have "list_all shape (elements x)" by (auto simp: list_all_iff)
      moreover have "coalesce x (JArray []) = x" using valid(1) by (auto simp: coalesce_def)
      ultimately show ?thesis using valid(1) by (simp add: *(4))
    qed
  qed
  then show ?thesis by (auto simp: valid_arrays_def list_all_iff)
qed

subsection \<open>The whole configuration\<close>

text \<open>A chain of validations whose results are ignored adds errors only.\<close>

named_theorems chain_intros \<open>steps of a chain of ignored results\<close>

lemma chain_step:
  assumes "n \<le> errorCount d" "\<And>d. exact d (f d)"
  shows "n \<le> errorCount (snd (f d))"
  using assms(1) exact_snd [OF assms(2)] by (rule le_trans)

lemma chain [chain_intros]:
  "n \<le> errorCount d \<Longrightarrow> n \<le> errorCount (snd (validateOptionalProperty c k v t cs d))"
  "n \<le> errorCount d \<Longrightarrow> n \<le> errorCount (snd (validateRequiredProperty c k v t cs d))"
  "n \<le> errorCount d \<Longrightarrow> n \<le> errorCount (snd (validateTypedArray p v t d))"
  "n \<le> errorCount d \<Longrightarrow> n \<le> errorCount (snd (validateAdditionalProperties p ks known d))"
  by (simp_all add: chain_step exact_optional exact_required exact_typed_array)

lemma growing_dev: "growing (normalizeAndValidateDev h args raw)"
  unfolding growing_def
proof (intro allI impI)
  fix d v d'
  assume "normalizeAndValidateDev h args raw d = Inr (v, d')"
  then show "errorCount d \<le> errorCount d'"
    unfolding normalizeAndValidateDev_def
    by (auto simp: Let_def simp del: dev_defaults_def intro!: chain_intros)
qed

lemma growing_legacy_assets: "growing (normalizeAndValidateLegacyAssets raw)"
  unfolding growing_def normalizeAndValidateLegacyAssets_def Let_def
  by (auto split: if_splits intro!: chain_intros)

lemma growing_aliases: "growing (normalizeAndValidateAliases raw)"
proof -
  have "exact d (foldl (\<lambda>r (k, v). require (c k v) (m k v) r) (accept d) ps)" for d c m and ps :: "(string \<times> jval) list"
    by (intro contract_intros)
  then have *: "errorCount d \<le> errorCount (snd (foldl (\<lambda>r (k, v). require (js_typeof v = ''string'')
      (alias_string_message k v) r) (accept d) ps))" for d ps
    by (rule exact_snd)
  show ?thesis unfolding growing_def
  proof (intro allI impI)
    fix d v d'
    define r where "r = foldl (\<lambda>r (k, v). require (js_typeof v = ''string'') (alias_string_message k v) r) (accept d)
      (own_entries (prop_of raw ''alias''))"
    assume "normalizeAndValidateAliases raw d = Inr (v, d')"
    then have "d' = d \<or> d' = pushError (alias_object_message (prop_of raw ''alias'')) d \<or> d' = snd r"
      unfolding normalizeAndValidateAliases_def Let_def r_def [symmetric]
      by (cases r) (auto split: if_splits)
    then show "errorCount d \<le> errorCount d'" using * unfolding r_def by auto
  qed
qed

lemma errors_modules: "errorCount d \<le> errorCount (snd (foldl (module_step h p field) (m, d) ps))"
proof (induction ps arbitrary: m d)
  case (Cons x ps)
  obtain m' d' where s: "module_step h p field (m, d) x = (m', d')" by (cases "module_step h p field (m, d) x")
  then have "errorCount d \<le> errorCount d'"
    using exact_snd [OF exact_isString]
    by (auto simp: module_step_def Let_def split: prod.splits) (metis snd_conv)
  also have "\<dots> \<le> errorCount (snd (foldl (module_step h p field) (m', d') ps))" by (rule Cons)
  finally show ?case by (simp add: s)
qed simp

lemma growing_modules: "growing (normalizeAndValidateModulePaths h p field raw)"
  unfolding growing_def
proof (intro allI impI)
  fix d v d'
  define r where "r = foldl (module_step h p field) ([], d) (own_entries raw)"
  assume "normalizeAndValidateModulePaths h p field raw d = Inr (v, d')"
  then have "d' = d \<or> d' = snd r"
    unfolding normalizeAndValidateModulePaths_def Let_def r_def [symmetric]
    by (cases r) (auto split: if_splits)
  then show "errorCount d \<le> errorCount d'" using errors_modules unfolding r_def by auto
qed

lemma entry_errors: "siteEntryPoint h p main entry d = Inr (v, d') \<Longrightarrow> errorCount d \<le> errorCount d'"
  by (auto simp: siteEntryPoint_def Let_def split: if_splits)

lemma site_checks: "errorCount d \<le> errorCount (siteChecks site d)"
  unfolding siteChecks_def Let_def by (intro chain_intros order_refl)

lemma growing_site: "growing (normalizeAndValidateSite h p raw main)"
  unfolding growing_def
proof (intro allI impI)
  fix d v d'
  define site where "site = prop_of raw ''site''"
  define entry where "entry = prop_of site ''entry-point''"
  assume "normalizeAndValidateSite h p raw main d = Inr (v, d')"
  then consider "d' = d" | d2 c2 w where
    "deprecated ''site.entry-point'' (site_entry_message entry) False ''Deprecation'' (siteChecks site d, raw) = Inr (d2, c2)"
    "siteEntryPoint h p main entry d2 = Inr (w, d')"
    unfolding normalizeAndValidateSite_def Let_def site_def [symmetric] entry_def [symmetric]
    by (auto split: if_splits)
  then show "errorCount d \<le> errorCount d'"
  proof cases
    case 2
    have "errorCount d \<le> errorCount (siteChecks site d)" by (rule site_checks)
    also have "\<dots> = errorCount d2" using deprecated_errors [OF 2(1)] by simp
    also have "\<dots> \<le> errorCount d'" by (rule entry_errors [OF 2(2)])
    finally show ?thesis .
  qed simp
qed

lemma growing_config_fields: "list_all (\<lambda>x. growing (snd x)) (config_fields h p args raw e)"
  by (simp add: config_fields_def growing_dev growing_site growing_legacy_assets growing_aliases growing_modules)

definition environment_shape :: "jval \<Rightarrow> bool" where
  "environment_shape e \<longleftrightarrow> (\<exists>es. e = JObject es \<and> map fst es = environment_names)"

lemma environment_facts:
  assumes "normalizeAndValidateEnvironment c (d, raw) = Inr (e, d', raw')"
  shows "errorCount d \<le> errorCount d' \<and> environment_shape e"
proof -
  from environment_run [OF assms] obtain fs d1 d2 where
    e: "e = JObject fs" "environment_literal c raw' d1 fs d2" "errorCount d \<le> errorCount d1"
      "errorCount d2 = errorCount d'" by blast
  from e(2) obtain a r rs w dep b where
    l: "object_literal (environment_fields c raw' a r rs w dep b) d1 = Inr (fs, d2)"
    by (auto simp: environment_literal_def)
  have "errorCount d1 \<le> errorCount d2" by (rule growing_literal [OF growing_environment l])
  moreover have "map fst fs = environment_names" using literal_keys [OF l] by (simp only: environment_field_names)
  ultimately show ?thesis using e by (auto simp: environment_shape_def)
qed

lemma array_names_placed:
  "list_all (\<lambda>(k, _, _). k \<in> set environment_names \<and>
     k \<notin> {''configPath'', ''pages_build_output_dir'', ''legacy_env'', ''send_metrics'', ''keep_vars''}) array_schemas"
  by (simp add: array_schemas_def environment_names_def)

lemma prop_placed:
  assumes "environment_shape e" "k \<in> set environment_names" "k \<notin> fst ` set hs"
  shows "prop_of (JObject (hs @ own_entries e @ fs)) k = prop_of e k"
proof -
  from assms(1) obtain es where e: "e = JObject es" "map fst es = environment_names"
    by (auto simp: environment_shape_def)
  with assms(2) have "k \<in> fst ` set es" by (metis list.set_map)
  then obtain v where "map_of es k = Some v" by (metis map_of_eq_None_iff not_None_eq)
  moreover have "map_of hs k = None" using assms(3) by (simp add: map_of_eq_None_iff)
  ultimately show ?thesis by (simp add: e(1) map_add_def)
qed

lemma andThen_pairE:
  "andThen r (\<lambda>(x, y). f x y) = Inr b \<Longrightarrow> (\<And>x y. r = Inr (x, y) \<Longrightarrow> f x y = Inr b \<Longrightarrow> P) \<Longrightarrow> P"
  by (cases r) auto

lemma assets_messages_errors:
  assumes "assetsMessages h (d, raw) = Inr (d', raw')"
  shows "errorCount d \<le> errorCount d'"
proof -
  from assms obtain d1 raw1 where
    1: "deprecated ''assets'' assets_message False ''Behavior change'' (d, raw) = Inr (d1, raw1)" and
    2: "andThen (experimental (h_quiet h) ''legacy_assets'' raw1 d1) (\<lambda>d. Inr
       (if truthy (prop_of raw1 ''assets'') \<and> truthy (prop_of raw1 ''legacy_assets'')
        then pushError two_assets_message d else d, raw1)) = Inr (d', raw')"
    unfolding assetsMessages_def by (rule andThen_pairE)
  from 2 obtain d2 where "experimental (h_quiet h) ''legacy_assets'' raw1 d1 = Inr d2"
    "d' = d2 \<or> d' = pushError two_assets_message d2" by (auto split: if_splits)
  with deprecated_errors [OF 1] experimental_errors show ?thesis by fastforce
qed

lemma check_names_facts:
  assumes "checkNames raw config d = Inr (c, d')"
  shows "c = config \<and> errorCount d \<le> errorCount d' \<and>
         (errorCount d' = errorCount d \<longrightarrow> distinct (map fst (typed_names config)))"
proof -
  from assms obtain ok d1 where 1: "validateBindingsHaveUniqueNames config d = Inr (ok, d1)" and
    2: "(Inr (config, snd (validateAdditionalProperties ''top-level'' (object_keys raw)
                  (object_keys config @ [''env'', ''$schema'', ''assets'']) d1)) :: (jval \<times> diagnostics) res) = Inr (c, d')"
    unfolding checkNames_def by (rule andThen_pairE) (rule that)
  from 2 have "c = config" "errorCount d' = errorCount d1" using errors_step(6) by auto
  with unique_names_verdict [OF 1] show ?thesis by (auto simp: exact_def grows_def)
qed

lemma finish_facts:
  assumes "finishConfig h p args raw l e d = Inr (config, d')" "environment_shape e"
  shows "errorCount d \<le> errorCount d' \<and> (valid_arrays e \<longrightarrow> valid_arrays config) \<and>
         (errorCount d' = errorCount d \<longrightarrow> distinct (map fst (typed_names config)))"
proof -
  from assms(1) obtain d1 raw1 where 1: "assetsMessages h (d, raw) = Inr (d1, raw1)" and
    2: "andThen (object_literal (config_fields h p args raw1 e) d1) (\<lambda>(fs, d).
      checkNames raw1 (assembleConfig h p raw1 l e fs) d) = Inr (config, d')"
    unfolding finishConfig_def by (rule andThen_pairE) (rule that)
  from 2 obtain fs d2 where 3: "object_literal (config_fields h p args raw1 e) d1 = Inr (fs, d2)" and
    4: "checkNames raw1 (assembleConfig h p raw1 l e fs) d2 = Inr (config, d')" by (rule andThen_pairE) (rule that)
  have grow: "errorCount d \<le> errorCount d2"
    using assets_messages_errors [OF 1] growing_literal [OF growing_config_fields 3] by linarith
  note names = check_names_facts [OF 4]
  have heads: "fst ` set (config_head h p raw1 l) =
      {''configPath'', ''pages_build_output_dir'', ''legacy_env'', ''send_metrics'', ''keep_vars''}"
    by (simp add: config_head_def)
  have "prop_of config k = prop_of e k" if "(k, v, s) \<in> set array_schemas" for k v s
  proof -
    have k: "k \<in> set environment_names"
      "k \<notin> {''configPath'', ''pages_build_output_dir'', ''legacy_env'', ''send_metrics'', ''keep_vars''}"
      using array_names_placed that unfolding list_all_iff by fast+
    have "config = JObject (config_head h p raw1 l @ own_entries e @ fs)"
      using names by (simp only: assembleConfig_def)
    then show ?thesis using prop_placed [OF assms(2) k(1), of "config_head h p raw1 l" fs] k(2) unfolding heads by simp
  qed
  then have "valid_arrays e \<Longrightarrow> valid_arrays config"
    unfolding valid_arrays_def list_all_iff by fastforce
  moreover have "errorCount d' = errorCount d \<Longrightarrow> distinct (map fst (typed_names config))"
    using names grow by (metis le_antisym)
  moreover have "errorCount d \<le> errorCount d'" using names grow by linarith
  ultimately show ?thesis by blast
qed

lemma top_messages_errors: "errorCount d \<le> errorCount (topMessages args raw d)"
proof -
  have "errorCount d \<le> errorCount (optional_top raw x d)" for x d
    by (cases x) (simp add: optional_top_def exact_snd [OF exact_optional])
  note one = this
  have "errorCount d \<le> errorCount (fold (optional_top raw) xs d)" for xs d
  proof (induction xs arbitrary: d)
    case (Cons x xs)
    from one [of d x] Cons [of "optional_top raw x d"] show ?case by simp
  qed simp
  then show ?thesis by (simp only: topMessages_def Let_def counts_push split: if_splits) simp
qed

lemma choose_facts:
  assumes "chooseEnvironment h p args raw l te d = Inr (e, d')" "environment_shape te"
  shows "errorCount d \<le> errorCount d' \<and> environment_shape e \<and>
         (errorCount d' = 0 \<longrightarrow> valid_arrays te \<longrightarrow> valid_arrays e)"
proof -
  define c where "c = named_context h p args (env_name_text (prop_of args ''env'')) te l raw"
  define ed where "ed = newDiagnostics (quote (''env.'' @ c_name c) @ '' environment configuration'')"
  define envs where "envs = prop_of raw ''env''"
  from assms(1) consider "e = te" "d' = d"
    | x y where "normalizeAndValidateEnvironment c (ed, prop_of envs (c_name c)) = Inr (e, x, y)" "d' = addChild x d"
    | x y where "normalizeAndValidateEnvironment c (ed, JObject []) = Inr (e, x, y)"
        "d' = pushError (no_environment_message (c_name c) envs) d \<or>
         d' = pushWarning (no_environment_message (c_name c) envs) d"
    unfolding chooseEnvironment_def activeEnvironment_def Let_def c_def [symmetric] ed_def [symmetric]
      envs_def [symmetric]
    by (auto split: if_splits)
  then show ?thesis
  proof cases
    case 1
    with assms(2) show ?thesis by simp
  next
    case 2
    from environment_facts [OF 2(1)] environment_arrays [OF 2(1)] 2(2) show ?thesis
      by (auto simp: ed_def)
  next
    case 3
    from environment_facts [OF 3(1)] environment_arrays [OF 3(1)] 3(2) show ?thesis by auto
  qed
qed

lemma andThen_tripleE:
  "andThen r (\<lambda>(x, y, z). f x y z) = Inr b \<Longrightarrow>
     (\<And>x y z. r = Inr (x, y, z) \<Longrightarrow> f x y z = Inr b \<Longrightarrow> P) \<Longrightarrow> P"
  by (cases r) auto

lemma validated_config:
  assumes "normalizeAndValidateConfig h configPath args rawConfig = Inr (config, d)" "\<not> hasErrors d"
  shows "valid_arrays config \<and> distinct (map fst (typed_names config))"
proof -
  from assms(1) obtain d1 raw where
    1: "andThen (normalizeAndValidateEnvironment (top_context h configPath args) (topMessages args raw d1, raw))
       (\<lambda>(te, d, raw'). andThen (chooseEnvironment h configPath args raw' (legacy_env_value args raw) te d)
       (\<lambda>(e, d). finishConfig h configPath args raw' (legacy_env_value args raw) e d)) = Inr (config, d)"
    unfolding normalizeAndValidateConfig_def by (rule andThen_pairE) (rule that)
  from 1 obtain te d2 raw' where
    2: "normalizeAndValidateEnvironment (top_context h configPath args) (topMessages args raw d1, raw) = Inr (te, d2, raw')" and
    3: "andThen (chooseEnvironment h configPath args raw' (legacy_env_value args raw) te d2)
       (\<lambda>(e, d). finishConfig h configPath args raw' (legacy_env_value args raw) e d) = Inr (config, d)"
    by (rule andThen_tripleE) (rule that)
  from 3 obtain e d3 where
    4: "chooseEnvironment h configPath args raw' (legacy_env_value args raw) te d2 = Inr (e, d3)" and
    5: "finishConfig h configPath args raw' (legacy_env_value args raw) e d3 = Inr (config, d)"
    by (rule andThen_pairE) (rule that)
  note top = environment_facts [OF 2]
  note active = choose_facts [OF 4 conjunct2 [OF top]]
  note finish = finish_facts [OF 5 conjunct1 [OF conjunct2 [OF active]]]
  have none: "errorCount d = 0" using assms(2) by (simp add: hasErrors_iff)
  with finish active top have "errorCount d3 = 0" "errorCount d2 = errorCount (topMessages args raw d1)" by linarith+
  with environment_arrays [OF 2] active finish none show ?thesis by auto
qed

end
