(* ===== verification/ConfigMessages.thy ===== *)
theory ConfigMessages
  imports ConfigValue
begin

text \<open>The text of a tree of messages shows every line of every error, however deep it is in the tree.\<close>

fun all_errors :: "diagnostics \<Rightarrow> string list" where
  "all_errors (Diagnostics text es ws cs) = es @ concat (map all_errors cs)"

definition shown :: "string \<Rightarrow> string \<Rightarrow> bool" where
  "shown line text \<longleftrightarrow> (\<exists>l \<in> set (split_on CHR 0x0A text). suffix line l)"

lemma shown_after: "shown line t \<Longrightarrow> shown line (p @ t)"
proof (induction p)
  case (Cons c p)
  then obtain l where l: "l \<in> set (split_on CHR 0x0A (p @ t))" "suffix line l" by (auto simp: shown_def)
  show ?case
  proof (cases "c = CHR 0x0A")
    case True
    with l show ?thesis by (auto simp: shown_def)
  next
    case False
    obtain w ws where w: "split_on CHR 0x0A (p @ t) = w # ws" by (cases "split_on CHR 0x0A (p @ t)") auto
    with l False show ?thesis by (auto simp: shown_def intro: suffix_ConsI)
  qed
qed simp

lemma shown_before: "shown line s \<Longrightarrow> shown line (s @ newline @ t)"
  by (auto simp: shown_def split_on_append_sep)

lemma shown_join: "x \<in> set xs \<Longrightarrow> shown line x \<Longrightarrow> shown line (join_with newline xs)"
proof (induction xs)
  case (Cons y ys)
  show ?case
  proof (cases "ys = []")
    case False
    then have j: "join_with newline (y # ys) = y @ newline @ join_with newline ys" by (rule join_with_Cons)
    show ?thesis
    proof (cases "x = y")
      case True
      with Cons.prems(2) show ?thesis unfolding j by (intro shown_before) simp
    next
      case False
      with Cons show ?thesis unfolding j by (intro shown_after) simp
    qed
  qed (use Cons.prems in simp)
qed simp

definition blank :: "string \<Rightarrow> bool" where
  "blank line \<longleftrightarrow> list_all is_space line"

lemma blank_suffix: "suffix line l \<Longrightarrow> blank l \<Longrightarrow> blank line"
  by (auto simp: blank_def suffix_def)

lemma shown_indent:
  assumes "shown line s" "\<not> blank line"
  shows "shown line (indentText s)"
proof -
  define g where "g = (\<lambda>l. if list_all is_space l then [] else l :: string)"
  obtain l0 ls where s: "split_on CHR 0x0A s = l0 # ls" by (cases "split_on CHR 0x0A s") auto
  define out where "out = map g (l0 # map (\<lambda>line. ''  '' @ line) ls)"
  have "CHR 0x0A \<notin> set w" if "w \<in> set out" for w
    using that split_on_no_sep [of _ "CHR 0x0A" s] s by (auto simp: out_def g_def split: if_splits)
  then have lines: "split_on CHR 0x0A (indentText s) = out"
    unfolding indentText_def s list.case g_def [symmetric] out_def [symmetric]
    by (intro split_on_join) (simp_all add: out_def)
  from assms(1) s obtain l where l: "l \<in> set (l0 # ls)" "suffix line l" by (auto simp: shown_def)
  have "\<exists>w \<in> set (l0 # map (\<lambda>line. ''  '' @ line) ls). suffix line w"
    using l by (auto intro: suffix_appendI suffix_ConsI)
  then obtain w where w: "w \<in> set (l0 # map (\<lambda>line. ''  '' @ line) ls)" "suffix line w" by blast
  have "g w = w" using blank_suffix [OF w(2)] assms(2) by (auto simp: g_def blank_def)
  with w have "w \<in> set out" by (auto simp: out_def image_iff) metis
  with w(2) lines show ?thesis by (auto simp: shown_def)
qed

lemma shown_self: "line \<in> set (split_on CHR 0x0A s) \<Longrightarrow> shown line s"
  by (auto simp: shown_def)

text \<open>The text of the children is empty or starts a new line.\<close>

lemma join_starts:
  "(\<And>x. x \<in> set xs \<Longrightarrow> \<exists>t. x = newline @ t) \<Longrightarrow> join_with newline xs = [] \<or> (\<exists>t. join_with newline xs = newline @ t)"
proof (cases xs)
  case (Cons x ys)
  assume all: "\<And>x. x \<in> set xs \<Longrightarrow> \<exists>t. x = newline @ t"
  from all [of x] Cons obtain t where "x = newline @ t" by auto
  with Cons show ?thesis by (cases ys) auto
qed simp

lemma errors_shown:
  "msg \<in> set (all_errors d) \<Longrightarrow> line \<in> set (split_on CHR 0x0A msg) \<Longrightarrow> \<not> blank line \<Longrightarrow>
     shown line (renderWith errors hasErrors d)"
proof (induction d rule: all_errors.induct)
  case (1 title es ws cs)
  define own where "own = join_with newline (map (\<lambda>msg. ''- '' @ indentText msg) es)"
  define outs where "outs = filter (\<lambda>out. out \<noteq> [])
    (map (\<lambda>c. if hasErrors c then newline @ ''- '' @ renderWith errors hasErrors c else []) cs)"
  have render: "renderWith errors hasErrors (Diagnostics title es ws cs) =
      indentText (title @ newline @ own @ join_with newline outs)"
    by (simp add: own_def outs_def)
  have "shown line (own @ join_with newline outs)"
  proof (cases "msg \<in> set es")
    case True
    have "shown line (''- '' @ indentText msg)"
      by (intro shown_after shown_indent shown_self 1)
    then have own: "shown line own" unfolding own_def by (rule shown_join [rotated]) (use True in simp)
    have "join_with newline outs = [] \<or> (\<exists>t. join_with newline outs = newline @ t)"
      by (rule join_starts) (auto simp: outs_def split: if_splits)
    with own shown_before show ?thesis by fastforce
  next
    case False
    with 1(2) obtain c where c: "c \<in> set cs" "msg \<in> set (all_errors c)" by auto
    have "0 < errorCount c" using c(2)
    proof (induction c rule: all_errors.induct)
      case (1 title es ws cs)
      then show ?case by (auto simp: sum_list_map_pos)
    qed
    then have "hasErrors c" by (simp add: hasErrors_iff)
    with c(1) have "newline @ ''- '' @ renderWith errors hasErrors c \<in> set outs"
      by (auto simp: outs_def image_iff intro!: bexI [of _ c])
    moreover have "shown line (newline @ ''- '' @ renderWith errors hasErrors c)"
      using 1(1) [OF c 1(3,4)] shown_after [where p = "newline @ ''- ''"] by simp
    ultimately show ?thesis by (intro shown_after) (rule shown_join)
  qed
  then show ?case unfolding render using 1(4)
    by (intro shown_indent) (auto intro: shown_after [where p = "title @ newline", simplified])
qed

text \<open>
  Every line of every error in the tree of messages, if it is not blank, ends a line of the text
  that is printed.
\<close>

theorem errors_are_printed:
  assumes "msg \<in> set (all_errors d)" "line \<in> set (split_on CHR 0x0A msg)" "\<not> blank line"
  shows "shown line (renderErrors d)"
  using errors_shown [OF assms] by (simp add: renderErrors_def)

definition ex_messages :: diagnostics where
  "ex_messages = addChild (pushError ''b'' (newDiagnostics ''env'')) (pushWarning ''w'' (newDiagnostics ''top''))"

theorem errors_are_printed_witness: "shown ''b'' (renderErrors ex_messages)"
proof (rule errors_are_printed)
  show "''b'' \<in> set (all_errors ex_messages)" by code_simp
  show "''b'' \<in> set (split_on CHR 0x0A ''b'')" by code_simp
  show "\<not> blank ''b''" by code_simp
qed

end
