(* ===== verification/ConfigPages.thy ===== *)
theory ConfigPages
  imports ConfigTheorems ConfigMessages
begin

text \<open>
  Reading a configuration: \<^verbatim>\<open>wrangler/src/config/index.ts\<close>, the checks of the configuration of a Pages
  project in \<^verbatim>\<open>wrangler/src/config/validation-pages.ts\<close>, and the defaults of
  \<^verbatim>\<open>wrangler/src/config/config.ts\<close>.
\<close>

subsection \<open>Pages projects\<close>

definition supportedPagesConfigFields :: "string list" where
  "supportedPagesConfigFields =
     [''pages_build_output_dir'', ''name'', ''compatibility_date'', ''compatibility_flags'', ''send_metrics'',
      ''limits'', ''placement'', ''vars'', ''durable_objects'', ''kv_namespaces'', ''queues'', ''r2_buckets'',
      ''d1_databases'', ''vectorize'', ''hyperdrive'', ''services'', ''analytics_engine_datasets'', ''ai'',
      ''version_metadata'', ''dev'', ''mtls_certificates'', ''browser'', ''configPath'', ''upload_source_maps'']"

text \<open>The default values that are not \<open>undefined\<close>.\<close>

definition defaultWranglerConfig :: "bool \<Rightarrow> jval" where
  "defaultWranglerConfig windows = JObject
     [(''dev'', JObject
        [(''ip'', JString (if windows then ''127.0.0.1'' else ''localhost'')), (''port'', JUndefined),
         (''inspector_port'', JUndefined), (''local_protocol'', JString ''http''),
         (''upstream_protocol'', JString ''http''), (''host'', JUndefined)]),
      (''compatibility_flags'', JArray []),
      (''vars'', JObject []),
      (''durable_objects'', JObject [(''bindings'', JArray [])]),
      (''kv_namespaces'', JArray []),
      (''queues'', JObject [(''producers'', JArray []), (''consumers'', JArray [])]),
      (''r2_buckets'', JArray []),
      (''d1_databases'', JArray []),
      (''vectorize'', JArray []),
      (''hyperdrive'', JArray []),
      (''services'', JArray []),
      (''analytics_engine_datasets'', JArray []),
      (''legacy_env'', JBool True),
      (''jsx_factory'', JString ''React.createElement''),
      (''jsx_fragment'', JString ''React.Fragment''),
      (''migrations'', JArray []),
      (''triggers'', JObject [(''crons'', JArray [])]),
      (''rules'', JArray []),
      (''build'', JObject [(''command'', JUndefined), (''watch_dir'', JString ''./src''), (''cwd'', JUndefined)]),
      (''dispatch_namespaces'', JArray []),
      (''logfwdr'', JObject [(''bindings'', JArray [])]),
      (''define'', JObject []),
      (''cloudchamber'', JObject []),
      (''send_email'', JArray []),
      (''unsafe'', JObject [(''bindings'', JUndefined), (''metadata'', JUndefined)]),
      (''mtls_certificates'', JArray [])]"

definition main_and_pages_message :: string where
  "main_and_pages_message =
     ''Configuration file cannot contain both both '' @ quote ''main'' @ '' and '' @ quote ''pages_build_output_dir''
       @ '' configuration keys.'' @ newline
       @ ''Please use '' @ quote ''main'' @ '' if you are deploying a Worker, or '' @ quote ''pages_build_output_dir''
       @ '' if you are deploying a Pages project.''"

definition project_name_message :: string where
  "project_name_message =
     ''Missing top-level field '' @ quote ''name'' @ '' in configuration file.'' @ newline
       @ ''Pages requires the name of your project to be configured at the top-level of your `wrangler.toml` ''
       @ ''file. This is because, in Pages, environments target the same project.''"

definition env_names_message :: "string list \<Rightarrow> string" where
  "env_names_message bad =
     ''Configuration file contains the following environment names that are not supported by Pages projects:''
       @ newline @ join_with '','' (map quote bad) @ ''.'' @ newline
       @ ''The supported named-environments for Pages are '' @ quote ''preview'' @ '' and '' @ quote ''production''
       @ ''.''"

definition unsupported_message :: "string \<Rightarrow> string" where
  "unsupported_message field =
     ''Configuration file for Pages projects does not support '' @ quote field"

definition script_name_message :: string where
  "script_name_message =
     ''Durable Objects bindings should specify a '' @ quote ''script_name'' @ ''.'' @ newline
       @ ''Pages requires Durable Object bindings to specify the name of the Worker where the Durable Object is defined.''"

definition validateMainField :: "jval \<Rightarrow> diagnostics \<Rightarrow> diagnostics" where
  "validateMainField config d =
     (if prop_of config ''main'' \<noteq> JUndefined then pushError main_and_pages_message d else d)"

text \<open>The name was validated before, so it is a string or \<open>undefined\<close>.\<close>

definition validateProjectName :: "jval \<Rightarrow> diagnostics \<Rightarrow> diagnostics" where
  "validateProjectName name d =
     (if name = JUndefined \<or> blank_string name then pushError project_name_message d else d)"

definition unsupportedPagesEnvNames :: "string list \<Rightarrow> string list" where
  "unsupportedPagesEnvNames = filter (\<lambda>name. name \<noteq> ''preview'' \<and> name \<noteq> ''production'')"

definition validatePagesEnvironmentNames :: "string list \<Rightarrow> diagnostics \<Rightarrow> diagnostics" where
  "validatePagesEnvironmentNames envNames d =
     (if unsupportedPagesEnvNames envNames \<noteq> []
      then pushError (env_names_message (unsupportedPagesEnvNames envNames)) d else d)"

definition has_consumers :: "jval \<Rightarrow> bool" where
  "has_consumers config \<longleftrightarrow>
     truthy (prop_of (prop_of (prop_of config ''queues'') ''consumers'') ''length'')"

definition has_default :: "bool \<Rightarrow> jval \<Rightarrow> string \<Rightarrow> bool" where
  "has_default windows config field \<longleftrightarrow>
     prop_of config field = JUndefined \<or>
     json_with [] [] (prop_of config field) = json_with [] [] (prop_of (defaultWranglerConfig windows) field)"

text \<open>The set of unsupported fields keeps the order of the fields of the configuration.\<close>

definition unsupportedFields :: "bool \<Rightarrow> jval \<Rightarrow> string list" where
  "unsupportedFields windows config =
     filter (\<lambda>field. \<not> (field \<in> set supportedPagesConfigFields \<and> \<not> (field = ''queues'' \<and> has_consumers config)) \<and>
                     \<not> has_default windows config field)
       (object_keys config)"

definition validateUnsupportedFields :: "bool \<Rightarrow> jval \<Rightarrow> diagnostics \<Rightarrow> diagnostics" where
  "validateUnsupportedFields windows config d =
     foldl (\<lambda>d field. pushError (unsupported_message
              (if field = ''queues'' \<and> has_consumers config then ''queues.consumers'' else field)) d)
       d (unsupportedFields windows config)"

text \<open>Durable Objects without the name of their script; the operator \<open>in\<close> throws for other values.\<close>

fun without_script :: "jval list \<Rightarrow> jval list res" where
  "without_script [] = Inr []"
| "without_script (b # bs) =
     andThen (in_op ''script_name'' b) (\<lambda>_. andThen (without_script bs) (\<lambda>bad.
       Inr (if isRequiredProperty b ''script_name'' ''string'' then bad else b # bad)))"

definition validatePagesDurableObjects :: "jval \<Rightarrow> diagnostics \<Rightarrow> diagnostics res" where
  "validatePagesDurableObjects config d =
     andThen (get_prop (prop_of config ''durable_objects'') ''bindings'') (\<lambda>bindings.
     andThen (get_prop bindings ''length'') (\<lambda>n.
       if is_array bindings then
         andThen (without_script (elements bindings)) (\<lambda>bad. Inr
           (if bad \<noteq> [] then pushError script_name_message d else d))
       else if 0 < to_length n then Inl TypeError
       else Inr d))"

datatype config_error = FatalConfig string | UserConfig string | ThrownConfig error

definition no_output_dir_message :: string where
  "no_output_dir_message =
     ''Attempting to validate Pages configuration file, but '' @ quote ''pages_build_output_dir''
       @ '' field was not found.'' @ newline @ [CHR 0x09, CHR 0x09] @ quote ''pages_build_output_dir''
       @ '' is required for Pages projects.''"

definition validatePagesConfig ::
    "bool \<Rightarrow> jval \<Rightarrow> string list \<Rightarrow> jval \<Rightarrow> config_error + diagnostics" where
  "validatePagesConfig windows config envNames projectName =
     (if \<not> truthy (prop_of config ''pages_build_output_dir'') then Inl (FatalConfig no_output_dir_message)
      else
       let d = newDiagnostics ''Running configuration file validation for Pages:'';
         d = validateMainField config d;
         d = validateProjectName projectName d;
         d = validatePagesEnvironmentNames envNames d;
         d = validateUnsupportedFields windows config d
       in case validatePagesDurableObjects config d of
            Inl e \<Rightarrow> Inl (ThrownConfig e)
          | Inr d \<Rightarrow> Inr d)"

subsection \<open>Reading\<close>

definition not_pages_message :: string where
  "not_pages_message = ''Your wrangler.toml is not a valid Pages config file''"

definition json_pages_message :: "string option \<Rightarrow> string" where
  "json_pages_message configPath =
     ''Pages doesn'' @ [CHR 0x27] @ ''t currently support JSON formatted config `''
       @ (case configPath of None \<Rightarrow> ''wrangler.json'' | Some p \<Rightarrow> p) @ ''`. Please use wrangler.toml instead.''"

definition python_message :: string where
  "python_message = ''The `python_workers` compatibility flag is required to use Python.''"

fun is_python_module :: "jval \<Rightarrow> bool" where
  "is_python_module (JString p) = endsWith p ''.py''"
| "is_python_module _ = False"

definition python_rule :: jval where
  "python_rule = JObject [(''type'', JString ''PythonModule''), (''globs'', JArray [JString ''**/*.py''])]"

text \<open>The rules and the compatibility flags of a configuration without errors are arrays.\<close>

definition applyPythonConfig :: "jval \<Rightarrow> jval \<Rightarrow> config_error + jval" where
  "applyPythonConfig args config =
     (let mainModule = (if has_prop args ''script'' then prop_of args ''script'' else prop_of config ''main'');
        rules = elements (prop_of config ''rules'') in
      if is_python_module mainModule then
        (let config = set_prop ''no_bundle'' (JBool True) config;
           config = (if list_ex (\<lambda>rule. prop_of rule ''type'' = JString ''PythonModule'') rules then config
                     else set_prop ''rules'' (JArray (rules @ [python_rule])) config)
         in if JString ''python_workers'' \<in> set (elements (prop_of config ''compatibility_flags''))
            then Inr config else Inl (UserConfig python_message))
      else Inr config)"

definition is_json_path :: "string option \<Rightarrow> bool" where
  "is_json_path configPath =
     (case configPath of None \<Rightarrow> False | Some p \<Rightarrow> endsWith p ''json'' \<or> endsWith p ''jsonc'')"

text \<open>
  \<open>load\<close> reads and parses the file of a path, with the parsers of TOML and JSON; other files are not
  read. The file holds an object. Warnings and errors are logged, which is not modelled.
\<close>

definition loadConfig :: "(string \<Rightarrow> config_error + jval) \<Rightarrow> bool \<Rightarrow> string option \<Rightarrow> config_error + jval" where
  "loadConfig load requirePagesConfig configPath =
     (case configPath of
        None \<Rightarrow> Inr (JObject [])
      | Some p \<Rightarrow>
          if endsWith p ''toml'' \<or> is_json_path configPath then
            (case load p of
               Inl e \<Rightarrow> Inl (if requirePagesConfig then FatalConfig not_pages_message else e)
             | Inr raw \<Rightarrow> Inr raw)
          else Inr (JObject []))"

text \<open>The name of the project is read after the validation, which never changes it.\<close>

definition checkPages :: "config_host \<Rightarrow> jval \<Rightarrow> jval \<Rightarrow> config_error + unit" where
  "checkPages h rawConfig config =
     (if \<not> isPagesConfig rawConfig then Inr ()
      else
       andThen (validatePagesConfig (h_windows h) config
                  (if truthy (prop_of rawConfig ''env'') then object_keys (prop_of rawConfig ''env'') else [])
                  (prop_of rawConfig ''name''))
         (\<lambda>d. if hasErrors d then Inl (UserConfig (renderErrors d)) else Inr ()))"

definition readConfig ::
    "config_host \<Rightarrow> (string \<Rightarrow> config_error + jval) \<Rightarrow> (bool \<Rightarrow> string option) \<Rightarrow> bool \<Rightarrow> bool \<Rightarrow>
     string option \<Rightarrow> jval \<Rightarrow> config_error + jval" where
  "readConfig h load findToml jsonEnabled requirePagesConfig configPath args =
     (let configPath = (if has_path_text configPath then configPath else findToml jsonEnabled) in
      andThen (loadConfig load requirePagesConfig configPath) (\<lambda>rawConfig.
      if \<not> isPagesConfig rawConfig \<and> requirePagesConfig then Inl (FatalConfig not_pages_message)
      else if isPagesConfig rawConfig \<and> (is_json_path configPath \<or> jsonEnabled)
      then Inl (UserConfig (json_pages_message configPath))
      else
        (case normalizeAndValidateConfig h configPath args rawConfig of
           Inl e \<Rightarrow> Inl (ThrownConfig e)
         | Inr (config, d) \<Rightarrow>
             if hasErrors d then Inl (UserConfig (renderErrors d))
             else andThen (checkPages h rawConfig config) (\<lambda>_. applyPythonConfig args config))))"

subsection \<open>What Pages accepts\<close>

lemma without_script_bad: "without_script bs = Inr bad \<Longrightarrow> bad = [] \<longleftrightarrow> list_all (\<lambda>b. isRequiredProperty b ''script_name'' ''string'') bs"
  by (induction bs arbitrary: bad) (auto split: if_splits)

lemma errors_foldl_pushes [simp]: "errorCount (foldl (\<lambda>d x. pushError (m x) d) d xs) = errorCount d + length xs"
  by (induction xs arbitrary: d) auto

text \<open>
  C15: The configuration of a Pages project passes exactly if it has no main file, a project name, only
  the environments preview and production, values other than the default in supported fields only, no
  queue consumers, and Durable Objects of other scripts only.
\<close>

theorem pages_config_accepted:
  assumes "validatePagesConfig windows config envNames projectName = Inr d"
  shows "\<not> hasErrors d \<longleftrightarrow>
     prop_of config ''main'' = JUndefined \<and>
     projectName \<noteq> JUndefined \<and> \<not> blank_string projectName \<and>
     set envNames \<subseteq> {''preview'', ''production''} \<and>
     (\<forall>k \<in> set (object_keys config). has_default windows config k \<or>
        k \<in> set supportedPagesConfigFields \<and> \<not> (k = ''queues'' \<and> has_consumers config)) \<and>
     list_all (\<lambda>b. isRequiredProperty b ''script_name'' ''string'')
       (elements (prop_of (prop_of config ''durable_objects'') ''bindings''))"
proof -
  define d1 where "d1 = validateProjectName projectName (validateMainField config
    (newDiagnostics ''Running configuration file validation for Pages:''))"
  define d2 where "d2 = validateUnsupportedFields windows config (validatePagesEnvironmentNames envNames d1)"
  have 1: "errorCount d1 = (if prop_of config ''main'' = JUndefined then 0 else 1) +
      (if projectName = JUndefined \<or> blank_string projectName then 1 else 0)"
    by (simp add: d1_def validateMainField_def validateProjectName_def)
  have 2: "errorCount d2 = errorCount d1 + (if set envNames \<subseteq> {''preview'', ''production''} then 0 else 1) +
      length (unsupportedFields windows config)"
    by (auto simp: d2_def validateUnsupportedFields_def validatePagesEnvironmentNames_def unsupportedPagesEnvNames_def
        filter_empty_conv)
  have 3: "validatePagesDurableObjects config d2 = Inr d"
    using assms by (auto simp: validatePagesConfig_def Let_def d1_def d2_def split: if_splits sum.splits)
  define bindings where "bindings = prop_of (prop_of config ''durable_objects'') ''bindings''"
  have 4: "errorCount d = errorCount d2 +
      (if list_all (\<lambda>b. isRequiredProperty b ''script_name'' ''string'') (elements bindings) then 0 else 1)"
  proof (cases "is_array bindings")
    case True
    with 3 show ?thesis using without_script_bad
      by (auto simp: validatePagesDurableObjects_def get_prop_def bindings_def split: if_splits)
  next
    case False
    then have "elements bindings = []" by (cases bindings) auto
    with 3 False show ?thesis
      by (auto simp: validatePagesDurableObjects_def get_prop_def bindings_def split: if_splits)
  qed
  have 5: "unsupportedFields windows config = [] \<longleftrightarrow>
      (\<forall>k \<in> set (object_keys config). has_default windows config k \<or>
        k \<in> set supportedPagesConfigFields \<and> \<not> (k = ''queues'' \<and> has_consumers config))"
    by (auto simp: unsupportedFields_def filter_empty_conv)
  show ?thesis unfolding hasErrors_iff 4 2 1 bindings_def [symmetric] 5 [symmetric]
    by (auto split: if_splits)
qed

end
