(* ===== verification/ConfigProperties.thy ===== *)
theory ConfigProperties
  imports ConfigPages
begin

text \<open>
  The properties of configurations as a whole: validators and their schemas, valid configurations, paths,
  Python workers, and the witnesses of the properties of the other theories of configurations.
\<close>

subsection \<open>Samples\<close>

definition ex_host :: config_host where
  "ex_host = \<lparr>h_cwd = ''/w'', h_windows = False, h_quiet = False, h_toml_rules = (\<lambda>_. []), h_dedent = (\<lambda>_ _. [])\<rparr>"



subsection \<open>Schemas\<close>







text \<open>A KV namespace and two D1 databases may have the same name.\<close>

definition ex_same_names :: jval where
  "ex_same_names =
     (let db = JObject [(''binding'', JString ''DB''), (''database_id'', JString ''1'')]
      in JObject [(''kv_namespaces'', JArray [JObject [(''binding'', JString ''DB''), (''id'', JString ''1'')]]),
                  (''d1_databases'', JArray [db, db])])"

lemma databases_share_a_name:
  "case normalizeAndValidateConfig ex_host None (JObject []) ex_same_names of
     Inl _ \<Rightarrow> False
   | Inr (c, d) \<Rightarrow> \<not> hasErrors d \<and> prop_of c ''d1_databases'' = prop_of ex_same_names ''d1_databases''"
  by code_simp

subsection \<open>Inheritance\<close>

definition ex_context :: env_context where
  "ex_context = named_context ex_host None (JObject []) ''dev''
     (JObject [(''minify'', JBool True), (''vars'', JObject [(''A'', JString ''1'')])]) (JBool True) (JObject [])"

lemma ex_environment:
  "case normalizeAndValidateEnvironment ex_context (newDiagnostics [], JObject [(''logpush'', JBool True)]) of
     Inl _ \<Rightarrow> False
   | Inr (e, d, r) \<Rightarrow> prop_of e ''minify'' = JBool True \<and> prop_of e ''vars'' = JObject []"
  by code_simp

theorem environment_inheritance_witness:
  "\<exists>e d r. normalizeAndValidateEnvironment ex_context (newDiagnostics [], JObject [(''logpush'', JBool True)])
       = Inr (e, d, r) \<and>
     list_all (\<lambda>(k, v). prop_of e k = coalesce (prop_of (JObject [(''logpush'', JBool True)]) k) v) separate_defaults"
proof -
  from ex_environment obtain e d r where
    1: "normalizeAndValidateEnvironment ex_context (newDiagnostics [], JObject [(''logpush'', JBool True)]) = Inr (e, d, r)"
    by (auto split: sum.splits)
  from environment_inheritance [OF 1] 1 show ?thesis by blast
qed

subsection \<open>Pages\<close>

definition ex_pages :: jval where
  "ex_pages = JObject [(''pages_build_output_dir'', JString ''dist''),
     (''durable_objects'', JObject [(''bindings'', JArray [])]), (''minify'', JBool True)]"

lemma ex_pages_rejected:
  "case validatePagesConfig False ex_pages [''preview''] (JString ''p'') of
     Inl _ \<Rightarrow> False | Inr d \<Rightarrow> hasErrors d"
  by code_simp

theorem pages_config_accepted_witness:
  "\<exists>d. validatePagesConfig False ex_pages [''preview''] (JString ''p'') = Inr d \<and> hasErrors d \<and>
     (\<exists>k \<in> set (object_keys ex_pages). \<not> has_default False ex_pages k \<and> k \<notin> set supportedPagesConfigFields)"
proof -
  from ex_pages_rejected obtain d where 1: "validatePagesConfig False ex_pages [''preview''] (JString ''p'') = Inr d"
    "hasErrors d" by (auto split: sum.splits)
  have 2: "prop_of ex_pages ''main'' = JUndefined" "\<not> blank_string (JString ''p'')"
    "elements (prop_of (prop_of ex_pages ''durable_objects'') ''bindings'') = []"
    "\<not> has_consumers ex_pages" by code_simp+
  from pages_config_accepted [OF 1(1)] 1 2 show ?thesis by auto
qed

subsection \<open>Paths\<close>

text \<open>
  The entry point of an environment is resolved against the directory of the configuration once: an
  environment that inherits it from the top level keeps it as it is.
\<close>

theorem main_resolved_once:
  assumes "normalizeAndValidateMainField h configPath main upload = Inr main'" "main' \<noteq> JUndefined"
  shows "normalizeAndValidateMainField h configPath main' upload' = Inr main'"
proof -
  have "(\<exists>cwd ps. main' = JString (path_resolve cwd ps)) \<or> js_typeof main' \<noteq> ''string''"
    using assms(1)
    by (cases main) (auto simp: normalizeAndValidateMainField_def Let_def andThen_eq_Inr split: if_splits)
  then have "resolve_field h configPath main' = main'"
    by (cases main') (auto simp: resolve_resolved)
  with assms(2) show ?thesis by (simp add: normalizeAndValidateMainField_def)
qed

theorem main_resolved_once_witness:
  "\<exists>m. normalizeAndValidateMainField ex_host (Some ''/w/app/wrangler.toml'') (JString ''src/i.ts'') JUndefined = Inr m \<and>
     m = JString ''/w/app/src/i.ts'' \<and>
     normalizeAndValidateMainField ex_host (Some ''/w/app/wrangler.toml'') m JUndefined = Inr m"
proof -
  have 1: "normalizeAndValidateMainField ex_host (Some ''/w/app/wrangler.toml'') (JString ''src/i.ts'') JUndefined
      = Inr (JString ''/w/app/src/i.ts'')" by code_simp
  from main_resolved_once [OF 1] 1 show ?thesis by simp
qed

text \<open>
  A path of the configuration that is rewritten to be relative to the working directory names, from
  there, the file it named from the directory of the configuration.
\<close>

theorem config_path_rewritten:
  assumes "absolute (h_cwd h)"
  shows "path_resolve (h_cwd h) [relative_to_cwd h configPath p] =
         path_resolve (h_cwd h) [path_join [configDir configPath, p]]"
  unfolding path_resolve_def relative_to_cwd_def
  using path_relative_resolves [of "h_cwd h" "h_cwd h"] resolve_from_cwd [OF assms] by metis

theorem config_path_rewritten_witness:
  "path_resolve ''/w'' [relative_to_cwd ex_host (Some ''../app/wrangler.toml'') ''t.json''] = ''/app/t.json''"
proof -
  have 1: "absolute (h_cwd ex_host)" and cwd: "h_cwd ex_host = ''/w''" by code_simp+
  have "path_resolve ''/w'' [path_join [configDir (Some ''../app/wrangler.toml''), ''t.json'']] = ''/app/t.json''"
    by code_simp
  with config_path_rewritten [OF 1, of "Some ''../app/wrangler.toml''" "''t.json''"] show ?thesis
    unfolding cwd by simp
qed

text \<open>An inherited path that is rewritten is rewritten once more.\<close>

lemma inherited_tsconfig_rewritten_twice:
  "validateAndNormalizeTsconfig ex_host (Some ''/w/app/wrangler.toml'') JUndefined
     (JObject [(''tsconfig'', JString ''t.json'')]) d = Inr (JString ''app/t.json'', d)"
  "validateAndNormalizeTsconfig ex_host (Some ''/w/app/wrangler.toml'')
     (JObject [(''tsconfig'', JString ''app/t.json'')]) (JObject []) d = Inr (JString ''app/app/t.json'', d)"
  by code_simp+

subsection \<open>Reading\<close>












end
