(* ===== verification/KVHelpers.thy ===== *)
theory KVHelpers
  imports ConfigHelpers Encoding
begin

text \<open>
  The requests about KV namespaces that Wrangler sends to the Cloudflare API:
  \<^verbatim>\<open>wrangler/src/kv/helpers.ts\<close>. A request that is sent is a value; answers are parameters.
\<close>

subsection \<open>Requests\<close>

definition API_MAX :: nat where
  "API_MAX = 10000"

definition BATCH_KEY_MAX :: nat where
  "BATCH_KEY_MAX = API_MAX div 2"

record keyValue =
  kv_key :: string
  kv_value :: string
  kv_expiration :: "nat option"
  kv_expiration_ttl :: "nat option"
  kv_metadata :: "jval option"
  kv_base64 :: bool

datatype kv_body = Raw string | Form "(string \<times> string) list"

datatype kv_request =
    CreateNamespace string
  | PutValue string "(string \<times> string) list" kv_body
  | DeleteValue string
  | BulkPut "keyValue list"
  | BulkDelete "string list"

text \<open>The loop over \<open>slice(index, index + n)\<close>.\<close>

function slices :: "nat \<Rightarrow> 'a list \<Rightarrow> 'a list list" where
  "slices n xs = (if xs = [] \<or> n = 0 then [] else take n xs # slices n (drop n xs))"
  by auto
termination by (relation "measure (\<lambda>(n, xs). length xs)") auto

declare slices.simps [simp del]

definition putKVBulkKeyValue :: "keyValue list \<Rightarrow> kv_request list" where
  "putKVBulkKeyValue keyValues = map BulkPut (slices BATCH_KEY_MAX keyValues)"

definition deleteKVBulkKeyValue :: "string list \<Rightarrow> kv_request list" where
  "deleteKVBulkKeyValue keys = map BulkDelete (slices BATCH_KEY_MAX keys)"

text \<open>A number that is 0 or missing is not sent.\<close>

definition nat_param :: "string \<Rightarrow> nat option \<Rightarrow> (string \<times> string) list" where
  "nat_param name v = (case v of None \<Rightarrow> [] | Some n \<Rightarrow> if n = 0 then [] else [(name, show_nat n)])"

definition putKVKeyValue :: "keyValue \<Rightarrow> kv_request" where
  "putKVKeyValue kv =
     PutValue (encodeURIComponent (kv_key kv))
       (nat_param ''expiration'' (kv_expiration kv) @ nat_param ''expiration_ttl'' (kv_expiration_ttl kv))
       (case kv_metadata kv of
          None \<Rightarrow> Raw (kv_value kv)
        | Some m \<Rightarrow> if truthy m then Form [(''value'', kv_value kv), (''metadata'', stringify m)]
                    else Raw (kv_value kv))"

definition deleteKVKeyValue :: "string \<Rightarrow> kv_request" where
  "deleteKVKeyValue key = DeleteValue (encodeURIComponent key)"

subsection \<open>Key-value pairs of a file\<close>

definition KeyValueKeys :: "string list" where
  "KeyValueKeys = [''key'', ''value'', ''expiration'', ''expiration_ttl'', ''metadata'', ''base64'']"

definition hasTypedProperty :: "jval \<Rightarrow> string \<Rightarrow> string \<Rightarrow> bool" where
  "hasTypedProperty obj k type \<longleftrightarrow> has_prop obj k \<and> js_typeof (prop_of obj k) = type"

definition hasOptionalTypedProperty :: "jval \<Rightarrow> string \<Rightarrow> string \<Rightarrow> bool" where
  "hasOptionalTypedProperty obj k type \<longleftrightarrow> \<not> has_prop obj k \<or> js_typeof (prop_of obj k) = type"

definition isKVKeyValue :: "jval \<Rightarrow> bool" where
  "isKVKeyValue v \<longleftrightarrow>
     is_object v \<and> hasTypedProperty v ''key'' ''string'' \<and> hasTypedProperty v ''value'' ''string'' \<and>
     hasOptionalTypedProperty v ''expiration'' ''number'' \<and>
     hasOptionalTypedProperty v ''expiration_ttl'' ''number'' \<and>
     hasOptionalTypedProperty v ''base64'' ''boolean'' \<and> hasOptionalTypedProperty v ''metadata'' ''object''"

definition unexpectedKVKeyValueProps :: "jval \<Rightarrow> string list" where
  "unexpectedKVKeyValueProps v = filter (\<lambda>k. k \<notin> set KeyValueKeys) (object_keys v)"

subsection \<open>Namespaces\<close>

record namespaceInfo =
  ns_id :: string
  ns_title :: string

definition page_size :: nat where
  "page_size = 100"

text \<open>\<open>fetchPage\<close> is the answer of the API for a page; the loop ends at a page that is not full.\<close>

partial_function (option) listPages ::
    "(nat \<Rightarrow> namespaceInfo list) \<Rightarrow> nat \<Rightarrow> namespaceInfo list \<Rightarrow> namespaceInfo list option" where
  "listPages fetchPage page results =
     (if length results mod page_size = 0 then
        let json = fetchPage page; results' = results @ json in
        if length json < page_size then Some results' else listPages fetchPage (page + 1) results'
      else Some results)"

definition listKVNamespaces :: "(nat \<Rightarrow> namespaceInfo list) \<Rightarrow> namespaceInfo list option" where
  "listKVNamespaces fetchPage = listPages fetchPage 1 []"

record kv_args =
  ka_binding :: "string option"
  ka_namespace_id :: "string option"
  ka_preview :: "bool option"

record kv_namespace_binding =
  kb_binding :: "string option"
  kb_id :: "string option"
  kb_preview_id :: "string option"

datatype kv_args_error =
    BindingWithoutConfig
  | NoConfig
  | NoNamespaces
  | NamespaceNotFound "string option"
  | NoPreviewId "string option"
  | NoNamespaceId "string option"
  | BothIds "string option"
  | SomethingWrong

definition text_given :: "string option \<Rightarrow> bool" where
  "text_given s \<longleftrightarrow> s \<noteq> None \<and> s \<noteq> Some []"

text \<open>The configuration, if there is one, with its KV namespaces.\<close>

definition getKVNamespaceId ::
    "kv_args \<Rightarrow> kv_namespace_binding list option \<Rightarrow> kv_args_error + string" where
  "getKVNamespaceId args config =
     (if text_given (ka_namespace_id args) then Inr (the (ka_namespace_id args))
      else
       case config of
         None \<Rightarrow> Inl (if text_given (ka_binding args) then BindingWithoutConfig else NoConfig)
       | Some namespaces \<Rightarrow>
          if namespaces = [] then Inl NoNamespaces
          else
           case find (\<lambda>ns. kb_binding ns = ka_binding args) namespaces of
             None \<Rightarrow> Inl (NamespaceNotFound (ka_binding args))
           | Some ns \<Rightarrow>
              if ka_preview args = Some True then
                (if text_given (kb_preview_id ns) then Inr (the (kb_preview_id ns))
                 else Inl (NoPreviewId (ka_binding args)))
              else if ka_preview args = Some False then
                (if text_given (kb_id ns) then Inr (the (kb_id ns)) else Inl (NoNamespaceId (ka_binding args)))
              else if text_given (kb_id ns) \<noteq> text_given (kb_preview_id ns) then
                (let id = (if text_given (kb_id ns) then kb_id ns else kb_preview_id ns) in
                 if text_given id then Inr (the id) else Inl SomethingWrong)
              else Inl (BothIds (ka_binding args)))"

subsection \<open>Slices\<close>

lemma concat_slices: "0 < n \<Longrightarrow> concat (slices n xs) = xs"
  by (induction n xs rule: slices.induct) (subst slices.simps, simp)

lemma length_slices: "ys \<in> set (slices n xs) \<Longrightarrow> length ys \<le> n"
proof (induction n xs rule: slices.induct)
  case (1 n xs)
  show ?case
  proof (cases "xs = [] \<or> n = 0")
    case True
    with 1(2) show ?thesis by (simp add: slices.simps [of n xs])
  next
    case False
    with 1(2) have "ys = take n xs \<or> ys \<in> set (slices n (drop n xs))" by (simp add: slices.simps [of n xs])
    with 1(1) [OF False] show ?thesis by auto
  qed
qed

lemma slices_short: "xs \<noteq> [] \<Longrightarrow> length xs \<le> n \<Longrightarrow> slices n xs = [xs]"
  by (cases "n = 0") (simp_all add: slices.simps)

lemma slices_Nil [simp]: "slices n [] = []"
  by (simp add: slices.simps)

subsection \<open>What the helpers promise\<close>

lemma listPages_complete:
  assumes "\<And>p. fetchPage p = take page_size (drop (page_size * (p - 1)) infos)"
  shows "page_size * n \<le> length infos \<Longrightarrow>
     listPages fetchPage (Suc n) (take (page_size * n) infos) = Some infos"
proof (induction "length infos - page_size * n" arbitrary: n rule: less_induct)
  case less
  have size: "page_size = 100" by (simp add: page_size_def)
  define json where "json = take page_size (drop (page_size * n) infos)"
  have app: "take (page_size * n) infos @ json = take (page_size * Suc n) infos"
    by (simp add: json_def take_add [symmetric] add.commute)
  have full: "length (take (page_size * n) infos) mod page_size = 0"
    using less(2) by (simp add: size)
  have step: "listPages fetchPage (Suc n) (take (page_size * n) infos) =
      (if length json < page_size then Some (take (page_size * Suc n) infos)
       else listPages fetchPage (Suc (Suc n)) (take (page_size * Suc n) infos))"
    using full app by (subst listPages.simps) (simp add: assms json_def Let_def)
  show ?case
  proof (cases "page_size * Suc n \<le> length infos")
    case True
    then have "listPages fetchPage (Suc (Suc n)) (take (page_size * Suc n) infos) = Some infos"
      by (intro less(1)) (simp_all add: size)
    moreover have "\<not> length json < page_size" using True by (simp add: json_def size)
    ultimately show ?thesis by (simp only: step if_False)
  next
    case False
    then have "length json < page_size" "take (page_size * Suc n) infos = infos" by (simp_all add: json_def size)
    then show ?thesis by (simp only: step if_True)
  qed
qed

lemma listKVNamespaces_complete:
  assumes "\<And>p. fetchPage p = take page_size (drop (page_size * (p - 1)) infos)"
  shows "listKVNamespaces fetchPage = Some infos"
  using listPages_complete [OF assms, of 0] by (simp add: listKVNamespaces_def)

lemma getKVNamespaceId_no_surprise: "getKVNamespaceId args config \<noteq> Inl SomethingWrong"
  by (auto simp: getKVNamespaceId_def Let_def split: option.splits if_splits)

end
