(* ===== verification/SiteAssets.thy ===== *)
theory SiteAssets
  imports NodePath KVHelpers "HOL-Library.Multiset"
begin

text \<open>
  Uploading the files of a Workers Site: \<^verbatim>\<open>wrangler/src/sites.ts\<close> and the parts of
  \<^verbatim>\<open>wrangler/src/kv/helpers.ts\<close> it calls. The calls of the Cloudflare API are requests in a log.
\<close>

subsection \<open>Files\<close>

text \<open>A directory as \<open>readdir\<close> lists it; a file with its content.\<close>

datatype dir_entry =
    File string string
  | Directory string "dir_entry list"

definition ALWAYS_IGNORE :: "string list" where
  "ALWAYS_IGNORE = [''node_modules'']"

definition HIDDEN_FILES_TO_INCLUDE :: "string list" where
  "HIDDEN_FILES_TO_INCLUDE = [''.well-known'']"

definition ignored_name :: "string \<Rightarrow> bool" where
  "ignored_name name \<longleftrightarrow>
     name \<in> set ALWAYS_IGNORE \<or> startsWith name ''.'' \<and> name \<notin> set HIDDEN_FILES_TO_INCLUDE"

fun visit_entry :: "string \<Rightarrow> dir_entry \<Rightarrow> (string \<times> string) list" where
  "visit_entry dirPath (File name content) =
     (if ignored_name name then [] else [(path_join [dirPath, name], content)])"
| "visit_entry dirPath (Directory name es) =
     (if ignored_name name then [] else concat (map (visit_entry (path_join [dirPath, name])) es))"

definition getFilesInFolder :: "string \<Rightarrow> dir_entry list \<Rightarrow> (string \<times> string) list" where
  "getFilesInFolder dirPath es = concat (map (visit_entry dirPath) es)"

subsection \<open>Keys\<close>

definition path_basename :: "string \<Rightarrow> string \<Rightarrow> string" where
  "path_basename p ext =
     (let b = rev (takeWhile (\<lambda>c. c \<noteq> CHR ''/'') (dropWhile (\<lambda>c. c = CHR ''/'') (rev p))) in
      if ext \<noteq> [] \<and> ext = p then []
      else if ext \<noteq> [] \<and> endsWith b ext \<and> b \<noteq> ext then take (length b - length ext) b
      else b)"

definition urlSafe :: "string \<Rightarrow> string" where
  "urlSafe = map (\<lambda>c. if c = CHR 0x5C then CHR ''/'' else c)"

text \<open>\<open>hasher\<close> is \<open>h64ToString\<close> of the package \<^verbatim>\<open>xxhash-wasm\<close>.\<close>

definition hashFileContent :: "(string \<Rightarrow> string) \<Rightarrow> string \<Rightarrow> string" where
  "hashFileContent hasher content = take 10 (hasher content)"

definition hashAsset :: "(string \<Rightarrow> string) \<Rightarrow> string \<Rightarrow> string \<Rightarrow> string" where
  "hashAsset hasher filePath content =
     (let extName = path_extname filePath;
        baseName = path_basename filePath extName;
        directory = path_dirname filePath;
        hash = hashFileContent hasher content
      in urlSafe (path_join [directory, baseName @ ''.'' @ hash @ extName]))"

datatype site_error = AssetTooBig string | KeyTooLong string | MissingAccount | UploadFailed | DeletionFailed

definition validateAssetSize :: "nat \<Rightarrow> string \<Rightarrow> site_error + unit" where
  "validateAssetSize n relativeFilePath = check (n \<le> 25 * 1024 * 1024) (AssetTooBig relativeFilePath)"

definition validateAssetKey :: "string \<Rightarrow> site_error + unit" where
  "validateAssetKey assetKey = check (length assetKey \<le> 512) (KeyTooLong assetKey)"

text \<open>\<open>matches\<close> is the test of the package \<^verbatim>\<open>ignore\<close>.\<close>

definition createPatternMatcher ::
    "(string list \<Rightarrow> string \<Rightarrow> bool) \<Rightarrow> string list \<Rightarrow> bool \<Rightarrow> string \<Rightarrow> bool" where
  "createPatternMatcher matches patterns exclude filePath =
     (if patterns = [] then \<not> exclude else matches patterns filePath)"

subsection \<open>What to upload\<close>

record legacyAssetPaths =
  la_baseDirectory :: string
  la_assetDirectory :: string
  la_includePatterns :: "string list"
  la_excludePatterns :: "string list"

text \<open>The process, and the two packages.\<close>

record site_host =
  sh_cwd :: string
  sh_hasher :: "string \<Rightarrow> string"
  sh_matches :: "string list \<Rightarrow> string \<Rightarrow> bool"

definition MAX_BUCKET_SIZE :: nat where
  "MAX_BUCKET_SIZE = 98 * 1000 * 1000"

definition MAX_BUCKET_KEYS :: nat where
  "MAX_BUCKET_KEYS = BATCH_KEY_MAX"

definition MAX_BATCH_OPERATIONS :: nat where
  "MAX_BATCH_OPERATIONS = 5"

type_synonym path_key = "string \<times> string"

record sync_plan =
  sp_stale :: "string list"
  sp_manifest :: "(string \<times> string) list"
  sp_buckets :: "path_key list list"
  sp_bucket :: "path_key list"
  sp_size :: nat
  sp_uploads :: nat
  sp_skips :: nat

definition planUpload :: "nat \<Rightarrow> path_key \<Rightarrow> sync_plan \<Rightarrow> sync_plan" where
  "planUpload assetSize pk p =
     (let p = (if MAX_BUCKET_SIZE < sp_size p + assetSize \<or> MAX_BUCKET_KEYS < length (sp_bucket p) + 1
               then p\<lparr>sp_buckets := sp_buckets p @ [sp_bucket p], sp_size := 0, sp_bucket := []\<rparr>
               else p)
      in p\<lparr>sp_size := sp_size p + assetSize, sp_bucket := sp_bucket p @ [pk], sp_uploads := sp_uploads p + 1\<rparr>)"

definition assetDirectory :: "legacyAssetPaths \<Rightarrow> string" where
  "assetDirectory paths = path_join [la_baseDirectory paths, la_assetDirectory paths]"

definition relativeAsset :: "site_host \<Rightarrow> legacyAssetPaths \<Rightarrow> string \<Rightarrow> string" where
  "relativeAsset h paths absAssetFile = path_relative (sh_cwd h) (assetDirectory paths) absAssetFile"

definition selected :: "site_host \<Rightarrow> legacyAssetPaths \<Rightarrow> string \<Rightarrow> bool" where
  "selected h paths assetFile \<longleftrightarrow>
     createPatternMatcher (sh_matches h) (la_includePatterns paths) False assetFile \<and>
     \<not> createPatternMatcher (sh_matches h) (la_excludePatterns paths) True assetFile"

text \<open>The manifest is a plain object: a key \<open>__proto__\<close> is not stored.\<close>

definition addToManifest :: "string \<Rightarrow> string \<Rightarrow> (string \<times> string) list \<Rightarrow> (string \<times> string) list" where
  "addToManifest manifestKey assetKey manifest =
     (if manifestKey = ''__proto__'' then manifest else AList.update manifestKey assetKey manifest)"

definition planFile ::
    "site_host \<Rightarrow> legacyAssetPaths \<Rightarrow> string \<times> string \<Rightarrow> sync_plan \<Rightarrow> site_error + sync_plan" where
  "planFile h paths = (\<lambda>(absAssetFile, bytes) p.
     let assetFile = relativeAsset h paths absAssetFile in
     if \<not> selected h paths assetFile then Inr p
     else
       let content = base64Encode bytes; assetKey = hashAsset (sh_hasher h) assetFile content in
       andThen (validateAssetSize (length bytes) assetFile) (\<lambda>_.
       andThen (validateAssetKey assetKey) (\<lambda>_.
         let p = (if assetKey \<notin> set (sp_stale p) then planUpload (length content) (absAssetFile, assetKey) p
                  else p\<lparr>sp_skips := sp_skips p + 1\<rparr>)
         in Inr (p\<lparr>sp_stale := filter (\<lambda>k. k \<noteq> assetKey) (sp_stale p),
                   sp_manifest := addToManifest (urlSafe assetFile) assetKey (sp_manifest p)\<rparr>))))"

fun planFiles ::
    "site_host \<Rightarrow> legacyAssetPaths \<Rightarrow> (string \<times> string) list \<Rightarrow> sync_plan \<Rightarrow> site_error + sync_plan" where
  "planFiles h paths [] p = Inr p"
| "planFiles h paths (f # fs) p = andThen (planFile h paths f p) (planFiles h paths fs)"

record key_info =
  ki_name :: string
  ki_expiration :: "nat option"

definition emptyPlan :: "key_info list \<Rightarrow> sync_plan" where
  "emptyPlan infos =
     \<lparr>sp_stale = rev (remdups (rev (map ki_name infos))), sp_manifest = [], sp_buckets = [], sp_bucket = [],
      sp_size = 0, sp_uploads = 0, sp_skips = 0\<rparr>"

definition uploadBuckets :: "sync_plan \<Rightarrow> path_key list list" where
  "uploadBuckets p = sp_buckets p @ (if sp_bucket p \<noteq> [] then [sp_bucket p] else [])"

subsection \<open>Uploading\<close>

text \<open>
  Five uploaders take the next bucket, read its files again (\<open>rd\<close> is the file system) and send it. An
  uploader that is aborted while it reads sends what it has, which the aborted signal refuses.
\<close>

definition asset_value :: "string \<Rightarrow> string \<Rightarrow> keyValue" where
  "asset_value assetKey bytes =
     \<lparr>kv_key = assetKey, kv_value = base64Encode bytes, kv_expiration = None, kv_expiration_ttl = None,
      kv_metadata = None, kv_base64 = True\<rparr>"

datatype uploader =
    Ready
  | Reading "path_key list" "keyValue list"
  | Sending "keyValue list"
  | Stopped
  | Failed

record upload_pool =
  po_buckets :: "path_key list list"
  po_uploaders :: "uploader list"
  po_aborted :: bool
  po_sent :: "kv_request list"

definition startUploaders :: "path_key list list \<Rightarrow> upload_pool" where
  "startUploaders buckets =
     \<lparr>po_buckets = buckets, po_uploaders = replicate MAX_BATCH_OPERATIONS Ready, po_aborted = False,
      po_sent = []\<rparr>"

definition becomes :: "upload_pool \<Rightarrow> nat \<Rightarrow> uploader \<Rightarrow> upload_pool" where
  "becomes s i u = s\<lparr>po_uploaders := (po_uploaders s)[i := u]\<rparr>"

inductive uploader_step :: "(string \<Rightarrow> string option) \<Rightarrow> upload_pool \<Rightarrow> upload_pool \<Rightarrow> bool" for rd where
  take_bucket:
  "i < length (po_uploaders s) \<Longrightarrow> po_uploaders s ! i = Ready \<Longrightarrow> \<not> po_aborted s \<Longrightarrow> po_buckets s = b # bs \<Longrightarrow>
     uploader_step rd s (becomes (s\<lparr>po_buckets := bs\<rparr>) i (Reading b []))"
| stop:
  "i < length (po_uploaders s) \<Longrightarrow> po_uploaders s ! i = Ready \<Longrightarrow> po_aborted s \<or> po_buckets s = [] \<Longrightarrow>
     uploader_step rd s (becomes s i Stopped)"
| read_file:
  "i < length (po_uploaders s) \<Longrightarrow> po_uploaders s ! i = Reading ((path, key) # rest) acc \<Longrightarrow> rd path = Some bytes \<Longrightarrow>
     acc' = acc @ [asset_value key bytes] \<Longrightarrow>
     uploader_step rd s (becomes s i (if po_aborted s then Sending acc' else Reading rest acc'))"
| read_failed:
  "i < length (po_uploaders s) \<Longrightarrow> po_uploaders s ! i = Reading ((path, key) # rest) acc \<Longrightarrow> rd path = None \<Longrightarrow>
     uploader_step rd s (becomes s i Failed)"
| all_read:
  "i < length (po_uploaders s) \<Longrightarrow> po_uploaders s ! i = Reading [] acc \<Longrightarrow>
     uploader_step rd s (becomes s i (Sending acc))"
| sent:
  "i < length (po_uploaders s) \<Longrightarrow> po_uploaders s ! i = Sending acc \<Longrightarrow>
     uploader_step rd s (becomes (s\<lparr>po_sent := po_sent s @ putKVBulkKeyValue acc\<rparr>) i Ready)"
| refused:
  "i < length (po_uploaders s) \<Longrightarrow> po_uploaders s ! i = Sending acc \<Longrightarrow>
     uploader_step rd s (becomes (s\<lparr>po_sent := po_sent s @ take k (putKVBulkKeyValue acc)\<rparr>) i Failed)"
| dropped:
  "i < length (po_uploaders s) \<Longrightarrow> po_uploaders s ! i = Sending acc \<Longrightarrow> po_aborted s \<Longrightarrow>
     uploader_step rd s (becomes (s\<lparr>po_sent := po_sent s @ take k (putKVBulkKeyValue acc)\<rparr>) i Stopped)"
| abort:
  "Failed \<in> set (po_uploaders s) \<Longrightarrow> \<not> po_aborted s \<Longrightarrow> uploader_step rd s (s\<lparr>po_aborted := True\<rparr>)"

definition all_uploaded :: "upload_pool \<Rightarrow> bool" where
  "all_uploaded s \<longleftrightarrow> list_all (\<lambda>u. u = Stopped) (po_uploaders s) \<and> \<not> po_aborted s"

subsection \<open>Old files\<close>

definition expires :: "key_info list \<Rightarrow> string \<Rightarrow> bool" where
  "expires infos key \<longleftrightarrow>
     (case map_of (rev (map (\<lambda>i. (ki_name i, ki_expiration i)) infos)) key of
        Some (Some n) \<Rightarrow> n \<noteq> 0 | _ \<Rightarrow> False)"

text \<open>\<open>current\<close> is the value of a key. Without a time to live the old files are deleted.\<close>

definition expireAsset :: "nat \<Rightarrow> (string \<Rightarrow> string) \<Rightarrow> string \<Rightarrow> kv_request" where
  "expireAsset ttl current key =
     putKVKeyValue \<lparr>kv_key = key, kv_value = current key, kv_expiration = None, kv_expiration_ttl = Some ttl,
       kv_metadata = None, kv_base64 = False\<rparr>"

definition staleRequests ::
    "nat option \<Rightarrow> (string \<Rightarrow> string) \<Rightarrow> key_info list \<Rightarrow> string list \<Rightarrow> kv_request list" where
  "staleRequests oldAssetTTL current infos stale =
     (case oldAssetTTL of
        Some ttl \<Rightarrow>
          if ttl = 0 then deleteKVBulkKeyValue stale
          else map (expireAsset ttl current) (filter (\<lambda>key. \<not> expires infos key) stale)
      | None \<Rightarrow> deleteKVBulkKeyValue stale)"

subsection \<open>Synchronising\<close>

definition sitesTitle :: "string \<Rightarrow> bool \<Rightarrow> string" where
  "sitesTitle scriptName preview =
     ''__'' @ scriptName @ ''-workers_sites_assets'' @ (if preview then ''_preview'' else [])"

text \<open>The answers of the API: the namespaces, the id of a new one, its keys and their values.\<close>

record site_answers =
  an_namespaces :: "namespaceInfo list"
  an_newId :: string
  an_keys :: "key_info list"
  an_current :: "string \<Rightarrow> string"

definition createKVNamespaceIfNotAlreadyExisting :: "string \<Rightarrow> site_answers \<Rightarrow> string \<times> kv_request list" where
  "createKVNamespaceIfNotAlreadyExisting title an =
     (case find (\<lambda>ns. ns_title ns = title) (an_namespaces an) of
        Some ns \<Rightarrow> (ns_id ns, [])
      | None \<Rightarrow> (an_newId an, [CreateNamespace title]))"

definition planSync ::
    "site_host \<Rightarrow> legacyAssetPaths \<Rightarrow> dir_entry list \<Rightarrow> key_info list \<Rightarrow> site_error + sync_plan" where
  "planSync h paths tree infos =
     planFiles h paths (getFilesInFolder (assetDirectory paths) tree) (emptyPlan infos)"

record sync_args =
  sa_accountId :: "string option"
  sa_scriptName :: string
  sa_siteAssets :: "legacyAssetPaths option"
  sa_preview :: bool
  sa_dryRun :: bool
  sa_oldAssetTTL :: "nat option"

text \<open>The outcomes of \<open>syncLegacyAssets\<close>, with the requests that were sent until then.\<close>

type_synonym sync_outcome = "site_error + (string \<times> string) list option \<times> string option"

inductive syncLegacyAssets ::
    "site_host \<Rightarrow> dir_entry list \<Rightarrow> (string \<Rightarrow> string option) \<Rightarrow> site_answers \<Rightarrow> sync_args \<Rightarrow> sync_outcome \<Rightarrow>
     kv_request list \<Rightarrow> bool"
  for h tree rd an args where
  no_assets:
  "sa_siteAssets args = None \<Longrightarrow> syncLegacyAssets h tree rd an args (Inr (None, None)) []"
| dry_run:
  "sa_siteAssets args = Some paths \<Longrightarrow> sa_dryRun args \<Longrightarrow> syncLegacyAssets h tree rd an args (Inr (None, None)) []"
| no_account:
  "sa_siteAssets args = Some paths \<Longrightarrow> \<not> sa_dryRun args \<Longrightarrow> \<not> text_given (sa_accountId args) \<Longrightarrow>
     syncLegacyAssets h tree rd an args (Inl MissingAccount) []"
| invalid:
  "sa_siteAssets args = Some paths \<Longrightarrow> \<not> sa_dryRun args \<Longrightarrow> text_given (sa_accountId args) \<Longrightarrow>
     createKVNamespaceIfNotAlreadyExisting (sitesTitle (sa_scriptName args) (sa_preview args)) an = (ns, created) \<Longrightarrow>
     planSync h paths tree (an_keys an) = Inl e \<Longrightarrow>
     syncLegacyAssets h tree rd an args (Inl e) created"
| upload_failed:
  "sa_siteAssets args = Some paths \<Longrightarrow> \<not> sa_dryRun args \<Longrightarrow> text_given (sa_accountId args) \<Longrightarrow>
     createKVNamespaceIfNotAlreadyExisting (sitesTitle (sa_scriptName args) (sa_preview args)) an = (ns, created) \<Longrightarrow>
     planSync h paths tree (an_keys an) = Inr p \<Longrightarrow>
     (uploader_step rd)\<^sup>*\<^sup>* (startUploaders (uploadBuckets p)) s \<Longrightarrow> Failed \<in> set (po_uploaders s) \<Longrightarrow>
     syncLegacyAssets h tree rd an args (Inl UploadFailed) (created @ po_sent s)"
| cleaning_failed:
  "sa_siteAssets args = Some paths \<Longrightarrow> \<not> sa_dryRun args \<Longrightarrow> text_given (sa_accountId args) \<Longrightarrow>
     createKVNamespaceIfNotAlreadyExisting (sitesTitle (sa_scriptName args) (sa_preview args)) an = (ns, created) \<Longrightarrow>
     planSync h paths tree (an_keys an) = Inr p \<Longrightarrow>
     (uploader_step rd)\<^sup>*\<^sup>* (startUploaders (uploadBuckets p)) s \<Longrightarrow> all_uploaded s \<Longrightarrow>
     syncLegacyAssets h tree rd an args (Inl DeletionFailed)
       (created @ po_sent s
         @ take k (staleRequests (sa_oldAssetTTL args) (an_current an) (an_keys an) (sp_stale p)))"
| synchronised:
  "sa_siteAssets args = Some paths \<Longrightarrow> \<not> sa_dryRun args \<Longrightarrow> text_given (sa_accountId args) \<Longrightarrow>
     createKVNamespaceIfNotAlreadyExisting (sitesTitle (sa_scriptName args) (sa_preview args)) an = (ns, created) \<Longrightarrow>
     planSync h paths tree (an_keys an) = Inr p \<Longrightarrow>
     (uploader_step rd)\<^sup>*\<^sup>* (startUploaders (uploadBuckets p)) s \<Longrightarrow> all_uploaded s \<Longrightarrow>
     syncLegacyAssets h tree rd an args (Inr (Some (sp_manifest p), Some ns))
       (created @ po_sent s @ staleRequests (sa_oldAssetTTL args) (an_current an) (an_keys an) (sp_stale p))"

subsection \<open>The directory of a site\<close>

definition configDirectory :: "site_host \<Rightarrow> jval \<Rightarrow> string option \<Rightarrow> string" where
  "configDirectory h config assetDir =
     (if text_given assetDir then sh_cwd h
      else path_resolve (sh_cwd h)
        [path_dirname (case prop_of config ''configPath'' of JString p \<Rightarrow> p | _ \<Rightarrow> ''wrangler.toml'')])"

fun text_option :: "jval \<Rightarrow> string option" where
  "text_option (JString s) = Some s"
| "text_option _ = None"

text \<open>The patterns of a validated configuration are arrays of strings.\<close>

definition patterns_of :: "jval \<Rightarrow> string list" where
  "patterns_of v = map js_string (elements v)"

definition getLegacyAssetPaths :: "site_host \<Rightarrow> jval \<Rightarrow> string option \<Rightarrow> legacyAssetPaths option" where
  "getLegacyAssetPaths h config assetDir =
     (let assets = prop_of config ''legacy_assets'';
        dir = (if assetDir \<noteq> None then assetDir
               else if js_typeof assets = ''string'' then text_option assets
               else text_option (prop_of assets ''bucket'')) in
      if text_given dir
      then Some \<lparr>la_baseDirectory = configDirectory h config assetDir, la_assetDirectory = the dir,
                 la_includePatterns = patterns_of (prop_of assets ''include''),
                 la_excludePatterns = patterns_of (prop_of assets ''exclude'')\<rparr>
      else None)"

definition getSiteAssetPaths ::
    "site_host \<Rightarrow> jval \<Rightarrow> string option \<Rightarrow> string list option \<Rightarrow> string list option \<Rightarrow> legacyAssetPaths option" where
  "getSiteAssetPaths h config assetDir includePatterns excludePatterns =
     (let site = prop_of config ''site'';
        dir = (if assetDir \<noteq> None then assetDir else text_option (prop_of site ''bucket'')) in
      if text_given dir
      then Some \<lparr>la_baseDirectory = configDirectory h config assetDir, la_assetDirectory = the dir,
                 la_includePatterns =
                   (case includePatterns of Some ps \<Rightarrow> ps | None \<Rightarrow> patterns_of (prop_of site ''include'')),
                 la_excludePatterns =
                   (case excludePatterns of Some ps \<Rightarrow> ps | None \<Rightarrow> patterns_of (prop_of site ''exclude''))\<rparr>
      else None)"

end
