(* ===== verification/SiteUploaders.thy ===== *)
theory SiteUploaders
  imports SiteAssets
begin

text \<open>
  The uploaders of a Workers Site: what every interleaving of them sends, and that they end.
\<close>

subsection \<open>Sums over the uploaders\<close>

lemma sum_list_changed:
  fixes f :: "'a \<Rightarrow> 'b :: cancel_comm_monoid_add"
  shows "i < length xs \<Longrightarrow> sum_list (map f (xs[i := x])) + f (xs ! i) = sum_list (map f xs) + f x"
proof (induction xs arbitrary: i)
  case (Cons y ys)
  show ?case
  proof (cases i)
    case 0
    then show ?thesis by (simp add: ac_simps)
  next
    case (Suc j)
    with Cons.IH [of j] Cons.prems show ?thesis by (simp add: add.assoc)
  qed
qed simp

lemma sum_list_le:
  fixes f :: "'a \<Rightarrow> nat"
  shows "i < length xs \<Longrightarrow> f x < f (xs ! i) \<Longrightarrow> sum_list (map f (xs[i := x])) < sum_list (map f xs)"
  using sum_list_changed [of i xs f x] by simp

lemma becomes_simps [simp]:
  "po_buckets (becomes s i u) = po_buckets s"
  "po_uploaders (becomes s i u) = (po_uploaders s)[i := u]"
  "po_aborted (becomes s i u) = po_aborted s"
  "po_sent (becomes s i u) = po_sent s"
  by (simp_all add: becomes_def)

subsection \<open>The uploaders end\<close>

fun weight :: "uploader \<Rightarrow> nat" where
  "weight Ready = 1"
| "weight (Reading rest acc) = 3 + length rest"
| "weight (Sending acc) = 2"
| "weight Stopped = 0"
| "weight Failed = 0"

definition pool_weight :: "upload_pool \<Rightarrow> nat" where
  "pool_weight s =
     sum_list (map (\<lambda>b. length b + 3) (po_buckets s)) + sum_list (map weight (po_uploaders s))
       + (if po_aborted s then 0 else 1)"

lemma step_weight: "uploader_step rd s t \<Longrightarrow> pool_weight t < pool_weight s"
proof (induction rule: uploader_step.induct)
  case (take_bucket i s b bs)
  then show ?case
    using sum_list_changed [of i "po_uploaders s" weight "Reading b []"] by (simp add: pool_weight_def)
next
  case (read_file i s path key rest acc bytes acc')
  then show ?case
    using sum_list_le [of i "po_uploaders s" weight "if po_aborted s then Sending acc' else Reading rest acc'"]
    by (simp add: pool_weight_def)
qed (auto simp: pool_weight_def intro!: sum_list_le)

lemma steps_wf: "wfp (\<lambda>t s. uploader_step rd s t)"
proof -
  have "{(t, s). uploader_step rd s t} \<subseteq> measure pool_weight" using step_weight by auto
  then show ?thesis unfolding wfp_def by (rule wf_subset [OF wf_measure])
qed

text \<open>An uploader that neither stopped nor failed can go on.\<close>

lemma uploader_goes_on:
  assumes "i < length (po_uploaders s)" "po_uploaders s ! i \<noteq> Stopped" "po_uploaders s ! i \<noteq> Failed"
  shows "\<exists>t. uploader_step rd s t"
proof (cases "po_uploaders s ! i")
  case Ready
  show ?thesis
  proof (cases "po_aborted s \<or> po_buckets s = []")
    case True
    from uploader_step.stop [OF assms(1) Ready this] show ?thesis by blast
  next
    case False
    then obtain b bs where "po_buckets s = b # bs" by (auto simp: neq_Nil_conv)
    with uploader_step.take_bucket [OF assms(1) Ready] False show ?thesis by blast
  qed
next
  case (Reading rest acc)
  show ?thesis
  proof (cases rest)
    case Nil
    with uploader_step.all_read [OF assms(1)] Reading show ?thesis by blast
  next
    case (Cons pk rest')
    obtain path key where pk: "pk = (path, key)" by (cases pk)
    show ?thesis
      using uploader_step.read_failed [OF assms(1), of path key rest' acc rd] Reading Cons pk
        uploader_step.read_file [OF assms(1), of path key rest' acc rd _ "acc @ [asset_value key _]"]
      by (cases "rd path") blast+
  qed
next
  case (Sending acc)
  with uploader_step.sent [OF assms(1)] show ?thesis by blast
qed (use assms in auto)

lemma stuck_uploaders:
  assumes "\<nexists>t. uploader_step rd s t"
  shows "list_all (\<lambda>u. u = Stopped \<or> u = Failed) (po_uploaders s) \<and>
         (Failed \<in> set (po_uploaders s) \<longrightarrow> po_aborted s)"
  using assms uploader_goes_on [of _ s rd] uploader_step.abort [of s rd]
  by (auto simp: list_all_length)

subsection \<open>What is sent\<close>

definition reads :: "(string \<Rightarrow> string option) \<Rightarrow> path_key \<Rightarrow> keyValue" where
  "reads rd pk = asset_value (snd pk) (case rd (fst pk) of None \<Rightarrow> [] | Some bytes \<Rightarrow> bytes)"

fun put_values :: "kv_request list \<Rightarrow> keyValue list" where
  "put_values [] = []"
| "put_values (BulkPut kvs # rs) = kvs @ put_values rs"
| "put_values (_ # rs) = put_values rs"

lemma put_values_append [simp]: "put_values (rs @ rs') = put_values rs @ put_values rs'"
  by (induction rs rule: put_values.induct) auto

lemma put_values_bulk [simp]: "put_values (map BulkPut kvss) = concat kvss"
  by (induction kvss) auto

lemma put_values_putBulk [simp]: "put_values (putKVBulkKeyValue kvs) = kvs"
  by (simp add: putKVBulkKeyValue_def concat_slices BATCH_KEY_MAX_def API_MAX_def)

fun held :: "(string \<Rightarrow> string option) \<Rightarrow> uploader \<Rightarrow> keyValue multiset" where
  "held rd (Reading rest acc) = mset acc + image_mset (reads rd) (mset rest)"
| "held rd (Sending acc) = mset acc"
| "held rd _ = {#}"

definition unsent :: "(string \<Rightarrow> string option) \<Rightarrow> upload_pool \<Rightarrow> keyValue multiset" where
  "unsent rd s = image_mset (reads rd) (mset (concat (po_buckets s))) + sum_list (map (held rd) (po_uploaders s))"

definition in_order :: "upload_pool \<Rightarrow> bool" where
  "in_order s \<longleftrightarrow> \<not> po_aborted s \<and> Failed \<notin> set (po_uploaders s)"

text \<open>As long as nothing fails, every value is sent once or still to be sent.\<close>

definition conserved :: "(string \<Rightarrow> string option) \<Rightarrow> keyValue multiset \<Rightarrow> upload_pool \<Rightarrow> bool" where
  "conserved rd vs s \<longleftrightarrow> in_order s \<longrightarrow>
     unsent rd s + mset (put_values (po_sent s)) = vs \<and> (Stopped \<in> set (po_uploaders s) \<longrightarrow> po_buckets s = [])"

lemma unsent_becomes:
  "i < length (po_uploaders s) \<Longrightarrow>
     unsent rd (becomes s i u) + held rd (po_uploaders s ! i) = unsent rd s + held rd u"
  using sum_list_changed [of i "po_uploaders s" "held rd" u] by (simp add: unsent_def add.assoc)

lemma unsent_log [simp]: "unsent rd (s\<lparr>po_sent := x\<rparr>) = unsent rd s"
  by (simp add: unsent_def)

lemma in_order_becomes:
  assumes "in_order (becomes s i u)" "i < length (po_uploaders s)" "po_uploaders s ! i \<noteq> Failed"
  shows "in_order s"
  using assms unfolding in_order_def becomes_simps by (metis in_set_conv_nth length_list_update nth_list_update_neq)

lemma stopped_becomes:
  assumes "Stopped \<in> set (po_uploaders (becomes s i u))" "u \<noteq> Stopped" "po_uploaders s ! i \<noteq> Stopped"
  shows "Stopped \<in> set (po_uploaders s)"
  using assms unfolding becomes_simps by (metis in_set_conv_nth length_list_update nth_list_update_eq nth_list_update_neq)

text \<open>A step that keeps the buckets and moves no value keeps everything.\<close>

lemma conserved_becomes:
  assumes "conserved rd vs s" "i < length (po_uploaders s)" "po_uploaders s ! i \<noteq> Failed" "po_uploaders s ! i \<noteq> Stopped"
    and "u \<noteq> Stopped" "held rd u + mset new = held rd (po_uploaders s ! i)"
    and "put_values log = put_values (po_sent s) @ new"
  shows "conserved rd vs (becomes (s\<lparr>po_sent := log\<rparr>) i u)"
  unfolding conserved_def
proof (intro impI conjI)
  let ?t = "becomes (s\<lparr>po_sent := log\<rparr>) i u"
  assume "in_order ?t"
  then have "in_order (s\<lparr>po_sent := log\<rparr>)" by (rule in_order_becomes) (use assms in simp_all)
  then have s: "in_order s" by (simp add: in_order_def)
  with assms(1) have v: "unsent rd s + mset (put_values (po_sent s)) = vs"
    and b: "Stopped \<in> set (po_uploaders s) \<Longrightarrow> po_buckets s = []" by (auto simp: conserved_def)
  have "unsent rd ?t + (held rd u + mset new) = unsent rd s + held rd u"
    using unsent_becomes [of i "s\<lparr>po_sent := log\<rparr>" rd u] assms(2,6) by simp
  then have "unsent rd ?t + mset new = unsent rd s" by (simp add: add.left_commute)
  with v show "unsent rd ?t + mset (put_values (po_sent ?t)) = vs" by (auto simp: assms(7) ac_simps)
  show "po_buckets ?t = []" if "Stopped \<in> set (po_uploaders ?t)"
    using b stopped_becomes [OF that assms(5)] assms(4) by simp
qed

lemma same_log: "s\<lparr>po_sent := po_sent s\<rparr> = s"
  by simp

lemma reads_Some: "rd path = Some bytes \<Longrightarrow> reads rd (path, key) = asset_value key bytes"
  by (simp add: reads_def)

lemma not_in_order [simp]:
  "i < length (po_uploaders s) \<Longrightarrow> \<not> in_order (becomes s i Failed)"
  "\<not> in_order (s\<lparr>po_aborted := True\<rparr>)"
  "po_aborted s \<Longrightarrow> \<not> in_order (becomes s i u)"
  by (auto simp: in_order_def set_update_memI)

lemma conserved_step: "uploader_step rd s t \<Longrightarrow> conserved rd vs s \<Longrightarrow> conserved rd vs t"
proof (induction rule: uploader_step.induct)
  case (take_bucket i s b bs)
  show ?case unfolding conserved_def
  proof (intro impI conjI)
    let ?t = "becomes (s\<lparr>po_buckets := bs\<rparr>) i (Reading b [])"
    assume "in_order ?t"
    then have "in_order (s\<lparr>po_buckets := bs\<rparr>)" by (rule in_order_becomes) (use take_bucket in simp_all)
    then have s: "in_order s" by (simp add: in_order_def)
    with take_bucket have v: "unsent rd s + mset (put_values (po_sent s)) = vs"
      and b: "Stopped \<notin> set (po_uploaders s)" by (auto simp: conserved_def)
    have "unsent rd ?t = unsent rd s"
      using unsent_becomes [of i "s\<lparr>po_buckets := bs\<rparr>" rd "Reading b []"] take_bucket
      by (simp add: unsent_def ac_simps)
    with v show "unsent rd ?t + mset (put_values (po_sent ?t)) = vs" by simp
    show "po_buckets ?t = []" if "Stopped \<in> set (po_uploaders ?t)"
      using stopped_becomes [OF that] b take_bucket(2) by simp
  qed
next
  case (stop i s)
  show ?case unfolding conserved_def
  proof (intro impI conjI)
    let ?t = "becomes s i Stopped"
    assume "in_order ?t"
    then have s: "in_order s" by (rule in_order_becomes) (use stop in simp_all)
    with stop have v: "unsent rd s + mset (put_values (po_sent s)) = vs" "po_buckets s = []"
      by (auto simp: conserved_def in_order_def)
    with unsent_becomes [OF stop(1), of rd Stopped] stop(2)
    show "unsent rd ?t + mset (put_values (po_sent ?t)) = vs" "po_buckets ?t = []" by simp_all
  qed
next
  case (read_file i s path key rest acc bytes acc')
  have "conserved rd vs (becomes (s\<lparr>po_sent := po_sent s\<rparr>) i (Reading rest acc'))"
    by (rule conserved_becomes [where new = "[]"])
      (use read_file reads_Some [of rd path bytes key] in simp_all)
  then show ?case by (cases "po_aborted s") (simp_all add: conserved_def)
next
  case (all_read i s acc)
  have "conserved rd vs (becomes (s\<lparr>po_sent := po_sent s\<rparr>) i (Sending acc))"
    by (rule conserved_becomes [where new = "[]"]) (use all_read in simp_all)
  then show ?case by simp
next
  case (sent i s acc)
  then show ?case by (intro conserved_becomes [where new = acc]) simp_all
qed (simp_all add: conserved_def)

lemma conserved_start:
  "conserved rd (image_mset (reads rd) (mset (concat buckets))) (startUploaders buckets)"
  by (simp add: conserved_def startUploaders_def unsent_def MAX_BATCH_OPERATIONS_def eval_nat_numeral)

lemma all_uploaded_in_order: "all_uploaded s \<Longrightarrow> in_order s"
  by (auto simp: all_uploaded_def in_order_def list_all_iff)

lemma all_uploaded_held: "list_all (\<lambda>u. u = Stopped) us \<Longrightarrow> sum_list (map (held rd) us) = {#}"
  by (induction us) auto

text \<open>When all uploaders have stopped, every value was sent exactly once.\<close>

lemma uploaded_conserved:
  assumes "(uploader_step rd)\<^sup>*\<^sup>* (startUploaders buckets) s" "all_uploaded s"
  shows "po_buckets s = []" "mset (put_values (po_sent s)) = image_mset (reads rd) (mset (concat buckets))"
proof -
  have len: "length (po_uploaders s) = MAX_BATCH_OPERATIONS" if "(uploader_step rd)\<^sup>*\<^sup>* (startUploaders buckets) s" for s
    using that by (induction rule: rtranclp_induct) (auto simp: startUploaders_def elim!: uploader_step.cases)
  from assms(1) have "conserved rd (image_mset (reads rd) (mset (concat buckets))) s"
    by (induction rule: rtranclp_induct) (auto intro: conserved_start conserved_step)
  moreover have "Stopped \<in> set (po_uploaders s)"
    using assms(2) len [OF assms(1)]
    by (cases "po_uploaders s") (auto simp: all_uploaded_def MAX_BATCH_OPERATIONS_def)
  ultimately show "po_buckets s = []" "mset (put_values (po_sent s)) = image_mset (reads rd) (mset (concat buckets))"
    using all_uploaded_in_order [OF assms(2)] assms(2) all_uploaded_held [of "po_uploaders s" rd]
    by (auto simp: conserved_def unsent_def all_uploaded_def)
qed

text \<open>A file whose bucket was sent could be read.\<close>

fun to_read :: "uploader \<Rightarrow> path_key list" where
  "to_read (Reading rest acc) = rest"
| "to_read _ = []"

definition waiting :: "upload_pool \<Rightarrow> path_key set" where
  "waiting s = set (concat (po_buckets s)) \<union> (\<Union>u \<in> set (po_uploaders s). set (to_read u))"

lemma waiting_becomes:
  assumes "pk \<in> waiting s" "pk \<notin> set (to_read (po_uploaders s ! i))"
  shows "pk \<in> waiting (becomes s i u)"
proof -
  have "v \<in> set ((po_uploaders s)[i := u])" if "v \<in> set (po_uploaders s)" "v \<noteq> po_uploaders s ! i" for v
    using that by (metis in_set_conv_nth length_list_update nth_list_update_neq)
  with assms show ?thesis unfolding waiting_def becomes_simps by blast
qed

lemma waiting_new:
  "i < length (po_uploaders s) \<Longrightarrow> pk \<in> set (to_read u) \<Longrightarrow> pk \<in> waiting (becomes s i u)"
  by (auto simp: waiting_def intro!: bexI [of _ u] set_update_memI)

lemma waiting_log [simp]: "waiting (s\<lparr>po_sent := x\<rparr>) = waiting s"
  by (simp add: waiting_def)

lemma in_order_step: "uploader_step rd s t \<Longrightarrow> in_order t \<Longrightarrow> in_order s"
proof (induction rule: uploader_step.induct)
  case (abort s)
  then show ?case by simp
qed (fastforce dest: in_order_becomes simp: in_order_def)+

lemma waiting_step:
  "uploader_step rd s t \<Longrightarrow> in_order t \<Longrightarrow> pk \<in> waiting s \<Longrightarrow> pk \<in> waiting t \<or> rd (fst pk) \<noteq> None"
proof (induction rule: uploader_step.induct)
  case (take_bucket i s b bs)
  show ?case
  proof (cases "pk \<in> set b")
    case True
    then show ?thesis using waiting_new [of i "s\<lparr>po_buckets := bs\<rparr>" pk "Reading b []"] take_bucket(1) by simp
  next
    case False
    then have "pk \<in> waiting (s\<lparr>po_buckets := bs\<rparr>)" using take_bucket by (auto simp: waiting_def)
    then show ?thesis using waiting_becomes [of pk "s\<lparr>po_buckets := bs\<rparr>" i] take_bucket(2) by simp
  qed
next
  case (read_file i s path key rest acc bytes acc')
  show ?case
  proof (cases "pk = (path, key)")
    case False
    have "\<not> po_aborted s" using read_file.prems(1) not_in_order(3) by blast
    then show ?thesis
      using waiting_becomes [of pk s i "Reading rest acc'"] waiting_new [of i s pk "Reading rest acc'"] read_file False
      by auto
  qed (use read_file in simp)
next
  case (sent i s acc)
  then show ?case using waiting_becomes [of pk "s\<lparr>po_sent := po_sent s @ putKVBulkKeyValue acc\<rparr>" i] by simp
next
  case (stop i s)
  then show ?case using waiting_becomes [of pk s i] by simp
next
  case (all_read i s acc)
  then show ?case using waiting_becomes [of pk s i] by simp
qed simp_all

lemma uploaded_readable:
  assumes "(uploader_step rd)\<^sup>*\<^sup>* (startUploaders buckets) s" "all_uploaded s" "pk \<in> set (concat buckets)"
  shows "rd (fst pk) \<noteq> None"
proof -
  have "in_order s \<longrightarrow> pk \<in> waiting s \<or> rd (fst pk) \<noteq> None"
    using assms(1)
  proof (induction rule: rtranclp_induct)
    case base
    show ?case using assms(3) by (simp add: waiting_def startUploaders_def)
  next
    case (step s t)
    then show ?case using waiting_step in_order_step by blast
  qed
  moreover have "waiting s = {}"
    using uploaded_conserved(1) [OF assms(1,2)] assms(2) by (auto simp: waiting_def all_uploaded_def list_all_iff)
  ultimately show ?thesis using all_uploaded_in_order [OF assms(2)] by blast
qed

subsection \<open>Requests stay within the buckets\<close>

text \<open>What an uploader holds is the beginning of a bucket; what is sent is part of one.\<close>

fun within :: "(string \<Rightarrow> string option) \<Rightarrow> path_key list list \<Rightarrow> uploader \<Rightarrow> bool" where
  "within rd buckets (Reading rest acc) \<longleftrightarrow> (\<exists>b \<in> set buckets. map (reads rd) b = acc @ map (reads rd) rest)"
| "within rd buckets (Sending acc) \<longleftrightarrow> (\<exists>b \<in> set buckets. prefix acc (map (reads rd) b))"
| "within rd buckets _ \<longleftrightarrow> True"

definition part_of_bucket :: "(string \<Rightarrow> string option) \<Rightarrow> path_key list list \<Rightarrow> kv_request \<Rightarrow> bool" where
  "part_of_bucket rd buckets r \<longleftrightarrow>
     (\<exists>kvs. r = BulkPut kvs \<and> length kvs \<le> BATCH_KEY_MAX \<and> (\<exists>b \<in> set buckets. sublist kvs (map (reads rd) b)))"

definition orderly :: "(string \<Rightarrow> string option) \<Rightarrow> path_key list list \<Rightarrow> upload_pool \<Rightarrow> bool" where
  "orderly rd buckets s \<longleftrightarrow>
     set (po_buckets s) \<subseteq> set buckets \<and> (\<forall>u \<in> set (po_uploaders s). within rd buckets u) \<and>
     (\<forall>r \<in> set (po_sent s). part_of_bucket rd buckets r)"

lemma sublist_slices: "ys \<in> set (slices n xs) \<Longrightarrow> sublist ys xs"
proof (induction n xs rule: slices.induct)
  case (1 n xs)
  show ?case
  proof (cases "xs = [] \<or> n = 0")
    case True
    with 1(2) show ?thesis by (simp add: slices.simps [of n xs])
  next
    case False
    with 1(2) have "ys = take n xs \<or> ys \<in> set (slices n (drop n xs))" by (simp add: slices.simps [of n xs])
    with 1(1) [OF False] show ?thesis
      using sublist_order.order.trans [of ys "drop n xs" xs] by (auto intro: sublist_take sublist_drop)
  qed
qed

lemma putBulk_within:
  assumes "within rd buckets (Sending acc)" "r \<in> set (putKVBulkKeyValue acc)"
  shows "part_of_bucket rd buckets r"
proof -
  from assms(1) obtain b where b: "b \<in> set buckets" "prefix acc (map (reads rd) b)" by auto
  from assms(2) obtain kvs where r: "r = BulkPut kvs" "kvs \<in> set (slices BATCH_KEY_MAX acc)"
    by (auto simp: putKVBulkKeyValue_def)
  have "sublist kvs (map (reads rd) b)"
    using sublist_slices [OF r(2)] prefix_imp_sublist [OF b(2)] by (rule sublist_order.order.trans)
  with r b(1) length_slices [OF r(2)] show ?thesis by (auto simp: part_of_bucket_def)
qed

lemma orderly_becomes:
  assumes "orderly rd buckets s" "within rd buckets u" "\<And>r. r \<in> set log \<Longrightarrow> part_of_bucket rd buckets r"
  shows "orderly rd buckets (becomes (s\<lparr>po_sent := po_sent s @ log\<rparr>) i u)"
  using assms by (auto simp: orderly_def dest!: set_update_subset_insert [THEN subsetD])

lemma orderly_uploader:
  "orderly rd buckets s \<Longrightarrow> i < length (po_uploaders s) \<Longrightarrow> within rd buckets (po_uploaders s ! i)"
  by (simp add: orderly_def)

lemma orderly_becomes_quiet:
  assumes "orderly rd buckets s" "within rd buckets u"
  shows "orderly rd buckets (becomes s i u)"
  using orderly_becomes [OF assms, of "[]" i] by simp

lemma orderly_step: "uploader_step rd s t \<Longrightarrow> orderly rd buckets s \<Longrightarrow> orderly rd buckets t"
proof (induction rule: uploader_step.induct)
  case (take_bucket i s b bs)
  then have "orderly rd buckets (s\<lparr>po_buckets := bs\<rparr>)" "b \<in> set buckets" by (auto simp: orderly_def)
  then show ?case by (intro orderly_becomes_quiet) auto
next
  case (read_file i s path key rest acc bytes acc')
  then have "within rd buckets (Reading ((path, key) # rest) acc)" using orderly_uploader by metis
  then obtain b where "b \<in> set buckets" "map (reads rd) b = acc' @ map (reads rd) rest"
    using read_file(3,4) reads_Some [of rd path bytes key] by auto
  then have "within rd buckets (if po_aborted s then Sending acc' else Reading rest acc')"
    by (auto intro!: bexI [of _ b])
  with read_file show ?case by (intro orderly_becomes_quiet)
next
  case (all_read i s acc)
  then have "within rd buckets (Reading [] acc)" using orderly_uploader by metis
  then have "within rd buckets (Sending acc)" by (metis append_Nil2 list.simps(8) prefix_order.refl within.simps(1,2))
  with all_read show ?case by (intro orderly_becomes_quiet)
next
  case (sent i s acc)
  then have "within rd buckets (Sending acc)" using orderly_uploader by metis
  with sent show ?case by (intro orderly_becomes putBulk_within) simp_all
next
  case (refused i s acc k)
  then have "within rd buckets (Sending acc)" using orderly_uploader by metis
  then have "part_of_bucket rd buckets r" if "r \<in> set (take k (putKVBulkKeyValue acc))" for r
    using in_set_takeD [OF that] by (rule putBulk_within)
  with refused show ?case by (intro orderly_becomes) simp_all
next
  case (dropped i s acc k)
  then have "within rd buckets (Sending acc)" using orderly_uploader by metis
  then have "part_of_bucket rd buckets r" if "r \<in> set (take k (putKVBulkKeyValue acc))" for r
    using in_set_takeD [OF that] by (rule putBulk_within)
  with dropped show ?case by (intro orderly_becomes) simp_all
qed (auto simp: orderly_def intro: orderly_becomes_quiet dest!: set_update_subset_insert [THEN subsetD])

lemma sent_orderly:
  assumes "(uploader_step rd)\<^sup>*\<^sup>* (startUploaders buckets) s" "r \<in> set (po_sent s)"
  shows "part_of_bucket rd buckets r"
proof -
  have "orderly rd buckets (startUploaders buckets)" by (simp add: orderly_def startUploaders_def)
  with assms(1) have "orderly rd buckets s" by (induction rule: rtranclp_induct) (auto intro: orderly_step)
  with assms(2) show ?thesis by (simp add: orderly_def)
qed

subsection \<open>There is a run in which all is uploaded\<close>

lemma becomes_same:
  "becomes (becomes s i u) i v = becomes s i v"
  "po_uploaders s ! i = u \<Longrightarrow> becomes s i u = s"
  by (auto simp: becomes_def)

lemma reads_all:
  "i < length (po_uploaders s) \<Longrightarrow> po_uploaders s ! i = Reading b acc \<Longrightarrow> \<not> po_aborted s \<Longrightarrow>
     list_all (\<lambda>pk. rd (fst pk) \<noteq> None) b \<Longrightarrow>
     (uploader_step rd)\<^sup>*\<^sup>* s (becomes s i (Sending (acc @ map (reads rd) b)))"
proof (induction b arbitrary: s acc)
  case Nil
  with uploader_step.all_read [of i s acc rd] show ?case by simp
next
  case (Cons pk b)
  obtain path key bytes where pk: "pk = (path, key)" "rd path = Some bytes" using Cons.prems(4) by (cases pk) auto
  let ?t = "becomes s i (Reading b (acc @ [reads rd pk]))"
  have "uploader_step rd s ?t"
    using uploader_step.read_file [of i s path key b acc rd bytes "acc @ [reads rd pk]"] Cons.prems pk
    by (simp add: reads_def)
  moreover have "(uploader_step rd)\<^sup>*\<^sup>* ?t (becomes ?t i (Sending ((acc @ [reads rd pk]) @ map (reads rd) b)))"
    by (rule Cons.IH) (use Cons.prems in simp_all)
  ultimately show ?case by (simp add: becomes_same converse_rtranclp_into_rtranclp)
qed

lemma one_bucket:
  assumes "i < length (po_uploaders s)" "po_uploaders s ! i = Ready" "\<not> po_aborted s" "po_buckets s = b # bs"
    "list_all (\<lambda>pk. rd (fst pk) \<noteq> None) b"
  shows "\<exists>t. (uploader_step rd)\<^sup>*\<^sup>* s t \<and> po_buckets t = bs \<and> po_uploaders t = po_uploaders s \<and> \<not> po_aborted t"
proof -
  define t1 where "t1 = becomes (s\<lparr>po_buckets := bs\<rparr>) i (Reading b [])"
  define t2 where "t2 = becomes t1 i (Sending (map (reads rd) b))"
  define t3 where "t3 = becomes (t2\<lparr>po_sent := po_sent t2 @ putKVBulkKeyValue (map (reads rd) b)\<rparr>) i Ready"
  have "uploader_step rd s t1" unfolding t1_def using assms by (intro uploader_step.take_bucket)
  moreover have "(uploader_step rd)\<^sup>*\<^sup>* t1 t2"
    using reads_all [of i t1 b "[]" rd] assms by (simp add: t1_def t2_def)
  moreover have "uploader_step rd t2 t3"
    unfolding t3_def by (rule uploader_step.sent) (use assms(1) in \<open>simp_all add: t2_def t1_def\<close>)
  ultimately have "(uploader_step rd)\<^sup>*\<^sup>* s t3"
    by (meson converse_rtranclp_into_rtranclp rtranclp.rtrancl_into_rtrancl)
  moreover have "po_uploaders t3 = po_uploaders s"
    using assms(1,2) by (simp add: t3_def t2_def t1_def list_update_same_conv)
  ultimately show ?thesis using assms(3) by (auto simp: t3_def t2_def t1_def)
qed

lemma every_bucket:
  "0 < length (po_uploaders s) \<Longrightarrow> po_uploaders s ! 0 = Ready \<Longrightarrow> \<not> po_aborted s \<Longrightarrow>
     list_all (list_all (\<lambda>pk. rd (fst pk) \<noteq> None)) (po_buckets s) \<Longrightarrow>
     \<exists>t. (uploader_step rd)\<^sup>*\<^sup>* s t \<and> po_buckets t = [] \<and> po_uploaders t = po_uploaders s \<and> \<not> po_aborted t"
proof (induction "po_buckets s" arbitrary: s)
  case (Cons b bs)
  from one_bucket [OF Cons.prems(1-3) Cons.hyps(2) [symmetric]] Cons.prems(4) Cons.hyps(2)
  obtain t where t: "(uploader_step rd)\<^sup>*\<^sup>* s t" "po_buckets t = bs" "po_uploaders t = po_uploaders s" "\<not> po_aborted t"
    by (metis list.pred_inject(2))
  moreover have "list_all (list_all (\<lambda>pk. rd (fst pk) \<noteq> None)) (po_buckets t)"
    using Cons.prems(4) Cons.hyps(2) t(2) by (metis list.pred_inject(2))
  ultimately show ?case using Cons.hyps(1) [of t] Cons.prems by (metis rtranclp_trans)
qed auto

lemma all_stop:
  "po_buckets s = [] \<Longrightarrow> \<not> po_aborted s \<Longrightarrow> list_all (\<lambda>u. u = Ready \<or> u = Stopped) (po_uploaders s) \<Longrightarrow>
     \<exists>t. (uploader_step rd)\<^sup>*\<^sup>* s t \<and> all_uploaded t"
proof (induction "pool_weight s" arbitrary: s rule: less_induct)
  case less
  show ?case
  proof (cases "Ready \<in> set (po_uploaders s)")
    case True
    then obtain i where i: "i < length (po_uploaders s)" "po_uploaders s ! i = Ready" by (auto simp: in_set_conv_nth)
    let ?t = "becomes s i Stopped"
    have step: "uploader_step rd s ?t" using i less.prems(1) by (intro uploader_step.stop) simp_all
    have "list_all (\<lambda>u. u = Ready \<or> u = Stopped) (po_uploaders ?t)"
      using less.prems(3) by (auto simp: list_all_iff dest!: set_update_subset_insert [THEN subsetD])
    with less.hyps [OF step_weight [OF step]] less.prems(1,2)
    obtain t where "(uploader_step rd)\<^sup>*\<^sup>* ?t t" "all_uploaded t" by auto
    with step show ?thesis by (meson converse_rtranclp_into_rtranclp)
  next
    case False
    with less.prems have "all_uploaded s" by (auto simp: all_uploaded_def list_all_iff)
    then show ?thesis by blast
  qed
qed

lemma uploaders_can_finish:
  assumes "list_all (list_all (\<lambda>pk. rd (fst pk) \<noteq> None)) buckets"
  shows "\<exists>s. (uploader_step rd)\<^sup>*\<^sup>* (startUploaders buckets) s \<and> all_uploaded s"
proof -
  let ?s = "startUploaders buckets"
  have "0 < length (po_uploaders ?s)" "po_uploaders ?s ! 0 = Ready" "\<not> po_aborted ?s" "po_buckets ?s = buckets"
    by (simp_all add: startUploaders_def MAX_BATCH_OPERATIONS_def)
  with every_bucket [of ?s rd] assms
  obtain t where t: "(uploader_step rd)\<^sup>*\<^sup>* ?s t" "po_buckets t = []" "po_uploaders t = po_uploaders ?s" "\<not> po_aborted t"
    by auto
  moreover have "list_all (\<lambda>u. u = Ready \<or> u = Stopped) (po_uploaders t)"
    by (simp add: t(3) startUploaders_def list_all_iff)
  ultimately show ?thesis using all_stop [of t rd] by (meson rtranclp_trans)
qed

definition uploads_over :: "upload_pool \<Rightarrow> bool" where
  "uploads_over s \<longleftrightarrow>
     list_all (\<lambda>u. u = Stopped \<or> u = Failed) (po_uploaders s) \<and> (Failed \<in> set (po_uploaders s) \<longrightarrow> po_aborted s)"

text \<open>
  C18: The uploaders of a site always end: no run goes on forever, and where nothing can go on every uploader
  has stopped or failed, and a failure has aborted the others.
\<close>

theorem uploaders_end:
  "wfp (\<lambda>t s. uploader_step rd s t) \<and> ((\<exists>t. uploader_step rd s t) \<or> uploads_over s)"
  using steps_wf stuck_uploaders [of rd s] by (auto simp: uploads_over_def)

end
