(* ===== verification/SiteProperties.thy ===== *)
theory SiteProperties
  imports SiteUploaders
begin

text \<open>
  What synchronising a Workers Site sends: the files it selects, in buckets within the limits of the API,
  and nothing against a key of the manifest.
\<close>

subsection \<open>Sizes\<close>

lemma length_b64_pack: "length (b64_pack xs) = 4 * ((length xs + 2) div 3)"
  by (induction xs rule: b64_pack.induct) (auto, presburger)

lemma length_base64Encode: "length (base64Encode s) = 4 * ((length s + 2) div 3)"
  by (simp add: base64Encode_def length_b64_pack)

definition bucket_size :: "(string \<Rightarrow> string option) \<Rightarrow> path_key list \<Rightarrow> nat" where
  "bucket_size rd b = sum_list (map (\<lambda>pk. length (kv_value (reads rd pk))) b)"

definition fits :: "(string \<Rightarrow> string option) \<Rightarrow> path_key list \<Rightarrow> bool" where
  "fits rd b \<longleftrightarrow> length b \<le> MAX_BUCKET_KEYS \<and> bucket_size rd b \<le> MAX_BUCKET_SIZE"

lemma bucket_size_simps [simp]:
  "bucket_size rd [] = 0"
  "bucket_size rd (b @ [pk]) = bucket_size rd b + length (kv_value (reads rd pk))"
  by (simp_all add: bucket_size_def)

subsection \<open>The plan\<close>

definition asset_path :: "site_host \<Rightarrow> legacyAssetPaths \<Rightarrow> string \<times> string \<Rightarrow> string" where
  "asset_path h paths f = relativeAsset h paths (fst f)"

definition asset_key :: "site_host \<Rightarrow> legacyAssetPaths \<Rightarrow> string \<times> string \<Rightarrow> string" where
  "asset_key h paths f = hashAsset (sh_hasher h) (asset_path h paths f) (base64Encode (snd f))"

definition manifest_key :: "site_host \<Rightarrow> legacyAssetPaths \<Rightarrow> string \<times> string \<Rightarrow> string" where
  "manifest_key h paths f = urlSafe (asset_path h paths f)"

definition selected_files :: "site_host \<Rightarrow> legacyAssetPaths \<Rightarrow> (string \<times> string) set \<Rightarrow> (string \<times> string) set" where
  "selected_files h paths fs = {f \<in> fs. selected h paths (asset_path h paths f)}"

lemma planFile_cases:
  assumes "planFile h paths f p = Inr q"
  obtains (skipped) "\<not> selected h paths (asset_path h paths f)" "q = p"
  | (planned) p' where "selected h paths (asset_path h paths f)" "length (snd f) \<le> 25 * 1024 * 1024"
      "p' = (if asset_key h paths f \<notin> set (sp_stale p)
             then planUpload (length (base64Encode (snd f))) (fst f, asset_key h paths f) p
             else p\<lparr>sp_skips := sp_skips p + 1\<rparr>)"
      "q = p'\<lparr>sp_stale := filter (\<lambda>k. k \<noteq> asset_key h paths f) (sp_stale p'),
              sp_manifest := addToManifest (manifest_key h paths f) (asset_key h paths f) (sp_manifest p')\<rparr>"
proof (cases "selected h paths (asset_path h paths f)")
  case False
  with assms show ?thesis by (intro skipped) (auto simp: planFile_def asset_path_def split: prod.splits)
next
  case True
  show ?thesis
    by (rule planned [OF True _ refl])
      (use assms True in \<open>cases f, auto simp: planFile_def asset_path_def asset_key_def manifest_key_def Let_def
         validateAssetSize_def check_def split: if_splits\<close>)+
qed

lemma planUpload_fields [simp]:
  "sp_stale (planUpload n pk p) = sp_stale p"
  "sp_manifest (planUpload n pk p) = sp_manifest p"
  "concat (uploadBuckets (planUpload n pk p)) = concat (uploadBuckets p) @ [pk]"
  by (simp_all add: planUpload_def Let_def uploadBuckets_def)

lemma uploadBuckets_other [simp]:
  "uploadBuckets (p\<lparr>sp_skips := n\<rparr>) = uploadBuckets p"
  "uploadBuckets (p\<lparr>sp_stale := ks, sp_manifest := m\<rparr>) = uploadBuckets p"
  by (simp_all add: uploadBuckets_def)

text \<open>The plan after the files \<open>fs\<close>.\<close>

definition plan_covers :: "site_host \<Rightarrow> legacyAssetPaths \<Rightarrow> string set \<Rightarrow> (string \<times> string) set \<Rightarrow> sync_plan \<Rightarrow> bool" where
  "plan_covers h paths names fs p \<longleftrightarrow>
     set (concat (uploadBuckets p)) \<subseteq> (\<lambda>f. (fst f, asset_key h paths f)) ` selected_files h paths fs \<and>
     (\<forall>f \<in> selected_files h paths fs.
        asset_key h paths f \<in> names \<or> (fst f, asset_key h paths f) \<in> set (concat (uploadBuckets p))) \<and>
     set (sp_stale p) = names - asset_key h paths ` selected_files h paths fs"

definition manifest_covers :: "site_host \<Rightarrow> legacyAssetPaths \<Rightarrow> (string \<times> string) set \<Rightarrow> sync_plan \<Rightarrow> bool" where
  "manifest_covers h paths fs p \<longleftrightarrow>
     set (sp_manifest p) \<subseteq> (\<lambda>f. (manifest_key h paths f, asset_key h paths f)) ` selected_files h paths fs \<and>
     manifest_key h paths ` selected_files h paths fs - {''__proto__''} \<subseteq> fst ` set (sp_manifest p)"

definition plan_fits :: "(string \<Rightarrow> string option) \<Rightarrow> sync_plan \<Rightarrow> bool" where
  "plan_fits rd p \<longleftrightarrow>
     (\<forall>b \<in> set (sp_buckets p). fits rd b) \<and> fits rd (sp_bucket p) \<and> sp_size p = bucket_size rd (sp_bucket p)"

lemma selected_insert:
  "selected_files h paths (insert f fs) =
     (if selected h paths (asset_path h paths f) then insert f (selected_files h paths fs) else selected_files h paths fs)"
  by (auto simp: selected_files_def)

lemma plan_covers_step:
  assumes "planFile h paths f p = Inr q" "plan_covers h paths names fs p"
  shows "plan_covers h paths names (insert f fs) q"
  using assms(1)
proof (cases rule: planFile_cases)
  case skipped
  with assms(2) show ?thesis by (simp add: plan_covers_def selected_insert)
next
  case (planned p')
  show ?thesis
  proof (cases "asset_key h paths f \<in> set (sp_stale p)")
    case True
    then have "asset_key h paths f \<in> names" using assms(2) by (auto simp: plan_covers_def)
    with planned True assms(2) show ?thesis by (auto simp: plan_covers_def selected_insert)
  next
    case False
    with planned assms(2) show ?thesis unfolding plan_covers_def by (simp add: selected_insert) blast
  qed
qed

lemma set_update_subset: "set (AList.update k v m) \<subseteq> insert (k, v) (set m)"
  by (induction m) auto

lemma manifest_covers_step:
  assumes "planFile h paths f p = Inr q" "manifest_covers h paths fs p"
  shows "manifest_covers h paths (insert f fs) q"
  using assms(1)
proof (cases rule: planFile_cases)
  case skipped
  with assms(2) show ?thesis by (simp add: manifest_covers_def selected_insert)
next
  case (planned p')
  define m where "m = addToManifest (manifest_key h paths f) (asset_key h paths f) (sp_manifest p)"
  have q: "sp_manifest q = m" using planned by (simp add: m_def)
  have "set m \<subseteq> insert (manifest_key h paths f, asset_key h paths f) (set (sp_manifest p))"
    "fst ` set (sp_manifest p) \<subseteq> fst ` set m"
    "manifest_key h paths f \<noteq> ''__proto__'' \<Longrightarrow> manifest_key h paths f \<in> fst ` set m"
    using set_update_subset [of "manifest_key h paths f" "asset_key h paths f" "sp_manifest p"]
    by (auto simp: m_def addToManifest_def update_keys simp flip: set_map)
  with assms(2) planned(1) show ?thesis
    unfolding manifest_covers_def q selected_insert by simp blast
qed

lemma planUpload_fits:
  assumes "plan_fits rd p" "length (kv_value (reads rd pk)) = n" "n \<le> MAX_BUCKET_SIZE"
  shows "plan_fits rd (planUpload n pk p)"
  using assms
  by (auto simp: plan_fits_def planUpload_def Let_def fits_def MAX_BUCKET_KEYS_def BATCH_KEY_MAX_def API_MAX_def)

lemma plan_fits_step:
  assumes "planFile h paths f p = Inr q" "plan_fits rd p" "rd (fst f) = Some (snd f)"
  shows "plan_fits rd q"
  using assms(1)
proof (cases rule: planFile_cases)
  case skipped
  with assms(2) show ?thesis by simp
next
  case (planned p')
  have "length (base64Encode (snd f)) \<le> MAX_BUCKET_SIZE"
    using planned(2) by (simp add: length_base64Encode MAX_BUCKET_SIZE_def)
  then have "plan_fits rd (planUpload (length (base64Encode (snd f))) (fst f, asset_key h paths f) p)"
    using assms by (intro planUpload_fits) (simp_all add: reads_def asset_value_def)
  then have "plan_fits rd p'" using planned(3) assms(2) by (simp add: plan_fits_def)
  with planned(4) show ?thesis by (simp add: plan_fits_def)
qed

lemma planFiles_covers:
  "planFiles h paths fs p = Inr q \<Longrightarrow> plan_covers h paths names S p \<Longrightarrow> manifest_covers h paths S p \<Longrightarrow>
     plan_covers h paths names (set fs \<union> S) q \<and> manifest_covers h paths (set fs \<union> S) q"
proof (induction fs arbitrary: p S)
  case (Cons f fs)
  from Cons.prems(1) obtain p' where p': "planFile h paths f p = Inr p'" "planFiles h paths fs p' = Inr q" by auto
  from Cons.IH [OF p'(2) plan_covers_step [OF p'(1) Cons.prems(2)] manifest_covers_step [OF p'(1) Cons.prems(3)]]
  show ?case by simp
qed simp

lemma planFiles_fits:
  "planFiles h paths fs p = Inr q \<Longrightarrow> plan_fits rd p \<Longrightarrow> list_all (\<lambda>f. rd (fst f) = Some (snd f)) fs \<Longrightarrow>
     plan_fits rd q"
proof (induction fs arbitrary: p)
  case (Cons f fs)
  from Cons.prems(1) obtain p' where p': "planFile h paths f p = Inr p'" "planFiles h paths fs p' = Inr q" by auto
  from Cons.IH [OF p'(2) plan_fits_step [OF p'(1) Cons.prems(2)]] Cons.prems(3) show ?case by simp
qed simp

definition site_files :: "legacyAssetPaths \<Rightarrow> dir_entry list \<Rightarrow> (string \<times> string) list" where
  "site_files paths tree = getFilesInFolder (assetDirectory paths) tree"

lemma planSync_covers:
  assumes "planSync h paths tree infos = Inr p"
  shows "plan_covers h paths (set (map ki_name infos)) (set (site_files paths tree)) p"
    "manifest_covers h paths (set (site_files paths tree)) p"
proof -
  have "plan_covers h paths (set (map ki_name infos)) {} (emptyPlan infos)" "manifest_covers h paths {} (emptyPlan infos)"
    by (simp_all add: plan_covers_def manifest_covers_def emptyPlan_def selected_files_def uploadBuckets_def)
  with planFiles_covers [of h paths "site_files paths tree" "emptyPlan infos" p _ "{}"] assms
  show "plan_covers h paths (set (map ki_name infos)) (set (site_files paths tree)) p"
    "manifest_covers h paths (set (site_files paths tree)) p"
    by (simp_all add: planSync_def site_files_def)
qed

lemma planSync_fits:
  assumes "planSync h paths tree infos = Inr p" "list_all (\<lambda>f. rd (fst f) = Some (snd f)) (site_files paths tree)"
    and "b \<in> set (uploadBuckets p)"
  shows "fits rd b"
proof -
  have "plan_fits rd (emptyPlan infos)" by (simp add: plan_fits_def emptyPlan_def fits_def)
  with planFiles_fits [of h paths "site_files paths tree" "emptyPlan infos" p rd] assms(1,2)
  have "plan_fits rd p" by (simp add: planSync_def site_files_def)
  with assms(3) show ?thesis by (auto simp: plan_fits_def uploadBuckets_def split: if_splits)
qed

subsection \<open>Requests\<close>

fun delete_keys :: "kv_request list \<Rightarrow> string list" where
  "delete_keys [] = []"
| "delete_keys (BulkDelete ks # rs) = ks @ delete_keys rs"
| "delete_keys (_ # rs) = delete_keys rs"

text \<open>A request may change the values of these keys.\<close>

fun removes :: "string \<Rightarrow> kv_request \<Rightarrow> bool" where
  "removes key (BulkDelete ks) \<longleftrightarrow> key \<in> set ks"
| "removes key (PutValue k ps body) \<longleftrightarrow> k = encodeURIComponent key"
| "removes key (DeleteValue k) \<longleftrightarrow> k = encodeURIComponent key"
| "removes key _ \<longleftrightarrow> False"

fun key_limit :: "kv_request \<Rightarrow> bool" where
  "key_limit (BulkPut kvs) \<longleftrightarrow> length kvs \<le> API_MAX div 2"
| "key_limit (BulkDelete ks) \<longleftrightarrow> length ks \<le> API_MAX div 2"
| "key_limit _ \<longleftrightarrow> True"

fun size_limit :: "kv_request \<Rightarrow> bool" where
  "size_limit (BulkPut kvs) \<longleftrightarrow> sum_list (map (\<lambda>kv. length (kv_value kv)) kvs) \<le> 98000000"
| "size_limit _ \<longleftrightarrow> True"

text \<open>The files read the same when they are uploaded as when they were hashed.\<close>

definition unchanged :: "(string \<Rightarrow> string option) \<Rightarrow> dir_entry list \<Rightarrow> sync_args \<Rightarrow> bool" where
  "unchanged rd tree args \<longleftrightarrow>
     (case sa_siteAssets args of
        None \<Rightarrow> True
      | Some paths \<Rightarrow> list_all (\<lambda>f. rd (fst f) = Some (snd f)) (site_files paths tree))"

lemma created_namespace:
  "createKVNamespaceIfNotAlreadyExisting title an = (ns, created) \<Longrightarrow> created = [] \<or> created = [CreateNamespace title]"
  by (auto simp: createKVNamespaceIfNotAlreadyExisting_def split: option.splits)

lemma stale_removes:
  assumes "r \<in> set (staleRequests ttl current infos stale)" "removes key r"
  shows "\<exists>k \<in> set stale. encodeURIComponent k = encodeURIComponent key"
proof -
  have "\<exists>k \<in> set stale. encodeURIComponent k = encodeURIComponent key"
    if "r \<in> set (deleteKVBulkKeyValue stale)"
  proof -
    from that obtain ks where "r = BulkDelete ks" "ks \<in> set (slices BATCH_KEY_MAX stale)"
      by (auto simp: deleteKVBulkKeyValue_def)
    with assms(2) have "key \<in> set (concat (slices BATCH_KEY_MAX stale))" by auto
    then show ?thesis by (auto simp: concat_slices BATCH_KEY_MAX_def API_MAX_def)
  qed
  moreover have "\<exists>k \<in> set stale. encodeURIComponent k = encodeURIComponent key"
    if "r = expireAsset n current k" "k \<in> set stale" for n k
    using that assms(2) by (auto simp: expireAsset_def putKVKeyValue_def)
  ultimately show ?thesis using assms(1) by (auto simp: staleRequests_def split: option.splits if_splits)
qed

lemma stale_limits: "r \<in> set (staleRequests ttl current infos stale) \<Longrightarrow> key_limit r \<and> size_limit r"
proof -
  have "key_limit r \<and> size_limit r" if "r \<in> set (deleteKVBulkKeyValue stale)"
    using that length_slices by (auto simp: deleteKVBulkKeyValue_def BATCH_KEY_MAX_def)
  then show "r \<in> set (staleRequests ttl current infos stale) \<Longrightarrow> key_limit r \<and> size_limit r"
    by (auto simp: staleRequests_def expireAsset_def putKVKeyValue_def split: option.splits if_splits)
qed

lemma sum_list_sublist:
  fixes f :: "'a \<Rightarrow> nat"
  shows "sublist xs ys \<Longrightarrow> sum_list (map f xs) \<le> sum_list (map f ys)"
  by (auto simp: sublist_def)

lemma part_limits:
  assumes "part_of_bucket rd buckets r"
  shows "key_limit r" "(\<And>b. b \<in> set buckets \<Longrightarrow> fits rd b) \<Longrightarrow> size_limit r"
proof -
  from assms obtain kvs b where r: "r = BulkPut kvs" "length kvs \<le> BATCH_KEY_MAX" "b \<in> set buckets"
    "sublist kvs (map (reads rd) b)" by (auto simp: part_of_bucket_def)
  then show "key_limit r" by (simp add: BATCH_KEY_MAX_def)
  have "sum_list (map (\<lambda>kv. length (kv_value kv)) kvs) \<le> bucket_size rd b"
    using sum_list_sublist [OF r(4), of "\<lambda>kv. length (kv_value kv)"] by (simp add: bucket_size_def comp_def)
  with r(1,3) show "(\<And>b. b \<in> set buckets \<Longrightarrow> fits rd b) \<Longrightarrow> size_limit r"
    by (force simp: fits_def MAX_BUCKET_SIZE_def)
qed

text \<open>The requests of a synchronisation: those for the namespace, those of the uploaders and those for old files.\<close>

lemma sync_requests_cases:
  assumes "syncLegacyAssets h tree rd an args outcome requests" "r \<in> set requests"
  obtains (created) title where "r = CreateNamespace title"
  | (uploaded) paths p where "sa_siteAssets args = Some paths" "planSync h paths tree (an_keys an) = Inr p"
      "part_of_bucket rd (uploadBuckets p) r"
  | (stale) ttl current infos stale where "r \<in> set (staleRequests ttl current infos stale)"
proof -
  have made: "\<exists>title. x = CreateNamespace title"
    if "createKVNamespaceIfNotAlreadyExisting title an = (ns, reqs)" "x \<in> set reqs" for title ns reqs x
    using created_namespace [OF that(1)] that(2) by auto
  show thesis
    using assms
    by (cases rule: syncLegacyAssets.cases)
      (auto dest!: made in_set_takeD dest: sent_orderly intro: created uploaded stale)
qed

text \<open>
  C17: Whatever the outcome, every bulk request has at most half the keys the API takes; and if the files
  read the same when they are uploaded as when they were hashed, it has at most 98 MB of values. (A file that
  grows in between may exceed the size.)
\<close>

theorem site_requests_bounded:
  assumes "syncLegacyAssets h tree rd an args outcome requests"
  shows "list_all key_limit requests \<and> (unchanged rd tree args \<longrightarrow> list_all size_limit requests)"
proof -
  have "key_limit r \<and> (unchanged rd tree args \<longrightarrow> size_limit r)" if "r \<in> set requests" for r
    using assms that
  proof (cases rule: sync_requests_cases)
    case (uploaded paths p)
    then show ?thesis
      using part_limits [OF uploaded(3)] planSync_fits [OF uploaded(2)] by (simp add: unchanged_def)
  next
    case stale
    then show ?thesis by (simp add: stale_limits)
  qed simp
  then show ?thesis by (simp add: list_all_iff)
qed

lemma no_values:
  "createKVNamespaceIfNotAlreadyExisting title an = (ns, created) \<Longrightarrow> put_values created = [] \<and> delete_keys created = []"
  "put_values (staleRequests ttl current infos stale) = []"
proof -
  show "createKVNamespaceIfNotAlreadyExisting title an = (ns, created) \<Longrightarrow> put_values created = [] \<and> delete_keys created = []"
    using created_namespace [of title an ns created] by auto
  have 1: "put_values (map BulkDelete kss) = []" for kss by (induction kss) auto
  have 2: "put_values (map (expireAsset n current) ks) = []" for n ks
    by (induction ks) (auto simp: expireAsset_def putKVKeyValue_def)
  show "put_values (staleRequests ttl current infos stale) = []"
    by (auto simp: staleRequests_def deleteKVBulkKeyValue_def 1 2 split: option.splits)
qed

lemma delete_keys_append [simp]: "delete_keys (rs @ rs') = delete_keys rs @ delete_keys rs'"
  by (induction rs rule: delete_keys.induct) auto

lemma delete_keys_bulk: "delete_keys (deleteKVBulkKeyValue ks) = ks"
proof -
  have "delete_keys (map BulkDelete kss) = concat kss" for kss by (induction kss) auto
  then show ?thesis by (simp add: deleteKVBulkKeyValue_def concat_slices BATCH_KEY_MAX_def API_MAX_def)
qed

lemma sent_no_deletes:
  assumes "\<And>r. r \<in> set rs \<Longrightarrow> part_of_bucket rd buckets r"
  shows "delete_keys rs = []" "r \<in> set rs \<Longrightarrow> \<not> removes key r"
proof -
  have bulk: "\<exists>kvs. r = BulkPut kvs" if "r \<in> set rs" for r
    using assms [OF that] by (auto simp: part_of_bucket_def)
  have "\<forall>r \<in> set rs. \<exists>kvs. r = BulkPut kvs \<Longrightarrow> delete_keys rs = []" for rs by (induction rs) auto
  with bulk show "delete_keys rs = []" by blast
  show "\<not> removes key r" if "r \<in> set rs" using bulk [OF that] by auto
qed

text \<open>What was sent when a site was synchronised.\<close>

lemma synchronised_requests:
  assumes "syncLegacyAssets h tree rd an args (Inr (Some manifest, Some ns)) requests" "sa_siteAssets args = Some paths"
  obtains p and s :: upload_pool and created where "planSync h paths tree (an_keys an) = Inr p" "manifest = sp_manifest p"
    "\<And>pk. pk \<in> set (concat (uploadBuckets p)) \<Longrightarrow> rd (fst pk) \<noteq> None"
    "mset (put_values (po_sent s)) = image_mset (reads rd) (mset (concat (uploadBuckets p)))"
    "\<And>r. r \<in> set (po_sent s) \<Longrightarrow> part_of_bucket rd (uploadBuckets p) r"
    "createKVNamespaceIfNotAlreadyExisting (sitesTitle (sa_scriptName args) (sa_preview args)) an = (ns, created)"
    "requests = created @ po_sent s @ staleRequests (sa_oldAssetTTL args) (an_current an) (an_keys an) (sp_stale p)"
  using assms(1)
proof (cases rule: syncLegacyAssets.cases)
  case (synchronised paths' created p s)
  have "rd (fst pk) \<noteq> None" if "pk \<in> set (concat (uploadBuckets p))" for pk
    by (rule uploaded_readable) (use synchronised that in auto)
  with synchronised assms(2) show ?thesis
    by (intro that [of p s created]) (auto intro: uploaded_conserved(2) sent_orderly)
qed

text \<open>
  C16: After a site was synchronised, the manifest has the path of every selected file (except one named
  \<open>__proto__\<close>, which is left out) and no others, with the key that hashes the content the file had when the
  directory was listed; the key was in the namespace before, or the file could be read again and the
  content it had then was uploaded for the key. Requests that remove keys or let them expire name listed keys
  of no file only, and without a time to live exactly those are deleted.
\<close>

theorem site_sync_serves:
  assumes "syncLegacyAssets h tree rd an args (Inr (Some manifest, Some ns)) requests"
    and "sa_siteAssets args = Some paths"
  defines "files \<equiv> selected_files h paths (set (site_files paths tree))"
    and "stale \<equiv> ki_name ` set (an_keys an) - asset_key h paths ` selected_files h paths (set (site_files paths tree))"
  shows "manifest_key h paths ` files - {''__proto__''} \<subseteq> fst ` set manifest \<and>
     set manifest \<subseteq> (\<lambda>f. (manifest_key h paths f, asset_key h paths f)) ` files \<and>
     (\<forall>f \<in> files. asset_key h paths f \<in> ki_name ` set (an_keys an) \<or>
        (\<exists>bytes. rd (fst f) = Some bytes \<and>
           asset_value (asset_key h paths f) bytes \<in> set (put_values requests))) \<and>
     (\<forall>r \<in> set requests. \<forall>key. removes key r \<longrightarrow> encodeURIComponent key \<in> encodeURIComponent ` stale) \<and>
     (sa_oldAssetTTL args = None \<longrightarrow> set (delete_keys requests) = stale)"
proof -
  obtain p and s :: upload_pool and created where
    p: "planSync h paths tree (an_keys an) = Inr p" "manifest = sp_manifest p"
      "\<And>pk. pk \<in> set (concat (uploadBuckets p)) \<Longrightarrow> rd (fst pk) \<noteq> None" and
    sent: "mset (put_values (po_sent s)) = image_mset (reads rd) (mset (concat (uploadBuckets p)))"
      "\<And>r. r \<in> set (po_sent s) \<Longrightarrow> part_of_bucket rd (uploadBuckets p) r" and
    created: "createKVNamespaceIfNotAlreadyExisting (sitesTitle (sa_scriptName args) (sa_preview args)) an = (ns, created)" and
    requests: "requests = created @ po_sent s @ staleRequests (sa_oldAssetTTL args) (an_current an) (an_keys an) (sp_stale p)"
    by (rule synchronised_requests [OF assms(1,2)]) (rule that)
  note covers = planSync_covers [OF p(1), folded files_def, unfolded plan_covers_def manifest_covers_def]
  have st: "set (sp_stale p) = stale" using covers(1) by (simp add: stale_def files_def)
  have vals: "set (put_values requests) = reads rd ` set (concat (uploadBuckets p))"
    using no_values(1) [OF created] no_values(2) arg_cong [OF sent(1), of set_mset] by (simp add: requests)
  have uploaded: "\<exists>bytes. rd (fst f) = Some bytes \<and> asset_value (asset_key h paths f) bytes \<in> set (put_values requests)"
    if sent_f: "(fst f, asset_key h paths f) \<in> set (concat (uploadBuckets p))" for f
  proof -
    obtain bytes where "rd (fst f) = Some bytes" using p(3) [OF sent_f] by auto
    with imageI [OF sent_f, of "reads rd"] show ?thesis
      unfolding vals [symmetric] by (simp add: reads_Some)
  qed
  have removed: "encodeURIComponent key \<in> encodeURIComponent ` stale" if "r \<in> set requests" "removes key r" for r key
  proof -
    have "r \<in> set (staleRequests (sa_oldAssetTTL args) (an_current an) (an_keys an) (sp_stale p))"
      using that created_namespace [OF created] sent_no_deletes(2) [OF sent(2)] by (auto simp: requests)
    from stale_removes [OF this that(2)] show ?thesis unfolding st [symmetric] by (metis image_eqI)
  qed
  have deleted: "set (delete_keys requests) = stale" if "sa_oldAssetTTL args = None"
    using that no_values(1) [OF created] sent_no_deletes(1) [OF sent(2)] st
    by (simp add: requests staleRequests_def delete_keys_bulk)
  show ?thesis
  proof (intro conjI ballI allI impI)
    fix f assume f: "f \<in> files"
    with covers(1) have "asset_key h paths f \<in> set (map ki_name (an_keys an)) \<or>
      (fst f, asset_key h paths f) \<in> set (concat (uploadBuckets p))" unfolding files_def by blast
    with uploaded [of f] show "asset_key h paths f \<in> ki_name ` set (an_keys an) \<or>
      (\<exists>bytes. rd (fst f) = Some bytes \<and>
         asset_value (asset_key h paths f) bytes \<in> set (put_values requests))" by auto
  qed (use covers(2) removed deleted p(2) in \<open>simp_all add: files_def\<close>)
qed

subsection \<open>A site\<close>

definition ex_site :: legacyAssetPaths where
  "ex_site = \<lparr>la_baseDirectory = ''/w'', la_assetDirectory = ''public'', la_includePatterns = [], la_excludePatterns = []\<rparr>"

definition ex_site_host :: site_host where
  "ex_site_host = \<lparr>sh_cwd = ''/w'', sh_hasher = (\<lambda>_. ''0123456789abcdef''), sh_matches = (\<lambda>_ _. False)\<rparr>"

definition ex_dir :: "dir_entry list" where
  "ex_dir = [Directory ''js'' [File ''a.js'' ''x''], File ''.git'' []]"

definition ex_files :: "string \<Rightarrow> string option" where
  "ex_files = map_of (site_files ex_site ex_dir)"

definition ex_answers :: site_answers where
  "ex_answers = \<lparr>an_namespaces = [], an_newId = ''n'', an_keys = [\<lparr>ki_name = ''old.1.js'', ki_expiration = None\<rparr>],
     an_current = (\<lambda>_. [])\<rparr>"

definition ex_sync :: sync_args where
  "ex_sync = \<lparr>sa_accountId = Some ''acc'', sa_scriptName = ''w'', sa_siteAssets = Some ex_site, sa_preview = False,
     sa_dryRun = False, sa_oldAssetTTL = None\<rparr>"

lemma ex_site_files: "getFilesInFolder (assetDirectory ex_site) ex_dir = [(''/w/public/js/a.js'', ''x'')]"
  by code_simp

lemma ex_site_asset:
  "relativeAsset ex_site_host ex_site ''/w/public/js/a.js'' = ''js/a.js''"
  "hashAsset (sh_hasher ex_site_host) ''js/a.js'' (base64Encode ''x'') = ''js/a.0123456789.js''"
  "urlSafe ''js/a.js'' = ''js/a.js''"
  "base64Encode ''x'' = ''eA==''"
  by code_simp+

lemma ex_site_selected: "selected ex_site_host ex_site path"
  by (simp add: selected_def createPatternMatcher_def ex_site_def)

definition ex_plan :: sync_plan where
  "ex_plan = \<lparr>sp_stale = [''old.1.js''], sp_manifest = [(''js/a.js'', ''js/a.0123456789.js'')], sp_buckets = [],
     sp_bucket = [(''/w/public/js/a.js'', ''js/a.0123456789.js'')], sp_size = 4, sp_uploads = 1, sp_skips = 0\<rparr>"

lemma ex_site_plan: "planSync ex_site_host ex_site ex_dir (an_keys ex_answers) = Inr ex_plan"
  by (simp add: planSync_def ex_site_files ex_answers_def emptyPlan_def planFile_def Let_def ex_site_asset(1)
      ex_site_asset(2) [unfolded ex_site_asset(4)] ex_site_asset(3,4) ex_site_selected validateAssetSize_def validateAssetKey_def check_def
      planUpload_def MAX_BUCKET_SIZE_def MAX_BUCKET_KEYS_def BATCH_KEY_MAX_def API_MAX_def addToManifest_def ex_plan_def)

lemma ex_plan_readable: "list_all (list_all (\<lambda>pk. ex_files (fst pk) \<noteq> None)) (uploadBuckets ex_plan)"
  by (simp add: ex_files_def site_files_def ex_site_files uploadBuckets_def ex_plan_def)

lemma ex_site_readable: "list_all (\<lambda>f. ex_files (fst f) = Some (snd f)) (site_files ex_site ex_dir)"
  by (simp add: ex_files_def site_files_def ex_site_files)

lemma ex_site_synchronised:
  "\<exists>requests. syncLegacyAssets ex_site_host ex_dir ex_files ex_answers ex_sync
     (Inr (Some [(''js/a.js'', ''js/a.0123456789.js'')], Some ''n'')) requests"
proof -
  obtain s where "(uploader_step ex_files)\<^sup>*\<^sup>* (startUploaders (uploadBuckets ex_plan)) s" "all_uploaded s"
    using uploaders_can_finish [OF ex_plan_readable] by blast
  moreover have "createKVNamespaceIfNotAlreadyExisting (sitesTitle (sa_scriptName ex_sync) (sa_preview ex_sync)) ex_answers
      = (''n'', [CreateNamespace (sitesTitle (sa_scriptName ex_sync) (sa_preview ex_sync))])"
    by (simp add: createKVNamespaceIfNotAlreadyExisting_def ex_answers_def)
  moreover have "sa_siteAssets ex_sync = Some ex_site" "\<not> sa_dryRun ex_sync" "text_given (sa_accountId ex_sync)"
    by (simp_all add: ex_sync_def text_given_def)
  moreover have "sp_manifest ex_plan = [(''js/a.js'', ''js/a.0123456789.js'')]" by (simp add: ex_plan_def)
  ultimately show ?thesis
    using syncLegacyAssets.synchronised [OF _ _ _ _ ex_site_plan] by metis
qed

theorem site_sync_serves_witness:
  "\<exists>requests. syncLegacyAssets ex_site_host ex_dir ex_files ex_answers ex_sync
     (Inr (Some [(''js/a.js'', ''js/a.0123456789.js'')], Some ''n'')) requests \<and>
     set (delete_keys requests) = {''old.1.js''} - asset_key ex_site_host ex_site ` selected_files ex_site_host ex_site
       (set (site_files ex_site ex_dir))"
proof -
  obtain requests where 1: "syncLegacyAssets ex_site_host ex_dir ex_files ex_answers ex_sync
     (Inr (Some [(''js/a.js'', ''js/a.0123456789.js'')], Some ''n'')) requests"
    using ex_site_synchronised by blast
  have 2: "sa_siteAssets ex_sync = Some ex_site" "sa_oldAssetTTL ex_sync = None" "ki_name ` set (an_keys ex_answers) = {''old.1.js''}"
    by (simp_all add: ex_sync_def ex_answers_def)
  from site_sync_serves [OF 1 2(1)] 1 2 show ?thesis by auto
qed

theorem site_requests_bounded_witness:
  "\<exists>requests. syncLegacyAssets ex_site_host ex_dir ex_files ex_answers ex_sync
     (Inr (Some [(''js/a.js'', ''js/a.0123456789.js'')], Some ''n'')) requests \<and>
     list_all key_limit requests \<and> list_all size_limit requests"
proof -
  obtain requests where 1: "syncLegacyAssets ex_site_host ex_dir ex_files ex_answers ex_sync
     (Inr (Some [(''js/a.js'', ''js/a.0123456789.js'')], Some ''n'')) requests"
    using ex_site_synchronised by blast
  have "unchanged ex_files ex_dir ex_sync" using ex_site_readable by (simp add: unchanged_def ex_sync_def)
  with 1 site_requests_bounded [OF 1] show ?thesis by blast
qed

end
