(* ===== verification/R2Validator.thy ===== *)
theory R2Validator
  imports KeyValue
begin

text \<open>
  The data and the validation of the R2 simulator: the request types of
  \<^verbatim>\<open>r2/schemas.worker.ts\<close>, the errors of \<^verbatim>\<open>r2/errors.worker.ts\<close>, the checks of
  \<^verbatim>\<open>r2/validator.worker.ts\<close> and the objects of \<^verbatim>\<open>r2/r2Object.worker.ts\<close>.

  Columns that hold JSON text hold the value here. The digests are a parameter.
\<close>

subsection \<open>Rows and options\<close>

datatype hash_alg = MD5 | SHA1 | SHA256 | SHA384 | SHA512

definition R2_HASH_ALGORITHMS :: "hash_alg list" where
  "R2_HASH_ALGORITHMS = [MD5, SHA1, SHA256, SHA384, SHA512]"

definition hash_name :: "hash_alg \<Rightarrow> string" where
  "hash_name a = (case a of MD5 \<Rightarrow> ''MD5'' | SHA1 \<Rightarrow> ''SHA-1'' | SHA256 \<Rightarrow> ''SHA-256''
                          | SHA384 \<Rightarrow> ''SHA-384'' | SHA512 \<Rightarrow> ''SHA-512'')"

type_synonym checksums = "(hash_alg \<times> string) list"
type_synonym custom_metadata = "(string \<times> string) list"

record r2_http_fields =
  contentType :: "string option"
  contentLanguage :: "string option"
  contentDisposition :: "string option"
  contentEncoding :: "string option"
  cacheControl :: "string option"
  cacheExpiry :: "int option"

definition no_http_fields :: r2_http_fields where
  "no_http_fields = \<lparr>contentType = None, contentLanguage = None, contentDisposition = None,
     contentEncoding = None, cacheControl = None, cacheExpiry = None\<rparr>"

record object_row =
  or_key :: string
  or_blob :: "string option"
  or_version :: string
  or_size :: int
  or_etag :: string
  or_uploaded :: int
  or_checksums :: checksums
  or_http_metadata :: r2_http_fields
  or_custom_metadata :: custom_metadata

datatype upload_state = IN_PROGRESS | COMPLETED | ABORTED

record upload_row =
  ur_upload_id :: string
  ur_key :: string
  ur_http_metadata :: r2_http_fields
  ur_custom_metadata :: custom_metadata
  ur_state :: upload_state

record part_row =
  pr_upload_id :: string
  pr_part_number :: int
  pr_blob :: string
  pr_size :: int
  pr_etag :: string
  pr_checksum_md5 :: string
  pr_object_key :: "string option"

record r2_range =
  r2_offset :: "int option"
  r2_length :: "int option"
  r2_suffix :: "int option"

datatype r2_etag = Strong string | Weak string | Wildcard

record r2_conditional =
  etagMatches :: "r2_etag list option"
  etagDoesNotMatch :: "r2_etag list option"
  uploadedBefore :: "int option"
  uploadedAfter :: "int option"
  secondsGranularity :: bool

record published_part =
  pp_etag :: string
  pp_part :: int

subsection \<open>Objects\<close>

record r2_object =
  o_key :: string
  o_version :: string
  o_size :: int
  o_etag :: string
  o_uploaded :: int
  o_httpMetadata :: r2_http_fields
  o_customMetadata :: custom_metadata
  o_range :: "r2_range option"
  o_checksums :: checksums

text \<open>\<open>HEX_REGEXP\<close> of \<^verbatim>\<open>shared/zod.worker.ts\<close>.\<close>

definition is_hex :: "string \<Rightarrow> bool" where
  "is_hex s \<longleftrightarrow> list_all (\<lambda>c. hex_val c \<noteq> None) s"

definition InternalR2Object :: "object_row \<Rightarrow> r2_range option \<Rightarrow> r2_object" where
  "InternalR2Object row rng =
     \<lparr>o_key = or_key row, o_version = or_version row, o_size = or_size row, o_etag = or_etag row,
      o_uploaded = or_uploaded row, o_httpMetadata = or_http_metadata row,
      o_customMetadata = or_custom_metadata row, o_range = rng,
      o_checksums = (if length (or_etag row) = 32 \<and> is_hex (or_etag row)
                     then AList.update MD5 (or_etag row) (or_checksums row)
                     else or_checksums row)\<rparr>"

record r2_head_response =
  hr_name :: string
  hr_version :: string
  hr_size :: int
  hr_etag :: string
  hr_uploaded :: int
  hr_httpFields :: r2_http_fields
  hr_customFields :: "(string \<times> string) list"
  hr_range :: "r2_range option"
  hr_checksums :: "string option list"

definition rawProperties :: "r2_object \<Rightarrow> r2_head_response" where
  "rawProperties ob =
     \<lparr>hr_name = o_key ob, hr_version = o_version ob, hr_size = o_size ob, hr_etag = o_etag ob,
      hr_uploaded = o_uploaded ob, hr_httpFields = o_httpMetadata ob,
      hr_customFields = o_customMetadata ob, hr_range = o_range ob,
      hr_checksums = map (map_of (o_checksums ob)) R2_HASH_ALGORITHMS\<rparr>"

subsection \<open>Errors\<close>

text \<open>\<open>Other\<close> stands for what is thrown that is not an \<open>R2Error\<close>, such as a failed assertion.\<close>

datatype r2_error =
    InvalidMetadata
  | InternalError
  | NoSuchKey
  | EntityTooLarge
  | EntityTooSmall
  | MetadataTooLarge
  | BadDigest hash_alg bytes bytes
  | InvalidObjectName
  | InvalidMaxKeys
  | NoSuchUpload
  | InvalidPart
  | PreconditionFailed "r2_object option"
  | InvalidRange
  | BadUpload
  | Other error

type_synonym 'a r2res = "r2_error + 'a"

definition r2_code :: "r2_error \<Rightarrow> nat" where
  "r2_code e = (case e of InternalError \<Rightarrow> 500 | NoSuchKey \<Rightarrow> 404 | PreconditionFailed _ \<Rightarrow> 412
     | InvalidRange \<Rightarrow> 416 | BadUpload \<Rightarrow> 500 | Other (HttpError c _) \<Rightarrow> c | Other _ \<Rightarrow> 500 | _ \<Rightarrow> 400)"

definition r2_v4Code :: "r2_error \<Rightarrow> nat option" where
  "r2_v4Code e = (case e of
       InvalidMetadata \<Rightarrow> Some 10029
     | InternalError \<Rightarrow> Some 10001
     | NoSuchKey \<Rightarrow> Some 10007
     | EntityTooLarge \<Rightarrow> Some 100100
     | EntityTooSmall \<Rightarrow> Some 10011
     | MetadataTooLarge \<Rightarrow> Some 10012
     | BadDigest _ _ _ \<Rightarrow> Some 10037
     | InvalidObjectName \<Rightarrow> Some 10020
     | InvalidMaxKeys \<Rightarrow> Some 10022
     | NoSuchUpload \<Rightarrow> Some 10024
     | InvalidPart \<Rightarrow> Some 10025
     | PreconditionFailed _ \<Rightarrow> Some 10031
     | InvalidRange \<Rightarrow> Some 10039
     | BadUpload \<Rightarrow> Some 10048
     | Other _ \<Rightarrow> None)"

definition r2_message :: "r2_error \<Rightarrow> string" where
  "r2_message e = (case e of
       InvalidMetadata \<Rightarrow> ''Metadata missing or invalid''
     | InternalError \<Rightarrow> ''We encountered an internal error. Please try again.''
     | NoSuchKey \<Rightarrow> ''The specified key does not exist.''
     | EntityTooLarge \<Rightarrow> ''Your proposed upload exceeds the maximum allowed object size.''
     | EntityTooSmall \<Rightarrow> ''Your proposed upload is smaller than the minimum allowed object size.''
     | MetadataTooLarge \<Rightarrow> ''Your metadata headers exceed the maximum allowed metadata size.''
     | BadDigest alg provided calculated \<Rightarrow>
         join_with [CHR 0x0A]
           [''The '' @ hash_name alg @ '' checksum you specified did not match what we received.'',
            ''You provided a '' @ hash_name alg @ '' checksum with value: '' @ bytes_hex provided,
            ''Actual '' @ hash_name alg @ '' was: '' @ bytes_hex calculated]
     | InvalidObjectName \<Rightarrow> ''The specified object name is not valid.''
     | InvalidMaxKeys \<Rightarrow> ''MaxKeys params must be positive integer <= 1000.''
     | NoSuchUpload \<Rightarrow> ''The specified multipart upload does not exist.''
     | InvalidPart \<Rightarrow> ''One or more of the specified parts could not be found.''
     | PreconditionFailed _ \<Rightarrow> ''At least one of the pre-conditions you specified did not hold.''
     | InvalidRange \<Rightarrow> ''The requested range is not satisfiable''
     | BadUpload \<Rightarrow> ''There was a problem with the multipart upload.''
     | Other (HttpError _ m) \<Rightarrow> m
     | Other _ \<Rightarrow> [])"

definition attach :: "r2_error \<Rightarrow> r2_object \<Rightarrow> r2_error" where
  "attach e ob = (case e of PreconditionFailed _ \<Rightarrow> PreconditionFailed (Some ob) | _ \<Rightarrow> e)"

record r2_error_response =
  er_status :: nat
  er_message :: string
  er_version :: nat
  er_v4code :: "nat option"
  er_body :: "r2_head_response option"

definition R2Error_toResponse :: "r2_error \<Rightarrow> r2_error_response" where
  "R2Error_toResponse e =
     \<lparr>er_status = r2_code e, er_message = r2_message e, er_version = 1, er_v4code = r2_v4Code e,
      er_body = (case e of PreconditionFailed (Some ob) \<Rightarrow> Some (rawProperties ob) | _ \<Rightarrow> None)\<rparr>"

subsection \<open>Limits\<close>

definition R2_MAX_LIST_KEYS :: int where "R2_MAX_LIST_KEYS = 1000"
definition R2_MAX_KEY_SIZE :: nat where "R2_MAX_KEY_SIZE = 1024"
definition R2_MAX_VALUE_SIZE :: int where "R2_MAX_VALUE_SIZE = 5368709120 - 5242880"
definition R2_MAX_METADATA_SIZE :: nat where "R2_MAX_METADATA_SIZE = 2048"
definition MIN_MULTIPART_PART_SIZE :: int where "MIN_MULTIPART_PART_SIZE = 5 * 1024 * 1024"
definition MIN_MULTIPART_PART_SIZE_TEST :: int where "MIN_MULTIPART_PART_SIZE_TEST = 50"

subsection \<open>Conditions\<close>

definition truncateToSeconds :: "int \<Rightarrow> int" where
  "truncateToSeconds ms = (ms div 1000) * 1000"

fun includesEtag :: "r2_etag list \<Rightarrow> string \<Rightarrow> bool \<Rightarrow> bool" where
  "includesEtag [] etag weakComparison = False"
| "includesEtag (Wildcard # cs) etag weakComparison = True"
| "includesEtag (Strong v # cs) etag weakComparison = (v = etag \<or> includesEtag cs etag weakComparison)"
| "includesEtag (Weak v # cs) etag weakComparison =
     ((v = etag \<and> weakComparison) \<or> includesEtag cs etag weakComparison)"

text \<open>\<open>metadata\<close> is the ETag and the upload time of the existing object, if any.\<close>

definition testR2Conditional :: "r2_conditional \<Rightarrow> (string \<times> int) option \<Rightarrow> bool" where
  "testR2Conditional cond metadata =
     (case metadata of
        None \<Rightarrow> etagMatches cond = None \<and> uploadedAfter cond = None
      | Some (etag, lastModifiedRaw) \<Rightarrow>
          (let ifMatch = (case etagMatches cond of None \<Rightarrow> True | Some es \<Rightarrow> includesEtag es etag False);
               ifNoneMatch = (case etagDoesNotMatch cond of
                                None \<Rightarrow> True | Some es \<Rightarrow> \<not> includesEtag es etag True);
               maybeTruncate = (if secondsGranularity cond then truncateToSeconds else (\<lambda>ms. ms));
               lastModified = maybeTruncate lastModifiedRaw;
               ifModifiedSince =
                 (case uploadedAfter cond of
                    None \<Rightarrow> True
                  | Some t \<Rightarrow> maybeTruncate t < lastModified
                              \<or> (etagDoesNotMatch cond \<noteq> None \<and> ifNoneMatch));
               ifUnmodifiedSince =
                 (case uploadedBefore cond of
                    None \<Rightarrow> True
                  | Some t \<Rightarrow> lastModified < maybeTruncate t
                              \<or> (etagMatches cond \<noteq> None \<and> ifMatch))
           in ifMatch \<and> ifNoneMatch \<and> ifModifiedSince \<and> ifUnmodifiedSince))"

subsection \<open>The validator\<close>

text \<open>
  The length of a string as JavaScript counts it, in UTF-16 code units, read off its UTF-8 bytes: a
  continuation byte counts nothing, the lead byte of a four-byte sequence two. A code unit above 255
  occurs exactly when some byte is at least \<open>0xC4\<close>.
\<close>

definition utf16_length :: "string \<Rightarrow> nat" where
  "utf16_length x = sum_list (map (\<lambda>c. let b = of_char c :: nat
     in if is_cont b then 0 else if 240 \<le> b then 2 else 1) x)"

definition serialisedLength :: "string \<Rightarrow> nat" where
  "serialisedLength x =
     (if list_ex (\<lambda>c. 196 \<le> (of_char c :: nat)) x then utf16_length x * 2 else utf16_length x)"

fun v_hash_loop ::
  "hash_alg list \<Rightarrow> (hash_alg \<Rightarrow> bytes option) \<Rightarrow> (hash_alg \<Rightarrow> bytes option) \<Rightarrow> checksums r2res"
where
  "v_hash_loop [] digests hashes = Inr []"
| "v_hash_loop (alg # algs) digests hashes =
     (case hashes alg of
        None \<Rightarrow> v_hash_loop algs digests hashes
      | Some providedHash \<Rightarrow>
          (case digests alg of
             None \<Rightarrow> Inl (Other AssertionError)
           | Some computedHash \<Rightarrow>
               if providedHash \<noteq> computedHash then Inl (BadDigest alg providedHash computedHash)
               else andThen (v_hash_loop algs digests hashes)
                      (\<lambda>cs. Inr ((alg, bytes_hex computedHash) # cs))))"

definition v_hash ::
  "(hash_alg \<Rightarrow> bytes option) \<Rightarrow> (hash_alg \<Rightarrow> bytes option) \<Rightarrow> checksums r2res"
where
  "v_hash digests hashes = v_hash_loop R2_HASH_ALGORITHMS digests hashes"

definition v_condition :: "(string \<times> int) option \<Rightarrow> r2_conditional option \<Rightarrow> unit r2res" where
  "v_condition meta onlyIf =
     (case onlyIf of
        None \<Rightarrow> Inr ()
      | Some c \<Rightarrow> check (testR2Conditional c meta) (PreconditionFailed None))"

definition v_range ::
  "string option \<Rightarrow> r2_range option \<Rightarrow> int \<Rightarrow> inclusiveRange option r2res"
where
  "v_range rangeHeader rng sz =
     (case rangeHeader of
        Some h \<Rightarrow>
          (case parseRanges h sz of
             Some [r] \<Rightarrow> Inr (Some r)
           | _ \<Rightarrow> Inr None)
      | None \<Rightarrow>
          (case rng of
             None \<Rightarrow> Inr None
           | Some r \<Rightarrow>
               andThen
                 (case r2_suffix r of
                    Some suff \<Rightarrow>
                      if suff \<le> 0 then Inl InvalidRange
                      else (let suff = (if suff > sz then sz else suff)
                            in Inr (Some (sz - suff), Some suff))
                  | None \<Rightarrow> Inr (r2_offset r, r2_length r))
                 (\<lambda>(offset, len).
                    let offset = (case offset of None \<Rightarrow> 0 | Some o' \<Rightarrow> o');
                        len = (case len of None \<Rightarrow> sz - offset | Some l \<Rightarrow> l)
                    in if offset < 0 \<or> offset > sz \<or> len \<le> 0 then Inl InvalidRange
                       else (let len = (if offset + len > sz then sz - offset else len)
                             in Inr (Some (mkRange offset (offset + len - 1)))))))"

definition v_size :: "int \<Rightarrow> unit r2res" where
  "v_size sz = check (\<not> sz > R2_MAX_VALUE_SIZE) EntityTooLarge"

definition v_metadataSize :: "custom_metadata option \<Rightarrow> unit r2res" where
  "v_metadataSize customMetadata =
     (case customMetadata of
        None \<Rightarrow> Inr ()
      | Some kvs \<Rightarrow>
          check (\<not> sum_list (map (\<lambda>(k, v). serialisedLength k + serialisedLength v) kvs) > R2_MAX_METADATA_SIZE)
            MetadataTooLarge)"

definition v_key :: "string \<Rightarrow> unit r2res" where
  "v_key key = check (\<not> length key > R2_MAX_KEY_SIZE) InvalidObjectName"

definition v_limit :: "int \<Rightarrow> unit r2res" where
  "v_limit limit = check (\<not> (limit < 1 \<or> limit > R2_MAX_LIST_KEYS)) InvalidMaxKeys"

subsection \<open>Facts\<close>

lemma includesEtag_iff:
  "includesEtag cs etag weak \<longleftrightarrow>
     Wildcard \<in> set cs \<or> Strong etag \<in> set cs \<or> (weak \<and> Weak etag \<in> set cs)"
  by (induction cs etag weak rule: includesEtag.induct) auto

lemma v_range_header:
  "v_range (Some h) rng sz = Inr (Some r) \<Longrightarrow> parseRanges h sz = Some [r]"
  by (simp add: v_range_def split: option.splits list.splits)

lemma v_range_opts:
  assumes "v_range None (Some q) sz = Inr (Some r)" "0 \<le> sz"
  obtains offset len where "0 \<le> offset" "offset \<le> sz" "0 < len" "r = mkRange offset (min (offset + len) sz - 1)"
proof (cases "r2_suffix q")
  case None
  let ?o = "case r2_offset q of None \<Rightarrow> 0 | Some o' \<Rightarrow> o'"
  let ?l = "case r2_length q of None \<Rightarrow> sz - ?o | Some l \<Rightarrow> l"
  show ?thesis
    using assms None by (intro that [of ?o ?l]) (simp_all add: v_range_def Let_def min_def not_less not_le split: if_splits)
next
  case (Some x)
  with assms that [of "sz - min x sz" "min x sz"] show ?thesis
    by (cases "x \<le> 0"; cases "x \<le> sz") (auto simp: v_range_def Let_def not_less not_le split: if_splits)
qed

lemma v_range_in:
  assumes "v_range h rng sz = Inr (Some r)" "0 \<le> sz"
  shows "0 \<le> rstart r \<and> rend r < sz \<and> (rstart r \<le> rend r \<or> (rstart r = sz \<and> rend r = sz - 1))"
proof (cases h)
  case (Some hd)
  with assms(1) parseRanges_range_in [OF v_range_header assms(2), of hd rng r r] show ?thesis
    by (simp add: range_in_def)
next
  case None
  with assms(1) obtain q where "rng = Some q" by (cases rng) (auto simp: v_range_def)
  with None assms obtain offset len where
    "0 \<le> offset" "offset \<le> sz" "0 < len" "r = mkRange offset (min (offset + len) sz - 1)"
    using v_range_opts [of q sz r] by blast
  then show ?thesis by auto
qed

lemma v_hash_ok:
  "v_hash_loop algs digests hashes = Inr cs \<Longrightarrow>
     alg \<in> set algs \<Longrightarrow> hashes alg = Some h \<Longrightarrow> digests alg = Some h"
  by (induction algs arbitrary: cs) (auto split: option.splits if_splits)

lemma v_hash_bad:
  "v_hash_loop algs digests hashes = Inl (BadDigest alg h c) \<Longrightarrow>
     hashes alg = Some h \<and> digests alg = Some c \<and> h \<noteq> c"
  by (induction algs) (auto simp: andThen_eq_Inl split: option.splits if_splits)

subsection \<open>Properties\<close>

text \<open>
  For an existing object, the conditions are evaluated with the precedence of RFC 7232, section 6:
  an ETag match (strong comparison) decides alone when given and otherwise the unmodified-since time
  does; an ETag mismatch (weak comparison) decides alone when given and otherwise the modified-since
  time does; both must hold. Times are compared in whole seconds when that is asked for.
\<close>

theorem conditional_rfc7232:
  "testR2Conditional cond (Some (etag, uploaded)) \<longleftrightarrow>
     (let t = (if secondsGranularity cond then (\<lambda>ms. ms - ms mod 1000) else (\<lambda>ms. ms)) in
      (case etagMatches cond of
         Some es \<Rightarrow> Wildcard \<in> set es \<or> Strong etag \<in> set es
       | None \<Rightarrow> (case uploadedBefore cond of None \<Rightarrow> True | Some b \<Rightarrow> t uploaded < t b)) \<and>
      (case etagDoesNotMatch cond of
         Some es \<Rightarrow> Wildcard \<notin> set es \<and> Strong etag \<notin> set es \<and> Weak etag \<notin> set es
       | None \<Rightarrow> (case uploadedAfter cond of None \<Rightarrow> True | Some a \<Rightarrow> t a < t uploaded)))"
proof -
  have "truncateToSeconds ms = ms - ms mod 1000" for ms
    by (simp add: truncateToSeconds_def minus_mod_eq_div_mult)
  then show ?thesis
    by (auto simp: testR2Conditional_def Let_def includesEtag_iff split: option.splits)
qed

text \<open>
  Every range the validator accepts lies within the object; it is non-empty unless the requested
  offset is exactly the size of the object.
\<close>

theorem v_range_bounds:
  assumes "v_range rangeHeader rng sz = Inr (Some r)" and "0 \<le> sz"
  shows "0 \<le> rstart r \<and> rstart r \<le> sz \<and> rend r < sz \<and> (rstart r \<le> rend r \<or> rstart r = sz)"
  using v_range_in [OF assms] by auto

theorem v_range_bounds_witness:
  "v_range None (Some \<lparr>r2_offset = None, r2_length = None, r2_suffix = Some 4\<rparr>) 10 = Inr (Some (mkRange 6 9)) \<and>
   rend (mkRange 6 9) < 10"
proof -
  have r: "v_range None (Some \<lparr>r2_offset = None, r2_length = None, r2_suffix = Some 4\<rparr>) 10 = Inr (Some (mkRange 6 9))"
    by code_simp
  with v_range_bounds [OF r] show ?thesis by simp
qed

text \<open>
  A range that starts exactly at the end of the object, with an explicit positive length, is
  accepted as the empty, inverted range from the size to the size minus one.
\<close>

theorem v_range_at_end:
  assumes "0 \<le> sz" and "0 < len"
  shows "v_range None (Some \<lparr>r2_offset = Some sz, r2_length = Some len, r2_suffix = None\<rparr>) sz =
    Inr (Some (mkRange sz (sz - 1)))"
  using assms by (simp add: v_range_def)

theorem v_range_at_end_witness:
  "v_range None (Some \<lparr>r2_offset = Some 10, r2_length = Some 5, r2_suffix = None\<rparr>) 10 = Inr (Some (mkRange 10 9))"
  using v_range_at_end [of 10 5] by simp

end
