(* ===== verification/R2Bucket.thy ===== *)
theory R2Bucket
  imports R2Validator "HOL-Library.Multiset"
begin

text \<open>
  The R2 simulator, \<open>R2BucketObject\<close> of \<^verbatim>\<open>r2/bucket.worker.ts\<close>: single and multipart objects in
  three SQLite tables, values in the blob store, blobs deleted in the background once nothing refers
  to them, and multipart values streamed blob by blob while the blobs are locked against deletion.

  A transaction is one function on the tables. The randomness of a request (the nonce of a blob, the
  version, upload identifiers and part ETags) and the time are arguments. The comparison of
  \<open>startAfter\<close> and the cursor in \<open>#list\<close> is on the bytes of the strings.
\<close>

subsection \<open>The state\<close>

text \<open>
  A reader is the background task of \<open>#assembleMultipartValue\<close> that streams the required parts:
  the parts still to be streamed, the bytes written so far, and whether the stream was closed or
  aborted.
\<close>

datatype reader_state = Streaming | Closed | Aborted

record reader =
  rd_required :: "(string \<times> inclusiveRange) list"
  rd_out :: bytes
  rd_state :: reader_state

record 'd bucket =
  bk_objects :: "object_row list"
  bk_uploads :: "upload_row list"
  bk_parts :: "part_row list"
  bk_disk :: 'd
  bk_pending :: "string list"
  bk_inUse :: "string \<Rightarrow> nat"
  bk_readers :: "reader list"

subsection \<open>Statements\<close>

definition stmtGetByKey :: "object_row list \<Rightarrow> string \<Rightarrow> object_row option" where
  "stmtGetByKey objs key = find (\<lambda>r. or_key r = key) objs"

definition stmtPut :: "object_row list \<Rightarrow> object_row \<Rightarrow> object_row list" where
  "stmtPut objs row = filter (\<lambda>r. or_key r \<noteq> or_key row) objs @ [row]"

definition stmtDelete :: "object_row list \<Rightarrow> string \<Rightarrow> object_row list" where
  "stmtDelete objs key = filter (\<lambda>r. or_key r \<noteq> key) objs"

definition stmtListWithoutDelimiter ::
  "object_row list \<Rightarrow> string \<Rightarrow> string option \<Rightarrow> nat \<Rightarrow> object_row list"
where
  "stmtListWithoutDelimiter objs pre start_after limit =
     take limit (sort_key or_key (filter (\<lambda>r. startsWith (or_key r) pre
       \<and> (case start_after of None \<Rightarrow> True | Some s \<Rightarrow> or_key r > s)) objs))"

definition stmtGetUpload :: "upload_row list \<Rightarrow> string \<Rightarrow> string \<Rightarrow> upload_row option" where
  "stmtGetUpload uploads upload_id key = find (\<lambda>u. ur_upload_id u = upload_id \<and> ur_key u = key) uploads"

definition stmtUpdateUploadState :: "upload_row list \<Rightarrow> string \<Rightarrow> upload_state \<Rightarrow> upload_row list" where
  "stmtUpdateUploadState uploads upload_id s =
     map (\<lambda>u. if ur_upload_id u = upload_id then u\<lparr>ur_state := s\<rparr> else u) uploads"

definition stmtGetPreviousPartByNumber :: "part_row list \<Rightarrow> string \<Rightarrow> int \<Rightarrow> part_row option" where
  "stmtGetPreviousPartByNumber parts upload_id part_number =
     find (\<lambda>p. (pr_upload_id p, pr_part_number p) = (upload_id, part_number)) parts"

definition stmtPutPart :: "part_row list \<Rightarrow> part_row \<Rightarrow> part_row list" where
  "stmtPutPart parts newRow =
     filter (\<lambda>p. (pr_upload_id p, pr_part_number p) \<noteq> (pr_upload_id newRow, pr_part_number newRow)) parts
     @ [newRow\<lparr>pr_object_key := None\<rparr>]"

definition stmtLinkPart :: "string \<Rightarrow> string \<Rightarrow> int \<Rightarrow> part_row list \<Rightarrow> part_row list" where
  "stmtLinkPart object_key upload_id part_number parts =
     map (\<lambda>p. if pr_upload_id p = upload_id \<and> pr_part_number p = part_number
              then p\<lparr>pr_object_key := Some object_key\<rparr> else p) parts"

text \<open>A deletion with \<open>RETURNING blob_id\<close> gives the deleted blobs and the remaining rows.\<close>

definition deleteParts :: "(part_row \<Rightarrow> bool) \<Rightarrow> part_row list \<Rightarrow> string list \<times> part_row list" where
  "deleteParts P parts = (map pr_blob (filter P parts), filter (\<lambda>p. \<not> P p) parts)"

definition stmtDeletePartsByUploadId :: "part_row list \<Rightarrow> string \<Rightarrow> string list \<times> part_row list" where
  "stmtDeletePartsByUploadId parts upload_id = deleteParts (\<lambda>p. pr_upload_id p = upload_id) parts"

definition stmtDeleteUnlinkedPartsByUploadId :: "part_row list \<Rightarrow> string \<Rightarrow> string list \<times> part_row list" where
  "stmtDeleteUnlinkedPartsByUploadId parts upload_id =
     deleteParts (\<lambda>p. pr_upload_id p = upload_id \<and> pr_object_key p = None) parts"

definition stmtDeletePartsByKey :: "part_row list \<Rightarrow> string \<Rightarrow> string list \<times> part_row list" where
  "stmtDeletePartsByKey parts key = deleteParts (\<lambda>p. pr_object_key p = Some key) parts"

definition stmtListPartsByUploadId :: "part_row list \<Rightarrow> string \<Rightarrow> part_row list" where
  "stmtListPartsByUploadId parts upload_id = filter (\<lambda>p. pr_upload_id p = upload_id) parts"

definition stmtListPartsByKey :: "part_row list \<Rightarrow> string \<Rightarrow> part_row list" where
  "stmtListPartsByKey parts key = sort_key pr_part_number (filter (\<lambda>p. pr_object_key p = Some key) parts)"

subsection \<open>Transactions\<close>

definition getPartsByKey ::
  "object_row list \<Rightarrow> part_row list \<Rightarrow> string \<Rightarrow> (object_row \<times> part_row list option) option"
where
  "getPartsByKey objs parts key =
     (case stmtGetByKey objs key of
        None \<Rightarrow> None
      | Some row \<Rightarrow>
          if or_blob row = None then Some (row, Some (stmtListPartsByKey parts key)) else Some (row, None))"

text \<open>The blobs and part rows an object gives up when its row is replaced or deleted.\<close>

definition releaseObject ::
  "part_row list \<Rightarrow> string \<Rightarrow> object_row option \<Rightarrow> string list \<times> part_row list"
where
  "releaseObject parts key row =
     (case row of
        None \<Rightarrow> ([], parts)
      | Some r \<Rightarrow>
          (case or_blob r of
             None \<Rightarrow> stmtDeletePartsByKey parts key
           | Some b \<Rightarrow> ([b], parts)))"

definition txn_put ::
  "object_row \<Rightarrow> r2_conditional option \<Rightarrow> object_row list \<Rightarrow> part_row list
   \<Rightarrow> (string list \<times> object_row list \<times> part_row list) r2res"
where
  "txn_put newRow onlyIf objs parts =
     (let key = or_key newRow; row = stmtGetByKey objs key
      in andThen (case onlyIf of
                    None \<Rightarrow> Inr ()
                  | Some c \<Rightarrow> v_condition (map_option (\<lambda>r. (or_etag r, or_uploaded r)) row) (Some c)) (\<lambda>_.
         let objs1 = stmtPut objs newRow; (old, parts1) = releaseObject parts key row
         in Inr (old, objs1, parts1)))"

fun txn_deleteByKeys ::
  "string list \<Rightarrow> object_row list \<Rightarrow> part_row list
   \<Rightarrow> string list \<times> object_row list \<times> part_row list"
where
  "txn_deleteByKeys [] objs parts = ([], objs, parts)"
| "txn_deleteByKeys (key # keys) objs parts =
     (let row = stmtGetByKey objs key;
          objs1 = stmtDelete objs key;
          (old, parts1) = releaseObject parts key row;
          (olds, objs2, parts2) = txn_deleteByKeys keys objs1 parts1
      in (old @ olds, objs2, parts2))"

definition txn_putPart ::
  "string \<Rightarrow> part_row \<Rightarrow> upload_row list \<Rightarrow> part_row list \<Rightarrow> (string option \<times> part_row list) r2res"
where
  "txn_putPart key newRow uploads parts =
     (if map_option ur_state (stmtGetUpload uploads (pr_upload_id newRow) key) \<noteq> Some IN_PROGRESS
      then Inl NoSuchUpload
      else Inr (map_option pr_blob
                  (stmtGetPreviousPartByNumber parts (pr_upload_id newRow) (pr_part_number newRow)),
                stmtPutPart parts newRow))"

text \<open>\<open>Buffer.from(hex, 'hex')\<close>.\<close>

fun hex_decode :: "string \<Rightarrow> bytes" where
  "hex_decode (x # y # s) =
     (case (hex_val x, hex_val y) of
        (Some i, Some j) \<Rightarrow> word_of_nat (16 * i + j) # hex_decode s
      | _ \<Rightarrow> [])"
| "hex_decode _ = []"

definition generateMultipartEtag :: "(hash_alg \<Rightarrow> bytes \<Rightarrow> bytes) \<Rightarrow> string list \<Rightarrow> string" where
  "generateMultipartEtag digest md5Hexes =
     bytes_hex (digest MD5 (concat (map hex_decode md5Hexes))) @ ''-'' @ show_nat (length md5Hexes)"

text \<open>Step 3: the uploaded part of every selected one.\<close>

fun selectParts :: "part_row list \<Rightarrow> published_part list \<Rightarrow> part_row list r2res" where
  "selectParts uploaded [] = Inr []"
| "selectParts uploaded (s # ss) =
     (case find (\<lambda>p. pr_part_number p = pp_part s) uploaded of
        None \<Rightarrow> Inl InvalidPart
      | Some p \<Rightarrow>
          if pr_etag p \<noteq> pp_etag s then Inl InvalidPart
          else andThen (selectParts uploaded ss) (\<lambda>ps. Inr (p # ps)))"

text \<open>Step 4, the loop over all but the last part; the result is \<open>partSize\<close>.\<close>

fun checkPartSizes :: "int \<Rightarrow> int option \<Rightarrow> part_row list \<Rightarrow> int option r2res" where
  "checkPartSizes minPartSize partSize [] = Inr partSize"
| "checkPartSizes minPartSize partSize (p # ps) =
     (let s = (case partSize of None \<Rightarrow> pr_size p | Some s \<Rightarrow> s)
      in if pr_size p < minPartSize \<or> pr_size p \<noteq> s then Inl BadUpload
         else checkPartSizes minPartSize (Some s) ps)"

definition checkParts :: "int \<Rightarrow> part_row list \<Rightarrow> part_row list r2res" where
  "checkParts minPartSize parts =
     (if list_ex (\<lambda>p. pr_size p < minPartSize) (butlast parts) then Inl EntityTooSmall
      else
        (let parts = js_sort (\<lambda>a b. pr_part_number a - pr_part_number b) parts
         in andThen (checkPartSizes minPartSize None (butlast parts)) (\<lambda>partSize.
              case partSize of
                Some s \<Rightarrow> if pr_size (last parts) > s then Inl BadUpload else Inr parts
              | None \<Rightarrow> Inr parts)))"

record complete_result =
  cr_newRow :: object_row
  cr_oldBlobIds :: "string list"
  cr_objects :: "object_row list"
  cr_uploads :: "upload_row list"
  cr_parts :: "part_row list"

definition txn_completeMultipartUpload ::
  "(hash_alg \<Rightarrow> bytes \<Rightarrow> bytes) \<Rightarrow> string \<Rightarrow> int \<Rightarrow> string \<Rightarrow> string \<Rightarrow> published_part list \<Rightarrow> int
   \<Rightarrow> object_row list \<Rightarrow> upload_row list \<Rightarrow> part_row list \<Rightarrow> complete_result r2res"
where
  "txn_completeMultipartUpload digest version now key upload_id selectedParts minPartSize objs uploads parts =
     (case stmtGetUpload uploads upload_id key of
        None \<Rightarrow> Inl InternalError
      | Some uploadRow \<Rightarrow>
          if ur_state uploadRow \<noteq> IN_PROGRESS then Inl NoSuchUpload
          else if \<not> distinct (map pp_part selectedParts) then Inl InternalError
          else
            andThen (selectParts (stmtListPartsByUploadId parts upload_id) selectedParts) (\<lambda>sel.
            andThen (checkParts minPartSize sel) (\<lambda>ps.
              let (old1, parts1) = releaseObject parts key (stmtGetByKey objs key);
                  newRow = \<lparr>or_key = key, or_blob = None, or_version = version,
                            or_size = sum_list (map pr_size ps),
                            or_etag = generateMultipartEtag digest (map pr_checksum_md5 ps),
                            or_uploaded = now, or_checksums = [],
                            or_http_metadata = ur_http_metadata uploadRow,
                            or_custom_metadata = ur_custom_metadata uploadRow\<rparr>;
                  objs1 = stmtPut objs newRow;
                  parts2 = fold (\<lambda>p. stmtLinkPart key upload_id (pr_part_number p)) ps parts1;
                  (old2, parts3) = stmtDeleteUnlinkedPartsByUploadId parts2 upload_id
              in Inr \<lparr>cr_newRow = newRow, cr_oldBlobIds = old1 @ old2, cr_objects = objs1,
                      cr_uploads = stmtUpdateUploadState uploads upload_id COMPLETED,
                      cr_parts = parts3\<rparr>)))"

definition txn_abortMultipartUpload ::
  "string \<Rightarrow> string \<Rightarrow> upload_row list \<Rightarrow> part_row list
   \<Rightarrow> (string list \<times> upload_row list \<times> part_row list) r2res"
where
  "txn_abortMultipartUpload key upload_id uploads parts =
     (case stmtGetUpload uploads upload_id key of
        None \<Rightarrow> Inl InternalError
      | Some u \<Rightarrow>
          if ur_state u \<noteq> IN_PROGRESS then Inr ([], uploads, parts)
          else
            (let (old, parts1) = stmtDeletePartsByUploadId parts upload_id
             in Inr (old, stmtUpdateUploadState uploads upload_id ABORTED, parts1)))"

subsection \<open>Blobs in use and background deletion\<close>

definition acquireBlob :: "string \<Rightarrow> 'd bucket \<Rightarrow> 'd bucket" where
  "acquireBlob b st = st\<lparr>bk_inUse := (bk_inUse st)(b := bk_inUse st b + 1)\<rparr>"

definition releaseBlob :: "string \<Rightarrow> 'd bucket \<Rightarrow> 'd bucket" where
  "releaseBlob b st = st\<lparr>bk_inUse := (bk_inUse st)(b := bk_inUse st b - 1)\<rparr>"

definition bk_backgroundDelete :: "string list \<Rightarrow> 'd bucket \<Rightarrow> 'd bucket" where
  "bk_backgroundDelete blobs st = st\<lparr>bk_pending := bk_pending st @ blobs\<rparr>"

text \<open>The microtask: it waits until the blob is not in use.\<close>

definition bk_runDelete :: "'d blob_ops \<Rightarrow> string \<Rightarrow> 'd bucket \<Rightarrow> 'd bucket" where
  "bk_runDelete bs b st =
     (if b \<in> set (bk_pending st) \<and> bk_inUse st b = 0
      then st\<lparr>bk_disk := snd (b_delete bs (bk_disk st) b), bk_pending := remove1 b (bk_pending st)\<rparr>
      else st)"

subsection \<open>Assembling a multipart value\<close>

definition rangeOverlaps :: "inclusiveRange \<Rightarrow> inclusiveRange \<Rightarrow> bool" where
  "rangeOverlaps a b \<longleftrightarrow> rstart a \<le> rend b \<and> rstart b \<le> rend a"

fun requiredParts :: "int \<Rightarrow> inclusiveRange \<Rightarrow> part_row list \<Rightarrow> (string \<times> inclusiveRange) list" where
  "requiredParts start queryRange [] = []"
| "requiredParts start queryRange (part # parts) =
     (let partRange = mkRange start (start + pr_size part - 1)
      in (if rangeOverlaps partRange queryRange
          then [(pr_blob part,
                 mkRange (max (rstart partRange) (rstart queryRange) - rstart partRange)
                         (min (rend partRange) (rend queryRange) - rstart partRange))]
          else [])
         @ requiredParts (rend partRange + 1) queryRange parts)"

definition assembleMultipartValue ::
  "part_row list \<Rightarrow> inclusiveRange \<Rightarrow> 'd bucket \<Rightarrow> nat \<times> 'd bucket"
where
  "assembleMultipartValue parts queryRange st =
     (let req = requiredParts 0 queryRange parts;
          st1 = fold (\<lambda>(b, _). acquireBlob b) req st
      in (length (bk_readers st1),
          st1\<lparr>bk_readers := bk_readers st1 @ [\<lparr>rd_required = req, rd_out = [], rd_state = Streaming\<rparr>]\<rparr>))"

text \<open>One iteration of the streaming loop of reader \<open>i\<close>, or its end.\<close>

definition readerStep :: "'d blob_ops \<Rightarrow> nat \<Rightarrow> 'd bucket \<Rightarrow> 'd bucket" where
  "readerStep bs i st =
     (if i < length (bk_readers st) \<and> rd_state (bk_readers st ! i) = Streaming then
        (let rd = bk_readers st ! i
         in case rd_required rd of
              [] \<Rightarrow> st\<lparr>bk_readers := (bk_readers st)[i := rd\<lparr>rd_state := Closed\<rparr>]\<rparr>
            | (b, r) # rest \<Rightarrow>
                (case b_get bs (bk_disk st) b (Some r) of
                   Inr (Some v) \<Rightarrow>
                     releaseBlob b (st\<lparr>bk_readers := (bk_readers st)[i :=
                       rd\<lparr>rd_required := rest, rd_out := rd_out rd @ v\<rparr>]\<rparr>)
                 | _ \<Rightarrow>
                     fold (\<lambda>(b, _). releaseBlob b) (rd_required rd)
                       (st\<lparr>bk_readers := (bk_readers st)[i := rd\<lparr>rd_required := [], rd_state := Aborted\<rparr>]\<rparr>)))
      else st)"

subsection \<open>Operations\<close>

datatype r2_body = Whole bytes | Stream nat

definition full_range :: "int \<Rightarrow> r2_range" where
  "full_range sz = \<lparr>r2_offset = Some 0, r2_length = Some sz, r2_suffix = None\<rparr>"

definition r2_head :: "string \<Rightarrow> 'd bucket \<Rightarrow> r2_object r2res" where
  "r2_head key st =
     andThen (v_key key) (\<lambda>_.
       case stmtGetByKey (bk_objects st) key of
         None \<Rightarrow> Inl NoSuchKey
       | Some row \<Rightarrow> Inr (InternalR2Object row (Some (full_range (or_size row)))))"

record get_options =
  go_range :: "r2_range option"
  go_rangeHeader :: "string option"
  go_onlyIf :: "r2_conditional option"

definition r2_get ::
  "'d blob_ops \<Rightarrow> string \<Rightarrow> get_options \<Rightarrow> 'd bucket \<Rightarrow> (r2_object \<times> r2_body) r2res \<times> 'd bucket"
where
  "r2_get bs key opts st =
     (case andThen (v_key key) (\<lambda>_.
           case getPartsByKey (bk_objects st) (bk_parts st) key of
             None \<Rightarrow> Inl NoSuchKey
           | Some (row, parts) \<Rightarrow>
               (case v_condition (Some (or_etag row, or_uploaded row)) (go_onlyIf opts) of
                  Inl e \<Rightarrow> Inl (attach e (InternalR2Object row (Some (full_range (or_size row)))))
                | Inr _ \<Rightarrow>
                    andThen (v_range (go_rangeHeader opts) (go_range opts) (or_size row))
                      (\<lambda>rng. Inr (row, parts, rng)))) of
        Inl e \<Rightarrow> (Inl e, st)
      | Inr (row, parts, rng) \<Rightarrow>
          (let r2Range = (case rng of
                            None \<Rightarrow> full_range (or_size row)
                          | Some r \<Rightarrow> (let end = min (rend r) (or_size row)
                                      in \<lparr>r2_offset = Some (rstart r),
                                          r2_length = Some (end - rstart r + 1), r2_suffix = None\<rparr>));
               ob = InternalR2Object row (Some r2Range)
           in case or_blob row of
                None \<Rightarrow>
                  (case parts of
                     None \<Rightarrow> (Inl (Other AssertionError), st)
                   | Some ps \<Rightarrow>
                       (let (i, st') = assembleMultipartValue ps
                              (case rng of None \<Rightarrow> mkRange 0 (or_size row - 1) | Some r \<Rightarrow> r) st
                        in (Inr (ob, Stream i), st')))
              | Some b \<Rightarrow>
                  (case b_get bs (bk_disk st) b rng of
                     Inl e \<Rightarrow> (Inl (Other e), st)
                   | Inr None \<Rightarrow> (Inl NoSuchKey, st)
                   | Inr (Some v) \<Rightarrow> (Inr (ob, Whole v), st))))"

record put_options =
  po_customMetadata :: "custom_metadata option"
  po_httpMetadata :: "r2_http_fields option"
  po_onlyIf :: "r2_conditional option"
  po_hashes :: "hash_alg \<Rightarrow> bytes option"

text \<open>What is drawn at random or read from the clock while a put runs.\<close>

record draw =
  dw_nonce :: nonce
  dw_version :: string
  dw_now :: int
  dw_id :: string

definition default_custom :: "custom_metadata option \<Rightarrow> custom_metadata" where
  "default_custom m = (case m of None \<Rightarrow> [] | Some kvs \<Rightarrow> kvs)"

definition default_http :: "r2_http_fields option \<Rightarrow> r2_http_fields" where
  "default_http m = (case m of None \<Rightarrow> no_http_fields | Some h \<Rightarrow> h)"

definition r2_put ::
  "(hash_alg \<Rightarrow> bytes \<Rightarrow> bytes) \<Rightarrow> 'd blob_ops \<Rightarrow> draw \<Rightarrow> string \<Rightarrow> bytes \<Rightarrow> int \<Rightarrow> put_options
   \<Rightarrow> 'd bucket \<Rightarrow> r2_object r2res \<times> 'd bucket"
where
  "r2_put digest bs dw key value valueSize opts st =
     (let algorithms = filter (\<lambda>a. a = MD5 \<or> po_hashes opts a \<noteq> None) R2_HASH_ALGORITHMS;
          digests = (\<lambda>a. if a \<in> set algorithms then Some (digest a value) else None);
          (put, d) = b_put bs (bk_disk st) (dw_nonce dw) value;
          st1 = st\<lparr>bk_disk := d\<rparr>
      in case put of
           Inl e \<Rightarrow> (Inl (Other e), st1)
         | Inr blobId \<Rightarrow>
             (case digests MD5 of
                None \<Rightarrow> (Inl (Other AssertionError), st1)
              | Some md5Digest \<Rightarrow>
                  (case andThen (v_key key) (\<lambda>_.
                        andThen (v_size valueSize) (\<lambda>_.
                        andThen (v_metadataSize (po_customMetadata opts)) (\<lambda>_.
                        v_hash digests (po_hashes opts)))) of
                     Inl e \<Rightarrow> (Inl e, st1)
                   | Inr checksums \<Rightarrow>
                       (let row = \<lparr>or_key = key, or_blob = Some blobId, or_version = dw_version dw,
                              or_size = valueSize, or_etag = bytes_hex md5Digest, or_uploaded = dw_now dw,
                              or_checksums = checksums,
                              or_http_metadata = default_http (po_httpMetadata opts),
                              or_custom_metadata = default_custom (po_customMetadata opts)\<rparr>
                        in case txn_put row (po_onlyIf opts) (bk_objects st1) (bk_parts st1) of
                             Inl e \<Rightarrow> (Inl e, bk_backgroundDelete [blobId] st1)
                           | Inr (old, objs, parts) \<Rightarrow>
                               (Inr (InternalR2Object row None),
                                bk_backgroundDelete old (st1\<lparr>bk_objects := objs, bk_parts := parts\<rparr>))))))"

definition r2_delete :: "string list \<Rightarrow> 'd bucket \<Rightarrow> unit r2res \<times> 'd bucket" where
  "r2_delete keys st =
     (if list_ex (\<lambda>k. v_key k \<noteq> Inr ()) keys then (Inl InvalidObjectName, st)
      else (let (old, objs, parts) = txn_deleteByKeys keys (bk_objects st) (bk_parts st)
            in (Inr (), bk_backgroundDelete old (st\<lparr>bk_objects := objs, bk_parts := parts\<rparr>))))"

subsection \<open>Listing\<close>

text \<open>SQL's \<open>instr\<close>: the one-based position of the first occurrence, \<open>0\<close> if there is none.\<close>

fun instr :: "string \<Rightarrow> string \<Rightarrow> nat" where
  "instr [] d = (if d = [] then 1 else 0)"
| "instr (c # s) d =
     (if startsWith (c # s) d then 1
      else (case instr s d of 0 \<Rightarrow> 0 | Suc n \<Rightarrow> Suc (Suc n)))"

definition delimited_prefix_or_key :: "string \<Rightarrow> string \<Rightarrow> string \<Rightarrow> string" where
  "delimited_prefix_or_key pre delimiter key =
     (let i = instr (drop (length pre) key) delimiter
      in if i \<noteq> 0 then ''dlp:'' @ take (length pre + i + length delimiter - 1) key else ''key:'' @ key)"

text \<open>
  \<open>GROUP BY\<close> with \<open>max(key)\<close>: the other columns of a group are those of the row with the greatest key.
\<close>

definition stmtListMetadata ::
  "object_row list \<Rightarrow> string \<Rightarrow> string \<Rightarrow> string option \<Rightarrow> nat \<Rightarrow> (string \<times> object_row) list"
where
  "stmtListMetadata objs pre delimiter start_after limit =
     (let g = (\<lambda>r. delimited_prefix_or_key pre delimiter (or_key r));
          rows = filter (\<lambda>r. startsWith (or_key r) pre
                   \<and> (case start_after of None \<Rightarrow> True | Some s \<Rightarrow> or_key r > s)) objs;
          maxima = filter (\<lambda>r. list_all (\<lambda>r'. g r' = g r \<longrightarrow> or_key r' \<le> or_key r) rows) rows
      in take limit (map (\<lambda>r. (g r, r)) (sort_key or_key maxima)))"

record r2_list_options =
  lo_r2_limit :: "int option"
  lo_r2_prefix :: "string option"
  lo_r2_cursor :: "string option"
  lo_r2_delimiter :: "string option"
  lo_r2_startAfter :: "string option"
  lo_r2_includeHttp :: bool
  lo_r2_includeCustom :: bool

record r2_objects =
  ros_objects :: "r2_object list"
  ros_truncated :: bool
  ros_cursor :: "string option"
  ros_delimitedPrefixes :: "string list"

definition rowObject :: "bool \<Rightarrow> bool \<Rightarrow> object_row \<Rightarrow> r2_object" where
  "rowObject excludeHttp excludeCustom row =
     InternalR2Object (row\<lparr>or_http_metadata := (if excludeHttp then no_http_fields else or_http_metadata row),
                           or_custom_metadata := (if excludeCustom then [] else or_custom_metadata row)\<rparr>) None"

definition list_startAfter :: "r2_list_options \<Rightarrow> string option" where
  "list_startAfter opts =
     (case lo_r2_cursor opts of
        None \<Rightarrow> lo_r2_startAfter opts
      | Some c \<Rightarrow>
          (case lo_r2_startAfter opts of
             None \<Rightarrow> Some (base64Decode c)
           | Some s \<Rightarrow> if base64Decode c > s then Some (base64Decode c) else Some s))"

definition r2_list :: "r2_list_options \<Rightarrow> 'd bucket \<Rightarrow> r2_objects r2res" where
  "r2_list opts st =
     (let pre = (case lo_r2_prefix opts of None \<Rightarrow> [] | Some p \<Rightarrow> p);
          limit0 = (case lo_r2_limit opts of None \<Rightarrow> R2_MAX_LIST_KEYS | Some l \<Rightarrow> l)
      in andThen (v_limit limit0) (\<lambda>_.
         let limit = nat (if lo_r2_includeHttp opts \<or> lo_r2_includeCustom opts then min limit0 100 else limit0);
             excludeHttp = (\<not> lo_r2_includeHttp opts);
             excludeCustom = (\<not> lo_r2_includeCustom opts);
             startAfter = list_startAfter opts
         in case (if lo_r2_delimiter opts = Some [] then None else lo_r2_delimiter opts) of
              Some delimiter \<Rightarrow>
                (let rows = stmtListMetadata (bk_objects st) pre delimiter startAfter (limit + 1);
                     hasMoreRows = (length rows = limit + 1);
                     rows1 = take limit rows;
                     nextCursor = (if hasMoreRows then Some (base64Encode (or_key (snd (rows1 ! (limit - 1))))) else None)
                 in Inr \<lparr>ros_objects = map (\<lambda>(g, r). rowObject excludeHttp excludeCustom r)
                                         (filter (\<lambda>(g, r). \<not> startsWith g ''dlp:'') rows1),
                         ros_truncated = (nextCursor \<noteq> None), ros_cursor = nextCursor,
                         ros_delimitedPrefixes = map (\<lambda>(g, r). drop 4 g)
                                                   (filter (\<lambda>(g, r). startsWith g ''dlp:'') rows1)\<rparr>)
            | None \<Rightarrow>
                (let rows = stmtListWithoutDelimiter (bk_objects st) pre startAfter (limit + 1);
                     hasMoreRows = (length rows = limit + 1);
                     rows1 = take limit rows;
                     nextCursor = (if hasMoreRows then Some (base64Encode (or_key (rows1 ! (limit - 1)))) else None)
                 in Inr \<lparr>ros_objects = map (rowObject excludeHttp excludeCustom) rows1,
                         ros_truncated = (nextCursor \<noteq> None), ros_cursor = nextCursor,
                         ros_delimitedPrefixes = []\<rparr>)))"

subsection \<open>Multipart uploads\<close>

definition r2_createMultipartUpload ::
  "draw \<Rightarrow> string \<Rightarrow> custom_metadata option \<Rightarrow> r2_http_fields option \<Rightarrow> 'd bucket \<Rightarrow> string r2res \<times> 'd bucket"
where
  "r2_createMultipartUpload dw key customMetadata httpMetadata st =
     (case v_key key of
        Inl e \<Rightarrow> (Inl e, st)
      | Inr _ \<Rightarrow>
          if list_ex (\<lambda>u. ur_upload_id u = dw_id dw) (bk_uploads st) then (Inl (Other SqlError), st)
          else (Inr (dw_id dw),
                st\<lparr>bk_uploads := bk_uploads st @ [\<lparr>ur_upload_id = dw_id dw, ur_key = key,
                     ur_http_metadata = default_http httpMetadata,
                     ur_custom_metadata = default_custom customMetadata, ur_state = IN_PROGRESS\<rparr>]\<rparr>))"

definition r2_uploadPart ::
  "(hash_alg \<Rightarrow> bytes \<Rightarrow> bytes) \<Rightarrow> 'd blob_ops \<Rightarrow> draw \<Rightarrow> string \<Rightarrow> string \<Rightarrow> int \<Rightarrow> bytes \<Rightarrow> int
   \<Rightarrow> 'd bucket \<Rightarrow> string r2res \<times> 'd bucket"
where
  "r2_uploadPart digest bs dw key uploadId partNumber value valueSize st =
     (case v_key key of
        Inl e \<Rightarrow> (Inl e, st)
      | Inr _ \<Rightarrow>
          (let (put, d) = b_put bs (bk_disk st) (dw_nonce dw) value; st1 = st\<lparr>bk_disk := d\<rparr>
           in case put of
                Inl e \<Rightarrow> (Inl (Other e), st1)
              | Inr blobId \<Rightarrow>
                  (let etag = dw_id dw;
                       row = \<lparr>pr_upload_id = uploadId, pr_part_number = partNumber, pr_blob = blobId,
                              pr_size = valueSize, pr_etag = etag,
                              pr_checksum_md5 = bytes_hex (digest MD5 value), pr_object_key = None\<rparr>
                   in case txn_putPart key row (bk_uploads st1) (bk_parts st1) of
                        Inl e \<Rightarrow> (Inl e, bk_backgroundDelete [blobId] st1)
                      | Inr (maybeOldBlobId, parts) \<Rightarrow>
                          (Inr etag,
                           bk_backgroundDelete (case maybeOldBlobId of None \<Rightarrow> [] | Some b \<Rightarrow> [b])
                             (st1\<lparr>bk_parts := parts\<rparr>)))))"

definition r2_completeMultipartUpload ::
  "(hash_alg \<Rightarrow> bytes \<Rightarrow> bytes) \<Rightarrow> bool \<Rightarrow> draw \<Rightarrow> string \<Rightarrow> string \<Rightarrow> published_part list
   \<Rightarrow> 'd bucket \<Rightarrow> r2_object r2res \<times> 'd bucket"
where
  "r2_completeMultipartUpload digest beingTested dw key uploadId parts st =
     (let minPartSize = (if beingTested then MIN_MULTIPART_PART_SIZE_TEST else MIN_MULTIPART_PART_SIZE)
      in case andThen (v_key key) (\<lambda>_.
              txn_completeMultipartUpload digest (dw_version dw) (dw_now dw) key uploadId parts minPartSize
                (bk_objects st) (bk_uploads st) (bk_parts st)) of
           Inl e \<Rightarrow> (Inl e, st)
         | Inr cr \<Rightarrow>
             (Inr (InternalR2Object (cr_newRow cr) None),
              bk_backgroundDelete (cr_oldBlobIds cr)
                (st\<lparr>bk_objects := cr_objects cr, bk_uploads := cr_uploads cr, bk_parts := cr_parts cr\<rparr>)))"

definition r2_abortMultipartUpload :: "string \<Rightarrow> string \<Rightarrow> 'd bucket \<Rightarrow> unit r2res \<times> 'd bucket" where
  "r2_abortMultipartUpload key uploadId st =
     (case andThen (v_key key) (\<lambda>_. txn_abortMultipartUpload key uploadId (bk_uploads st) (bk_parts st)) of
        Inl e \<Rightarrow> (Inl e, st)
      | Inr (old, uploads, parts) \<Rightarrow>
          (Inr (), bk_backgroundDelete old (st\<lparr>bk_uploads := uploads, bk_parts := parts\<rparr>)))"

subsection \<open>Requests\<close>

text \<open>
  The requests of the binding after \<open>R2BindingRequestSchema.parse(JSON.parse(...))\<close>, which is the
  argument \<open>parse\<close> of the handlers (\<^const>\<open>None\<close> when it throws).
\<close>

datatype r2_request =
    HeadRequest string
  | GetRequest string get_options
  | PutRequest string put_options
  | CreateMultipartUploadRequest string "custom_metadata option" "r2_http_fields option"
  | UploadPartRequest string string int
  | CompleteMultipartUploadRequest string string "published_part list"
  | AbortMultipartUploadRequest string string
  | ListRequest r2_list_options
  | DeleteRequest "string list"

datatype r2_response =
    ObjectResult r2_object
  | ObjectBodyResult r2_object r2_body
  | ObjectsResult r2_objects
  | UploadIdResult string
  | EtagResult string
  | EmptyResult

definition decodeHeaderMetadata ::
  "(string \<Rightarrow> r2_request option) \<Rightarrow> string option \<Rightarrow> r2_request r2res"
where
  "decodeHeaderMetadata parse header =
     (case header of
        None \<Rightarrow> Inl InvalidMetadata
      | Some h \<Rightarrow> (case parse h of None \<Rightarrow> Inl (Other SyntaxError) | Some r \<Rightarrow> Inr r))"

text \<open>The metadata is the prefix of the body whose length a header announces.\<close>

definition decodeMetadata ::
  "(string \<Rightarrow> r2_request option) \<Rightarrow> string option \<Rightarrow> bytes option
   \<Rightarrow> (r2_request \<times> int \<times> bytes) r2res"
where
  "decodeMetadata parse sizeHeader body =
     (case parseInt_opt sizeHeader of
        None \<Rightarrow> Inl InvalidMetadata
      | Some metadataSize \<Rightarrow>
          (case body of
             None \<Rightarrow> Inl (Other AssertionError)
           | Some bytes \<Rightarrow>
               if metadataSize < 0 then Inl (Other RangeError)
               else (case parse (map (\<lambda>w. char_of (unat w)) (take (nat metadataSize) bytes)) of
                       None \<Rightarrow> Inl (Other SyntaxError)
                     | Some r \<Rightarrow> Inr (r, metadataSize, drop (nat metadataSize) bytes))))"

definition r2_handle_get ::
  "(string \<Rightarrow> r2_request option) \<Rightarrow> 'd blob_ops \<Rightarrow> string option \<Rightarrow> 'd bucket
   \<Rightarrow> r2_response r2res \<times> 'd bucket"
where
  "r2_handle_get parse bs header st =
     (case decodeHeaderMetadata parse header of
        Inl e \<Rightarrow> (Inl e, st)
      | Inr metadata \<Rightarrow>
          (case metadata of
             HeadRequest key \<Rightarrow> (andThen (r2_head key st) (\<lambda>ob. Inr (ObjectResult ob)), st)
           | GetRequest key opts \<Rightarrow>
               (let (r, st') = r2_get bs key opts st
                in (andThen r (\<lambda>(ob, body). Inr (ObjectBodyResult ob body)), st'))
           | ListRequest opts \<Rightarrow> (andThen (r2_list opts st) (\<lambda>obs. Inr (ObjectsResult obs)), st)
           | _ \<Rightarrow> (Inl InternalError, st)))"

definition r2_handle_put ::
  "(string \<Rightarrow> r2_request option) \<Rightarrow> (hash_alg \<Rightarrow> bytes \<Rightarrow> bytes) \<Rightarrow> bool \<Rightarrow> 'd blob_ops \<Rightarrow> draw
   \<Rightarrow> string option \<Rightarrow> string option \<Rightarrow> bytes option \<Rightarrow> 'd bucket \<Rightarrow> r2_response r2res \<times> 'd bucket"
where
  "r2_handle_put parse digest beingTested bs dw sizeHeader contentLengthHeader body st =
     (case decodeMetadata parse sizeHeader body of
        Inl e \<Rightarrow> (Inl e, st)
      | Inr (metadata, metadataSize, value) \<Rightarrow>
          (case metadata of
             DeleteRequest keys \<Rightarrow>
               (let (r, st') = r2_delete keys st in (andThen r (\<lambda>_. Inr EmptyResult), st'))
           | PutRequest key opts \<Rightarrow>
               (case parseInt_opt contentLengthHeader of
                  None \<Rightarrow> (Inl (Other AssertionError), st)
                | Some contentLength \<Rightarrow>
                    (let (r, st') = r2_put digest bs dw key value (contentLength - metadataSize) opts st
                     in (andThen r (\<lambda>ob. Inr (ObjectResult ob)), st')))
           | CreateMultipartUploadRequest key custom http \<Rightarrow>
               (let (r, st') = r2_createMultipartUpload dw key custom http st
                in (andThen r (\<lambda>i. Inr (UploadIdResult i)), st'))
           | UploadPartRequest key uploadId partNumber \<Rightarrow>
               (case parseInt_opt contentLengthHeader of
                  None \<Rightarrow> (Inl (Other AssertionError), st)
                | Some contentLength \<Rightarrow>
                    (let (r, st') = r2_uploadPart digest bs dw key uploadId partNumber value
                                      (contentLength - metadataSize) st
                     in (andThen r (\<lambda>e. Inr (EtagResult e)), st')))
           | CompleteMultipartUploadRequest key uploadId parts \<Rightarrow>
               (let (r, st') = r2_completeMultipartUpload digest beingTested dw key uploadId parts st
                in (andThen r (\<lambda>ob. Inr (ObjectResult ob)), st'))
           | AbortMultipartUploadRequest key uploadId \<Rightarrow>
               (let (r, st') = r2_abortMultipartUpload key uploadId st
                in (andThen r (\<lambda>_. Inr EmptyResult), st'))
           | _ \<Rightarrow> (Inl InternalError, st)))"

end
