(* ===== verification/R2Invariant.thy ===== *)
theory R2Invariant
  imports R2Bucket
begin

text \<open>
  The invariant of the R2 simulator: keys, upload identifiers and part numbers are unique; every part
  belongs to an upload, and is linked to an object exactly when that upload is completed; a blob has
  one owner (an object, a part, or the garbage queue); the blob of every row is on disk with the
  recorded size; and every blob a running reader still needs is on disk, counted as in use.
\<close>

subsection \<open>Multipart values are slices of the whole\<close>

text \<open>The bytes from position \<open>a\<close> to position \<open>e\<close>, for any integers.\<close>

definition segment :: "int \<Rightarrow> int \<Rightarrow> 'a list \<Rightarrow> 'a list" where
  "segment a e xs = drop (nat a) (take (nat (e + 1)) xs)"

lemma segment_Nil [simp]: "segment a e [] = []"
  by (simp add: segment_def)

lemma segment_append:
  "segment a e (xs @ ys) = segment a e xs @ segment (a - int (length xs)) (e - int (length xs)) ys"
proof (cases "e + 1 < int (length xs)")
  case True
  then show ?thesis by (simp add: segment_def)
next
  case False
  then have "nat (e + 1) - length xs = nat (e - int (length xs) + 1)" "length xs \<le> nat (e + 1)" by auto
  moreover have "nat a - length xs = nat (a - int (length xs))" by auto
  ultimately show ?thesis by (simp add: segment_def)
qed

lemma segment_slice:
  assumes "0 \<le> rstart r"
  shows "segment (rstart r) (rend r) xs = slice r xs"
proof -
  have "nat (rend r + 1) - nat (rstart r) = nat (rend r - rstart r + 1)" using assms by simp
  then show ?thesis by (simp add: segment_def slice_def drop_take)
qed

text \<open>The parts of a value: \<open>contents\<close> gives the bytes of their blobs.\<close>

definition part_bytes :: "(string \<Rightarrow> bytes option) \<Rightarrow> part_row \<Rightarrow> bytes" where
  "part_bytes c p = the (c (pr_blob p))"

definition part_stored :: "(string \<Rightarrow> bytes option) \<Rightarrow> part_row \<Rightarrow> bool" where
  "part_stored c p \<longleftrightarrow> (\<exists>v. c (pr_blob p) = Some v \<and> int (length v) = pr_size p)"

definition required_bytes :: "(string \<Rightarrow> bytes option) \<Rightarrow> (string \<times> inclusiveRange) list \<Rightarrow> bytes" where
  "required_bytes c req = concat (map (\<lambda>(b, r). slice r (the (c b))) req)"

lemma part_segment:
  assumes "part_stored c p"
  shows "segment (rstart q - s) (rend q - s) (part_bytes c p) =
    (if rangeOverlaps (mkRange s (s + pr_size p - 1)) q
     then slice (mkRange (max s (rstart q) - s) (min (s + pr_size p - 1) (rend q) - s)) (part_bytes c p)
     else [])"
proof -
  let ?v = "part_bytes c p"
  have len: "int (length ?v) = pr_size p" using assms by (auto simp: part_stored_def part_bytes_def)
  show ?thesis
  proof (cases "rangeOverlaps (mkRange s (s + pr_size p - 1)) q")
    case True
    let ?r = "mkRange (max s (rstart q) - s) (min (s + pr_size p - 1) (rend q) - s)"
    have o': "s \<le> rend q" "rstart q \<le> s + pr_size p - 1" using True by (auto simp: rangeOverlaps_def)
    have "segment (rstart q - s) (rend q - s) ?v =
        drop (nat (rstart ?r)) (take (nat (rend q - s + 1)) ?v)"
      by (simp add: segment_def max_def)
    also have "take (nat (rend q - s + 1)) ?v = take (nat (rend ?r + 1)) ?v"
      using len o' by (auto simp: min_def)
    also have "drop (nat (rstart ?r)) \<dots> = slice ?r ?v"
      using segment_slice [of ?r ?v] by (simp add: segment_def)
    finally show ?thesis using True by simp
  next
    case False
    then consider "rend q < s" | "s + pr_size p \<le> rstart q" by (auto simp: rangeOverlaps_def)
    then show ?thesis using False len by cases (auto simp: segment_def)
  qed
qed

lemma requiredParts_bytes:
  assumes "\<forall>p \<in> set ps. part_stored c p"
  shows "required_bytes c (requiredParts s q ps) =
    segment (rstart q - s) (rend q - s) (concat (map (part_bytes c) ps))"
  using assms
proof (induction ps arbitrary: s)
  case (Cons p ps)
  have len: "int (length (part_bytes c p)) = pr_size p"
    using Cons.prems by (auto simp: part_stored_def part_bytes_def)
  have "part_stored c p" using Cons.prems by simp
  from part_segment [OF this, of q s] show ?case
    using Cons.IH [of "s + pr_size p"] Cons.prems
    by (auto simp: required_bytes_def segment_append len Let_def part_bytes_def [symmetric] diff_diff_eq)
qed (simp add: required_bytes_def)

lemma requiredParts_range_in:
  assumes "\<forall>p \<in> set ps. 0 \<le> pr_size p" "\<forall>p \<in> set (butlast ps). 0 < pr_size p"
    and "rstart q \<le> rend q \<or> rend q < s + sum_list (map pr_size ps) \<and> s + sum_list (map pr_size ps) \<le> rstart q"
    and "rend q < s + sum_list (map pr_size ps)" and "(b, r) \<in> set (requiredParts s q ps)"
  shows "\<exists>p \<in> set ps. pr_blob p = b \<and> range_in (pr_size p) r"
  using assms
proof (induction ps arbitrary: s)
  case (Cons p ps)
  have sums: "0 \<le> sum_list (map pr_size ps)" using Cons.prems(1) by (intro sum_list_nonneg) auto
  show ?case
  proof (cases "(b, r) \<in> set (requiredParts (s + pr_size p) q ps)")
    case True
    then have "ps \<noteq> []" by auto
    with Cons.prems True have "\<exists>p \<in> set ps. pr_blob p = b \<and> range_in (pr_size p) r"
      by (intro Cons.IH) (auto simp: algebra_simps)
    then show ?thesis by auto
  next
    case False
    with Cons.prems(5) have o': "s \<le> rend q" "rstart q \<le> s + pr_size p - 1" and b: "pr_blob p = b"
      and r: "r = mkRange (max s (rstart q) - s) (min (s + pr_size p - 1) (rend q) - s)"
      by (auto simp: Let_def rangeOverlaps_def split: if_splits)
    have "0 < pr_size p"
    proof (cases "ps = []")
      case True
      with Cons.prems(1,4) o' show ?thesis by auto
    qed (use Cons.prems(2) in auto)
    moreover have "rstart q \<le> rend q" using Cons.prems(3) o' sums by auto
    ultimately show ?thesis using o' b r by (auto simp: range_in_def)
  qed
qed simp

subsection \<open>The tables\<close>

definition part_id :: "part_row \<Rightarrow> string \<times> int" where
  "part_id p = (pr_upload_id p, pr_part_number p)"

definition part_ok :: "object_row list \<Rightarrow> upload_row list \<Rightarrow> part_row \<Rightarrow> bool" where
  "part_ok objs uploads p \<longleftrightarrow>
     (\<exists>u \<in> set uploads. ur_upload_id u = pr_upload_id p \<and>
        (case pr_object_key p of
           None \<Rightarrow> ur_state u = IN_PROGRESS
         | Some k \<Rightarrow> ur_state u = COMPLETED \<and> ur_key u = k \<and>
                     (\<exists>ob \<in> set objs. or_key ob = k \<and> or_blob ob = None)))"

definition tables_inv :: "object_row list \<Rightarrow> upload_row list \<Rightarrow> part_row list \<Rightarrow> bool" where
  "tables_inv objs uploads parts \<longleftrightarrow>
     distinct (map or_key objs) \<and> distinct (map ur_upload_id uploads) \<and> distinct (map part_id parts) \<and>
     (\<forall>p \<in> set parts. part_ok objs uploads p) \<and>
     (\<forall>p \<in> set parts. \<forall>p' \<in> set parts. pr_object_key p \<noteq> None \<longrightarrow> pr_object_key p = pr_object_key p' \<longrightarrow>
        pr_upload_id p = pr_upload_id p')"

text \<open>A multipart object records the size of its parts, of which only the last may be empty.\<close>

definition multipart_ok :: "part_row list \<Rightarrow> object_row \<Rightarrow> bool" where
  "multipart_ok parts ob \<longleftrightarrow> (or_blob ob = None \<longrightarrow>
     or_size ob = sum_list (map pr_size (stmtListPartsByKey parts (or_key ob))) \<and>
     (\<forall>p \<in> set (butlast (stmtListPartsByKey parts (or_key ob))). 0 < pr_size p))"

definition blob_list :: "object_row \<Rightarrow> string list" where
  "blob_list ob = (case or_blob ob of None \<Rightarrow> [] | Some b \<Rightarrow> [b])"

definition refs :: "object_row list \<Rightarrow> part_row list \<Rightarrow> string list" where
  "refs objs parts = concat (map blob_list objs) @ map pr_blob parts"

definition sized :: "object_row list \<Rightarrow> part_row list \<Rightarrow> (string \<times> int) set" where
  "sized objs parts = (\<Union>ob \<in> set objs. (\<lambda>b. (b, or_size ob)) ` set (blob_list ob))
     \<union> (\<lambda>p. (pr_blob p, pr_size p)) ` set parts"

lemma refs_sized: "set (refs objs parts) = fst ` sized objs parts"
  by (simp add: refs_def sized_def image_Un image_UN image_image)

lemma sized_subset: "set objs' \<subseteq> set objs \<Longrightarrow> set parts' \<subseteq> set parts \<Longrightarrow> sized objs' parts' \<subseteq> sized objs parts"
  unfolding sized_def by blast

lemma mset_concat_filter:
  "mset (concat (map f xs)) = mset (concat (map f (filter P xs))) + mset (concat (map f (filter (\<lambda>x. \<not> P x) xs)))"
  by (induction xs) auto

lemma mset_map_filter:
  "mset (map f xs) = mset (map f (filter P xs)) + mset (map f (filter (\<lambda>x. \<not> P x) xs))"
  by (induction xs) auto

text \<open>A part of an upload in progress is linked to no object.\<close>

lemma tables_invD:
  assumes "tables_inv objs uploads parts"
  shows "distinct (map or_key objs)" "distinct (map ur_upload_id uploads)" "distinct (map part_id parts)"
    "p \<in> set parts \<Longrightarrow> part_ok objs uploads p"
    "p \<in> set parts \<Longrightarrow> p' \<in> set parts \<Longrightarrow> pr_object_key p = Some k \<Longrightarrow> pr_object_key p' = Some k \<Longrightarrow>
       pr_upload_id p = pr_upload_id p'"
proof -
  from assms show "distinct (map or_key objs)" "distinct (map ur_upload_id uploads)" "distinct (map part_id parts)"
    unfolding tables_inv_def by blast+
  from assms show "p \<in> set parts \<Longrightarrow> part_ok objs uploads p" unfolding tables_inv_def by blast
  assume "p \<in> set parts" "p' \<in> set parts" "pr_object_key p = Some k" "pr_object_key p' = Some k"
  moreover have "\<forall>p \<in> set parts. \<forall>p' \<in> set parts. pr_object_key p \<noteq> None \<longrightarrow>
      pr_object_key p = pr_object_key p' \<longrightarrow> pr_upload_id p = pr_upload_id p'"
    using assms unfolding tables_inv_def by blast
  ultimately show "pr_upload_id p = pr_upload_id p'" by (metis option.distinct(1))
qed

lemma tables_invI:
  assumes "distinct (map or_key objs)" "distinct (map ur_upload_id uploads)" "distinct (map part_id parts)"
    and "\<And>p. p \<in> set parts \<Longrightarrow> part_ok objs uploads p"
    and "\<And>p p' k. p \<in> set parts \<Longrightarrow> p' \<in> set parts \<Longrightarrow> pr_object_key p = Some k \<Longrightarrow> pr_object_key p' = Some k \<Longrightarrow>
       pr_upload_id p = pr_upload_id p'"
  shows "tables_inv objs uploads parts"
  unfolding tables_inv_def
proof (intro conjI ballI impI)
  fix p p'
  assume "p \<in> set parts" "p' \<in> set parts" "pr_object_key p \<noteq> None" "pr_object_key p = pr_object_key p'"
  with assms(5) show "pr_upload_id p = pr_upload_id p'" by (metis option.exhaust_sel)
qed (use assms in simp_all)

lemma part_ok_None:
  "pr_object_key p = None \<Longrightarrow> part_ok objs uploads p \<longleftrightarrow>
     (\<exists>u \<in> set uploads. ur_upload_id u = pr_upload_id p \<and> ur_state u = IN_PROGRESS)"
  by (simp add: part_ok_def)

lemma part_ok_Some:
  "pr_object_key p = Some k \<Longrightarrow> part_ok objs uploads p \<longleftrightarrow>
     (\<exists>u \<in> set uploads. ur_upload_id u = pr_upload_id p \<and> ur_state u = COMPLETED \<and> ur_key u = k) \<and>
     (\<exists>ob \<in> set objs. or_key ob = k \<and> or_blob ob = None)"
  by (simp add: part_ok_def) blast

lemma same_upload:
  "tables_inv objs uploads parts \<Longrightarrow> u \<in> set uploads \<Longrightarrow> u' \<in> set uploads \<Longrightarrow>
     ur_upload_id u = ur_upload_id u' \<Longrightarrow> u = u'"
  using tables_invD(2) by (metis distinct_map inj_onD)

lemma in_progress_unlinked:
  assumes "tables_inv objs uploads parts" "u \<in> set uploads" "ur_state u = IN_PROGRESS"
    "p \<in> set parts" "pr_upload_id p = ur_upload_id u"
  shows "pr_object_key p = None"
proof (rule ccontr)
  assume "pr_object_key p \<noteq> None"
  then obtain k where "pr_object_key p = Some k" by blast
  with tables_invD(4) [OF assms(1,4)] obtain u' where
    "u' \<in> set uploads" "ur_upload_id u' = pr_upload_id p" "ur_state u' = COMPLETED"
    using part_ok_Some by blast
  with same_upload [OF assms(1,2), of u'] assms(3,5) show False by simp
qed

lemma unlinked_key:
  assumes "tables_inv objs uploads parts" "\<forall>ob. stmtGetByKey objs key = Some ob \<longrightarrow> or_blob ob \<noteq> None"
  shows "filter (\<lambda>p. pr_object_key p = Some key) parts = []"
  unfolding filter_empty_conv
proof (intro ballI notI)
  fix p
  assume p: "p \<in> set parts" "pr_object_key p = Some key"
  with tables_invD(4) [OF assms(1)] obtain ob where ob: "ob \<in> set objs" "or_key ob = key" "or_blob ob = None"
    using part_ok_Some by blast
  then have "stmtGetByKey objs key = Some ob"
    using tables_invD(1) [OF assms(1)] by (simp add: stmtGetByKey_def find_key_iff)
  with assms(2) ob show False by simp
qed

text \<open>What an object gives up: its own blob and the rows of its parts, in one formula.\<close>

lemma releaseObject_eq:
  assumes "tables_inv objs uploads parts"
  shows "releaseObject parts key (stmtGetByKey objs key) =
    (concat (map blob_list (filter (\<lambda>r. or_key r = key) objs)) @
       map pr_blob (filter (\<lambda>p. pr_object_key p = Some key) parts),
     filter (\<lambda>p. pr_object_key p \<noteq> Some key) parts)"
proof -
  have f: "filter (\<lambda>r. or_key r = key) objs = (case stmtGetByKey objs key of None \<Rightarrow> [] | Some r \<Rightarrow> [r])"
    using assms by (simp add: stmtGetByKey_def filter_key_find tables_inv_def)
  have keep: "filter (\<lambda>p. pr_object_key p = Some key) parts = [] \<Longrightarrow>
      filter (\<lambda>p. pr_object_key p \<noteq> Some key) parts = parts"
    unfolding filter_empty_conv by (rule filter_True)
  show ?thesis
  proof (cases "\<forall>ob. stmtGetByKey objs key = Some ob \<longrightarrow> or_blob ob \<noteq> None")
    case True
    with unlinked_key [OF assms True] keep show ?thesis
      by (cases "stmtGetByKey objs key") (force simp add: releaseObject_def f blob_list_def)+
  next
    case False
    then obtain ob where "stmtGetByKey objs key = Some ob" "or_blob ob = None" by blast
    then show ?thesis
      by (simp add: releaseObject_def f blob_list_def stmtDeletePartsByKey_def deleteParts_def)
  qed
qed

lemma release_mset:
  "mset (refs (stmtDelete objs key) (filter (\<lambda>p. pr_object_key p \<noteq> Some key) parts) @
     concat (map blob_list (filter (\<lambda>r. or_key r = key) objs)) @
     map pr_blob (filter (\<lambda>p. pr_object_key p = Some key) parts)) = mset (refs objs parts)"
proof -
  have "mset (concat (map blob_list objs)) = mset (concat (map blob_list (stmtDelete objs key))) +
      mset (concat (map blob_list (filter (\<lambda>r. or_key r = key) objs)))"
    using mset_concat_filter [of blob_list objs "\<lambda>r. or_key r \<noteq> key"] by (simp add: stmtDelete_def)
  moreover have "mset (map pr_blob parts) =
      mset (map pr_blob (filter (\<lambda>p. pr_object_key p \<noteq> Some key) parts)) +
      mset (map pr_blob (filter (\<lambda>p. pr_object_key p = Some key) parts))"
    using mset_map_filter [of pr_blob parts "\<lambda>p. pr_object_key p \<noteq> Some key"] by (simp only: not_not)
  ultimately show ?thesis by (simp add: refs_def)
qed

lemma listParts_filter:
  "(\<And>p. p \<in> set parts \<Longrightarrow> pr_object_key p = Some key \<Longrightarrow> Q p) \<Longrightarrow>
   stmtListPartsByKey (filter Q parts) key = stmtListPartsByKey parts key"
  unfolding stmtListPartsByKey_def filter_filter by (rule arg_cong [OF filter_cong]) blast+

lemma listParts_delete_key:
  "key' \<noteq> key \<Longrightarrow>
   stmtListPartsByKey (filter (\<lambda>p. pr_object_key p \<noteq> Some key) parts) key' = stmtListPartsByKey parts key'"
  by (rule listParts_filter) simp

lemma part_ok_mono:
  assumes "part_ok objs uploads p"
    and "\<And>k ob. pr_object_key p = Some k \<Longrightarrow> ob \<in> set objs \<Longrightarrow> or_key ob = k \<Longrightarrow> ob \<in> set objs'"
  shows "part_ok objs' uploads p"
proof (cases "pr_object_key p")
  case None
  with assms(1) show ?thesis by (simp add: part_ok_None)
next
  case (Some k)
  with assms show ?thesis unfolding part_ok_Some [OF Some] by blast
qed

lemma part_ok_uploads_mono:
  assumes "part_ok objs uploads p" "set uploads \<subseteq> set uploads'"
  shows "part_ok objs uploads' p"
  using assms unfolding part_ok_def by (meson subsetD)

lemma set_stmtDelete: "set (stmtDelete objs key) = {ob \<in> set objs. or_key ob \<noteq> key}"
  by (simp add: stmtDelete_def)

lemma set_stmtPut: "set (stmtPut objs row) = {ob \<in> set objs. or_key ob \<noteq> or_key row} \<union> {row}"
  by (simp add: stmtPut_def)

lemma stmtPut_delete: "stmtPut objs row = stmtDelete objs (or_key row) @ [row]"
  by (simp add: stmtPut_def stmtDelete_def)

text \<open>Keeping fewer parts, and at least the objects the kept parts are linked to.\<close>

lemma tables_inv_shrink:
  assumes "tables_inv objs uploads parts" "distinct (map or_key objs')"
    and "\<And>p k ob. p \<in> set parts \<Longrightarrow> Q p \<Longrightarrow> pr_object_key p = Some k \<Longrightarrow> ob \<in> set objs \<Longrightarrow> or_key ob = k
      \<Longrightarrow> ob \<in> set objs'"
  shows "tables_inv objs' uploads (filter Q parts)"
  unfolding tables_inv_def
proof (intro conjI ballI impI)
  fix p p'
  assume p: "p \<in> set (filter Q parts)"
  then show "part_ok objs' uploads p"
    using assms(3) by (intro part_ok_mono [OF tables_invD(4) [OF assms(1)]]) auto
  assume "p' \<in> set (filter Q parts)" "pr_object_key p \<noteq> None" "pr_object_key p = pr_object_key p'"
  with p show "pr_upload_id p = pr_upload_id p'"
    using tables_invD(5) [OF assms(1), of p p'] by (metis filter_is_subset option.exhaust_sel subsetD)
qed (use assms(2) tables_invD [OF assms(1)] in \<open>simp_all add: distinct_map_filter\<close>)

lemma tables_inv_delete:
  assumes "tables_inv objs uploads parts"
  shows "tables_inv (stmtDelete objs key) uploads (filter (\<lambda>p. pr_object_key p \<noteq> Some key) parts)"
  using tables_invD(1) [OF assms]
  by (intro tables_inv_shrink [OF assms]) (simp_all add: stmtDelete_def distinct_map_filter)

lemma tables_inv_put:
  assumes "tables_inv objs uploads parts"
  shows "tables_inv (stmtPut objs row) uploads (filter (\<lambda>p. pr_object_key p \<noteq> Some (or_key row)) parts)"
  using tables_invD(1) [OF assms]
  by (intro tables_inv_shrink [OF assms]) (simp_all add: stmtPut_def distinct_map_filter_snoc [simplified])

lemma multipart_ok_cong:
  "stmtListPartsByKey parts' (or_key ob) = stmtListPartsByKey parts (or_key ob) \<Longrightarrow>
   multipart_ok parts ob \<Longrightarrow> multipart_ok parts' ob"
  unfolding multipart_ok_def by simp

lemma multipart_ok_delete:
  assumes "\<forall>ob \<in> set objs. multipart_ok parts ob"
  shows "\<forall>ob \<in> set (stmtDelete objs key). multipart_ok (filter (\<lambda>p. pr_object_key p \<noteq> Some key) parts) ob"
proof
  fix ob
  assume "ob \<in> set (stmtDelete objs key)"
  with assms show "multipart_ok (filter (\<lambda>p. pr_object_key p \<noteq> Some key) parts) ob"
    by (intro multipart_ok_cong [OF listParts_delete_key]) (simp_all add: set_stmtDelete)
qed

subsection \<open>The invariant\<close>

definition owned :: "'d bucket \<Rightarrow> string list" where
  "owned st = refs (bk_objects st) (bk_parts st) @ bk_pending st"

definition reading :: "'d bucket \<Rightarrow> string \<Rightarrow> nat" where
  "reading st b = sum_list (map (\<lambda>rd. count_list (map fst (rd_required rd)) b) (bk_readers st))"

definition stored :: "(string \<Rightarrow> bytes option) \<Rightarrow> string \<times> int \<Rightarrow> bool" where
  "stored c bs \<longleftrightarrow> (\<exists>v. c (fst bs) = Some v \<and> int (length v) = snd bs)"

definition readable :: "(string \<Rightarrow> bytes option) \<Rightarrow> string \<times> inclusiveRange \<Rightarrow> bool" where
  "readable c br \<longleftrightarrow> (\<exists>v. c (fst br) = Some v \<and> range_in (int (length v)) (snd br))"

definition required :: "'d bucket \<Rightarrow> (string \<times> inclusiveRange) set" where
  "required st = (\<Union>rd \<in> set (bk_readers st). set (rd_required rd))"

definition bucket_inv :: "('d \<Rightarrow> string \<Rightarrow> bytes option) \<Rightarrow> 'd bucket \<Rightarrow> bool" where
  "bucket_inv contents st \<longleftrightarrow>
     tables_inv (bk_objects st) (bk_uploads st) (bk_parts st) \<and>
     (\<forall>ob \<in> set (bk_objects st). multipart_ok (bk_parts st) ob) \<and>
     (\<forall>bs \<in> sized (bk_objects st) (bk_parts st). stored (contents (bk_disk st)) bs) \<and>
     distinct (owned st) \<and> (\<forall>b \<in> set (owned st). is_blob_id b) \<and>
     (\<forall>b. bk_inUse st b = reading st b) \<and>
     (\<forall>br \<in> required st. fst br \<in> set (owned st) \<and> readable (contents (bk_disk st)) br)"

definition bucket_fresh :: "'d bucket \<Rightarrow> nonce \<Rightarrow> bool" where
  "bucket_fresh st n \<longleftrightarrow> generateBlobId n \<notin> set (owned st)"

text \<open>
  A transaction that keeps the tables well formed, hands the blobs \<open>old\<close> to the garbage queue and
  takes over new blobs \<open>B\<close> keeps the invariant.
\<close>

lemma bucket_inv_update:
  assumes inv: "bucket_inv contents st"
    and "tables_inv objs uploads parts" "\<forall>ob \<in> set objs. multipart_ok parts ob"
    and own: "mset (refs objs parts @ old) = mset (refs (bk_objects st) (bk_parts st)) + mset B"
    and "\<forall>bs \<in> sized objs parts. bs \<in> sized (bk_objects st) (bk_parts st) \<or> stored (contents (bk_disk st)) bs"
    and B: "distinct B" "set B \<inter> set (owned st) = {}" "\<forall>b \<in> set B. is_blob_id b"
  shows "bucket_inv contents
    (bk_backgroundDelete old (st\<lparr>bk_objects := objs, bk_uploads := uploads, bk_parts := parts\<rparr>))"
proof -
  let ?st = "bk_backgroundDelete old (st\<lparr>bk_objects := objs, bk_uploads := uploads, bk_parts := parts\<rparr>)"
  have m: "mset (owned ?st) = mset (owned st) + mset B"
    using own by (simp add: owned_def bk_backgroundDelete_def)
  then have s: "set (owned ?st) = set (owned st) \<union> set B" by (metis mset_append set_append set_mset_mset)
  have "mset (owned ?st) = mset (owned st @ B)" using m by simp
  then have "distinct (owned ?st)"
    using inv B by (metis bucket_inv_def distinct_append inf_commute mset_eq_imp_distinct_iff)
  then show ?thesis
    using inv assms(2,3,5) B(3) s
    unfolding bucket_inv_def by (simp add: bk_backgroundDelete_def reading_def required_def) blast
qed

lemma bucket_inv_tables:
  assumes "bucket_inv contents st" "tables_inv objs uploads parts" "\<forall>ob \<in> set objs. multipart_ok parts ob"
    and "mset (refs objs parts @ old) = mset (refs (bk_objects st) (bk_parts st))"
    and "sized objs parts \<subseteq> sized (bk_objects st) (bk_parts st)"
  shows "bucket_inv contents
    (bk_backgroundDelete old (st\<lparr>bk_objects := objs, bk_uploads := uploads, bk_parts := parts\<rparr>))"
proof (rule bucket_inv_update [OF assms(1-3), where B = "[]"])
  show "mset (refs objs parts @ old) = mset (refs (bk_objects st) (bk_parts st)) + mset []"
    unfolding assms(4) by simp
  show "\<forall>bs \<in> sized objs parts. bs \<in> sized (bk_objects st) (bk_parts st) \<or> stored (contents (bk_disk st)) bs"
    using assms(5) by blast
qed simp_all

subsection \<open>Deleting and replacing objects\<close>

lemma txn_deleteByKeys_inv:
  assumes "tables_inv objs uploads parts" "\<forall>ob \<in> set objs. multipart_ok parts ob"
    and "txn_deleteByKeys keys objs parts = (old, objs', parts')"
  shows "tables_inv objs' uploads parts' \<and> (\<forall>ob \<in> set objs'. multipart_ok parts' ob) \<and>
    mset (refs objs' parts' @ old) = mset (refs objs parts) \<and> set objs' \<subseteq> set objs \<and> set parts' \<subseteq> set parts"
  using assms
proof (induction keys arbitrary: objs parts old)
  case (Cons key keys)
  let ?objs = "stmtDelete objs key" and ?parts = "filter (\<lambda>p. pr_object_key p \<noteq> Some key) parts"
  let ?old = "concat (map blob_list (filter (\<lambda>r. or_key r = key) objs)) @
    map pr_blob (filter (\<lambda>p. pr_object_key p = Some key) parts)"
  obtain olds where rest: "txn_deleteByKeys keys ?objs ?parts = (olds, objs', parts')" and old: "old = ?old @ olds"
    using Cons.prems(3) by (auto simp: Let_def releaseObject_eq [OF Cons.prems(1)] split: prod.splits)
  from Cons.IH [OF tables_inv_delete [OF Cons.prems(1)] multipart_ok_delete [OF Cons.prems(2)] rest]
  have IH: "tables_inv objs' uploads parts'" "\<forall>ob \<in> set objs'. multipart_ok parts' ob"
    "mset (refs objs' parts' @ olds) = mset (refs ?objs ?parts)" "set objs' \<subseteq> set ?objs" "set parts' \<subseteq> set ?parts"
    by blast+
  have "mset (refs objs' parts' @ old) = mset (refs ?objs ?parts @ ?old)" using IH(3) by (simp add: old)
  also have "\<dots> = mset (refs objs parts)" by (rule release_mset)
  finally show ?case using IH by (simp add: set_stmtDelete) blast
qed simp

lemma txn_put_eq:
  assumes "tables_inv objs uploads parts" "txn_put row onlyIf objs parts = Inr (old, objs', parts')"
  shows "objs' = stmtPut objs row" "parts' = filter (\<lambda>p. pr_object_key p \<noteq> Some (or_key row)) parts"
    "old = concat (map blob_list (filter (\<lambda>r. or_key r = or_key row) objs)) @
       map pr_blob (filter (\<lambda>p. pr_object_key p = Some (or_key row)) parts)"
  using assms(2) unfolding txn_put_def Let_def releaseObject_eq [OF assms(1)] by auto

lemma refs_stmtPut:
  "mset (refs (stmtPut objs row) parts) = mset (refs (stmtDelete objs (or_key row)) parts) + mset (blob_list row)"
  by (simp add: refs_def stmtPut_delete)

lemma multipart_ok_put:
  assumes "\<forall>ob \<in> set objs. multipart_ok parts ob" "or_blob row \<noteq> None"
  shows "\<forall>ob \<in> set (stmtPut objs row). multipart_ok (filter (\<lambda>p. pr_object_key p \<noteq> Some (or_key row)) parts) ob"
proof -
  have "multipart_ok (filter (\<lambda>p. pr_object_key p \<noteq> Some (or_key row)) parts) row"
    using assms(2) unfolding multipart_ok_def by blast
  with multipart_ok_delete [OF assms(1), of "or_key row"] show ?thesis
    unfolding stmtPut_delete by (simp only: set_append set_simps ball_Un ball_simps simp_thms)
qed

lemma sized_put:
  "sized (stmtPut objs row) (filter Q parts) \<subseteq>
     sized objs parts \<union> (\<lambda>b. (b, or_size row)) ` set (blob_list row)"
  unfolding sized_def set_stmtPut by auto

subsection \<open>Uploading parts\<close>

lemma stmtGetUpload_mem:
  "stmtGetUpload uploads uid key = Some u \<Longrightarrow> u \<in> set uploads \<and> ur_upload_id u = uid \<and> ur_key u = key"
  unfolding stmtGetUpload_def find_Some_iff by (metis nth_mem)

lemma txn_putPart_eq:
  assumes "txn_putPart key row uploads parts = Inr (old, parts')"
  obtains u where "u \<in> set uploads" "ur_upload_id u = pr_upload_id row" "ur_state u = IN_PROGRESS"
    "old = map_option pr_blob (find (\<lambda>p. part_id p = part_id row) parts)"
    "parts' = filter (\<lambda>p. part_id p \<noteq> part_id row) parts @ [row\<lparr>pr_object_key := None\<rparr>]"
proof -
  from assms obtain u where u: "stmtGetUpload uploads (pr_upload_id row) key = Some u" "ur_state u = IN_PROGRESS"
    unfolding txn_putPart_def by (cases "stmtGetUpload uploads (pr_upload_id row) key") (simp_all split: if_splits)
  then have "old = map_option pr_blob (find (\<lambda>p. part_id p = part_id row) parts)"
    "parts' = filter (\<lambda>p. part_id p \<noteq> part_id row) parts @ [row\<lparr>pr_object_key := None\<rparr>]"
    using assms unfolding txn_putPart_def part_id_def stmtGetPreviousPartByNumber_def stmtPutPart_def by simp_all
  with stmtGetUpload_mem [OF u(1)] u(2) that show ?thesis by blast
qed

lemma part_id_unlink [simp]: "part_id (p\<lparr>pr_object_key := k\<rparr>) = part_id p"
  by (simp add: part_id_def)

lemma tables_inv_putPart:
  assumes t: "tables_inv objs uploads parts"
    and u: "u \<in> set uploads" "ur_upload_id u = pr_upload_id row" "ur_state u = IN_PROGRESS"
  shows "tables_inv objs uploads (filter (\<lambda>p. part_id p \<noteq> part_id row) parts @ [row\<lparr>pr_object_key := None\<rparr>])"
proof -
  let ?new = "row\<lparr>pr_object_key := None\<rparr>"
  have f: "tables_inv objs uploads (filter (\<lambda>p. part_id p \<noteq> part_id row) parts)"
    by (rule tables_inv_shrink [OF t tables_invD(1) [OF t]])
  have new: "part_ok objs uploads ?new" using u by (simp add: part_ok_None) blast
  have "distinct (map part_id (filter (\<lambda>p. part_id p \<noteq> part_id row) parts @ [?new]))"
    using distinct_map_filter_snoc [OF tables_invD(3) [OF t], of ?new] by simp
  then show ?thesis
  proof (rule tables_invI [OF tables_invD(1,2) [OF t]])
    fix p p' k
    assume p: "p \<in> set (filter (\<lambda>p. part_id p \<noteq> part_id row) parts @ [?new])"
    then consider "p \<in> set (filter (\<lambda>p. part_id p \<noteq> part_id row) parts)" | "p = ?new"
      by (metis Un_iff empty_iff insert_iff list.set set_append)
    then show "part_ok objs uploads p" using new tables_invD(4) [OF f] by cases simp_all
    assume p': "p' \<in> set (filter (\<lambda>p. part_id p \<noteq> part_id row) parts @ [?new])"
      and k: "pr_object_key p = Some k" "pr_object_key p' = Some k"
    have "pr_object_key ?new = None" by simp
    with k have "p \<noteq> ?new" "p' \<noteq> ?new" by (metis option.distinct(1))+
    with p p' have "p \<in> set (filter (\<lambda>p. part_id p \<noteq> part_id row) parts)"
      "p' \<in> set (filter (\<lambda>p. part_id p \<noteq> part_id row) parts)"
      by (metis Un_iff empty_iff insert_iff list.set set_append)+
    from tables_invD(5) [OF f this k] show "pr_upload_id p = pr_upload_id p'" .
  qed
qed

lemma listParts_putPart:
  assumes t: "tables_inv objs uploads parts"
    and u: "u \<in> set uploads" "ur_upload_id u = pr_upload_id row" "ur_state u = IN_PROGRESS"
  shows "stmtListPartsByKey (filter (\<lambda>p. part_id p \<noteq> part_id row) parts @ [row\<lparr>pr_object_key := None\<rparr>]) key =
    stmtListPartsByKey parts key"
proof -
  have "part_id p \<noteq> part_id row" if "p \<in> set parts" "pr_object_key p = Some key" for p
    using in_progress_unlinked [OF t u(1,3) that(1)] that(2) u(2) by (auto simp: part_id_def)
  from listParts_filter [of parts key "\<lambda>p. part_id p \<noteq> part_id row", OF this] show ?thesis
    by (simp add: stmtListPartsByKey_def)
qed

lemma refs_putPart:
  assumes "distinct (map part_id parts)"
  shows "mset (refs objs (filter (\<lambda>p. part_id p \<noteq> part_id row) parts @ [row\<lparr>pr_object_key := None\<rparr>]) @
      (case map_option pr_blob (find (\<lambda>p. part_id p = part_id row) parts) of None \<Rightarrow> [] | Some b \<Rightarrow> [b]))
    = mset (refs objs parts) + mset [pr_blob row]"
proof -
  have "map pr_blob (filter (\<lambda>p. part_id p = part_id row) parts) =
      (case map_option pr_blob (find (\<lambda>p. part_id p = part_id row) parts) of None \<Rightarrow> [] | Some b \<Rightarrow> [b])"
    unfolding filter_key_find [OF assms] by (simp split: option.split)
  with mset_map_filter [of pr_blob parts "\<lambda>p. part_id p \<noteq> part_id row"] show ?thesis
    by (simp add: refs_def)
qed

subsection \<open>Aborting and completing uploads\<close>

lemma updateState_upload:
  assumes "part_ok objs uploads p" "pr_upload_id p \<noteq> uid"
  shows "part_ok objs (stmtUpdateUploadState uploads uid s) p"
proof -
  have keep: "u \<in> set (stmtUpdateUploadState uploads uid s)" if "u \<in> set uploads" "ur_upload_id u \<noteq> uid" for u
    using imageI [OF that(1), of "\<lambda>u. if ur_upload_id u = uid then u\<lparr>ur_state := s\<rparr> else u"] that(2)
    by (simp add: stmtUpdateUploadState_def)
  show ?thesis
  proof (cases "pr_object_key p")
    case None
    with assms keep show ?thesis unfolding part_ok_None [OF None] by metis
  next
    case (Some k)
    with assms keep show ?thesis unfolding part_ok_Some [OF Some] by metis
  qed
qed

lemma updateState_ids: "map ur_upload_id (stmtUpdateUploadState uploads uid s) = map ur_upload_id uploads"
  by (simp add: stmtUpdateUploadState_def)

lemma tables_inv_abort:
  assumes t: "tables_inv objs uploads parts"
  shows "tables_inv objs (stmtUpdateUploadState uploads uid s) (filter (\<lambda>p. pr_upload_id p \<noteq> uid) parts)"
proof -
  have f: "tables_inv objs uploads (filter (\<lambda>p. pr_upload_id p \<noteq> uid) parts)"
    by (rule tables_inv_shrink [OF t tables_invD(1) [OF t]])
  then have "\<forall>p \<in> set (filter (\<lambda>p. pr_upload_id p \<noteq> uid) parts). part_ok objs (stmtUpdateUploadState uploads uid s) p"
    using tables_invD(4) updateState_upload by simp
  with f show ?thesis unfolding tables_inv_def updateState_ids by blast
qed

definition link :: "string \<Rightarrow> string \<Rightarrow> int set \<Rightarrow> part_row \<Rightarrow> part_row" where
  "link key uid N p =
     (if pr_upload_id p = uid \<and> pr_part_number p \<in> N then p\<lparr>pr_object_key := Some key\<rparr> else p)"

lemma link_sel [simp]:
  "pr_upload_id (link key uid N p) = pr_upload_id p" "pr_part_number (link key uid N p) = pr_part_number p"
  "pr_blob (link key uid N p) = pr_blob p" "pr_size (link key uid N p) = pr_size p"
  "part_id (link key uid N p) = part_id p"
  "pr_object_key (link key uid N p) =
     (if pr_upload_id p = uid \<and> pr_part_number p \<in> N then Some key else pr_object_key p)"
  by (simp_all add: link_def part_id_def)

lemma fold_stmtLinkPart:
  "fold (\<lambda>p. stmtLinkPart key uid (pr_part_number p)) ps parts =
     map (link key uid (pr_part_number ` set ps)) parts"
proof (induction ps arbitrary: parts)
  case Nil
  then show ?case by (simp add: link_def map_idI)
next
  case (Cons q ps)
  have "map (link key uid (pr_part_number ` set ps)) (stmtLinkPart key uid (pr_part_number q) parts) =
      map (link key uid (pr_part_number ` set (q # ps))) parts"
    by (simp add: stmtLinkPart_def link_def) blast
  with Cons show ?case by simp
qed

lemma selectParts_ok:
  "selectParts up ss = Inr sel \<Longrightarrow>
     map pr_part_number sel = map pp_part ss \<and> set sel \<subseteq> set up \<and> map pr_etag sel = map pp_etag ss"
proof (induction ss arbitrary: sel)
  case (Cons s ss)
  from Cons.prems obtain p ps where p: "find (\<lambda>p. pr_part_number p = pp_part s) up = Some p" "pr_etag p = pp_etag s"
    and ps: "selectParts up ss = Inr ps" "sel = p # ps"
    by (simp split: option.splits if_splits) blast
  from find_key_mem [of pr_part_number "pp_part s", OF p(1)] p(2) Cons.IH [OF ps(1)] ps(2) show ?case by simp
qed simp

lemma sort_parts: "js_sort (\<lambda>a b. pr_part_number a - pr_part_number b) ps = sort_key pr_part_number ps"
  by (rule js_sort_sort_key) simp

lemma same_part:
  "distinct (map part_id parts) \<Longrightarrow> p \<in> set parts \<Longrightarrow> q \<in> set parts \<Longrightarrow>
     pr_upload_id p = pr_upload_id q \<Longrightarrow> pr_part_number p = pr_part_number q \<Longrightarrow> p = q"
  unfolding distinct_map part_id_def by (metis (mono_tags, lifting) inj_onD)

lemma selectParts_sorted:
  assumes d: "distinct (map part_id parts)" and ss: "distinct (map pp_part ss)"
    and sel: "selectParts (stmtListPartsByUploadId parts uid) ss = Inr sel"
  shows "sort_key pr_part_number sel = sort_key pr_part_number
    (filter (\<lambda>p. pr_upload_id p = uid \<and> pr_part_number p \<in> set (map pp_part ss)) parts)"
    (is "_ = sort_key _ ?F")
proof -
  from selectParts_ok [OF sel] have nums: "map pr_part_number sel = map pp_part ss"
    and sub: "set sel \<subseteq> set (stmtListPartsByUploadId parts uid)" by blast+
  have dn: "distinct (map pr_part_number sel)" unfolding nums by (rule ss)
  have dF: "distinct ?F" using d by (intro distinct_filter) (simp add: distinct_map)
  have "set sel = set ?F"
  proof (intro equalityI subsetI)
    fix p
    assume "p \<in> set sel"
    moreover from this have "pr_part_number p \<in> set (map pp_part ss)" unfolding nums [symmetric] by simp
    ultimately show "p \<in> set ?F" using sub by (auto simp only: stmtListPartsByUploadId_def set_filter)
  next
    fix p
    assume p: "p \<in> set ?F"
    then have "pr_part_number p \<in> set (map pr_part_number sel)" unfolding nums by simp
    then obtain q where q: "q \<in> set sel" "pr_part_number q = pr_part_number p" by (metis image_iff list.set_map)
    then have "q \<in> set parts" "pr_upload_id q = uid" using sub unfolding stmtListPartsByUploadId_def set_filter by blast+
    with same_part [OF d, of p q] p q show "p \<in> set sel" by simp
  qed
  with dn dF have "mset sel = mset ?F"
    by (simp add: set_eq_iff_mset_eq_distinct distinct_map del: set_filter)
  moreover have "inj_on pr_part_number (set sel)" using dn by (simp add: distinct_map)
  ultimately show ?thesis
    by (intro sort_key_inj_key_eq) simp_all
qed

lemma checkPartSizes_min:
  "checkPartSizes m ps0 ps = Inr r \<Longrightarrow> \<forall>p \<in> set ps. m \<le> pr_size p"
  by (induction ps arbitrary: ps0) (simp_all add: Let_def not_less split: if_splits)

lemma checkParts_ok:
  assumes "checkParts m sel = Inr ps"
  shows "ps = sort_key pr_part_number sel \<and> (\<forall>p \<in> set (butlast ps). m \<le> pr_size p)"
proof -
  let ?s = "sort_key pr_part_number sel"
  from assms obtain r where r: "checkPartSizes m None (butlast ?s) = Inr r"
    unfolding checkParts_def sort_parts Let_def by (simp split: if_splits) blast
  with assms have "ps = ?s"
    unfolding checkParts_def sort_parts Let_def by (simp split: if_splits option.splits)
  with checkPartSizes_min [OF r] show ?thesis by simp
qed

text \<open>What a completion does to the tables, for the set \<open>N\<close> of selected part numbers.\<close>

definition selected :: "string \<Rightarrow> int set \<Rightarrow> part_row list \<Rightarrow> part_row list" where
  "selected uid N parts =
     sort_key pr_part_number (filter (\<lambda>p. pr_upload_id p = uid \<and> pr_part_number p \<in> N) parts)"

definition kept :: "string \<Rightarrow> string \<Rightarrow> int set \<Rightarrow> part_row \<Rightarrow> bool" where
  "kept key uid N p \<longleftrightarrow> pr_object_key p \<noteq> Some key \<and> (pr_upload_id p = uid \<longrightarrow> pr_part_number p \<in> N)"

lemma complete_eq:
  assumes t: "tables_inv objs uploads parts"
    and c: "txn_completeMultipartUpload digest version now key uid ss m objs uploads parts = Inr cr"
    and N: "N = set (map pp_part ss)" and ps: "ps = selected uid N parts"
  obtains u where "u \<in> set uploads" "ur_upload_id u = uid" "ur_key u = key" "ur_state u = IN_PROGRESS"
    and "\<forall>p \<in> set (butlast ps). m \<le> pr_size p"
    and "or_key (cr_newRow cr) = key" "or_blob (cr_newRow cr) = None"
      "or_size (cr_newRow cr) = sum_list (map pr_size ps)"
    and "cr_objects cr = stmtPut objs (cr_newRow cr)"
    and "cr_uploads cr = stmtUpdateUploadState uploads uid COMPLETED"
    and "cr_parts cr = map (link key uid N) (filter (kept key uid N) parts)"
    and "cr_oldBlobIds cr = concat (map blob_list (filter (\<lambda>r. or_key r = key) objs)) @
      map pr_blob (filter (\<lambda>p. pr_object_key p = Some key) parts) @
      map pr_blob (filter (\<lambda>p. pr_upload_id p = uid \<and> pr_part_number p \<notin> N) parts)"
proof -
  from c obtain u where u: "stmtGetUpload uploads uid key = Some u" "ur_state u = IN_PROGRESS"
    unfolding txn_completeMultipartUpload_def
    by (cases "stmtGetUpload uploads uid key") (simp_all split: if_splits)
  note mem = stmtGetUpload_mem [OF u(1)]
  from c u have d: "distinct (map pp_part ss)"
    unfolding txn_completeMultipartUpload_def by (simp split: if_splits)
  from c u d obtain sel ps' where sel: "selectParts (stmtListPartsByUploadId parts uid) ss = Inr sel"
    and ps': "checkParts m sel = Inr ps'"
    unfolding txn_completeMultipartUpload_def by auto
  have ps'_eq: "ps' = ps" and min: "\<forall>p \<in> set (butlast ps). m \<le> pr_size p"
    using checkParts_ok [OF ps'] selectParts_sorted [OF tables_invD(3) [OF t] d sel] by (simp_all add: ps N selected_def)
  have "pr_part_number ` set ps' = set (map pr_part_number sel)" using checkParts_ok [OF ps'] by simp
  with selectParts_ok [OF sel] have nums: "pr_part_number ` set ps = N" unfolding ps'_eq N by simp
  have unl: "pr_object_key p = None" if "p \<in> set parts" "pr_upload_id p = uid" for p
    using in_progress_unlinked [OF t _ u(2) that(1)] mem that(2) by simp
  let ?P1 = "filter (\<lambda>p. pr_object_key p \<noteq> Some key) parts"
  have keep: "filter (\<lambda>p. \<not> (pr_upload_id p = uid \<and> pr_object_key p = None)) (map (link key uid N) ?P1) =
      map (link key uid N) (filter (kept key uid N) parts)"
    unfolding filter_map filter_filter comp_def
  proof (rule arg_cong [OF filter_cong [OF refl]])
    fix p
    assume "p \<in> set parts"
    from unl [OF this] show "(pr_object_key p \<noteq> Some key \<and>
        \<not> (pr_upload_id (link key uid N p) = uid \<and> pr_object_key (link key uid N p) = None)) = kept key uid N p"
      by (cases "pr_upload_id p = uid") (simp_all add: kept_def)
  qed
  have drop: "map pr_blob (filter (\<lambda>p. pr_upload_id p = uid \<and> pr_object_key p = None) (map (link key uid N) ?P1)) =
      map pr_blob (filter (\<lambda>p. pr_upload_id p = uid \<and> pr_part_number p \<notin> N) parts)"
    unfolding filter_map filter_filter comp_def map_map link_sel(1,3)
  proof (rule arg_cong [OF filter_cong [OF refl]])
    fix p
    assume "p \<in> set parts"
    from unl [OF this] show "(pr_object_key p \<noteq> Some key \<and> pr_upload_id p = uid \<and>
        pr_object_key (link key uid N p) = None) = (pr_upload_id p = uid \<and> pr_part_number p \<notin> N)"
      by (cases "pr_upload_id p = uid") simp_all
  qed
  have keep': "filter (\<lambda>p. pr_upload_id p = uid \<longrightarrow> (\<exists>y. pr_object_key p = Some y)) (map (link key uid N) ?P1) =
      map (link key uid N) (filter (kept key uid N) parts)"
    using keep by (simp del: filter_map)
  show ?thesis
    using mem u c d sel ps' min
    by (intro that [of u])
       (auto simp: txn_completeMultipartUpload_def releaseObject_eq [OF t] fold_stmtLinkPart ps'_eq nums
         stmtDeleteUnlinkedPartsByUploadId_def deleteParts_def keep' drop Let_def simp del: filter_map)
qed

lemma insort_key_map: "insort_key f (g x) (map g ys) = map g (insort_key (\<lambda>y. f (g y)) x ys)"
  by (induction ys) auto

lemma sort_key_map: "sort_key f (map g xs) = map g (sort_key (\<lambda>y. f (g y)) xs)"
  by (induction xs) (auto simp: insort_key_map)

lemma link_other: "pr_upload_id p \<noteq> uid \<Longrightarrow> link key uid N p = p"
  by (simp add: link_def)

lemma listParts_complete_same:
  "stmtListPartsByKey (map (link key uid N) (filter (kept key uid N) parts)) key =
     map (link key uid N) (selected uid N (filter (kept key uid N) parts))"
proof -
  have "filter (\<lambda>p. pr_object_key p = Some key) (map (link key uid N) (filter (kept key uid N) parts)) =
      map (link key uid N) (filter (\<lambda>p. pr_upload_id p = uid \<and> pr_part_number p \<in> N) (filter (kept key uid N) parts))"
    unfolding filter_map comp_def by (rule arg_cong [OF filter_cong [OF refl]]) (simp add: kept_def)
  then show ?thesis by (simp only: stmtListPartsByKey_def selected_def sort_key_map link_sel)
qed

lemma selected_kept:
  assumes t: "tables_inv objs uploads parts"
    and u: "u \<in> set uploads" "ur_upload_id u = uid" "ur_state u = IN_PROGRESS"
  shows "selected uid N (filter (kept key uid N) parts) = selected uid N parts"
  unfolding selected_def filter_filter
proof (rule arg_cong [OF filter_cong [OF refl]])
  fix p
  assume "p \<in> set parts"
  with in_progress_unlinked [OF t u(1,3)] u(2) show
    "(kept key uid N p \<and> pr_upload_id p = uid \<and> pr_part_number p \<in> N) = (pr_upload_id p = uid \<and> pr_part_number p \<in> N)"
    by (cases "pr_upload_id p = uid") (simp_all add: kept_def)
qed

lemma listParts_complete_other:
  assumes t: "tables_inv objs uploads parts"
    and u: "u \<in> set uploads" "ur_upload_id u = uid" "ur_state u = IN_PROGRESS" and k: "k \<noteq> key"
  shows "stmtListPartsByKey (map (link key uid N) (filter (kept key uid N) parts)) k = stmtListPartsByKey parts k"
proof -
  have unl: "pr_upload_id p \<noteq> uid" if "p \<in> set parts" "pr_object_key p = Some k" for p
    using in_progress_unlinked [OF t u(1,3) that(1)] u(2) that(2) by (metis option.distinct(1))
  have "filter (\<lambda>p. pr_object_key p = Some k) (map (link key uid N) (filter (kept key uid N) parts)) =
      map (link key uid N) (filter (\<lambda>p. pr_object_key p = Some k) parts)"
    unfolding filter_map filter_filter comp_def
  proof (rule arg_cong [OF filter_cong [OF refl]])
    fix p
    assume "p \<in> set parts"
    with unl [of p] k show "(kept key uid N p \<and> pr_object_key (link key uid N p) = Some k) = (pr_object_key p = Some k)"
      by (cases "pr_upload_id p = uid") (auto simp add: kept_def simp del: split_paired_Ex)
  qed
  also have "\<dots> = filter (\<lambda>p. pr_object_key p = Some k) parts"
    by (rule map_idI) (use unl in \<open>simp add: link_other\<close>)
  finally show ?thesis by (simp only: stmtListPartsByKey_def)
qed

lemma part_ok_complete:
  assumes t: "tables_inv objs uploads parts"
    and u: "u \<in> set uploads" "ur_upload_id u = uid" "ur_key u = key"
    and row: "or_key row = key" "or_blob row = None"
    and p: "p \<in> set parts" "kept key uid N p"
  shows "part_ok (stmtPut objs row) (stmtUpdateUploadState uploads uid COMPLETED) (link key uid N p)"
proof (cases "pr_upload_id p = uid")
  case True
  have "u\<lparr>ur_state := COMPLETED\<rparr> \<in> set (stmtUpdateUploadState uploads uid COMPLETED)"
    using imageI [OF u(1), of "\<lambda>u. if ur_upload_id u = uid then u\<lparr>ur_state := COMPLETED\<rparr> else u"] u(2)
    by (simp add: stmtUpdateUploadState_def)
  moreover have "row \<in> set (stmtPut objs row)" by (simp add: set_stmtPut)
  moreover have "pr_object_key (link key uid N p) = Some key" using True p(2) by (simp add: kept_def)
  moreover have "ur_upload_id (u\<lparr>ur_state := COMPLETED\<rparr>) = pr_upload_id (link key uid N p)"
    "ur_key (u\<lparr>ur_state := COMPLETED\<rparr>) = key" "ur_state (u\<lparr>ur_state := COMPLETED\<rparr>) = COMPLETED"
    using True u by simp_all
  ultimately show ?thesis using row part_ok_Some by blast
next
  case False
  have "part_ok (stmtPut objs row) uploads p"
    using p(2) row(1) by (intro part_ok_mono [OF tables_invD(4) [OF t p(1)]]) (simp add: set_stmtPut kept_def)
  with False show ?thesis by (simp add: link_other updateState_upload)
qed

lemma linked_iff:
  "kept key uid N r \<Longrightarrow> pr_object_key (link key uid N r) = Some k \<Longrightarrow> pr_upload_id r = uid \<longleftrightarrow> k = key"
  by (cases "pr_upload_id r = uid") (simp_all add: kept_def)

lemma tables_inv_complete:
  assumes t: "tables_inv objs uploads parts"
    and u: "u \<in> set uploads" "ur_upload_id u = uid" "ur_key u = key" "ur_state u = IN_PROGRESS"
    and row: "or_key row = key" "or_blob row = None"
  shows "tables_inv (stmtPut objs row) (stmtUpdateUploadState uploads uid COMPLETED)
    (map (link key uid N) (filter (kept key uid N) parts))"
proof (rule tables_invI)
  show "distinct (map or_key (stmtPut objs row))"
    using tables_invD(1) [OF t] unfolding stmtPut_def by (rule distinct_map_filter_snoc)
  show "distinct (map ur_upload_id (stmtUpdateUploadState uploads uid COMPLETED))"
    unfolding updateState_ids by (rule tables_invD(2) [OF t])
  show "distinct (map part_id (map (link key uid N) (filter (kept key uid N) parts)))"
    using tables_invD(3) [OF t] by (simp add: comp_def distinct_map_filter)
  fix p
  assume "p \<in> set (map (link key uid N) (filter (kept key uid N) parts))"
  then obtain q where q: "q \<in> set parts" "kept key uid N q" "p = link key uid N q"
    unfolding set_map set_filter by blast
  with part_ok_complete [OF t u(1-3) row] show "part_ok (stmtPut objs row) (stmtUpdateUploadState uploads uid COMPLETED) p"
    by simp
  fix p' k
  assume "p' \<in> set (map (link key uid N) (filter (kept key uid N) parts))"
    and k: "pr_object_key p = Some k" "pr_object_key p' = Some k"
  then obtain q' where q': "q' \<in> set parts" "kept key uid N q'" "p' = link key uid N q'"
    unfolding set_map set_filter by blast
  have "pr_upload_id q = uid \<longleftrightarrow> k = key" "pr_upload_id q' = uid \<longleftrightarrow> k = key"
    using linked_iff [OF q(2)] linked_iff [OF q'(2)] k unfolding q(3) q'(3) by blast+
  then show "pr_upload_id p = pr_upload_id p'"
    using tables_invD(5) [OF t q(1) q'(1), of k] k link_other [of q uid key N] link_other [of q' uid key N]
    unfolding q(3) q'(3) link_sel(1) by metis
qed

lemma refs_complete:
  assumes t: "tables_inv objs uploads parts"
    and u: "u \<in> set uploads" "ur_upload_id u = uid" "ur_state u = IN_PROGRESS"
    and row: "or_key row = key" "or_blob row = None"
  shows "mset (refs (stmtPut objs row) (map (link key uid N) (filter (kept key uid N) parts)) @
      concat (map blob_list (filter (\<lambda>r. or_key r = key) objs)) @
      map pr_blob (filter (\<lambda>p. pr_object_key p = Some key) parts) @
      map pr_blob (filter (\<lambda>p. pr_upload_id p = uid \<and> pr_part_number p \<notin> N) parts)) = mset (refs objs parts)"
proof -
  let ?P1 = "filter (\<lambda>p. pr_object_key p \<noteq> Some key) parts"
  have unl: "pr_object_key p = None" if "p \<in> set parts" "pr_upload_id p = uid" for p
    using in_progress_unlinked [OF t u(1,3) that(1)] that(2) u(2) by simp
  have "filter (\<lambda>p. \<not> (pr_upload_id p = uid \<longrightarrow> pr_part_number p \<in> N)) ?P1 =
      filter (\<lambda>p. pr_upload_id p = uid \<and> pr_part_number p \<notin> N) parts"
    unfolding filter_filter by (rule filter_cong [OF refl]) (use unl in \<open>metis option.distinct(1)\<close>)
  moreover have "filter (\<lambda>p. pr_upload_id p = uid \<longrightarrow> pr_part_number p \<in> N) ?P1 = filter (kept key uid N) parts"
    unfolding filter_filter by (rule filter_cong [OF refl]) (simp add: kept_def)
  ultimately have "mset (map pr_blob ?P1) = mset (map pr_blob (filter (kept key uid N) parts)) +
      mset (map pr_blob (filter (\<lambda>p. pr_upload_id p = uid \<and> pr_part_number p \<notin> N) parts))"
    using mset_map_filter [of pr_blob ?P1 "\<lambda>p. pr_upload_id p = uid \<longrightarrow> pr_part_number p \<in> N"] by (simp only:)
  moreover have "map pr_blob (map (link key uid N) (filter (kept key uid N) parts)) =
      map pr_blob (filter (kept key uid N) parts)"
    by (simp add: comp_def)
  moreover have "blob_list row = []" using row(2) by (simp add: blob_list_def)
  ultimately show ?thesis
    using release_mset [of objs key parts] row(1) unfolding refs_def stmtPut_delete
    by (simp only: map_append concat_append list.map concat.simps append_Nil2 mset_append add.assoc)
       (simp add: ac_simps)
qed

lemma sized_complete:
  assumes "or_blob row = None"
  shows "sized (stmtPut objs row) (map (link key uid N) (filter (kept key uid N) parts)) \<subseteq> sized objs parts"
proof -
  have "blob_list row = []" using assms by (simp add: blob_list_def)
  then show ?thesis unfolding sized_def set_stmtPut by (simp add: image_image) blast
qed

end
