(* ===== verification/R2Properties.thy ===== *)
theory R2Properties
  imports R2Invariant
begin

text \<open>
  Every operation of the R2 simulator keeps the invariant, in any interleaving with background
  deletions and running multipart reads; what a reader delivers is fixed when it starts; and the
  visible objects change as the operations promise.
\<close>

subsection \<open>Every operation keeps the invariant\<close>

lemma bucket_self [simp]:
  "st\<lparr>bk_objects := o', bk_uploads := bk_uploads st, bk_parts := p\<rparr> = st\<lparr>bk_objects := o', bk_parts := p\<rparr>"
  "st\<lparr>bk_objects := bk_objects st, bk_uploads := u, bk_parts := p\<rparr> = st\<lparr>bk_uploads := u, bk_parts := p\<rparr>"
  "st\<lparr>bk_objects := bk_objects st, bk_parts := p\<rparr> = st\<lparr>bk_parts := p\<rparr>"
  "st\<lparr>bk_parts := bk_parts st\<rparr> = st" "st\<lparr>bk_uploads := bk_uploads st\<rparr> = st" "st\<lparr>bk_objects := bk_objects st\<rparr> = st"
  by (cases st, simp)+

lemma bucket_invD:
  assumes "bucket_inv contents st"
  shows "tables_inv (bk_objects st) (bk_uploads st) (bk_parts st)"
    "\<forall>ob \<in> set (bk_objects st). multipart_ok (bk_parts st) ob"
    "bs \<in> sized (bk_objects st) (bk_parts st) \<Longrightarrow> stored (contents (bk_disk st)) bs"
    "distinct (owned st)" "b \<in> set (owned st) \<Longrightarrow> is_blob_id b" "bk_inUse st b = reading st b"
    "br \<in> required st \<Longrightarrow> fst br \<in> set (owned st) \<and> readable (contents (bk_disk st)) br"
  using assms unfolding bucket_inv_def by blast+

lemma sized_owned: "bs \<in> sized (bk_objects st) (bk_parts st) \<Longrightarrow> fst bs \<in> set (owned st)"
  unfolding owned_def set_append refs_sized by blast

context blob_store
begin

lemma bucket_inv_disk_put:
  assumes inv: "bucket_inv contents st" and fresh: "bucket_fresh st n"
  shows "bucket_inv contents (st\<lparr>bk_disk := snd (b_put bs (bk_disk st) n v)\<rparr>)"
proof -
  have same: "contents (snd (b_put bs (bk_disk st) n v)) b = contents (bk_disk st) b" if "b \<in> set (owned st)" for b
    using fresh that unfolding put_contents bucket_fresh_def by (metis fun_upd_other)
  have "stored (contents (snd (b_put bs (bk_disk st) n v))) x" if "x \<in> sized (bk_objects st) (bk_parts st)" for x
    using bucket_invD(3) [OF inv that] same [OF sized_owned [OF that]] by (simp add: stored_def)
  moreover have "readable (contents (snd (b_put bs (bk_disk st) n v))) x" if "x \<in> required st" for x
    using bucket_invD(7) [OF inv that] same [of "fst x"] by (simp add: readable_def)
  ultimately show ?thesis
    using inv unfolding bucket_inv_def by (simp add: owned_def reading_def required_def)
qed

lemma stored_new: "stored (contents (snd (b_put bs d n v))) (generateBlobId n, int (length v))"
  by (simp add: stored_def put_contents)

lemma owned_disk [simp]: "owned (st\<lparr>bk_disk := d\<rparr>) = owned st"
  by (simp add: owned_def)

lemma bucket_inv_failed_put:
  assumes "bucket_inv contents st" "bucket_fresh st n"
  shows "bucket_inv contents
    (bk_backgroundDelete [generateBlobId n] (st\<lparr>bk_disk := snd (b_put bs (bk_disk st) n v)\<rparr>))"
proof -
  let ?st = "st\<lparr>bk_disk := snd (b_put bs (bk_disk st) n v)\<rparr>"
  note inv = bucket_inv_disk_put [OF assms, of v]
  have "bucket_inv contents (bk_backgroundDelete [generateBlobId n]
     (?st\<lparr>bk_objects := bk_objects ?st, bk_uploads := bk_uploads ?st, bk_parts := bk_parts ?st\<rparr>))"
    using assms(2)
    by (intro bucket_inv_update [OF inv bucket_invD(1,2) [OF inv], where B = "[generateBlobId n]"])
       (simp_all add: is_blob_id_generate bucket_fresh_def)
  then show ?thesis by simp
qed

lemma r2_put_inv:
  assumes inv: "bucket_inv contents st" and fresh: "bucket_fresh st (dw_nonce dw)" and sz: "sz = int (length v)"
  shows "bucket_inv contents (snd (r2_put digest bs dw key v sz opts st))"
proof -
  let ?n = "dw_nonce dw"
  let ?st = "st\<lparr>bk_disk := snd (b_put bs (bk_disk st) ?n v)\<rparr>"
  obtain d where put: "b_put bs (bk_disk st) ?n v = (Inr (generateBlobId ?n), d)"
    using put_result [of "bk_disk st" ?n v] by (metis prod.collapse)
  note inv1 = bucket_inv_disk_put [OF inv fresh, of v]
  note t = bucket_invD(1) [OF inv]
  have txn: "bucket_inv contents (bk_backgroundDelete old (?st\<lparr>bk_objects := objs, bk_parts := parts\<rparr>))"
    if "txn_put row c (bk_objects st) (bk_parts st) = Inr (old, objs, parts)"
      and row: "or_blob row = Some (generateBlobId ?n)" "or_size row = sz" for row c old objs parts
  proof -
    note eq = txn_put_eq [OF t that(1)]
    have bl: "blob_list row = [generateBlobId ?n]" using row(1) by (simp add: blob_list_def)
    have m: "mset (refs objs parts @ old) = mset (refs (bk_objects st) (bk_parts st)) + mset [generateBlobId ?n]"
      using release_mset [of "bk_objects st" "or_key row" "bk_parts st"] refs_stmtPut [of "bk_objects st" row]
      unfolding eq bl mset_append by (simp add: ac_simps)
    have "\<forall>x \<in> sized objs parts. x \<in> sized (bk_objects st) (bk_parts st) \<or> stored (contents (bk_disk ?st)) x"
      using sized_put [of "bk_objects st" row "\<lambda>p. pr_object_key p \<noteq> Some (or_key row)" "bk_parts st"]
        stored_new [of "bk_disk st" ?n v] unfolding eq bl row(2) sz by (simp, blast)
    then have "bucket_inv contents
        (bk_backgroundDelete old (?st\<lparr>bk_objects := objs, bk_uploads := bk_uploads ?st, bk_parts := parts\<rparr>))"
      using tables_inv_put [OF t, of row] multipart_ok_put [OF bucket_invD(2) [OF inv], of row] row(1) m fresh
      by (intro bucket_inv_update [OF inv1, where B = "[generateBlobId ?n]"])
         (simp_all add: eq is_blob_id_generate bucket_fresh_def)
    then show ?thesis by simp
  qed
  show ?thesis
    unfolding r2_put_def Let_def put prod.case sum.case
    using inv1 bucket_inv_failed_put [OF inv fresh, of v] txn
    by (auto simp: put split: sum.splits option.splits prod.splits)
qed

lemma r2_delete_inv:
  assumes inv: "bucket_inv contents st"
  shows "bucket_inv contents (snd (r2_delete keys st))"
proof -
  obtain old objs parts where t: "txn_deleteByKeys keys (bk_objects st) (bk_parts st) = (old, objs, parts)"
    by (metis prod_cases3)
  note d = txn_deleteByKeys_inv [OF bucket_invD(1,2) [OF inv] t]
  have "sized objs parts \<subseteq> sized (bk_objects st) (bk_parts st)" using d by (intro sized_subset) simp_all
  then have "bucket_inv contents
      (bk_backgroundDelete old (st\<lparr>bk_objects := objs, bk_uploads := bk_uploads st, bk_parts := parts\<rparr>))"
    using d by (intro bucket_inv_tables [OF inv]) blast+
  with inv show ?thesis by (simp add: r2_delete_def t)
qed

lemma r2_create_inv:
  assumes inv: "bucket_inv contents st"
  shows "bucket_inv contents (snd (r2_createMultipartUpload dw key c h st))"
proof (cases "v_key key = Inr () \<and> \<not> list_ex (\<lambda>u. ur_upload_id u = dw_id dw) (bk_uploads st)")
  case True
  let ?u = "\<lparr>ur_upload_id = dw_id dw, ur_key = key, ur_http_metadata = default_http h,
    ur_custom_metadata = default_custom c, ur_state = IN_PROGRESS\<rparr>"
  note t = bucket_invD(1) [OF inv]
  have "tables_inv (bk_objects st) (bk_uploads st @ [?u]) (bk_parts st)"
  proof (rule tables_invI [OF tables_invD(1) [OF t] _ tables_invD(3) [OF t]])
    show "distinct (map ur_upload_id (bk_uploads st @ [?u]))"
      using tables_invD(2) [OF t] True by (simp add: list_ex_iff image_iff) metis
    show "part_ok (bk_objects st) (bk_uploads st @ [?u]) p" if "p \<in> set (bk_parts st)" for p
      using tables_invD(4) [OF t that] by (rule part_ok_uploads_mono) (simp add: subset_insertI)
  qed (rule tables_invD(5) [OF t])
  then have "bucket_inv contents (bk_backgroundDelete []
      (st\<lparr>bk_objects := bk_objects st, bk_uploads := bk_uploads st @ [?u], bk_parts := bk_parts st\<rparr>))"
    using bucket_invD(2) [OF inv] by (intro bucket_inv_tables [OF inv]) simp_all
  moreover have "bk_backgroundDelete []
      (st\<lparr>bk_objects := bk_objects st, bk_uploads := bk_uploads st @ [?u], bk_parts := bk_parts st\<rparr>) =
      st\<lparr>bk_uploads := bk_uploads st @ [?u]\<rparr>"
    by (cases st) (simp add: bk_backgroundDelete_def)
  ultimately show ?thesis using True by (simp add: r2_createMultipartUpload_def)
next
  case False
  with inv show ?thesis by (auto simp: r2_createMultipartUpload_def split: sum.splits)
qed

lemma r2_uploadPart_inv:
  assumes inv: "bucket_inv contents st" and fresh: "bucket_fresh st (dw_nonce dw)" and sz: "sz = int (length v)"
  shows "bucket_inv contents (snd (r2_uploadPart digest bs dw key uid num v sz st))"
proof -
  let ?n = "dw_nonce dw"
  let ?st = "st\<lparr>bk_disk := snd (b_put bs (bk_disk st) ?n v)\<rparr>"
  obtain d where put: "b_put bs (bk_disk st) ?n v = (Inr (generateBlobId ?n), d)"
    using put_result [of "bk_disk st" ?n v] by (metis prod.collapse)
  note inv1 = bucket_inv_disk_put [OF inv fresh, of v]
  note t = bucket_invD(1) [OF inv]
  have txn: "bucket_inv contents (bk_backgroundDelete (case old of None \<Rightarrow> [] | Some b \<Rightarrow> [b]) (?st\<lparr>bk_parts := parts\<rparr>))"
    if p: "txn_putPart key row (bk_uploads st) (bk_parts st) = Inr (old, parts)"
      and row: "pr_blob row = generateBlobId ?n" "pr_size row = sz" for row old parts
  proof -
    obtain u where u: "u \<in> set (bk_uploads st)" "ur_upload_id u = pr_upload_id row" "ur_state u = IN_PROGRESS"
      and old: "old = map_option pr_blob (find (\<lambda>p. part_id p = part_id row) (bk_parts st))"
      and parts: "parts = filter (\<lambda>p. part_id p \<noteq> part_id row) (bk_parts st) @ [row\<lparr>pr_object_key := None\<rparr>]"
      by (rule txn_putPart_eq [OF p])
    have "\<forall>x \<in> sized (bk_objects st) parts. x \<in> sized (bk_objects st) (bk_parts st) \<or> stored (contents (bk_disk ?st)) x"
    proof
      fix x
      assume "x \<in> sized (bk_objects st) parts"
      then have "x \<in> sized (bk_objects st) (bk_parts st) \<or> x = (generateBlobId ?n, sz)"
        unfolding parts sized_def by (simp add: row) blast
      with stored_new [of "bk_disk st" ?n v] sz
      show "x \<in> sized (bk_objects st) (bk_parts st) \<or> stored (contents (bk_disk ?st)) x" by auto
    qed
    moreover have "\<forall>ob \<in> set (bk_objects st). multipart_ok parts ob"
      using bucket_invD(2) [OF inv] unfolding parts by (metis multipart_ok_cong listParts_putPart [OF t u])
    ultimately have "bucket_inv contents (bk_backgroundDelete (case old of None \<Rightarrow> [] | Some b \<Rightarrow> [b])
        (?st\<lparr>bk_objects := bk_objects ?st, bk_uploads := bk_uploads ?st, bk_parts := parts\<rparr>))"
      using tables_inv_putPart [OF t u] refs_putPart [OF tables_invD(3) [OF t], of "bk_objects st" row] fresh
      by (intro bucket_inv_update [OF inv1, where B = "[generateBlobId ?n]"])
         (simp_all add: parts old row is_blob_id_generate bucket_fresh_def)
    then show ?thesis by simp
  qed
  show ?thesis
    unfolding r2_uploadPart_def Let_def put prod.case sum.case
    using inv inv1 bucket_inv_failed_put [OF inv fresh, of v] txn
    by (auto simp: put split: sum.splits option.splits prod.splits)
qed

lemma r2_complete_inv:
  assumes inv: "bucket_inv contents st"
  shows "bucket_inv contents (snd (r2_completeMultipartUpload digest tst dw key uid ss st))"
proof (cases "fst (r2_completeMultipartUpload digest tst dw key uid ss st)")
  case (Inl e)
  with inv show ?thesis by (auto simp: r2_completeMultipartUpload_def Let_def split: sum.splits)
next
  case (Inr ob)
  let ?m = "if tst then MIN_MULTIPART_PART_SIZE_TEST else MIN_MULTIPART_PART_SIZE"
  let ?N = "set (map pp_part ss)"
  note t = bucket_invD(1) [OF inv]
  from Inr obtain cr where cr: "txn_completeMultipartUpload digest (dw_version dw) (dw_now dw) key uid ss ?m
      (bk_objects st) (bk_uploads st) (bk_parts st) = Inr cr"
    and st': "snd (r2_completeMultipartUpload digest tst dw key uid ss st) = bk_backgroundDelete (cr_oldBlobIds cr)
      (st\<lparr>bk_objects := cr_objects cr, bk_uploads := cr_uploads cr, bk_parts := cr_parts cr\<rparr>)"
    unfolding r2_completeMultipartUpload_def Let_def by (auto split: sum.splits)
  obtain u where u: "u \<in> set (bk_uploads st)" "ur_upload_id u = uid" "ur_key u = key" "ur_state u = IN_PROGRESS"
    and min: "\<forall>p \<in> set (butlast (selected uid ?N (bk_parts st))). ?m \<le> pr_size p"
    and row: "or_key (cr_newRow cr) = key" "or_blob (cr_newRow cr) = None"
      "or_size (cr_newRow cr) = sum_list (map pr_size (selected uid ?N (bk_parts st)))"
    and objs: "cr_objects cr = stmtPut (bk_objects st) (cr_newRow cr)"
    and uploads: "cr_uploads cr = stmtUpdateUploadState (bk_uploads st) uid COMPLETED"
    and parts: "cr_parts cr = map (link key uid ?N) (filter (kept key uid ?N) (bk_parts st))"
    and old: "cr_oldBlobIds cr = concat (map blob_list (filter (\<lambda>r. or_key r = key) (bk_objects st))) @
      map pr_blob (filter (\<lambda>p. pr_object_key p = Some key) (bk_parts st)) @
      map pr_blob (filter (\<lambda>p. pr_upload_id p = uid \<and> pr_part_number p \<notin> ?N) (bk_parts st))"
    by (rule complete_eq [OF t cr refl refl])
  have list: "stmtListPartsByKey (cr_parts cr) key = map (link key uid ?N) (selected uid ?N (bk_parts st))"
    unfolding parts listParts_complete_same selected_kept [OF t u(1,2,4)] ..
  have pos: "0 < ?m" by (simp add: MIN_MULTIPART_PART_SIZE_def MIN_MULTIPART_PART_SIZE_TEST_def)
  have "\<forall>p \<in> set (butlast (map (link key uid ?N) (selected uid ?N (bk_parts st)))). 0 < pr_size p"
  proof
    fix p
    assume "p \<in> set (butlast (map (link key uid ?N) (selected uid ?N (bk_parts st))))"
    then obtain q where "q \<in> set (butlast (selected uid ?N (bk_parts st)))" "p = link key uid ?N q"
      unfolding map_butlast [symmetric] set_map by blast
    with min pos show "0 < pr_size p" by (metis link_sel(4) order_less_le_trans)
  qed
  then have "multipart_ok (cr_parts cr) (cr_newRow cr)"
    unfolding multipart_ok_def row(1) list by (simp add: row(3) comp_def)
  moreover have "multipart_ok (cr_parts cr) ob" if "ob \<in> set (bk_objects st)" "or_key ob \<noteq> key" for ob
    using bucket_invD(2) [OF inv] that listParts_complete_other [OF t u(1,2,4) that(2)]
    unfolding parts by (metis multipart_ok_cong)
  ultimately have "\<forall>ob \<in> set (cr_objects cr). multipart_ok (cr_parts cr) ob"
    unfolding objs set_stmtPut row(1) by blast
  then show ?thesis
    unfolding st'
    using tables_inv_complete [OF t u row(1,2), of ?N] refs_complete [OF t u(1,2,4) row(1,2), of ?N]
      sized_complete [OF row(2), of "bk_objects st" key uid ?N "bk_parts st"]
    by (intro bucket_inv_tables [OF inv]) (simp_all only: objs uploads parts old)
qed

lemma r2_abort_inv:
  assumes inv: "bucket_inv contents st"
  shows "bucket_inv contents (snd (r2_abortMultipartUpload key uid st))"
proof (cases "\<exists>u. stmtGetUpload (bk_uploads st) uid key = Some u \<and> ur_state u = IN_PROGRESS \<and> v_key key = Inr ()")
  case True
  then obtain u where u: "stmtGetUpload (bk_uploads st) uid key = Some u" "ur_state u = IN_PROGRESS" "v_key key = Inr ()"
    by blast
  note mem = stmtGetUpload_mem [OF u(1)]
  note t = bucket_invD(1) [OF inv]
  let ?parts = "filter (\<lambda>p. pr_upload_id p \<noteq> uid) (bk_parts st)"
  let ?old = "map pr_blob (filter (\<lambda>p. pr_upload_id p = uid) (bk_parts st))"
  have "stmtListPartsByKey ?parts k = stmtListPartsByKey (bk_parts st) k" for k
    using in_progress_unlinked [OF t _ u(2)] mem by (intro listParts_filter) (metis option.distinct(1))
  then have "\<forall>ob \<in> set (bk_objects st). multipart_ok ?parts ob"
    using bucket_invD(2) [OF inv] by (metis multipart_ok_cong)
  moreover have "mset (refs (bk_objects st) ?parts @ ?old) = mset (refs (bk_objects st) (bk_parts st))"
    using mset_map_filter [of pr_blob "bk_parts st" "\<lambda>p. pr_upload_id p \<noteq> uid"] by (simp add: refs_def)
  moreover have "sized (bk_objects st) ?parts \<subseteq> sized (bk_objects st) (bk_parts st)"
    by (rule sized_subset) simp_all
  ultimately have "bucket_inv contents (bk_backgroundDelete ?old (st\<lparr>bk_objects := bk_objects st,
      bk_uploads := stmtUpdateUploadState (bk_uploads st) uid ABORTED, bk_parts := ?parts\<rparr>))"
    using tables_inv_abort [OF t, of uid ABORTED] by (intro bucket_inv_tables [OF inv]) blast+
  with u show ?thesis
    by (simp add: r2_abortMultipartUpload_def txn_abortMultipartUpload_def stmtDeletePartsByUploadId_def deleteParts_def)
next
  case False
  have "bk_backgroundDelete [] (st\<lparr>bk_uploads := bk_uploads st, bk_parts := bk_parts st\<rparr>) = st"
    by (cases st) (simp add: bk_backgroundDelete_def)
  with False inv show ?thesis
    by (auto simp: r2_abortMultipartUpload_def txn_abortMultipartUpload_def
        split: sum.splits option.splits if_splits)
qed

end

subsection \<open>Reading\<close>

lemma fold_acquireBlob:
  "fold (\<lambda>(b, _). acquireBlob b) req st =
     st\<lparr>bk_inUse := (\<lambda>b. bk_inUse st b + count_list (map fst req) b)\<rparr>"
proof (induction req arbitrary: st)
  case Nil
  then show ?case by (cases st) simp
next
  case (Cons x req)
  then show ?case by (cases x) (auto simp: acquireBlob_def fun_eq_iff)
qed

lemma assemble_eq:
  "assembleMultipartValue ps q st = (length (bk_readers st),
     st\<lparr>bk_inUse := (\<lambda>b. bk_inUse st b + count_list (map fst (requiredParts 0 q ps)) b),
        bk_readers := bk_readers st @ [\<lparr>rd_required = requiredParts 0 q ps, rd_out = [], rd_state = Streaming\<rparr>]\<rparr>)"
  by (simp add: assembleMultipartValue_def Let_def fold_acquireBlob)

lemma part_stored_of_sized:
  assumes "\<forall>bs \<in> sized objs parts. stored c bs" "p \<in> set parts"
  shows "part_stored c p"
proof -
  have "(pr_blob p, pr_size p) \<in> sized objs parts" using assms(2) unfolding sized_def by blast
  with assms(1) have "stored c (pr_blob p, pr_size p)" by blast
  then show ?thesis by (simp add: stored_def part_stored_def)
qed

lemma set_listParts: "set (stmtListPartsByKey parts key) = {p \<in> set parts. pr_object_key p = Some key}"
  by (simp add: stmtListPartsByKey_def)

lemma part_stored_nonneg: "part_stored c p \<Longrightarrow> 0 \<le> pr_size p"
  unfolding part_stored_def by linarith

lemma objectByKey_mem: "stmtGetByKey objs key = Some row \<Longrightarrow> row \<in> set objs \<and> or_key row = key"
  unfolding stmtGetByKey_def by (rule find_key_mem)

text \<open>A get either leaves the bucket alone or starts a reader of the parts of a multipart object.\<close>

lemma r2_get_cases:
  assumes "r2_get bs key opts st = (res, st')"
  obtains (same) "st' = st"
  | (stream) row q where "stmtGetByKey (bk_objects st) key = Some row" "or_blob row = None"
      "st' = snd (assembleMultipartValue (stmtListPartsByKey (bk_parts st) key) q st)"
      "q = mkRange 0 (or_size row - 1) \<or> v_range (go_rangeHeader opts) (go_range opts) (or_size row) = Inr (Some q)"
proof (cases "st' = st")
  case False
  from assms False obtain row parts rng where g: "getPartsByKey (bk_objects st) (bk_parts st) key = Some (row, parts)"
    and v: "v_range (go_rangeHeader opts) (go_range opts) (or_size row) = Inr rng"
    and e: "or_blob row = None" "\<exists>ps. parts = Some ps \<and> st' = snd (assembleMultipartValue ps
        (case rng of None \<Rightarrow> mkRange 0 (or_size row - 1) | Some r \<Rightarrow> r) st)"
    by (auto simp: r2_get_def Let_def split: sum.splits option.splits prod.splits)
  from g e have "stmtGetByKey (bk_objects st) key = Some row" "parts = Some (stmtListPartsByKey (bk_parts st) key)"
    by (auto simp: getPartsByKey_def split: option.splits if_splits)
  with e v stream show ?thesis by (cases rng) auto
qed (rule same)

context blob_store
begin

lemma multipart_read_ok:
  assumes inv: "bucket_inv contents st" and row: "stmtGetByKey (bk_objects st) key = Some row" "or_blob row = None"
    and q: "0 \<le> rstart q" "rend q < or_size row" "rstart q \<le> rend q \<or> (rstart q = or_size row \<and> rend q = or_size row - 1)"
    and br: "br \<in> set (requiredParts 0 q (stmtListPartsByKey (bk_parts st) key))"
  shows "fst br \<in> set (owned st) \<and> readable (contents (bk_disk st)) br"
proof -
  let ?ps = "stmtListPartsByKey (bk_parts st) key"
  note mem = objectByKey_mem [OF row(1)]
  have sz: "or_size row = sum_list (map pr_size ?ps)" and pos: "\<forall>p \<in> set (butlast ?ps). 0 < pr_size p"
    using bucket_invD(2) [OF inv] mem row(2) unfolding multipart_ok_def by blast+
  have st: "part_stored (contents (bk_disk st)) p" if "p \<in> set ?ps" for p
    using part_stored_of_sized [of "bk_objects st" "bk_parts st"] bucket_invD(3) [OF inv] that unfolding set_listParts by blast
  then have nn: "\<forall>p \<in> set ?ps. 0 \<le> pr_size p" using part_stored_nonneg by blast
  obtain b r where b: "br = (b, r)" by (cases br)
  have "\<exists>p \<in> set ?ps. pr_blob p = b \<and> range_in (pr_size p) r"
    using q br by (intro requiredParts_range_in [OF nn pos, where s = 0 and q = q]) (auto simp: sz b)
  then obtain p where p: "p \<in> set ?ps" "pr_blob p = b" "range_in (pr_size p) r" by blast
  have "p \<in> set (bk_parts st)" using p(1) unfolding set_listParts by blast
  then have "b \<in> set (owned st)" using p(2) by (auto simp: owned_def refs_def)
  with st [OF p(1)] p(2,3) show ?thesis by (auto simp: b readable_def part_stored_def)
qed

lemma bucket_inv_new_reader:
  assumes inv: "bucket_inv contents st"
    and req: "\<forall>br \<in> set req. fst br \<in> set (owned st) \<and> readable (contents (bk_disk st)) br"
  shows "bucket_inv contents
    (st\<lparr>bk_inUse := (\<lambda>b. bk_inUse st b + count_list (map fst req) b),
        bk_readers := bk_readers st @ [\<lparr>rd_required = req, rd_out = [], rd_state = Streaming\<rparr>]\<rparr>)"
  using inv req unfolding bucket_inv_def by (simp add: owned_def reading_def required_def ball_Un)

lemma r2_get_inv:
  assumes inv: "bucket_inv contents st"
  shows "bucket_inv contents (snd (r2_get bs key opts st))"
proof -
  obtain res st' where r: "r2_get bs key opts st = (res, st')" by (cases "r2_get bs key opts st")
  from r show ?thesis
  proof (cases rule: r2_get_cases)
    case same
    with r inv show ?thesis by simp
  next
    case (stream row q)
    note mem = objectByKey_mem [OF stream(1)]
    have "0 \<le> or_size row"
    proof -
      have "\<forall>p \<in> set (stmtListPartsByKey (bk_parts st) key). 0 \<le> pr_size p"
        using part_stored_of_sized [of "bk_objects st" "bk_parts st"] bucket_invD(3) [OF inv] part_stored_nonneg
        unfolding set_listParts by blast
      then have "0 \<le> sum_list (map pr_size (stmtListPartsByKey (bk_parts st) key))" by (intro sum_list_nonneg) auto
      moreover have "or_size row = sum_list (map pr_size (stmtListPartsByKey (bk_parts st) key))"
        using bucket_invD(2) [OF inv] mem stream(2) unfolding multipart_ok_def by blast
      ultimately show ?thesis by simp
    qed
    then have q: "0 \<le> rstart q" "rend q < or_size row"
      "rstart q \<le> rend q \<or> (rstart q = or_size row \<and> rend q = or_size row - 1)"
      using stream(4) v_range_in by (auto dest!: v_range_in)
    have "bucket_inv contents st'"
      unfolding stream(3) assemble_eq snd_conv
      using multipart_read_ok [OF inv stream(1,2) q] by (intro bucket_inv_new_reader [OF inv]) blast
    with r show ?thesis by simp
  qed
qed

lemma not_in_use:
  assumes inv: "bucket_inv contents st" and "bk_inUse st b = 0" and "br \<in> required st"
  shows "fst br \<noteq> b"
proof
  assume e: "fst br = b"
  from assms(3) obtain rd where "rd \<in> set (bk_readers st)" "br \<in> set (rd_required rd)"
    unfolding required_def by blast
  with e have "count_list (map fst (rd_required rd)) b \<noteq> 0" by (auto simp: count_list_0_iff)
  then have "reading st b \<noteq> 0"
    using \<open>rd \<in> set (bk_readers st)\<close> unfolding reading_def by (auto simp: sum_list_eq_0_iff)
  with bucket_invD(6) [OF inv, of b] assms(2) show False by simp
qed

lemma bk_runDelete_inv:
  assumes inv: "bucket_inv contents st"
  shows "bucket_inv contents (bk_runDelete bs b st)"
proof (cases "b \<in> set (bk_pending st) \<and> bk_inUse st b = 0")
  case True
  let ?st = "bk_runDelete bs b st"
  have st: "?st = st\<lparr>bk_disk := snd (b_delete bs (bk_disk st) b), bk_pending := remove1 b (bk_pending st)\<rparr>"
    using True by (simp add: bk_runDelete_def)
  have id: "is_blob_id b" using bucket_invD(5) [OF inv, of b] True by (simp add: owned_def)
  have d: "distinct (owned st)" by (rule bucket_invD(4) [OF inv])
  have nref: "b \<notin> set (refs (bk_objects st) (bk_parts st))" using d True by (auto simp: owned_def)
  have same: "contents (bk_disk ?st) k = contents (bk_disk st) k" if "k \<noteq> b" for k
    using that by (simp add: st delete_other [OF id])
  have nreq: "fst br \<noteq> b" if "br \<in> required st" for br
    using not_in_use [OF inv] True that by blast
  have "stored (contents (bk_disk ?st)) x" if "x \<in> sized (bk_objects st) (bk_parts st)" for x
  proof -
    have "fst x \<in> set (refs (bk_objects st) (bk_parts st))" using that unfolding refs_sized by blast
    with nref same [of "fst x"] bucket_invD(3) [OF inv that] show ?thesis unfolding stored_def by metis
  qed
  moreover have "readable (contents (bk_disk ?st)) x" "fst x \<in> set (owned ?st)" if "x \<in> required st" for x
    using nreq [OF that] bucket_invD(7) [OF inv that] same [of "fst x"]
    by (auto simp: readable_def owned_def st in_set_remove1)
  moreover have "distinct (owned ?st)" "\<forall>k \<in> set (owned ?st). is_blob_id k"
    using d bucket_invD(5) [OF inv] by (auto simp: owned_def st dest: notin_set_remove1)
  ultimately show ?thesis
    using inv unfolding bucket_inv_def by (simp add: st reading_def required_def)
qed (use inv in \<open>auto simp: bk_runDelete_def\<close>)

lemma reading_update:
  assumes "i < length rds" "count_list (map fst (rd_required rd')) b \<le> count_list (map fst (rd_required (rds ! i))) b"
  shows "sum_list (map (\<lambda>rd. count_list (map fst (rd_required rd)) b) (rds[i := rd'])) =
    sum_list (map (\<lambda>rd. count_list (map fst (rd_required rd)) b) rds)
    - (count_list (map fst (rd_required (rds ! i))) b - count_list (map fst (rd_required rd')) b)"
proof -
  let ?f = "\<lambda>rd. count_list (map fst (rd_required rd)) b"
  have "?f (rds ! i) \<le> sum_list (map ?f rds)" using assms(1) by (intro member_le_sum_list) auto
  then show ?thesis using assms by (simp add: map_update sum_list_update)
qed

lemma readerStep_ok:
  assumes inv: "bucket_inv contents st" and i: "i < length (bk_readers st)"
    and s: "rd_state (bk_readers st ! i) = Streaming"
  obtains "rd_required (bk_readers st ! i) = []"
      "readerStep bs i st = st\<lparr>bk_readers := (bk_readers st)[i := (bk_readers st ! i)\<lparr>rd_state := Closed\<rparr>]\<rparr>"
  | b r rest v where "rd_required (bk_readers st ! i) = (b, r) # rest" "contents (bk_disk st) b = Some v"
      "readerStep bs i st = releaseBlob b (st\<lparr>bk_readers := (bk_readers st)[i :=
         (bk_readers st ! i)\<lparr>rd_required := rest, rd_out := rd_out (bk_readers st ! i) @ slice r v\<rparr>]\<rparr>)"
proof (cases "rd_required (bk_readers st ! i)")
  case Nil
  with i s that(1) show ?thesis by (simp add: readerStep_def)
next
  case (Cons br rest)
  obtain b r where br: "br = (b, r)" by (cases br)
  have "br \<in> required st" using i Cons unfolding required_def by (metis UN_I list.set_intros(1) nth_mem)
  then have "readable (contents (bk_disk st)) br" using bucket_invD(7) [OF inv] by blast
  then obtain v where v: "contents (bk_disk st) b = Some v" "range_in (int (length v)) r"
    by (auto simp: readable_def br)
  from get_part [OF v] i s Cons v(1) that(2) [of b r rest v] show ?thesis
    by (simp add: readerStep_def br Let_def)
qed

lemma readerStep_inv:
  assumes inv: "bucket_inv contents st"
  shows "bucket_inv contents (readerStep bs i st)"
proof (cases "i < length (bk_readers st) \<and> rd_state (bk_readers st ! i) = Streaming")
  case True
  then have i: "i < length (bk_readers st)" and s: "rd_state (bk_readers st ! i) = Streaming" by blast+
  let ?rds = "bk_readers st"
  have upd: "bucket_inv contents (st\<lparr>bk_inUse := u, bk_readers := ?rds[i := rd']\<rparr>)"
    if "set (rd_required rd') \<subseteq> set (rd_required (?rds ! i))"
      and u: "\<And>b. u b = sum_list (map (\<lambda>rd. count_list (map fst (rd_required rd)) b) (?rds[i := rd']))" for rd' u
  proof -
    have "required (st\<lparr>bk_inUse := u, bk_readers := ?rds[i := rd']\<rparr>) \<subseteq> required st"
    proof
      fix x
      assume "x \<in> required (st\<lparr>bk_inUse := u, bk_readers := ?rds[i := rd']\<rparr>)"
      then obtain rd where rd: "rd \<in> set (?rds[i := rd'])" "x \<in> set (rd_required rd)" by (auto simp: required_def)
      then consider "rd \<in> set ?rds" | "rd = rd'" by (metis insertE set_update_subset_insert subsetD)
      then show "x \<in> required st"
      proof cases
        case 2
        with rd(2) that(1) i show ?thesis unfolding required_def by (metis UN_I nth_mem subsetD)
      qed (use rd(2) in \<open>auto simp: required_def\<close>)
    qed
    with inv u show ?thesis unfolding bucket_inv_def by (simp add: owned_def reading_def) blast
  qed
  from inv i s show ?thesis
  proof (cases rule: readerStep_ok)
    case 1
    have "st\<lparr>bk_readers := ?rds[i := (?rds ! i)\<lparr>rd_state := Closed\<rparr>]\<rparr> =
        st\<lparr>bk_inUse := bk_inUse st, bk_readers := ?rds[i := (?rds ! i)\<lparr>rd_state := Closed\<rparr>]\<rparr>"
      by (cases st) simp
    moreover have "bk_inUse st b = sum_list (map (\<lambda>rd. count_list (map fst (rd_required rd)) b)
        (?rds[i := (?rds ! i)\<lparr>rd_state := Closed\<rparr>]))" for b
      using reading_update [OF i, of "(?rds ! i)\<lparr>rd_state := Closed\<rparr>" b] bucket_invD(6) [OF inv, of b]
      by (simp add: reading_def)
    ultimately show ?thesis using upd [of "(?rds ! i)\<lparr>rd_state := Closed\<rparr>" "bk_inUse st"] 1 by simp
  next
    case (2 b r rest v)
    let ?rd' = "(?rds ! i)\<lparr>rd_required := rest, rd_out := rd_out (?rds ! i) @ slice r v\<rparr>"
    have "((bk_inUse st)(b := bk_inUse st b - 1)) k = sum_list (map (\<lambda>rd. count_list (map fst (rd_required rd)) k)
        (?rds[i := ?rd']))" for k
      using reading_update [OF i, of ?rd' k] bucket_invD(6) [OF inv, of k] 2(1)
      by (cases "k = b") (simp_all add: reading_def)
    then have "bucket_inv contents (st\<lparr>bk_inUse := (bk_inUse st)(b := bk_inUse st b - 1), bk_readers := ?rds[i := ?rd']\<rparr>)"
      using 2(1) by (intro upd) auto
    moreover have "releaseBlob b (st\<lparr>bk_readers := ?rds[i := ?rd']\<rparr>) =
        st\<lparr>bk_inUse := (bk_inUse st)(b := bk_inUse st b - 1), bk_readers := ?rds[i := ?rd']\<rparr>"
      by (cases st) (simp add: releaseBlob_def)
    ultimately show ?thesis using 2(3) by simp
  qed
qed (use inv in \<open>auto simp: readerStep_def\<close>)

end

subsection \<open>Steps\<close>

text \<open>
  The steps of a bucket: a request, one iteration of a reader, or a background deletion. A request
  that stores a value draws a fresh nonce and announces the length of the value.
\<close>

inductive r2_step :: "'d blob_ops \<Rightarrow> (hash_alg \<Rightarrow> bytes \<Rightarrow> bytes) \<Rightarrow> 'd bucket \<Rightarrow> 'd bucket \<Rightarrow> bool"
  for bs digest
where
  step_get: "r2_step bs digest st (snd (r2_get bs key gopts st))"
| step_put: "bucket_fresh st (dw_nonce dw) \<Longrightarrow> sz = int (length v) \<Longrightarrow>
    r2_step bs digest st (snd (r2_put digest bs dw key v sz popts st))"
| step_delete: "r2_step bs digest st (snd (r2_delete keys st))"
| step_create: "r2_step bs digest st (snd (r2_createMultipartUpload dw key c h st))"
| step_uploadPart: "bucket_fresh st (dw_nonce dw) \<Longrightarrow> sz = int (length v) \<Longrightarrow>
    r2_step bs digest st (snd (r2_uploadPart digest bs dw key uid num v sz st))"
| step_complete: "r2_step bs digest st (snd (r2_completeMultipartUpload digest tst dw key uid ss st))"
| step_abort: "r2_step bs digest st (snd (r2_abortMultipartUpload key uid st))"
| step_reader: "r2_step bs digest st (readerStep bs i st)"
| step_run: "r2_step bs digest st (bk_runDelete bs b st)"

definition bucket_init :: "'d \<Rightarrow> 'd bucket" where
  "bucket_init d = \<lparr>bk_objects = [], bk_uploads = [], bk_parts = [], bk_disk = d, bk_pending = [],
     bk_inUse = (\<lambda>_. 0), bk_readers = []\<rparr>"

inductive r2_reachable :: "'d blob_ops \<Rightarrow> (hash_alg \<Rightarrow> bytes \<Rightarrow> bytes) \<Rightarrow> 'd bucket \<Rightarrow> bool" for bs digest where
  r2_reach_init: "r2_reachable bs digest (bucket_init d)"
| r2_reach_step: "r2_reachable bs digest st \<Longrightarrow> r2_step bs digest st st' \<Longrightarrow> r2_reachable bs digest st'"

lemma bucket_inv_init: "bucket_inv contents (bucket_init d)"
  by (simp add: bucket_inv_def bucket_init_def tables_inv_def sized_def owned_def refs_def reading_def required_def)

subsection \<open>Readers\<close>

text \<open>What a reader has delivered and will still deliver.\<close>

definition promise :: "(string \<Rightarrow> bytes option) \<Rightarrow> reader \<Rightarrow> bytes" where
  "promise c rd = rd_out rd @ required_bytes c (rd_required rd)"

text \<open>A step keeps the readers: none fails, and what each delivers does not change.\<close>

definition keeps_readers ::
  "(string \<Rightarrow> bytes option) \<Rightarrow> reader list \<Rightarrow> (string \<Rightarrow> bytes option) \<Rightarrow> reader list \<Rightarrow> bool"
where
  "keeps_readers c rds c' rds' \<longleftrightarrow> length rds \<le> length rds' \<and>
     (\<forall>i < length rds. promise c' (rds' ! i) = promise c (rds ! i) \<and>
        (rd_state (rds ! i) \<noteq> Aborted \<longrightarrow> rd_state (rds' ! i) \<noteq> Aborted))"

lemma keeps_readers_trans:
  "keeps_readers c rds c' rds' \<Longrightarrow> keeps_readers c' rds' c'' rds'' \<Longrightarrow> keeps_readers c rds c'' rds''"
  unfolding keeps_readers_def by auto

lemma keeps_readers_disk:
  assumes "\<And>br. br \<in> (\<Union>rd \<in> set rds. set (rd_required rd)) \<Longrightarrow> c' (fst br) = c (fst br)"
  shows "keeps_readers c rds c' (rds @ new)"
proof -
  have "required_bytes c' (rd_required rd) = required_bytes c (rd_required rd)" if "rd \<in> set rds" for rd
  proof -
    have "c' (fst br) = c (fst br)" if "br \<in> set (rd_required rd)" for br
      using assms that \<open>rd \<in> set rds\<close> by blast
    then show ?thesis by (simp add: required_bytes_def case_prod_unfold cong: map_cong)
  qed
  then show ?thesis by (simp add: keeps_readers_def promise_def nth_append)
qed

lemma keeps_readers_same:
  "(\<And>br. br \<in> (\<Union>rd \<in> set rds. set (rd_required rd)) \<Longrightarrow> c' (fst br) = c (fst br)) \<Longrightarrow> keeps_readers c rds c' rds"
  using keeps_readers_disk [of rds c' c "[]"] by simp

context blob_store
begin

lemma bucket_inv_step: "r2_step bs digest st st' \<Longrightarrow> bucket_inv contents st \<Longrightarrow> bucket_inv contents st'"
  by (induction rule: r2_step.induct)
     (simp_all add: r2_get_inv r2_put_inv r2_delete_inv r2_create_inv r2_uploadPart_inv r2_complete_inv
       r2_abort_inv readerStep_inv bk_runDelete_inv)

lemma r2_reachable_inv: "r2_reachable bs digest st \<Longrightarrow> bucket_inv contents st"
  by (induction rule: r2_reachable.induct) (simp_all add: bucket_inv_init bucket_inv_step)

lemma r2_put_disk:
  "bk_disk (snd (r2_put digest bs dw key v sz opts st)) = snd (b_put bs (bk_disk st) (dw_nonce dw) v)"
  "bk_readers (snd (r2_put digest bs dw key v sz opts st)) = bk_readers st"
  by (auto simp: r2_put_def Let_def bk_backgroundDelete_def split: sum.splits option.splits prod.splits)

lemma r2_uploadPart_disk:
  "bk_disk (snd (r2_uploadPart digest bs dw key uid num v sz st)) \<in>
     {bk_disk st, snd (b_put bs (bk_disk st) (dw_nonce dw) v)}"
  "bk_readers (snd (r2_uploadPart digest bs dw key uid num v sz st)) = bk_readers st"
  by (auto simp: r2_uploadPart_def Let_def bk_backgroundDelete_def split: sum.splits option.splits prod.splits)

lemma other_disk:
  "bk_disk (snd (r2_delete keys st)) = bk_disk st" "bk_readers (snd (r2_delete keys st)) = bk_readers st"
  "bk_disk (snd (r2_createMultipartUpload dw key c h st)) = bk_disk st"
  "bk_readers (snd (r2_createMultipartUpload dw key c h st)) = bk_readers st"
  "bk_disk (snd (r2_completeMultipartUpload digest tst dw key uid ss st)) = bk_disk st"
  "bk_readers (snd (r2_completeMultipartUpload digest tst dw key uid ss st)) = bk_readers st"
  "bk_disk (snd (r2_abortMultipartUpload key uid st)) = bk_disk st"
  "bk_readers (snd (r2_abortMultipartUpload key uid st)) = bk_readers st"
  by (auto simp: r2_delete_def r2_createMultipartUpload_def r2_completeMultipartUpload_def
      r2_abortMultipartUpload_def Let_def bk_backgroundDelete_def split: sum.splits prod.splits)

lemma keeps_readers_put:
  assumes "bucket_inv contents st" "bucket_fresh st n"
  shows "keeps_readers (contents (bk_disk st)) (bk_readers st)
    (contents (snd (b_put bs (bk_disk st) n v))) (bk_readers st)"
proof (rule keeps_readers_same)
  fix br
  assume "br \<in> (\<Union>rd \<in> set (bk_readers st). set (rd_required rd))"
  then have "fst br \<in> set (owned st)" using bucket_invD(7) [OF assms(1)] by (simp add: required_def)
  with assms(2) show "contents (snd (b_put bs (bk_disk st) n v)) (fst br) = contents (bk_disk st) (fst br)"
    unfolding put_contents bucket_fresh_def by (metis fun_upd_other)
qed

lemma keeps_readers_step:
  "r2_step bs digest st st' \<Longrightarrow> bucket_inv contents st \<Longrightarrow>
     keeps_readers (contents (bk_disk st)) (bk_readers st) (contents (bk_disk st')) (bk_readers st')"
proof (induction rule: r2_step.induct)
  case (step_get st key gopts)
  obtain res st' where r: "r2_get bs key gopts st = (res, st')" by (cases "r2_get bs key gopts st")
  then have e: "snd (r2_get bs key gopts st) = st'" by simp
  from r show ?case unfolding e
    by (cases rule: r2_get_cases)
       (simp_all add: assemble_eq keeps_readers_same keeps_readers_disk)
next
  case (step_uploadPart st dw sz v key uid num)
  then show ?case
    using r2_uploadPart_disk(1) [of digest dw key uid num v sz st] keeps_readers_put [of st "dw_nonce dw" v]
      keeps_readers_same [of "bk_readers st" "contents (bk_disk st)" "contents (bk_disk st)"]
    by (auto simp: r2_uploadPart_disk(2))
next
  case (step_reader st i)
  show ?case
  proof (cases "i < length (bk_readers st) \<and> rd_state (bk_readers st ! i) = Streaming")
    case True
    then show ?thesis
      using step_reader
      by (elim conjE readerStep_ok)
         (auto simp: keeps_readers_def promise_def required_bytes_def releaseBlob_def nth_list_update split: if_splits)
  qed (auto simp: readerStep_def keeps_readers_def)
next
  case (step_run st b)
  show ?case
  proof (cases "b \<in> set (bk_pending st) \<and> bk_inUse st b = 0")
    case True
    have id: "is_blob_id b" using bucket_invD(5) [OF step_run, of b] True by (simp add: owned_def)
    have "keeps_readers (contents (bk_disk st)) (bk_readers st)
        (contents (snd (b_delete bs (bk_disk st) b))) (bk_readers st)"
    proof (rule keeps_readers_same)
      fix br
      assume "br \<in> (\<Union>rd \<in> set (bk_readers st). set (rd_required rd))"
      then have "fst br \<noteq> b" using not_in_use [OF step_run] True by (simp add: required_def)
      then show "contents (snd (b_delete bs (bk_disk st) b)) (fst br) = contents (bk_disk st) (fst br)"
        by (rule delete_other [OF id])
    qed
    with True show ?thesis by (simp add: bk_runDelete_def)
  qed (auto simp: bk_runDelete_def keeps_readers_def)
qed (simp_all add: r2_put_disk other_disk keeps_readers_put keeps_readers_same)

lemma keeps_readers_run:
  assumes "(r2_step bs digest)\<^sup>*\<^sup>* st st'" "bucket_inv contents st"
  shows "bucket_inv contents st' \<and>
    keeps_readers (contents (bk_disk st)) (bk_readers st) (contents (bk_disk st')) (bk_readers st')"
  using assms
proof (induction rule: rtranclp_induct)
  case base
  then show ?case by (simp add: keeps_readers_def)
next
  case (step st' st'')
  then show ?case using keeps_readers_step bucket_inv_step keeps_readers_trans by blast
qed

end

subsection \<open>The visible objects\<close>

text \<open>The object under a key, with its value: the blob of a single object, the parts of a multipart one.\<close>

definition r2_view ::
  "('d \<Rightarrow> string \<Rightarrow> bytes option) \<Rightarrow> 'd bucket \<Rightarrow> string \<Rightarrow> (object_row \<times> bytes) option"
where
  "r2_view contents st key =
     map_option (\<lambda>row. (row,
       case or_blob row of
         Some b \<Rightarrow> the (contents (bk_disk st) b)
       | None \<Rightarrow> concat (map (part_bytes (contents (bk_disk st))) (stmtListPartsByKey (bk_parts st) key))))
       (stmtGetByKey (bk_objects st) key)"

lemma r2_view_cong:
  assumes inv: "bucket_inv contents st"
    and "stmtGetByKey (bk_objects st') key = stmtGetByKey (bk_objects st) key"
    and "stmtListPartsByKey (bk_parts st') key = stmtListPartsByKey (bk_parts st) key"
    and same: "\<And>b. b \<in> set (refs (bk_objects st) (bk_parts st)) \<Longrightarrow>
      contents (bk_disk st') b = contents (bk_disk st) b"
  shows "r2_view contents st' key = r2_view contents st key"
proof (cases "stmtGetByKey (bk_objects st) key")
  case (Some row)
  note mem = objectByKey_mem [OF Some]
  have "contents (bk_disk st') b = contents (bk_disk st) b" if "or_blob row = Some b" for b
    using mem that by (intro same) (auto simp: refs_def blob_list_def intro!: bexI [of _ row])
  moreover have "part_bytes (contents (bk_disk st')) p = part_bytes (contents (bk_disk st)) p"
    if "p \<in> set (stmtListPartsByKey (bk_parts st) key)" for p
    using that same [of "pr_blob p"] unfolding set_listParts part_bytes_def refs_def by simp
  ultimately show ?thesis
    using Some by (cases "or_blob row") (simp_all add: r2_view_def assms(2,3) cong: map_cong)
qed (simp add: r2_view_def assms(2))

lemma getByKey_stmtPut: "stmtGetByKey (stmtPut objs row) k = (if k = or_key row then Some row else stmtGetByKey objs k)"
  by (simp add: stmtGetByKey_def stmtPut_def table_simps split: option.split)

lemma getByKey_stmtDelete: "stmtGetByKey (stmtDelete objs key) k = (if k = key then None else stmtGetByKey objs k)"
  by (simp add: stmtGetByKey_def stmtDelete_def table_simps)

context blob_store
begin

lemma put_same: "bucket_fresh st n \<Longrightarrow> b \<in> set (owned st) \<Longrightarrow>
  contents (snd (b_put bs (bk_disk st) n v)) b = contents (bk_disk st) b"
  unfolding put_contents bucket_fresh_def by (metis fun_upd_other)

lemma refs_owned: "b \<in> set (refs (bk_objects st) (bk_parts st)) \<Longrightarrow> b \<in> set (owned st)"
  by (simp add: owned_def)

lemma r2_put_view:
  assumes inv: "bucket_inv contents st" and fresh: "bucket_fresh st (dw_nonce dw)"
    and put: "r2_put digest bs dw key v sz opts st = (Inr ob, st')"
  shows "\<exists>row. r2_view contents st' = (r2_view contents st)(key \<mapsto> (row, v)) \<and> ob = InternalR2Object row None \<and>
    or_key row = key \<and> or_size row = sz \<and> or_etag row = bytes_hex (digest MD5 v) \<and>
    or_blob row = Some (generateBlobId (dw_nonce dw)) \<and>
    or_custom_metadata row = default_custom (po_customMetadata opts) \<and>
    or_http_metadata row = default_http (po_httpMetadata opts)"
proof -
  let ?n = "dw_nonce dw"
  obtain d where d: "b_put bs (bk_disk st) ?n v = (Inr (generateBlobId ?n), d)"
    using put_result [of "bk_disk st" ?n v] by (metis prod.collapse)
  note t = bucket_invD(1) [OF inv]
  from put obtain row old objs parts where txn: "txn_put row (po_onlyIf opts) (bk_objects st) (bk_parts st) = Inr (old, objs, parts)"
    and st': "st' = bk_backgroundDelete old (st\<lparr>bk_disk := d, bk_objects := objs, bk_parts := parts\<rparr>)"
    and row: "ob = InternalR2Object row None" "or_key row = key" "or_size row = sz" "or_etag row = bytes_hex (digest MD5 v)"
      "or_blob row = Some (generateBlobId ?n)" "or_custom_metadata row = default_custom (po_customMetadata opts)"
      "or_http_metadata row = default_http (po_httpMetadata opts)"
    by (auto simp: r2_put_def Let_def d R2_HASH_ALGORITHMS_def split: sum.splits)
  note eq = txn_put_eq [OF t txn]
  have new: "r2_view contents st' key = Some (row, v)"
    using put_contents [of "bk_disk st" ?n v] row(2,5)
    by (simp add: r2_view_def st' bk_backgroundDelete_def eq(1) getByKey_stmtPut d)
  have "r2_view contents st' k = r2_view contents st k" if "k \<noteq> key" for k
  proof (rule r2_view_cong [OF inv])
    show "contents (bk_disk st') b = contents (bk_disk st) b" if "b \<in> set (refs (bk_objects st) (bk_parts st))" for b
      using put_same [OF fresh refs_owned [OF that], of v] by (simp add: st' bk_backgroundDelete_def d)
  qed (use that row(2) in \<open>simp_all add: st' bk_backgroundDelete_def eq(1,2) getByKey_stmtPut listParts_delete_key\<close>)
  with new have "r2_view contents st' = (r2_view contents st)(key \<mapsto> (row, v))" by (auto simp: fun_eq_iff)
  with row show ?thesis by blast
qed

lemma r2_put_failed_view:
  assumes inv: "bucket_inv contents st" and fresh: "bucket_fresh st (dw_nonce dw)"
    and put: "r2_put digest bs dw key v sz opts st = (Inl e, st')"
  shows "r2_view contents st' = r2_view contents st"
proof
  fix k
  let ?n = "dw_nonce dw"
  have "bk_objects st' = bk_objects st \<and> bk_parts st' = bk_parts st \<and>
      bk_disk st' = snd (b_put bs (bk_disk st) ?n v)"
    using put by (auto simp: r2_put_def Let_def bk_backgroundDelete_def split: sum.splits option.splits prod.splits)
  then show "r2_view contents st' k = r2_view contents st k"
    using put_same [OF fresh refs_owned, of _ v] by (intro r2_view_cong [OF inv]) simp_all
qed

lemma r2_complete_view:
  assumes inv: "bucket_inv contents st"
    and c: "r2_completeMultipartUpload digest tst dw key uid ss st = (Inr ob, st')"
    and ps: "ps = sort_key pr_part_number
      (filter (\<lambda>p. pr_upload_id p = uid \<and> pr_part_number p \<in> pp_part ` set ss) (bk_parts st))"
  shows "\<exists>row. r2_view contents st' = (r2_view contents st)
      (key \<mapsto> (row, concat (map (part_bytes (contents (bk_disk st))) ps))) \<and> ob = InternalR2Object row None \<and>
    or_size row = sum_list (map pr_size ps)"
proof -
  let ?m = "if tst then MIN_MULTIPART_PART_SIZE_TEST else MIN_MULTIPART_PART_SIZE"
  let ?N = "set (map pp_part ss)"
  note t = bucket_invD(1) [OF inv]
  have ps': "ps = selected uid ?N (bk_parts st)" by (simp add: ps selected_def)
  from c obtain cr where cr: "txn_completeMultipartUpload digest (dw_version dw) (dw_now dw) key uid ss ?m
      (bk_objects st) (bk_uploads st) (bk_parts st) = Inr cr"
    and st': "st' = bk_backgroundDelete (cr_oldBlobIds cr)
      (st\<lparr>bk_objects := cr_objects cr, bk_uploads := cr_uploads cr, bk_parts := cr_parts cr\<rparr>)"
    and ob: "ob = InternalR2Object (cr_newRow cr) None"
    unfolding r2_completeMultipartUpload_def Let_def by (auto split: sum.splits)
  obtain u where u: "u \<in> set (bk_uploads st)" "ur_upload_id u = uid" "ur_state u = IN_PROGRESS"
    and row: "or_key (cr_newRow cr) = key" "or_blob (cr_newRow cr) = None"
      "or_size (cr_newRow cr) = sum_list (map pr_size ps)"
    and objs: "cr_objects cr = stmtPut (bk_objects st) (cr_newRow cr)"
    and parts: "cr_parts cr = map (link key uid ?N) (filter (kept key uid ?N) (bk_parts st))"
    by (rule complete_eq [OF t cr refl ps'])
  have list: "stmtListPartsByKey (cr_parts cr) key = map (link key uid ?N) ps"
    unfolding parts listParts_complete_same selected_kept [OF t u] ps' ..
  have "r2_view contents st' key = Some (cr_newRow cr, concat (map (part_bytes (contents (bk_disk st))) ps))"
    using row(1,2) by (simp add: r2_view_def st' bk_backgroundDelete_def objs getByKey_stmtPut list part_bytes_def [abs_def] comp_def)
  moreover have "r2_view contents st' k = r2_view contents st k" if "k \<noteq> key" for k
    using that row(1) listParts_complete_other [OF t u that, of ?N]
    by (intro r2_view_cong [OF inv]) (simp_all add: st' bk_backgroundDelete_def objs getByKey_stmtPut parts)
  ultimately have "r2_view contents st' = (r2_view contents st)
      (key \<mapsto> (cr_newRow cr, concat (map (part_bytes (contents (bk_disk st))) ps)))"
    by (auto simp: fun_eq_iff)
  with ob row(3) show ?thesis by blast
qed

end

end
