(* ===== verification/R2Theorems.thy ===== *)
theory R2Theorems
  imports R2Properties
begin

text \<open>
  The properties of the R2 simulator, for any blob directory that keeps files as HTTP prescribes and
  any digest functions.
\<close>

lemmas r2_inv_of_files = blob_store.r2_reachable_inv [OF file_service.provides_blob_store]

subsection \<open>What a get returns\<close>

definition any_get :: get_options where
  "any_get = \<lparr>go_range = None, go_rangeHeader = None, go_onlyIf = None\<rparr>"

lemma r2_get_stream:
  assumes "r2_get bs key opts st = (Inr (ob, Stream i), st')"
  obtains row q where "stmtGetByKey (bk_objects st) key = Some row" "or_blob row = None"
    "i = length (bk_readers st)" "st' = snd (assembleMultipartValue (stmtListPartsByKey (bk_parts st) key) q st)"
    "q = mkRange 0 (or_size row - 1) \<or> v_range (go_rangeHeader opts) (go_range opts) (or_size row) = Inr (Some q)"
    "rend q \<le> or_size row \<longrightarrow>
       o_range ob = Some \<lparr>r2_offset = Some (rstart q), r2_length = Some (rend q - rstart q + 1), r2_suffix = None\<rparr>"
proof -
  from assms obtain row parts rng where g: "getPartsByKey (bk_objects st) (bk_parts st) key = Some (row, parts)"
    and v: "v_range (go_rangeHeader opts) (go_range opts) (or_size row) = Inr rng" and b: "or_blob row = None"
    and r: "\<exists>ps. parts = Some ps \<and> assembleMultipartValue ps
        (case rng of None \<Rightarrow> mkRange 0 (or_size row - 1) | Some r \<Rightarrow> r) st = (i, st')"
    and ob: "o_range ob = Some (case rng of None \<Rightarrow> full_range (or_size row)
        | Some r \<Rightarrow> \<lparr>r2_offset = Some (rstart r), r2_length = Some (min (rend r) (or_size row) - rstart r + 1), r2_suffix = None\<rparr>)"
    by (auto simp: r2_get_def Let_def InternalR2Object_def split: sum.splits option.splits prod.splits)
  from g b have row: "stmtGetByKey (bk_objects st) key = Some row" "parts = Some (stmtListPartsByKey (bk_parts st) key)"
    by (auto simp: getPartsByKey_def split: option.splits if_splits)
  let ?q = "case rng of None \<Rightarrow> mkRange 0 (or_size row - 1) | Some r \<Rightarrow> r"
  from r row(2) have "assembleMultipartValue (stmtListPartsByKey (bk_parts st) key) ?q st = (i, st')" by simp
  then have "i = length (bk_readers st)" "st' = snd (assembleMultipartValue (stmtListPartsByKey (bk_parts st) key) ?q st)"
    by (simp_all add: assemble_eq)
  with row(1) b v ob that [of row ?q] show ?thesis by (cases rng) (auto simp: full_range_def min_def)
qed

context blob_store
begin

lemma r2_get_promise:
  assumes inv: "bucket_inv contents st" and get: "r2_get bs key opts st = (Inr (ob, Stream i), st')"
  shows "\<exists>row v q. r2_view contents st key = Some (row, v) \<and> i < length (bk_readers st') \<and>
    rd_state (bk_readers st' ! i) = Streaming \<and>
    o_range ob = Some \<lparr>r2_offset = Some (rstart q), r2_length = Some (rend q - rstart q + 1), r2_suffix = None\<rparr> \<and>
    0 \<le> rstart q \<and> rend q < or_size row \<and>
    promise (contents (bk_disk st')) (bk_readers st' ! i) = slice q v"
proof -
  obtain row q where row: "stmtGetByKey (bk_objects st) key = Some row" "or_blob row = None"
    and i: "i = length (bk_readers st)"
    and st': "st' = snd (assembleMultipartValue (stmtListPartsByKey (bk_parts st) key) q st)"
    and q: "q = mkRange 0 (or_size row - 1) \<or> v_range (go_rangeHeader opts) (go_range opts) (or_size row) = Inr (Some q)"
    and ob: "rend q \<le> or_size row \<longrightarrow>
       o_range ob = Some \<lparr>r2_offset = Some (rstart q), r2_length = Some (rend q - rstart q + 1), r2_suffix = None\<rparr>"
    by (rule r2_get_stream [OF get])
  let ?ps = "stmtListPartsByKey (bk_parts st) key" and ?c = "contents (bk_disk st)"
  have ps: "\<forall>p \<in> set ?ps. part_stored ?c p"
    using part_stored_of_sized [of "bk_objects st" "bk_parts st"] bucket_invD(3) [OF inv] unfolding set_listParts by blast
  have "or_size row = sum_list (map pr_size ?ps)"
    using bucket_invD(2) [OF inv] objectByKey_mem [OF row(1)] row(2) unfolding multipart_ok_def by blast
  then have "0 \<le> or_size row" using ps part_stored_nonneg by (metis (no_types, lifting) imageE list.set_map sum_list_nonneg)
  then have bounds: "0 \<le> rstart q" "rend q < or_size row" using q by (auto dest!: v_range_in)
  have "promise (contents (bk_disk st')) (bk_readers st' ! i) = required_bytes ?c (requiredParts 0 q ?ps)"
    by (simp add: st' assemble_eq i promise_def)
  also have "\<dots> = slice q (concat (map (part_bytes ?c) ?ps))"
    using requiredParts_bytes [OF ps, of 0 q] segment_slice [OF bounds(1)] by simp
  finally show ?thesis
    using row bounds ob i by (intro exI [of _ row] exI [of _ "concat (map (part_bytes ?c) ?ps)"] exI [of _ q])
      (simp_all add: r2_view_def st' assemble_eq)
qed

lemma readerStep_progress:
  assumes "bucket_inv contents st" "i < length (bk_readers st)" "rd_state (bk_readers st ! i) = Streaming"
    and "length (rd_required (bk_readers st ! i)) = n"
  shows "let st' = (readerStep bs i ^^ Suc n) st in i < length (bk_readers st') \<and>
    rd_state (bk_readers st' ! i) = Closed \<and>
    rd_out (bk_readers st' ! i) = promise (contents (bk_disk st)) (bk_readers st ! i)"
  using assms
proof (induction n arbitrary: st)
  case 0
  from 0(1-3) show ?case
  proof (cases rule: readerStep_ok)
    case 1
    with 0 show ?thesis by (simp add: promise_def required_bytes_def)
  qed (use 0 in auto)
next
  case (Suc n)
  from Suc.prems(1-3) show ?case
  proof (cases rule: readerStep_ok)
    case (2 b r rest v)
    let ?st = "readerStep bs i st"
    have "promise (contents (bk_disk ?st)) (bk_readers ?st ! i) = promise (contents (bk_disk st)) (bk_readers st ! i)"
      using Suc.prems(2) 2 by (simp add: releaseBlob_def promise_def required_bytes_def)
    moreover have "length (rd_required (bk_readers ?st ! i)) = n" "i < length (bk_readers ?st)"
      "rd_state (bk_readers ?st ! i) = Streaming"
      using Suc.prems 2 by (simp_all add: releaseBlob_def)
    ultimately show ?thesis
      using Suc.IH [OF readerStep_inv [OF Suc.prems(1)], of i] by (simp add: funpow_Suc_right del: funpow.simps)
  qed (use Suc.prems in auto)
qed

end

subsection \<open>Uploads are final once completed or aborted\<close>

lemma updateState_final:
  assumes "tables_inv objs uploads parts" "w \<in> set uploads" "ur_upload_id w = uid" "ur_state w = IN_PROGRESS"
    and "u \<in> set uploads" "ur_state u \<noteq> IN_PROGRESS"
  shows "u \<in> set (stmtUpdateUploadState uploads uid s)"
proof -
  have "ur_upload_id u \<noteq> uid"
    using same_upload [OF assms(1,5,2)] assms(3,4,6) by metis
  then show ?thesis
    using imageI [OF assms(5), of "\<lambda>u. if ur_upload_id u = uid then u\<lparr>ur_state := s\<rparr> else u"]
    by (simp add: stmtUpdateUploadState_def)
qed

lemma releaseBlob_uploads:
  "bk_uploads (releaseBlob b st) = bk_uploads st"
  "bk_uploads (fold (\<lambda>(b, _). releaseBlob b) req st) = bk_uploads st"
  by (simp add: releaseBlob_def, induction req arbitrary: st) (auto simp: releaseBlob_def)

lemma r2_step_final:
  "r2_step bs digest st st' \<Longrightarrow> tables_inv (bk_objects st) (bk_uploads st) (bk_parts st) \<Longrightarrow>
     u \<in> set (bk_uploads st) \<Longrightarrow> ur_state u \<noteq> IN_PROGRESS \<Longrightarrow> u \<in> set (bk_uploads st')"
proof (induction rule: r2_step.induct)
  case (step_get st key gopts)
  obtain res st' where r: "r2_get bs key gopts st = (res, st')" by (cases "r2_get bs key gopts st")
  then have "bk_uploads st' = bk_uploads st" by (cases rule: r2_get_cases) (simp_all add: assemble_eq)
  with r step_get show ?case by simp
next
  case (step_complete st tst dw key uid ss)
  let ?m = "if tst then MIN_MULTIPART_PART_SIZE_TEST else MIN_MULTIPART_PART_SIZE"
  let ?txn = "txn_completeMultipartUpload digest (dw_version dw) (dw_now dw) key uid ss ?m
    (bk_objects st) (bk_uploads st) (bk_parts st)"
  show ?case
  proof (cases "andThen (v_key key) (\<lambda>_. ?txn)")
    case (Inl e)
    with step_complete show ?thesis by (simp add: r2_completeMultipartUpload_def)
  next
    case (Inr cr)
    then have c: "?txn = Inr cr" by simp
    obtain w where w: "w \<in> set (bk_uploads st)" "ur_upload_id w = uid" "ur_state w = IN_PROGRESS"
      and up: "cr_uploads cr = stmtUpdateUploadState (bk_uploads st) uid COMPLETED"
      by (rule complete_eq [OF step_complete(1) c refl refl])
    have "bk_uploads (snd (r2_completeMultipartUpload digest tst dw key uid ss st)) = cr_uploads cr"
      using Inr by (simp add: r2_completeMultipartUpload_def bk_backgroundDelete_def)
    then show ?thesis unfolding up using updateState_final [OF step_complete(1) w step_complete(2,3)] by simp
  qed
next
  case (step_abort st key uid)
  show ?case
  proof (cases "bk_uploads (snd (r2_abortMultipartUpload key uid st)) = bk_uploads st")
    case False
    then obtain w where w: "stmtGetUpload (bk_uploads st) uid key = Some w" "ur_state w = IN_PROGRESS"
      and up: "bk_uploads (snd (r2_abortMultipartUpload key uid st)) = stmtUpdateUploadState (bk_uploads st) uid ABORTED"
      by (auto simp: r2_abortMultipartUpload_def txn_abortMultipartUpload_def Let_def bk_backgroundDelete_def
          split: sum.splits option.splits if_splits prod.splits)
    have "w \<in> set (bk_uploads st)" "ur_upload_id w = uid" using stmtGetUpload_mem [OF w(1)] by blast+
    then show ?thesis unfolding up using w(2) by (intro updateState_final [OF step_abort(1) _ _ _ step_abort(2,3)])
  qed (use step_abort in simp)
next
  case (step_reader st i)
  have "bk_uploads (readerStep bs i st) = bk_uploads st"
    by (auto simp: readerStep_def Let_def releaseBlob_uploads split: list.splits sum.splits option.splits)
  with step_reader show ?case by simp
qed (auto simp: r2_put_def r2_delete_def r2_createMultipartUpload_def r2_uploadPart_def bk_runDelete_def Let_def
      bk_backgroundDelete_def split: sum.splits option.splits prod.splits)

subsection \<open>Properties\<close>

text \<open>
  C2: In every state of a bucket that requests, background deletions and multipart reads can reach in
  any interleaving: keys, upload identifiers and part numbers are unique; every part belongs to an
  upload and is linked to a multipart object exactly when its upload is completed; every blob has one
  owner; the blobs of objects and parts are on disk with the recorded sizes; and every blob a running
  read still needs is on disk and counted as in use.
\<close>

theorem r2_reachable_well_formed:
  assumes "file_service ds files b" and "r2_reachable (BlobStore_ops ds b) digest st"
  shows "bucket_inv (blob_contents files b) st"
  using r2_inv_of_files [OF assms] .

definition ex_draw :: "int \<Rightarrow> draw" where
  "ex_draw t = \<lparr>dw_nonce = ex_nonce t, dw_version = ''v'', dw_now = t, dw_id = show_int t\<rparr>"

abbreviation ex_bs :: "(string \<Rightarrow> bytes option) blob_ops" where
  "ex_bs \<equiv> BlobStore_ops mem_service ex_store"

abbreviation ex_digest :: "hash_alg \<Rightarrow> bytes \<Rightarrow> bytes" where
  "ex_digest \<equiv> \<lambda>_ v. v"

text \<open>A bucket with one multipart object of one part.\<close>

definition ex_bucket1 :: "(string \<Rightarrow> bytes option) bucket" where
  "ex_bucket1 = snd (r2_createMultipartUpload (ex_draw 1) ''k'' None None (bucket_init (\<lambda>_. None)))"

definition ex_bucket2 :: "(string \<Rightarrow> bytes option) bucket" where
  "ex_bucket2 = snd (r2_uploadPart ex_digest ex_bs (ex_draw 2) ''k'' ''1'' 1 [5, 6, 7] 3 ex_bucket1)"

definition ex_bucket3 :: "(string \<Rightarrow> bytes option) bucket" where
  "ex_bucket3 = snd (r2_completeMultipartUpload ex_digest True (ex_draw 3) ''k'' ''1''
     [\<lparr>pp_etag = ''2'', pp_part = 1\<rparr>] ex_bucket2)"

lemma ex_bucket1_reachable: "r2_reachable ex_bs ex_digest ex_bucket1"
  unfolding ex_bucket1_def by (rule r2_reach_step [OF r2_reach_init step_create])

lemma ex_bucket2_reachable: "r2_reachable ex_bs ex_digest ex_bucket2"
  unfolding ex_bucket2_def
  by (rule r2_reach_step [OF ex_bucket1_reachable step_uploadPart])
     (auto simp: bucket_fresh_def owned_def refs_def ex_bucket1_def r2_createMultipartUpload_def bucket_init_def
       split: sum.splits)

lemma ex_bucket3_reachable: "r2_reachable ex_bs ex_digest ex_bucket3"
  unfolding ex_bucket3_def by (rule r2_reach_step [OF ex_bucket2_reachable step_complete])

theorem r2_reachable_well_formed_witness: "bucket_inv (blob_contents (\<lambda>d. d) ex_store) ex_bucket3"
  by (rule r2_reachable_well_formed [OF mem_file_service ex_bucket3_reachable])

lemma ex_get_stream:
  "\<exists>ob st'. r2_get ex_bs ''k'' any_get ex_bucket3 = (Inr (ob, Stream 0), st')"
proof -
  have "case r2_get ex_bs ''k'' any_get ex_bucket3 of (Inr (ob, Stream i), st') \<Rightarrow> i = 0 | _ \<Rightarrow> False"
    by code_simp
  then show ?thesis by (auto split: prod.splits sum.splits r2_body.splits) (metis r2_body.exhaust)
qed

text \<open>
  C1: A read of a multipart object delivers the value the object had when the read started, whatever
  happens while it is streamed: overwriting or deleting the object, other reads and background blob
  deletions in any order. The stream never fails, what it has delivered is always a prefix of the
  requested part of that value, and once nothing is left to stream it is all of it.
\<close>

theorem r2_multipart_read_consistent:
  assumes "file_service ds files b" and "r2_reachable (BlobStore_ops ds b) digest st"
    and "r2_get (BlobStore_ops ds b) key opts st = (Inr (ob, Stream i), st')"
    and "(r2_step (BlobStore_ops ds b) digest)\<^sup>*\<^sup>* st' st''"
  shows "\<exists>row v off len. r2_view (blob_contents files b) st key = Some (row, v) \<and>
    o_range ob = Some \<lparr>r2_offset = Some off, r2_length = Some len, r2_suffix = None\<rparr> \<and>
    rd_state (bk_readers st'' ! i) \<noteq> Aborted \<and>
    prefix (rd_out (bk_readers st'' ! i)) (take (nat len) (drop (nat off) v)) \<and>
    (rd_required (bk_readers st'' ! i) = [] \<longrightarrow>
       rd_out (bk_readers st'' ! i) = take (nat len) (drop (nat off) v))"
proof -
  note bs = blob_store_of_files [OF assms(1)]
  let ?c = "blob_contents files b"
  note inv = r2_inv_of_files [OF assms(1,2)]
  obtain row v q where view: "r2_view ?c st key = Some (row, v)" and i: "i < length (bk_readers st')"
    and s: "rd_state (bk_readers st' ! i) = Streaming"
    and rng: "o_range ob = Some \<lparr>r2_offset = Some (rstart q), r2_length = Some (rend q - rstart q + 1), r2_suffix = None\<rparr>"
    and p: "promise (?c (bk_disk st')) (bk_readers st' ! i) = slice q v"
    using blob_store.r2_get_promise [OF bs inv assms(3)] by blast
  have "bucket_inv ?c st'" using blob_store.r2_get_inv [OF bs inv, of key opts] assms(3) by simp
  from blob_store.keeps_readers_run [OF bs assms(4) this] i s p
  have "promise (?c (bk_disk st'')) (bk_readers st'' ! i) = slice q v" "rd_state (bk_readers st'' ! i) \<noteq> Aborted"
    by (auto simp: keeps_readers_def)
  then show ?thesis
    using view rng
    by (intro exI [of _ row] exI [of _ v] exI [of _ "rstart q"] exI [of _ "rend q - rstart q + 1"])
       (auto simp: promise_def slice_def required_bytes_def dest: sym)
qed

theorem r2_multipart_read_consistent_witness:
  "\<exists>ob st'. r2_get ex_bs ''k'' any_get ex_bucket3 = (Inr (ob, Stream 0), st') \<and>
     rd_state (bk_readers (snd (r2_delete [''k''] st')) ! 0) \<noteq> Aborted"
proof -
  obtain ob st' where g: "r2_get ex_bs ''k'' any_get ex_bucket3 = (Inr (ob, Stream 0), st')"
    using ex_get_stream by blast
  have "(r2_step ex_bs ex_digest)\<^sup>*\<^sup>* st' (snd (r2_delete [''k''] st'))"
    by (rule r_into_rtranclp) (rule step_delete)
  from r2_multipart_read_consistent [OF mem_file_service ex_bucket3_reachable g this] g show ?thesis by blast
qed

text \<open>
  C7: A multipart read finishes: after one step per part it still needs and one more, its stream is
  closed and has delivered everything it promised.
\<close>

theorem r2_multipart_read_finishes:
  assumes "file_service ds files b" and "r2_reachable (BlobStore_ops ds b) digest st"
    and "i < length (bk_readers st)" and "rd_state (bk_readers st ! i) = Streaming"
    and "st' = (readerStep (BlobStore_ops ds b) i ^^ Suc (length (rd_required (bk_readers st ! i)))) st"
  shows "rd_state (bk_readers st' ! i) = Closed \<and>
    rd_out (bk_readers st' ! i) = rd_out (bk_readers st ! i) @
      concat (map (\<lambda>(blob, r). slice r (the (blob_contents files b (bk_disk st) blob))) (rd_required (bk_readers st ! i)))"
  using blob_store.readerStep_progress [OF blob_store_of_files [OF assms(1)] r2_inv_of_files [OF assms(1,2)] assms(3,4) refl]
  by (simp add: assms(5) Let_def promise_def required_bytes_def del: funpow.simps)

theorem r2_multipart_read_finishes_witness:
  "\<exists>ob st'. r2_get ex_bs ''k'' any_get ex_bucket3 = (Inr (ob, Stream 0), st') \<and>
     rd_state (bk_readers ((readerStep ex_bs 0 ^^ Suc (length (rd_required (bk_readers st' ! 0)))) st') ! 0) = Closed"
proof -
  obtain ob st' where g: "r2_get ex_bs ''k'' any_get ex_bucket3 = (Inr (ob, Stream 0), st')"
    using ex_get_stream by blast
  then have r: "r2_reachable ex_bs ex_digest st'"
    using r2_reach_step [OF ex_bucket3_reachable step_get, of "''k''" any_get] by simp
  have "0 < length (bk_readers st') \<and> rd_state (bk_readers st' ! 0) = Streaming"
    using r2_get_stream [OF g] by (metis (no_types, lifting) assemble_eq bucket.select_convs(7) bucket.surjective
      bucket.update_convs(7) length_append_singleton nth_append_length reader.select_convs(3) snd_conv zero_less_Suc)
  with r2_multipart_read_finishes [OF mem_file_service r, of 0, OF _ _ refl] g show ?thesis by auto
qed

text \<open>
  C4: After a successful put, a get of the key returns exactly the bytes put, with their size and the
  hexadecimal MD5 digest as ETag, and every other object is as before.
\<close>

theorem r2_put_then_get:
  assumes "file_service ds files b" and "r2_reachable (BlobStore_ops ds b) digest st"
    and "bucket_fresh st (dw_nonce dw)"
    and "r2_put digest (BlobStore_ops ds b) dw key v (int (length v)) opts st = (Inr ob, st')"
  shows "(\<exists>ob'. fst (r2_get (BlobStore_ops ds b) key any_get st') = Inr (ob', Whole v) \<and>
      o_size ob' = int (length v) \<and> o_etag ob' = bytes_hex (digest MD5 v) \<and>
      o_customMetadata ob' = default_custom (po_customMetadata opts)) \<and>
    (k \<noteq> key \<longrightarrow> r2_view (blob_contents files b) st' k = r2_view (blob_contents files b) st k)"
proof -
  note bs = blob_store_of_files [OF assms(1)]
  let ?c = "blob_contents files b" and ?n = "dw_nonce dw"
  note inv = r2_inv_of_files [OF assms(1,2)]
  obtain row where view: "r2_view ?c st' = (r2_view ?c st)(key \<mapsto> (row, v))" and row: "or_size row = int (length v)"
    "or_etag row = bytes_hex (digest MD5 v)" "or_blob row = Some (generateBlobId ?n)"
    "or_custom_metadata row = default_custom (po_customMetadata opts)"
    using blob_store.r2_put_view [OF bs inv assms(3,4)] by blast
  have key: "v_key key = Inr ()"
    using assms(4) by (auto simp: r2_put_def Let_def v_key_def split: sum.splits option.splits prod.splits)
  have get: "stmtGetByKey (bk_objects st') key = Some row"
    using fun_cong [OF view, of key] by (auto simp: r2_view_def)
  have "?c (bk_disk st') (generateBlobId ?n) = Some v"
    using blob_store.put_contents [OF bs, of "bk_disk st" ?n v] blob_store.r2_put_disk(1) [OF bs, of digest dw key v "int (length v)" opts st]
      assms(4) by simp
  from blob_store.get_whole [OF bs this] get key row
  have "fst (r2_get (BlobStore_ops ds b) key any_get st') =
      Inr (InternalR2Object row (Some (full_range (int (length v)))), Whole v)"
    by (simp add: r2_get_def any_get_def getPartsByKey_def v_condition_def v_range_def Let_def)
  with view row show ?thesis by (auto simp: InternalR2Object_def)
qed

definition ex_put :: put_options where
  "ex_put = \<lparr>po_customMetadata = None, po_httpMetadata = None, po_onlyIf = None, po_hashes = (\<lambda>_. None)\<rparr>"

theorem r2_put_then_get_witness:
  "\<exists>ob'. fst (r2_get ex_bs ''k'' any_get
     (snd (r2_put ex_digest ex_bs (ex_draw 4) ''k'' [1, 2] 2 ex_put (bucket_init (\<lambda>_. None))))) = Inr (ob', Whole [1, 2])"
proof -
  let ?r = "r2_put ex_digest ex_bs (ex_draw 4) ''k'' [1, 2] 2 ex_put (bucket_init (\<lambda>_. None))"
  have "\<not> isl (fst ?r)" by code_simp
  then obtain ob where r: "r2_put ex_digest ex_bs (ex_draw 4) ''k'' [1, 2] (int (length ([1, 2] :: bytes))) ex_put
      (bucket_init (\<lambda>_. None)) = (Inr ob, snd ?r)"
    by (cases "fst ?r") (auto simp: prod_eq_iff)
  have "bucket_fresh (bucket_init (\<lambda>_. None)) (dw_nonce (ex_draw 4))"
    by (simp add: bucket_fresh_def bucket_init_def owned_def refs_def)
  from r2_put_then_get [OF mem_file_service r2_reach_init this r] show ?thesis by blast
qed

text \<open>
  C5: A put that fails, because its precondition does not hold or for any other reason, changes no
  object.
\<close>

theorem r2_failed_put_no_effect:
  assumes "file_service ds files b" and "r2_reachable (BlobStore_ops ds b) digest st"
    and "bucket_fresh st (dw_nonce dw)"
    and "r2_put digest (BlobStore_ops ds b) dw key v sz opts st = (Inl e, st')"
  shows "r2_view (blob_contents files b) st' = r2_view (blob_contents files b) st"
  by (rule blob_store.r2_put_failed_view [OF blob_store_of_files [OF assms(1)] r2_inv_of_files [OF assms(1,2)] assms(3,4)])

definition ex_never :: r2_conditional where
  "ex_never = \<lparr>etagMatches = Some [Strong ''x''], etagDoesNotMatch = None, uploadedBefore = None,
     uploadedAfter = None, secondsGranularity = False\<rparr>"

theorem r2_failed_put_no_effect_witness:
  "r2_view (blob_contents (\<lambda>d. d) ex_store)
     (snd (r2_put ex_digest ex_bs (ex_draw 4) ''k'' [1, 2] 2 (ex_put\<lparr>po_onlyIf := Some ex_never\<rparr>) (bucket_init (\<lambda>_. None)))) =
   r2_view (blob_contents (\<lambda>d. d) ex_store) (bucket_init (\<lambda>_. None))"
proof -
  let ?r = "r2_put ex_digest ex_bs (ex_draw 4) ''k'' [1, 2] 2 (ex_put\<lparr>po_onlyIf := Some ex_never\<rparr>) (bucket_init (\<lambda>_. None))"
  have "isl (fst ?r)" by code_simp
  then obtain e where r: "?r = (Inl e, snd ?r)" by (auto simp: isl_def prod_eq_iff)
  have "bucket_fresh (bucket_init (\<lambda>_. None)) (dw_nonce (ex_draw 4))"
    by (simp add: bucket_fresh_def bucket_init_def owned_def refs_def)
  from r2_failed_put_no_effect [OF mem_file_service r2_reach_init this r] show ?thesis .
qed

text \<open>
  C3: Completing a multipart upload makes the selected parts, concatenated in ascending order of their
  part numbers, the value of the object; its size is the sum of their sizes, and every other object
  is as before.
\<close>

theorem r2_complete_concatenates:
  assumes "file_service ds files b" and "r2_reachable (BlobStore_ops ds b) digest st"
    and "r2_completeMultipartUpload digest tst dw key uid ss st = (Inr ob, st')"
    and "ps = sort_key pr_part_number
      (filter (\<lambda>p. pr_upload_id p = uid \<and> pr_part_number p \<in> pp_part ` set ss) (bk_parts st))"
  shows "\<exists>row. r2_view (blob_contents files b) st' = (r2_view (blob_contents files b) st)
      (key \<mapsto> (row, concat (map (\<lambda>p. the (blob_contents files b (bk_disk st) (pr_blob p))) ps))) \<and>
    o_size ob = sum_list (map pr_size ps)"
proof -
  obtain row where "r2_view (blob_contents files b) st' = (r2_view (blob_contents files b) st)
      (key \<mapsto> (row, concat (map (part_bytes (blob_contents files b (bk_disk st))) ps)))"
    "ob = InternalR2Object row None" "or_size row = sum_list (map pr_size ps)"
    using blob_store.r2_complete_view [OF blob_store_of_files [OF assms(1)] r2_inv_of_files [OF assms(1,2)] assms(3,4)]
    by blast
  then show ?thesis by (auto simp: InternalR2Object_def part_bytes_def [abs_def])
qed

theorem r2_complete_concatenates_witness:
  "\<exists>row v. r2_view (blob_contents (\<lambda>d. d) ex_store) ex_bucket3 ''k'' = Some (row, v)"
proof -
  let ?r = "r2_completeMultipartUpload ex_digest True (ex_draw 3) ''k'' ''1'' [\<lparr>pp_etag = ''2'', pp_part = 1\<rparr>] ex_bucket2"
  have "\<not> isl (fst ?r)" by code_simp
  then obtain ob where r: "?r = (Inr ob, ex_bucket3)"
    unfolding ex_bucket3_def by (cases "fst ?r") (auto simp: prod_eq_iff)
  from r2_complete_concatenates [OF mem_file_service ex_bucket2_reachable r refl] show ?thesis by auto
qed

text \<open>
  C6: A completed or aborted upload stays so under every step of the bucket, and it accepts no
  further part and no further completion, while aborting it again does nothing.
\<close>

theorem r2_upload_final:
  assumes "file_service ds files b" and "r2_reachable (BlobStore_ops ds b) digest st"
    and "u \<in> set (bk_uploads st)" and "ur_state u \<noteq> IN_PROGRESS" and "v_key (ur_key u) = Inr ()"
    and "r2_step (BlobStore_ops ds b) digest st st'"
  shows "u \<in> set (bk_uploads st') \<and>
    fst (r2_uploadPart digest (BlobStore_ops ds b) dw (ur_key u) (ur_upload_id u) num v sz st) = Inl NoSuchUpload \<and>
    fst (r2_completeMultipartUpload digest tst dw (ur_key u) (ur_upload_id u) ss st) = Inl NoSuchUpload \<and>
    r2_abortMultipartUpload (ur_key u) (ur_upload_id u) st = (Inr (), st)"
proof -
  note bs = blob_store_of_files [OF assms(1)]
  note t = bucket_invD(1) [OF r2_inv_of_files [OF assms(1,2)]]
  have u: "stmtGetUpload (bk_uploads st) (ur_upload_id u) (ur_key u) = Some u"
  proof -
    obtain w where w: "stmtGetUpload (bk_uploads st) (ur_upload_id u) (ur_key u) = Some w"
      using assms(3) unfolding stmtGetUpload_def by (cases "find (\<lambda>w. ur_upload_id w = ur_upload_id u \<and> ur_key w = ur_key u) (bk_uploads st)")
        (auto simp: find_None_iff)
    with same_upload [OF t assms(3), of w] stmtGetUpload_mem [OF w] show ?thesis by simp
  qed
  obtain d where "b_put (BlobStore_ops ds b) (bk_disk st) (dw_nonce dw) v = (Inr (generateBlobId (dw_nonce dw)), d)"
    using blob_store.put_result [OF bs, of "bk_disk st" "dw_nonce dw" v] by (metis prod.collapse)
  moreover have "bk_backgroundDelete [] (st\<lparr>bk_uploads := bk_uploads st, bk_parts := bk_parts st\<rparr>) = st"
    by (cases st) (simp add: bk_backgroundDelete_def)
  ultimately show ?thesis
    using r2_step_final [OF assms(6) t assms(3,4)] u assms(4,5)
    by (simp add: r2_uploadPart_def txn_putPart_def r2_completeMultipartUpload_def txn_completeMultipartUpload_def
        r2_abortMultipartUpload_def txn_abortMultipartUpload_def)
qed

theorem r2_upload_final_witness:
  "r2_abortMultipartUpload ''k'' ''1'' ex_bucket3 = (Inr (), ex_bucket3)"
proof -
  let ?u = "hd (bk_uploads ex_bucket3)"
  have u: "bk_uploads ex_bucket3 \<noteq> [] \<and> ur_state ?u = COMPLETED \<and> ur_key ?u = ''k'' \<and> ur_upload_id ?u = ''1'' \<and>
      v_key ''k'' = Inr ()"
    by code_simp
  have "?u \<in> set (bk_uploads ex_bucket3)" "ur_state ?u \<noteq> IN_PROGRESS" "v_key (ur_key ?u) = Inr ()"
    using u by simp_all
  from r2_upload_final [OF mem_file_service ex_bucket3_reachable this step_delete [of _ _ _ "[]"]] u show ?thesis
    by simp
qed

text \<open>
  A put whose checksum does not match has already written its value: the blob stays on disk
  although no row and no pending deletion refers to it.
\<close>

theorem r2_put_bad_digest_leaks:
  assumes "file_service ds files b" and "bucket_fresh st (dw_nonce dw)"
    and "r2_put digest (BlobStore_ops ds b) dw key v sz opts st = (Inl (BadDigest alg h c), st')"
  shows "blob_contents files b (bk_disk st') (generateBlobId (dw_nonce dw)) = Some v \<and>
    generateBlobId (dw_nonce dw) \<notin> set (refs (bk_objects st') (bk_parts st') @ bk_pending st')"
proof -
  note bs = blob_store_of_files [OF assms(1)]
  let ?n = "dw_nonce dw"
  obtain d where d: "b_put (BlobStore_ops ds b) (bk_disk st) ?n v = (Inr (generateBlobId ?n), d)"
    using blob_store.put_result [OF bs, of "bk_disk st" ?n v] by (metis prod.collapse)
  have "txn_put row c' objs parts \<noteq> Inl (BadDigest alg h c)" for row c' objs parts
    by (auto simp: txn_put_def Let_def andThen_eq_Inl v_condition_def split: option.splits prod.splits)
  then have "st' = st\<lparr>bk_disk := d\<rparr>"
    using assms(3) by (auto simp: r2_put_def Let_def d R2_HASH_ALGORITHMS_def split: sum.splits)
  then show ?thesis
    using blob_store.put_contents [OF bs, of "bk_disk st" ?n v] assms(2) by (simp add: d bucket_fresh_def owned_def)
qed

theorem r2_put_bad_digest_leaks_witness:
  "generateBlobId (ex_nonce 4) \<notin> set (bk_pending (snd (r2_put ex_digest ex_bs (ex_draw 4) ''k'' [1, 2] 2
     (ex_put\<lparr>po_hashes := (\<lambda>_. Some [9])\<rparr>) (bucket_init (\<lambda>_. None)))))"
proof -
  let ?r = "r2_put ex_digest ex_bs (ex_draw 4) ''k'' [1, 2] 2 (ex_put\<lparr>po_hashes := (\<lambda>_. Some [9])\<rparr>) (bucket_init (\<lambda>_. None))"
  have "case fst ?r of Inl (BadDigest alg h c) \<Rightarrow> True | _ \<Rightarrow> False" by code_simp
  then obtain alg h c where r: "?r = (Inl (BadDigest alg h c), snd ?r)"
    by (cases ?r) (auto split: sum.splits r2_error.splits)
  have "bucket_fresh (bucket_init (\<lambda>_. None)) (dw_nonce (ex_draw 4))"
    by (simp add: bucket_fresh_def bucket_init_def owned_def refs_def)
  from r2_put_bad_digest_leaks [OF mem_file_service this r] show ?thesis by (simp add: ex_draw_def)
qed

end
