(* ===== verification/Queues.thy ===== *)
theory Queues
  imports Encoding "HOL-Library.Multiset"
begin

text \<open>
  The Queues simulator: the durable object \<open>QueueBrokerObject\<close> of
  \<^verbatim>\<open>packages/miniflare/src/workers/queues/broker.worker.ts\<close> with its schemas
  (\<^verbatim>\<open>queues/schemas.ts\<close>), for the consumer of one queue.

  The broker is asynchronous: a request schedules timers that push messages, a push schedules a
  flush, and a flush awaits the consumer's reply and every log line. The model splits the
  asynchronous function \<open>#flush\<close> at its suspension points into \<open>flush_begin\<close> (up to the
  dispatch), \<open>flush_reply\<close> (the reply or exception arrives), \<open>flush_message\<close> (one turn of the
  loop over the batch) and \<open>flush_end\<close> (the rest), so that other timers and other flushes may run
  in between. The timers are those of the runtime (\<open>Timers\<close> with fake time disabled); a timer
  fires at or after the time it is due.

  Bodies are byte strings. The configuration's numbers are integers.
\<close>

subsection \<open>Limits and defaults\<close>

definition MAX_MESSAGE_SIZE_BYTES :: int where "MAX_MESSAGE_SIZE_BYTES = 128 * 1000"
definition MAX_MESSAGE_BATCH_COUNT :: int where "MAX_MESSAGE_BATCH_COUNT = 100"
definition MAX_MESSAGE_BATCH_SIZE :: int where "MAX_MESSAGE_BATCH_SIZE = (256 + 32) * 1000"
definition DEFAULT_BATCH_SIZE :: nat where "DEFAULT_BATCH_SIZE = 5"
definition DEFAULT_BATCH_TIMEOUT :: int where "DEFAULT_BATCH_TIMEOUT = 1"
definition DEFAULT_RETRIES :: nat where "DEFAULT_RETRIES = 2"

lemmas queue_limits = MAX_MESSAGE_SIZE_BYTES_def MAX_MESSAGE_BATCH_COUNT_def
  MAX_MESSAGE_BATCH_SIZE_def DEFAULT_BATCH_SIZE_def DEFAULT_BATCH_TIMEOUT_def DEFAULT_RETRIES_def

subsection \<open>Data\<close>

datatype queueContentType = CtText | CtJson | CtBytes | CtV8

datatype 'j queueBody =
    TextBody string
  | JsonBody 'j
  | BytesBody string
  | V8Body string

record 'j queueMessage =
  msg_id :: string
  msg_timestamp :: int
  msg_body :: "'j queueBody"
  failedAttempts :: nat

record queueIncomingMessage =
  in_contentType :: queueContentType
  in_delaySecs :: "int option"
  in_body :: string
  in_id :: "string option"
  in_timestamp :: "int option"

text \<open>A message as it travels in the JSON of a batch request: the input of the schema.\<close>

record queueOutgoingMessage =
  out_contentType :: "string option"
  out_delaySecs :: "int option"
  out_body :: string
  out_id :: "string option"
  out_timestamp :: "int option"

record queueProducer =
  deliveryDelay :: "int option"

record queueConsumer =
  workerName :: string
  maxBatchSize :: "nat option"
  maxBatchTimeout :: "int option"
  maxRetires :: "nat option"
  deadLetterQueue :: "string option"
  retryDelay :: "int option"

record queueResult =
  outcome :: string
  retryBatch_retry :: bool
  retryBatch_delaySeconds :: "int option"
  retryMessages :: "(string \<times> int option) list option"

definition exceptionQueueResponse :: queueResult where
  "exceptionQueueResponse =
     \<lparr>outcome = ''exception'', retryBatch_retry = False, retryBatch_delaySeconds = None,
      retryMessages = Some []\<rparr>"

subsection \<open>Schemas\<close>

definition QueueMessageDelaySchema :: "int option \<Rightarrow> bool" where
  "QueueMessageDelaySchema d = (case d of None \<Rightarrow> True | Some n \<Rightarrow> 0 \<le> n \<and> n \<le> 43200)"

definition QueueProducerSchema :: "queueProducer \<Rightarrow> bool" where
  "QueueProducerSchema p = QueueMessageDelaySchema (deliveryDelay p)"

definition QueueConsumerSchema :: "queueConsumer \<Rightarrow> bool" where
  "QueueConsumerSchema c \<longleftrightarrow>
     (case maxBatchSize c of None \<Rightarrow> True | Some n \<Rightarrow> n \<le> 100)
     \<and> (case maxBatchTimeout c of None \<Rightarrow> True | Some n \<Rightarrow> 0 \<le> n \<and> n \<le> 30)
     \<and> (case maxRetires c of None \<Rightarrow> True | Some n \<Rightarrow> n \<le> 100)
     \<and> QueueMessageDelaySchema (retryDelay c)"

definition QueueContentTypeSchema :: "string option \<Rightarrow> queueContentType option" where
  "QueueContentTypeSchema s =
     (case s of
        None \<Rightarrow> Some CtV8
      | Some t \<Rightarrow>
          if t = ''text'' then Some CtText
          else if t = ''json'' then Some CtJson
          else if t = ''bytes'' then Some CtBytes
          else if t = ''v8'' then Some CtV8
          else None)"

text \<open>The characters of \<open>BASE64_REGEXP\<close>.\<close>

definition base64_regexp_char :: "char \<Rightarrow> bool" where
  "base64_regexp_char c \<longleftrightarrow>
     is_digit c \<or> is_lower c \<or> is_upper c \<or> c = CHR ''+'' \<or> c = CHR ''/'' \<or> c = CHR ''=''"

definition Base64DataSchema :: "string \<Rightarrow> string option" where
  "Base64DataSchema s = (if list_all base64_regexp_char s then Some (base64Decode s) else None)"

definition QueueIncomingMessageSchema :: "queueOutgoingMessage \<Rightarrow> queueIncomingMessage res" where
  "QueueIncomingMessageSchema m =
     (case (QueueContentTypeSchema (out_contentType m), Base64DataSchema (out_body m)) of
        (Some ct, Some b) \<Rightarrow>
          if QueueMessageDelaySchema (out_delaySecs m)
          then Inr \<lparr>in_contentType = ct, in_delaySecs = out_delaySecs m, in_body = b,
                    in_id = out_id m, in_timestamp = out_timestamp m\<rparr>
          else Inl ZodError
      | _ \<Rightarrow> Inl ZodError)"

fun QueuesBatchRequestSchema :: "queueOutgoingMessage list \<Rightarrow> queueIncomingMessage list res" where
  "QueuesBatchRequestSchema [] = Inr []"
| "QueuesBatchRequestSchema (m # ms) =
     andThen (QueueIncomingMessageSchema m) (\<lambda>i.
       andThen (QueuesBatchRequestSchema ms) (\<lambda>is. Inr (i # is)))"

subsection \<open>Validation of the request headers\<close>

text \<open>
  \<open>Number(s)\<close> when it is an integer; \<^const>\<open>None\<close> when it is \<open>NaN\<close>, infinite or has a fraction.
  Literals are read exactly, without rounding to a double.
\<close>

definition radix_val :: "nat \<Rightarrow> string \<Rightarrow> nat option" where
  "radix_val b ds =
     (if ds \<noteq> [] \<and> list_all (\<lambda>c. case hex_val c of None \<Rightarrow> False | Some v \<Rightarrow> v < b) ds
      then Some (foldl (\<lambda>a c. b * a + the (hex_val c)) 0 ds) else None)"

definition exponent_val :: "string \<Rightarrow> int option" where
  "exponent_val s =
     (case s of
        [] \<Rightarrow> Some 0
      | e # r \<Rightarrow>
          if e \<noteq> CHR ''e'' \<and> e \<noteq> CHR ''E'' then None
          else (case r of
                  [] \<Rightarrow> None
                | c # ds \<Rightarrow>
                    if c = CHR ''-'' then map_option (\<lambda>n. - int n) (radix_val 10 ds)
                    else if c = CHR ''+'' then map_option int (radix_val 10 ds)
                    else map_option int (radix_val 10 r)))"

definition scaled :: "nat \<Rightarrow> int \<Rightarrow> nat option" where
  "scaled m e =
     (if 0 \<le> e then Some (m * 10 ^ nat e)
      else if m mod 10 ^ nat (- e) = 0 then Some (m div 10 ^ nat (- e)) else None)"

definition decimal_val :: "string \<Rightarrow> nat option" where
  "decimal_val s =
     (let i = takeWhile is_digit s; r = dropWhile is_digit s;
          f = (if take 1 r = ''.'' then takeWhile is_digit (drop 1 r) else []);
          x = (if take 1 r = ''.'' then dropWhile is_digit (drop 1 r) else r)
      in if i = [] \<and> f = [] then None
         else Option.bind (exponent_val x) (\<lambda>e. scaled (digits_val (i @ f)) (e - int (length f))))"

definition js_Number :: "string \<Rightarrow> int option" where
  "js_Number str =
     (let s = trim str; p = map lower_char (take 2 s) in
      if s = [] then Some 0
      else if p = ''0x'' then map_option int (radix_val 16 (drop 2 s))
      else if p = ''0o'' then map_option int (radix_val 8 (drop 2 s))
      else if p = ''0b'' then map_option int (radix_val 2 (drop 2 s))
      else if take 1 s = ''-'' then map_option (\<lambda>n. - int n) (decimal_val (drop 1 s))
      else if take 1 s = ''+'' then map_option int (decimal_val (drop 1 s))
      else map_option int (decimal_val s))"

definition PayloadTooLargeError :: "string \<Rightarrow> error" where
  "PayloadTooLargeError m = HttpError 413 m"

text \<open>A header whose \<open>parseInt\<close> exceeds a limit; an absent header or \<open>NaN\<close> does not.\<close>

definition exceeds :: "string option \<Rightarrow> int \<Rightarrow> bool" where
  "exceeds h limit = (case parseInt_opt h of None \<Rightarrow> False | Some n \<Rightarrow> limit < n)"

definition validateMessageSize :: "headers \<Rightarrow> unit res" where
  "validateMessageSize hs =
     (let sz = map_of hs ''Content-Length'' in
      check (\<not> exceeds sz MAX_MESSAGE_SIZE_BYTES)
        (PayloadTooLargeError (''message length of '' @ the sz @ '' bytes exceeds limit of ''
           @ show_int MAX_MESSAGE_SIZE_BYTES)))"

definition validateContentType :: "headers \<Rightarrow> queueContentType res" where
  "validateContentType hs =
     (let format = map_of hs ''X-Msg-Fmt'' in
      case QueueContentTypeSchema format of
        None \<Rightarrow> Inl (HttpError 400 (''message content type '' @ the format
                  @ '' is invalid; if specified, must be one of ''
                  @ [CHR 0x27] @ ''text'' @ [CHR 0x27] @ '', ''
                  @ [CHR 0x27] @ ''json'' @ [CHR 0x27] @ '', ''
                  @ [CHR 0x27] @ ''bytes'' @ [CHR 0x27] @ '', or ''
                  @ [CHR 0x27] @ ''v8'' @ [CHR 0x27]))
      | Some ct \<Rightarrow> Inr ct)"

text \<open>The text of the zod error, which the message quotes, is a parameter.\<close>

definition validateMessageDelay :: "(string \<Rightarrow> string) \<Rightarrow> headers \<Rightarrow> int option res" where
  "validateMessageDelay zodText hs =
     (case map_of hs ''X-Msg-Delay-Secs'' of
        None \<Rightarrow> Inr None
      | Some format \<Rightarrow>
          if format = [] then Inr None
          else (case js_Number format of
                  None \<Rightarrow> Inl (HttpError 400 (''message delay '' @ format @ '' is invalid: ''
                            @ zodText format))
                | Some n \<Rightarrow>
                    if QueueMessageDelaySchema (Some n) then Inr (Some n)
                    else Inl (HttpError 400 (''message delay '' @ format @ '' is invalid: ''
                           @ zodText format))))"

definition validateBatchSize :: "headers \<Rightarrow> unit res" where
  "validateBatchSize hs =
     (let count = map_of hs ''CF-Queue-Batch-Count'';
          largestSize = map_of hs ''CF-Queue-Largest-Msg'';
          batchSize = map_of hs ''CF-Queue-Batch-Bytes''
      in
      andThen (check (\<not> exceeds count MAX_MESSAGE_BATCH_COUNT)
        (PayloadTooLargeError (''batch message count of '' @ the count @ '' exceeds limit of ''
           @ show_int MAX_MESSAGE_BATCH_COUNT))) (\<lambda>_.
      andThen (check (\<not> exceeds largestSize MAX_MESSAGE_SIZE_BYTES)
        (PayloadTooLargeError (''message in batch has length '' @ the largestSize
           @ '' bytes which exceeds single message size limit of ''
           @ show_int MAX_MESSAGE_SIZE_BYTES))) (\<lambda>_.
      check (\<not> exceeds batchSize MAX_MESSAGE_BATCH_SIZE)
        (PayloadTooLargeError (''batch size of '' @ the batchSize
           @ '' bytes exceeds limit of 256000'')))))"

subsection \<open>Message bodies\<close>

definition deserialise :: "'j json_codec \<Rightarrow> queueIncomingMessage \<Rightarrow> 'j queueBody res" where
  "deserialise J m =
     (case in_contentType m of
        CtText \<Rightarrow> Inr (TextBody (bufferToString (in_body m)))
      | CtJson \<Rightarrow>
          (case json_parse J (bufferToString (in_body m)) of
             None \<Rightarrow> Inl SyntaxError
           | Some v \<Rightarrow> Inr (JsonBody v))
      | CtBytes \<Rightarrow> Inr (BytesBody (in_body m))
      | CtV8 \<Rightarrow> Inr (V8Body (in_body m)))"

definition serialise :: "'j json_codec \<Rightarrow> 'j queueMessage \<Rightarrow> queueOutgoingMessage" where
  "serialise J msg =
     (let cb = (case msg_body msg of
                  TextBody s \<Rightarrow> (''text'', s)
                | JsonBody v \<Rightarrow> (''json'', json_stringify J v)
                | BytesBody b \<Rightarrow> (''bytes'', b)
                | V8Body b \<Rightarrow> (''v8'', b))
      in \<lparr>out_contentType = Some (fst cb), out_delaySecs = None,
          out_body = base64Encode (snd cb), out_id = Some (msg_id msg),
          out_timestamp = Some (msg_timestamp msg)\<rparr>)"

text \<open>\<open>QueueMessage\<close>: the constructor and \<open>incrementFailedAttempts\<close>.\<close>

definition QueueMessage :: "string \<Rightarrow> int \<Rightarrow> 'j queueBody \<Rightarrow> 'j queueMessage" where
  "QueueMessage i t b = \<lparr>msg_id = i, msg_timestamp = t, msg_body = b, failedAttempts = 0\<rparr>"

definition incrementFailedAttempts :: "'j queueMessage \<Rightarrow> 'j queueMessage" where
  "incrementFailedAttempts m = m\<lparr>failedAttempts := failedAttempts m + 1\<rparr>"

subsection \<open>The broker\<close>

record queueEnv =
  producers :: "string \<rightharpoonup> queueProducer"
  consumers :: "string \<rightharpoonup> queueConsumer"
  serviceBindings :: "string list"
  queueName :: string

definition maybeProducer :: "queueEnv \<Rightarrow> queueProducer option" where
  "maybeProducer env = producers env (queueName env)"

definition maybeConsumer :: "queueEnv \<Rightarrow> queueConsumer option" where
  "maybeConsumer env = consumers env (queueName env)"

text \<open>
  The constructor: an absent binding is the empty record, a present one has to match its schema.
\<close>

definition brokerEnv ::
    "string \<Rightarrow> string list \<Rightarrow> (string \<times> queueProducer) list option
      \<Rightarrow> (string \<times> queueConsumer) list option \<Rightarrow> queueEnv res" where
  "brokerEnv nm services maybeProducers maybeConsumers =
     (let ps = (case maybeProducers of None \<Rightarrow> [] | Some l \<Rightarrow> l);
          cs = (case maybeConsumers of None \<Rightarrow> [] | Some l \<Rightarrow> l)
      in
      andThen (check (list_all (QueueProducerSchema \<circ> snd) ps) ZodError) (\<lambda>_.
      andThen (check (list_all (QueueConsumerSchema \<circ> snd) cs) ZodError) (\<lambda>_.
      Inr \<lparr>producers = map_of ps, consumers = map_of cs, serviceBindings = services,
           queueName = nm\<rparr>)))"

definition batchSizeOf :: "queueConsumer \<Rightarrow> nat" where
  "batchSizeOf c = (case maxBatchSize c of None \<Rightarrow> DEFAULT_BATCH_SIZE | Some n \<Rightarrow> n)"

definition batchTimeoutOf :: "queueConsumer \<Rightarrow> int" where
  "batchTimeoutOf c = (case maxBatchTimeout c of None \<Rightarrow> DEFAULT_BATCH_TIMEOUT | Some n \<Rightarrow> n)"

definition maxAttemptsOf :: "queueConsumer \<Rightarrow> nat" where
  "maxAttemptsOf c = (case maxRetires c of None \<Rightarrow> DEFAULT_RETRIES | Some n \<Rightarrow> n) + 1"

text \<open>
  The closures handed to \<open>setTimeout\<close>: pushing a message and flushing. A running flush keeps what
  its activation record holds: the timer that started it, the number of messages of the batch,
  the messages the loop has not reached, the reply once it arrived, the messages bound for the
  dead letter queue and the number of failed ones.
\<close>

datatype 'j task = PushTask "'j queueMessage" | FlushTask

record pendingFlush =
  immediate :: bool
  timeout :: nat

record 'j flush =
  fl_timer :: nat
  fl_batchLength :: nat
  fl_todo :: "'j queueMessage list"
  fl_response :: "queueResult option"
  fl_failedMessages :: nat
  fl_toDeadLetterQueue :: "'j queueMessage list"

record 'j broker =
  messages :: "'j queueMessage list"
  pending :: "pendingFlush option"
  timeouts :: "(nat \<times> int \<times> 'j task) list"
  nextHandle :: nat
  clock :: int
  flushes :: "'j flush list"

definition broker_init :: "int \<Rightarrow> 'j broker" where
  "broker_init t =
     \<lparr>messages = [], pending = None, timeouts = [], nextHandle = 0, clock = t, flushes = []\<rparr>"

definition setTimeout :: "'j task \<Rightarrow> int \<Rightarrow> 'j broker \<Rightarrow> nat \<times> 'j broker" where
  "setTimeout k delay st =
     (nextHandle st,
      st\<lparr>timeouts := timeouts st @ [(nextHandle st, clock st + max 0 delay, k)],
         nextHandle := nextHandle st + 1\<rparr>)"

definition clearTimeout :: "nat \<Rightarrow> 'j broker \<Rightarrow> 'j broker" where
  "clearTimeout h st = st\<lparr>timeouts := filter (\<lambda>(h', _). h' \<noteq> h) (timeouts st)\<rparr>"

definition registerFlush :: "queueConsumer \<Rightarrow> 'j broker \<Rightarrow> 'j broker" where
  "registerFlush c st =
     (let batchHasSpace = length (messages st) < batchSizeOf c;
          delay = (if batchHasSpace then batchTimeoutOf c * 1000 else 0);
          r = setTimeout FlushTask delay st
      in (snd r)\<lparr>pending := Some \<lparr>immediate = (delay = 0), timeout = fst r\<rparr>\<rparr>)"

definition ensurePendingFlush :: "queueConsumer \<Rightarrow> 'j broker \<Rightarrow> 'j broker" where
  "ensurePendingFlush c st =
     (let batchHasSpace = length (messages st) < batchSizeOf c in
      case pending st of
        Some p \<Rightarrow>
          if immediate p \<or> batchHasSpace then st
          else registerFlush c ((clearTimeout (timeout p) st)\<lparr>pending := None\<rparr>)
      | None \<Rightarrow> registerFlush c st)"

definition pushMessage :: "queueConsumer \<Rightarrow> 'j queueMessage \<Rightarrow> 'j broker \<Rightarrow> 'j broker" where
  "pushMessage c m st = ensurePendingFlush c (st\<lparr>messages := messages st @ [m]\<rparr>)"

subsection \<open>Flushing\<close>

record 'j dispatchedMessage =
  d_id :: string
  d_timestamp :: int
  d_body :: "'j queueBody"
  d_attempts :: nat

definition SERVICE_WORKER_PREFIX :: string where
  "SERVICE_WORKER_PREFIX = ''MINIFLARE_WORKER_''"

definition dispatchBatch ::
    "queueEnv \<Rightarrow> string \<Rightarrow> 'j queueMessage list \<Rightarrow> 'j dispatchedMessage list res" where
  "dispatchBatch env worker batch =
     andThen (check (SERVICE_WORKER_PREFIX @ worker \<in> set (serviceBindings env)) AssertionError)
       (\<lambda>_. Inr (map (\<lambda>m. \<lparr>d_id = msg_id m, d_timestamp = msg_timestamp m, d_body = msg_body m,
                          d_attempts = failedAttempts m + 1\<rparr>) batch))"

text \<open>What an observer of the broker sees.\<close>

datatype 'j queue_event =
    Accepted "'j queueMessage list"
  | Rejected error "'j queueMessage list"
  | Dispatched "'j queueMessage list" "'j dispatchedMessage list res"
  | Acked "'j queueMessage"
  | Retried "'j queueMessage"
  | Dropped "'j queueMessage"
  | DeadLettered string "'j queueMessage list" "queueOutgoingMessage list"
  | Internal

text \<open>The flush timer \<open>h\<close> fires: extract a batch and dispatch it. A failed assertion is caught.\<close>

definition flush_begin ::
    "queueEnv \<Rightarrow> queueConsumer \<Rightarrow> nat \<Rightarrow> 'j broker \<Rightarrow> 'j queue_event \<times> 'j broker" where
  "flush_begin env c h st =
     (let batch = take (batchSizeOf c) (messages st);
          d = dispatchBatch env (workerName c) batch;
          f = \<lparr>fl_timer = h, fl_batchLength = length batch, fl_todo = batch,
               fl_response = (case d of Inl _ \<Rightarrow> Some exceptionQueueResponse | Inr _ \<Rightarrow> None),
               fl_failedMessages = 0, fl_toDeadLetterQueue = []\<rparr>
      in (Dispatched batch d,
          st\<lparr>messages := drop (batchSizeOf c) (messages st), flushes := flushes st @ [f]\<rparr>))"

text \<open>The reply of the consumer arrives, \<^const>\<open>None\<close> when the dispatch threw.\<close>

definition flush_reply :: "nat \<Rightarrow> queueResult option \<Rightarrow> 'j broker \<Rightarrow> 'j broker" where
  "flush_reply i reply st =
     st\<lparr>flushes := (flushes st)[i := (flushes st ! i)
         \<lparr>fl_response := Some (case reply of None \<Rightarrow> exceptionQueueResponse | Some r \<Rightarrow> r)\<rparr>]\<rparr>"

definition retryAll :: "queueResult \<Rightarrow> bool" where
  "retryAll r \<longleftrightarrow> retryBatch_retry r \<or> outcome r \<noteq> ''ok''"

definition retryMap :: "queueResult \<Rightarrow> string \<rightharpoonup> int option" where
  "retryMap r = map_of (rev (case retryMessages r of None \<Rightarrow> [] | Some l \<Rightarrow> l))"

definition globalRetryDelay :: "queueConsumer \<Rightarrow> queueResult \<Rightarrow> int" where
  "globalRetryDelay c r =
     (case retryBatch_delaySeconds r of
        Some d \<Rightarrow> d
      | None \<Rightarrow> (case retryDelay c of Some d \<Rightarrow> d | None \<Rightarrow> 0))"

definition retryDelayOf :: "queueConsumer \<Rightarrow> queueResult \<Rightarrow> string \<Rightarrow> int" where
  "retryDelayOf c r i =
     (case retryMap r i of Some (Some d) \<Rightarrow> d | _ \<Rightarrow> globalRetryDelay c r)"

text \<open>One turn of the loop over the batch, for the flush at position \<open>i\<close> of the running ones.\<close>

definition flush_message ::
    "queueConsumer \<Rightarrow> nat \<Rightarrow> 'j broker \<Rightarrow> 'j queue_event \<times> 'j broker" where
  "flush_message c i st =
     (let f = flushes st ! i; r = the (fl_response f); m = hd (fl_todo f);
          g = f\<lparr>fl_todo := tl (fl_todo f)\<rparr>;
          gf = g\<lparr>fl_failedMessages := fl_failedMessages f + 1\<rparr>;
          m' = incrementFailedAttempts m
      in if retryAll r \<or> retryMap r (msg_id m) \<noteq> None then
           (if failedAttempts m' < maxAttemptsOf c then
              (Retried m',
               snd (setTimeout (PushTask m') (retryDelayOf c r (msg_id m) * 1000)
                 (st\<lparr>flushes := (flushes st)[i := gf]\<rparr>)))
            else if deadLetterQueue c \<noteq> None then
              (Internal,
               st\<lparr>flushes := (flushes st)
                   [i := gf\<lparr>fl_toDeadLetterQueue := fl_toDeadLetterQueue f @ [m']\<rparr>]\<rparr>)
            else (Dropped m', st\<lparr>flushes := (flushes st)[i := gf]\<rparr>))
         else (Acked m, st\<lparr>flushes := (flushes st)[i := g]\<rparr>))"

definition flush_end ::
    "'j json_codec \<Rightarrow> queueConsumer \<Rightarrow> nat \<Rightarrow> 'j broker \<Rightarrow> 'j queue_event \<times> 'j broker" where
  "flush_end J c i st =
     (let f = flushes st ! i;
          st1 = st\<lparr>flushes := take i (flushes st) @ drop (Suc i) (flushes st), pending := None\<rparr>;
          st2 = (if messages st1 \<noteq> [] then ensurePendingFlush c st1 else st1)
      in (if fl_toDeadLetterQueue f = [] then Internal
          else DeadLettered (the (deadLetterQueue c)) (fl_toDeadLetterQueue f)
                 (map (serialise J) (fl_toDeadLetterQueue f)), st2))"

subsection \<open>Requests\<close>

text \<open>
  \<open>#enqueue\<close>: the messages before one whose body does not parse have been scheduled already.
  \<open>rnd n\<close> is the randomness drawn for the \<open>n\<close>-th message.
\<close>

definition incomingMessage ::
    "'j json_codec \<Rightarrow> bytes \<Rightarrow> int \<Rightarrow> queueIncomingMessage \<Rightarrow> 'j queueMessage res" where
  "incomingMessage J randomness now m =
     (let i = (case in_id m of Some i \<Rightarrow> i | None \<Rightarrow> bytes_hex randomness);
          t = (case in_timestamp m of Some t \<Rightarrow> t | None \<Rightarrow> now)
      in andThen (deserialise J m) (\<lambda>b. Inr (QueueMessage i t b)))"

fun enqueue ::
    "'j json_codec \<Rightarrow> (nat \<Rightarrow> bytes) \<Rightarrow> int \<Rightarrow> nat \<Rightarrow> queueIncomingMessage list \<Rightarrow> 'j broker
      \<Rightarrow> 'j queue_event \<times> 'j broker" where
  "enqueue J rnd globalDelay n [] st = (Accepted [], st)"
| "enqueue J rnd globalDelay n (m # ms) st =
     (case incomingMessage J (rnd n) (clock st) m of
        Inl e \<Rightarrow> (Rejected e [], st)
      | Inr msg \<Rightarrow>
          let delay = (case in_delaySecs m of Some d \<Rightarrow> d | None \<Rightarrow> globalDelay);
              rest = enqueue J rnd globalDelay (Suc n) ms
                       (snd (setTimeout (PushTask msg) (delay * 1000) st))
          in (case fst rest of
                Accepted acc \<Rightarrow> Accepted (msg # acc)
              | Rejected e acc \<Rightarrow> Rejected e (msg # acc)
              | ev \<Rightarrow> ev, snd rest))"

definition default0 :: "int option \<Rightarrow> int" where
  "default0 d = (case d of None \<Rightarrow> 0 | Some n \<Rightarrow> n)"

definition broker_message ::
    "queueEnv \<Rightarrow> 'j json_codec \<Rightarrow> (string \<Rightarrow> string) \<Rightarrow> (nat \<Rightarrow> bytes) \<Rightarrow> headers \<Rightarrow> string
      \<Rightarrow> 'j broker \<Rightarrow> 'j queue_event \<times> 'j broker" where
  "broker_message env J zodText rnd hs reqBody st =
     (case andThen (validateMessageSize hs) (\<lambda>_.
           andThen (validateContentType hs) (\<lambda>ct.
           andThen (validateMessageDelay zodText hs) (\<lambda>d. Inr (ct, d)))) of
        Inl e \<Rightarrow> (Rejected e [], st)
      | Inr (ct, d) \<Rightarrow>
          (case maybeConsumer env of
             None \<Rightarrow> (Accepted [], st)
           | Some _ \<Rightarrow>
               enqueue J rnd (default0 (Option.bind (maybeProducer env) deliveryDelay)) 0
                 [\<lparr>in_contentType = ct, in_delaySecs = d, in_body = reqBody, in_id = None,
                   in_timestamp = None\<rparr>] st))"

definition broker_batch ::
    "queueEnv \<Rightarrow> 'j json_codec \<Rightarrow> (string \<Rightarrow> string) \<Rightarrow> (nat \<Rightarrow> bytes) \<Rightarrow> headers
      \<Rightarrow> queueOutgoingMessage list \<Rightarrow> 'j broker \<Rightarrow> 'j queue_event \<times> 'j broker" where
  "broker_batch env J zodText rnd hs reqBody st =
     (case andThen (validateBatchSize hs) (\<lambda>_.
           andThen (validateMessageDelay zodText hs) (\<lambda>d.
           andThen (QueuesBatchRequestSchema reqBody) (\<lambda>ms.
             Inr (case d of Some n \<Rightarrow> Some n | None \<Rightarrow> Option.bind (maybeProducer env) deliveryDelay,
                  ms)))) of
        Inl e \<Rightarrow> (Rejected e [], st)
      | Inr (d, ms) \<Rightarrow>
          (case maybeConsumer env of
             None \<Rightarrow> (Accepted [], st)
           | Some _ \<Rightarrow> enqueue J rnd (default0 d) 0 ms st))"

end
