(* ===== verification/QueueProperties.thy ===== *)
theory QueueProperties
  imports Queues
begin

text \<open>
  The runs of a queue broker and what they keep. A step is a request, the passing of time, a timer
  that is due or a resumption of a running flush; requests and replies are arbitrary. The locale
  \<open>message_weights\<close> weighs every message by the place where the broker keeps it; its lemmas say
  how each operation changes the total, and its two instances give the conservation of messages
  and the bound on deliveries.
\<close>

subsection \<open>Steps\<close>

definition removeTimer :: "nat \<Rightarrow> 'j broker \<Rightarrow> 'j broker" where
  "removeTimer i st = st\<lparr>timeouts := take i (timeouts st) @ drop (Suc i) (timeouts st)\<rparr>"

inductive queue_step ::
    "queueEnv \<Rightarrow> queueConsumer \<Rightarrow> 'j json_codec \<Rightarrow> 'j broker \<Rightarrow> 'j queue_event \<Rightarrow> 'j broker \<Rightarrow> bool"
  for env :: queueEnv and c :: queueConsumer and J :: "'j json_codec" where
  message_request:
    "broker_message env J zodText rnd hs b st = (ev, st') \<Longrightarrow> queue_step env c J st ev st'"
| batch_request:
    "broker_batch env J zodText rnd hs ms st = (ev, st') \<Longrightarrow> queue_step env c J st ev st'"
| time_passes:
    "clock st \<le> t \<Longrightarrow> queue_step env c J st Internal (st\<lparr>clock := t\<rparr>)"
| push_fires:
    "i < length (timeouts st) \<Longrightarrow> timeouts st ! i = (h, due, PushTask m) \<Longrightarrow> due \<le> clock st
      \<Longrightarrow> queue_step env c J st Internal (pushMessage c m (removeTimer i st))"
| flush_fires:
    "i < length (timeouts st) \<Longrightarrow> timeouts st ! i = (h, due, FlushTask) \<Longrightarrow> due \<le> clock st
      \<Longrightarrow> flush_begin env c h (removeTimer i st) = (ev, st') \<Longrightarrow> queue_step env c J st ev st'"
| reply_arrives:
    "i < length (flushes st) \<Longrightarrow> fl_response (flushes st ! i) = None
      \<Longrightarrow> queue_step env c J st Internal (flush_reply i reply st)"
| message_settled:
    "i < length (flushes st) \<Longrightarrow> fl_response (flushes st ! i) \<noteq> None
      \<Longrightarrow> fl_todo (flushes st ! i) \<noteq> [] \<Longrightarrow> flush_message c i st = (ev, st')
      \<Longrightarrow> queue_step env c J st ev st'"
| flush_finishes:
    "i < length (flushes st) \<Longrightarrow> fl_response (flushes st ! i) \<noteq> None
      \<Longrightarrow> fl_todo (flushes st ! i) = [] \<Longrightarrow> flush_end J c i st = (ev, st')
      \<Longrightarrow> queue_step env c J st ev st'"

inductive queue_run ::
    "queueEnv \<Rightarrow> queueConsumer \<Rightarrow> 'j json_codec \<Rightarrow> 'j broker \<Rightarrow> 'j queue_event list \<Rightarrow> 'j broker \<Rightarrow> bool"
  for env :: queueEnv and c :: queueConsumer and J :: "'j json_codec" where
  run_start: "queue_run env c J (broker_init t) [] (broker_init t)"
| run_step:
    "queue_run env c J s0 evs st \<Longrightarrow> queue_step env c J st ev st'
      \<Longrightarrow> queue_run env c J s0 (evs @ [ev]) st'"

subsection \<open>Timers and the pending flush\<close>

definition timers_ok :: "'j broker \<Rightarrow> bool" where
  "timers_ok st \<longleftrightarrow>
     distinct (map fst (timeouts st)) \<and> (\<forall>x \<in> set (timeouts st). fst x < nextHandle st)
     \<and> (\<forall>p. pending st = Some p \<longrightarrow> timeout p < nextHandle st
          \<and> (\<forall>d k. (timeout p, d, k) \<in> set (timeouts st) \<longrightarrow> k = FlushTask))"

text \<open>
  The pending flush is a timer that is due in time, at once when it is immediate, or its flush is
  running; while there are messages there is a pending flush, an immediate one once they fill a
  batch.
\<close>

definition flush_scheduled :: "queueConsumer \<Rightarrow> 'j broker \<Rightarrow> bool" where
  "flush_scheduled c st \<longleftrightarrow>
     (\<forall>p. pending st = Some p \<longrightarrow>
        (\<exists>d. (timeout p, d, FlushTask) \<in> set (timeouts st)
           \<and> d \<le> clock st + (if immediate p then 0 else max 0 (batchTimeoutOf c * 1000)))
        \<or> timeout p \<in> fl_timer ` set (flushes st))
     \<and> (messages st \<noteq> [] \<longrightarrow> pending st \<noteq> None)
     \<and> (messages st \<noteq> [] \<and> batchSizeOf c \<le> length (messages st)
          \<longrightarrow> (\<exists>p. pending st = Some p \<and> immediate p))"

lemmas timer_defs = setTimeout_def clearTimeout_def registerFlush_def ensurePendingFlush_def
  pushMessage_def removeTimer_def Let_def

lemma set_remove_nth: "set (take i xs @ drop (Suc i) xs) \<subseteq> set xs"
  by (auto dest: in_set_takeD in_set_dropD)

lemma removed_nth:
  assumes "i < length xs" and "x \<in> set xs" and "x \<noteq> xs ! i"
  shows "x \<in> set (take i xs @ drop (Suc i) xs)"
  using assms id_take_nth_drop [of i xs] by (metis Un_iff insert_iff list.simps(15) set_append)

lemma distinct_map_remove_nth:
  "distinct (map f xs) \<Longrightarrow> distinct (map f (take i xs @ drop (Suc i) xs))"
proof (induction xs arbitrary: i)
  case (Cons x xs)
  then show ?case
    by (cases i) (auto dest: in_set_takeD in_set_dropD)
qed simp

lemma timers_ok_setTimeout:
  assumes "timers_ok st"
  shows "timers_ok (snd (setTimeout k d st))"
  using assms unfolding timers_ok_def setTimeout_def
  by (auto simp: image_iff dest: less_SucI)

lemma timers_ok_registerFlush:
  assumes "timers_ok st"
  shows "timers_ok (registerFlush c st)"
  using assms unfolding timers_ok_def registerFlush_def setTimeout_def Let_def
  by (auto simp: image_iff dest: less_SucI)

lemma timers_ok_clear:
  assumes "timers_ok st"
  shows "timers_ok ((clearTimeout h st)\<lparr>pending := None\<rparr>)"
  using assms unfolding timers_ok_def clearTimeout_def
  by (auto simp: distinct_map_filter)

lemma timers_ok_messages [simp]: "timers_ok (st\<lparr>messages := ms\<rparr>) = timers_ok st"
  by (simp add: timers_ok_def)

lemma timers_ok_flushes [simp]: "timers_ok (st\<lparr>flushes := fs\<rparr>) = timers_ok st"
  by (simp add: timers_ok_def)

lemma timers_ok_clock [simp]: "timers_ok (st\<lparr>clock := t\<rparr>) = timers_ok st"
  by (simp add: timers_ok_def)

lemma timers_ok_unpend: "timers_ok st \<Longrightarrow> timers_ok (st\<lparr>pending := None\<rparr>)"
  by (simp add: timers_ok_def)

lemma timers_ok_ensure:
  assumes "timers_ok st"
  shows "timers_ok (ensurePendingFlush c st)"
  using assms timers_ok_registerFlush timers_ok_clear
  by (auto simp: ensurePendingFlush_def Let_def split: option.split)

lemma timers_ok_remove:
  assumes "timers_ok st"
  shows "timers_ok (removeTimer i st)"
  using assms set_remove_nth [of i "timeouts st"] distinct_map_remove_nth [of fst "timeouts st" i]
  unfolding timers_ok_def removeTimer_def by (auto simp del: set_append)

text \<open>What \<^const>\<open>enqueue\<close> does, as one timer after the other.\<close>

lemma enqueue_invariant:
  assumes "P st" and "\<And>s k d. P s \<Longrightarrow> P (snd (setTimeout (PushTask k) d s))"
  shows "P (snd (enqueue J rnd g n ms st))"
  using assms
  by (induction ms arbitrary: n st) (auto split: sum.split option.split simp: Let_def)

lemma requests_invariant:
  assumes "P st" and "\<And>s k d. P s \<Longrightarrow> P (snd (setTimeout (PushTask k) d s))"
  shows "P (snd (broker_message env J zt rnd hs b st))"
    and "P (snd (broker_batch env J zt rnd hs ms st))"
  using enqueue_invariant [of P, OF assms] assms(1)
  by (auto simp: broker_message_def broker_batch_def split: sum.split option.split
      simp del: enqueue.simps)

lemma timers_ok_flush_message:
  assumes "timers_ok st"
  shows "timers_ok (snd (flush_message c i st))"
  using assms by (simp add: flush_message_def Let_def timers_ok_setTimeout)

lemma timers_ok_flush_end:
  assumes "timers_ok st"
  shows "timers_ok (snd (flush_end J c i st))"
proof -
  have "timers_ok (st\<lparr>flushes := take i (flushes st) @ drop (Suc i) (flushes st), pending := None\<rparr>)"
    using timers_ok_unpend [of "st\<lparr>flushes := take i (flushes st) @ drop (Suc i) (flushes st)\<rparr>"]
      assms by simp
  then show ?thesis by (simp add: flush_end_def Let_def timers_ok_ensure)
qed

lemma timers_ok_step:
  assumes "queue_step env c J st ev st'" and "timers_ok st"
  shows "timers_ok st'"
  using assms
proof cases
  case (message_request zodText rnd hs b)
  then show ?thesis
    using requests_invariant(1) [of timers_ok, OF assms(2) timers_ok_setTimeout] by (metis snd_conv)
next
  case (batch_request zodText rnd hs ms)
  then show ?thesis
    using requests_invariant(2) [of timers_ok, OF assms(2) timers_ok_setTimeout] by (metis snd_conv)
next
  case (push_fires i h due m)
  then show ?thesis
    using assms(2) by (simp add: pushMessage_def timers_ok_ensure timers_ok_remove)
next
  case (flush_fires i h due)
  then show ?thesis
    using assms(2) timers_ok_remove [of st i]
    by (auto simp: flush_begin_def Let_def)
next
  case (message_settled i)
  then show ?thesis
    using timers_ok_flush_message [OF assms(2), of c i] by simp
next
  case (flush_finishes i)
  then show ?thesis
    using timers_ok_flush_end [OF assms(2), of J c i] by simp
qed (use assms(2) in \<open>simp_all add: flush_reply_def\<close>)

subsection \<open>Weighing the messages\<close>

fun task_messages :: "'j task \<Rightarrow> 'j queueMessage list" where
  "task_messages (PushTask m) = [m]"
| "task_messages FlushTask = []"

definition waiting :: "'j broker \<Rightarrow> 'j queueMessage list" where
  "waiting st = messages st @ concat (map (task_messages \<circ> snd \<circ> snd) (timeouts st))"

definition dispatched :: "'j broker \<Rightarrow> 'j queueMessage list" where
  "dispatched st = concat (map fl_todo (flushes st))"

definition condemned :: "'j broker \<Rightarrow> 'j queueMessage list" where
  "condemned st = concat (map fl_toDeadLetterQueue (flushes st))"

lemma concat_map_remove_nth:
  fixes w :: "'a \<Rightarrow> 'b :: comm_monoid_add"
  assumes "i < length xs"
  shows "sum_list (map w (concat (map f xs)))
    = sum_list (map w (f (xs ! i))) + sum_list (map w (concat (map f (take i xs @ drop (Suc i) xs))))"
  by (subst id_take_nth_drop [OF assms]) (simp add: ac_simps)

lemma concat_map_update:
  fixes w :: "'a \<Rightarrow> 'b :: comm_monoid_add"
  assumes "i < length xs"
  shows "sum_list (map w (concat (map f (xs[i := y])))) + sum_list (map w (f (xs ! i)))
    = sum_list (map w (concat (map f xs))) + sum_list (map w (f y))"
proof -
  have "xs[i := y] = take i xs @ y # drop (Suc i) xs"
    by (rule upd_conv_take_nth_drop [OF assms])
  then show ?thesis
    by (simp add: concat_map_remove_nth [OF assms, of w f] ac_simps)
qed

lemma concat_map_same:
  assumes "i < length xs" and "f y = f (xs ! i)"
  shows "concat (map f (xs[i := y])) = concat (map f xs)"
  using assms by (metis list_update_id map_update)

locale message_weights =
  fixes waiting_weight :: "'j queueMessage \<Rightarrow> 'w :: comm_monoid_add"
    and dispatched_weight :: "'j queueMessage \<Rightarrow> 'w"
    and condemned_weight :: "'j queueMessage \<Rightarrow> 'w"
begin

definition total :: "'j broker \<Rightarrow> 'w" where
  "total st = sum_list (map waiting_weight (waiting st))
     + sum_list (map dispatched_weight (dispatched st))
     + sum_list (map condemned_weight (condemned st))"

lemma total_init [simp]: "total (broker_init t) = 0"
  by (simp add: total_def waiting_def dispatched_def condemned_def broker_init_def)

lemma total_setTimeout [simp]:
  "total (snd (setTimeout (PushTask m) d st)) = total st + waiting_weight m"
  "total (snd (setTimeout FlushTask d st)) = total st"
  by (simp_all add: total_def waiting_def dispatched_def condemned_def setTimeout_def ac_simps)

lemma total_clock [simp]: "total (st\<lparr>clock := t\<rparr>) = total st"
  by (simp add: total_def waiting_def dispatched_def condemned_def)

lemma total_pending [simp]: "total (st\<lparr>pending := p\<rparr>) = total st"
  by (simp add: total_def waiting_def dispatched_def condemned_def)

lemma total_registerFlush [simp]: "total (registerFlush c st) = total st"
  by (simp add: registerFlush_def Let_def)

lemma clear_flush_timer:
  assumes "\<forall>x \<in> set ts. fst x = h \<longrightarrow> snd (snd x) = FlushTask"
  shows "concat (map (task_messages \<circ> snd \<circ> snd) (filter (\<lambda>(h', _). h' \<noteq> h) ts))
    = concat (map (task_messages \<circ> snd \<circ> snd) ts)"
  using assms by (induction ts) auto

lemma total_clearTimeout:
  assumes "timers_ok st" and "pending st = Some p"
  shows "total (clearTimeout (timeout p) st) = total st"
proof -
  have "\<forall>x \<in> set (timeouts st). fst x = timeout p \<longrightarrow> snd (snd x) = FlushTask"
    using assms unfolding timers_ok_def by (metis prod.collapse)
  then show ?thesis
    using clear_flush_timer [of "timeouts st" "timeout p"]
    by (simp add: total_def waiting_def dispatched_def condemned_def clearTimeout_def)
qed

lemma total_ensure:
  assumes "timers_ok st"
  shows "total (ensurePendingFlush c st) = total st"
  using total_clearTimeout [OF assms]
  by (simp add: ensurePendingFlush_def Let_def split: option.split)

lemma total_push:
  assumes "timers_ok st"
  shows "total (pushMessage c m st) = total st + waiting_weight m"
proof -
  have "total (pushMessage c m st) = total (st\<lparr>messages := messages st @ [m]\<rparr>)"
    unfolding pushMessage_def by (rule total_ensure) (use assms in simp)
  then show ?thesis
    by (simp add: total_def waiting_def dispatched_def condemned_def ac_simps)
qed

lemma total_removeTimer:
  assumes "i < length (timeouts st)" and "timeouts st ! i = (h, d, k)"
  shows "total st = total (removeTimer i st) + sum_list (map waiting_weight (task_messages k))"
  using concat_map_remove_nth [OF assms(1), of waiting_weight "task_messages \<circ> snd \<circ> snd"] assms(2)
  by (simp add: total_def waiting_def dispatched_def condemned_def removeTimer_def ac_simps)

lemma total_flush_begin:
  assumes "flush_begin env c h st = (ev, st')"
  obtains batch d where "ev = Dispatched batch d" and "batch = take (batchSizeOf c) (messages st)"
    and "d = dispatchBatch env (workerName c) batch"
    and "total st' + sum_list (map waiting_weight batch)
      = total st + sum_list (map dispatched_weight batch)"
proof (rule that [OF _ refl refl])
  let ?b = "take (batchSizeOf c) (messages st)"
  have split: "sum_list (map waiting_weight (messages st))
      = sum_list (map waiting_weight ?b)
        + sum_list (map waiting_weight (drop (batchSizeOf c) (messages st)))"
    by (metis append_take_drop_id map_append sum_list_append)
  show "ev = Dispatched ?b (dispatchBatch env (workerName c) ?b)"
    using assms by (auto simp: flush_begin_def Let_def)
  show "total st' + sum_list (map waiting_weight ?b)
      = total st + sum_list (map dispatched_weight ?b)"
    using assms split
    by (auto simp: flush_begin_def Let_def total_def waiting_def dispatched_def condemned_def
        ac_simps)
qed

lemma total_reply:
  assumes "i < length (flushes st)"
  shows "total (flush_reply i r st) = total st"
  using assms
  by (simp add: flush_reply_def total_def waiting_def dispatched_def condemned_def concat_map_same)

lemma total_enqueue:
  "enqueue J rnd g n ms st = (ev, st') \<Longrightarrow>
     \<exists>e acc. (ev = Accepted acc \<or> ev = Rejected e acc)
       \<and> (\<forall>m \<in> set acc. failedAttempts m = 0)
       \<and> total st' = total st + sum_list (map waiting_weight acc)"
proof (induction ms arbitrary: n st ev st')
  case (Cons m ms)
  show ?case
  proof (cases "incomingMessage J (rnd n) (clock st) m")
    case (Inl e)
    then show ?thesis using Cons.prems by auto
  next
    case (Inr msg)
    let ?s = "snd (setTimeout (PushTask msg)
      ((case in_delaySecs m of Some d \<Rightarrow> d | None \<Rightarrow> g) * 1000) st)"
    obtain ev1 st1 where r: "enqueue J rnd g (Suc n) ms ?s = (ev1, st1)"
      by (cases "enqueue J rnd g (Suc n) ms ?s")
    from Cons.IH [OF r] obtain e acc where ev1: "ev1 = Accepted acc \<or> ev1 = Rejected e acc"
      and z: "\<forall>m \<in> set acc. failedAttempts m = 0"
      and t: "total st1 = total ?s + sum_list (map waiting_weight acc)"
      by blast
    have "failedAttempts msg = 0"
      using Inr by (auto simp: incomingMessage_def QueueMessage_def Let_def)
    with Cons.prems Inr r ev1 z t show ?thesis
      by (auto simp: Let_def ac_simps intro!: exI [of _ "msg # acc"])
  qed
qed auto

lemma total_flushes_update:
  assumes "i < length (flushes st)"
    and "fl_todo (flushes st ! i) = m # fl_todo g"
    and "fl_toDeadLetterQueue g = fl_toDeadLetterQueue (flushes st ! i) @ extra"
  shows "total (st\<lparr>flushes := (flushes st)[i := g]\<rparr>) + dispatched_weight m
    = total st + sum_list (map condemned_weight extra)"
proof -
  let ?fs = "(flushes st)[i := g]"
  let ?tail = "sum_list (map dispatched_weight (fl_todo g))"
  let ?old = "sum_list (map condemned_weight (fl_toDeadLetterQueue (flushes st ! i)))"
  have all: "i < length (flushes st)" by (rule assms)
  have split: "sum_list (map w (concat (map f xs)))
      = sum_list (map w (f (xs ! i))) + sum_list (map w (concat (map f (take i xs @ drop (Suc i) xs))))"
    if "i < length xs" for w :: "'j queueMessage \<Rightarrow> 'w" and f and xs :: "'j flush list"
    by (rule concat_map_remove_nth [OF that])
  have keep: "take i ?fs @ drop (Suc i) ?fs
      = take i (flushes st) @ drop (Suc i) (flushes st)"
    by simp
  have d: "sum_list (map dispatched_weight (dispatched (st\<lparr>flushes := ?fs\<rparr>))) + dispatched_weight m
      = sum_list (map dispatched_weight (dispatched st))"
    using split [of ?fs dispatched_weight fl_todo] split [of "flushes st" dispatched_weight fl_todo]
      all assms(2) keep by (simp add: dispatched_def ac_simps)
  have k: "sum_list (map condemned_weight (condemned (st\<lparr>flushes := ?fs\<rparr>)))
      = sum_list (map condemned_weight (condemned st)) + sum_list (map condemned_weight extra)"
    using split [of ?fs condemned_weight fl_toDeadLetterQueue]
      split [of "flushes st" condemned_weight fl_toDeadLetterQueue] all assms(3) keep
    by (simp add: condemned_def ac_simps)
  have w: "waiting (st\<lparr>flushes := ?fs\<rparr>) = waiting st"
    by (simp add: waiting_def)
  have "total (st\<lparr>flushes := ?fs\<rparr>) + dispatched_weight m
      = sum_list (map waiting_weight (waiting st))
        + (sum_list (map dispatched_weight (dispatched (st\<lparr>flushes := ?fs\<rparr>))) + dispatched_weight m)
        + sum_list (map condemned_weight (condemned (st\<lparr>flushes := ?fs\<rparr>)))"
    by (simp add: total_def w ac_simps)
  then show ?thesis by (simp only: d k) (simp add: total_def ac_simps)
qed

lemma flush_message_cases:
  assumes "flush_message c i st = (ev, st')" and "i < length (flushes st)"
    and "fl_todo (flushes st ! i) = m # ms"
  obtains
    (ack) "ev = Acked m" and "total st' + dispatched_weight m = total st"
  | (retry) "ev = Retried (incrementFailedAttempts m)"
      and "failedAttempts (incrementFailedAttempts m) < maxAttemptsOf c"
      and "total st' + dispatched_weight m = total st + waiting_weight (incrementFailedAttempts m)"
  | (drop) "ev = Dropped (incrementFailedAttempts m)" and "deadLetterQueue c = None"
      and "maxAttemptsOf c \<le> failedAttempts (incrementFailedAttempts m)"
      and "total st' + dispatched_weight m = total st"
  | (condemn) "ev = Internal" and "deadLetterQueue c \<noteq> None"
      and "maxAttemptsOf c \<le> failedAttempts (incrementFailedAttempts m)"
      and "total st' + dispatched_weight m = total st + condemned_weight (incrementFailedAttempts m)"
proof -
  let ?f = "flushes st ! i" and ?m = "incrementFailedAttempts m"
  let ?r = "the (fl_response ?f)"
  let ?g = "?f\<lparr>fl_todo := ms\<rparr>"
  let ?gf = "?g\<lparr>fl_failedMessages := fl_failedMessages ?f + 1\<rparr>"
  let ?gd = "?gf\<lparr>fl_toDeadLetterQueue := fl_toDeadLetterQueue ?f @ [?m]\<rparr>"
  note upd = total_flushes_update [OF assms(2), of m]
  show thesis
  proof (cases "retryAll ?r \<or> retryMap ?r (msg_id m) \<noteq> None")
    case False
    then have "ev = Acked m" and "st' = st\<lparr>flushes := (flushes st)[i := ?g]\<rparr>"
      using assms by (auto simp: flush_message_def Let_def)
    then show thesis using upd [of ?g "[]"] assms(3) by (auto intro: ack)
  next
    case True
    note fail = this
    consider "failedAttempts ?m < maxAttemptsOf c"
      | "\<not> failedAttempts ?m < maxAttemptsOf c" "deadLetterQueue c = None"
      | "\<not> failedAttempts ?m < maxAttemptsOf c" "deadLetterQueue c \<noteq> None"
      by blast
    then show thesis
    proof cases
      case 1
      then have "ev = Retried ?m" and "st' = snd (setTimeout (PushTask ?m)
          (retryDelayOf c ?r (msg_id m) * 1000) (st\<lparr>flushes := (flushes st)[i := ?gf]\<rparr>))"
        using assms fail by (auto simp: flush_message_def Let_def)
      then have "total st' + dispatched_weight m
          = total (st\<lparr>flushes := (flushes st)[i := ?gf]\<rparr>) + dispatched_weight m + waiting_weight ?m"
        by (simp add: ac_simps)
      also have "\<dots> = total st + waiting_weight ?m"
        using upd [of ?gf "[]"] assms(3) by simp
      finally show thesis using 1 \<open>ev = Retried ?m\<close> by (intro retry)
    next
      case 2
      then have "ev = Dropped ?m" and "st' = st\<lparr>flushes := (flushes st)[i := ?gf]\<rparr>"
        using assms fail by (auto simp: flush_message_def Let_def)
      then show thesis using 2 upd [of ?gf "[]"] assms(3) by (intro drop) simp_all
    next
      case 3
      then have "ev = Internal" and "st' = st\<lparr>flushes := (flushes st)[i := ?gd]\<rparr>"
        using assms fail by (auto simp: flush_message_def Let_def)
      then show thesis using 3 upd [of ?gd "[?m]"] assms(3) by (intro condemn) simp_all
    qed
  qed
qed

lemma total_flush_end:
  assumes "flush_end J c i st = (ev, st')" and "i < length (flushes st)" and "timers_ok st"
    and "fl_todo (flushes st ! i) = []"
  shows "total st = total st'
    + sum_list (map condemned_weight (fl_toDeadLetterQueue (flushes st ! i)))"
proof -
  let ?s = "st\<lparr>flushes := take i (flushes st) @ drop (Suc i) (flushes st)\<rparr>"
  have "timers_ok (?s\<lparr>pending := None\<rparr>)" by (rule timers_ok_unpend) (use assms(3) in simp)
  then have "total st' = total (?s\<lparr>pending := None\<rparr>)"
    using assms(1) by (auto simp: flush_end_def Let_def total_ensure)
  then have "total st' = total ?s" by (simp only: total_pending)
  then show ?thesis
    using concat_map_remove_nth [OF assms(2), of dispatched_weight fl_todo]
      concat_map_remove_nth [OF assms(2), of condemned_weight fl_toDeadLetterQueue] assms(4)
    by (simp add: total_def waiting_def dispatched_def condemned_def ac_simps)
qed

end

subsection \<open>Conservation of messages\<close>

text \<open>
  What identifies a message: everything but its counter. \<open>event_in\<close> are the messages a request
  brought in, \<open>event_out\<close> those that left: acknowledged, dropped, or sent to the dead letter queue.
\<close>

definition core :: "'j queueMessage \<Rightarrow> string \<times> int \<times> 'j queueBody" where
  "core m = (msg_id m, msg_timestamp m, msg_body m)"

lemma core_increment [simp]: "core (incrementFailedAttempts m) = core m"
  by (simp add: core_def incrementFailedAttempts_def)

fun event_in :: "'j queue_event \<Rightarrow> 'j queueMessage list" where
  "event_in (Accepted ms) = ms"
| "event_in (Rejected e ms) = ms"
| "event_in _ = []"

fun event_out :: "'j queue_event \<Rightarrow> 'j queueMessage list" where
  "event_out (Acked m) = [m]"
| "event_out (Dropped m) = [m]"
| "event_out (DeadLettered q ms rs) = ms"
| "event_out _ = []"

definition core_mset :: "'j queueMessage list \<Rightarrow> (string \<times> int \<times> 'j queueBody) multiset" where
  "core_mset ms = mset (map core ms)"

definition in_broker :: "'j broker \<Rightarrow> 'j queueMessage list" where
  "in_broker st = waiting st @ dispatched st @ condemned st"

abbreviation core_weight :: "'j queueMessage \<Rightarrow> (string \<times> int \<times> 'j queueBody) multiset" where
  "core_weight m \<equiv> {#core m#}"

interpretation cores: message_weights core_weight core_weight core_weight .

lemma sum_core_weight: "sum_list (map core_weight ms) = core_mset ms"
  by (induction ms) (simp_all add: core_mset_def)

lemma cores_total: "cores.total st = core_mset (in_broker st)"
  by (simp add: cores.total_def in_broker_def sum_core_weight) (simp add: core_mset_def)

lemma requests_enqueue:
  assumes "broker_message env J zt rnd hs b st = (ev, st') \<or> broker_batch env J zt rnd hs ms st = (ev, st')"
  shows "(\<exists>g is. enqueue J rnd g 0 is st = (ev, st'))
    \<or> st' = st \<and> (ev = Accepted [] \<or> (\<exists>e. ev = Rejected e []))"
  using assms
  by (auto simp: broker_message_def broker_batch_def split: sum.splits option.splits prod.splits
      simp del: enqueue.simps)

context message_weights
begin

lemma total_requests:
  assumes "broker_message env J zt rnd hs b st = (ev, st') \<or> broker_batch env J zt rnd hs ms st = (ev, st')"
  shows "(\<exists>e acc. (ev = Accepted acc \<or> ev = Rejected e acc)
       \<and> (\<forall>m \<in> set acc. failedAttempts m = 0)
       \<and> total st' = total st + sum_list (map waiting_weight acc))"
  using requests_enqueue [OF assms] total_enqueue by fastforce

end

lemma cores_step:
  assumes "queue_step env c J st ev st'" and "timers_ok st"
  shows "core_mset (event_in ev) + cores.total st = cores.total st' + core_mset (event_out ev)"
  using assms(1)
proof cases
  case (message_request zodText rnd hs b)
  then show ?thesis using cores.total_requests by (fastforce simp: sum_core_weight core_mset_def)
next
  case (batch_request zodText rnd hs ms)
  then show ?thesis using cores.total_requests by (fastforce simp: sum_core_weight core_mset_def)
next
  case (push_fires i h due m)
  then show ?thesis
    using cores.total_removeTimer [of i st h due] cores.total_push [OF timers_ok_remove [OF assms(2)]]
    by (simp add: core_mset_def)
next
  case (flush_fires i h due)
  then show ?thesis
    using cores.total_removeTimer [of i st h due]
    by (elim cores.total_flush_begin) (auto simp: core_mset_def)
next
  case (reply_arrives i r)
  then show ?thesis by (simp add: cores.total_reply core_mset_def)
next
  case (message_settled i)
  then obtain m ms where todo: "fl_todo (flushes st ! i) = m # ms"
    by (cases "fl_todo (flushes st ! i)") auto
  from message_settled(4,1) todo show ?thesis
    by (cases rule: cores.flush_message_cases) (auto simp: core_mset_def)
next
  case (flush_finishes i)
  then have "event_in ev = []" and "event_out ev = fl_toDeadLetterQueue (flushes st ! i)"
    by (auto simp: flush_end_def Let_def split: if_splits)
  then show ?thesis
    using cores.total_flush_end [OF flush_finishes(4,1) assms(2) flush_finishes(3)]
    by (simp add: sum_core_weight core_mset_def)
qed (simp add: core_mset_def)

lemma timers_ok_run:
  assumes "queue_run env c J s0 evs st"
  shows "timers_ok st"
  using assms
proof induction
  case (run_start t)
  show ?case by (simp add: timers_ok_def broker_init_def)
qed (rule timers_ok_step)

lemma cores_run:
  assumes "queue_run env c J s0 evs st"
  shows "core_mset (concat (map event_in evs))
    = core_mset (in_broker st) + core_mset (concat (map event_out evs))"
  using assms
proof induction
  case (run_start t)
  then show ?case using cores.total_init [of t] by (simp add: cores_total core_mset_def)
next
  case (run_step s0 evs st ev st')
  then show ?case
    using cores_step [OF run_step.hyps(2) timers_ok_run [OF run_step.hyps(1)]]
    by (simp add: cores_total core_mset_def ac_simps)
qed

subsection \<open>The number of attempts\<close>

datatype place = AtRest | InFlight | Condemned

definition attempts_in_range :: "queueConsumer \<Rightarrow> place \<times> 'j queueMessage \<Rightarrow> bool" where
  "attempts_in_range c pm \<longleftrightarrow>
     (if fst pm = Condemned then failedAttempts (snd pm) = maxAttemptsOf c
      else failedAttempts (snd pm) < maxAttemptsOf c)"

abbreviation place_weight :: "place \<Rightarrow> 'j queueMessage \<Rightarrow> (place \<times> 'j queueMessage) multiset" where
  "place_weight p m \<equiv> {#(p, m)#}"

interpretation places: message_weights
  "place_weight AtRest" "place_weight InFlight" "place_weight Condemned" .

lemma sum_place_weight: "set_mset (sum_list (map (place_weight p) ms)) = Pair p ` set ms"
  by (induction ms) auto

definition attempts_ok :: "queueConsumer \<Rightarrow> 'j broker \<Rightarrow> bool" where
  "attempts_ok c st \<longleftrightarrow> (\<forall>x \<in># places.total st. attempts_in_range c x)"

lemma attempts_okI:
  assumes "attempts_ok c st" and "places.total st' + X = places.total st + Y"
    and "\<forall>x \<in># Y. attempts_in_range c x"
  shows "attempts_ok c st'"
proof -
  have "set_mset (places.total st') \<subseteq> set_mset (places.total st) \<union> set_mset Y"
    using arg_cong [OF assms(2), of set_mset] by auto
  then show ?thesis using assms unfolding attempts_ok_def by blast
qed

lemma attempts_ok_waiting:
  assumes "attempts_ok c st" and "m \<in> set (waiting st) \<union> set (dispatched st)"
  shows "failedAttempts m < maxAttemptsOf c"
proof -
  have "(AtRest, m) \<in># places.total st \<or> (InFlight, m) \<in># places.total st"
    using assms(2) by (auto simp: places.total_def sum_place_weight)
  then show ?thesis using assms(1) by (auto simp: attempts_ok_def attempts_in_range_def)
qed

lemma attempts_ok_condemned:
  assumes "attempts_ok c st" and "m \<in> set (condemned st)"
  shows "failedAttempts m = maxAttemptsOf c"
proof -
  have "(Condemned, m) \<in># places.total st"
    using assms(2) by (auto simp: places.total_def sum_place_weight)
  then show ?thesis using assms(1) by (auto simp: attempts_ok_def attempts_in_range_def)
qed

lemma maxAttempts_pos [simp]: "0 < maxAttemptsOf c"
  by (simp add: maxAttemptsOf_def)

lemma failedAttempts_increment [simp]:
  "failedAttempts (incrementFailedAttempts m) = failedAttempts m + 1"
  by (simp add: incrementFailedAttempts_def)

lemma todo_dispatched:
  "i < length (flushes st) \<Longrightarrow> m \<in> set (fl_todo (flushes st ! i)) \<Longrightarrow> m \<in> set (dispatched st)"
  unfolding dispatched_def by (auto intro!: bexI [of _ "flushes st ! i"])

lemma attempts_ok_removeTimer:
  assumes "attempts_ok c st" and "i < length (timeouts st)" and "timeouts st ! i = (h, d, k)"
  shows "attempts_ok c (removeTimer i st)"
  by (rule attempts_okI [OF assms(1), of _ "sum_list (map (place_weight AtRest) (task_messages k))" "{#}"])
     (use places.total_removeTimer [OF assms(2,3)] in simp_all)

lemma push_task_waiting:
  assumes "i < length (timeouts st)" and "timeouts st ! i = (h, d, PushTask m)"
  shows "m \<in> set (waiting st)"
  using nth_mem [OF assms(1)] assms(2) unfolding waiting_def
  by (auto intro!: bexI [of _ "(h, d, PushTask m)"])

lemma attempts_ok_step:
  assumes "queue_step env c J st ev st'" and "timers_ok st" and ok: "attempts_ok c st"
  shows "attempts_ok c st'"
  using assms(1)
proof cases
  case (message_request zodText rnd hs b)
  then obtain acc where "places.total st' = places.total st + sum_list (map (place_weight AtRest) acc)"
    and "\<forall>m \<in> set acc. failedAttempts m = 0"
    using places.total_requests by blast
  then show ?thesis
    by (intro attempts_okI [OF ok, of _ "{#}"]) (auto simp: sum_place_weight attempts_in_range_def)
next
  case (batch_request zodText rnd hs ms)
  then obtain acc where "places.total st' = places.total st + sum_list (map (place_weight AtRest) acc)"
    and "\<forall>m \<in> set acc. failedAttempts m = 0"
    using places.total_requests by blast
  then show ?thesis
    by (intro attempts_okI [OF ok, of _ "{#}"]) (auto simp: sum_place_weight attempts_in_range_def)
next
  case (push_fires i h due m)
  then have "places.total st' = places.total st"
    using places.total_removeTimer [of i st h due] places.total_push [OF timers_ok_remove [OF assms(2)]]
    by simp
  then show ?thesis using ok by (simp add: attempts_ok_def)
next
  case (flush_fires i h due)
  then have ok': "attempts_ok c (removeTimer i st)"
    using attempts_ok_removeTimer [OF ok] by blast
  from flush_fires(4) obtain batch where b: "batch = take (batchSizeOf c) (messages (removeTimer i st))"
    and t: "places.total st' + sum_list (map (place_weight AtRest) batch)
      = places.total (removeTimer i st) + sum_list (map (place_weight InFlight) batch)"
    by (rule places.total_flush_begin)
  have "\<forall>m \<in> set batch. failedAttempts m < maxAttemptsOf c"
    using attempts_ok_waiting [OF ok'] b by (auto simp: waiting_def dest: in_set_takeD)
  then show ?thesis
    by (intro attempts_okI [OF ok' t]) (auto simp: sum_place_weight attempts_in_range_def)
next
  case (reply_arrives i r)
  then show ?thesis using ok by (simp add: attempts_ok_def places.total_reply)
next
  case (message_settled i)
  then obtain m ms where todo: "fl_todo (flushes st ! i) = m # ms"
    by (cases "fl_todo (flushes st ! i)") auto
  have m: "failedAttempts m < maxAttemptsOf c"
    using attempts_ok_waiting [OF ok] todo_dispatched [OF message_settled(1), of m] todo by simp
  from message_settled(4,1) todo show ?thesis
  proof (cases rule: places.flush_message_cases)
    case ack
    then show ?thesis using attempts_okI [OF ok, of _ "place_weight InFlight m" "{#}"] by simp
  next
    case retry
    then show ?thesis
      by (intro attempts_okI [OF ok retry(3)]) (simp add: attempts_in_range_def)
  next
    case drop
    then show ?thesis using attempts_okI [OF ok, of _ "place_weight InFlight m" "{#}"] by simp
  next
    case condemn
    then show ?thesis
      by (intro attempts_okI [OF ok condemn(4)]) (use m in \<open>simp add: attempts_in_range_def\<close>)
  qed
next
  case (flush_finishes i)
  then show ?thesis
    using places.total_flush_end [OF flush_finishes(4,1) assms(2) flush_finishes(3)]
    by (intro attempts_okI [OF ok, of _ _ "{#}"]) auto
qed (use ok in \<open>simp add: attempts_ok_def\<close>)

lemma attempts_ok_run:
  assumes "queue_run env c J s0 evs st"
  shows "attempts_ok c st"
  using assms
proof induction
  case (run_start t)
  show ?case by (simp add: attempts_ok_def)
next
  case (run_step s0 evs st ev st')
  then show ?case using attempts_ok_step timers_ok_run by blast
qed

text \<open>
  The deliveries a message may still get: all that are left while it waits, one less while it is
  in flight.
\<close>

definition rest_weight :: "queueConsumer \<Rightarrow> string \<Rightarrow> 'j queueMessage \<Rightarrow> nat" where
  "rest_weight c k m = (if msg_id m = k then maxAttemptsOf c - failedAttempts m else 0)"

definition flight_weight :: "queueConsumer \<Rightarrow> string \<Rightarrow> 'j queueMessage \<Rightarrow> nat" where
  "flight_weight c k m = (if msg_id m = k then maxAttemptsOf c - failedAttempts m - 1 else 0)"

interpretation left: message_weights "rest_weight c k" "flight_weight c k" "\<lambda>_. 0" for c k .

fun event_deliveries :: "'j queue_event \<Rightarrow> 'j queueMessage list" where
  "event_deliveries (Dispatched batch d) = batch"
| "event_deliveries _ = []"

definition occurrences :: "string \<Rightarrow> 'j queueMessage list \<Rightarrow> nat" where
  "occurrences k ms = count_list (map msg_id ms) k"

lemma rest_flight:
  "\<forall>m \<in> set ms. failedAttempts m < maxAttemptsOf c \<Longrightarrow>
     sum_list (map (rest_weight c k) ms) = sum_list (map (flight_weight c k) ms) + occurrences k ms"
  by (induction ms) (auto simp: rest_weight_def flight_weight_def occurrences_def)

lemma rest_new:
  "\<forall>m \<in> set ms. failedAttempts m = 0 \<Longrightarrow>
     sum_list (map (rest_weight c k) ms) = maxAttemptsOf c * occurrences k ms"
  by (induction ms) (auto simp: rest_weight_def occurrences_def)

lemma deliveries_step:
  assumes "queue_step env c J st ev st'" and "timers_ok st" and ok: "attempts_ok c st"
  shows "occurrences k (event_deliveries ev) + left.total c k st'
    \<le> left.total c k st + maxAttemptsOf c * occurrences k (event_in ev)"
proof -
  have req: ?thesis
    if r: "broker_message env J zt rnd hs b st = (ev, st') \<or> broker_batch env J zt rnd hs ms st = (ev, st')"
    for zt rnd hs b ms
  proof -
    from left.total_requests [OF r, of c k] obtain e acc
      where ev: "ev = Accepted acc \<or> ev = Rejected e acc"
        and z: "\<forall>m \<in> set acc. failedAttempts m = 0"
        and t: "left.total c k st' = left.total c k st + sum_list (map (rest_weight c k) acc)"
      by blast
    show ?thesis using ev rest_new [OF z, of c k] t by (auto simp: occurrences_def)
  qed
  show ?thesis
    using assms(1)
  proof cases
    case (message_request zodText rnd hs b)
    then show ?thesis by (intro req disjI1)
  next
    case (batch_request zodText rnd hs ms)
    then show ?thesis by (intro req disjI2)
  next
    case (push_fires i h due m)
    then show ?thesis
      using left.total_removeTimer [of i st h due _ c k]
        left.total_push [OF timers_ok_remove [OF assms(2)], of c k c m i]
      by (simp add: occurrences_def)
  next
    case (flush_fires i h due)
    then have ok': "attempts_ok c (removeTimer i st)"
      using attempts_ok_removeTimer [OF ok] by blast
    from flush_fires(4) obtain batch d where ev: "ev = Dispatched batch d"
      and b: "batch = take (batchSizeOf c) (messages (removeTimer i st))"
      and t: "left.total c k st' + sum_list (map (rest_weight c k) batch)
        = left.total c k (removeTimer i st) + sum_list (map (flight_weight c k) batch)"
      by (rule left.total_flush_begin)
    have "\<forall>m \<in> set batch. failedAttempts m < maxAttemptsOf c"
      using attempts_ok_waiting [OF ok'] b by (auto simp: waiting_def dest: in_set_takeD)
    with t ev left.total_removeTimer [OF flush_fires(1,2), of c k] show ?thesis
      by (simp add: rest_flight)
  next
    case (reply_arrives i r)
    then show ?thesis by (simp add: left.total_reply occurrences_def)
  next
    case (message_settled i)
    then obtain m ms where todo: "fl_todo (flushes st ! i) = m # ms"
      by (cases "fl_todo (flushes st ! i)") auto
    have "rest_weight c k (incrementFailedAttempts m) = flight_weight c k m"
      by (simp add: rest_weight_def flight_weight_def) (simp add: incrementFailedAttempts_def)
    with message_settled(4,1) todo show ?thesis
      by (cases rule: left.flush_message_cases [where ?ca = c and ?c = c and ?k = k])
         (auto simp: occurrences_def)
  next
    case (flush_finishes i)
    then have "event_deliveries ev = []"
      by (auto simp: flush_end_def Let_def split: if_splits)
    then show ?thesis
      using left.total_flush_end [OF flush_finishes(4,1) assms(2) flush_finishes(3), of c k]
      by (simp add: occurrences_def)
  qed (simp add: occurrences_def)
qed

lemma occurrences_append [simp]: "occurrences k (xs @ ys) = occurrences k xs + occurrences k ys"
  by (simp add: occurrences_def)

lemma deliveries_run:
  assumes "queue_run env c J s0 evs st"
  shows "occurrences k (concat (map event_deliveries evs)) + left.total c k st
    \<le> maxAttemptsOf c * occurrences k (concat (map event_in evs))"
  using assms
proof induction
  case (run_start t)
  then show ?case by (simp add: occurrences_def)
next
  case (run_step s0 evs st ev st')
  then show ?case
    using deliveries_step [OF run_step.hyps(2) timers_ok_run [OF run_step.hyps(1)]
        attempts_ok_run [OF run_step.hyps(1)], of k]
    by (simp add: algebra_simps)
qed

subsection \<open>A flush is always scheduled\<close>

definition pending_valid :: "queueConsumer \<Rightarrow> 'j broker \<Rightarrow> bool" where
  "pending_valid c st \<longleftrightarrow>
     (\<forall>p. pending st = Some p \<longrightarrow>
        (\<exists>d. (timeout p, d, FlushTask) \<in> set (timeouts st)
           \<and> d \<le> clock st + (if immediate p then 0 else max 0 (batchTimeoutOf c * 1000)))
        \<or> timeout p \<in> fl_timer ` set (flushes st))"

definition full_flushed :: "queueConsumer \<Rightarrow> 'j broker \<Rightarrow> bool" where
  "full_flushed c st \<longleftrightarrow>
     (messages st \<noteq> [] \<longrightarrow> pending st \<noteq> None)
     \<and> (messages st \<noteq> [] \<and> batchSizeOf c \<le> length (messages st)
          \<longrightarrow> (\<exists>p. pending st = Some p \<and> immediate p))"

lemma flush_scheduled_alt: "flush_scheduled c st \<longleftrightarrow> pending_valid c st \<and> full_flushed c st"
  by (auto simp: flush_scheduled_def pending_valid_def full_flushed_def)

lemma scheduled_registerFlush: "flush_scheduled c (registerFlush c st)"
  by (auto simp: flush_scheduled_def registerFlush_def setTimeout_def Let_def)

lemma scheduled_ensure:
  assumes "pending_valid c st"
  shows "flush_scheduled c (ensurePendingFlush c st)"
proof (cases "pending st")
  case (Some p)
  show ?thesis
  proof (cases "immediate p \<or> length (messages st) < batchSizeOf c")
    case True
    with Some have "ensurePendingFlush c st = st"
      by (simp add: ensurePendingFlush_def Let_def)
    moreover have "full_flushed c st" using Some True by (auto simp: full_flushed_def)
    ultimately show ?thesis using assms by (simp add: flush_scheduled_alt)
  qed (use Some in \<open>simp add: ensurePendingFlush_def Let_def scheduled_registerFlush\<close>)
qed (simp add: ensurePendingFlush_def Let_def scheduled_registerFlush)

lemma pending_valid_messages [simp]:
  "pending_valid c (st\<lparr>messages := ms\<rparr>) = pending_valid c st"
  by (simp add: pending_valid_def)

lemma scheduled_setTimeout:
  "flush_scheduled c st \<Longrightarrow> flush_scheduled c (snd (setTimeout k d st))"
  by (auto simp: flush_scheduled_def setTimeout_def)

lemma scheduled_flushes:
  assumes "flush_scheduled c st" and "fl_timer ` set fs = fl_timer ` set (flushes st)"
  shows "flush_scheduled c (st\<lparr>flushes := fs\<rparr>)"
  using assms by (simp add: flush_scheduled_def)

lemma fl_timers_update:
  assumes "i < length fs" and "fl_timer g = fl_timer (fs ! i)"
  shows "fl_timer ` set (fs[i := g]) = fl_timer ` set fs"
  using assms by (metis list.set_map list_update_id map_update)

lemma pending_validI:
  assumes "pending_valid c st" and "pending st' = pending st" and "clock st' = clock st"
    and "fl_timer ` set (flushes st) \<subseteq> fl_timer ` set (flushes st')"
    and "\<And>h d. (h, d, FlushTask) \<in> set (timeouts st) \<Longrightarrow>
      (h, d, FlushTask) \<in> set (timeouts st') \<or> h \<in> fl_timer ` set (flushes st')"
  shows "pending_valid c st'"
  unfolding pending_valid_def assms(2,3)
proof (intro allI impI)
  fix p assume p: "pending st = Some p"
  let ?ok = "\<lambda>d. d \<le> clock st + (if immediate p then 0 else max 0 (batchTimeoutOf c * 1000))"
  consider d where "(timeout p, d, FlushTask) \<in> set (timeouts st)" and "?ok d"
    | "timeout p \<in> fl_timer ` set (flushes st)"
    using assms(1) p unfolding pending_valid_def by blast
  then show "(\<exists>d. (timeout p, d, FlushTask) \<in> set (timeouts st') \<and> ?ok d)
      \<or> timeout p \<in> fl_timer ` set (flushes st')"
    by cases (use assms(4,5) in blast)+
qed

lemma pending_valid_remove_push:
  assumes "pending_valid c st" and "i < length (timeouts st)"
    and "timeouts st ! i = (h, due, PushTask m)"
  shows "pending_valid c (removeTimer i st)"
proof (rule pending_validI [OF assms(1)])
  fix h' d assume "(h', d, FlushTask) \<in> set (timeouts st)"
  then have "(h', d, FlushTask) \<in> set (take i (timeouts st) @ drop (Suc i) (timeouts st))"
    using removed_nth [OF assms(2)] assms(3) by simp
  then show "(h', d, FlushTask) \<in> set (timeouts (removeTimer i st))
      \<or> h' \<in> fl_timer ` set (flushes (removeTimer i st))"
    by (simp add: removeTimer_def)
qed (simp_all add: removeTimer_def)

lemma pending_valid_fire_flush:
  assumes "pending_valid c st" and "i < length (timeouts st)"
    and "timeouts st ! i = (h, due, FlushTask)" and "flush_begin env c h (removeTimer i st) = (ev, st')"
  shows "pending_valid c st'"
proof (rule pending_validI [OF assms(1)])
  have h: "h \<in> fl_timer ` set (flushes st')"
    and ts: "timeouts st' = take i (timeouts st) @ drop (Suc i) (timeouts st)"
    using assms(4) by (auto simp: flush_begin_def Let_def removeTimer_def)
  fix h' d assume "(h', d, FlushTask) \<in> set (timeouts st)"
  then have "h' = h \<or> (h', d, FlushTask) \<in> set (take i (timeouts st) @ drop (Suc i) (timeouts st))"
    using removed_nth [OF assms(2)] assms(3) by auto
  then show "(h', d, FlushTask) \<in> set (timeouts st') \<or> h' \<in> fl_timer ` set (flushes st')"
    using h ts by auto
qed (use assms(4) in \<open>auto simp: flush_begin_def Let_def removeTimer_def\<close>)

lemma scheduled_step:
  assumes "queue_step env c J st ev st'" and ok: "flush_scheduled c st"
  shows "flush_scheduled c st'"
  using assms(1)
proof cases
  case (message_request zodText rnd hs b)
  then show ?thesis
    using requests_invariant(1) [of "flush_scheduled c", OF ok scheduled_setTimeout]
    by (metis snd_conv)
next
  case (batch_request zodText rnd hs ms)
  then show ?thesis
    using requests_invariant(2) [of "flush_scheduled c", OF ok scheduled_setTimeout]
    by (metis snd_conv)
next
  case (time_passes t)
  then show ?thesis using ok unfolding flush_scheduled_def by (simp, smt (verit))
next
  case (push_fires i h due m)
  then show ?thesis
    using ok pending_valid_remove_push [of c st i h due m]
      scheduled_ensure [of c "(removeTimer i st)\<lparr>messages := messages (removeTimer i st) @ [m]\<rparr>"]
    by (simp add: pushMessage_def flush_scheduled_alt [of c st])
next
  case (flush_fires i h due)
  have "pending st' = pending st" and "messages st' = drop (batchSizeOf c) (messages st)"
    using flush_fires(4) by (auto simp: flush_begin_def Let_def removeTimer_def)
  then have "full_flushed c st'" using ok by (auto simp: flush_scheduled_alt full_flushed_def)
  moreover have "pending_valid c st'"
    using pending_valid_fire_flush [OF _ flush_fires(1,2,4)] ok by (simp add: flush_scheduled_alt)
  ultimately show ?thesis by (simp add: flush_scheduled_alt)
next
  case (reply_arrives i r)
  then show ?thesis
    using ok by (simp add: flush_reply_def scheduled_flushes fl_timers_update)
next
  case (message_settled i)
  have "flush_scheduled c (snd (flush_message c i st))"
    using ok message_settled(1)
    by (simp add: flush_message_def Let_def scheduled_setTimeout scheduled_flushes fl_timers_update)
  then show ?thesis using message_settled(4) by simp
next
  case (flush_finishes i)
  have "flush_scheduled c (snd (flush_end J c i st))"
    by (simp add: flush_end_def Let_def scheduled_ensure pending_valid_def)
       (simp add: flush_scheduled_def)
  then show ?thesis using flush_finishes(4) by simp
qed

lemma scheduled_run:
  assumes "queue_run env c J s0 evs st"
  shows "flush_scheduled c st"
  using assms
proof induction
  case (run_start t)
  show ?case by (simp add: flush_scheduled_def broker_init_def)
qed (rule scheduled_step)

subsection \<open>Bodies survive the way to the dead letter queue\<close>

lemma utf8_valid_seq_append:
  assumes "utf8_seq p"
  shows "utf8_valid (p @ r) = utf8_valid r"
proof -
  have "p \<noteq> []" and len: "utf8_len (hd p) = length p"
    using utf8_seq_cases [OF assms] by auto
  then obtain a s where p: "p = a # s" by (cases p) auto
  with len assms show ?thesis by (simp add: append_eq_Cons_conv)
qed

lemma utf8_toString_id: "utf8_valid bs \<Longrightarrow> utf8_toString bs = bs"
proof (induction bs rule: utf8_valid.induct)
  case (2 a s)
  then have n: "utf8_len a \<noteq> 0" and q: "utf8_seq (take (utf8_len a) (a # s))"
    and v: "utf8_valid (drop (utf8_len a) (a # s))"
    by (auto split: if_splits)
  have "utf8_toString (a # s)
      = take (utf8_len a) (a # s) @ utf8_toString (drop (utf8_len a) (a # s))"
    using n q by simp
  also have "\<dots> = take (utf8_len a) (a # s) @ drop (utf8_len a) (a # s)"
    using "2.IH" n q v by (simp del: drop_append take_append)
  finally show ?case by (simp only: append_take_drop_id)
qed simp

lemma utf8_toString_cases:
  "utf8_len a \<noteq> 0 \<and> utf8_seq (take (utf8_len a) (a # s)) \<Longrightarrow>
     utf8_toString (a # s) = take (utf8_len a) (a # s) @ utf8_toString (drop (utf8_len a) (a # s))"
  "\<not> (utf8_len a \<noteq> 0 \<and> utf8_seq (take (utf8_len a) (a # s))) \<Longrightarrow>
     utf8_toString (a # s) = [239, 191, 189] @ utf8_toString (drop (ill_formed_len (a # s)) (a # s))"
  by (simp, simp only: utf8_toString.simps if_False)

lemma utf8_valid_toString: "utf8_valid (utf8_toString bs)"
proof (induction bs rule: utf8_toString.induct)
  case (2 a s)
  show ?case
  proof (cases "utf8_len a \<noteq> 0 \<and> utf8_seq (take (utf8_len a) (a # s))")
    case True
    then show ?thesis
      using 2(1) [OF True] utf8_valid_seq_append [of "take (utf8_len a) (a # s)"]
      by (simp only: utf8_toString_cases(1) [OF True])
  next
    case False
    moreover have "utf8_seq [239, 191, 189]" by (simp add: is_cont_def)
    ultimately show ?thesis
      using 2(2) [OF False] by (simp only: utf8_toString_cases(2) [OF False] utf8_valid_seq_append)
  qed
qed simp

lemma utf8_toString_bytes: "\<forall>b \<in> set bs. b < 256 \<Longrightarrow> \<forall>b \<in> set (utf8_toString bs). b < 256"
proof (induction bs rule: utf8_toString.induct)
  case (2 a s)
  have sub: "\<forall>b \<in> set (drop k (a # s)). b < 256" "\<forall>b \<in> set (take k (a # s)). b < 256" for k
    using "2.prems" by (metis in_set_dropD, metis in_set_takeD)
  show ?case
  proof (cases "utf8_len a \<noteq> 0 \<and> utf8_seq (take (utf8_len a) (a # s))")
    case True
    show ?thesis
      using 2(1) [OF True sub(1)] sub(2) by (simp only: utf8_toString_cases(1) [OF True] set_append) blast
  next
    case False
    show ?thesis
      using 2(2) [OF False sub(1)] by (simp only: utf8_toString_cases(2) [OF False] set_append) auto
  qed
qed simp

lemma bufferToString_id: "valid_text s \<Longrightarrow> bufferToString s = s"
  by (simp add: bufferToString_def valid_text_def utf8_toString_id comp_def)

lemma valid_text_bufferToString: "valid_text (bufferToString s)"
proof -
  have "map of_char (map char_of (utf8_toString (map of_char s)))
      = (utf8_toString (map of_char s) :: nat list)"
    using utf8_toString_bytes [of "map of_char s"] by (auto intro!: map_idI simp: of_char_of)
  then show ?thesis
    unfolding valid_text_def bufferToString_def by (simp only: utf8_valid_toString)
qed

lemma b64_char_regexp: "n < 64 \<Longrightarrow> base64_regexp_char (b64_char n)"
proof -
  have "\<forall>n \<in> set [0..<64]. base64_regexp_char (b64_char n)" by code_simp
  then show "n < 64 \<Longrightarrow> base64_regexp_char (b64_char n)" by simp
qed

lemma b64_pack_regexp:
  "\<forall>b \<in> set bs. b < 256 \<Longrightarrow> list_all base64_regexp_char (b64_pack bs)"
  by (induction bs rule: b64_pack.induct)
     (auto intro!: b64_char_regexp simp: base64_regexp_char_def [of "CHR ''=''"])

lemma Base64DataSchema_encode [simp]: "Base64DataSchema (base64Encode s) = Some s"
  using b64_pack_regexp [of "map of_char s"]
  by (simp add: Base64DataSchema_def base64Encode_def [symmetric])

definition json_laws :: "'j json_codec \<Rightarrow> bool" where
  "json_laws J \<longleftrightarrow> (\<forall>v. valid_text (json_stringify J v) \<and> json_parse J (json_stringify J v) = Some v)"

text \<open>A message parsed back from its serialised form.\<close>

fun body_type :: "'j queueBody \<Rightarrow> queueContentType" where
  "body_type (TextBody s) = CtText"
| "body_type (JsonBody v) = CtJson"
| "body_type (BytesBody b) = CtBytes"
| "body_type (V8Body b) = CtV8"

fun body_bytes :: "'j json_codec \<Rightarrow> 'j queueBody \<Rightarrow> string" where
  "body_bytes J (TextBody s) = s"
| "body_bytes J (JsonBody v) = json_stringify J v"
| "body_bytes J (BytesBody b) = b"
| "body_bytes J (V8Body b) = b"

definition reread :: "'j json_codec \<Rightarrow> 'j queueMessage \<Rightarrow> queueIncomingMessage" where
  "reread J m = \<lparr>in_contentType = body_type (msg_body m), in_delaySecs = None,
     in_body = body_bytes J (msg_body m), in_id = Some (msg_id m),
     in_timestamp = Some (msg_timestamp m)\<rparr>"

lemma schema_serialise: "QueueIncomingMessageSchema (serialise J m) = Inr (reread J m)"
  by (cases "msg_body m")
     (simp_all add: serialise_def QueueIncomingMessageSchema_def QueueContentTypeSchema_def
       QueueMessageDelaySchema_def reread_def)

lemma deserialise_reread:
  assumes "json_laws J" and "deserialise J i = Inr (msg_body m)"
  shows "deserialise J (reread J m) = Inr (msg_body m)"
proof (cases "msg_body m")
  case (TextBody s)
  with assms(2) have "bufferToString s = s"
    by (auto simp: deserialise_def bufferToString_id valid_text_bufferToString
        split: queueContentType.splits option.splits)
  with TextBody show ?thesis by (simp add: deserialise_def reread_def)
next
  case (JsonBody v)
  with assms(1) show ?thesis
    by (simp add: json_laws_def bufferToString_id deserialise_def reread_def)
qed (simp_all add: deserialise_def reread_def)

lemma incomingMessage_reread:
  assumes "json_laws J" and "deserialise J i = Inr (msg_body m)"
  shows "incomingMessage J r now (reread J m) = Inr (m\<lparr>failedAttempts := 0\<rparr>)"
  using deserialise_reread [OF assms]
  by (simp add: incomingMessage_def Let_def QueueMessage_def) (simp add: reread_def)

lemma schema_serialise_list:
  "QueuesBatchRequestSchema (map (serialise J) ms) = Inr (map (reread J) ms)"
  by (induction ms) (simp_all add: schema_serialise)

lemma enqueue_reread:
  assumes "json_laws J" and "\<forall>m \<in> set ms. \<exists>i. deserialise J i = Inr (msg_body m)"
  shows "fst (enqueue J rnd g n (map (reread J) ms) st)
      = Accepted (map (\<lambda>m. m\<lparr>failedAttempts := 0\<rparr>) ms)
    \<and> waiting (snd (enqueue J rnd g n (map (reread J) ms) st))
      = waiting st @ map (\<lambda>m. m\<lparr>failedAttempts := 0\<rparr>) ms"
  using assms(2)
proof (induction ms arbitrary: n st)
  case (Cons m ms)
  from Cons.prems obtain i where "deserialise J i = Inr (msg_body m)" by auto
  note m = incomingMessage_reread [OF assms(1) this, of "rnd n" "clock st"]
  let ?s = "snd (setTimeout (PushTask (m\<lparr>failedAttempts := 0\<rparr>)) (g * 1000) st)"
  have "in_delaySecs (reread J m) = None" by (simp add: reread_def)
  moreover have "waiting ?s = waiting st @ [m\<lparr>failedAttempts := 0\<rparr>]"
    by (simp add: waiting_def setTimeout_def)
  ultimately show ?case using Cons.IH [of "Suc n" ?s] Cons.prems m by (simp add: Let_def)
qed simp

end
