(* ===== verification/QueueTheorems.thy ===== *)
theory QueueTheorems
  imports QueueProperties
begin

text \<open>
  The properties of the queue broker, over all its runs: what happens to every message, how often
  it is delivered, that a flush is always on its way, what the dead letter queue receives and what
  requests are admitted.
\<close>

subsection \<open>An example run\<close>

definition ex_consumer :: queueConsumer where
  "ex_consumer = \<lparr>workerName = ''w'', maxBatchSize = Some 2, maxBatchTimeout = None,
     maxRetires = Some 1, deadLetterQueue = Some ''dlq'', retryDelay = Some 3\<rparr>"

definition ex_queueEnv :: queueEnv where
  "ex_queueEnv = \<lparr>producers = Map.empty, consumers = [''q'' \<mapsto> ex_consumer],
     serviceBindings = [''MINIFLARE_WORKER_w''], queueName = ''q''\<rparr>"

definition ex_queue_json :: "string json_codec" where
  "ex_queue_json = \<lparr>json_parse = (\<lambda>s. if s = [] then None else Some s), json_stringify = (\<lambda>v. v)\<rparr>"

definition ex_message :: "string queueMessage" where
  "ex_message = QueueMessage '''' 7 (V8Body ''hi'')"

definition ex_request ::
    "string broker \<Rightarrow> string queue_event \<times> string broker" where
  "ex_request = broker_message ex_queueEnv ex_queue_json (\<lambda>_. []) (\<lambda>_. []) [] ''hi''"

definition ex_accepted :: "string broker" where
  "ex_accepted = (broker_init 7)\<lparr>timeouts := [(0, 7, PushTask ex_message)], nextHandle := 1\<rparr>"

lemma ex_request: "ex_request (broker_init 7) = (Accepted [ex_message], ex_accepted)"
  by (simp add: ex_request_def broker_message_def validateMessageSize_def validateContentType_def
      validateMessageDelay_def exceeds_def parseInt_opt_def QueueContentTypeSchema_def
      maybeConsumer_def maybeProducer_def ex_queueEnv_def incomingMessage_def deserialise_def
      ex_message_def ex_accepted_def setTimeout_def broker_init_def default0_def bytes_hex_def)

definition ex_pushed :: "string broker" where
  "ex_pushed = pushMessage ex_consumer ex_message (removeTimer 0 ex_accepted)"

definition ex_late :: "string broker" where
  "ex_late = ex_pushed\<lparr>clock := 1007\<rparr>"

definition ex_flushing :: "string broker" where
  "ex_flushing = snd (flush_begin ex_queueEnv ex_consumer 1 (removeTimer 0 ex_late))"

definition ex_events :: "string queue_event list" where
  "ex_events = [Accepted [ex_message], Internal, Internal,
     fst (flush_begin ex_queueEnv ex_consumer 1 (removeTimer 0 ex_late))]"

lemma ex_accepted_timer:
  "0 < length (timeouts ex_accepted)" "timeouts ex_accepted ! 0 = (0, 7, PushTask ex_message)"
  "clock ex_accepted = 7"
  by (simp_all add: ex_accepted_def broker_init_def)

lemma ex_late_timer:
  "0 < length (timeouts ex_late)" "timeouts ex_late ! 0 = (1, 1007, FlushTask)"
  "clock ex_late = 1007" "clock ex_pushed = 7"
  by code_simp+

lemma ex_run_pushed:
  "queue_run ex_queueEnv ex_consumer ex_queue_json (broker_init 7) (butlast (butlast ex_events)) ex_pushed"
proof -
  note q = queue_run.run_step
  have r: "queue_step ex_queueEnv ex_consumer ex_queue_json (broker_init 7)
      (Accepted [ex_message]) ex_accepted"
    by (rule queue_step.message_request) (rule ex_request [unfolded ex_request_def])
  have p: "queue_step ex_queueEnv ex_consumer ex_queue_json ex_accepted Internal ex_pushed"
    unfolding ex_pushed_def
    by (rule queue_step.push_fires [OF ex_accepted_timer(1,2)]) (simp add: ex_accepted_timer)
  show ?thesis
    using q [OF q [OF queue_run.run_start r] p] by (simp add: ex_events_def)
qed

lemma ex_run:
  "queue_run ex_queueEnv ex_consumer ex_queue_json (broker_init 7) ex_events ex_flushing"
proof -
  note q = queue_run.run_step
  have t: "queue_step ex_queueEnv ex_consumer ex_queue_json ex_pushed Internal ex_late"
    unfolding ex_late_def by (rule queue_step.time_passes) (simp add: ex_late_timer)
  have f: "queue_step ex_queueEnv ex_consumer ex_queue_json ex_late
      (fst (flush_begin ex_queueEnv ex_consumer 1 (removeTimer 0 ex_late))) ex_flushing"
    unfolding ex_flushing_def
    by (rule queue_step.flush_fires [OF ex_late_timer(1,2) _ prod.collapse [symmetric]])
       (simp add: ex_late_timer)
  show ?thesis
    using q [OF q [OF ex_run_pushed t] f] by (simp add: ex_events_def)
qed

subsection \<open>Properties\<close>

text \<open>
  C21: conservation. In every run of a broker, whatever the requests, the replies and the order of
  the timers, the messages that requests brought in are exactly, with multiplicity, those still in
  the broker (in the queue, in a timer, in a running flush) and those that left it: acknowledged,
  dropped after the last attempt, or handed to the dead letter queue. None is lost and none
  duplicated.
\<close>

theorem queue_conserves_messages:
  assumes "queue_run env c J (broker_init t) evs st"
  shows "mset (map core (concat (map event_in evs)))
    = mset (map core (waiting st @ dispatched st @ condemned st))
      + mset (map core (concat (map event_out evs)))"
  using cores_run [OF assms] unfolding core_mset_def in_broker_def .

theorem queue_conserves_messages_witness:
  "queue_run ex_queueEnv ex_consumer ex_queue_json (broker_init 7) ex_events ex_flushing
   \<and> mset (map core (concat (map event_in ex_events)))
     = mset (map core (waiting ex_flushing @ dispatched ex_flushing @ condemned ex_flushing))
       + mset (map core (concat (map event_out ex_events)))
   \<and> dispatched ex_flushing = [ex_message]"
proof -
  have "dispatched ex_flushing = [ex_message]" by code_simp
  then show ?thesis using queue_conserves_messages [OF ex_run] ex_run by blast
qed

text \<open>
  C27: bounded delivery. In every run a message identifier is dispatched at most \<open>maxRetires + 1\<close>
  times for every message accepted under it. Every message waiting or in flight has attempts left,
  and a message is condemned to the dead letter queue only after exactly that many attempts.
\<close>

theorem queue_delivery_bounded:
  assumes "queue_run env c J (broker_init t) evs st"
  shows "count_list (map msg_id (concat (map event_deliveries evs))) k
      \<le> maxAttemptsOf c * count_list (map msg_id (concat (map event_in evs))) k
    \<and> (\<forall>m \<in> set (waiting st) \<union> set (dispatched st). failedAttempts m < maxAttemptsOf c)
    \<and> (\<forall>m \<in> set (condemned st). failedAttempts m = maxAttemptsOf c)"
  using deliveries_run [OF assms, of k] attempts_ok_waiting [OF attempts_ok_run [OF assms]]
    attempts_ok_condemned [OF attempts_ok_run [OF assms]]
  by (simp add: occurrences_def)

theorem queue_delivery_bounded_witness:
  "count_list (map msg_id (concat (map event_deliveries ex_events))) ''''
      \<le> maxAttemptsOf ex_consumer * count_list (map msg_id (concat (map event_in ex_events))) ''''
   \<and> failedAttempts ex_message < maxAttemptsOf ex_consumer
   \<and> count_list (map msg_id (concat (map event_deliveries ex_events))) '''' = 1"
proof -
  have d: "ex_message \<in> set (waiting ex_flushing) \<union> set (dispatched ex_flushing)" by code_simp
  have "count_list (map msg_id (concat (map event_deliveries ex_events))) '''' = 1" by code_simp
  then show ?thesis
    using queue_delivery_bounded [OF ex_run, of "''''"] d by blast
qed

text \<open>
  C28: the queue never stalls. Whenever messages wait in a queue a flush is registered, and either
  its timer is set, due within the batch timeout, or that flush is already running. Once the
  messages fill a batch the registered flush is an immediate one: its timer is due now.
\<close>

theorem queue_flush_scheduled:
  assumes "queue_run env c J (broker_init t) evs st" and "messages st \<noteq> []"
  obtains p where "pending st = Some p"
    and "(\<exists>due. (timeout p, due, FlushTask) \<in> set (timeouts st)
            \<and> due \<le> clock st + (if immediate p then 0 else max 0 (batchTimeoutOf c * 1000)))
         \<or> timeout p \<in> fl_timer ` set (flushes st)"
    and "batchSizeOf c \<le> length (messages st) \<longrightarrow> immediate p"
proof -
  have "flush_scheduled c st" by (rule scheduled_run [OF assms(1)])
  moreover from this assms(2) obtain p where "pending st = Some p"
    unfolding flush_scheduled_def by blast
  ultimately show thesis using that [of p] assms(2) unfolding flush_scheduled_def by auto
qed

theorem queue_flush_scheduled_witness:
  "messages ex_pushed = [ex_message]
   \<and> (\<exists>p. pending ex_pushed = Some p \<and> (batchSizeOf ex_consumer \<le> length (messages ex_pushed) \<longrightarrow> immediate p))"
proof -
  have m: "messages ex_pushed = [ex_message]" by code_simp
  then have "messages ex_pushed \<noteq> []" by simp
  from queue_flush_scheduled [OF ex_run_pushed this] m show ?thesis by metis
qed

text \<open>
  dead lettering keeps the message. Posting the batch that a flush sends to its dead letter
  queue to a broker with a consumer is accepted as a whole and schedules exactly those messages,
  in order, with the identifier, timestamp and body they had and a fresh attempt counter, provided
  \<open>JSON.parse\<close> inverts \<open>JSON.stringify\<close>. The bodies are those that requests brought in.
\<close>

theorem dead_letter_roundtrip:
  assumes "json_laws J" and "\<forall>m \<in> set ms. \<exists>i. deserialise J i = Inr (msg_body m)"
    and "maybeConsumer env = Some c"
  shows "fst (broker_batch env J zodText rnd [] (map (serialise J) ms) st)
      = Accepted (map (\<lambda>m. m\<lparr>failedAttempts := 0\<rparr>) ms)
    \<and> waiting (snd (broker_batch env J zodText rnd [] (map (serialise J) ms) st))
      = waiting st @ map (\<lambda>m. m\<lparr>failedAttempts := 0\<rparr>) ms"
  using enqueue_reread [OF assms(1,2)] assms(3)
  by (simp add: broker_batch_def validateBatchSize_def exceeds_def parseInt_opt_def
      validateMessageDelay_def schema_serialise_list)

definition ex_bool_json :: "bool json_codec" where
  "ex_bool_json = \<lparr>json_parse = (\<lambda>s. if s = ''true'' then Some True else if s = ''false'' then Some False
     else None), json_stringify = (\<lambda>v. if v then ''true'' else ''false'')\<rparr>"

definition ex_failed :: "bool queueMessage" where
  "ex_failed = (QueueMessage ''a'' 7 (JsonBody True))\<lparr>failedAttempts := 2\<rparr>"

theorem dead_letter_roundtrip_witness:
  "fst (broker_batch ex_queueEnv ex_bool_json (\<lambda>_. []) (\<lambda>_. []) [] (map (serialise ex_bool_json) [ex_failed])
      (broker_init 9)) = Accepted [ex_failed\<lparr>failedAttempts := 0\<rparr>]
   \<and> waiting (snd (broker_batch ex_queueEnv ex_bool_json (\<lambda>_. []) (\<lambda>_. []) []
      (map (serialise ex_bool_json) [ex_failed]) (broker_init 9))) = [ex_failed\<lparr>failedAttempts := 0\<rparr>]"
proof -
  have "valid_text ''true''" "valid_text ''false''" by code_simp+
  then have laws: "json_laws ex_bool_json" by (simp add: json_laws_def ex_bool_json_def)
  have "deserialise ex_bool_json \<lparr>in_contentType = CtJson, in_delaySecs = None, in_body = ''true'',
      in_id = None, in_timestamp = None\<rparr> = Inr (msg_body ex_failed)"
    by code_simp
  then have bodies: "\<forall>m \<in> set [ex_failed]. \<exists>i. deserialise ex_bool_json i = Inr (msg_body m)"
    by auto
  have "maybeConsumer ex_queueEnv = Some ex_consumer"
    by (simp add: maybeConsumer_def ex_queueEnv_def)
  note r = dead_letter_roundtrip [OF laws bodies this, of "\<lambda>_. []" "\<lambda>_. []" "broker_init 9"]
  have "waiting (broker_init 9 :: bool broker) = []" by (simp add: waiting_def broker_init_def)
  with r show ?thesis by simp
qed

text \<open>
  a batch size of zero. The schema of the consumer's options admits \<open>maxBatchSize: 0\<close>, and
  with it no run ever delivers a message: every flush extracts an empty batch.
\<close>

theorem queue_zero_batch_stalls:
  assumes "queue_run env c J (broker_init t) evs st" and "maxBatchSize c = Some 0"
  shows "concat (map event_deliveries evs) = []"
proof -
  have z: "batchSizeOf c = 0" using assms(2) by (simp add: batchSizeOf_def)
  have step: "event_deliveries ev = []" if "queue_step env c J s ev s'" for s ev s'
    using that
  proof cases
    case (message_request zt rnd hs b)
    then show ?thesis using cores.total_requests by fastforce
  next
    case (batch_request zt rnd hs ms)
    then show ?thesis using cores.total_requests by fastforce
  next
    case (flush_fires i h due)
    then show ?thesis using z by (auto simp: flush_begin_def Let_def)
  next
    case (message_settled i)
    then show ?thesis by (auto simp: flush_message_def Let_def split: if_splits)
  next
    case (flush_finishes i)
    then show ?thesis by (auto simp: flush_end_def Let_def split: if_splits)
  qed simp_all
  show "concat (map event_deliveries evs) = []"
    using assms(1) by induction (auto dest: step)
qed

theorem queue_zero_batch_stalls_witness:
  "QueueConsumerSchema (ex_consumer\<lparr>maxBatchSize := Some 0\<rparr>)
   \<and> queue_run ex_queueEnv (ex_consumer\<lparr>maxBatchSize := Some 0\<rparr>) ex_queue_json (broker_init 7)
       [Accepted [ex_message]] ex_accepted
   \<and> concat (map event_deliveries [Accepted [ex_message]]) = []"
proof -
  let ?c = "ex_consumer\<lparr>maxBatchSize := Some 0\<rparr>"
  have "queue_step ex_queueEnv ?c ex_queue_json (broker_init 7) (Accepted [ex_message]) ex_accepted"
    by (rule queue_step.message_request) (rule ex_request [unfolded ex_request_def])
  from queue_run.run_step [OF queue_run.run_start this]
  have r: "queue_run ex_queueEnv ?c ex_queue_json (broker_init 7) [Accepted [ex_message]] ex_accepted"
    by simp
  have "QueueConsumerSchema ?c"
    by (simp add: QueueConsumerSchema_def ex_consumer_def QueueMessageDelaySchema_def)
  then show ?thesis using r queue_zero_batch_stalls [OF r] by simp
qed

text \<open>
  Batch admission. A batch request passes the size check exactly when none of the three
  announced sizes exceeds its limit: 100 messages, 128000 bytes for the largest message and 288000
  bytes for the batch; otherwise it fails with status 413. The text of the last error names a
  limit of 256000, which is not the limit that is enforced.
\<close>

theorem queue_batch_limits:
  "(validateBatchSize hs = Inr ()
     \<longleftrightarrow> (case parseInt_opt (map_of hs ''CF-Queue-Batch-Count'') of None \<Rightarrow> True | Some n \<Rightarrow> n \<le> 100)
       \<and> (case parseInt_opt (map_of hs ''CF-Queue-Largest-Msg'') of None \<Rightarrow> True | Some n \<Rightarrow> n \<le> 128000)
       \<and> (case parseInt_opt (map_of hs ''CF-Queue-Batch-Bytes'') of None \<Rightarrow> True | Some n \<Rightarrow> n \<le> 288000))
   \<and> (validateBatchSize hs = Inr () \<or> (\<exists>msg. validateBatchSize hs = Inl (HttpError 413 msg)))
   \<and> validateBatchSize [(''CF-Queue-Batch-Bytes'', show_int 288001)]
     = Inl (HttpError 413 (''batch size of '' @ show_int 288001 @ '' bytes exceeds limit of 256000''))"
proof (intro conjI)
  show "validateBatchSize [(''CF-Queue-Batch-Bytes'', show_int 288001)]
     = Inl (HttpError 413 (''batch size of '' @ show_int 288001 @ '' bytes exceeds limit of 256000''))"
    by (simp add: validateBatchSize_def exceeds_def parseInt_opt_def queue_limits
        PayloadTooLargeError_def)
  show "validateBatchSize hs = Inr () \<or> (\<exists>msg. validateBatchSize hs = Inl (HttpError 413 msg))"
    by (auto simp: validateBatchSize_def check_def PayloadTooLargeError_def Let_def)
qed (auto simp: validateBatchSize_def exceeds_def queue_limits Let_def split: option.splits)

end
