(* ===== verification/Ratelimit.thy ===== *)
theory Ratelimit
  imports Prelude
begin

text \<open>
  The simulator of the rate limiting binding, \<^verbatim>\<open>miniflare/src/workers/ratelimit/ratelimit.worker.ts\<close>:
  one counter per key, all of them cleared when the epoch of a call differs from the epoch of the
  call before. The clock and the options of every call are arbitrary inputs.
\<close>

datatype js_value = JString string | JNumber int | JOther string

record ratelimitConfig =
  namespaceId :: int
  limit :: int
  period :: int

record ratelimit =
  rl_namespaceId :: int
  limitVal :: int
  rl_period :: int
  buckets :: "string \<rightharpoonup> nat"
  epoch :: int

definition RatelimitOptionKeys :: "string list" where
  "RatelimitOptionKeys = [''key'', ''limit'', ''period'']"

definition RatelimitPeriodValues :: "int list" where
  "RatelimitPeriodValues = [10, 60]"

text \<open>A thrown \<open>Error\<close> is its message.\<close>

definition validate :: "bool \<Rightarrow> string \<Rightarrow> string + unit" where
  "validate test message = check test message"

definition newRatelimit :: "ratelimitConfig \<Rightarrow> ratelimit" where
  "newRatelimit config =
     \<lparr>rl_namespaceId = namespaceId config, limitVal = limit config, rl_period = period config,
      buckets = Map.empty, epoch = 0\<rparr>"

text \<open>How a template literal shows a value.\<close>

fun show_value :: "js_value \<Rightarrow> string" where
  "show_value (JString s) = s"
| "show_value (JNumber n) = show_int n"
| "show_value (JOther s) = s"

text \<open>The counting, once the options are read: the result and the new state.\<close>

definition count_call :: "int \<Rightarrow> string \<Rightarrow> int \<Rightarrow> int \<Rightarrow> ratelimit \<Rightarrow> bool \<times> ratelimit" where
  "count_call now key lim per st =
     (let e = now div (per * 1000);
          st1 = (if e \<noteq> epoch st then st\<lparr>epoch := e, buckets := Map.empty\<rparr> else st);
          v = (case buckets st1 key of None \<Rightarrow> 0 | Some n \<Rightarrow> n)
      in if lim \<le> int v then (False, st1)
         else (True, st1\<lparr>buckets := (buckets st1)(key \<mapsto> v + 1)\<rparr>))"

text \<open>
  The options: the own properties of the object in order, or \<^const>\<open>None\<close> when the argument is not
  an object. A property that is absent takes its default.
\<close>

definition readOptions ::
    "(string \<times> js_value) list option \<Rightarrow> ratelimit \<Rightarrow> string + (string \<times> int \<times> int)" where
  "readOptions options st =
     (case options of
        None \<Rightarrow> Inl ''invalid rate limit options''
      | Some props \<Rightarrow>
          let invalidProps = filter (\<lambda>k. k \<notin> set RatelimitOptionKeys) (map fst props);
              key = (case map_of props ''key'' of None \<Rightarrow> JString [] | Some v \<Rightarrow> v);
              lim = (case map_of props ''limit'' of None \<Rightarrow> JNumber (limitVal st) | Some v \<Rightarrow> v);
              per = (case map_of props ''period'' of None \<Rightarrow> JNumber (rl_period st) | Some v \<Rightarrow> v)
          in andThen (validate (invalidProps = [])
               (''bad rate limit options: ['' @ join_with '','' invalidProps @ '']'')) (\<lambda>_.
             case key of
               JString k \<Rightarrow>
                 (case lim of
                    JNumber l \<Rightarrow>
                      (case per of
                         JNumber p \<Rightarrow>
                           andThen (validate (p \<in> set RatelimitPeriodValues)
                             (''unsupported period: '' @ show_int p)) (\<lambda>_. Inr (k, l, p))
                       | _ \<Rightarrow> Inl (''period must be a number: '' @ show_value per))
                  | _ \<Rightarrow> Inl (''limit must be a number: '' @ show_value lim))
             | _ \<Rightarrow> Inl (''invalid key: '' @ show_value key)))"

definition ratelimit_limit ::
    "int \<Rightarrow> (string \<times> js_value) list option \<Rightarrow> ratelimit \<Rightarrow> (string + bool) \<times> ratelimit" where
  "ratelimit_limit now options st =
     (case readOptions options st of
        Inl e \<Rightarrow> (Inl e, st)
      | Inr (k, l, p) \<Rightarrow> (let r = count_call now k l p st in (Inr (fst r), snd r)))"

text \<open>A history of calls, each with its time and options; the results in order.\<close>

fun ratelimit_calls ::
    "(int \<times> (string \<times> js_value) list option) list \<Rightarrow> ratelimit \<Rightarrow> (string + bool) list \<times> ratelimit" where
  "ratelimit_calls [] st = ([], st)"
| "ratelimit_calls ((now, opts) # cs) st =
     (let r = ratelimit_limit now opts st; rest = ratelimit_calls cs (snd r)
      in (fst r # fst rest, snd rest))"

subsection \<open>Counting\<close>

text \<open>The calls for a key with the binding's own limit and period, all within one epoch.\<close>

definition plain_options :: "string \<Rightarrow> (string \<times> js_value) list option" where
  "plain_options k = Some [(''key'', JString k)]"

definition successes :: "string \<Rightarrow> string list \<Rightarrow> (string + bool) list \<Rightarrow> nat" where
  "successes k ks rs = length (filter (\<lambda>(k', r). k' = k \<and> r = Inr True) (zip ks rs))"

definition counter :: "string \<Rightarrow> ratelimit \<Rightarrow> nat" where
  "counter k st = (case buckets st k of None \<Rightarrow> 0 | Some n \<Rightarrow> n)"

lemma plain_limit:
  assumes "rl_period st \<in> set RatelimitPeriodValues" and "now div (rl_period st * 1000) = epoch st"
  shows "ratelimit_limit now (plain_options k) st =
    (if limitVal st \<le> int (counter k st) then (Inr False, st)
     else (Inr True, st\<lparr>buckets := (buckets st)(k \<mapsto> counter k st + 1)\<rparr>))"
  using assms
  by (auto simp: ratelimit_limit_def readOptions_def plain_options_def validate_def
      RatelimitOptionKeys_def count_call_def counter_def Let_def)

lemma plain_calls:
  assumes "rl_period st \<in> set RatelimitPeriodValues"
    and "\<forall>t \<in> fst ` set cs. t div (rl_period st * 1000) = epoch st"
    and "int (counter k st) \<le> limitVal st"
  shows "counter k st
      + successes k (map snd cs) (fst (ratelimit_calls (map (\<lambda>(t, k). (t, plain_options k)) cs) st))
    = min (counter k st + count_list (map snd cs) k) (nat (limitVal st))"
  using assms
proof (induction cs arbitrary: st)
  case Nil
  then show ?case by (simp add: successes_def)
next
  case (Cons a cs)
  obtain t k' where a: "a = (t, k')" by (cases a)
  let ?r = "ratelimit_limit t (plain_options k') st"
  let ?rest = "fst (ratelimit_calls (map (\<lambda>(t, k). (t, plain_options k)) cs) (snd ?r))"
  have e: "t div (rl_period st * 1000) = epoch st" using Cons.prems(2) a by simp
  note r = plain_limit [OF Cons.prems(1) e, of k']
  have c: "counter k (snd ?r) = counter k st + of_bool (k' = k \<and> fst ?r = Inr True)"
    by (simp add: r) (simp add: counter_def)
  have s: "successes k (map snd (a # cs))
      (fst (ratelimit_calls (map (\<lambda>(t, k). (t, plain_options k)) (a # cs)) st))
      = of_bool (k' = k \<and> fst ?r = Inr True) + successes k (map snd cs) ?rest"
    by (simp add: a Let_def successes_def)
  have "int (counter k (snd ?r)) \<le> limitVal (snd ?r)"
    using Cons.prems(3) unfolding c by (auto simp: r)
  moreover have "rl_period (snd ?r) = rl_period st" "epoch (snd ?r) = epoch st"
    "limitVal (snd ?r) = limitVal st"
    by (simp_all add: r)
  ultimately have "counter k (snd ?r) + successes k (map snd cs) ?rest
      = min (counter k (snd ?r) + count_list (map snd cs) k) (nat (limitVal st))"
    using Cons.IH [of "snd ?r"] Cons.prems(1,2) by simp
  then show ?case
    using Cons.prems(3) unfolding s c by (auto simp: a r)
qed

text \<open>A call in another epoch starts from cleared counters.\<close>

lemma epoch_change:
  assumes "now div (rl_period st * 1000) \<noteq> epoch st"
    and "rl_period st \<in> set RatelimitPeriodValues"
  shows "ratelimit_limit now (plain_options k) st = ratelimit_limit now (plain_options k)
    (st\<lparr>epoch := now div (rl_period st * 1000), buckets := Map.empty\<rparr>)"
  using assms
  by (auto simp: ratelimit_limit_def readOptions_def plain_options_def validate_def
      RatelimitOptionKeys_def count_call_def Let_def)

text \<open>
  exact limiting. The calls of one epoch, with the binding's own limit and period, each for
  some key, after a call in another epoch: for every key exactly the first \<open>limit\<close> of its calls
  succeed, whatever calls for other keys come in between.
\<close>

theorem ratelimit_exact:
  assumes "rl_period st \<in> set RatelimitPeriodValues" and "0 \<le> limitVal st"
    and "\<forall>t \<in> fst ` set cs. t div (rl_period st * 1000) = e" and "e \<noteq> epoch st"
  shows "successes k (map snd cs) (fst (ratelimit_calls (map (\<lambda>(t, k). (t, plain_options k)) cs) st))
    = min (count_list (map snd cs) k) (nat (limitVal st))"
proof (cases cs)
  case Nil
  then show ?thesis by (simp add: successes_def)
next
  case (Cons a cs')
  obtain t k' where a: "a = (t, k')" by (cases a)
  let ?s = "st\<lparr>epoch := e, buckets := Map.empty\<rparr>"
  have "ratelimit_calls (map (\<lambda>(t, k). (t, plain_options k)) cs) st
      = ratelimit_calls (map (\<lambda>(t, k). (t, plain_options k)) cs) ?s"
    using epoch_change [of t st k'] assms Cons a by simp
  moreover have "counter k ?s = 0" by (simp add: counter_def)
  ultimately show ?thesis using plain_calls [of ?s cs k] assms by simp
qed

definition ex_ratelimit :: ratelimit where
  "ex_ratelimit = newRatelimit \<lparr>namespaceId = 1, limit = 2, period = 10\<rparr>"

theorem ratelimit_exact_witness:
  "successes ''a'' [''a'', ''b'', ''a'', ''a''] (fst (ratelimit_calls
      (map (\<lambda>(t, k). (t, plain_options k))
        [(20000, ''a''), (20001, ''b''), (25000, ''a''), (29999, ''a'')]) ex_ratelimit)) = 2"
  using ratelimit_exact [of ex_ratelimit
      "[(20000, ''a''), (20001, ''b''), (25000, ''a''), (29999, ''a'')]" 2 "''a''"]
  by (simp add: ex_ratelimit_def newRatelimit_def RatelimitPeriodValues_def)

text \<open>
  The epoch does not record the period it was computed with: calls that alternate between the two
  periods clear the counters every time and are never limited.
\<close>

lemma mixed_periods_never_limit:
  assumes "0 < l" and "now div 10000 \<noteq> now div 60000" and "epoch st = now div 60000"
  shows "fst (count_call now k l 10 st) = True
    \<and> fst (count_call now k l 60 (snd (count_call now k l 10 st))) = True
    \<and> epoch (snd (count_call now k l 60 (snd (count_call now k l 10 st)))) = now div 60000"
  using assms by (auto simp: count_call_def Let_def)

lemma values_error:
  "(\<exists>e. (case key of
        JString k \<Rightarrow>
          (case lim of
             JNumber l \<Rightarrow>
               (case per of
                  JNumber p \<Rightarrow> andThen (validate (p \<in> set RatelimitPeriodValues) (m p)) (\<lambda>_. Inr (k, l, p))
                | _ \<Rightarrow> Inl a)
           | _ \<Rightarrow> Inl b)
      | _ \<Rightarrow> Inl c) = Inl e)
   \<longleftrightarrow> (\<forall>s. key \<noteq> JString s) \<or> (\<forall>n. lim \<noteq> JNumber n) \<or> per \<noteq> JNumber 10 \<and> per \<noteq> JNumber 60"
  by (cases key; cases lim; cases per) (auto simp: validate_def check_def RatelimitPeriodValues_def)

lemma readOptions_error:
  "(\<exists>e. readOptions (Some props) st = Inl e) \<longleftrightarrow>
     \<not> fst ` set props \<subseteq> set RatelimitOptionKeys
     \<or> (\<exists>v. map_of props ''key'' = Some v \<and> (\<forall>s. v \<noteq> JString s))
     \<or> (\<exists>v. map_of props ''limit'' = Some v \<and> (\<forall>n. v \<noteq> JNumber n))
     \<or> (case map_of props ''period'' of
          None \<Rightarrow> rl_period st \<noteq> 10 \<and> rl_period st \<noteq> 60
        | Some v \<Rightarrow> v \<noteq> JNumber 10 \<and> v \<noteq> JNumber 60)"
proof (cases "fst ` set props \<subseteq> set RatelimitOptionKeys")
  case True
  then have "filter (\<lambda>k. k \<notin> set RatelimitOptionKeys) (map fst props) = []" by (auto simp: filter_empty_conv)
  with True show ?thesis
    unfolding readOptions_def option.case Let_def validate_def [of "_ = []"]
    by (simp only: check_def simp_thms if_True andThen_simps values_error) (auto split: option.splits)
next
  case False
  then have "filter (\<lambda>k. k \<notin> set RatelimitOptionKeys) (map fst props) \<noteq> []" by (auto simp: filter_empty_conv)
  with False show ?thesis by (simp add: readOptions_def Let_def validate_def check_def)
qed

text \<open>
  Errors of the rate limiter. A call fails exactly when its options are not an object, have a
  property that is not an option, have a value of the wrong type or a period other than 10 and 60;
  a failed call leaves every counter as it was.
\<close>

theorem ratelimit_option_errors:
  "((\<exists>e. fst (ratelimit_limit now options st) = Inl e) \<longleftrightarrow>
     (case options of
        None \<Rightarrow> True
      | Some props \<Rightarrow>
          \<not> fst ` set props \<subseteq> {''key'', ''limit'', ''period''}
          \<or> (\<exists>v. map_of props ''key'' = Some v \<and> (\<forall>s. v \<noteq> JString s))
          \<or> (\<exists>v. map_of props ''limit'' = Some v \<and> (\<forall>n. v \<noteq> JNumber n))
          \<or> (case map_of props ''period'' of
               None \<Rightarrow> rl_period st \<noteq> 10 \<and> rl_period st \<noteq> 60
             | Some v \<Rightarrow> v \<noteq> JNumber 10 \<and> v \<noteq> JNumber 60)))
   \<and> ((\<exists>e. fst (ratelimit_limit now options st) = Inl e)
        \<longrightarrow> snd (ratelimit_limit now options st) = st)"
proof (cases options)
  case None
  then show ?thesis by (simp add: ratelimit_limit_def readOptions_def)
next
  case (Some props)
  have "(\<exists>e. fst (ratelimit_limit now options st) = Inl e) \<longleftrightarrow> (\<exists>e. readOptions (Some props) st = Inl e)"
    and "(\<exists>e. fst (ratelimit_limit now options st) = Inl e) \<longrightarrow> snd (ratelimit_limit now options st) = st"
    by (simp_all add: ratelimit_limit_def Some Let_def split: sum.split)
  then show ?thesis
    unfolding readOptions_error Some option.case RatelimitOptionKeys_def list.set by blast
qed

theorem ratelimit_option_errors_witness:
  "(\<exists>e. fst (ratelimit_limit 0 (Some [(''key'', JNumber 1)]) ex_ratelimit) = Inl e)
   \<and> snd (ratelimit_limit 0 (Some [(''key'', JNumber 1)]) ex_ratelimit) = ex_ratelimit"
  using ratelimit_option_errors [of 0 "Some [(''key'', JNumber 1)]" ex_ratelimit] by auto

end
