(* ===== verification/Sync.thy ===== *)
theory Sync
  imports Prelude
begin

text \<open>
  The synchronisation primitives of \<^verbatim>\<open>miniflare/src/workers/shared/sync.ts\<close>: \<open>Mutex\<close> and
  \<open>WaitGroup\<close>. A resolver in a queue is the number of the task that awaits its promise.

  The tasks that call \<open>runWith\<close> form a transition system: a task asks for the lock, holds it from
  the moment \<open>lock\<close> returned or its resolver was called, and unlocks when its closure has ended,
  normally or not (the \<open>finally\<close> block). The system records in which order tasks asked for the
  lock and in which order they got it.
\<close>

type_synonym task_id = nat

subsection \<open>Mutex\<close>

record mutex =
  locked :: bool
  resolveQueue :: "task_id list"
  drainQueue :: "task_id list"

definition newMutex :: mutex where
  "newMutex = \<lparr>locked = False, resolveQueue = [], drainQueue = []\<rparr>"

text \<open>Whether the lock was free, so that no promise has to be awaited.\<close>

definition mutex_lock :: "task_id \<Rightarrow> mutex \<Rightarrow> bool \<times> mutex" where
  "mutex_lock t m =
     (if \<not> locked m then (True, m\<lparr>locked := True\<rparr>)
      else (False, m\<lparr>resolveQueue := resolveQueue m @ [t]\<rparr>))"

text \<open>The resolvers that are called: the next task, or everyone who awaits \<open>drained\<close>.\<close>

definition mutex_unlock :: "mutex \<Rightarrow> (task_id option \<times> task_id list \<times> mutex) res" where
  "mutex_unlock m =
     (if \<not> locked m then Inl AssertionError
      else (case resolveQueue m of
              t # ts \<Rightarrow> Inr (Some t, [], m\<lparr>resolveQueue := ts\<rparr>)
            | [] \<Rightarrow> Inr (None, drainQueue m, m\<lparr>locked := False, drainQueue := []\<rparr>)))"

definition hasWaiting :: "mutex \<Rightarrow> bool" where
  "hasWaiting m \<longleftrightarrow> resolveQueue m \<noteq> []"

definition mutex_drained :: "task_id \<Rightarrow> mutex \<Rightarrow> bool \<times> mutex" where
  "mutex_drained t m =
     (if resolveQueue m = [] \<and> \<not> locked m then (True, m)
      else (False, m\<lparr>drainQueue := drainQueue m @ [t]\<rparr>))"

subsection \<open>Tasks that share a mutex\<close>

record mutex_system =
  mx :: mutex
  holders :: "task_id list"
  asked :: "task_id list"
  granted :: "task_id list"
  drained_now :: "task_id list"

definition mutex_start :: mutex_system where
  "mutex_start = \<lparr>mx = newMutex, holders = [], asked = [], granted = [], drained_now = []\<rparr>"

definition ask :: "task_id \<Rightarrow> mutex_system \<Rightarrow> mutex_system" where
  "ask t s =
     (let r = mutex_lock t (mx s) in
      s\<lparr>mx := snd r, asked := asked s @ [t],
        holders := holders s @ (if fst r then [t] else []),
        granted := granted s @ (if fst r then [t] else [])\<rparr>)"

definition release :: "task_id \<Rightarrow> mutex_system \<Rightarrow> mutex_system res" where
  "release t s =
     andThen (mutex_unlock (mx s)) (\<lambda>(next, woken, m).
       let got = (case next of None \<Rightarrow> [] | Some t' \<Rightarrow> [t'])
       in Inr (s\<lparr>mx := m, holders := remove1 t (holders s) @ got, granted := granted s @ got,
                 drained_now := drained_now s @ woken\<rparr>))"

definition ask_drained :: "task_id \<Rightarrow> mutex_system \<Rightarrow> mutex_system" where
  "ask_drained t s =
     (let r = mutex_drained t (mx s) in
      s\<lparr>mx := snd r, drained_now := drained_now s @ (if fst r then [t] else [])\<rparr>)"

inductive mutex_reachable :: "mutex_system \<Rightarrow> bool" where
  mutex_init: "mutex_reachable mutex_start"
| mutex_ask: "mutex_reachable s \<Longrightarrow> mutex_reachable (ask t s)"
| mutex_release: "mutex_reachable s \<Longrightarrow> t \<in> set (holders s) \<Longrightarrow> release t s = Inr s'
    \<Longrightarrow> mutex_reachable s'"
| mutex_drain: "mutex_reachable s \<Longrightarrow> mutex_reachable (ask_drained t s)"

definition mutex_inv :: "mutex_system \<Rightarrow> bool" where
  "mutex_inv s \<longleftrightarrow>
     length (holders s) = of_bool (locked (mx s))
     \<and> (\<not> locked (mx s) \<longrightarrow> resolveQueue (mx s) = [] \<and> drainQueue (mx s) = [])
     \<and> asked s = granted s @ resolveQueue (mx s)"

lemma single_holder:
  assumes "mutex_inv s" and "t \<in> set (holders s)"
  shows "holders s = [t]" and "locked (mx s)"
  using assms by (cases "locked (mx s)"; cases "holders s"; auto simp: mutex_inv_def)+

lemma mutex_inv_release:
  assumes "mutex_inv s" and "t \<in> set (holders s)" and "release t s = Inr s'"
  shows "mutex_inv s'"
  using assms single_holder [OF assms(1,2)]
  by (auto simp: mutex_inv_def release_def mutex_unlock_def Let_def split: list.splits)

lemma mutex_inv_reachable: "mutex_reachable s \<Longrightarrow> mutex_inv s"
proof (induction rule: mutex_reachable.induct)
  case mutex_init
  show ?case by (simp add: mutex_inv_def mutex_start_def newMutex_def)
next
  case (mutex_ask s t)
  then show ?case
    by (cases "locked (mx s)") (simp_all add: mutex_inv_def ask_def mutex_lock_def)
next
  case (mutex_release s t s')
  then show ?case using mutex_inv_release by blast
next
  case (mutex_drain s t)
  then show ?case
    by (cases "locked (mx s)") (simp_all add: mutex_inv_def ask_drained_def mutex_drained_def)
qed

text \<open>
  C29: the mutex. In every reachable state at most one task holds the lock; tasks get it in the
  order in which they asked for it, so the ones that asked and do not have had it are exactly the
  queue; the assertion in \<open>unlock\<close> never fails for a holder; and a release hands the lock to the
  first task of the queue, or frees it and resolves everyone who waits for it to drain.
\<close>

theorem mutex_exclusive_fifo:
  assumes "mutex_reachable s"
  shows "length (holders s) \<le> 1
    \<and> asked s = granted s @ resolveQueue (mx s)
    \<and> (\<forall>t \<in> set (holders s). \<exists>s'. release t s = Inr s' \<and>
      (case resolveQueue (mx s) of
         [] \<Rightarrow> holders s' = [] \<and> drained_now s' = drained_now s @ drainQueue (mx s)
       | u # us \<Rightarrow> holders s' = [u] \<and> resolveQueue (mx s') = us \<and> drained_now s' = drained_now s))"
proof (intro conjI ballI)
  have inv: "mutex_inv s" by (rule mutex_inv_reachable [OF assms])
  then show "length (holders s) \<le> 1" and "asked s = granted s @ resolveQueue (mx s)"
    by (auto simp: mutex_inv_def)
  fix t assume "t \<in> set (holders s)"
  from single_holder [OF inv this]
  show "\<exists>s'. release t s = Inr s' \<and>
      (case resolveQueue (mx s) of
         [] \<Rightarrow> holders s' = [] \<and> drained_now s' = drained_now s @ drainQueue (mx s)
       | u # us \<Rightarrow> holders s' = [u] \<and> resolveQueue (mx s') = us \<and> drained_now s' = drained_now s)"
    by (cases "resolveQueue (mx s)") (simp_all add: release_def mutex_unlock_def Let_def)
qed

theorem mutex_exclusive_fifo_witness:
  "holders (ask 2 (ask 1 mutex_start)) = [1]
   \<and> length (holders (ask 2 (ask 1 mutex_start))) \<le> 1
   \<and> asked (ask 2 (ask 1 mutex_start)) = granted (ask 2 (ask 1 mutex_start)) @ [2]
   \<and> (\<exists>s'. release 1 (ask 2 (ask 1 mutex_start)) = Inr s' \<and> holders s' = [2])"
proof -
  have r: "mutex_reachable (ask 2 (ask 1 mutex_start))"
    by (intro mutex_reachable.intros)
  have h: "holders (ask 2 (ask 1 mutex_start)) = [1]"
    and q: "resolveQueue (mx (ask 2 (ask 1 mutex_start))) = [2]"
    by code_simp+
  show ?thesis
    using mutex_exclusive_fifo [OF r] h q by auto
qed

subsection \<open>WaitGroup\<close>

record waitGroup =
  wg_counter :: nat
  wg_resolveQueue :: "task_id list"

definition newWaitGroup :: waitGroup where
  "newWaitGroup = \<lparr>wg_counter = 0, wg_resolveQueue = []\<rparr>"

definition wg_add :: "waitGroup \<Rightarrow> waitGroup" where
  "wg_add w = w\<lparr>wg_counter := wg_counter w + 1\<rparr>"

text \<open>\<open>done\<close> and the resolvers it calls.\<close>

definition wg_done :: "waitGroup \<Rightarrow> (task_id list \<times> waitGroup) res" where
  "wg_done w =
     (if wg_counter w = 0 then Inl AssertionError
      else let w1 = w\<lparr>wg_counter := wg_counter w - 1\<rparr> in
           Inr (if wg_counter w1 = 0 then (wg_resolveQueue w1, w1\<lparr>wg_resolveQueue := []\<rparr>)
                else ([], w1)))"

definition wg_wait :: "task_id \<Rightarrow> waitGroup \<Rightarrow> bool \<times> waitGroup" where
  "wg_wait t w =
     (if wg_counter w = 0 then (True, w)
      else (False, w\<lparr>wg_resolveQueue := wg_resolveQueue w @ [t]\<rparr>))"

datatype wg_call = Add | Done | Wait task_id

text \<open>A sequence of calls; the answer lists, per call, the tasks that may go on.\<close>

fun wg_calls :: "wg_call list \<Rightarrow> waitGroup \<Rightarrow> (task_id list list \<times> waitGroup) res" where
  "wg_calls [] w = Inr ([], w)"
| "wg_calls (Add # cs) w =
     andThen (wg_calls cs (wg_add w)) (\<lambda>(rs, w'). Inr ([] # rs, w'))"
| "wg_calls (Done # cs) w =
     andThen (wg_done w) (\<lambda>(ts, w1).
       andThen (wg_calls cs w1) (\<lambda>(rs, w'). Inr (ts # rs, w')))"
| "wg_calls (Wait t # cs) w =
     (let r = wg_wait t w in
      andThen (wg_calls cs (snd r)) (\<lambda>(rs, w'). Inr ((if fst r then [t] else []) # rs, w')))"

fun waits :: "wg_call list \<Rightarrow> task_id list" where
  "waits [] = []"
| "waits (Wait t # cs) = t # waits cs"
| "waits (_ # cs) = waits cs"

definition outstanding :: "wg_call list \<Rightarrow> int" where
  "outstanding cs = int (count_list cs Add) - int (count_list cs Done)"

definition wg_account :: "waitGroup \<Rightarrow> wg_call list \<Rightarrow> task_id list list \<Rightarrow> waitGroup \<Rightarrow> bool" where
  "wg_account w cs rs w' \<longleftrightarrow>
     int (wg_counter w') = int (wg_counter w) + outstanding cs
     \<and> (wg_counter w' = 0 \<longrightarrow> wg_resolveQueue w' = [])
     \<and> wg_resolveQueue w @ waits cs = concat rs @ wg_resolveQueue w'"

lemma wg_calls_account:
  assumes "wg_calls cs w = Inr (rs, w')" and "wg_counter w = 0 \<longrightarrow> wg_resolveQueue w = []"
  shows "wg_account w cs rs w'"
  using assms
proof (induction cs arbitrary: w rs)
  case Nil
  then show ?case by (simp add: wg_account_def outstanding_def)
next
  case (Cons c cs)
  show ?case
  proof (cases c)
    case Add
    then obtain rs1 where "wg_calls cs (wg_add w) = Inr (rs1, w')" and "rs = [] # rs1"
      using Cons.prems(1) by auto
    with Cons.IH [of "wg_add w" rs1] Add show ?thesis
      by (simp add: wg_add_def wg_account_def outstanding_def)
  next
    case Done
    then obtain ts w1 rs1 where d: "wg_done w = Inr (ts, w1)" "wg_calls cs w1 = Inr (rs1, w')"
      and rs: "rs = ts # rs1"
      using Cons.prems(1) by auto
    from d(1) have "0 < wg_counter w" "wg_counter w1 = wg_counter w - 1"
      "wg_resolveQueue w = ts @ wg_resolveQueue w1" "wg_counter w1 = 0 \<longrightarrow> wg_resolveQueue w1 = []"
      by (auto simp: wg_done_def Let_def split: if_splits)
    with Cons.IH [OF d(2)] rs Done show ?thesis
      by (simp add: wg_account_def outstanding_def)
  next
    case (Wait t)
    then obtain rs1 where r: "wg_calls cs (snd (wg_wait t w)) = Inr (rs1, w')"
      and rs: "rs = (if fst (wg_wait t w) then [t] else []) # rs1"
      using Cons.prems(1) by (auto simp: Let_def)
    from Cons.IH [OF r] rs Wait Cons.prems(2) show ?thesis
      by (cases "wg_counter w = 0") (simp_all add: wg_account_def wg_wait_def outstanding_def)
  qed
qed

text \<open>
  The wait group. After any sequence of calls that does not fail, the counter is the number of
  \<open>add\<close> calls less the number of \<open>done\<close> calls; the tasks that waited have gone on in the order in
  which they came, except those still queued; and when the counter is zero nobody is queued.
\<close>

theorem waitgroup_releases_all:
  assumes "wg_calls cs newWaitGroup = Inr (rs, w)"
  shows "int (wg_counter w) = outstanding cs
    \<and> waits cs = concat rs @ wg_resolveQueue w
    \<and> (outstanding cs = 0 \<longrightarrow> waits cs = concat rs)"
  using wg_calls_account [OF assms] by (auto simp: newWaitGroup_def wg_account_def)

theorem waitgroup_releases_all_witness:
  "\<exists>rs w. wg_calls [Add, Wait 1, Add, Wait 2, Done, Done] newWaitGroup = Inr (rs, w)
     \<and> concat rs = [1, 2] \<and> int (wg_counter w) = outstanding [Add, Wait 1, Add, Wait 2, Done, Done]"
proof -
  have e: "wg_calls [Add, Wait 1, Add, Wait 2, Done, Done] newWaitGroup
      = Inr ([[], [], [], [], [], [1, 2]], \<lparr>wg_counter = 0, wg_resolveQueue = []\<rparr>)"
    by code_simp
  from waitgroup_releases_all [OF e] e show ?thesis by auto
qed

end
