(* ===== verification/Assets.thy ===== *)
theory Assets
  imports Encoding
begin

text \<open>
  Workers Assets. The asset worker and the router worker of \<^verbatim>\<open>packages/workers-shared\<close>, which serve
  the assets of a Worker, and the development server's side of it
  (\<^verbatim>\<open>packages/miniflare/src/plugins/assets/index.ts\<close>, \<^verbatim>\<open>workers/assets/assets-kv.worker.ts\<close>), which
  builds the manifest from a directory and stands in for the KV namespace with the contents.

  The manifest is a byte string: a header of 20 bytes and entries of 40 bytes, sorted by the first
  16, a truncated SHA-256 of the path. The digest is a parameter \<open>sha\<close> of the definitions, as are
  the disk service and the MIME database.
\<close>

subsection \<open>The manifest\<close>

definition HEADER_SIZE :: nat where "HEADER_SIZE = 20"
definition PATH_HASH_SIZE :: nat where "PATH_HASH_SIZE = 16"
definition CONTENT_HASH_SIZE :: nat where "CONTENT_HASH_SIZE = 16"
definition TAIL_SIZE :: nat where "TAIL_SIZE = 8"
definition ENTRY_SIZE :: nat where "ENTRY_SIZE = PATH_HASH_SIZE + CONTENT_HASH_SIZE + TAIL_SIZE"

lemmas asset_sizes = HEADER_SIZE_def PATH_HASH_SIZE_def CONTENT_HASH_SIZE_def TAIL_SIZE_def
  ENTRY_SIZE_def

definition hashPath :: "(string \<Rightarrow> bytes) \<Rightarrow> string \<Rightarrow> bytes" where
  "hashPath sha path = take PATH_HASH_SIZE (sha path)"

fun compare_loop :: "bytes \<Rightarrow> bytes \<Rightarrow> int" where
  "compare_loop (v # a) (w # b) = (if v < w then -1 else if w < v then 1 else compare_loop a b)"
| "compare_loop _ _ = 0"

definition compare :: "bytes \<Rightarrow> bytes \<Rightarrow> int" where
  "compare a b =
     (if length a < length b then -1
      else if length b < length a then 1
      else compare_loop a b)"

lemma half_less: "0 < n \<Longrightarrow> n div k div 2 * k < (n :: nat)"
proof -
  assume "0 < n"
  have "2 * (n div k div 2 * k) \<le> n div k * k" by (metis div_times_less_eq_dividend mult.assoc mult.commute mult_le_mono2)
  also have "\<dots> \<le> n" by simp
  finally show ?thesis using \<open>0 < n\<close> by linarith
qed

text \<open>
  The view \<open>arr\<close> is its buffer, byte offset and length. Constructing a view beyond the end of the
  buffer throws a \<open>RangeError\<close>. The view for the right half extends to the end of the buffer, not of
  \<open>arr\<close>, so the recursion is not on a shrinking window; its start moves right instead.
\<close>

function binarySearch :: "bytes \<Rightarrow> nat \<Rightarrow> nat \<Rightarrow> bytes \<Rightarrow> bytes option res" where
  "binarySearch buf off len x =
     (if len = 0 then Inr None
      else
        let offset = off + len div ENTRY_SIZE div 2 * ENTRY_SIZE in
        if length buf < offset + PATH_HASH_SIZE then Inl RangeError
        else
          let current = take PATH_HASH_SIZE (drop offset buf) in
          if length current \<noteq> length x then Inl TypeError
          else
            let cmp = compare x current in
            if cmp < 0 then binarySearch buf off (offset - off) x
            else if 0 < cmp then
              (if length buf < offset + ENTRY_SIZE then Inl RangeError
               else binarySearch buf (offset + ENTRY_SIZE) (length buf - offset - ENTRY_SIZE) x)
            else if length buf < offset + ENTRY_SIZE then Inl RangeError
            else Inr (Some (take ENTRY_SIZE (drop offset buf))))"
  by pat_completeness auto

termination
  by (relation "measures [\<lambda>(buf, off, len, x). length buf - off, \<lambda>(buf, off, len, x). len]")
     (auto simp: half_less asset_sizes)

declare binarySearch.simps [simp del]

text \<open>
  \<open>new Uint8Array(typedArray, offset)\<close> copies the whole typed array: the second argument only
  counts for an \<open>ArrayBuffer\<close>. The slice therefore holds the first 16 bytes of the entry.
\<close>

definition contentHashToKey :: "bytes \<Rightarrow> string" where
  "contentHashToKey entry = bytes_hex (take CONTENT_HASH_SIZE entry)"

definition manifest_get :: "(string \<Rightarrow> bytes) \<Rightarrow> bytes \<Rightarrow> string \<Rightarrow> string option res" where
  "manifest_get sha data pathname =
     (if length data < HEADER_SIZE then Inl RangeError
      else andThen (binarySearch data HEADER_SIZE (length data - HEADER_SIZE) (hashPath sha pathname))
        (\<lambda>entry. Inr (map_option contentHashToKey entry)))"

subsection \<open>Searching a sorted manifest\<close>

text \<open>The entries of a manifest: path hash, content hash and tail.\<close>

type_synonym asset_entry = "bytes \<times> bytes \<times> bytes"

definition entry_bytes :: "asset_entry \<Rightarrow> bytes" where
  "entry_bytes e = fst e @ fst (snd e) @ snd (snd e)"

definition entry_ok :: "asset_entry \<Rightarrow> bool" where
  "entry_ok e \<longleftrightarrow> length (fst e) = PATH_HASH_SIZE \<and> length (fst (snd e)) = CONTENT_HASH_SIZE
     \<and> length (snd (snd e)) = TAIL_SIZE"

definition manifest_data :: "bytes \<Rightarrow> asset_entry list \<Rightarrow> bytes" where
  "manifest_data header es = header @ concat (map entry_bytes es)"

lemma length_entry [simp]: "entry_ok e \<Longrightarrow> length (entry_bytes e) = ENTRY_SIZE"
  by (simp add: entry_ok_def entry_bytes_def ENTRY_SIZE_def)

lemma length_entries: "\<forall>e \<in> set es. entry_ok e \<Longrightarrow> length (concat (map entry_bytes es)) = ENTRY_SIZE * length es"
  by (induction es) auto

lemma drop_entries:
  assumes "\<forall>e \<in> set es. entry_ok e" and "i < length es"
  shows "drop (ENTRY_SIZE * i) (concat (map entry_bytes es))
    = entry_bytes (es ! i) @ concat (map entry_bytes (drop (Suc i) es))"
proof -
  have eq: "take i es @ es ! i # drop (Suc i) es = es"
    by (rule id_take_nth_drop [OF assms(2), symmetric])
  have "concat (map entry_bytes (take i es @ es ! i # drop (Suc i) es))
      = concat (map entry_bytes (take i es))
        @ entry_bytes (es ! i) @ concat (map entry_bytes (drop (Suc i) es))"
    by (simp del: append_take_drop_id)
  then have "concat (map entry_bytes es) = concat (map entry_bytes (take i es))
      @ entry_bytes (es ! i) @ concat (map entry_bytes (drop (Suc i) es))"
    by (simp only: eq)
  moreover have "length (concat (map entry_bytes (take i es))) = ENTRY_SIZE * i"
    using length_entries [of "take i es"] assms by (simp add: min_def) (meson in_set_takeD)
  ultimately show ?thesis by simp
qed

lemma compare_less:
  "length a = length b \<Longrightarrow> (compare a b < 0 \<longleftrightarrow> a < b) \<and> (0 < compare a b \<longleftrightarrow> b < a)"
proof -
  assume l: "length a = length b"
  then have "(compare_loop a b < 0 \<longleftrightarrow> a < b) \<and> (0 < compare_loop a b \<longleftrightarrow> b < a)"
    by (induction a b rule: list_induct2) auto
  with l show ?thesis by (simp add: compare_def)
qed

lemma manifest_at:
  assumes "length header = HEADER_SIZE" and "\<forall>e \<in> set es. entry_ok e" and "i < length es"
  shows "take ENTRY_SIZE (drop (HEADER_SIZE + ENTRY_SIZE * i) (manifest_data header es))
      = entry_bytes (es ! i)"
    and "take PATH_HASH_SIZE (drop (HEADER_SIZE + ENTRY_SIZE * i) (manifest_data header es))
      = fst (es ! i)"
    and "HEADER_SIZE + ENTRY_SIZE * i + ENTRY_SIZE \<le> length (manifest_data header es)"
proof -
  have d: "drop (HEADER_SIZE + ENTRY_SIZE * i) (manifest_data header es)
      = entry_bytes (es ! i) @ concat (map entry_bytes (drop (Suc i) es))"
    using drop_entries [OF assms(2,3)] assms(1) by (simp add: manifest_data_def)
  have e: "entry_ok (es ! i)" using assms by simp
  show "take ENTRY_SIZE (drop (HEADER_SIZE + ENTRY_SIZE * i) (manifest_data header es))
      = entry_bytes (es ! i)"
    unfolding d using e by simp
  show "take PATH_HASH_SIZE (drop (HEADER_SIZE + ENTRY_SIZE * i) (manifest_data header es))
      = fst (es ! i)"
    unfolding d using e by (simp add: entry_bytes_def entry_ok_def)
  have "ENTRY_SIZE * Suc i \<le> ENTRY_SIZE * length es" using assms(3) by (intro mult_le_mono2) simp
  then show "HEADER_SIZE + ENTRY_SIZE * i + ENTRY_SIZE \<le> length (manifest_data header es)"
    using assms(1) length_entries [OF assms(2)] by (simp add: manifest_data_def)
qed

lemma search_measure: "lo < lo' \<Longrightarrow> lo' \<le> n \<Longrightarrow> (n - lo') * (n + 1) + (n - lo') < (n - lo) * (n + 1) + d"
  for n :: nat
proof -
  assume "lo < lo'" and "lo' \<le> n"
  then have "Suc (n - lo') \<le> n - lo" by simp
  then have "Suc (n - lo') * (n + 1) \<le> (n - lo) * (n + 1)" by (rule mult_le_mono1)
  then show ?thesis by simp
qed

lemma search_step:
  assumes "len \<noteq> 0" and "offset = off + len div ENTRY_SIZE div 2 * ENTRY_SIZE"
    and "offset + ENTRY_SIZE \<le> length buf" and "current = take PATH_HASH_SIZE (drop offset buf)"
    and "length current = length x"
  shows "binarySearch buf off len x =
    (if compare x current < 0 then binarySearch buf off (offset - off) x
     else if 0 < compare x current then
       binarySearch buf (offset + ENTRY_SIZE) (length buf - offset - ENTRY_SIZE) x
     else Inr (Some (take ENTRY_SIZE (drop offset buf))))"
proof -
  have "\<not> length buf < offset + PATH_HASH_SIZE" "\<not> length buf < offset + ENTRY_SIZE"
    using assms(3) by (simp_all add: asset_sizes)
  then show ?thesis
    using assms by (subst binarySearch.simps) (simp only: Let_def if_False simp_thms)
qed

lemma binarySearch_unfold:
  assumes h: "length header = HEADER_SIZE" and ok: "\<forall>e \<in> set es. entry_ok e"
    and x: "length x = PATH_HASH_SIZE" and lo: "lo < hi" "hi \<le> length es"
    and mid: "mid = lo + (hi - lo) div 2"
  shows "binarySearch (manifest_data header es) (HEADER_SIZE + ENTRY_SIZE * lo) (ENTRY_SIZE * (hi - lo)) x
    = (if x < fst (es ! mid) then
         binarySearch (manifest_data header es) (HEADER_SIZE + ENTRY_SIZE * lo) (ENTRY_SIZE * (mid - lo)) x
       else if fst (es ! mid) < x then
         binarySearch (manifest_data header es) (HEADER_SIZE + ENTRY_SIZE * Suc mid)
           (ENTRY_SIZE * (length es - Suc mid)) x
       else Inr (Some (entry_bytes (es ! mid))))"
proof -
  let ?buf = "manifest_data header es"
  have m: "mid < length es" using lo mid by simp
  note at = manifest_at [OF h ok m]
  have pos: "0 < ENTRY_SIZE" by (simp add: asset_sizes)
  have offset: "HEADER_SIZE + ENTRY_SIZE * lo + ENTRY_SIZE * (hi - lo) div ENTRY_SIZE div 2 * ENTRY_SIZE
      = HEADER_SIZE + ENTRY_SIZE * mid"
    using pos by (simp add: mid distrib_left mult.commute)
  have left: "HEADER_SIZE + ENTRY_SIZE * mid - (HEADER_SIZE + ENTRY_SIZE * lo) = ENTRY_SIZE * (mid - lo)"
    by (simp add: mid distrib_left)
  have right: "length ?buf - (HEADER_SIZE + ENTRY_SIZE * mid) - ENTRY_SIZE = ENTRY_SIZE * (length es - Suc mid)"
    using h length_entries [OF ok] by (simp add: manifest_data_def diff_mult_distrib2)
  have key: "length (fst (es ! mid)) = PATH_HASH_SIZE"
    using ok m by (simp add: entry_ok_def)
  have cmp: "(compare x (fst (es ! mid)) < 0) = (x < fst (es ! mid))"
    "(0 < compare x (fst (es ! mid))) = (fst (es ! mid) < x)"
    using compare_less [of x "fst (es ! mid)"] x key by auto
  have "ENTRY_SIZE * (hi - lo) \<noteq> 0" using pos lo by simp
  from search_step [OF this offset [symmetric] at(3) at(2) [symmetric]] key x
  show ?thesis by (simp only: cmp left right at(1) mult_Suc_right add.assoc add.commute [of ENTRY_SIZE])
qed

lemma binarySearch_correct:
  assumes h: "length header = HEADER_SIZE" and ok: "\<forall>e \<in> set es. entry_ok e"
    and sorted: "sorted_wrt (<) (map fst es)" and x: "length x = PATH_HASH_SIZE"
    and "lo \<le> hi" and "hi \<le> length es"
    and "\<forall>i < length es. fst (es ! i) = x \<longrightarrow> lo \<le> i \<and> i < hi"
  shows "binarySearch (manifest_data header es) (HEADER_SIZE + ENTRY_SIZE * lo) (ENTRY_SIZE * (hi - lo)) x
      = Inr (map_option (\<lambda>r. entry_bytes (x, r)) (map_of es x))"
  using assms(5-)
proof (induction "(length es - lo) * (length es + 1) + (hi - lo)" arbitrary: lo hi rule: less_induct)
  case less
  have mono: "fst (es ! i) < fst (es ! j)" if "i < j" "j < length es" for i j
    using sorted_wrt_nth_less [OF sorted, of i j] that by simp
  show ?case
  proof (cases "lo = hi")
    case True
    have "map_of es x = None"
      unfolding map_of_eq_None_iff using less.prems(3) True
      by (auto simp: in_set_conv_nth) (metis fst_conv leD)
    with True show ?thesis by (simp add: binarySearch.simps)
  next
    case False
    then have lt: "lo < hi" using less.prems by simp
    define mid where "mid = lo + (hi - lo) div 2"
    have m: "lo \<le> mid" "mid < hi" "mid < length es" using lt less.prems mid_def by auto
    note u = binarySearch_unfold [OF h ok x lt less.prems(2) mid_def]
    consider "x < fst (es ! mid)" | "fst (es ! mid) < x" | "x = fst (es ! mid)" by fastforce
    then show ?thesis
    proof cases
      case 1
      have "\<forall>i < length es. fst (es ! i) = x \<longrightarrow> lo \<le> i \<and> i < mid"
        using less.prems(3) 1 mono [of mid] by (metis linorder_neqE_nat order_less_asym order_less_irrefl)
      then show ?thesis using less.hyps [of lo mid] 1 m u by simp
    next
      case 2
      have "\<forall>i < length es. fst (es ! i) = x \<longrightarrow> Suc mid \<le> i \<and> i < length es"
        using 2 mono [of _ mid] m by (metis Suc_leI linorder_neqE_nat order_less_asym order_less_irrefl)
      moreover have "(length es - Suc mid) * (length es + 1) + (length es - Suc mid)
          < (length es - lo) * (length es + 1) + (hi - lo)"
        by (rule search_measure) (use m in simp_all)
      ultimately have "binarySearch (manifest_data header es) (HEADER_SIZE + ENTRY_SIZE * Suc mid)
          (ENTRY_SIZE * (length es - Suc mid)) x
          = Inr (map_option (\<lambda>r. entry_bytes (x, r)) (map_of es x))"
        using m by (intro less.hyps) simp_all
      moreover have "\<not> x < fst (es ! mid)" using 2 by simp
      ultimately show ?thesis using 2 u by (simp only: if_True if_False)
    next
      case 3
      have "distinct (map fst es)" using sorted by (simp add: strict_sorted_iff)
      then have "map_of es x = Some (snd (es ! mid))"
        using m 3 by (metis map_of_eq_Some_iff nth_mem prod.collapse)
      then show ?thesis using 3 u by simp
    qed
  qed
qed

lemma manifest_get_lookup:
  assumes "length header = HEADER_SIZE" and "\<forall>e \<in> set es. entry_ok e"
    and "sorted_wrt (<) (map fst es)" and "length (hashPath sha p) = PATH_HASH_SIZE"
  shows "manifest_get sha (manifest_data header es) p
    = Inr (if hashPath sha p \<in> fst ` set es then Some (bytes_hex (hashPath sha p)) else None)"
proof -
  have len: "length (manifest_data header es) - HEADER_SIZE = ENTRY_SIZE * length es"
    using assms(1) length_entries [OF assms(2)] by (simp add: manifest_data_def)
  have "binarySearch (manifest_data header es) HEADER_SIZE (ENTRY_SIZE * length es) (hashPath sha p)
      = Inr (map_option (\<lambda>r. entry_bytes (hashPath sha p, r)) (map_of es (hashPath sha p)))"
    using binarySearch_correct [OF assms, of 0 "length es"] by simp
  moreover have "contentHashToKey (entry_bytes (hashPath sha p, r)) = bytes_hex (hashPath sha p)" for r
    using assms(4) by (simp add: contentHashToKey_def entry_bytes_def asset_sizes)
  moreover have "\<not> length (manifest_data header es) < HEADER_SIZE"
    using assms(1) by (simp add: manifest_data_def)
  moreover have "map_of es (hashPath sha p) = None \<longleftrightarrow> hashPath sha p \<notin> fst ` set es"
    by (rule map_of_eq_None_iff)
  ultimately show ?thesis
    by (auto simp: manifest_get_def len option.map_comp comp_def split: option.splits)
qed

end
