(* ===== verification/AssetsServer.thy ===== *)
theory AssetsServer
  imports Assets
begin

text \<open>
  The workers that serve assets and the development server's manifest. A request is its method, the
  path name of its URL and its headers; headers are a map from lower-case names. A rejected promise
  is the left value of a result.
\<close>

subsection \<open>Requests and responses\<close>

type_synonym header_map = "string \<rightharpoonup> string"

record asset_request =
  rq_method :: string
  rq_pathname :: string
  rq_headers :: header_map

record 'b asset_response =
  rs_status :: nat
  rs_statusText :: string
  rs_body :: "'b option"
  rs_headers :: header_map

definition OkResponse :: "'b \<Rightarrow> header_map \<Rightarrow> 'b asset_response" where
  "OkResponse b hs = \<lparr>rs_status = 200, rs_statusText = [], rs_body = Some b, rs_headers = hs\<rparr>"

definition NotFoundResponse :: "'b asset_response" where
  "NotFoundResponse =
     \<lparr>rs_status = 404, rs_statusText = ''Not Found'', rs_body = None, rs_headers = Map.empty\<rparr>"

definition MethodNotAllowedResponse :: "'b asset_response" where
  "MethodNotAllowedResponse =
     \<lparr>rs_status = 405, rs_statusText = ''Method Not Allowed'', rs_body = None, rs_headers = Map.empty\<rparr>"

subsection \<open>Headers\<close>

definition CACHE_CONTROL_BROWSER :: string where
  "CACHE_CONTROL_BROWSER = ''public, max-age=0, must-revalidate''"

definition getMergedHeaders :: "header_map \<Rightarrow> (string \<times> string) list \<Rightarrow> header_map" where
  "getMergedHeaders existing additional = fold (\<lambda>(k, v) m. m(k \<mapsto> v)) additional existing"

definition isCacheable :: "asset_request \<Rightarrow> bool" where
  "isCacheable rq \<longleftrightarrow> rq_headers rq ''authorization'' = None \<and> rq_headers rq ''range'' = None"

definition responseContentType :: "string option \<Rightarrow> string" where
  "responseContentType metadata =
     (let ct = (case metadata of None \<Rightarrow> ''application/octet-stream'' | Some t \<Rightarrow> t)
      in if startsWith ct ''text/'' \<and> \<not> js_includes ct ''charset'' then ct @ ''; charset=utf-8'' else ct)"

definition getAdditionalHeaders ::
    "string \<Rightarrow> string option \<Rightarrow> asset_request \<Rightarrow> (string \<times> string) list" where
  "getAdditionalHeaders assetKey metadata rq =
     [(''access-control-allow-origin'', ''*''),
      (''content-type'', responseContentType metadata),
      (''referrer-policy'', ''strict-origin-when-cross-origin''),
      (''x-content-type-options'', ''nosniff''),
      (''etag'', assetKey)]
     @ (if isCacheable rq then [(''cache-control'', CACHE_CONTROL_BROWSER)] else [])"

subsection \<open>Fetching the contents\<close>

text \<open>
  The contents of a key and the content type in its metadata; \<open>kv n key\<close> is the outcome of the
  \<open>n\<close>-th call of \<open>getWithMetadata\<close>, \<^const>\<open>Inl\<close> if it throws. The result is paired with the delays
  waited between the attempts. Running out of attempts is the thrown error.
\<close>

datatype asset_error = KvFailed string | NotInKv string | Thrown error

type_synonym 'b kv_outcome = "unit + ('b \<times> string option) option"

function kv_attempts ::
    "(nat \<Rightarrow> string \<Rightarrow> 'b kv_outcome) \<Rightarrow> string \<Rightarrow> nat \<Rightarrow> nat
      \<Rightarrow> (asset_error + ('b \<times> string option) option) \<times> nat list" where
  "kv_attempts kv key retries attempts =
     (case kv attempts key of
        Inr r \<Rightarrow> (Inr r, [])
      | Inl _ \<Rightarrow>
          if retries \<le> attempts then (Inl (KvFailed key), [])
          else (let rest = kv_attempts kv key retries (attempts + 1)
                in (fst rest, 2 ^ attempts * 1000 # snd rest)))"
  by pat_completeness auto
termination
  by (relation "measure (\<lambda>(kv, key, retries, attempts). retries - attempts)") auto

declare kv_attempts.simps [simp del]

definition getAssetWithMetadataFromKV ::
    "(nat \<Rightarrow> string \<Rightarrow> 'b kv_outcome) \<Rightarrow> string \<Rightarrow> nat
      \<Rightarrow> (asset_error + ('b \<times> string option) option) \<times> nat list" where
  "getAssetWithMetadataFromKV kv key retries = kv_attempts kv key retries 0"

subsection \<open>The asset worker\<close>

definition getAssetEntry :: "(string \<Rightarrow> bytes) \<Rightarrow> bytes \<Rightarrow> asset_request \<Rightarrow> string option res" where
  "getAssetEntry sha manifest rq =
     (case decodeURIComponent (rq_pathname rq) of
        None \<Rightarrow> Inl URIError
      | Some pathname \<Rightarrow> manifest_get sha manifest pathname)"

definition handleRequest ::
    "(string \<Rightarrow> bytes) \<Rightarrow> bytes \<Rightarrow> (nat \<Rightarrow> string \<Rightarrow> 'b kv_outcome) \<Rightarrow> asset_request
      \<Rightarrow> asset_error + 'b asset_response" where
  "handleRequest sha manifest kv rq =
     (case getAssetEntry sha manifest rq of
        Inl e \<Rightarrow> Inl (Thrown e)
      | Inr None \<Rightarrow> Inr NotFoundResponse
      | Inr (Some assetEntry) \<Rightarrow>
          if toLowerCase (rq_method rq) \<noteq> ''get'' then Inr MethodNotAllowedResponse
          else andThen (fst (getAssetWithMetadataFromKV kv assetEntry 1)) (\<lambda>r.
            case r of
              None \<Rightarrow> Inl (NotInKv assetEntry)
            | Some (content, metadata) \<Rightarrow>
                Inr (OkResponse content
                  (getMergedHeaders (rq_headers rq) (getAdditionalHeaders assetEntry metadata rq)))))"

text \<open>
  \<open>fetch\<close> returns the promise of \<open>handleRequest\<close> without awaiting it, so its \<open>catch\<close> block, which
  would answer with status 500, never sees a rejection.
\<close>

definition asset_fetch ::
    "(string \<Rightarrow> bytes) \<Rightarrow> bytes \<Rightarrow> (nat \<Rightarrow> string \<Rightarrow> 'b kv_outcome) \<Rightarrow> asset_request
      \<Rightarrow> asset_error + 'b asset_response" where
  "asset_fetch sha manifest kv rq = handleRequest sha manifest kv rq"

subsection \<open>The router worker\<close>

definition router_fetch ::
    "(asset_request \<Rightarrow> 'e + 'b asset_response) \<Rightarrow> (asset_request \<Rightarrow> 'e + 'b asset_response) \<Rightarrow> bool
      \<Rightarrow> asset_request \<Rightarrow> 'e + 'b asset_response" where
  "router_fetch assetWorker userWorker hasUserWorker rq =
     andThen (assetWorker rq) (\<lambda>result.
       if rs_status result = 404 \<and> hasUserWorker then userWorker rq else Inr result)"

subsection \<open>Building the manifest from a directory\<close>

definition MAX_ASSET_COUNT :: nat where "MAX_ASSET_COUNT = 20000"
definition MAX_ASSET_SIZE :: nat where "MAX_ASSET_SIZE = 25 * 1024 * 1024"

record dir_entry =
  de_path :: string
  de_isDirectory :: bool
  de_size :: nat

definition encodeFilePath :: "string \<Rightarrow> string" where
  "encodeFilePath filePath = ''/'' @ join_with ''/'' (map encodeURIComponent (split_on CHR ''/'' filePath))"

text \<open>
  \<open>walk\<close> handles all files concurrently: after the \<open>stat\<close> of a file it is checked against the
  limits, and only after its digest it is added and counted. A schedule lists these two events of
  the files, by their index.
\<close>

datatype walk_error = TooManyAssets | AssetTooLarge string | NotStarted
datatype walk_event = Stat nat | Hashed nat

record walk_state =
  wk_counter :: nat
  wk_manifest :: "bytes list"
  wk_hashing :: "nat list"

definition walk_step ::
    "(string \<Rightarrow> bytes) \<Rightarrow> dir_entry list \<Rightarrow> walk_event \<Rightarrow> walk_state \<Rightarrow> walk_error + walk_state" where
  "walk_step sha files ev st =
     (case ev of
        Stat i \<Rightarrow>
          if de_isDirectory (files ! i) then Inr st
          else if MAX_ASSET_COUNT \<le> wk_counter st then Inl TooManyAssets
          else if MAX_ASSET_SIZE < de_size (files ! i) then Inl (AssetTooLarge (de_path (files ! i)))
          else Inr (st\<lparr>wk_hashing := i # wk_hashing st\<rparr>)
      | Hashed i \<Rightarrow>
          if i \<notin> set (wk_hashing st) then Inl NotStarted
          else Inr (st\<lparr>wk_hashing := remove1 i (wk_hashing st),
                       wk_manifest := wk_manifest st @ [hashPath sha (encodeFilePath (de_path (files ! i)))],
                       wk_counter := wk_counter st + 1\<rparr>))"

fun walk_events ::
    "(string \<Rightarrow> bytes) \<Rightarrow> dir_entry list \<Rightarrow> walk_event list \<Rightarrow> walk_state \<Rightarrow> walk_error + walk_state" where
  "walk_events sha files [] st = Inr st"
| "walk_events sha files (ev # evs) st =
     andThen (walk_step sha files ev st) (walk_events sha files evs)"

definition walk ::
    "(string \<Rightarrow> bytes) \<Rightarrow> dir_entry list \<Rightarrow> walk_event list \<Rightarrow> walk_error + bytes list" where
  "walk sha files evs =
     andThen (walk_events sha files evs \<lparr>wk_counter = 0, wk_manifest = [], wk_hashing = []\<rparr>)
       (\<lambda>st. Inr (wk_manifest st))"

definition comparisonFn :: "bytes \<Rightarrow> bytes \<Rightarrow> int" where
  "comparisonFn a b =
     (if length a < length b then -1
      else if length b < length a then 1
      else if compare_loop a b = 0 then 1 else compare_loop a b)"

definition sortManifest :: "bytes list \<Rightarrow> bytes list" where
  "sortManifest manifest = js_sort comparisonFn manifest"

definition encodeManifest :: "bytes list \<Rightarrow> bytes" where
  "encodeManifest manifest =
     replicate HEADER_SIZE 0 @ concat (map (\<lambda>entry. entry @ entry @ replicate TAIL_SIZE 0) manifest)"

definition buildAssetsManifest ::
    "(string \<Rightarrow> bytes) \<Rightarrow> dir_entry list \<Rightarrow> walk_event list \<Rightarrow> walk_error + bytes" where
  "buildAssetsManifest sha files evs =
     andThen (walk sha files evs) (\<lambda>manifest. Inr (encodeManifest (sortManifest manifest)))"

subsection \<open>The stand-in for the KV namespace\<close>

definition createReverseMap ::
    "(string \<Rightarrow> bytes) \<Rightarrow> (string \<Rightarrow> string option) \<Rightarrow> dir_entry list \<Rightarrow> string \<rightharpoonup> string \<times> string" where
  "createReverseMap sha getType files =
     fold (\<lambda>f m. if de_isDirectory f then m
                 else m(bytes_hex (hashPath sha (encodeFilePath (de_path f)))
                        \<mapsto> (de_path f, case getType (de_path f) of None \<Rightarrow> ''application/octet-stream''
                                                                  | Some t \<Rightarrow> t))) files Map.empty"

text \<open>The worker that answers for the namespace; \<open>blobs\<close> is the disk service.\<close>

definition assets_kv_fetch ::
    "(string \<rightharpoonup> string \<times> string) \<Rightarrow> (string \<Rightarrow> 'b option) \<Rightarrow> asset_request \<Rightarrow> 'b asset_response" where
  "assets_kv_fetch reverseMap blobs rq =
     (if rq_method rq \<noteq> ''GET'' then
        (let message = ''Cannot '' @ toLowerCase (rq_method rq) @ ''() with Workers Assets namespace''
         in \<lparr>rs_status = 405, rs_statusText = message, rs_body = None, rs_headers = Map.empty\<rparr>)
      else (case reverseMap (drop 1 (rq_pathname rq)) of
              None \<Rightarrow> \<lparr>rs_status = 404, rs_statusText = [], rs_body = None, rs_headers = Map.empty\<rparr>
            | Some (filePath, contentType) \<Rightarrow>
                (case blobs filePath of
                   None \<Rightarrow> \<lparr>rs_status = 404, rs_statusText = [], rs_body = None,
                            rs_headers = [''cf-kv-metadata'' \<mapsto> contentType]\<rparr>
                 | Some b \<Rightarrow> \<lparr>rs_status = 200, rs_statusText = [], rs_body = Some b,
                              rs_headers = [''cf-kv-metadata'' \<mapsto> contentType]\<rparr>)))"

text \<open>
  The runtime's KV binding on top of that worker: a key is fetched with \<open>GET\<close>, a 404 is a missing
  value, and the metadata is the header the worker attached.
\<close>

definition dev_kv ::
    "(string \<rightharpoonup> string \<times> string) \<Rightarrow> (string \<Rightarrow> 'b option) \<Rightarrow> nat \<Rightarrow> string \<Rightarrow> 'b kv_outcome" where
  "dev_kv reverseMap blobs n key =
     (let r = assets_kv_fetch reverseMap blobs
                \<lparr>rq_method = ''GET'', rq_pathname = ''/'' @ key, rq_headers = Map.empty\<rparr>
      in Inr (if rs_status r = 404 then None
              else map_option (\<lambda>b. (b, rs_headers r ''cf-kv-metadata'')) (rs_body r)))"

end
