(* ===== verification/AssetsTheorems.thy ===== *)
theory AssetsTheorems
  imports AssetsServer "HOL-Library.Multiset"
begin

text \<open>
  What the parts of Workers Assets do together: the manifest that the development server builds,
  the lookup in it, the stand-in for the KV namespace and the two workers.
\<close>

subsection \<open>Encoded paths\<close>

definition path_char :: "char \<Rightarrow> string" where
  "path_char c = (if c = CHR ''/'' \<or> is_unreserved c then [c] else pct (of_char c))"

lemma slash_reserved [simp]: "\<not> is_unreserved CHR ''/''" by code_simp

lemma encode_char: "encodeURIComponent (c # s) = (if is_unreserved c then [c] else pct (of_char c)) @ encodeURIComponent s"
  by (simp add: encodeURIComponent_def)

lemma encodeFilePath_chars: "encodeFilePath s = ''/'' @ concat (map path_char s)"
proof -
  have "join_with ''/'' (map encodeURIComponent (split_on CHR ''/'' s)) = concat (map path_char s)"
  proof (induction s)
    case Nil
    then show ?case by (simp add: encodeURIComponent_def)
  next
    case (Cons c s)
    obtain w ws where w: "split_on CHR ''/'' s = w # ws"
      by (cases "split_on CHR ''/'' s") auto
    show ?case
    proof (cases "c = CHR ''/''")
      case True
      then show ?thesis using Cons w
        by (simp add: path_char_def join_with_Cons encodeURIComponent_def)
    next
      case False
      have "join_with ''/'' ((p @ u) # us) = p @ join_with ''/'' (u # us)" for p u us
        by (cases us) auto
      then show ?thesis using Cons w False by (simp add: path_char_def encode_char)
    qed
  qed
  then show ?thesis by (simp add: encodeFilePath_def)
qed

lemma pct_inj: "a < 256 \<Longrightarrow> b < 256 \<Longrightarrow> pct a = pct b \<Longrightarrow> a = b"
proof -
  assume lt: "a < 256" "b < 256" and eq: "pct a = pct b"
  have "\<forall>m \<in> set [0..<16]. \<forall>n \<in> set [0..<16]. upper_hex_digit m = upper_hex_digit n \<longrightarrow> m = n"
    by code_simp
  then have inj: "m = n" if "m < 16" "n < 16" "upper_hex_digit m = upper_hex_digit n" for m n
    using that by simp
  have "a div 16 = b div 16" "a mod 16 = b mod 16"
    using eq lt by (auto simp: pct_def intro!: inj less_mult_imp_div_less)
  then show "a = b" by (metis div_mult_mod_eq)
qed

lemma length_pct [simp]: "length (pct b) = 3"
  by (simp add: pct_def)

lemma path_char_unreserved: "is_unreserved c \<Longrightarrow> c \<noteq> CHR ''%''"
  using unreserved_ascii by blast

lemma path_chars_cancel:
  assumes "path_char c @ x = path_char d @ y"
  shows "c = d \<and> x = y"
proof (cases "c = CHR ''/'' \<or> is_unreserved c"; cases "d = CHR ''/'' \<or> is_unreserved d")
  assume "\<not> (c = CHR ''/'' \<or> is_unreserved c)" and "\<not> (d = CHR ''/'' \<or> is_unreserved d)"
  with assms have "pct (of_char c) @ x = pct (of_char d) @ y" by (simp add: path_char_def)
  then have "pct (of_char c) = pct (of_char d)" and "x = y" by simp_all
  then show ?thesis using pct_inj [of "of_char c" "of_char d"] by simp
qed (use assms in \<open>auto simp: path_char_def pct_def dest: path_char_unreserved\<close>)

lemma encodeFilePath_inj: "encodeFilePath s = encodeFilePath t \<longleftrightarrow> s = t"
proof
  assume "encodeFilePath s = encodeFilePath t"
  then have "concat (map path_char s) = concat (map path_char t)"
    by (simp add: encodeFilePath_chars)
  then show "s = t"
  proof (induction s arbitrary: t)
    case Nil
    then show ?case by (cases t) (auto simp: path_char_def pct_def split: if_splits)
  next
    case (Cons c s)
    then obtain d t' where t: "t = d # t'"
      by (cases t) (auto simp: path_char_def pct_def split: if_splits)
    with Cons.prems path_chars_cancel [of c _ d] Cons.IH show ?case by auto
  qed
qed simp

text \<open>The characters of an encoded path.\<close>

lemma pct_chars: "b < 256 \<Longrightarrow> set (pct b) \<subseteq> set ''%0123456789ABCDEF''"
proof -
  define A where "A = set ''%0123456789ABCDEF''"
  have "\<forall>n \<in> set [0..<16]. upper_hex_digit n \<in> A" unfolding A_def by code_simp
  then have "n < 16 \<Longrightarrow> upper_hex_digit n \<in> A" for n by simp
  moreover have "CHR ''%'' \<in> A" by (simp add: A_def)
  ultimately show "b < 256 \<Longrightarrow> set (pct b) \<subseteq> set ''%0123456789ABCDEF''"
    unfolding pct_def A_def [symmetric] by (simp add: less_mult_imp_div_less)
qed

lemma encodeFilePath_alphabet:
  assumes "c \<in> set (encodeFilePath s)"
  shows "c = CHR ''/'' \<or> c = CHR ''%'' \<or> is_unreserved c"
proof -
  have hex: "\<forall>c \<in> set ''0123456789ABCDEF''. is_unreserved c" by code_simp
  from assms consider "c = CHR ''/''" | d where "c \<in> set (path_char d)"
    by (auto simp: encodeFilePath_chars)
  then show ?thesis
  proof cases
    case 2
    then show ?thesis
      using pct_chars [of "of_char d"] hex by (auto simp: path_char_def split: if_splits)
  qed simp
qed

text \<open>Decoding an encoded path gives the path back.\<close>

lemma path_chars_encode:
  "CHR ''/'' \<notin> set s \<Longrightarrow> concat (map path_char s) = encodeURIComponent s"
  by (induction s) (auto simp: path_char_def encodeURIComponent_def)

lemma decode_slash: "decodeURIComponent (CHR ''/'' # r) = map_option ((#) CHR ''/'') (decodeURIComponent r)"
  by (simp add: decodeURIComponent.simps(2))

lemma decode_path_seq:
  assumes "utf8_seq (map of_char s)"
  shows "decodeURIComponent (concat (map path_char s) @ r) = map_option ((@) s) (decodeURIComponent r)"
proof (cases "s = ''/''")
  case True
  then show ?thesis by (simp add: path_char_def decode_slash) (rule option.map_cong0, simp)
next
  case False
  have "CHR ''/'' \<notin> set s"
  proof (cases "length s = 1")
    case True
    with False show ?thesis by (auto simp: length_Suc_conv)
  next
    case False
    with utf8_seq_cases [OF assms] have "\<forall>c \<in> set s. 128 \<le> (of_char c :: nat)"
      by (cases s) auto
    then show ?thesis by force
  qed
  then show ?thesis using decode_encode_seq [OF assms] by (simp add: path_chars_encode)
qed

lemma decode_path_chars:
  assumes "valid_text s"
  shows "decodeURIComponent (concat (map path_char s)) = Some s"
  using assms unfolding valid_text_def
proof (induction "length s" arbitrary: s rule: less_induct)
  case less
  show ?case
  proof (cases s)
    case (Cons c t)
    define n where "n = utf8_len (of_char c)"
    from less.prems Cons have n: "n \<noteq> 0" and q: "utf8_seq (map of_char (take n s))"
      and v: "utf8_valid (map of_char (drop n s))"
      by (auto simp: n_def take_map [symmetric] drop_map [symmetric] split: if_splits)
    from n Cons have "length (drop n s) < length s" by simp
    from less.hyps [OF this v] have "decodeURIComponent (concat (map path_char (drop n s))) = Some (drop n s)" .
    moreover have "concat (map path_char s)
        = concat (map path_char (take n s)) @ concat (map path_char (drop n s))"
      by (simp flip: concat_append map_append)
    ultimately show ?thesis by (simp add: decode_path_seq [OF q])
  qed simp
qed

lemma decode_encodeFilePath: "valid_text s \<Longrightarrow> decodeURIComponent (encodeFilePath s) = Some (''/'' @ s)"
  by (simp add: encodeFilePath_chars decode_slash decode_path_chars)

text \<open>Paths that are their own encoding.\<close>

definition plain_path :: "string \<Rightarrow> bool" where
  "plain_path p = list_all (\<lambda>c. is_unreserved c \<or> c = CHR ''/'') p"

lemma encode_plain_path: "plain_path p \<Longrightarrow> encodeFilePath p = ''/'' @ p"
  unfolding encodeFilePath_chars plain_path_def
  by (induction p) (auto simp: path_char_def)

subsection \<open>The manifest of a directory\<close>

lemma comparisonFn_le: "length a = length b \<Longrightarrow> a \<noteq> b \<Longrightarrow> comparisonFn a b \<le> 0 \<longleftrightarrow> a \<le> b"
  using compare_less [of a b] by (auto simp: comparisonFn_def compare_def)

lemma js_insert_local:
  "(\<And>y. y \<in> set ys \<Longrightarrow> cmp x y \<le> 0 \<longleftrightarrow> k x \<le> k y) \<Longrightarrow> js_insert cmp x ys = insort_key k x ys"
  by (induction ys) auto

lemma sortManifest_sort:
  "distinct m \<Longrightarrow> \<forall>h \<in> set m. length h = n \<Longrightarrow> sortManifest m = sort m"
proof (induction m)
  case (Cons h m)
  then have "js_insert comparisonFn h (sort m) = insort h (sort m)"
    by (intro js_insert_local comparisonFn_le) auto
  with Cons show ?case by (simp add: sortManifest_def js_sort_def)
qed (simp add: sortManifest_def js_sort_def)

definition dev_entries :: "bytes list \<Rightarrow> asset_entry list" where
  "dev_entries m = map (\<lambda>h. (h, h, replicate TAIL_SIZE 0)) m"

lemma encodeManifest_data: "encodeManifest m = manifest_data (replicate HEADER_SIZE 0) (dev_entries m)"
  by (simp add: encodeManifest_def manifest_data_def dev_entries_def entry_bytes_def comp_def)

fun hashed_indices :: "walk_event list \<Rightarrow> nat list" where
  "hashed_indices [] = []"
| "hashed_indices (Hashed i # evs) = i # hashed_indices evs"
| "hashed_indices (Stat i # evs) = hashed_indices evs"

abbreviation file_hash :: "(string \<Rightarrow> bytes) \<Rightarrow> dir_entry \<Rightarrow> bytes" where
  "file_hash sha f \<equiv> hashPath sha (encodeFilePath (de_path f))"

lemma walk_events_manifest:
  "walk_events sha files evs st = Inr st' \<Longrightarrow>
     wk_manifest st' = wk_manifest st @ map (\<lambda>i. file_hash sha (files ! i)) (hashed_indices evs)"
proof (induction evs arbitrary: st)
  case (Cons ev evs)
  then obtain st1 where s: "walk_step sha files ev st = Inr st1"
    and r: "walk_events sha files evs st1 = Inr st'" by auto
  from s Cons.IH [OF r] show ?case
    by (cases ev) (auto simp: walk_step_def split: if_splits)
qed simp

text \<open>
  A complete schedule: every file has its \<open>stat\<close>, and every file that is not a directory its
  digest, once. (A schedule with a digest before the \<open>stat\<close> fails.)
\<close>

definition regular_files :: "dir_entry list \<Rightarrow> dir_entry list" where
  "regular_files files = filter (\<lambda>f. \<not> de_isDirectory f) files"

definition complete_schedule :: "dir_entry list \<Rightarrow> walk_event list \<Rightarrow> bool" where
  "complete_schedule files evs \<longleftrightarrow>
     mset evs = mset (map Stat [0..<length files])
       + mset (map Hashed (filter (\<lambda>i. \<not> de_isDirectory (files ! i)) [0..<length files]))"

lemma hashed_indices_mset:
  "mset (hashed_indices evs) = image_mset (\<lambda>ev. case ev of Hashed i \<Rightarrow> i | Stat i \<Rightarrow> i)
     (filter_mset (\<lambda>ev. case ev of Hashed i \<Rightarrow> True | Stat i \<Rightarrow> False) (mset evs))"
  by (induction evs rule: hashed_indices.induct) auto

lemma hashed_indices_append: "hashed_indices (xs @ ys) = hashed_indices xs @ hashed_indices ys"
  by (induction xs rule: hashed_indices.induct) auto

lemma hashed_indices_map: "hashed_indices (map Stat is) = []" "hashed_indices (map Hashed is) = is"
  by (induction "is") auto

lemma filter_indices: "map ((!) xs) (filter (\<lambda>i. P (xs ! i)) [0..<length xs]) = filter P xs"
  by (metis (no_types, lifting) filter_map comp_def filter_cong map_nth)

lemma walk_manifest:
  assumes "walk sha files evs = Inr m" and "complete_schedule files evs"
  shows "mset m = mset (map (file_hash sha) (regular_files files))"
proof -
  let ?is = "filter (\<lambda>i. \<not> de_isDirectory (files ! i)) [0..<length files]"
  have m: "m = map (\<lambda>i. file_hash sha (files ! i)) (hashed_indices evs)"
    using assms(1) by (auto simp: walk_def dest: walk_events_manifest)
  have "mset evs = mset (map Stat [0..<length files] @ map Hashed ?is)"
    using assms(2) by (simp add: complete_schedule_def)
  then have "mset (hashed_indices evs)
      = mset (hashed_indices (map Stat [0..<length files] @ map Hashed ?is))"
    by (simp only: hashed_indices_mset)
  then have "mset (hashed_indices evs) = mset ?is"
    by (simp only: hashed_indices_append hashed_indices_map append_Nil)
  then have "mset m = mset (map (\<lambda>i. file_hash sha (files ! i)) ?is)"
    unfolding m by (metis mset_map)
  also have "map (\<lambda>i. file_hash sha (files ! i)) ?is = map (file_hash sha) (regular_files files)"
    unfolding regular_files_def filter_indices [of files "\<lambda>f. \<not> de_isDirectory f", symmetric]
    by simp
  finally show ?thesis .
qed

subsection \<open>The stand-in for the KV namespace\<close>

definition served_type :: "(string \<Rightarrow> string option) \<Rightarrow> string \<Rightarrow> string" where
  "served_type getType p = (case getType p of None \<Rightarrow> ''application/octet-stream'' | Some t \<Rightarrow> t)"

definition reverse_put ::
    "(string \<Rightarrow> bytes) \<Rightarrow> (string \<Rightarrow> string option) \<Rightarrow> dir_entry
      \<Rightarrow> (string \<rightharpoonup> string \<times> string) \<Rightarrow> (string \<rightharpoonup> string \<times> string)" where
  "reverse_put sha getType f m =
     (if de_isDirectory f then m
      else m(bytes_hex (file_hash sha f) \<mapsto> (de_path f, served_type getType (de_path f))))"

lemma createReverseMap_fold:
  "createReverseMap sha getType files = fold (reverse_put sha getType) files Map.empty"
proof -
  have "(\<lambda>f m. if de_isDirectory f then m
      else m(bytes_hex (file_hash sha f)
        \<mapsto> (de_path f, case getType (de_path f) of None \<Rightarrow> ''application/octet-stream'' | Some t \<Rightarrow> t)))
    = reverse_put sha getType"
    by (intro ext) (simp only: reverse_put_def served_type_def)
  then show ?thesis by (simp only: createReverseMap_def)
qed

lemma reverse_map_lookup:
  assumes "f \<in> set files" and "\<not> de_isDirectory f"
    and "\<forall>g \<in> set files. \<not> de_isDirectory g \<and> file_hash sha g = file_hash sha f
      \<longrightarrow> de_path g = de_path f"
  shows "createReverseMap sha getType files (bytes_hex (file_hash sha f))
    = Some (de_path f, served_type getType (de_path f))"
proof -
  let ?put = "reverse_put sha getType"
  let ?k = "bytes_hex (file_hash sha f)" and ?v = "(de_path f, served_type getType (de_path f))"
  have one: "?put g m ?k = Some ?v" if "m ?k = Some ?v \<or> g = f" and "g \<in> set files" for g m
  proof (cases "\<not> de_isDirectory g \<and> file_hash sha g = file_hash sha f")
    case True
    then have "de_path g = de_path f" using assms(3) that(2) by blast
    then show ?thesis using True by (simp add: reverse_put_def)
  next
    case False
    then have "m ?k = Some ?v" using that(1) assms(2) by blast
    with False show ?thesis by (auto simp: reverse_put_def bytes_hex_inj)
  qed
  have keep: "fold ?put gs m ?k = Some ?v" if "m ?k = Some ?v" and "set gs \<subseteq> set files" for gs m
    using that by (induction gs arbitrary: m) (simp_all add: one)
  have "fold ?put gs m ?k = Some ?v" if "f \<in> set gs" and "set gs \<subseteq> set files" for gs m
    using that
  proof (induction gs arbitrary: m)
    case (Cons g gs)
    show ?case
    proof (cases "f = g")
      case True
      then show ?thesis using keep [of "?put g m" gs] one [of m g] Cons.prems by simp
    qed (use Cons in simp)
  qed simp
  then show ?thesis using assms(1) by (simp add: createReverseMap_fold)
qed

lemma kv_first: "kv 0 key = Inr r \<Longrightarrow> getAssetWithMetadataFromKV kv key n = (Inr r, [])"
  by (simp add: getAssetWithMetadataFromKV_def kv_attempts.simps)

subsection \<open>The parts together\<close>

definition sha_collision_free :: "(string \<Rightarrow> bytes) \<Rightarrow> string set \<Rightarrow> bool" where
  "sha_collision_free sha P \<longleftrightarrow> (\<forall>p. length (sha p) = 32) \<and> inj_on (hashPath sha) P"

lemma length_hashPath: "sha_collision_free sha P \<Longrightarrow> length (hashPath sha p) = PATH_HASH_SIZE"
  by (simp add: sha_collision_free_def hashPath_def PATH_HASH_SIZE_def)

definition request_paths :: "dir_entry list \<Rightarrow> string \<Rightarrow> string set" where
  "request_paths files p = insert p ((\<lambda>f. encodeFilePath (de_path f)) ` set (regular_files files))"

lemma file_hash_distinct:
  assumes "sha_collision_free sha (request_paths files p)" and "distinct (map de_path files)"
  shows "distinct (map (file_hash sha) (regular_files files))"
proof -
  have "inj_on (file_hash sha) (set (regular_files files))"
  proof (rule inj_onI)
    fix f g
    assume f: "f \<in> set (regular_files files)" and g: "g \<in> set (regular_files files)"
      and eq: "file_hash sha f = file_hash sha g"
    have "encodeFilePath (de_path f) = encodeFilePath (de_path g)"
      by (rule inj_onD [of "hashPath sha" "request_paths files p", OF _ eq])
         (use assms(1) f g in \<open>auto simp: sha_collision_free_def request_paths_def\<close>)
    then have "de_path f = de_path g" by (simp add: encodeFilePath_inj)
    then show "f = g"
      using f g assms(2) unfolding regular_files_def distinct_map
      by (metis (no_types, lifting) filter_is_subset inj_on_contraD subsetD)
  qed
  moreover have "distinct (regular_files files)"
    using assms(2) unfolding regular_files_def by (simp add: distinct_map)
  ultimately show ?thesis by (simp add: distinct_map)
qed

lemma dev_manifest_get:
  assumes "buildAssetsManifest sha files evs = Inr manifest" and "complete_schedule files evs"
    and "distinct (map de_path files)" and cf: "sha_collision_free sha (request_paths files p)"
  shows "manifest_get sha manifest p
    = Inr (if p \<in> (\<lambda>f. encodeFilePath (de_path f)) ` set (regular_files files)
           then Some (bytes_hex (hashPath sha p)) else None)"
proof -
  obtain m where w: "walk sha files evs = Inr m" and man: "manifest = encodeManifest (sortManifest m)"
    using assms(1) by (auto simp: buildAssetsManifest_def)
  note ms = walk_manifest [OF w assms(2)]
  have d: "distinct m"
    using file_hash_distinct [OF cf assms(3)] ms by (metis distinct_count_atmost_1 mset_eq_setD)
  have len: "\<forall>h \<in> set m. length h = PATH_HASH_SIZE"
    using mset_eq_setD [OF ms] length_hashPath [OF cf] by auto
  have sorted: "sortManifest m = sort m" by (rule sortManifest_sort [OF d len])
  have strict: "sorted_wrt (<) (map fst (dev_entries (sort m)))"
    using d by (simp add: dev_entries_def comp_def strict_sorted_iff)
  have ok: "\<forall>e \<in> set (dev_entries (sort m)). entry_ok e"
    using len by (auto simp: dev_entries_def entry_ok_def asset_sizes)
  have keys: "fst ` set (dev_entries (sort m)) = file_hash sha ` set (regular_files files)"
    using mset_eq_setD [OF ms] by (force simp: dev_entries_def)
  have "hashPath sha p \<in> file_hash sha ` set (regular_files files)
      \<longleftrightarrow> p \<in> (\<lambda>f. encodeFilePath (de_path f)) ` set (regular_files files)"
  proof
    assume "hashPath sha p \<in> file_hash sha ` set (regular_files files)"
    then obtain f where f: "f \<in> set (regular_files files)" and eq: "hashPath sha p = file_hash sha f"
      by blast
    have "p = encodeFilePath (de_path f)"
      by (rule inj_onD [of "hashPath sha" "request_paths files p", OF _ eq])
         (use cf f in \<open>auto simp: sha_collision_free_def request_paths_def\<close>)
    with f show "p \<in> (\<lambda>f. encodeFilePath (de_path f)) ` set (regular_files files)" by blast
  qed blast
  then show ?thesis
    using manifest_get_lookup [OF _ ok strict length_hashPath [OF cf, of p],
        of "replicate HEADER_SIZE 0"]
    by (simp add: man sorted encodeManifest_data keys)
qed

lemma dev_kv_lookup:
  assumes "sha_collision_free sha (request_paths files p)"
    and "f \<in> set (regular_files files)" and "encodeFilePath (de_path f) = p"
    and "blobs (de_path f) = Some b"
  shows "dev_kv (createReverseMap sha getType files) blobs n (bytes_hex (hashPath sha p))
    = Inr (Some (b, Some (served_type getType (de_path f))))"
proof -
  have "de_path g = de_path f"
    if "g \<in> set files" "\<not> de_isDirectory g" "file_hash sha g = file_hash sha f" for g
  proof -
    have "encodeFilePath (de_path g) = encodeFilePath (de_path f)"
      by (rule inj_onD [of "hashPath sha" "request_paths files p", OF _ that(3)])
         (use assms that in \<open>auto simp: sha_collision_free_def request_paths_def regular_files_def\<close>)
    then show ?thesis by (simp add: encodeFilePath_inj)
  qed
  moreover have "f \<in> set files" "\<not> de_isDirectory f"
    using assms(2) by (auto simp: regular_files_def)
  ultimately have "createReverseMap sha getType files (bytes_hex (file_hash sha f))
      = Some (de_path f, served_type getType (de_path f))"
    by (intro reverse_map_lookup) blast+
  then show ?thesis using assms(3,4) by (simp add: dev_kv_def assets_kv_fetch_def)
qed

text \<open>What the development server answers with the contents of a file.\<close>

definition asset_answer ::
    "(string \<Rightarrow> bytes) \<Rightarrow> (string \<Rightarrow> string option) \<Rightarrow> asset_request \<Rightarrow> string \<Rightarrow> 'b \<Rightarrow> 'b asset_response" where
  "asset_answer sha getType rq path b =
     OkResponse b (getMergedHeaders (rq_headers rq)
       (getAdditionalHeaders (bytes_hex (hashPath sha (encodeFilePath path)))
         (Some (served_type getType path)) rq))"

lemma dev_asset_fetch:
  assumes "buildAssetsManifest sha files evs = Inr manifest" and "complete_schedule files evs"
    and "distinct (map de_path files)" and "sha_collision_free sha (request_paths files p)"
    and "\<forall>f \<in> set (regular_files files). blobs (de_path f) = Some (content (de_path f))"
    and "decodeURIComponent (rq_pathname rq) = Some p" and "toLowerCase (rq_method rq) = ''get''"
  shows "asset_fetch sha manifest (dev_kv (createReverseMap sha getType files) blobs) rq
    = Inr (case find (\<lambda>f. encodeFilePath (de_path f) = p) (regular_files files) of
             None \<Rightarrow> NotFoundResponse
           | Some f \<Rightarrow> asset_answer sha getType rq (de_path f) (content (de_path f)))"
proof (cases "find (\<lambda>f. encodeFilePath (de_path f) = p) (regular_files files)")
  case None
  then have "p \<notin> (\<lambda>f. encodeFilePath (de_path f)) ` set (regular_files files)"
    by (auto simp: find_None_iff)
  then show ?thesis
    using dev_manifest_get [OF assms(1-4)] assms(6) None
    by (simp add: asset_fetch_def handleRequest_def getAssetEntry_def)
next
  case (Some f)
  then have f: "f \<in> set (regular_files files)" "encodeFilePath (de_path f) = p"
    by (auto simp: find_Some_iff)
  have "blobs (de_path f) = Some (content (de_path f))" using assms(5) f by blast
  then have kv: "dev_kv (createReverseMap sha getType files) blobs n (bytes_hex (hashPath sha p))
      = Inr (Some (content (de_path f), Some (served_type getType (de_path f))))" for n
    by (rule dev_kv_lookup [OF assms(4) f])
  have "getAssetWithMetadataFromKV (dev_kv (createReverseMap sha getType files) blobs)
      (bytes_hex (hashPath sha p)) 1
    = (Inr (Some (content (de_path f), Some (served_type getType (de_path f)))), [])"
    by (rule kv_first) (rule kv)
  then show ?thesis
    using dev_manifest_get [OF assms(1-4)] assms(6,7) Some f
    by (auto simp: asset_fetch_def handleRequest_def getAssetEntry_def asset_answer_def)
qed

subsection \<open>Properties\<close>

text \<open>An example: two files and a directory, with a digest that pads the path.\<close>

definition ex_sha :: "string \<Rightarrow> bytes" where
  "ex_sha p = take 32 (map of_char p @ replicate 32 0)"

definition ex_files :: "dir_entry list" where
  "ex_files = [\<lparr>de_path = ''x.js'', de_isDirectory = False, de_size = 3\<rparr>,
               \<lparr>de_path = ''d'', de_isDirectory = True, de_size = 0\<rparr>,
               \<lparr>de_path = ''a b'', de_isDirectory = False, de_size = 5\<rparr>]"

definition ex_schedule :: "walk_event list" where
  "ex_schedule = [Stat 2, Stat 0, Hashed 0, Stat 1, Hashed 2]"

definition ex_manifest :: bytes where
  "ex_manifest = encodeManifest (sortManifest [hashPath ex_sha ''/x.js'', hashPath ex_sha ''/a%20b''])"

definition ex_get :: "string \<Rightarrow> asset_request" where
  "ex_get p = \<lparr>rq_method = ''GET'', rq_pathname = p, rq_headers = Map.empty\<rparr>"

lemma ex_built: "buildAssetsManifest ex_sha ex_files ex_schedule = Inr ex_manifest"
proof -
  have e: "encodeFilePath ''x.js'' = ''/x.js''" "encodeFilePath ''a b'' = ''/a%20b''" by code_simp+
  show ?thesis
    by (simp add: buildAssetsManifest_def walk_def walk_step_def ex_files_def ex_schedule_def
        MAX_ASSET_COUNT_def MAX_ASSET_SIZE_def ex_manifest_def e)
qed

lemma ex_complete: "complete_schedule ex_files ex_schedule"
  by (simp add: complete_schedule_def ex_files_def ex_schedule_def upt_rec numeral_2_eq_2)

lemma ex_distinct: "distinct (map de_path ex_files)"
  by (simp add: ex_files_def)

lemma ex_regular: "map de_path (regular_files ex_files) = [''x.js'', ''a b'']"
  by (simp add: regular_files_def ex_files_def)

lemma ex_collision_free:
  assumes "p = ''/x.js'' \<or> p = ''/a b''"
  shows "sha_collision_free ex_sha (request_paths ex_files p)"
proof -
  have "request_paths ex_files p = insert p (encodeFilePath ` set [''x.js'', ''a b''])"
    unfolding request_paths_def by (simp add: image_image [symmetric] ex_files_def regular_files_def)
  moreover have e: "encodeFilePath ''x.js'' = ''/x.js''" "encodeFilePath ''a b'' = ''/a%20b''" by code_simp+
  ultimately have P: "request_paths ex_files p \<subseteq> {''/x.js'', ''/a%20b'', ''/a b''}"
    using assms by auto
  have "inj_on (hashPath ex_sha) {''/x.js'', ''/a%20b'', ''/a b''}"
    by (simp add: inj_on_def hashPath_def ex_sha_def PATH_HASH_SIZE_def)
  with P show ?thesis
    by (auto simp: sha_collision_free_def ex_sha_def intro: inj_on_subset)
qed

text \<open>
  C31: searching the manifest. On every manifest whose entries are sorted by path hash, the binary
  search, whose right window always extends to the end of the buffer, terminates and returns the
  entry of the path hash if there is one, as a linear lookup does. The lookup of a path finds nothing
  exactly if no entry has its path hash; and in a manifest as the development server writes it,
  where the content hash of every entry is its path hash, the key that is found is the hexadecimal
  content hash of that entry.
\<close>

theorem assets_manifest_lookup:
  assumes "length header = HEADER_SIZE" and "\<forall>e \<in> set es. entry_ok e"
    and "sorted_wrt (<) (map fst es)" and "\<forall>p. length (sha p) = 32"
  shows "binarySearch (manifest_data header es) HEADER_SIZE (ENTRY_SIZE * length es) (hashPath sha p)
      = Inr (map_option (\<lambda>r. entry_bytes (hashPath sha p, r)) (map_of es (hashPath sha p)))
    \<and> (manifest_get sha (manifest_data header es) p = Inr None \<longleftrightarrow> hashPath sha p \<notin> fst ` set es)
    \<and> ((\<forall>(path, content, tail) \<in> set es. content = path) \<longrightarrow>
        manifest_get sha (manifest_data header es) p
          = Inr (map_option (\<lambda>(content, tail). bytes_hex content) (map_of es (hashPath sha p))))"
proof -
  have len: "length (hashPath sha p) = PATH_HASH_SIZE"
    using assms(4) by (simp add: hashPath_def PATH_HASH_SIZE_def)
  note get = manifest_get_lookup [OF assms(1-3) len]
  have none: "map_of es (hashPath sha p) = None \<longleftrightarrow> hashPath sha p \<notin> fst ` set es"
    by (rule map_of_eq_None_iff)
  have "binarySearch (manifest_data header es) HEADER_SIZE (ENTRY_SIZE * length es) (hashPath sha p)
      = Inr (map_option (\<lambda>r. entry_bytes (hashPath sha p, r)) (map_of es (hashPath sha p)))"
    using binarySearch_correct [OF assms(1-3) len, of 0 "length es"] by simp
  moreover have "manifest_get sha (manifest_data header es) p = Inr None \<longleftrightarrow> hashPath sha p \<notin> fst ` set es"
    by (simp add: get)
  moreover have "manifest_get sha (manifest_data header es) p
      = Inr (map_option (\<lambda>(content, tail). bytes_hex content) (map_of es (hashPath sha p)))"
    if dev: "\<forall>(path, content, tail) \<in> set es. content = path"
  proof (cases "map_of es (hashPath sha p)")
    case None
    then show ?thesis using none by (simp add: get)
  next
    case (Some r)
    have "fst r = hashPath sha p"
      using bspec [OF dev map_of_SomeD [OF Some]] by (cases r) simp
    moreover have "hashPath sha p \<in> fst ` set es" using none Some by simp
    ultimately show ?thesis by (simp add: get Some case_prod_unfold)
  qed
  ultimately show ?thesis by blast
qed

definition ex_entry :: "string \<Rightarrow> asset_entry" where
  "ex_entry p = (hashPath ex_sha p, hashPath ex_sha p, replicate 8 0)"

theorem assets_manifest_lookup_witness:
  "manifest_get ex_sha (manifest_data (replicate 20 0) [ex_entry ''/a'', ex_entry ''/b'']) ''/b''
     = Inr (Some (bytes_hex (hashPath ex_sha ''/b'')))
   \<and> manifest_get ex_sha (manifest_data (replicate 20 0) [ex_entry ''/a'', ex_entry ''/b'']) ''/c'' = Inr None"
proof -
  let ?es = "[ex_entry ''/a'', ex_entry ''/b'']"
  have s: "sorted_wrt (<) (map fst ?es)" "\<forall>e \<in> set ?es. entry_ok e"
    "length (replicate 20 (0 :: 8 word)) = HEADER_SIZE" "\<forall>p. length (ex_sha p) = 32"
    by (simp_all add: ex_entry_def ex_sha_def hashPath_def entry_ok_def asset_sizes min_def)
  have l: "map_of ?es (hashPath ex_sha ''/b'') = Some (snd (ex_entry ''/b''))"
    "map_of ?es (hashPath ex_sha ''/c'') = None"
    by (simp_all add: ex_entry_def ex_sha_def hashPath_def asset_sizes)
  have d: "\<forall>(path, content, tail) \<in> set ?es. content = path" by (simp add: ex_entry_def)
  show ?thesis
    using assets_manifest_lookup [OF s(3,2,1,4), of "''/b''"]
      assets_manifest_lookup [OF s(3,2,1,4), of "''/c''"] l d
    by (auto simp add: ex_entry_def)
qed

text \<open>
  C30: serving assets in development. For a directory whose file names need no percent-encoding,
  whose files have been hashed into a manifest, in any interleaving of the concurrent walk, and a
  digest without collisions on the paths concerned: a \<open>GET\<close> request whose path decodes to the
  path of a file is answered with the contents of that file; one whose path decodes to another path
  goes to the user's worker if there is one and is answered with 404 otherwise; and one whose path
  is no valid encoding fails with a \<open>URIError\<close>. (Files whose names have to be encoded are not
  served: \<open>assets_escaped_name_404\<close>.)
\<close>

theorem assets_dev_serves:
  assumes "buildAssetsManifest sha files evs = Inr manifest" and "complete_schedule files evs"
    and "distinct (map de_path files)" and "\<forall>f \<in> set (regular_files files). plain_path (de_path f)"
    and "\<forall>p. decodeURIComponent (rq_pathname rq) = Some p
      \<longrightarrow> sha_collision_free sha (request_paths files p)"
    and "\<forall>f \<in> set (regular_files files). blobs (de_path f) = Some (content (de_path f))"
    and "toLowerCase (rq_method rq) = ''get''"
  shows "router_fetch (asset_fetch sha manifest (dev_kv (createReverseMap sha getType files) blobs))
      userWorker hasUserWorker rq
    = (case decodeURIComponent (rq_pathname rq) of
         None \<Rightarrow> Inl (Thrown URIError)
       | Some p \<Rightarrow>
           (case find (\<lambda>f. ''/'' @ de_path f = p) (regular_files files) of
              None \<Rightarrow> if hasUserWorker then userWorker rq else Inr NotFoundResponse
            | Some f \<Rightarrow> Inr (asset_answer sha getType rq (de_path f) (content (de_path f)))))"
proof (cases "decodeURIComponent (rq_pathname rq)")
  case None
  then show ?thesis
    by (simp add: router_fetch_def asset_fetch_def handleRequest_def getAssetEntry_def)
next
  case (Some p)
  with assms(5) have cf: "sha_collision_free sha (request_paths files p)" by blast
  have "find (\<lambda>f. encodeFilePath (de_path f) = p) (regular_files files)
      = find (\<lambda>f. ''/'' @ de_path f = p) (regular_files files)"
    using assms(4) by (intro find_cong) (simp_all add: encode_plain_path)
  then show ?thesis
    unfolding router_fetch_def dev_asset_fetch [OF assms(1-3) cf assms(6) Some assms(7)]
    by (simp add: Some NotFoundResponse_def asset_answer_def OkResponse_def split: option.split)
qed

text \<open>An example without names to encode.\<close>

definition ex_plain_files :: "dir_entry list" where
  "ex_plain_files = [\<lparr>de_path = ''x.js'', de_isDirectory = False, de_size = 3\<rparr>,
               \<lparr>de_path = ''d'', de_isDirectory = True, de_size = 0\<rparr>,
               \<lparr>de_path = ''d/y'', de_isDirectory = False, de_size = 5\<rparr>]"

definition ex_plain_manifest :: bytes where
  "ex_plain_manifest = encodeManifest (sortManifest [hashPath ex_sha ''/x.js'', hashPath ex_sha ''/d/y''])"

lemma ex_plain_paths: "encodeFilePath ''x.js'' = ''/x.js''" "encodeFilePath ''d/y'' = ''/d/y''"
  by code_simp+

lemma ex_plain_built: "buildAssetsManifest ex_sha ex_plain_files ex_schedule = Inr ex_plain_manifest"
  by (simp add: buildAssetsManifest_def walk_def walk_step_def ex_plain_files_def ex_schedule_def
      MAX_ASSET_COUNT_def MAX_ASSET_SIZE_def ex_plain_manifest_def ex_plain_paths)

lemma ex_plain_complete: "complete_schedule ex_plain_files ex_schedule"
  by (simp add: complete_schedule_def ex_plain_files_def ex_schedule_def upt_rec numeral_2_eq_2)

lemma ex_plain_collision_free:
  assumes "p = ''/x.js'' \<or> p = ''/z''"
  shows "sha_collision_free ex_sha (request_paths ex_plain_files p)"
proof -
  have P: "request_paths ex_plain_files p \<subseteq> {''/x.js'', ''/d/y'', ''/z''}"
    unfolding request_paths_def using assms
    by (auto simp: ex_plain_files_def regular_files_def ex_plain_paths)
  have "inj_on (hashPath ex_sha) {''/x.js'', ''/d/y'', ''/z''}"
    by (simp add: inj_on_def hashPath_def ex_sha_def PATH_HASH_SIZE_def)
  with P show ?thesis
    by (auto simp: sha_collision_free_def ex_sha_def intro: inj_on_subset)
qed

theorem assets_dev_serves_witness:
  "router_fetch (asset_fetch ex_sha ex_plain_manifest
       (dev_kv (createReverseMap ex_sha (\<lambda>_. None) ex_plain_files) Some))
     (\<lambda>_. Inl (Thrown TypeError)) False (ex_get ''/x.js'')
   = Inr (asset_answer ex_sha (\<lambda>_. None) (ex_get ''/x.js'') ''x.js'' ''x.js'')
   \<and> router_fetch (asset_fetch ex_sha ex_plain_manifest
       (dev_kv (createReverseMap ex_sha (\<lambda>_. None) ex_plain_files) Some))
     (\<lambda>_. Inl (Thrown TypeError)) False (ex_get ''/z'') = Inr NotFoundResponse
   \<and> router_fetch (asset_fetch ex_sha ex_plain_manifest
       (dev_kv (createReverseMap ex_sha (\<lambda>_. None) ex_plain_files) Some))
     (\<lambda>_. Inl (Thrown TypeError)) False (ex_get ''/%zz'') = Inl (Thrown URIError)"
proof -
  have d: "decodeURIComponent (rq_pathname (ex_get ''/x.js'')) = Some ''/x.js''"
    "decodeURIComponent (rq_pathname (ex_get ''/z'')) = Some ''/z''"
    "decodeURIComponent (rq_pathname (ex_get ''/%zz'')) = None"
    by code_simp+
  have "toLowerCase ''GET'' = ''get''" by code_simp
  then have g: "toLowerCase (rq_method (ex_get p)) = ''get''" for p by (simp add: ex_get_def)
  have u: "plain_path ''x.js''" "plain_path ''d/y''" by code_simp+
  have n: "distinct (map de_path ex_plain_files)" by (simp add: ex_plain_files_def)
  have r: "regular_files ex_plain_files = [hd ex_plain_files, last ex_plain_files]"
    "de_path (hd ex_plain_files) = ''x.js''" "de_path (last ex_plain_files) = ''d/y''"
    by (simp_all add: ex_plain_files_def regular_files_def)
  have p: "\<forall>f \<in> set (regular_files ex_plain_files). plain_path (de_path f)"
    by (simp add: r u)
  have b: "\<forall>f \<in> set (regular_files ex_plain_files). Some (de_path f) = Some (de_path f)" by simp
  have c: "\<forall>p. decodeURIComponent (rq_pathname (ex_get ''/x.js'')) = Some p
      \<longrightarrow> sha_collision_free ex_sha (request_paths ex_plain_files p)"
    "\<forall>p. decodeURIComponent (rq_pathname (ex_get ''/z'')) = Some p
      \<longrightarrow> sha_collision_free ex_sha (request_paths ex_plain_files p)"
    "\<forall>p. decodeURIComponent (rq_pathname (ex_get ''/%zz'')) = Some p
      \<longrightarrow> sha_collision_free ex_sha (request_paths ex_plain_files p)"
    by (simp_all only: d option.inject option.distinct simp_thms ex_plain_collision_free)
  note serves = assets_dev_serves [where userWorker = "\<lambda>_. Inl (Thrown TypeError)" and hasUserWorker = False
      and getType = "\<lambda>_. None" and blobs = Some and content = "\<lambda>p. p",
      OF ex_plain_built ex_plain_complete n p _ b g]
  have f: "find (\<lambda>f. ''/'' @ de_path f = ''/x.js'') (regular_files ex_plain_files) = Some (hd ex_plain_files)"
    "find (\<lambda>f. ''/'' @ de_path f = ''/z'') (regular_files ex_plain_files) = None"
    unfolding r(1) by (simp_all add: r(2,3))
  have "router_fetch (asset_fetch ex_sha ex_plain_manifest
       (dev_kv (createReverseMap ex_sha (\<lambda>_. None) ex_plain_files) Some))
     (\<lambda>_. Inl (Thrown TypeError)) False (ex_get ''/x.js'')
    = Inr (asset_answer ex_sha (\<lambda>_. None) (ex_get ''/x.js'') ''x.js'' ''x.js'')"
    unfolding serves [OF c(1)] by (simp only: d(1) f(1) r(2) option.case)
  moreover have "router_fetch (asset_fetch ex_sha ex_plain_manifest
       (dev_kv (createReverseMap ex_sha (\<lambda>_. None) ex_plain_files) Some))
     (\<lambda>_. Inl (Thrown TypeError)) False (ex_get ''/z'') = Inr NotFoundResponse"
    unfolding serves [OF c(2)] by (simp only: d(2) f(2) option.case if_False)
  moreover have "router_fetch (asset_fetch ex_sha ex_plain_manifest
       (dev_kv (createReverseMap ex_sha (\<lambda>_. None) ex_plain_files) Some))
     (\<lambda>_. Inl (Thrown TypeError)) False (ex_get ''/%zz'') = Inl (Thrown URIError)"
    unfolding serves [OF c(3)] by (simp only: d(3) option.case)
  ultimately show ?thesis by blast
qed

text \<open>
  names that need escaping are not served. The manifest hashes the percent-encoded path of a
  file, the worker hashes the decoded path of the request: a request for the URL of a file whose
  name has a character that has to be escaped, other than the percent sign, is answered with 404.
\<close>

theorem assets_escaped_name_404:
  assumes "buildAssetsManifest sha files evs = Inr manifest" and "complete_schedule files evs"
    and "distinct (map de_path files)"
    and "sha_collision_free sha (request_paths files (''/'' @ de_path f))"
    and "f \<in> set (regular_files files)" and "valid_text (de_path f)"
    and "c \<in> set (de_path f)" and "\<not> is_unreserved c" and "c \<noteq> CHR ''/''" and "c \<noteq> CHR ''%''"
    and "rq_pathname rq = encodeFilePath (de_path f)"
  shows "asset_fetch sha manifest kv rq = Inr NotFoundResponse"
proof -
  have "\<not> c \<in> set (encodeFilePath q)" for q
    using encodeFilePath_alphabet [of c q] assms(8-10) by blast
  then have "''/'' @ de_path f \<notin> (\<lambda>f. encodeFilePath (de_path f)) ` set (regular_files files)"
    using assms(7) by (metis (no_types, lifting) Un_iff imageE set_append)
  moreover have "decodeURIComponent (rq_pathname rq) = Some (''/'' @ de_path f)"
    using decode_encodeFilePath [OF assms(6)] assms(11) by simp
  ultimately show ?thesis
    using dev_manifest_get [OF assms(1-4)]
    by (simp add: asset_fetch_def handleRequest_def getAssetEntry_def)
qed

theorem assets_escaped_name_404_witness:
  "encodeFilePath ''a b'' = ''/a%20b''
   \<and> asset_fetch ex_sha ex_manifest (\<lambda>_ _. Inr (Some (0 :: nat, None))) (ex_get ''/a%20b'') = Inr NotFoundResponse"
proof -
  let ?f = "\<lparr>de_path = ''a b'', de_isDirectory = False, de_size = 5\<rparr>"
  have e: "encodeFilePath ''a b'' = ''/a%20b''" by code_simp
  have v: "valid_text (de_path ?f)" by code_simp
  have r: "\<not> is_unreserved CHR '' ''" by code_simp
  show ?thesis
    using assets_escaped_name_404 [OF ex_built ex_complete ex_distinct ex_collision_free _ v _ r,
        where rq = "ex_get ''/a%20b''" and kv = "\<lambda>_ _. Inr (Some (0, None))"] e
    by (simp add: ex_files_def regular_files_def ex_get_def)
qed

text \<open>
  The limit on the number of assets does not hold when the checks of all files come before the
  first digest: such a schedule accepts any number of files.
\<close>

lemma walk_checks_first:
  assumes "\<forall>f \<in> set files. \<not> de_isDirectory f \<and> de_size f \<le> MAX_ASSET_SIZE"
  shows "is \<noteq> [] \<longrightarrow> set is \<subseteq> {0..<length files} \<Longrightarrow> wk_counter st = 0 \<Longrightarrow>
    walk_events sha files (map Stat is) st = Inr (st\<lparr>wk_hashing := rev is @ wk_hashing st\<rparr>)"
proof (induction "is" arbitrary: st)
  case (Cons i js)
  then have "files ! i \<in> set files" by simp
  with assms Cons show ?case
    by (simp add: walk_step_def MAX_ASSET_COUNT_def leD)
qed simp

end
