(* ===== verification/FunctionModules.thy ===== *)
theory FunctionModules
  imports FunctionFiles
begin

text \<open>
  The module that imports the handlers of Pages Functions, \<^verbatim>\<open>packages/wrangler/src/pages/functions/routes.ts\<close>
  and \<^verbatim>\<open>identifiers.ts\<close>: which identifier stands for which export of which file, and the arrays of
  identifiers of the routes.

  The base directory is an absolute POSIX path, given by its segments. Identifiers are those of ASCII.
\<close>

subsection \<open>Identifiers\<close>

definition RESERVED_KEYWORDS :: "string list" where
  "RESERVED_KEYWORDS =
     [''do'', ''if'', ''in'', ''for'', ''let'', ''new'', ''try'', ''var'', ''case'', ''else'', ''enum'', ''eval'',
      ''null'', ''this'', ''true'', ''void'', ''with'', ''await'', ''break'', ''catch'', ''class'', ''const'',
      ''false'', ''super'', ''throw'', ''while'', ''yield'', ''delete'', ''export'', ''import'', ''public'',
      ''return'', ''static'', ''switch'', ''typeof'', ''default'', ''extends'', ''finally'', ''package'',
      ''private'', ''continue'', ''debugger'', ''function'', ''arguments'', ''interface'', ''protected'',
      ''implements'', ''instanceof'', ''NaN'', ''Infinity'', ''undefined'']"

definition identifierStart :: "char \<Rightarrow> bool" where
  "identifierStart c \<longleftrightarrow> c = CHR ''$'' \<or> c = CHR ''_'' \<or> is_upper c \<or> is_lower c"

definition identifierPart :: "char \<Rightarrow> bool" where
  "identifierPart c \<longleftrightarrow> identifierStart c \<or> is_digit c"

definition isValidIdentifier :: "string \<Rightarrow> bool" where
  "isValidIdentifier s \<longleftrightarrow>
     s \<notin> set RESERVED_KEYWORDS \<and> s \<noteq> [] \<and> identifierStart (hd s) \<and> list_all identifierPart (tl s)"

definition normalizeIdentifier :: "string \<Rightarrow> string" where
  "normalizeIdentifier s =
     (case s of
        [] \<Rightarrow> []
      | c # t \<Rightarrow> (if identifierStart c then c else CHR ''_'')
                 # map (\<lambda>d. if identifierPart d then d else CHR ''_'') t)"

subsection \<open>Paths\<close>

text \<open>\<open>path.resolve(baseDir, filepath)\<close>, as segments.\<close>

definition resolvePath :: "string list \<Rightarrow> string \<Rightarrow> string list" where
  "resolvePath baseDir filepath =
     normalize_segments True ((if startsWith filepath ''/'' then [] else baseDir) @ split_on CHR ''/'' filepath) []"

fun drop_common :: "string list \<Rightarrow> string list \<Rightarrow> string list \<times> string list" where
  "drop_common (a # as) (b # bs) = (if a = b then drop_common as bs else (a # as, b # bs))"
| "drop_common as bs = (as, bs)"

text \<open>\<open>path.relative(baseDir, to)\<close>.\<close>

definition relativePath :: "string list \<Rightarrow> string list \<Rightarrow> string" where
  "relativePath baseDir to =
     (let (up, down) = drop_common baseDir to
      in join_with ''/'' (replicate (length up) ''..'' @ down))"

definition absolutePath :: "string list \<Rightarrow> string" where
  "absolutePath segments = ''/'' @ join_with ''/'' segments"

subsection \<open>The import map\<close>

record importEntry =
  ie_filepath :: string
  ie_name :: string
  ie_identifier :: string

record parseState =
  importMap :: "(string \<times> importEntry) list"
  identifierCount :: "(string \<times> nat) list"

definition module_message :: "string \<Rightarrow> string" where
  "module_message filepath = ''Invalid module path '' @ [CHR 0x22] @ filepath @ [CHR 0x22]"

definition identifier_message :: "string \<Rightarrow> string" where
  "identifier_message name = ''Invalid module identifier '' @ [CHR 0x22] @ name @ [CHR 0x22]"

text \<open>\<open>modulePath.split(":")\<close>: the file and the name, and nothing of a third part.\<close>

definition splitModulePath :: "string \<Rightarrow> string \<times> string" where
  "splitModulePath modulePath =
     (case split_on CHR '':'' modulePath of
        filepath # name # _ \<Rightarrow> (filepath, name)
      | [filepath] \<Rightarrow> (filepath, ''default'')
      | [] \<Rightarrow> ([], ''default''))"

text \<open>The identifier of one module path; a new one is counted and entered.\<close>

definition moduleIdentifier ::
  "string list \<Rightarrow> string \<Rightarrow> parseState \<Rightarrow> function_error + string \<times> parseState"
where
  "moduleIdentifier baseDir modulePath st =
     (let (filepath, name) = splitModulePath modulePath;
          resolvedPath = resolvePath baseDir filepath
      in if startsWith (relativePath baseDir resolvedPath) ''..'' then Inl (UserError (module_message filepath))
         else if name \<noteq> ''default'' \<and> \<not> isValidIdentifier name then Inl (UserError (identifier_message name))
         else (case map_of (importMap st) modulePath of
                 Some e \<Rightarrow> Inr (ie_identifier e, st)
               | None \<Rightarrow>
                   (let base = normalizeIdentifier (''__'' @ filepath @ ''_'' @ name);
                        count = (case map_of (identifierCount st) base of None \<Rightarrow> 0 | Some n \<Rightarrow> n) + 1;
                        identifier = (if 1 < count then base @ ''_'' @ show_nat count else base)
                    in Inr (identifier,
                         \<lparr>importMap = importMap st @ [(modulePath, \<lparr>ie_filepath = absolutePath resolvedPath,
                              ie_name = name, ie_identifier = identifier\<rparr>)],
                          identifierCount = (base, count) # identifierCount st\<rparr>))))"

fun parseModuleIdentifiers ::
  "string list \<Rightarrow> string list \<Rightarrow> parseState \<Rightarrow> function_error + string list \<times> parseState"
where
  "parseModuleIdentifiers baseDir [] st = Inr ([], st)"
| "parseModuleIdentifiers baseDir (p # ps) st =
     andThen (moduleIdentifier baseDir p st) (\<lambda>(i, st1).
     andThen (parseModuleIdentifiers baseDir ps st1) (\<lambda>(is, st2). Inr (i # is, st2)))"

record 'h routeHandler =
  rh_routePath :: string
  rh_mountPath :: string
  rh_method :: string
  rh_modules :: "'h list"
  rh_middlewares :: "'h list"

definition optional_list :: "'a list option \<Rightarrow> 'a list" where
  "optional_list l = (case l of None \<Rightarrow> [] | Some xs \<Rightarrow> xs)"

fun parseRouteConfigs ::
  "string list \<Rightarrow> routeConfig list \<Rightarrow> parseState \<Rightarrow> function_error + string routeHandler list \<times> parseState"
where
  "parseRouteConfigs baseDir [] st = Inr ([], st)"
| "parseRouteConfigs baseDir (r # rs) st =
     andThen (parseModuleIdentifiers baseDir (optional_list (rc_middleware r)) st) (\<lambda>(mw, st1).
     andThen (parseModuleIdentifiers baseDir (optional_list (rc_module r)) st1) (\<lambda>(ms, st2).
     andThen (parseRouteConfigs baseDir rs st2) (\<lambda>(hs, st3).
     Inr (\<lparr>rh_routePath = rc_routePath r, rh_mountPath = rc_mountPath r, rh_method = rc_method r,
           rh_modules = ms, rh_middlewares = mw\<rparr> # hs, st3))))"

definition parseConfig ::
  "routeConfig list \<Rightarrow> string list
   \<Rightarrow> function_error + string routeHandler list \<times> (string \<times> importEntry) list"
where
  "parseConfig routes baseDir =
     andThen (parseRouteConfigs baseDir routes \<lparr>importMap = [], identifierCount = []\<rparr>) (\<lambda>(hs, st).
     Inr (hs, importMap st))"

end
