(* ===== verification/FunctionWorker.thy ===== *)
theory FunctionWorker
  imports FunctionModules
begin

text \<open>
  The worker that runs Pages Functions, \<^verbatim>\<open>packages/wrangler/templates/pages-template-worker.ts\<close>: which
  handlers a request gets, in which order, and how they call each other through \<open>next\<close>.

  The matcher of \<^verbatim>\<open>path-to-regexp\<close> is a parameter: \<open>match pattern end path\<close> is the parameters and the
  matched part of the path. A handler is a function from its context to an action: a tree of what it
  does, one step after the other; what it gets back selects the branch it takes.
\<close>

subsection \<open>The handlers of a request\<close>

definition escapePattern :: "string \<Rightarrow> string" where
  "escapePattern s =
     concat (map (\<lambda>c. if c \<in> set ''.+?^${}()|[]'' \<or> c = CHR 0x5C then [CHR 0x5C, c] else [c]) s)"

type_synonym 'p path_match = "string \<Rightarrow> bool \<Rightarrow> string \<Rightarrow> ('p \<times> string) option"

record ('h, 'p) handlerCall =
  hc_handler :: 'h
  hc_params :: 'p
  hc_path :: string

definition methodMatches :: "'h routeHandler \<Rightarrow> string \<Rightarrow> bool" where
  "methodMatches route method \<longleftrightarrow> rh_method route = [] \<or> rh_method route = method"

definition routeMatch :: "'p path_match \<Rightarrow> bool \<Rightarrow> 'h routeHandler \<Rightarrow> string \<Rightarrow> (('p \<times> string) \<times> 'p \<times> string) option" where
  "routeMatch match end route requestPath =
     (case (match (escapePattern (rh_routePath route)) end requestPath,
            match (escapePattern (rh_mountPath route)) False requestPath) of
        (Some a, Some b) \<Rightarrow> Some (a, b)
      | _ \<Rightarrow> None)"

definition middlewareCalls ::
  "'p path_match \<Rightarrow> string \<Rightarrow> string \<Rightarrow> 'h routeHandler \<Rightarrow> ('h, 'p) handlerCall list"
where
  "middlewareCalls match method requestPath route =
     (if \<not> methodMatches route method then []
      else (case routeMatch match False route requestPath of
              None \<Rightarrow> []
            | Some (a, b) \<Rightarrow>
                map (\<lambda>h. \<lparr>hc_handler = h, hc_params = fst a, hc_path = snd b\<rparr>) (rh_middlewares route)))"

fun moduleCalls ::
  "'p path_match \<Rightarrow> string \<Rightarrow> string \<Rightarrow> 'h routeHandler list \<Rightarrow> ('h, 'p) handlerCall list"
where
  "moduleCalls match method requestPath [] = []"
| "moduleCalls match method requestPath (route # routes) =
     (if \<not> methodMatches route method then moduleCalls match method requestPath routes
      else (case routeMatch match True route requestPath of
              None \<Rightarrow> moduleCalls match method requestPath routes
            | Some (a, b) \<Rightarrow>
                if rh_modules route = [] then moduleCalls match method requestPath routes
                else map (\<lambda>h. \<lparr>hc_handler = h, hc_params = fst a, hc_path = snd a\<rparr>) (rh_modules route)))"

text \<open>Everything the generator yields.\<close>

definition executeRequest ::
  "'p path_match \<Rightarrow> 'h routeHandler list \<Rightarrow> string \<Rightarrow> string \<Rightarrow> ('h, 'p) handlerCall list"
where
  "executeRequest match routes method requestPath =
     concat (map (middlewareCalls match method requestPath) (rev routes)) @ moduleCalls match method requestPath routes"

text \<open>The routes of the generated module: an identifier stands for the handler that is imported under it.\<close>

definition linkRoute :: "(string \<Rightarrow> 'h) \<Rightarrow> string routeHandler \<Rightarrow> 'h routeHandler" where
  "linkRoute imported r =
     \<lparr>rh_routePath = rh_routePath r, rh_mountPath = rh_mountPath r, rh_method = rh_method r,
      rh_modules = map imported (rh_modules r), rh_middlewares = map imported (rh_middlewares r)\<rparr>"

subsection \<open>Running them\<close>

record func_response =
  fr_status :: nat
  fr_headers :: "(string \<times> string) list"
  fr_body :: "string option"

definition cloneResponse :: "func_response \<Rightarrow> func_response" where
  "cloneResponse r = (if fr_status r \<in> {101, 204, 205, 304} then r\<lparr>fr_body := None\<rparr> else r)"

type_synonym func_result = "string + func_response"

text \<open>
  The steps of a handler: the end with a value (\<^const>\<open>None\<close> for one that is not a response), an
  exception, a call of \<open>next\<close> with or without a new request, reading and setting \<open>context.data\<close> (the
  branch after setting gets whether the value was an object), \<open>passThroughOnException\<close>.
\<close>

datatype ('rq, 'd) action =
    Return "func_response option"
  | Throw string
  | Next "'rq option" "func_result \<Rightarrow> ('rq, 'd) action"
  | GetData "'d \<Rightarrow> ('rq, 'd) action"
  | SetData "'d option" "bool \<Rightarrow> ('rq, 'd) action"
  | PassThroughOnException "('rq, 'd) action"

record ('rq, 'p) func_context =
  cx_request :: 'rq
  cx_functionPath :: string
  cx_params :: 'p

type_synonym ('rq, 'd, 'p) pages_function = "('rq, 'p) func_context \<Rightarrow> ('rq, 'd) action"

text \<open>
  The variables of a call of \<open>fetch\<close>. The last one is the number of requests sent to the fallback
  service or the origin, which only the statements use.
\<close>

record ('rq, 'd, 'p) worker_state =
  ws_iterator :: "(('rq, 'd, 'p) pages_function, 'p) handlerCall list"
  ws_request :: 'rq
  ws_data :: 'd
  ws_isFailOpen :: bool
  ws_fetched :: nat

text \<open>The fallback service, if there is one, and the origin.\<close>

record 'rq worker_env =
  we_fallback :: "('rq \<Rightarrow> func_result) option"
  we_origin :: "'rq \<Rightarrow> func_result"

definition clone_result :: "func_result \<Rightarrow> func_result" where
  "clone_result r = (case r of Inl e \<Rightarrow> Inl e | Inr x \<Rightarrow> Inr (cloneResponse x))"

definition fallback_fetch ::
  "'rq worker_env \<Rightarrow> ('rq, 'd, 'p) worker_state \<Rightarrow> func_result \<times> ('rq, 'd, 'p) worker_state"
where
  "fallback_fetch env st =
     (clone_result ((case we_fallback env of None \<Rightarrow> we_origin env | Some f \<Rightarrow> f) (ws_request st)),
      st\<lparr>ws_fetched := ws_fetched st + 1\<rparr>)"

primrec run_action ::
  "('rq option \<Rightarrow> ('rq, 'd, 'p) worker_state \<Rightarrow> func_result \<times> ('rq, 'd, 'p) worker_state)
   \<Rightarrow> ('rq, 'd) action \<Rightarrow> ('rq, 'd, 'p) worker_state \<Rightarrow> func_result \<times> ('rq, 'd, 'p) worker_state"
where
  "run_action nxt (Return r) =
     (\<lambda>st. (case r of None \<Rightarrow> Inl ''Your Pages function should return a Response'' | Some x \<Rightarrow> Inr x, st))"
| "run_action nxt (Throw e) = (\<lambda>st. (Inl e, st))"
| "run_action nxt (Next input k) = (\<lambda>st. run_action nxt (k (fst (nxt input st))) (snd (nxt input st)))"
| "run_action nxt (GetData k) = (\<lambda>st. run_action nxt (k (ws_data st)) st)"
| "run_action nxt (SetData v k) =
     (\<lambda>st. run_action nxt (k (v \<noteq> None)) (case v of None \<Rightarrow> st | Some d \<Rightarrow> st\<lparr>ws_data := d\<rparr>))"
| "run_action nxt (PassThroughOnException a) = (\<lambda>st. run_action nxt a (st\<lparr>ws_isFailOpen := True\<rparr>))"

text \<open>
  \<open>next\<close>. The fuel bounds the number of handlers that are left; \<open>worker_next_fuel\<close> shows that any
  number that is large enough gives the same result.
\<close>

primrec worker_next ::
  "'rq worker_env \<Rightarrow> nat \<Rightarrow> 'rq option \<Rightarrow> ('rq, 'd, 'p) worker_state \<Rightarrow> func_result \<times> ('rq, 'd, 'p) worker_state"
where
  "worker_next env 0 =
     (\<lambda>input st. fallback_fetch env (case input of None \<Rightarrow> st | Some rq \<Rightarrow> st\<lparr>ws_request := rq\<rparr>))"
| "worker_next env (Suc n) =
     (\<lambda>input st0.
        let st = (case input of None \<Rightarrow> st0 | Some rq \<Rightarrow> st0\<lparr>ws_request := rq\<rparr>) in
        case ws_iterator st of
          [] \<Rightarrow> fallback_fetch env st
        | c # cs \<Rightarrow>
            let context = \<lparr>cx_request = ws_request st, cx_functionPath = hc_path c, cx_params = hc_params c\<rparr>;
                (r, st1) = run_action (worker_next env n) (hc_handler c context) (st\<lparr>ws_iterator := cs\<rparr>)
            in (clone_result r, st1))"

definition worker_fetch ::
  "'p path_match \<Rightarrow> ('rq, 'd, 'p) pages_function routeHandler list \<Rightarrow> 'rq worker_env \<Rightarrow> 'd
   \<Rightarrow> string \<Rightarrow> string \<Rightarrow> 'rq \<Rightarrow> func_result \<times> ('rq, 'd, 'p) worker_state"
where
  "worker_fetch match routes env data0 method requestPath request =
     (let calls = executeRequest match routes method requestPath;
          st0 = \<lparr>ws_iterator = calls, ws_request = request, ws_data = data0, ws_isFailOpen = False, ws_fetched = 0\<rparr>;
          (r, st) = worker_next env (length calls) None st0
      in case r of
           Inr x \<Rightarrow> (Inr x, st)
         | Inl e \<Rightarrow>
             if ws_isFailOpen st then
               (case we_fallback env of None \<Rightarrow> (Inl ''TypeError'', st) | Some f \<Rightarrow> fallback_fetch env st)
             else (Inl e, st))"

end
