(* ===== verification/FunctionProperties.thy ===== *)
theory FunctionProperties
  imports FunctionWorker
begin

text \<open>
  What holds of Pages Functions: the walk finds every file, the routes are the entries of the files with
  one route per path and method, they are ordered by precedence, the identifiers of the imports are
  distinct, and the worker runs the handlers of a request in order.
\<close>

subsection \<open>The walk\<close>

text \<open>The files of a tree, by their paths.\<close>

fun tree_file :: "fs_dir \<Rightarrow> string list \<Rightarrow> bool" where
  "tree_file es [] \<longleftrightarrow> False"
| "tree_file es [n] \<longleftrightarrow> (n, FileNode) \<in> set es"
| "tree_file es (n # p) \<longleftrightarrow> (\<exists>es1. (n, DirNode es1) \<in> set es \<and> tree_file es1 p)"

lemma dir_files_iff: "f \<in> set (dir_files cwd es) \<longleftrightarrow> (\<exists>n. f = cwd @ [n] \<and> (n, FileNode) \<in> set es)"
  by (auto simp: dir_files_def)

lemma dir_dirs_iff: "(c, es1) \<in> set (dir_dirs cwd es) \<longleftrightarrow> (\<exists>n. c = cwd @ [n] \<and> (n, DirNode es1) \<in> set es)"
  by (induction cwd es rule: dir_dirs.induct) (auto split: fs_node.splits)

lemma tree_file_cases:
  "tree_file es p \<longleftrightarrow> (\<exists>n. p = [n] \<and> (n, FileNode) \<in> set es)
     \<or> (\<exists>n q es1. p = n # q \<and> (n, DirNode es1) \<in> set es \<and> tree_file es1 q)"
  by (induction es p rule: tree_file.induct) auto

lemma dir_split:
  "(\<exists>p. f = cwd @ p \<and> tree_file es p) \<longleftrightarrow> f \<in> set (dir_files cwd es)
     \<or> (\<exists>c es1 p. (c, es1) \<in> set (dir_dirs cwd es) \<and> f = c @ p \<and> tree_file es1 p)"
proof (intro iffI; (elim exE conjE disjE)?)
  fix p
  assume "f = cwd @ p" "tree_file es p"
  then show "f \<in> set (dir_files cwd es)
     \<or> (\<exists>c es1 p. (c, es1) \<in> set (dir_dirs cwd es) \<and> f = c @ p \<and> tree_file es1 p)"
    unfolding tree_file_cases [of es p] dir_files_iff dir_dirs_iff by fastforce
next
  assume "f \<in> set (dir_files cwd es)"
  then obtain n where "f = cwd @ [n]" "(n, FileNode) \<in> set es" by (auto simp: dir_files_iff)
  then show "\<exists>p. f = cwd @ p \<and> tree_file es p" by (intro exI [of _ "[n]"]) simp
next
  fix c es1 p
  assume "(c, es1) \<in> set (dir_dirs cwd es)" "f = c @ p" "tree_file es1 p"
  then obtain n where "f = cwd @ (n # p)" "(n, DirNode es1) \<in> set es" by (auto simp: dir_dirs_iff)
  with \<open>tree_file es1 p\<close> show "\<exists>p. f = cwd @ p \<and> tree_file es p"
    using tree_file_cases [of es "n # p"] by blast
qed

lemma forEachFile_iff: "f \<in> set (forEachFile q) \<longleftrightarrow> (\<exists>cwd es p. (cwd, es) \<in> set q \<and> f = cwd @ p \<and> tree_file es p)"
proof (induction q rule: forEachFile.induct)
  case (2 cwd es searchPaths)
  have "f \<in> set (forEachFile ((cwd, es) # searchPaths)) \<longleftrightarrow> (\<exists>p. f = cwd @ p \<and> tree_file es p)
      \<or> (\<exists>c es1 p. (c, es1) \<in> set searchPaths \<and> f = c @ p \<and> tree_file es1 p)"
    unfolding forEachFile.simps set_append Un_iff 2 dir_split [of f cwd es] by blast
  then show ?case by auto
qed simp

lemma walk_files: "f \<in> set (forEachFile [([], es)]) \<longleftrightarrow> tree_file es f"
  unfolding forEachFile_iff by simp

subsection \<open>The entries\<close>

definition file_entry ::
  "(string list \<Rightarrow> string list option) \<Rightarrow> string \<Rightarrow> string list \<Rightarrow> routeConfig \<Rightarrow> bool"
where
  "file_entry exportNames baseURL f e \<longleftrightarrow>
     isFunctionExtension (extname (last f)) \<and>
     (\<exists>xs x m. exportNames f = Some xs \<and> x \<in> set xs \<and> exportMethod x = Some m \<and> routeEntry baseURL f x m = Inr e)"

lemma exportEntries_iff:
  "exportEntries baseURL f xs = Inr es \<Longrightarrow>
     e \<in> set es \<longleftrightarrow> (\<exists>x \<in> set xs. \<exists>m. exportMethod x = Some m \<and> routeEntry baseURL f x m = Inr e)"
  by (induction xs arbitrary: es) (auto split: option.splits)

lemma fileEntries_iff:
  "fileEntries exportNames baseURL f = Inr es \<Longrightarrow> e \<in> set es \<longleftrightarrow> file_entry exportNames baseURL f e"
  by (auto simp: fileEntries_def file_entry_def exportEntries_iff split: option.splits if_splits)

lemma allEntries_iff:
  "allEntries exportNames baseURL fs = Inr es \<Longrightarrow>
     e \<in> set es \<longleftrightarrow> (\<exists>f \<in> set fs. file_entry exportNames baseURL f e)"
proof (induction fs arbitrary: es)
  case (Cons f fs)
  then obtain rs rs1 where "fileEntries exportNames baseURL f = Inr rs" "allEntries exportNames baseURL fs = Inr rs1"
    "es = rs @ rs1" by auto
  with Cons.IH show ?case by (simp add: fileEntries_iff)
qed simp

subsection \<open>One route per path and method\<close>

definition route_id :: "routeConfig \<Rightarrow> string \<times> string" where
  "route_id r = (rc_routePath r, rc_method r)"

lemma same_route_id: "same_route a b \<longleftrightarrow> route_id a = route_id b"
  by (simp add: same_route_def route_id_def)

text \<open>The last value of an optional property.\<close>

fun last_some :: "('a \<Rightarrow> 'b option) \<Rightarrow> 'a list \<Rightarrow> 'b option" where
  "last_some f [] = None"
| "last_some f (x # xs) = (case last_some f xs of None \<Rightarrow> f x | Some y \<Rightarrow> Some y)"

lemma last_some_append: "last_some f (xs @ ys) = (case last_some f ys of None \<Rightarrow> last_some f xs | Some y \<Rightarrow> Some y)"
  by (induction xs) (auto split: option.splits)

definition combined :: "routeConfig list \<Rightarrow> routeConfig list \<Rightarrow> bool" where
  "combined es rs \<longleftrightarrow> distinct (map route_id rs) \<and> set (map route_id rs) = set (map route_id es) \<and>
     (\<forall>r \<in> set rs. rc_module r = last_some rc_module (filter (same_route r) es) \<and>
        rc_middleware r = last_some rc_middleware (filter (same_route r) es) \<and>
        rc_mountPath r = rc_mountPath (last (filter (same_route r) es)))"

lemma assignEntry_sel [simp]:
  "same_route r e \<Longrightarrow> route_id (assignEntry r e) = route_id r"
  "rc_mountPath (assignEntry r e) = rc_mountPath e"
  "rc_module (assignEntry r e) = (case rc_module e of None \<Rightarrow> rc_module r | Some m \<Rightarrow> Some m)"
  "rc_middleware (assignEntry r e) = (case rc_middleware e of None \<Rightarrow> rc_middleware r | Some m \<Rightarrow> Some m)"
  by (auto simp: assignEntry_def route_id_def same_route_def split: option.splits)

lemma combineEntry_ids:
  "map route_id (combineEntry rs e) =
     (if route_id e \<in> set (map route_id rs) then map route_id rs else map route_id rs @ [route_id e])"
  by (induction rs) (auto simp: same_route_id)

lemma combineEntry_in:
  "distinct (map route_id rs) \<Longrightarrow> x \<in> set (combineEntry rs e) \<Longrightarrow>
     x \<in> set rs \<and> route_id x \<noteq> route_id e
     \<or> (\<exists>r \<in> set rs. same_route r e \<and> x = assignEntry r e)
     \<or> x = e \<and> route_id e \<notin> set (map route_id rs)"
proof (induction rs)
  case (Cons r rs)
  then show ?case by (cases "same_route r e") (auto simp: same_route_id, metis imageI)
qed simp

lemma combined_snoc:
  assumes "combined es rs"
  shows "combined (es @ [e]) (combineEntry rs e)"
proof -
  have d: "distinct (map route_id rs)" and ids: "set (map route_id rs) = set (map route_id es)"
    and fs: "\<And>r. r \<in> set rs \<Longrightarrow> rc_module r = last_some rc_module (filter (same_route r) es) \<and>
        rc_middleware r = last_some rc_middleware (filter (same_route r) es) \<and>
        rc_mountPath r = rc_mountPath (last (filter (same_route r) es))"
    using assms by (auto simp: combined_def)
  have new: "filter (same_route e) es = []" if "route_id e \<notin> set (map route_id rs)"
    using that unfolding ids by (auto simp: filter_empty_conv same_route_id)
  have sel: "rc_module x = last_some rc_module (filter (same_route x) (es @ [e])) \<and>
      rc_middleware x = last_some rc_middleware (filter (same_route x) (es @ [e])) \<and>
      rc_mountPath x = rc_mountPath (last (filter (same_route x) (es @ [e])))"
    if "x \<in> set (combineEntry rs e)" for x
    using combineEntry_in [OF d that]
  proof (elim disjE conjE bexE)
    assume "x \<in> set rs" "route_id x \<noteq> route_id e"
    then show ?thesis using fs [of x] by (simp add: same_route_id)
  next
    fix r
    assume r: "r \<in> set rs" "same_route r e" "x = assignEntry r e"
    then have "same_route x = same_route r" by (auto simp: same_route_id fun_eq_iff)
    with fs [OF r(1)] r(2,3) show ?thesis by (simp add: last_some_append split: option.splits)
  next
    assume "x = e" "route_id e \<notin> set (map route_id rs)"
    with new show ?thesis by (simp add: same_route_id)
  qed
  then show ?thesis
    using d ids combineEntry_ids [of rs e] unfolding combined_def by auto
qed

lemma combineEntries_combined: "combined es (combineEntries es)"
proof (induction es rule: rev_induct)
  case Nil
  show ?case by (simp add: combined_def combineEntries_def)
next
  case (snoc e es)
  then show ?case by (simp add: combineEntries_def combined_snoc)
qed

text \<open>The walk reads the directories breadth first, so the files come by their depth.\<close>

lemma depth_dir_files: "f \<in> set (dir_files cwd es) \<Longrightarrow> length f = Suc (length cwd)"
  by (auto simp: dir_files_def)

lemma depth_dir_dirs: "q \<in> set (dir_dirs cwd es) \<Longrightarrow> length (fst q) = Suc (length cwd)"
  by (induction cwd es rule: dir_dirs.induct) (auto split: fs_node.splits)

lemma sorted_same: "(\<And>x. x \<in> set xs \<Longrightarrow> x = n) \<Longrightarrow> sorted (xs :: nat list)"
  by (induction xs) auto

lemma forEachFile_depth:
  "sorted (map (\<lambda>q. length (fst q)) q) \<Longrightarrow> (\<And>x. x \<in> set q \<Longrightarrow> length (fst x) \<le> Suc (length (fst (hd q)))) \<Longrightarrow>
     sorted (map length (forEachFile q)) \<and> (\<forall>f \<in> set (forEachFile q). length (fst (hd q)) < length f)"
proof (induction q rule: forEachFile.induct)
  case (2 cwd es searchPaths)
  let ?q = "searchPaths @ dir_dirs cwd es"
  have le: "length cwd \<le> length (fst x)" if "x \<in> set ?q" for x
    using that 2(2) by (auto dest: depth_dir_dirs)
  have ge: "length (fst x) \<le> Suc (length cwd)" if "x \<in> set ?q" for x
    using that 2(3) [of x] by (auto dest: depth_dir_dirs)
  have dirs: "map (\<lambda>q. length (fst q)) (dir_dirs cwd es) = replicate (length (dir_dirs cwd es)) (Suc (length cwd))"
    by (simp add: map_replicate_const [symmetric] depth_dir_dirs cong: map_cong)
  have "sorted (map (\<lambda>q. length (fst q)) ?q)"
    using 2(2) ge unfolding map_append dirs sorted_append by auto
  moreover have "length (fst x) \<le> Suc (length (fst (hd ?q)))" if "x \<in> set ?q" for x
  proof -
    have "hd ?q \<in> set ?q" using that by (cases ?q) auto
    with le ge that show ?thesis by (meson Suc_le_mono order_trans)
  qed
  ultimately have ih: "sorted (map length (forEachFile ?q))" "\<forall>f \<in> set (forEachFile ?q). length (fst (hd ?q)) < length f"
    using 2(1) by auto
  have files: "map length (dir_files cwd es) = replicate (length (dir_files cwd es)) (Suc (length cwd))"
    by (simp add: map_replicate_const [symmetric] depth_dir_files cong: map_cong)
  have deeper: "length cwd < length f" if "f \<in> set (forEachFile ?q)" for f
  proof -
    have "?q \<noteq> []" using that by auto
    then have "length cwd \<le> length (fst (hd ?q))" by (intro le hd_in_set)
    with ih(2) that show ?thesis by fastforce
  qed
  show ?case
    using ih(1) deeper unfolding forEachFile.simps map_append files sorted_append by (auto simp: Suc_le_eq dest: depth_dir_files)
qed simp

text \<open>
  C22: The configuration of Pages Functions is complete. The walk visits exactly the files of the tree, the
  shallower ones first. Let the entries be those of the files in this order, and of the exports of a file in
  their order. Then there is exactly one route for every path and method of an entry; its module and its
  middleware are those of the last entry of that kind, its mount path is that of the last entry.
\<close>

theorem config_combines_exports:
  assumes "generateConfigFromFileTree localeCompare exportNames baseURL baseDir = Inr routes"
  shows "\<exists>files es. files = forEachFile [([], baseDir)] \<and> allEntries exportNames (normaliseBaseURL baseURL) files = Inr es \<and>
    set files = {f. tree_file baseDir f} \<and> sorted (map length files) \<and>
    (\<forall>e. e \<in> set es \<longleftrightarrow> (\<exists>f. tree_file baseDir f \<and> file_entry exportNames (normaliseBaseURL baseURL) f e)) \<and>
    distinct (map route_id routes) \<and> set (map route_id routes) = set (map route_id es) \<and>
    (\<forall>r \<in> set routes. rc_module r = last_some rc_module (filter (same_route r) es) \<and>
       rc_middleware r = last_some rc_middleware (filter (same_route r) es) \<and>
       rc_mountPath r = rc_mountPath (last (filter (same_route r) es)))"
proof -
  obtain es where es: "allEntries exportNames (normaliseBaseURL baseURL) (forEachFile [([], baseDir)]) = Inr es"
    and r: "routes = js_sort (compareRouteConfigs localeCompare) (combineEntries es)"
    using assms by (auto simp: generateConfigFromFileTree_def)
  have "\<forall>e. e \<in> set es \<longleftrightarrow> (\<exists>f. tree_file baseDir f \<and> file_entry exportNames (normaliseBaseURL baseURL) f e)"
    using allEntries_iff [OF es] walk_files by blast
  moreover have "combined es routes"
    using combineEntries_combined [of es] unfolding combined_def r by (simp add: js_sort_distinct)
  moreover have "sorted (map length (forEachFile [([], baseDir)]))" using forEachFile_depth [of "[([], baseDir)]"] by simp
  moreover have "set (forEachFile [([], baseDir)]) = {f. tree_file baseDir f}" using walk_files by auto
  ultimately show ?thesis using es unfolding combined_def by blast
qed

subsection \<open>Parameters\<close>

text \<open>A path is a list of literal texts and parameters.\<close>

datatype piece = Literal string | Simple string | Catchall string

fun file_text :: "piece \<Rightarrow> string" where
  "file_text (Literal s) = s"
| "file_text (Simple p) = ''['' @ p @ '']''"
| "file_text (Catchall p) = ''[['' @ p @ '']]''"

fun pattern_text :: "piece \<Rightarrow> string" where
  "pattern_text (Literal s) = s"
| "pattern_text (Simple p) = '':'' @ p"
| "pattern_text (Catchall p) = '':'' @ p @ ''*''"

fun half_text :: "piece \<Rightarrow> string" where
  "half_text (Simple p) = file_text (Simple p)"
| "half_text x = pattern_text x"

definition bracket_free :: "string \<Rightarrow> bool" where
  "bracket_free s \<longleftrightarrow> CHR ''['' \<notin> set s \<and> CHR '']'' \<notin> set s"

fun piece_wf :: "piece \<Rightarrow> bool" where
  "piece_wf (Literal s) \<longleftrightarrow> CHR ''['' \<notin> set s"
| "piece_wf (Simple p) \<longleftrightarrow> p \<noteq> [] \<and> bracket_free p"
| "piece_wf (Catchall p) \<longleftrightarrow> p \<noteq> [] \<and> bracket_free p"

fun bad_catchall :: "piece \<Rightarrow> bool" where
  "bad_catchall (Catchall p) \<longleftrightarrow> \<not> validParamName p"
| "bad_catchall x \<longleftrightarrow> False"

fun bad_simple :: "piece \<Rightarrow> bool" where
  "bad_simple (Simple p) \<longleftrightarrow> \<not> validParamName p"
| "bad_simple x \<longleftrightarrow> False"

fun piece_name :: "piece \<Rightarrow> string" where
  "piece_name (Literal s) = s" | "piece_name (Simple p) = p" | "piece_name (Catchall p) = p"

lemma bracketed_other: "0 < k \<Longrightarrow> c \<noteq> CHR ''['' \<Longrightarrow> bracketed k (c # s) = None"
  by (cases k) (auto simp: bracketed_def Let_def startsWith_def)

lemma convertParams_literal:
  "0 < k \<Longrightarrow> CHR ''['' \<notin> set s \<Longrightarrow>
     convertParams k star (s @ t) = andThen (convertParams k star t) (\<lambda>u. Inr (s @ u))"
  by (induction s) (auto simp: bracketed_other andThen_def split: sum.splits)

lemma bracketed_match:
  assumes "0 < k" "p \<noteq> []" "bracket_free p"
  shows "bracketed k (replicate k CHR ''['' @ p @ replicate k CHR '']'' @ t) = Some (p, t)"
proof -
  have "\<forall>c \<in> set p. c \<noteq> CHR '']''" using assms(3) by (auto simp: bracket_free_def)
  moreover obtain j where "k = Suc j" using assms(1) by (cases k) auto
  ultimately show ?thesis
    using assms(2) by (simp add: bracketed_def Let_def startsWith_def takeWhile_append2 dropWhile_append2)
qed

lemma convertParams_match:
  assumes "0 < k" "p \<noteq> []" "bracket_free p"
  shows "convertParams k star (replicate k CHR ''['' @ p @ replicate k CHR '']'' @ t) =
    (if validParamName p then andThen (convertParams k star t) (\<lambda>u. Inr (CHR '':'' # p @ star @ u))
     else Inl (FatalError (param_message k p)))"
proof -
  obtain j where k: "k = Suc j" using assms(1) by (cases k) auto
  show ?thesis using bracketed_match [OF assms, of t] unfolding k replicate_Suc append_Cons by simp
qed

lemma bracketed_two_simple: "p \<noteq> [] \<Longrightarrow> bracket_free p \<Longrightarrow> bracketed 2 (CHR ''['' # p @ s) = None"
  by (cases p) (auto simp: bracketed_def bracket_free_def Let_def startsWith_def numeral_2_eq_2)

lemma first_pass:
  "list_all piece_wf ps \<Longrightarrow> convertParams 2 ''*'' (concat (map file_text ps)) =
     (case find bad_catchall ps of
        Some x \<Rightarrow> Inl (FatalError (param_message 2 (piece_name x)))
      | None \<Rightarrow> Inr (concat (map half_text ps)))"
proof (induction ps)
  case (Cons x ps)
  show ?case
  proof (cases x)
    case (Literal s)
    with Cons show ?thesis by (simp add: convertParams_literal split: option.split)
  next
    case (Simple p)
    with Cons.prems have "CHR ''['' \<notin> set (p @ '']'')" by (simp add: bracket_free_def)
    then have "convertParams 2 ''*'' ((p @ '']'') @ concat (map file_text ps)) =
        andThen (convertParams 2 ''*'' (concat (map file_text ps))) (\<lambda>u. Inr ((p @ '']'') @ u))"
      by (rule convertParams_literal [rotated]) simp
    with Simple Cons show ?thesis by (simp add: bracketed_two_simple split: option.split)
  next
    case (Catchall p)
    with Cons convertParams_match [of 2 p "''*''" "concat (map file_text ps)"]
    show ?thesis by (simp add: numeral_2_eq_2 split: option.split)
  qed
qed simp

lemma second_pass:
  "list_all piece_wf ps \<Longrightarrow> list_all (\<lambda>x. \<not> bad_catchall x) ps \<Longrightarrow> convertParams 1 [] (concat (map half_text ps)) =
     (case find bad_simple ps of
        Some x \<Rightarrow> Inl (FatalError (param_message 1 (piece_name x)))
      | None \<Rightarrow> Inr (concat (map pattern_text ps)))"
proof (induction ps)
  case (Cons x ps)
  show ?case
  proof (cases x)
    case (Simple p)
    with Cons convertParams_match [of 1 p "[]" "concat (map half_text ps)"]
    show ?thesis by (simp split: option.split)
  next
    case (Catchall p)
    with Cons.prems have "CHR ''['' \<notin> set ('':'' @ p @ ''*'')" by (simp add: bracket_free_def)
    then have "convertParams 1 [] (('':'' @ p @ ''*'') @ concat (map half_text ps)) =
        andThen (convertParams 1 [] (concat (map half_text ps))) (\<lambda>u. Inr (('':'' @ p @ ''*'') @ u))"
      by (rule convertParams_literal [rotated]) simp
    with Catchall Cons show ?thesis by (simp split: option.split)
  qed (use Cons in \<open>simp add: convertParams_literal split: option.split\<close>)
qed simp

text \<open>
  In a file path \<^verbatim>\<open>[name]\<close> becomes \<^verbatim>\<open>:name\<close>, \<^verbatim>\<open>[[name]]\<close> becomes \<^verbatim>\<open>:name*\<close> and all other text stays. If a
  name is not made of letters, digits and underscores the conversion fails, with the first such
  catch-all parameter or, if there is none, the first such simple one.
\<close>

theorem convert_pieces:
  assumes "list_all piece_wf ps"
  shows "convertPath (concat (map file_text ps)) =
    (case find bad_catchall ps of
       Some x \<Rightarrow> Inl (FatalError (param_message 2 (piece_name x)))
     | None \<Rightarrow>
         (case find bad_simple ps of
            Some x \<Rightarrow> Inl (FatalError (param_message 1 (piece_name x)))
          | None \<Rightarrow> Inr (concat (map pattern_text ps))))"
proof (cases "find bad_catchall ps")
  case None
  then have "list_all (\<lambda>x. \<not> bad_catchall x) ps" by (simp add: find_None_iff list_all_iff)
  from second_pass [OF assms this] first_pass [OF assms] None show ?thesis
    by (simp add: convertPath_def convertCatchallParams_def convertSimpleParams_def)
next
  case (Some x)
  with first_pass [OF assms] show ?thesis by (simp add: convertPath_def convertCatchallParams_def)
qed

theorem convert_pieces_witness:
  "convertPath ''/a/[id]/[[rest]]'' = Inr ''/a/:id/:rest*''"
  using convert_pieces [of "[Literal ''/a/'', Simple ''id'', Literal ''/'', Catchall ''rest'']"]
  by (simp add: bracket_free_def validParamName_def is_word_char_def is_lower_def)

end
