(* ===== verification/PagesTheorems.thy ===== *)
theory PagesTheorems
  imports PagesRoutes
begin

text \<open>
  The generated routing rules are valid and complete: \<open>covers\<close> is the relation between a rule and
  those it makes redundant, every step of the transformation only replaces a rule by one that
  covers it, and a covering rule matches whatever the covered one matches.
\<close>

subsection \<open>Covering rules\<close>

definition covers :: "string \<Rightarrow> string \<Rightarrow> bool" where
  "covers rule r \<longleftrightarrow> r = rule \<or> endsWith rule ''/*'' \<and> startsWith r (butlast rule)"

lemma splat_form: "endsWith rule ''/*'' \<longleftrightarrow> (\<exists>q. rule = q @ ''/*'')"
  by (auto simp: endsWith_iff_suffix suffix_def)

lemma covers_iff: "covers rule r \<longleftrightarrow> r = rule \<or> (\<exists>q t. rule = q @ ''/*'' \<and> r = q @ ''/'' @ t)"
  unfolding covers_def splat_form startsWith_iff_prefix prefix_def by (auto simp: butlast_append)

lemma covers_trans:
  assumes "covers a b" and "covers b c"
  shows "covers a c"
proof (cases "b = a \<or> c = b")
  case False
  then obtain p t where a: "a = p @ ''/*''" and b: "b = p @ ''/'' @ t"
    using assms(1) by (auto simp: covers_iff)
  from False obtain q u where b': "b = q @ ''/*''" and c: "c = q @ ''/'' @ u"
    using assms(2) by (auto simp: covers_iff)
  have "prefix (p @ ''/'') ((q @ ''/'') @ [CHR ''*''])"
    using b b' by (metis append.assoc append_Cons append_Nil prefixI)
  then have "prefix (p @ ''/'') (q @ ''/'')"
    unfolding prefix_snoc by auto
  then have "prefix (p @ ''/'') c" unfolding c by (metis append.assoc prefix_def)
  then show ?thesis unfolding covers_iff a by (auto simp: prefix_def)
qed (use assms in auto)

lemma consolidate_loop_subset: "set (consolidate_loop rs keys) \<subseteq> set keys"
proof (induction rs keys rule: consolidate_loop.induct)
  case (2 route routes keys)
  then show ?case by (auto split: if_splits)
qed simp

lemma consolidate_loop_distinct: "distinct keys \<Longrightarrow> distinct (consolidate_loop rs keys)"
  by (induction rs keys rule: consolidate_loop.induct) auto

lemma consolidate_loop_covers:
  assumes "\<forall>r \<in> set rs. endsWith r ''/*''" and "r \<in> set keys"
  shows "\<exists>r' \<in> set (consolidate_loop rs keys). covers r' r"
  using assms
proof (induction rs keys arbitrary: r rule: consolidate_loop.induct)
  case (1 keys)
  then show ?case by (auto simp: covers_def)
next
  case (2 route routes keys)
  let ?keys = "if route \<in> set keys
    then filter (\<lambda>n. \<not> (n \<noteq> route \<and> startsWith n (butlast route))) keys else keys"
  have "\<exists>r1 \<in> set ?keys. covers r1 r"
  proof (cases "r \<in> set ?keys")
    case True
    then show ?thesis by (auto simp: covers_def)
  next
    case False
    then have "route \<in> set ?keys" "startsWith r (butlast route)"
      using 2(3) by (auto split: if_splits)
    then show ?thesis using 2(2) by (auto simp: covers_def)
  qed
  then obtain r1 where r1: "r1 \<in> set ?keys" "covers r1 r" by blast
  from 2(1) [OF _ r1(1)] 2(2) obtain r' where "r' \<in> set (consolidate_loop routes ?keys)" "covers r' r1"
    by auto
  then show ?case using covers_trans [of r' r1 r] r1(2) by auto
qed

lemma consolidate_loop_no_overlap:
  assumes "route \<in> set rs" and "route \<in> set (consolidate_loop rs keys)"
    and "n \<in> set (consolidate_loop rs keys)"
  shows "\<not> (n \<noteq> route \<and> startsWith n (butlast route))"
  using assms
proof (induction rs keys rule: consolidate_loop.induct)
  case (2 r rs keys)
  let ?keys = "if r \<in> set keys
    then filter (\<lambda>n. \<not> (n \<noteq> r \<and> startsWith n (butlast r))) keys else keys"
  have sub: "set (consolidate_loop rs ?keys) \<subseteq> set ?keys" by (rule consolidate_loop_subset)
  show ?case
  proof (cases "route \<in> set rs")
    case True
    then show ?thesis using 2 by simp
  next
    case False
    then have "route = r" using 2(2) by simp
    then have "route \<in> set ?keys" "n \<in> set ?keys"
      using sub 2(3,4) unfolding consolidate_loop.simps by blast+
    then show ?thesis using \<open>route = r\<close> by (auto split: if_splits)
  qed
qed simp

subsection \<open>Shortening\<close>

lemma slash_below_Some:
  "slash_below route m = Some j \<Longrightarrow> 0 < j \<and> j < length route \<and> route ! j = CHR ''/''"
  by (induction m) (auto split: if_splits)

definition shortened :: "string \<Rightarrow> string \<Rightarrow> bool" where
  "shortened orig route \<longleftrightarrow>
     route = orig \<or> (\<exists>j. 0 < j \<and> j < length orig \<and> orig ! j = CHR ''/'' \<and> route = take j orig @ ''/*'')"

lemma shortened_step:
  assumes "shortened orig route" and "slash_below route m = Some j"
  shows "shortened orig (take j route @ ''/*'')"
proof -
  note j = slash_below_Some [OF assms(2)]
  show ?thesis
  proof (cases "route = orig")
    case True
    then show ?thesis using j by (auto simp: shortened_def)
  next
    case False
    then obtain i where i: "0 < i" "i < length orig" "orig ! i = CHR ''/''" "route = take i orig @ ''/*''"
      using assms(1) by (auto simp: shortened_def)
    then have len: "length (take i orig) = i" by simp
    have "j \<le> i"
    proof (rule ccontr)
      assume "\<not> j \<le> i"
      then have "j = Suc i" using j i(4) len by simp
      then have "route ! j = CHR ''*''" using i(4) len by (simp add: nth_append)
      then show False using j by simp
    qed
    moreover have "orig ! j = CHR ''/''"
    proof (cases "j = i")
      case False
      then have "route ! j = orig ! j" using \<open>j \<le> i\<close> i(4) len by (simp add: nth_append)
      then show ?thesis using j by simp
    qed (use i in simp)
    moreover have "take j route = take j orig" using \<open>j \<le> i\<close> i(4) len by simp
    ultimately show ?thesis
      using i j unfolding shortened_def by (intro disjI2 exI [of _ j]) simp
  qed
qed

lemma shorten_loop_shortened: "shortened orig route \<Longrightarrow> shortened orig (shorten_loop m i n route)"
proof (induction m i n route rule: shorten_loop.induct)
  case (2 m i n route)
  then show ?case
    by (auto simp: Let_def shortened_step split: option.split)
qed simp

lemma shortened_covers: "shortened orig route \<Longrightarrow> covers route orig"
proof (cases "route = orig")
  case False
  assume "shortened orig route"
  with False obtain j where j: "j < length orig" "orig ! j = CHR ''/''" "route = take j orig @ ''/*''"
    by (auto simp: shortened_def)
  have "orig = take j orig @ ''/'' @ drop (Suc j) orig"
    using id_take_nth_drop [OF j(1)] j(2) by simp
  then show ?thesis unfolding covers_iff using j(3) by blast
qed (simp add: covers_def)

lemma shortenRoute_covers:
  assumes "startsWith r ''/''"
  shows "covers (shortenRoute m r) r"
proof -
  have "shortened r (shorten_loop m 0 (length r) r)"
    by (rule shorten_loop_shortened) (simp add: shortened_def)
  moreover have "covers ''/*'' r"
    using assms unfolding covers_def by (simp add: splat_form)
  ultimately show ?thesis
    by (auto simp: shortenRoute_def Let_def covers_def [of r r] shortened_covers)
qed

lemma shortenRoute_length: "2 \<le> m \<Longrightarrow> length (shortenRoute m r) \<le> m"
  by (simp add: shortenRoute_def Let_def)

lemma shortenRoute_slash:
  assumes "startsWith r ''/''"
  shows "startsWith (shortenRoute m r) ''/''"
proof -
  have sh: "shortened r (shorten_loop m 0 (length r) r)"
    by (rule shorten_loop_shortened) (simp add: shortened_def)
  have "startsWith (shorten_loop m 0 (length r) r) ''/''"
  proof (cases "shorten_loop m 0 (length r) r = r")
    case False
    with sh obtain j where "0 < j" "j < length r" "shorten_loop m 0 (length r) r = take j r @ ''/*''"
      by (auto simp: shortened_def)
    then show ?thesis using assms
      by (cases r; cases j) (auto simp: startsWith_def)
  qed (use assms in simp)
  then show ?thesis using assms by (auto simp: shortenRoute_def Let_def startsWith_def)
qed

lemma set_js_unique [simp]: "set (js_unique xs) = set xs"
  by (simp add: js_unique_def)

lemma distinct_js_unique: "distinct (js_unique xs)"
  by (simp add: js_unique_def)

lemma length_js_sort [simp]: "length (js_sort cmp xs) = length xs"
proof -
  have l: "length (js_insert cmp x ys) = Suc (length ys)" for x ys by (induction ys) auto
  have "length (foldr (js_insert cmp) xs []) = length xs" by (induction xs) (auto simp: l)
  then show ?thesis by (simp add: js_sort_def)
qed

subsection \<open>Matching\<close>

definition one_line :: "string \<Rightarrow> bool" where
  "one_line s \<longleftrightarrow> (\<forall>c \<in> set s. \<not> line_end c)"

lemma match_any:
  "match_tokens (AnyChars # ts) s \<longleftrightarrow> (\<exists>u v. s = u @ v \<and> one_line u \<and> match_tokens ts v)"
proof (induction s)
  case Nil
  then show ?case by (auto simp: one_line_def)
next
  case (Cons c s)
  show ?case
  proof
    assume "match_tokens (AnyChars # ts) (c # s)"
    then consider "match_tokens ts (c # s)" | "\<not> line_end c" "match_tokens (AnyChars # ts) s"
      by auto
    then show "\<exists>u v. c # s = u @ v \<and> one_line u \<and> match_tokens ts v"
    proof cases
      case 1
      then show ?thesis by (intro exI [of _ "[]"] exI [of _ "c # s"]) (simp add: one_line_def)
    next
      case 2
      with Cons.IH obtain u v where "s = u @ v" "one_line u" "match_tokens ts v" by blast
      with 2 show ?thesis by (intro exI [of _ "c # u"] exI [of _ v]) (simp add: one_line_def)
    qed
  next
    assume "\<exists>u v. c # s = u @ v \<and> one_line u \<and> match_tokens ts v"
    then obtain u v where uv: "c # s = u @ v" "one_line u" "match_tokens ts v" by blast
    show "match_tokens (AnyChars # ts) (c # s)"
    proof (cases u)
      case Nil
      with uv show ?thesis by simp
    next
      case (Cons d u')
      with uv Cons.IH have "match_tokens (AnyChars # ts) s" "\<not> line_end c"
        by (auto simp: one_line_def)
      then show ?thesis by simp
    qed
  qed
qed

lemma match_lit: "match_tokens (Lit c # ts) s \<longleftrightarrow> (\<exists>r. s = c # r \<and> match_tokens ts r)"
  by (cases s) auto

lemma match_opt: "match_tokens (OptSlash # ts) s
    \<longleftrightarrow> match_tokens ts s \<or> (\<exists>r. s = CHR ''/'' # r \<and> match_tokens ts r)"
  by (cases s) auto

lemma match_opt_any: "match_tokens (OptSlashAny # ts) s
    \<longleftrightarrow> match_tokens ts s \<or> (\<exists>u v. s = CHR ''/'' # u @ v \<and> one_line u \<and> match_tokens ts v)"
  by (cases s) (auto simp: match_any simp del: match_tokens.simps(3))

lemmas match_cases = match_any match_lit match_opt match_opt_any

lemma match_append:
  "match_tokens (xs @ ys) s \<longleftrightarrow> (\<exists>s1 s2. s = s1 @ s2 \<and> match_tokens xs s1 \<and> match_tokens ys s2)"
proof (induction xs arbitrary: s)
  case (Cons t xs)
  show ?case
  proof (cases t)
    case (Lit c)
    have "(\<exists>r s1 s2. s = c # r \<and> r = s1 @ s2 \<and> match_tokens xs s1 \<and> match_tokens ys s2)
        \<longleftrightarrow> (\<exists>s1 s2. s = s1 @ s2 \<and> (\<exists>r. s1 = c # r \<and> match_tokens xs r) \<and> match_tokens ys s2)"
      by (metis append_Cons)
    then show ?thesis by (simp add: Lit match_lit Cons.IH del: match_tokens.simps)
  next
    case AnyChars
    have "(\<exists>u v s1 s2. s = u @ v \<and> one_line u \<and> v = s1 @ s2 \<and> match_tokens xs s1 \<and> match_tokens ys s2)
        \<longleftrightarrow> (\<exists>s1 s2. s = s1 @ s2 \<and> (\<exists>u v. s1 = u @ v \<and> one_line u \<and> match_tokens xs v)
              \<and> match_tokens ys s2)"
      by (metis append.assoc)
    then show ?thesis by (simp add: AnyChars match_any Cons.IH del: match_tokens.simps)
  next
    case OptSlash
    then show ?thesis
      by (simp add: match_opt Cons.IH del: match_tokens.simps) (metis append_Cons)
  next
    case OptSlashAny
    have "(\<exists>u v. s = CHR ''/'' # u @ v \<and> one_line u
            \<and> (\<exists>s1 s2. v = s1 @ s2 \<and> match_tokens xs s1 \<and> match_tokens ys s2))
        \<longleftrightarrow> (\<exists>s1 s2. s = s1 @ s2 \<and> (\<exists>u v. s1 = CHR ''/'' # u @ v \<and> one_line u \<and> match_tokens xs v)
              \<and> match_tokens ys s2)"
      by (metis append.assoc append_Cons)
    then show ?thesis
      by (simp add: OptSlashAny match_opt_any Cons.IH del: match_tokens.simps) blast
  qed
qed simp

lemma rule_tokens_append [simp]: "rule_tokens (a @ b) = rule_tokens a @ rule_tokens b"
  by (simp add: rule_tokens_def)

lemma rule_tokens_slash [simp]: "rule_tokens (CHR ''/'' # s) = Lit CHR ''/'' # rule_tokens s"
  by (simp add: rule_tokens_def)

text \<open>The expression of a longer rule starts with that of its prefix and a slash.\<close>

lemma regexp_of_longer:
  assumes "q \<noteq> []" and "r = q @ ''/'' @ t" and "t \<noteq> ''*''"
  obtains (stop) "transformRoutingRuleToRegExp r = rule_tokens q @ [OptSlash]"
  | (more) ts where "transformRoutingRuleToRegExp r = rule_tokens q @ Lit CHR ''/'' # ts"
proof -
  have r: "r \<noteq> ''/''" "r \<noteq> ''/*''" using assms by (auto simp: append_eq_Cons_conv)
  show thesis
  proof (cases t rule: rev_cases)
    case Nil
    then have "endsWith r ''/''" "\<not> endsWith r ''/*''" "butlast r = q"
      using assms(2) by (auto simp: endsWith_iff_suffix)
    then show thesis using r by (intro stop) (simp add: transformRoutingRuleToRegExp_def)
  next
    case (snoc t' x)
    consider "endsWith r ''/*''" | "\<not> endsWith r ''/*''" "endsWith r ''/''"
      | "\<not> endsWith r ''/*''" "\<not> endsWith r ''/''"
      by blast
    then show thesis
    proof cases
      case 1
      then obtain z where z: "r = z @ ''/*''" by (auto simp: splat_form)
      have "(z @ ''/'') @ [CHR ''*''] = (q @ ''/'' @ t') @ [x]"
        using z assms(2) snoc by simp
      then have x: "x = CHR ''*''" and z': "z @ ''/'' = q @ ''/'' @ t'" by simp_all
      then have "t' \<noteq> []" using assms(3) snoc by auto
      then obtain t'' y where t': "t' = t'' @ [y]" by (cases t' rule: rev_cases) auto
      then have "z = q @ ''/'' @ t''" using z' by (metis append.assoc append1_eq_conv)
      moreover have "take (length r - 2) r = z" using z by simp
      ultimately show thesis
        using 1 r by (intro more [of "rule_tokens t'' @ [OptSlashAny]"])
          (simp add: transformRoutingRuleToRegExp_def)
    next
      case 2
      have "butlast r = q @ ''/'' @ t'" using assms(2) snoc by (simp add: butlast_append)
      then show thesis using 2 r by (intro more [of "rule_tokens t' @ [OptSlash]"])
          (simp add: transformRoutingRuleToRegExp_def)
    next
      case 3
      then show thesis using r assms(2)
        by (cases "endsWith r ''*''")
           (auto simp: transformRoutingRuleToRegExp_def intro: more [of "rule_tokens t"]
             more [of "rule_tokens t @ [OptSlash]"])
    qed
  qed
qed

lemma regexp_slash:
  assumes "startsWith r ''/''"
  obtains ts where "transformRoutingRuleToRegExp r = Lit CHR ''/'' # ts"
proof -
  obtain s where s: "r = CHR ''/'' # s" using assms by (cases r) (auto simp: startsWith_def)
  show thesis
  proof (cases "r = ''/'' \<or> r = ''/*''")
    case True
    then show thesis using s that by (auto simp: transformRoutingRuleToRegExp_def rule_tokens_def)
  next
    case False
    have "take (length r - 2) r = CHR ''/'' # take (length s - 2) s" if "endsWith r ''/*''"
    proof -
      obtain z where z: "r = z @ ''/*''" using \<open>endsWith r ''/*''\<close> by (auto simp: splat_form)
      then have "z \<noteq> []" using False by auto
      then have "z = CHR ''/'' # tl z" using s z by (cases z) auto
      then have "s = tl z @ ''/*''" using s z by (metis append_Cons list.sel(3))
      then show ?thesis using z \<open>z = CHR ''/'' # tl z\<close> by simp
    qed
    then have take: "endsWith r ''/*'' \<Longrightarrow> rule_tokens (take (length r - 2) r)
        = Lit CHR ''/'' # rule_tokens (take (length s - 2) s)" by simp
    have whole: "rule_tokens r = Lit CHR ''/'' # rule_tokens s" by (simp add: s)
    have "butlast r = CHR ''/'' # butlast s" using False s by auto
    then have but: "rule_tokens (butlast r) = Lit CHR ''/'' # rule_tokens (butlast s)" by simp
    from False have "transformRoutingRuleToRegExp r =
       (if endsWith r ''/*'' then rule_tokens (take (length r - 2) r) @ [OptSlashAny]
        else if endsWith r ''/'' then rule_tokens (butlast r) @ [OptSlash]
        else if endsWith r ''*'' then rule_tokens r
        else rule_tokens r @ [OptSlash])"
      by (simp add: transformRoutingRuleToRegExp_def)
    then show thesis using take but whole by (auto intro: that split: if_splits)
  qed
qed

lemma covers_match:
  assumes "covers a b" and "startsWith b ''/''" and "one_line p"
    and "match_tokens (transformRoutingRuleToRegExp b) p"
  shows "match_tokens (transformRoutingRuleToRegExp a) p"
proof (cases "b = a")
  case False
  then obtain q t where a: "a = q @ ''/*''" and b: "b = q @ ''/'' @ t" and t: "t \<noteq> ''*''"
    using assms(1) by (auto simp: covers_iff)
  show ?thesis
  proof (cases "q = []")
    case True
    obtain ts where "transformRoutingRuleToRegExp b = Lit CHR ''/'' # ts"
      using regexp_slash [OF assms(2)] .
    then obtain s where "p = CHR ''/'' # s" using assms(4) by (auto simp: match_lit simp del: match_tokens.simps)
    moreover have "one_line s" using assms(3) \<open>p = CHR ''/'' # s\<close> by (simp add: one_line_def)
    ultimately show ?thesis using True a
      by (auto simp: transformRoutingRuleToRegExp_def rule_tokens_def match_any simp del: match_tokens.simps(3))
  next
    case False
    have ta: "transformRoutingRuleToRegExp a = rule_tokens q @ [OptSlashAny]"
      using False a by (auto simp: transformRoutingRuleToRegExp_def splat_form append_eq_Cons_conv)
    obtain p1 p2 where p: "p = p1 @ p2" "match_tokens (rule_tokens q) p1"
      and p2: "p2 = [] \<or> (\<exists>s. p2 = CHR ''/'' # s)"
      using False b t
    proof (cases rule: regexp_of_longer)
      case stop
      then show ?thesis using assms(4) that
        by (auto simp: match_append match_opt simp del: match_tokens.simps(4))
    next
      case (more ts)
      then show ?thesis using assms(4) that
        by (auto simp: match_append match_lit simp del: match_tokens.simps(2))
    qed
    have "one_line p2" using assms(3) p(1) by (simp add: one_line_def)
    with p2 have "match_tokens [OptSlashAny] p2"
      by (auto simp: match_opt_any one_line_def simp del: match_tokens.simps(5))
    then show ?thesis unfolding ta match_append using p by blast
  qed
qed (use assms in simp)

subsection \<open>The generated rules\<close>

lemma consolidateRoutes_mem:
  "r \<in> set (consolidateRoutes routes) \<Longrightarrow>
     \<exists>r0 \<in> set routes. r = shortenRoute MAX_FUNCTIONS_ROUTES_RULE_LENGTH r0"
  unfolding consolidateRoutes_def Let_def using consolidate_loop_subset by fastforce

lemma consolidateRoutes_covers:
  assumes "r \<in> set routes" and "startsWith r ''/''"
  shows "\<exists>r' \<in> set (consolidateRoutes routes). covers r' r"
proof -
  let ?s = "shortenRoute MAX_FUNCTIONS_ROUTES_RULE_LENGTH"
  have splats: "\<forall>r \<in> set (filter (\<lambda>r. endsWith r ''/*'') (js_unique (map ?s routes))). endsWith r ''/*''"
    by simp
  have "?s r \<in> set (js_unique (map ?s routes))" using assms(1) by simp
  from consolidate_loop_covers [OF splats this]
  obtain r' where "r' \<in> set (consolidateRoutes routes)" "covers r' (?s r)"
    unfolding consolidateRoutes_def Let_def by blast
  then show ?thesis using covers_trans [OF _ shortenRoute_covers [OF assms(2)]] by blast
qed

lemma consolidateRoutes_no_overlap: "\<not> hasOverlappingRules (consolidateRoutes routes)"
proof
  let ?u = "js_unique (map (shortenRoute MAX_FUNCTIONS_ROUTES_RULE_LENGTH) routes)"
  let ?f = "filter (\<lambda>r. endsWith r ''/*'') ?u"
  assume "hasOverlappingRules (consolidateRoutes routes)"
  then obtain r n where r: "r \<in> set (consolidate_loop ?f ?u)" "endsWith r ''/*''"
    and n: "n \<in> set (consolidate_loop ?f ?u)" "n \<noteq> r" "startsWith n (butlast r)"
    unfolding hasOverlappingRules_def consolidateRoutes_def Let_def by (auto simp: list_ex_iff)
  have "r \<in> set ?f" using r consolidate_loop_subset [of ?f ?u] by auto
  from consolidate_loop_no_overlap [OF this r(1) n(1)] n show False by blast
qed

text \<open>The rules of the optimized specification, whether or not they exceeded the limit.\<close>

definition limitedRoutes :: "string list \<Rightarrow> string list" where
  "limitedRoutes routes =
     (if MAX_FUNCTIONS_ROUTES_RULES < length (consolidateRoutes routes) then [''/*'']
      else consolidateRoutes routes)"

lemma optimize_include:
  "set (rs_include (optimizeRoutesJSONSpec lc spec)) = set (limitedRoutes (rs_include spec))"
  "length (rs_include (optimizeRoutesJSONSpec lc spec)) = length (limitedRoutes (rs_include spec))"
  "rs_exclude (optimizeRoutesJSONSpec lc spec) = rs_exclude spec"
  "rs_version (optimizeRoutesJSONSpec lc spec) = rs_version spec"
  by (simp_all add: optimizeRoutesJSONSpec_def limitedRoutes_def Let_def)

lemma limitedRoutes_covers:
  assumes "r \<in> set routes" and "startsWith r ''/''"
  shows "\<exists>r' \<in> set (limitedRoutes routes). covers r' r"
  using consolidateRoutes_covers [OF assms] assms(2)
  by (auto simp: limitedRoutes_def covers_def splat_form)

lemma limitedRoutes_rules:
  assumes "\<forall>r \<in> set routes. startsWith r ''/''" and "r \<in> set (limitedRoutes routes)"
  shows "startsWith r ''/''" and "length r \<le> MAX_FUNCTIONS_ROUTES_RULE_LENGTH"
proof -
  have "r = ''/*'' \<or> (\<exists>r0 \<in> set routes. r = shortenRoute MAX_FUNCTIONS_ROUTES_RULE_LENGTH r0)"
    using assms(2) consolidateRoutes_mem [of r routes] by (auto simp: limitedRoutes_def split: if_splits)
  then show "startsWith r ''/''" and "length r \<le> MAX_FUNCTIONS_ROUTES_RULE_LENGTH"
    using assms(1) shortenRoute_slash shortenRoute_length
    by (auto simp: startsWith_def routes_limits)
qed

lemma overlap_set:
  "set xs = set ys \<Longrightarrow> hasOverlappingRules xs = hasOverlappingRules ys"
  by (simp add: hasOverlappingRules_def list_ex_iff)

lemma limitedRoutes_no_overlap: "\<not> hasOverlappingRules (limitedRoutes routes)"
  using consolidateRoutes_no_overlap [of routes]
  by (auto simp: limitedRoutes_def hasOverlappingRules_def)

lemma optimized_valid:
  assumes "\<forall>r \<in> set (rs_include spec). startsWith r ''/''" and "rs_include spec \<noteq> []"
    and "rs_exclude spec = []" and "rs_version spec = ROUTES_SPEC_VERSION"
  shows "validateRoutes (optimizeRoutesJSONSpec lc spec) = Inr ()"
proof -
  let ?o = "optimizeRoutesJSONSpec lc spec"
  obtain r where "r \<in> set (rs_include spec)" using assms(2) by (cases "rs_include spec") auto
  then have "limitedRoutes (rs_include spec) \<noteq> []"
    using limitedRoutes_covers [of r "rs_include spec"] assms(1) by auto
  then have "0 < length (rs_include ?o)" by (simp add: optimize_include)
  moreover have "length (rs_include ?o) \<le> MAX_FUNCTIONS_ROUTES_RULES"
    by (simp add: optimize_include limitedRoutes_def MAX_FUNCTIONS_ROUTES_RULES_def)
  moreover have "\<forall>r \<in> set (rs_include ?o). startsWith r ''/'' \<and> length r \<le> MAX_FUNCTIONS_ROUTES_RULE_LENGTH"
    using limitedRoutes_rules [OF assms(1)] by (simp add: optimize_include)
  moreover have "\<not> hasOverlappingRules (rs_include ?o)"
    using limitedRoutes_no_overlap [of "rs_include spec"] overlap_set [OF optimize_include(1)] by blast
  ultimately show ?thesis using assms(3,4)
    by (auto simp: validateRoutes_def isRoutesJSONSpec_def hasIncludeRules_def hasValidRulesCount_def
        hasValidRuleCharCount_def hasValidRules_def filter_empty_conv optimize_include(3,4) not_less
        hasOverlappingRules_def [of "[]"])
qed

lemma convertRoute_slash:
  assumes "startsWith (ri_routePath r) ''/''"
  shows "startsWith (convertRoute r) ''/''"
proof -
  obtain s where "ri_routePath r = CHR ''/'' # s"
    using assms by (cases "ri_routePath r") (auto simp: startsWith_def)
  then have g: "globRoutePath (ri_routePath r) = CHR ''/'' # globRoutePath s" by simp
  show ?thesis unfolding convertRoute_def Let_def g
    by (simp add: toUrlPath_def pathJoin_def startsWith_def Let_def)
qed

lemma plain_splat: "plain_rule ''/*''"
  by (simp add: plain_rule_def)

lemma plain_subset: "set a \<subseteq> set b \<union> set ''/*'' \<Longrightarrow> plain_rule b \<Longrightarrow> plain_rule a"
  using plain_splat unfolding plain_rule_def by blast

lemma plain_shortenRoute:
  assumes "plain_rule r"
  shows "plain_rule (shortenRoute m r)"
proof -
  have "shortened r (shorten_loop m 0 (length r) r)"
    by (rule shorten_loop_shortened) (simp add: shortened_def)
  then have "set (shorten_loop m 0 (length r) r) \<subseteq> set r \<union> set ''/*''"
    by (auto simp: shortened_def dest: in_set_takeD)
  then have "plain_rule (shorten_loop m 0 (length r) r)" by (rule plain_subset [OF _ assms])
  then show ?thesis using assms plain_splat by (simp add: shortenRoute_def Let_def)
qed

lemma limitedRoutes_plain:
  assumes "\<forall>r \<in> set routes. plain_rule r" and "r \<in> set (limitedRoutes routes)"
  shows "plain_rule r"
proof -
  have "r = ''/*'' \<or> (\<exists>r0 \<in> set routes. r = shortenRoute MAX_FUNCTIONS_ROUTES_RULE_LENGTH r0)"
    using assms(2) consolidateRoutes_mem [of r routes] by (auto simp: limitedRoutes_def split: if_splits)
  then show ?thesis using assms(1) plain_shortenRoute plain_splat by blast
qed

lemma startsWith_slash_ne: "startsWith r ''/'' \<Longrightarrow> r \<noteq> []"
  by (auto simp: startsWith_def)

lemma first_match_True:
  assumes "p \<noteq> []" and "\<forall>r \<in> set rules. r \<noteq> [] \<and> plain_rule r"
    and "r \<in> set rules" and "match_tokens (transformRoutingRuleToRegExp r) p"
  shows "first_match p rules = Inr True"
  using assms by (induction rules) (auto simp: isRoutingRuleMatch_def)

text \<open>
  generated rules are valid. For any non-empty list of Functions routes, all of them absolute
  paths, the routing file that is generated passes the validation of routing files: it has at
  least one and at most 100 rules, every rule starts with a slash and has at most 100 characters,
  and no rule makes another one redundant. This holds for every collation.
\<close>

theorem routes_generated_valid:
  assumes "routes \<noteq> []" and "\<forall>r \<in> set routes. startsWith (ri_routePath r) ''/''"
  shows "validateRoutes (convertRoutesToRoutesJSONSpec localeCompare routes) = Inr ()"
  unfolding convertRoutesToRoutesJSONSpec_def
  by (rule optimized_valid)
     (use assms convertRoute_slash in \<open>auto simp: convertRoutesToGlobPatterns_def js_unique_def\<close>)

definition ex_routes :: "routeInput list" where
  "ex_routes = [\<lparr>ri_routePath = ''/api/:id'', ri_middleware = NoMiddleware\<rparr>,
                \<lparr>ri_routePath = ''/api/list'', ri_middleware = NoMiddleware\<rparr>,
                \<lparr>ri_routePath = ''/admin'', ri_middleware = MiddlewareString ''m''\<rparr>]"

theorem routes_generated_valid_witness:
  "validateRoutes (convertRoutesToRoutesJSONSpec (\<lambda>a b. if a < b then -1 else 1) ex_routes) = Inr ()"
  by (rule routes_generated_valid) (simp_all add: ex_routes_def startsWith_def)

text \<open>
  The generated rules match whatever the rule of one of the routes matches, although rules may have
  been shortened, merged or replaced by the rule for all paths.
\<close>

lemma rules_complete:
  assumes "r \<in> set routes" and "\<forall>r \<in> set routes. startsWith (ri_routePath r) ''/''"
    and "\<forall>r \<in> set routes. plain_rule (convertRoute r)" and "one_line p"
    and "isRoutingRuleMatch p (convertRoute r) = Inr True"
  shows "pipeline_fetch (convertRoutesToRoutesJSONSpec localeCompare routes) p = Inr ToWorker"
proof -
  let ?inc = "convertRoutesToGlobPatterns (rev routes)"
  let ?spec = "convertRoutesToRoutesJSONSpec localeCompare routes"
  have inc: "set ?inc = convertRoute ` set routes" by (simp add: convertRoutesToGlobPatterns_def)
  have mem: "set (rs_include ?spec) = set (limitedRoutes ?inc)" "rs_exclude ?spec = []"
    by (simp_all add: convertRoutesToRoutesJSONSpec_def optimize_include)
  have slash: "\<forall>r \<in> set ?inc. startsWith r ''/''"
    using assms(2) convertRoute_slash by (auto simp: inc)
  have m: "p \<noteq> []" "match_tokens (transformRoutingRuleToRegExp (convertRoute r)) p"
    using assms(5) by (auto simp: isRoutingRuleMatch_def split: if_splits)
  obtain r' where r': "r' \<in> set (limitedRoutes ?inc)" "covers r' (convertRoute r)"
    using limitedRoutes_covers [of "convertRoute r" ?inc] slash assms(1) by (auto simp: inc)
  have ok: "\<forall>r \<in> set (rs_include ?spec). r \<noteq> [] \<and> plain_rule r"
    using limitedRoutes_rules(1) [OF slash] limitedRoutes_plain [of ?inc] assms(3) startsWith_slash_ne
    by (auto simp: mem inc)
  have "match_tokens (transformRoutingRuleToRegExp r') p"
    using covers_match [OF r'(2) _ assms(4) m(2)] assms(1,2) convertRoute_slash by blast
  then have "first_match p (rs_include ?spec) = Inr True"
    using first_match_True [OF m(1) ok, of r'] r'(1) by (simp add: mem)
  then show ?thesis by (simp add: pipeline_fetch_def mem)
qed

end
