(* ===== verification/FunctionTheorems.thy ===== *)
theory FunctionTheorems
  imports FunctionProperties PagesTheorems
begin

text \<open>
  The order of the routes of Pages Functions, the identifiers of their imports and the run of a request.
\<close>

subsection \<open>Precedence\<close>

text \<open>
  The reference: a list of numbers, compared lexicographically. More segments come first; then, segment by
  segment, static ones before parameters before wildcards; then routes with a method.
\<close>

definition segment_class :: "string \<Rightarrow> int" where
  "segment_class s = (if CHR ''*'' \<in> set s then 2 else 0) + (if CHR '':'' \<in> set s then 1 else 0)"

definition precedence :: "string \<Rightarrow> string \<Rightarrow> int list" where
  "precedence routePath verb =
     - int (length (parseRoutePath routePath)) # map segment_class (parseRoutePath routePath)
     @ [if verb = [] then 1 else 0]"

lemma Cons_less [simp]: "(a # as :: int list) < b # bs \<longleftrightarrow> a < b \<or> a = b \<and> as < bs"
  by (simp add: list_less_def lexord_cons_cons)

lemma compareRouteSegments_class:
  "length as = length bs \<Longrightarrow> compareRouteSegments as bs =
     (if map segment_class as = map segment_class bs then None
      else if map segment_class as < map segment_class bs then Some (-1) else Some 1)"
  by (induction as bs rule: compareRouteSegments.induct) (auto simp: segment_class_def Let_def)

lemma append_less_same_length:
  "length as = length bs \<Longrightarrow> as @ [x] < bs @ [y] \<longleftrightarrow> as < bs \<or> as = bs \<and> (x :: int) < y"
  by (induction as bs rule: list_induct2) auto

lemma compareRouteConfigs_precedence:
  "compareRouteConfigs localeCompare a b \<le> 0 \<longleftrightarrow>
     precedence (rc_routePath a) (rc_method a) < precedence (rc_routePath b) (rc_method b) \<or>
     precedence (rc_routePath a) (rc_method a) = precedence (rc_routePath b) (rc_method b) \<and>
       localeCompare (rc_routePath a) (rc_routePath b) \<le> 0"
proof (cases "length (parseRoutePath (rc_routePath a)) = length (parseRoutePath (rc_routePath b))")
  case True
  then show ?thesis
    by (auto simp: compareRouteConfigs_def precedence_def Let_def compareRouteSegments_class append_less_same_length)
next
  case False
  then show ?thesis by (auto simp: compareRouteConfigs_def precedence_def Let_def)
qed

text \<open>
  The comparison of routes is the lexicographic order of their precedence, with the collation of the
  paths for routes of the same precedence.
\<close>

theorem compare_is_precedence:
  "compareRouteConfigs localeCompare a b \<le> 0 \<longleftrightarrow>
     precedence (rc_routePath a) (rc_method a) < precedence (rc_routePath b) (rc_method b) \<or>
     precedence (rc_routePath a) (rc_method a) = precedence (rc_routePath b) (rc_method b) \<and>
       localeCompare (rc_routePath a) (rc_routePath b) \<le> 0"
  by (rule compareRouteConfigs_precedence)

lemma comparator_routes:
  assumes "comparator localeCompare"
  shows "comparator (compareRouteConfigs localeCompare)"
proof
  fix x y z
  show "compareRouteConfigs localeCompare x y \<le> 0 \<or> compareRouteConfigs localeCompare y x \<le> 0"
    unfolding compareRouteConfigs_precedence using comparator.cmp_total [OF assms] by force
  assume "compareRouteConfigs localeCompare x y \<le> 0" "compareRouteConfigs localeCompare y z \<le> 0"
  then show "compareRouteConfigs localeCompare x z \<le> 0"
    unfolding compareRouteConfigs_precedence
    by (elim disjE conjE) (metis less_trans comparator.cmp_trans [OF assms])+
qed

lemma routes_sorted:
  assumes "comparator localeCompare" "generateConfigFromFileTree localeCompare exportNames baseURL baseDir = Inr routes"
  shows "sorted_wrt (\<lambda>a b. precedence (rc_routePath a) (rc_method a) \<le> precedence (rc_routePath b) (rc_method b)) routes"
proof -
  obtain es where r: "routes = js_sort (compareRouteConfigs localeCompare) (combineEntries es)"
    using assms(2) by (auto simp: generateConfigFromFileTree_def)
  show ?thesis unfolding r
    by (rule sorted_wrt_mono_rel [OF _ comparator.js_sort_sorted [OF comparator_routes [OF assms(1)]]])
      (auto simp: compareRouteConfigs_precedence)
qed

definition eligible :: "'p path_match \<Rightarrow> string \<Rightarrow> string \<Rightarrow> 'h routeHandler \<Rightarrow> bool" where
  "eligible match verb requestPath h \<longleftrightarrow>
     methodMatches h verb \<and> routeMatch match True h requestPath \<noteq> None \<and> rh_modules h \<noteq> []"

lemma moduleCalls_None: "(\<forall>h \<in> set hs. \<not> eligible match verb p h) \<longleftrightarrow> moduleCalls match verb p hs = []"
  by (induction hs) (auto simp: eligible_def split: option.splits)

lemma moduleCalls_first:
  assumes "sorted_wrt P hs" "\<And>h. P h h" "moduleCalls match verb p hs \<noteq> []"
  shows "\<exists>h \<in> set hs. eligible match verb p h \<and> map hc_handler (moduleCalls match verb p hs) = rh_modules h
    \<and> (\<forall>h' \<in> set hs. eligible match verb p h' \<longrightarrow> P h h')"
  using assms(1,3) 
proof (induction hs)
  case (Cons h hs)
  show ?case
  proof (cases "eligible match verb p h")
    case True
    then have "map hc_handler (moduleCalls match verb p (h # hs)) = rh_modules h"
      by (auto simp: eligible_def comp_def split: option.split)
    with True Cons.prems(1) show ?thesis using assms(2) by (intro bexI [of _ h]) auto
  next
    case False
    then have "moduleCalls match verb p (h # hs) = moduleCalls match verb p hs"
      by (auto simp: eligible_def split: option.splits)
    with Cons False show ?thesis by auto
  qed
qed simp

definition handler_precedence :: "'h routeHandler \<Rightarrow> int list" where
  "handler_precedence h = precedence (rh_routePath h) (rh_method h)"

lemma parseRouteConfigs_paths:
  "parseRouteConfigs baseDir rs st = Inr (hs, st1) \<Longrightarrow>
     map (\<lambda>h. (rh_routePath h, rh_mountPath h, rh_method h)) hs =
     map (\<lambda>r. (rc_routePath r, rc_mountPath r, rc_method r)) rs"
  by (induction baseDir rs st arbitrary: hs st1 rule: parseRouteConfigs.induct) (auto split: prod.splits)

lemma sorted_handlers:
  assumes "comparator localeCompare" "generateConfigFromFileTree localeCompare exportNames baseURL tree = Inr routes"
    and "parseConfig routes baseDir = Inr (hs, im)"
  shows "sorted_wrt (\<lambda>a b. handler_precedence a \<le> handler_precedence b) hs"
proof -
  obtain st where "parseRouteConfigs baseDir routes \<lparr>importMap = [], identifierCount = []\<rparr> = Inr (hs, st)"
    using assms(3) by (auto simp: parseConfig_def split: prod.splits)
  from arg_cong [OF parseRouteConfigs_paths [OF this], of "map (\<lambda>(a, b, c). precedence a c)"]
  have "map handler_precedence hs = map (\<lambda>r. precedence (rc_routePath r) (rc_method r)) routes"
    by (simp add: handler_precedence_def [abs_def] comp_def)
  moreover have "sorted (map (\<lambda>r. precedence (rc_routePath r) (rc_method r)) routes)"
    using routes_sorted [OF assms(1,2)] by (simp add: sorted_map)
  ultimately have "sorted (map handler_precedence hs)" by simp
  then show ?thesis by (simp add: sorted_map)
qed

text \<open>
  C23: The module that serves a request is that of the most specific route. It belongs to a route that
  matches the request, and no other matching route with a module has a higher precedence.
\<close>

theorem most_specific_module:
  assumes "generateConfigFromFileTree localeCompare exportNames baseURL tree = Inr routes"
    and "parseConfig routes baseDir = Inr (hs, im)" and "comparator localeCompare"
  shows "let ls = map (linkRoute imported) hs; calls = moduleCalls match verb requestPath ls in
    (calls = [] \<longleftrightarrow> (\<forall>h \<in> set ls. \<not> eligible match verb requestPath h)) \<and>
    (calls \<noteq> [] \<longrightarrow> (\<exists>h \<in> set hs. eligible match verb requestPath (linkRoute imported h) \<and>
       map hc_handler calls = map imported (rh_modules h) \<and>
       (\<forall>h' \<in> set hs. eligible match verb requestPath (linkRoute imported h') \<longrightarrow>
          precedence (rh_routePath h) (rh_method h) \<le> precedence (rh_routePath h') (rh_method h'))))"
proof -
  let ?ls = "map (linkRoute imported) hs"
  have link: "handler_precedence (linkRoute imported h) = handler_precedence h"
    "rh_modules (linkRoute imported h) = map imported (rh_modules h)" for h
    by (simp_all add: handler_precedence_def linkRoute_def)
  have s: "sorted_wrt (\<lambda>a b. handler_precedence a \<le> handler_precedence b) ?ls"
    using sorted_handlers [OF assms(3,1,2)] by (simp add: sorted_wrt_map link)
  show ?thesis
    unfolding Let_def using moduleCalls_None [of ?ls match verb requestPath]
      moduleCalls_first [OF s order_refl, of match verb requestPath]
    by (auto simp: link handler_precedence_def [symmetric])
qed

text \<open>An example: a static, a parameter and a catch-all route.\<close>

definition ex_tree :: fs_dir where
  "ex_tree = [(''[[all]].js'', FileNode), (''api'', DirNode [(''[id].ts'', FileNode), (''list.ts'', FileNode)]),
     (''notes.txt'', FileNode)]"

definition ex_exports :: "string list \<Rightarrow> string list option" where
  "ex_exports f = Some (if f = [''api'', ''list.ts''] then [''onRequestGet'', ''helper''] else [''onRequest''])"

definition code_units :: "string \<Rightarrow> string \<Rightarrow> int" where
  "code_units a b = (if a = b then 0 else if a < b then -1 else 1)"

lemma code_units_comparator: "comparator code_units"
  by unfold_locales (auto simp: code_units_def split: if_splits)

definition ex_config :: "routeConfig list" where
  "ex_config =
     [\<lparr>rc_routePath = ''/api/list'', rc_mountPath = ''/api'', rc_method = ''GET'', rc_middleware = None,
        rc_module = Some [''api/list.ts:onRequestGet'']\<rparr>,
      \<lparr>rc_routePath = ''/api/:id'', rc_mountPath = ''/api'', rc_method = [], rc_middleware = None,
        rc_module = Some [''api/[id].ts:onRequest'']\<rparr>,
      \<lparr>rc_routePath = ''/:all*'', rc_mountPath = ''/'', rc_method = [], rc_middleware = None,
        rc_module = Some [''[[all]].js:onRequest'']\<rparr>]"

lemma ex_walk: "forEachFile [([], ex_tree)] = [[''[[all]].js''], [''notes.txt''], [''api'', ''[id].ts''], [''api'', ''list.ts'']]"
  by code_simp

lemma ex_entries: "allEntries ex_exports [] (forEachFile [([], ex_tree)]) = Inr (rev ex_config)"
  unfolding ex_walk by code_simp

lemma ex_generate: "generateConfigFromFileTree code_units ex_exports ''/'' ex_tree = Inr ex_config"
proof -
  have b: "normaliseBaseURL ''/'' = []" by code_simp
  have s: "js_sort (compareRouteConfigs code_units) (combineEntries (rev ex_config)) = ex_config" by code_simp
  show ?thesis unfolding generateConfigFromFileTree_def b ex_entries by (simp add: s)
qed

definition ex_handlers :: "string routeHandler list" where
  "ex_handlers =
     [\<lparr>rh_routePath = ''/api/list'', rh_mountPath = ''/api'', rh_method = ''GET'',
        rh_modules = [''__api_list_ts_onRequestGet''], rh_middlewares = []\<rparr>,
      \<lparr>rh_routePath = ''/api/:id'', rh_mountPath = ''/api'', rh_method = [],
        rh_modules = [''__api__id__ts_onRequest''], rh_middlewares = []\<rparr>,
      \<lparr>rh_routePath = ''/:all*'', rh_mountPath = ''/'', rh_method = [],
        rh_modules = [''____all___js_onRequest''], rh_middlewares = []\<rparr>]"

lemma ex_parseConfig: "\<exists>im. parseConfig ex_config [''p''] = Inr (ex_handlers, im)"
proof -
  have "map_sum id fst (parseConfig ex_config [''p'']) = Inr ex_handlers" by code_simp
  then show ?thesis by (cases "parseConfig ex_config [''p'']") auto
qed

text \<open>A matcher for the example: a pattern matches itself, and one with a parameter matches everything.\<close>

definition ex_match :: "unit path_match" where
  "ex_match pattern end p = (if pattern = p \<or> CHR '':'' \<in> set pattern \<or> \<not> end then Some ((), p) else None)"

theorem most_specific_module_witness:
  "\<exists>h \<in> set ex_handlers. map hc_handler (moduleCalls ex_match ''GET'' ''/api/list'' (map (linkRoute id) ex_handlers))
       = rh_modules h \<and>
     (\<forall>h' \<in> set ex_handlers. eligible ex_match ''GET'' ''/api/list'' (linkRoute id h') \<longrightarrow>
        precedence (rh_routePath h) (rh_method h) \<le> precedence (rh_routePath h') (rh_method h'))"
proof -
  obtain im where p: "parseConfig ex_config [''p''] = Inr (ex_handlers, im)" using ex_parseConfig by blast
  have "map hc_handler (moduleCalls ex_match ''GET'' ''/api/list'' (map (linkRoute id) ex_handlers)) \<noteq> []"
    by code_simp
  with most_specific_module [OF ex_generate p code_units_comparator, where match = ex_match and verb = "''GET''"
      and requestPath = "''/api/list''" and imported = id]
  show ?thesis by (auto simp: Let_def)
qed

theorem config_combines_exports_witness:
  "\<exists>es. allEntries ex_exports (normaliseBaseURL ''/'') (forEachFile [([], ex_tree)]) = Inr es \<and>
     set (map route_id ex_config) = set (map route_id es) \<and>
     (\<forall>r \<in> set ex_config. rc_module r = last_some rc_module (filter (same_route r) es))"
  using config_combines_exports [OF ex_generate] by blast

subsection \<open>Imports\<close>

lemma underscore_no_digit: "\<not> is_digit c \<Longrightarrow> \<not> is_digit (if Q then c else CHR ''_'')"
  by (simp add: is_digit_def)

lemma normalize_last:
  assumes "s \<noteq> []" "\<not> is_digit (last s)"
  shows "normalizeIdentifier s \<noteq> [] \<and> \<not> is_digit (last (normalizeIdentifier s))"
proof (cases s)
  case (Cons c t)
  show ?thesis
  proof (cases "t = []")
    case True
    with assms(2) Cons show ?thesis by (auto simp: normalizeIdentifier_def underscore_no_digit)
  next
    case False
    with assms(2) Cons show ?thesis by (auto simp: normalizeIdentifier_def last_map underscore_no_digit)
  qed
qed (use assms in simp)

definition numbered :: "string \<times> nat \<Rightarrow> string" where
  "numbered p = (if 1 < snd p then fst p @ ''_'' @ show_nat (snd p) else fst p)"

definition plain_end :: "string \<Rightarrow> bool" where
  "plain_end b \<longleftrightarrow> b \<noteq> [] \<and> \<not> is_digit (last b)"

lemma last_show_nat: "is_digit (last (show_nat n))"
  using show_nat_digits [of "last (show_nat n)" n] by simp

lemma numbered_split: "1 < n \<Longrightarrow> rev (takeWhile is_digit (rev (numbered (b, n)))) = show_nat n"
proof -
  assume "1 < n"
  have "takeWhile is_digit (rev (show_nat n) @ ''_'' @ rev b) = rev (show_nat n) @ takeWhile is_digit (''_'' @ rev b)"
    by (rule takeWhile_append2) (use show_nat_digits in auto)
  then show ?thesis using \<open>1 < n\<close> by (simp add: numbered_def is_digit_def)
qed

lemma numbered_inj:
  assumes "plain_end b" "plain_end b'" "1 \<le> n" "1 \<le> n'" "numbered (b, n) = numbered (b', n')"
  shows "b = b' \<and> n = n'"
proof -
  have last: "is_digit (last (numbered (c, m))) \<longleftrightarrow> 1 < m" if "plain_end c" for c m
    using that last_show_nat by (auto simp: numbered_def plain_end_def last_append)
  have "1 < n \<longleftrightarrow> 1 < n'" using last [OF assms(1), of n] last [OF assms(2), of n'] assms(5) by simp
  moreover have "b = b' \<and> n = n'" if "1 < n" "1 < n'"
  proof -
    have "show_nat n = show_nat n'" using numbered_split [OF that(1), of b] numbered_split [OF that(2), of b'] assms(5) by simp
    then have "n = n'" by (metis digits_val_show)
    with assms(5) that show ?thesis by (simp add: numbered_def)
  qed
  ultimately show ?thesis using assms(3-5) by (auto simp: numbered_def)
qed

definition proper_segment :: "string \<Rightarrow> bool" where
  "proper_segment s \<longleftrightarrow> s \<noteq> [] \<and> s \<noteq> ''.'' \<and> s \<noteq> ''..''"

lemma normalize_proper:
  "list_all proper_segment acc \<Longrightarrow> list_all proper_segment (normalize_segments True ss acc)"
proof (induction "True" ss acc rule: normalize_segments.induct)
  case (2 s ss acc)
  then show ?case by (cases acc) (auto simp: proper_segment_def)
qed simp

lemma resolvePath_proper: "list_all proper_segment (resolvePath baseDir filepath)"
  by (simp add: resolvePath_def normalize_proper)

definition imports_ok :: "string list \<Rightarrow> parseState \<Rightarrow> bool" where
  "imports_ok baseDir st \<longleftrightarrow> distinct (map fst (importMap st)) \<and>
     (\<exists>ps. map (ie_identifier \<circ> snd) (importMap st) = map numbered ps \<and> distinct ps \<and>
        (\<forall>(b, n) \<in> set ps. plain_end b \<and> 1 \<le> n \<and> (\<exists>c. map_of (identifierCount st) b = Some c \<and> n \<le> c))) \<and>
     (\<forall>(p, e) \<in> set (importMap st).
        (\<exists>segments. ie_filepath e = absolutePath (baseDir @ segments) \<and> list_all proper_segment segments) \<and>
        (ie_name e = ''default'' \<or> isValidIdentifier (ie_name e)) \<and> isValidIdentifier (ie_identifier e))"

lemma join_dots: "startsWith (join_with ''/'' (''..'' # ws)) ''..''"
  by (cases ws) (auto simp: startsWith_def)

lemma drop_common_prefix: "drop_common as bs = ([], ds) \<Longrightarrow> bs = as @ ds"
  by (induction as bs rule: drop_common.induct) (auto split: if_splits)

lemma inside_base:
  assumes "\<not> startsWith (relativePath baseDir to) ''..''"
  shows "\<exists>segments. to = baseDir @ segments"
proof -
  obtain up down where d: "drop_common baseDir to = (up, down)" by force
  have "up = []"
  proof (rule ccontr)
    assume "up \<noteq> []"
    then obtain n where "length up = Suc n" by (cases up) auto
    with assms d join_dots show False by (simp add: relativePath_def)
  qed
  with drop_common_prefix d show ?thesis by blast
qed

definition digit_free_end :: "string \<Rightarrow> bool" where
  "digit_free_end p \<longleftrightarrow> snd (splitModulePath p) \<noteq> [] \<and> \<not> is_digit (last (snd (splitModulePath p)))"

lemma identifier_parts:
  "list_all identifierPart (normalizeIdentifier s)" "list_all identifierPart (show_nat n)"
  using show_nat_digits
  by (auto simp: normalizeIdentifier_def list_all_iff identifierPart_def identifierStart_def split: list.splits)

lemma reserved_no_underscore: "list_all (\<lambda>k. hd k \<noteq> CHR ''_'') RESERVED_KEYWORDS"
  by code_simp

lemma underscore_valid:
  assumes "list_all identifierPart s"
  shows "isValidIdentifier (CHR ''_'' # s)"
  unfolding isValidIdentifier_def
proof (intro conjI)
  show "CHR ''_'' # s \<notin> set RESERVED_KEYWORDS"
  proof
    assume "CHR ''_'' # s \<in> set RESERVED_KEYWORDS"
    with reserved_no_underscore have "hd (CHR ''_'' # s) \<noteq> CHR ''_''" unfolding list_all_iff by (rule bspec)
    then show False unfolding list.sel by (rule notE) (rule refl)
  qed
  show "identifierStart (hd (CHR ''_'' # s))" by (simp add: identifierStart_def)
  show "list_all identifierPart (tl (CHR ''_'' # s))" using assms by simp
qed (rule list.distinct(2))

lemma numbered_valid: "isValidIdentifier (numbered (normalizeIdentifier (CHR ''_'' # s), n))"
proof -
  define t where "t = map (\<lambda>d. if identifierPart d then d else CHR ''_'') s"
  define u where "u = (if 1 < n then ''_'' @ show_nat n else [])"
  have "identifierPart CHR ''_''" by (simp add: identifierPart_def identifierStart_def)
  then have "list_all identifierPart (t @ u)"
    using identifier_parts(2) [of n] unfolding t_def u_def list_all_iff by auto
  moreover have "normalizeIdentifier (CHR ''_'' # s) = CHR ''_'' # t"
    by (simp add: normalizeIdentifier_def t_def identifierStart_def)
  then have "numbered (normalizeIdentifier (CHR ''_'' # s), n) = CHR ''_'' # (t @ u)"
    by (simp only: numbered_def u_def fst_conv snd_conv append_Cons append_Nil2 split: if_splits) simp
  ultimately show ?thesis by (simp only: underscore_valid)
qed

lemma moduleIdentifier_ok:
  assumes "imports_ok baseDir st" "moduleIdentifier baseDir p st = Inr (i, st1)" "digit_free_end p"
  shows "imports_ok baseDir st1 \<and> map_option ie_identifier (map_of (importMap st1) p) = Some i \<and>
    (\<forall>q e. map_of (importMap st) q = Some e \<longrightarrow> map_of (importMap st1) q = Some e)"
proof -
  obtain f n where fn: "splitModulePath p = (f, n)" by force
  let ?to = "resolvePath baseDir f"
  let ?base = "normalizeIdentifier (''__'' @ f @ ''_'' @ n)"
  have ok: "\<not> startsWith (relativePath baseDir ?to) ''..''" "n = ''default'' \<or> isValidIdentifier n"
    using assms(2) by (auto simp: moduleIdentifier_def fn Let_def split: if_splits)
  show ?thesis
  proof (cases "map_of (importMap st) p")
    case (Some e)
    then have "i = ie_identifier e" "st1 = st" using assms(2) ok by (auto simp: moduleIdentifier_def fn Let_def)
    with Some assms(1) show ?thesis by simp
  next
    case None
    define count where "count = (case map_of (identifierCount st) ?base of None \<Rightarrow> 0 | Some n \<Rightarrow> n) + 1"
    have i: "i = numbered (?base, count)"
      and st1: "st1 = \<lparr>importMap = importMap st @ [(p, \<lparr>ie_filepath = absolutePath ?to, ie_name = n, ie_identifier = i\<rparr>)],
        identifierCount = (?base, count) # identifierCount st\<rparr>"
      using assms(2) ok None by (auto simp: moduleIdentifier_def fn Let_def count_def numbered_def)
    have plain: "plain_end ?base"
      using assms(3) normalize_last [of "''__'' @ f @ ''_'' @ n"] by (simp add: plain_end_def digit_free_end_def fn)
    obtain ps where ps: "map (ie_identifier \<circ> snd) (importMap st) = map numbered ps" "distinct ps"
      "\<forall>(b, n) \<in> set ps. plain_end b \<and> 1 \<le> n \<and> (\<exists>c. map_of (identifierCount st) b = Some c \<and> n \<le> c)"
      using assms(1) by (auto simp: imports_ok_def)
    have new: "(?base, count) \<notin> set ps"
      using ps(3) by (force simp: count_def)
    have "\<exists>ps. map (ie_identifier \<circ> snd) (importMap st1) = map numbered ps \<and> distinct ps \<and>
        (\<forall>(b, n) \<in> set ps. plain_end b \<and> 1 \<le> n \<and> (\<exists>c. map_of (identifierCount st1) b = Some c \<and> n \<le> c))"
    proof (intro exI [of _ "ps @ [(?base, count)]"] conjI)
      show "map (ie_identifier \<circ> snd) (importMap st1) = map numbered (ps @ [(?base, count)])"
        using ps(1) by (simp add: st1 i)
      show "distinct (ps @ [(?base, count)])" using ps(2) new by simp
      show "\<forall>(b, n) \<in> set (ps @ [(?base, count)]).
          plain_end b \<and> 1 \<le> n \<and> (\<exists>c. map_of (identifierCount st1) b = Some c \<and> n \<le> c)"
        using ps(3) plain by (fastforce simp: st1 count_def split: option.splits)
    qed
    moreover have "distinct (map fst (importMap st1))"
      using assms(1) None by (auto simp: imports_ok_def st1 map_of_eq_None_iff)
    moreover have "isValidIdentifier i" using numbered_valid by (simp add: i)
    moreover obtain segments where "?to = baseDir @ segments" "list_all proper_segment segments"
      using inside_base [OF ok(1)] resolvePath_proper [of baseDir f] by auto
    ultimately have "imports_ok baseDir st1"
      using assms(1) ok(2) unfolding imports_ok_def by (auto simp: st1)
    then show ?thesis using None by (auto simp: st1 map_add_def)
  qed
qed

lemma parseModuleIdentifiers_ok:
  assumes "imports_ok baseDir st" "parseModuleIdentifiers baseDir ps st = Inr (is, st1)" "list_all digit_free_end ps"
  shows "imports_ok baseDir st1 \<and> map Some is = map (\<lambda>p. map_option ie_identifier (map_of (importMap st1) p)) ps \<and>
    (\<forall>q e. map_of (importMap st) q = Some e \<longrightarrow> map_of (importMap st1) q = Some e)"
  using assms
proof (induction baseDir ps st arbitrary: "is" st1 rule: parseModuleIdentifiers.induct)
  case (2 baseDir p ps st)
  from 2(3) obtain i js st0 where m: "moduleIdentifier baseDir p st = Inr (i, st0)"
    "parseModuleIdentifiers baseDir ps st0 = Inr (js, st1)" "is = i # js" by auto
  from moduleIdentifier_ok [OF 2(2) m(1)] 2(4) have a: "imports_ok baseDir st0"
    "map_option ie_identifier (map_of (importMap st0) p) = Some i"
    "\<forall>q e. map_of (importMap st) q = Some e \<longrightarrow> map_of (importMap st0) q = Some e" by auto
  from 2(1) [OF a(1) m(2)] 2(4) have b: "imports_ok baseDir st1"
    "map Some js = map (\<lambda>p. map_option ie_identifier (map_of (importMap st1) p)) ps"
    "\<forall>q e. map_of (importMap st0) q = Some e \<longrightarrow> map_of (importMap st1) q = Some e" by auto
  from a(2) b(3) have "Some i = map_option ie_identifier (map_of (importMap st1) p)" by auto
  with b(2) m(3) have "map Some is = map (\<lambda>p. map_option ie_identifier (map_of (importMap st1) p)) (p # ps)"
    by (simp only: list.map)
  with a(3) b(1,3) show ?case by blast
qed simp

definition handler_linked :: "(string \<times> importEntry) list \<Rightarrow> routeConfig \<Rightarrow> string routeHandler \<Rightarrow> bool" where
  "handler_linked im r h \<longleftrightarrow>
     map Some (rh_modules h) = map (\<lambda>p. map_option ie_identifier (map_of im p)) (optional_list (rc_module r)) \<and>
     map Some (rh_middlewares h) = map (\<lambda>p. map_option ie_identifier (map_of im p)) (optional_list (rc_middleware r))"

lemma handler_linked_mono:
  assumes "handler_linked im r h" "\<forall>q e. map_of im q = Some e \<longrightarrow> map_of im' q = Some e"
  shows "handler_linked im' r h"
proof -
  have mono: "map Some xs = map (\<lambda>p. map_option ie_identifier (map_of im' p)) ps"
    if l: "map Some xs = map (\<lambda>p. map_option ie_identifier (map_of im p)) ps" for xs :: "string list" and ps
  proof -
    have "map_option ie_identifier (map_of im p) = map_option ie_identifier (map_of im' p)" if "p \<in> set ps" for p
    proof -
      have "map_option ie_identifier (map_of im p) \<in> set (map Some xs)" unfolding l using that by simp
      then obtain e where "map_of im p = Some e" by auto
      with assms(2) show ?thesis by simp
    qed
    then show ?thesis unfolding l by (rule map_cong [OF refl])
  qed
  show ?thesis using assms(1) unfolding handler_linked_def by (blast intro: mono)
qed

lemma parseRouteConfigs_ok:
  assumes "imports_ok baseDir st" "parseRouteConfigs baseDir rs st = Inr (hs, st1)"
    and "\<forall>r \<in> set rs. list_all digit_free_end (optional_list (rc_middleware r) @ optional_list (rc_module r))"
  shows "imports_ok baseDir st1 \<and> list_all2 (handler_linked (importMap st1)) rs hs \<and>
    (\<forall>q e. map_of (importMap st) q = Some e \<longrightarrow> map_of (importMap st1) q = Some e)"
  using assms
proof (induction baseDir rs st arbitrary: hs st1 rule: parseRouteConfigs.induct)
  case (2 baseDir r rs st)
  from 2(3) obtain mw sa ms sb hs0 where m:
    "parseModuleIdentifiers baseDir (optional_list (rc_middleware r)) st = Inr (mw, sa)"
    "parseModuleIdentifiers baseDir (optional_list (rc_module r)) sa = Inr (ms, sb)"
    "parseRouteConfigs baseDir rs sb = Inr (hs0, st1)"
    "hs = \<lparr>rh_routePath = rc_routePath r, rh_mountPath = rc_mountPath r, rh_method = rc_method r,
           rh_modules = ms, rh_middlewares = mw\<rparr> # hs0" by auto
  note a = parseModuleIdentifiers_ok [OF 2(2) m(1)]
  have a: "imports_ok baseDir sa"
    "map Some mw = map (\<lambda>p. map_option ie_identifier (map_of (importMap sa) p)) (optional_list (rc_middleware r))"
    "\<forall>q e. map_of (importMap st) q = Some e \<longrightarrow> map_of (importMap sa) q = Some e"
    using parseModuleIdentifiers_ok [OF 2(2) m(1)] 2(4) by auto
  have b: "imports_ok baseDir sb"
    "map Some ms = map (\<lambda>p. map_option ie_identifier (map_of (importMap sb) p)) (optional_list (rc_module r))"
    "\<forall>q e. map_of (importMap sa) q = Some e \<longrightarrow> map_of (importMap sb) q = Some e"
    using parseModuleIdentifiers_ok [OF a(1) m(2)] 2(4) by auto
  have c: "imports_ok baseDir st1" "list_all2 (handler_linked (importMap st1)) rs hs0"
    "\<forall>q e. map_of (importMap sb) q = Some e \<longrightarrow> map_of (importMap st1) q = Some e"
    using 2(1) [OF b(1) m(3)] 2(4) by auto
  let ?h = "hd hs"
  let ?ra = "r\<lparr>rc_module := None\<rparr>" and ?rb = "r\<lparr>rc_middleware := None\<rparr>"
  have "handler_linked (importMap sa) ?ra (?h\<lparr>rh_modules := []\<rparr>)"
    using a(2) m(4) by (simp add: handler_linked_def optional_list_def)
  then have "handler_linked (importMap st1) ?ra (?h\<lparr>rh_modules := []\<rparr>)"
    by (rule handler_linked_mono) (use b(3) c(3) in blast)
  moreover have "handler_linked (importMap sb) ?rb (?h\<lparr>rh_middlewares := []\<rparr>)"
    using b(2) m(4) by (simp add: handler_linked_def optional_list_def)
  then have "handler_linked (importMap st1) ?rb (?h\<lparr>rh_middlewares := []\<rparr>)"
    by (rule handler_linked_mono) (use c(3) in blast)
  ultimately have "handler_linked (importMap st1) r ?h" using m(4) by (simp add: handler_linked_def)
  with a(3) b(3) c m(4) show ?case by simp
qed simp

text \<open>
  C25: The imports of the generated module, if no name of an export ends in a digit, as those of the handlers
  in a file tree do not. Every import is of a path in the functions directory, without empty segments and
  dots, by a valid name; every identifier is valid and none is bound twice, no module is imported twice, and
  in every route the identifiers stand for the modules and middlewares of its configuration.
\<close>

theorem imports_linked:
  assumes "parseConfig routes baseDir = Inr (hs, im)"
    and "\<forall>r \<in> set routes. list_all digit_free_end (optional_list (rc_middleware r) @ optional_list (rc_module r))"
  shows "distinct (map (\<lambda>(p, e). ie_identifier e) im) \<and> distinct (map fst im) \<and>
    list_all2 (handler_linked im) routes hs \<and>
    (\<forall>(p, e) \<in> set im.
       (\<exists>segments. ie_filepath e = absolutePath (baseDir @ segments) \<and> list_all proper_segment segments) \<and>
       (ie_name e = ''default'' \<or> isValidIdentifier (ie_name e)) \<and> isValidIdentifier (ie_identifier e))"
proof -
  obtain st where p: "parseRouteConfigs baseDir routes \<lparr>importMap = [], identifierCount = []\<rparr> = Inr (hs, st)"
    and im: "im = importMap st" using assms(1) by (auto simp: parseConfig_def)
  have "imports_ok baseDir \<lparr>importMap = [], identifierCount = []\<rparr>" by (simp add: imports_ok_def)
  from parseRouteConfigs_ok [OF this p assms(2)]
  have ok: "imports_ok baseDir st" and linked: "list_all2 (handler_linked im) routes hs" by (simp_all add: im)
  from ok obtain ps where ps: "map (ie_identifier \<circ> snd) im = map numbered ps" "distinct ps"
    and bound: "\<forall>(b, n) \<in> set ps. plain_end b \<and> 1 \<le> n \<and> (\<exists>c. map_of (identifierCount st) b = Some c \<and> n \<le> c)"
    unfolding imports_ok_def im by blast
  have "inj_on numbered (set ps)"
  proof (rule inj_onI)
    fix x y assume "x \<in> set ps" "y \<in> set ps" "numbered x = numbered y"
    then show "x = y" using bound numbered_inj [of "fst x" "fst y" "snd x" "snd y"] by (auto simp: case_prod_unfold prod_eq_iff)
  qed
  with ps(1,2) have "distinct (map (ie_identifier \<circ> snd) im)" by (simp add: distinct_map)
  then have "distinct (map (\<lambda>(p, e). ie_identifier e) im)" by (simp add: comp_def case_prod_unfold)
  with linked show ?thesis using ok unfolding imports_ok_def im by blast
qed

theorem imports_linked_witness:
  "\<exists>im. parseConfig ex_config [''p''] = Inr (ex_handlers, im) \<and>
     distinct (map (\<lambda>(p, e). ie_identifier e) im) \<and> list_all2 (handler_linked im) ex_config ex_handlers"
proof -
  obtain im where p: "parseConfig ex_config [''p''] = Inr (ex_handlers, im)" using ex_parseConfig by blast
  have "\<forall>r \<in> set ex_config. list_all digit_free_end (optional_list (rc_middleware r) @ optional_list (rc_module r))"
    by code_simp
  from imports_linked [OF p this] p show ?thesis by blast
qed

subsection \<open>The run of a request\<close>

text \<open>\<open>next\<close> only takes handlers off the iterator.\<close>

definition takes_only ::
  "('rq option \<Rightarrow> ('rq, 'd, 'p) worker_state \<Rightarrow> func_result \<times> ('rq, 'd, 'p) worker_state) \<Rightarrow> bool"
where
  "takes_only nxt \<longleftrightarrow> (\<forall>input st. suffix (ws_iterator (snd (nxt input st))) (ws_iterator st))"

lemma run_action_suffix:
  assumes "takes_only nxt"
  shows "suffix (ws_iterator (snd (run_action nxt a st))) (ws_iterator st)"
proof (induction a arbitrary: st)
  case (Next input k)
  have "suffix (ws_iterator (snd (run_action nxt (k (fst (nxt input st))) (snd (nxt input st)))))
      (ws_iterator (snd (nxt input st)))" by (rule Next.IH) simp
  moreover have "suffix (ws_iterator (snd (nxt input st))) (ws_iterator st)"
    using assms by (simp add: takes_only_def)
  ultimately show ?case by (simp add: suffix_order.trans)
next
  case (SetData v k)
  have "suffix (ws_iterator (snd (run_action nxt (k b) (st\<lparr>ws_data := d\<rparr>)))) (ws_iterator st)" for b d
    using SetData.IH [of "k b" "st\<lparr>ws_data := d\<rparr>"] by simp
  with SetData.IH [of "k False" st] show ?case by (simp split: option.split)
next
  case (PassThroughOnException a)
  from this [of "st\<lparr>ws_isFailOpen := True\<rparr>"] show ?case by simp
qed (auto intro: rangeI)

lemma takes_only_next: "takes_only (worker_next env n)"
proof (induction n)
  case 0
  show ?case by (auto simp: takes_only_def fallback_fetch_def split: option.split)
next
  case (Suc n)
  show ?case
    unfolding takes_only_def
  proof (intro allI)
    fix input :: "'a option" and st0 :: "('a, 'b, 'c) worker_state"
    define st where "st = (case input of None \<Rightarrow> st0 | Some rq \<Rightarrow> st0\<lparr>ws_request := rq\<rparr>)"
    have it: "ws_iterator st = ws_iterator st0" by (simp add: st_def split: option.split)
    show "suffix (ws_iterator (snd (worker_next env (Suc n) input st0))) (ws_iterator st0)"
    proof (cases "ws_iterator st0")
      case Nil
      then show ?thesis using it by (simp add: st_def [symmetric] fallback_fetch_def)
    next
      case (Cons c cs)
      have "suffix (ws_iterator (snd (run_action (worker_next env n) a (st\<lparr>ws_iterator := cs\<rparr>)))) cs" for a
        using run_action_suffix [OF Suc, of a "st\<lparr>ws_iterator := cs\<rparr>"] by simp
      with Cons it show ?thesis
        by (simp add: st_def [symmetric] Let_def case_prod_unfold suffix_ConsI)
    qed
  qed
qed

lemma run_action_cong:
  assumes "takes_only nxt" and "\<And>input st. length (ws_iterator st) \<le> n \<Longrightarrow> nxt input st = nxt' input st"
    and "length (ws_iterator st) \<le> n"
  shows "run_action nxt a st = run_action nxt' a st"
  using assms(3)
proof (induction a arbitrary: st)
  case (Next input k)
  have "length (ws_iterator (snd (nxt input st))) \<le> n"
    using assms(1) Next.prems suffix_length_le unfolding takes_only_def by (meson order_trans)
  with Next assms(2) [OF Next.prems, of input] show ?case by (simp add: rangeI)
next
  case (SetData v k)
  then show ?case by (cases v) (auto intro: rangeI)
qed (auto intro: rangeI)

text \<open>
  Calling \<open>next\<close> always comes to an end: fuel for the handlers that are left is enough, and more fuel
  changes nothing, however often and under whatever conditions the handlers call it.
\<close>

theorem worker_next_fuel:
  fixes st :: "('rq, 'd, 'p) worker_state"
  assumes "length (ws_iterator st) \<le> n" "n \<le> m"
  shows "worker_next env m input st = worker_next env n input st"
  using assms
proof (induction n arbitrary: m input st)
  case 0
  then show ?case by (cases m) (auto split: option.split)
next
  case (Suc n)
  then obtain k where m: "m = Suc k" "n \<le> k" by (cases m) auto
  have "run_action (worker_next env k) a st' = run_action (worker_next env n) a st'"
    if "length (ws_iterator st') \<le> n" for a and st' :: "('rq, 'd, 'p) worker_state"
    by (rule run_action_cong [OF takes_only_next _ that]) (use Suc.IH m(2) in blast)
  then show ?case using Suc.prems(1) unfolding m(1)
    by (auto simp: Let_def split: option.split list.split)
qed

definition ex_state :: "(unit, unit, unit) worker_state" where
  "ex_state = \<lparr>ws_iterator = [\<lparr>hc_handler = (\<lambda>cx. Next None (\<lambda>r. Next None (\<lambda>r. Throw ''e''))), hc_params = (),
     hc_path = []\<rparr>], ws_request = (), ws_data = (), ws_isFailOpen = False, ws_fetched = 0\<rparr>"

theorem worker_next_fuel_witness:
  "worker_next env 5 None ex_state = worker_next env 1 None ex_state"
  by (rule worker_next_fuel) (simp_all add: ex_state_def)

lemma fetched_next:
  fixes st :: "('rq, 'd, 'p) worker_state"
  assumes "length (ws_iterator st) \<le> n" "0 < ws_fetched st \<longrightarrow> ws_iterator st = []"
  shows "0 < ws_fetched (snd (worker_next env n input st)) \<longrightarrow> ws_iterator (snd (worker_next env n input st)) = []"
  using assms
proof (induction n arbitrary: input st)
  case 0
  then show ?case by (auto simp: fallback_fetch_def split: option.split)
next
  case (Suc n)
  have act: "0 < ws_fetched (snd (run_action (worker_next env n) a st')) \<longrightarrow>
      ws_iterator (snd (run_action (worker_next env n) a st')) = []"
    if "length (ws_iterator st') \<le> n" "0 < ws_fetched st' \<longrightarrow> ws_iterator st' = []"
    for a and st' :: "('rq, 'd, 'p) worker_state"
    using that
  proof (induction a arbitrary: st')
    case (Next input k)
    have "length (ws_iterator (snd (worker_next env n input st'))) \<le> n"
      using takes_only_next Next.prems(1) suffix_length_le unfolding takes_only_def by (meson order_trans)
    with Next Suc.IH [OF Next.prems, of input] show ?case by (simp add: rangeI)
  next
    case (SetData v k)
    then show ?case by (cases v) (auto intro: rangeI)
  qed (auto intro: rangeI)
  define st1 where "st1 = (case input of None \<Rightarrow> st | Some rq \<Rightarrow> st\<lparr>ws_request := rq\<rparr>)"
  have s: "ws_iterator st1 = ws_iterator st" "ws_fetched st1 = ws_fetched st"
    by (simp_all add: st1_def split: option.split)
  show ?case
  proof (cases "ws_iterator st")
    case Nil
    with s show ?thesis by (simp add: st1_def [symmetric] fallback_fetch_def)
  next
    case (Cons c cs)
    with Suc.prems s act [of "st1\<lparr>ws_iterator := cs\<rparr>"] show ?thesis
      by (simp add: st1_def [symmetric] Let_def case_prod_unfold)
  qed
qed

text \<open>
  To see which handlers run, each of them first writes an entry into \<open>context.data\<close>: its tag, the path and
  the parameters it was given. What it does afterwards is arbitrary, but it sets no other data.
\<close>

primrec keeps_data :: "('rq, 'd) action \<Rightarrow> bool" where
  "keeps_data (Return r) \<longleftrightarrow> True"
| "keeps_data (Throw e) \<longleftrightarrow> True"
| "keeps_data (Next input k) \<longleftrightarrow> (\<forall>r. keeps_data (k r))"
| "keeps_data (GetData k) \<longleftrightarrow> (\<forall>d. keeps_data (k d))"
| "keeps_data (SetData v k) \<longleftrightarrow> v = None \<and> keeps_data (k False)"
| "keeps_data (PassThroughOnException a) \<longleftrightarrow> keeps_data a"

definition entering :: "'t \<Rightarrow> ('rq, ('t \<times> string \<times> 'p) list, 'p) pages_function
    \<Rightarrow> ('rq, ('t \<times> string \<times> 'p) list, 'p) pages_function" where
  "entering tag f = (\<lambda>cx. GetData (\<lambda>d. SetData (Some (d @ [(tag, cx_functionPath cx, cx_params cx)])) (\<lambda>_. f cx)))"

definition tagged ::
  "((('rq, ('t \<times> string \<times> 'p) list, 'p) pages_function, 'p) handlerCall \<Rightarrow> 't)
   \<Rightarrow> (('rq, ('t \<times> string \<times> 'p) list, 'p) pages_function, 'p) handlerCall \<Rightarrow> bool"
where
  "tagged tag c \<longleftrightarrow> (\<exists>f. hc_handler c = entering (tag c) f \<and> (\<forall>cx. keeps_data (f cx)))"

definition call_entry :: "(('h, 'p) handlerCall \<Rightarrow> 't) \<Rightarrow> ('h, 'p) handlerCall \<Rightarrow> 't \<times> string \<times> 'p" where
  "call_entry tag c = (tag c, hc_path c, hc_params c)"

text \<open>Between two states the next handlers of the iterator ran, in order.\<close>

definition ran_next ::
  "((('rq, ('t \<times> string \<times> 'p) list, 'p) pages_function, 'p) handlerCall \<Rightarrow> 't)
   \<Rightarrow> ('rq, ('t \<times> string \<times> 'p) list, 'p) worker_state \<Rightarrow> ('rq, ('t \<times> string \<times> 'p) list, 'p) worker_state \<Rightarrow> bool"
where
  "ran_next tag st st' \<longleftrightarrow>
     (\<exists>cs. ws_iterator st = cs @ ws_iterator st' \<and> ws_data st' = ws_data st @ map (call_entry tag) cs)"

lemma ran_next_refl: "ws_iterator st' = ws_iterator st \<Longrightarrow> ws_data st' = ws_data st \<Longrightarrow> ran_next tag st st'"
  by (simp add: ran_next_def)

lemma ran_next_trans: "ran_next tag a b \<Longrightarrow> ran_next tag b c \<Longrightarrow> ran_next tag a c"
  unfolding ran_next_def by (elim exE conjE, rule_tac x = "cs @ csa" in exI) simp

lemma ran_next_tagged: "ran_next tag st st' \<Longrightarrow> list_all (tagged tag) (ws_iterator st) \<Longrightarrow> list_all (tagged tag) (ws_iterator st')"
  by (auto simp: ran_next_def)

lemma ran_next_action:
  assumes "\<And>input st. list_all (tagged tag) (ws_iterator st) \<Longrightarrow> ran_next tag st (snd (nxt input st))"
  shows "keeps_data a \<Longrightarrow> list_all (tagged tag) (ws_iterator st) \<Longrightarrow> ran_next tag st (snd (run_action nxt a st))"
proof (induction a arbitrary: st)
  case (Next input k)
  have 1: "ran_next tag st (snd (nxt input st))" using assms Next.prems(2) .
  have "ran_next tag (snd (nxt input st)) (snd (run_action nxt (k (fst (nxt input st))) (snd (nxt input st))))"
    by (rule Next.IH) (use Next.prems ran_next_tagged [OF 1] in auto)
  with 1 show ?case by (auto intro: ran_next_trans)
next
  case (PassThroughOnException a)
  then have "ran_next tag (st\<lparr>ws_isFailOpen := True\<rparr>) (snd (run_action nxt a (st\<lparr>ws_isFailOpen := True\<rparr>)))" by simp
  then show ?case by (simp add: ran_next_def)
qed (auto intro: ran_next_refl rangeI)

lemma ran_next_next: "list_all (tagged tag) (ws_iterator st) \<Longrightarrow> ran_next tag st (snd (worker_next env n input st))"
proof (induction n arbitrary: input st)
  case 0
  show ?case by (rule ran_next_refl) (simp_all add: fallback_fetch_def split: option.split)
next
  case (Suc n)
  define st1 where "st1 = (case input of None \<Rightarrow> st | Some rq \<Rightarrow> st\<lparr>ws_request := rq\<rparr>)"
  have s: "ws_iterator st1 = ws_iterator st" "ws_data st1 = ws_data st" by (simp_all add: st1_def split: option.split)
  show ?case
  proof (cases "ws_iterator st")
    case Nil
    with s show ?thesis by (simp add: st1_def [symmetric] fallback_fetch_def ran_next_def)
  next
    case (Cons c cs)
    with Suc.prems obtain f where f: "hc_handler c = entering (tag c) f" "\<And>cx. keeps_data (f cx)"
      by (auto simp: tagged_def)
    define cx where "cx = \<lparr>cx_request = ws_request st1, cx_functionPath = hc_path c, cx_params = hc_params c\<rparr>"
    define st2 where "st2 = st1\<lparr>ws_iterator := cs, ws_data := ws_data st @ [call_entry tag c]\<rparr>"
    have "snd (worker_next env (Suc n) input st) = snd (run_action (worker_next env n) (f cx) st2)"
      using Cons s f(1) by (simp add: st1_def [symmetric] Let_def case_prod_unfold entering_def cx_def st2_def call_entry_def)
    moreover have "ran_next tag st2 (snd (run_action (worker_next env n) (f cx) st2))"
      by (rule ran_next_action [OF Suc.IH f(2)]) (use Suc.prems Cons in \<open>simp_all add: st2_def\<close>)
    moreover have "ran_next tag st st2" using Cons by (auto simp: ran_next_def st2_def)
    ultimately show ?thesis by (auto intro: ran_next_trans)
  qed
qed

text \<open>
  C24: The handlers of a request run in the order of the generator, each at most once and with the path and
  the parameters of its own match: if every handler first writes its tag and these into the data, the data
  are in the end the entries of the first handlers, exactly those that are not left in the generator. Unless
  a handler asked to pass through on an exception, the fallback service or the origin is asked only when
  every handler has run.
\<close>

theorem worker_runs_in_order:
  fixes routes :: "('rq, ('t \<times> string \<times> 'p) list, 'p) pages_function routeHandler list"
  assumes "list_all (tagged tag) (executeRequest match routes verb requestPath)"
  shows "let calls = executeRequest match routes verb requestPath;
       st = snd (worker_fetch match routes env data0 verb requestPath request) in
   \<exists>n \<le> length calls. ws_data st = data0 @ map (\<lambda>c. (tag c, hc_path c, hc_params c)) (take n calls) \<and>
     ws_iterator st = drop n calls \<and> (0 < ws_fetched st \<and> \<not> ws_isFailOpen st \<longrightarrow> n = length calls)"
proof -
  define calls where "calls = executeRequest match routes verb requestPath"
  define st0 :: "('rq, ('t \<times> string \<times> 'p) list, 'p) worker_state" where
    "st0 = \<lparr>ws_iterator = calls, ws_request = request, ws_data = data0, ws_isFailOpen = False, ws_fetched = 0\<rparr>"
  define st1 where "st1 = snd (worker_next env (length calls) None st0)"
  define st where "st = snd (worker_fetch match routes env data0 verb requestPath request)"
  have "ran_next tag st0 st1"
    using ran_next_next [of tag st0 env "length calls" None] assms by (simp add: st0_def st1_def calls_def)
  then obtain cs where cs: "calls = cs @ ws_iterator st1" "ws_data st1 = data0 @ map (call_entry tag) cs"
    by (auto simp: ran_next_def st0_def)
  have fetched: "0 < ws_fetched st1 \<longrightarrow> ws_iterator st1 = []"
    using fetched_next [of st0 "length calls" env None] by (simp add: st0_def st1_def)
  have st: "ws_iterator st = ws_iterator st1 \<and> ws_data st = ws_data st1 \<and> (st = st1 \<or> ws_isFailOpen st)"
    unfolding st_def worker_fetch_def calls_def [symmetric] st0_def [symmetric] Let_def st1_def
    by (auto simp: case_prod_unfold fallback_fetch_def split: sum.split option.split)
  have parts: "take (length cs) calls = cs" "drop (length cs) calls = ws_iterator st1"
    using append_eq_conv_conj [of cs "ws_iterator st1" calls] cs(1) by metis+
  have "ws_data st = data0 @ map (\<lambda>c. (tag c, hc_path c, hc_params c)) (take (length cs) calls) \<and>
      ws_iterator st = drop (length cs) calls \<and> (0 < ws_fetched st \<and> \<not> ws_isFailOpen st \<longrightarrow> length cs = length calls)"
  proof (intro conjI impI)
    show "ws_data st = data0 @ map (\<lambda>c. (tag c, hc_path c, hc_params c)) (take (length cs) calls)"
      using parts(1) cs(2) st by (simp add: call_entry_def)
    show "ws_iterator st = drop (length cs) calls" using parts(2) st by simp
    assume "0 < ws_fetched st \<and> \<not> ws_isFailOpen st"
    then have "ws_iterator st1 = []" using st fetched by auto
    then show "length cs = length calls" using cs(1) by simp
  qed
  moreover have "length cs \<le> length calls" using arg_cong [OF cs(1), of length] by simp
  ultimately show ?thesis unfolding Let_def calls_def [symmetric] st_def [symmetric] by blast
qed

definition ex_tagged_routes :: "(unit, (string \<times> string \<times> unit) list, unit) pages_function routeHandler list" where
  "ex_tagged_routes =
     [\<lparr>rh_routePath = ''/a'', rh_mountPath = ''/'', rh_method = [],
       rh_modules = [entering ''module'' (\<lambda>cx. Return None)],
       rh_middlewares = [entering ''middleware'' (\<lambda>cx. Next None (\<lambda>r. Next None (\<lambda>r. Throw ''e'')))]\<rparr>]"

definition ex_tag :: "((unit, (string \<times> string \<times> unit) list, unit) pages_function, unit) handlerCall \<Rightarrow> string" where
  "ex_tag c =
     (case hc_handler c \<lparr>cx_request = (), cx_functionPath = [], cx_params = ()\<rparr> of
        GetData k \<Rightarrow> (case k [] of SetData (Some ((t, _) # _)) _ \<Rightarrow> t | _ \<Rightarrow> []) | _ \<Rightarrow> [])"

theorem worker_runs_in_order_witness:
  "map fst (ws_data (snd (worker_fetch ex_match ex_tagged_routes
     \<lparr>we_fallback = None, we_origin = (\<lambda>rq. Inl ''offline'')\<rparr> [] ''GET'' ''/a'' ()))) = [''middleware'', ''module'']"
proof -
  let ?e = "\<lparr>we_fallback = None, we_origin = (\<lambda>rq. Inl ''offline'')\<rparr> :: unit worker_env"
  let ?calls = "executeRequest ex_match ex_tagged_routes ''GET'' ''/a''"
  let ?st = "snd (worker_fetch ex_match ex_tagged_routes ?e [] ''GET'' ''/a'' ())"
  have t: "tagged ex_tag \<lparr>hc_handler = entering t f, hc_params = (), hc_path = p\<rparr>" if "\<And>cx. keeps_data (f cx)" for t f p
    using that by (auto simp: tagged_def ex_tag_def entering_def)
  have "list_all (tagged ex_tag) ?calls"
    by (simp add: ex_tagged_routes_def executeRequest_def middlewareCalls_def methodMatches_def routeMatch_def ex_match_def
        escapePattern_def t)
  from worker_runs_in_order [OF this, of ?e "[]" "()"] obtain n where
    n: "n \<le> length ?calls" "ws_data ?st = map (\<lambda>c. (ex_tag c, hc_path c, hc_params c)) (take n ?calls)"
    "0 < ws_fetched ?st \<and> \<not> ws_isFailOpen ?st \<longrightarrow> n = length ?calls" by (auto simp: Let_def)
  have "0 < ws_fetched ?st \<and> \<not> ws_isFailOpen ?st" by code_simp
  with n have "map fst (ws_data ?st) = map ex_tag ?calls" by (simp add: comp_def)
  also have "\<dots> = [''middleware'', ''module'']" by code_simp
  finally show ?thesis .
qed

text \<open>A handler that calls \<open>next\<close> once and changes the response.\<close>

definition wrapper :: "(func_response \<Rightarrow> func_response) \<Rightarrow> ('rq, 'd, 'p) pages_function" where
  "wrapper f = (\<lambda>cx. Next None (\<lambda>r. case r of Inl e \<Rightarrow> Throw e | Inr x \<Rightarrow> Return (Some (f x))))"

definition wrap_result :: "(func_response \<Rightarrow> func_response) \<Rightarrow> func_result \<Rightarrow> func_result" where
  "wrap_result f r = (case r of Inl e \<Rightarrow> Inl e | Inr x \<Rightarrow> Inr (cloneResponse (f x)))"

lemma wrap_result_simps [simp]:
  "wrap_result f (Inl e) = Inl e" "wrap_result f (Inr x) = Inr (cloneResponse (f x))"
  by (simp_all add: wrap_result_def)

lemma next_wrappers:
  "map hc_handler (ws_iterator st) = map wrapper fs \<Longrightarrow>
     fst (worker_next env (length fs) None st) = foldr wrap_result fs (fst (fallback_fetch env st)) \<and>
     ws_isFailOpen (snd (worker_next env (length fs) None st)) = ws_isFailOpen st"
proof (induction fs arbitrary: st)
  case Nil
  then show ?case by (simp add: fallback_fetch_def)
next
  case (Cons f fs)
  then obtain c cs where c: "ws_iterator st = c # cs" "hc_handler c = wrapper f" "map hc_handler cs = map wrapper fs"
    by (auto simp: map_eq_Cons_conv)
  have ih: "fst (worker_next env (length fs) None (st\<lparr>ws_iterator := cs\<rparr>)) = foldr wrap_result fs (fst (fallback_fetch env st))"
    "ws_isFailOpen (snd (worker_next env (length fs) None (st\<lparr>ws_iterator := cs\<rparr>))) = ws_isFailOpen st"
    using Cons.IH [of "st\<lparr>ws_iterator := cs\<rparr>"] c(3) by (simp_all add: fallback_fetch_def)
  show ?case
    using ih c(1,2)
    by (cases "foldr wrap_result fs (fst (fallback_fetch env st))")
      (simp_all add: Let_def case_prod_unfold wrapper_def clone_result_def)
qed

text \<open>
  If every handler of a request calls \<open>next\<close> once and transforms the response it gets, the worker is the
  composition of the transformations around the fallback: the first handler of the order is the outermost.
\<close>

theorem worker_composes_handlers:
  assumes "map hc_handler (executeRequest match routes verb requestPath) = map wrapper fs"
  shows "fst (worker_fetch match routes env data0 verb requestPath request) =
    foldr wrap_result fs (clone_result ((case we_fallback env of None \<Rightarrow> we_origin env | Some f \<Rightarrow> f) request))"
proof -
  have l: "length (executeRequest match routes verb requestPath) = length fs"
    using arg_cong [OF assms, of length] by simp
  define st0 where "st0 = \<lparr>ws_iterator = executeRequest match routes verb requestPath, ws_request = request,
    ws_data = data0, ws_isFailOpen = False, ws_fetched = 0\<rparr>"
  have "fst (fallback_fetch env st0) = clone_result ((case we_fallback env of None \<Rightarrow> we_origin env | Some f \<Rightarrow> f) request)"
    by (simp add: fallback_fetch_def st0_def)
  with next_wrappers [of st0 fs env] assms show ?thesis
    unfolding worker_fetch_def l st0_def [symmetric] Let_def
    by (simp add: st0_def case_prod_unfold split: sum.split)
qed

theorem worker_composes_handlers_witness:
  "fst (worker_fetch ex_match
      [\<lparr>rh_routePath = ''/a'', rh_mountPath = ''/'', rh_method = [],
        rh_modules = [wrapper (fr_status_update (\<lambda>_. 201))], rh_middlewares = [wrapper (fr_headers_update (Cons (''a'', ''b'')))]\<rparr>]
      \<lparr>we_fallback = None, we_origin = (\<lambda>rq. Inr \<lparr>fr_status = 200, fr_headers = [], fr_body = None\<rparr>)\<rparr> () ''GET'' ''/a'' ())
    = Inr \<lparr>fr_status = 201, fr_headers = [(''a'', ''b'')], fr_body = None\<rparr>"
proof -
  let ?fs = "[fr_headers_update (Cons (''a'', ''b'')), fr_status_update (\<lambda>_. 201)] :: (func_response \<Rightarrow> func_response) list"
  let ?r = "[\<lparr>rh_routePath = ''/a'', rh_mountPath = ''/'', rh_method = [],
        rh_modules = [wrapper (?fs ! 1)], rh_middlewares = [wrapper (?fs ! 0)]\<rparr>]
     :: (unit, unit, unit) pages_function routeHandler list"
  have "map hc_handler (executeRequest ex_match ?r ''GET'' ''/a'') = map wrapper ?fs"
    by (simp add: executeRequest_def middlewareCalls_def methodMatches_def routeMatch_def ex_match_def escapePattern_def)
  from worker_composes_handlers [OF this] show ?thesis
    by (simp add: wrap_result_def clone_result_def cloneResponse_def)
qed

subsection \<open>The rules of the built project\<close>

lemma convertParams_slash:
  "0 < k \<Longrightarrow> convertParams k star (CHR ''/'' # s) = Inr t \<Longrightarrow> \<exists>r. t = CHR ''/'' # r"
  by (auto simp: bracketed_other)

lemma convertPath_slash:
  assumes "convertPath (CHR ''/'' # s) = Inr t"
  shows "\<exists>r. t = CHR ''/'' # r"
proof -
  obtain u where u: "convertParams 2 ''*'' (CHR ''/'' # s) = Inr u" "convertParams 1 [] u = Inr t"
    using assms by (auto simp: convertPath_def convertCatchallParams_def convertSimpleParams_def)
  obtain v where "u = CHR ''/'' # v" using convertParams_slash [OF _ u(1)] by auto
  with convertParams_slash [of 1] u(2) show ?thesis by auto
qed

lemma file_entry_slash:
  assumes "file_entry exportNames [] f e"
  shows "startsWith (rc_routePath e) ''/''"
proof -
  obtain x m where "routeEntry [] f x m = Inr e" using assms by (auto simp: file_entry_def)
  then obtain s t where "convertPath (CHR ''/'' # s) = Inr t" "rc_routePath e = toUrlPath t"
    by (auto simp: routeEntry_def routePaths_def Let_def)
  with convertPath_slash show ?thesis by (fastforce simp: toUrlPath_def startsWith_def)
qed

lemma route_from_entry:
  assumes "generateConfigFromFileTree localeCompare exportNames baseURL tree = Inr routes" "r \<in> set routes"
  shows "\<exists>f e. file_entry exportNames (normaliseBaseURL baseURL) f e \<and> rc_routePath r = rc_routePath e"
proof -
  obtain es where es: "allEntries exportNames (normaliseBaseURL baseURL) (forEachFile [([], tree)]) = Inr es"
    and r: "routes = js_sort (compareRouteConfigs localeCompare) (combineEntries es)"
    using assms(1) by (auto simp: generateConfigFromFileTree_def)
  have "route_id r \<in> set (map route_id es)"
    using combineEntries_combined [of es] assms(2) by (auto simp: combined_def r)
  then show ?thesis using allEntries_iff [OF es] by (fastforce simp: route_id_def)
qed

text \<open>
  C26: Whatever files a project has, if its build succeeds the routing rules written for it pass the validation
  of routing files.
\<close>

theorem built_rules_valid:
  assumes "buildRoutes localeCompare exportNames functionsDirectory = Inr (routes, spec)"
  shows "validateRoutes spec = Inr ()"
proof -
  have g: "generateConfigFromFileTree localeCompare exportNames ''/'' functionsDirectory = Inr routes" "routes \<noteq> []"
    and spec: "spec = convertRoutesToRoutesJSONSpec localeCompare (map routeInputOf routes)"
    using assms by (auto simp: buildRoutes_def toUrlPath_def split: if_splits)
  have "normaliseBaseURL ''/'' = []" by code_simp
  then have "\<forall>r \<in> set (map routeInputOf routes). startsWith (ri_routePath r) ''/''"
    using route_from_entry [OF g(1)] file_entry_slash by (fastforce simp: routeInputOf_def)
  with g(2) show ?thesis
    unfolding spec convertRoutesToRoutesJSONSpec_def
    by (intro optimized_valid) (use convertRoute_slash in \<open>auto simp: convertRoutesToGlobPatterns_def js_unique_def\<close>)
qed

theorem built_rules_valid_witness:
  "validateRoutes (convertRoutesToRoutesJSONSpec code_units (map routeInputOf ex_config)) = Inr ()"
proof -
  have "toUrlPath ''/'' = ''/''" by code_simp
  then have "buildRoutes code_units ex_exports ex_tree
      = Inr (ex_config, convertRoutesToRoutesJSONSpec code_units (map routeInputOf ex_config))"
    by (simp add: buildRoutes_def ex_generate) (simp add: ex_config_def)
  then show ?thesis by (rule built_rules_valid)
qed

end
