(* ===== verification/RouteRules.thy ===== *)
theory RouteRules
  imports FunctionTheorems
begin

text \<open>
  The routing rules of Pages Functions are complete: the reference is the reading of a route's pattern as
  \<open>path-to-regexp\<close> documents it, over the pieces of the pattern and without regular expressions, and every
  request that a function or a middleware of the project is written for is sent to the worker.
\<close>

subsection \<open>The paths of a pattern\<close>

text \<open>
  A parameter stands for a non-empty text without a slash, a catch-all for any text; a catch-all that
  follows a slash may be missing together with that slash.
\<close>

fun pieces_match :: "piece list \<Rightarrow> string \<Rightarrow> bool" where
  "pieces_match [] s \<longleftrightarrow> s = []"
| "pieces_match (Literal t # ps) s \<longleftrightarrow>
     startsWith s t \<and> pieces_match ps (drop (length t) s)
     \<or> (case ps of
          Catchall n # qs \<Rightarrow>
            endsWith t ''/'' \<and> startsWith s (butlast t) \<and> pieces_match qs (drop (length t - 1) s)
        | _ \<Rightarrow> False)"
| "pieces_match (Simple n # ps) s \<longleftrightarrow>
     list_ex (\<lambda>k. CHR ''/'' \<notin> set (take k s) \<and> pieces_match ps (drop k s)) [1..<length s + 1]"
| "pieces_match (Catchall n # ps) s \<longleftrightarrow> list_ex (\<lambda>k. pieces_match ps (drop k s)) [0..<length s + 1]"

text \<open>
  A route of a project: the literal text in front of its first parameter, the rest of its pattern, and
  its middleware.
\<close>

record function_route =
  fr_start :: string
  fr_rest :: "piece list"
  fr_middleware :: middleware

abbreviation fr_pieces :: "function_route \<Rightarrow> piece list" where
  "fr_pieces fr \<equiv> Literal (fr_start fr) # fr_rest fr"

definition route_input :: "function_route \<Rightarrow> routeInput" where
  "route_input fr =
     \<lparr>ri_routePath = concat (map pattern_text (fr_pieces fr)), ri_middleware = fr_middleware fr\<rparr>"

text \<open>
  The requests of a route. Its functions are for the paths that its pattern matches as a whole, with an
  optional slash at the end; its middleware is also for the paths below them.
\<close>

definition route_serves :: "function_route \<Rightarrow> string \<Rightarrow> bool" where
  "route_serves fr p \<longleftrightarrow>
     list_ex (\<lambda>k. pieces_match (fr_pieces fr) (take k p) \<and>
         (k = length p
          \<or> drop k p = ''/'' \<and> \<not> endsWith (take k p) ''/''
          \<or> has_middleware (fr_middleware fr) \<and> (startsWith (drop k p) ''/'' \<or> endsWith (take k p) ''/'')))
       [0..<length p + 1]"

text \<open>
  Well-formed patterns: the literal text in front of the first parameter has proper segments and none of the
  characters that mean something in a rule; a parameter has a name of word characters and is not followed by
  one; a catch-all is followed by a slash or nothing.
\<close>

definition literal_char :: "char \<Rightarrow> bool" where
  "literal_char c \<longleftrightarrow> c \<notin> set '':*'' \<and> \<not> line_end c"

definition rule_char :: "char \<Rightarrow> bool" where
  "rule_char c \<longleftrightarrow> literal_char c \<and> c \<notin> set ''+?()[]{}|^$'' \<and> c \<noteq> CHR 0x5C"

definition proper_start :: "string \<Rightarrow> bool \<Rightarrow> bool" where
  "proper_start t whole \<longleftrightarrow>
     startsWith t ''/'' \<and> list_all rule_char t \<and>
     list_all proper_segment (butlast (split_on CHR ''/'' (tl t))) \<and>
     (whole \<longrightarrow> t = ''/'' \<or> proper_segment (last (split_on CHR ''/'' (tl t))))"

fun rest_wf :: "piece list \<Rightarrow> bool" where
  "rest_wf [] \<longleftrightarrow> True"
| "rest_wf (Literal t # ps) \<longleftrightarrow> list_all literal_char t \<and> rest_wf ps"
| "rest_wf (Simple n # ps) \<longleftrightarrow> n \<noteq> [] \<and> list_all is_word_char n \<and> rest_wf ps \<and>
     (case ps of Literal (c # t) # qs \<Rightarrow> \<not> is_word_char c | [] \<Rightarrow> True | _ \<Rightarrow> False)"
| "rest_wf (Catchall n # ps) \<longleftrightarrow> n \<noteq> [] \<and> list_all is_word_char n \<and> rest_wf ps \<and>
     (case ps of Literal (c # t) # qs \<Rightarrow> c = CHR ''/'' | [] \<Rightarrow> True | _ \<Rightarrow> False)"

definition route_wf :: "function_route \<Rightarrow> bool" where
  "route_wf fr \<longleftrightarrow> proper_start (fr_start fr) (fr_rest fr = []) \<and> rest_wf (fr_rest fr) \<and>
     (case fr_rest fr of Literal _ # _ \<Rightarrow> False | _ \<Rightarrow> True)"

subsection \<open>The rule of a route\<close>

lemma one_line_Nil [simp]: "one_line []"
  and one_line_Cons [simp]: "one_line (c # s) \<longleftrightarrow> \<not> line_end c \<and> one_line s"
  and one_line_append [simp]: "one_line (s @ t) \<longleftrightarrow> one_line s \<and> one_line t"
  by (auto simp: one_line_def)

lemma colon_star_line: "\<not> line_end CHR '':''" "\<not> line_end CHR ''*''"
  by (simp_all add: line_end_def)

lemma word_char_line:
  assumes "is_word_char c"
  shows "\<not> line_end c"
proof
  assume "line_end c"
  then have "c = CHR 0x0A \<or> c = CHR 0x0D" by (simp only: line_end_def)
  moreover have "\<not> is_word_char CHR 0x0A" "\<not> is_word_char CHR 0x0D" by code_simp+
  ultimately show False using assms by (elim disjE) (simp_all only:)
qed

lemma list_all_one_line:
  assumes "list_all P s" and "\<And>c. P c \<Longrightarrow> \<not> line_end c"
  shows "one_line s"
  using assms by (induction s) simp_all

lemma rest_one_line: "rest_wf ps \<Longrightarrow> one_line (concat (map pattern_text ps))"
proof (induction ps)
  case (Cons x ps)
  show ?case
  proof (cases x)
    case (Literal t)
    then have "list_all literal_char t" "rest_wf ps" using Cons.prems by (simp_all only: rest_wf.simps)
    then show ?thesis using Cons.IH list_all_one_line [of literal_char t]
      by (simp add: Literal literal_char_def)
  next
    case (Simple n)
    then have "list_all is_word_char n" "rest_wf ps" using Cons.prems by (simp_all only: rest_wf.simps)
    then show ?thesis using Cons.IH list_all_one_line [of is_word_char n] word_char_line
      by (simp add: Simple colon_star_line)
  next
    case (Catchall n)
    then have "list_all is_word_char n" "rest_wf ps" using Cons.prems by (simp_all only: rest_wf.simps)
    then show ?thesis using Cons.IH list_all_one_line [of is_word_char n] word_char_line
      by (simp add: Catchall colon_star_line)
  qed
qed simp

lemma globRoutePath_plain: "CHR '':'' \<notin> set t \<Longrightarrow> globRoutePath t = t"
  by (induction t) auto

lemma globRoutePath_param:
  assumes "CHR '':'' \<notin> set t" and "is_word_char c" and "one_line (c # s)"
  shows "globRoutePath (t @ CHR '':'' # c # s) = t @ ''*''"
proof -
  have "dropWhile (\<lambda>d. d \<noteq> CHR 0x0A \<and> d \<noteq> CHR 0x0D) (c # s) = []"
    using assms(3) by (subst dropWhile_eq_Nil_conv) (auto simp: one_line_def line_end_def)
  then show ?thesis using assms(1,2) by (induction t) (auto simp del: dropWhile.simps)
qed

lemma normalize_proper_id:
  "list_all proper_segment ss \<Longrightarrow> normalize_segments b (ss @ ts) acc = normalize_segments b ts (rev ss @ acc)"
  by (induction ss arbitrary: acc) (auto simp: proper_segment_def)

lemma proper_start_chars:
  assumes "proper_start t b"
  shows "CHR '':'' \<notin> set t" and "CHR ''*'' \<notin> set t" and "CHR 0x5C \<notin> set t" and "plain_rule t"
proof -
  have a: "rule_char c" if "c \<in> set t" for c
    using assms that by (simp add: proper_start_def list_all_iff)
  have "\<not> rule_char CHR '':''" "\<not> rule_char CHR ''*''" "\<not> rule_char CHR 0x5C" by code_simp+
  with a show "CHR '':'' \<notin> set t" "CHR ''*'' \<notin> set t" "CHR 0x5C \<notin> set t" by blast+
  show "plain_rule t" unfolding plain_rule_def using a by (simp only: rule_char_def) blast
qed

lemma proper_start_slash: "proper_start t b \<Longrightarrow> startsWith t ''/''"
  by (simp add: proper_start_def)

lemma plain_star: "plain_rule t \<Longrightarrow> plain_rule (t @ ''*'')"
  using plain_splat by (auto simp: plain_rule_def)

lemma plain_slash_star: "plain_rule t \<Longrightarrow> plain_rule (t @ ''/*'')"
  using plain_splat by (auto simp: plain_rule_def)

lemma toUrlPath_id: "CHR 0x5C \<notin> set t \<Longrightarrow> toUrlPath t = t"
  unfolding toUrlPath_def by (rule map_idI) auto

lemma not_ends_star: "CHR ''*'' \<notin> set t \<Longrightarrow> \<not> endsWith t ''*''"
  by (auto simp: endsWith_iff_suffix suffix_def)

lemma convert_param:
  assumes wf: "route_wf fr" and rest: "fr_rest fr \<noteq> []"
  shows "convertRoute (route_input fr) = fr_start fr @ ''*''"
proof -
  note t = proper_start_chars [of "fr_start fr" "fr_rest fr = []"]
  have ps: "proper_start (fr_start fr) (fr_rest fr = [])" "rest_wf (fr_rest fr)"
    using wf by (simp_all add: route_wf_def)
  obtain c s where cs: "concat (map pattern_text (fr_rest fr)) = CHR '':'' # c # s" "is_word_char c"
  proof (cases "fr_rest fr")
    case (Cons x xs)
    with wf have "(\<exists>n. x = Simple n \<or> x = Catchall n)"
      by (cases x) (simp_all add: route_wf_def)
    then obtain n where x: "x = Simple n \<or> x = Catchall n" by blast
    then have n: "n \<noteq> []" "list_all is_word_char n" using ps(2) Cons by auto
    then obtain c n' where "n = c # n'" "is_word_char c" by (cases n) auto
    then show thesis using that x Cons by auto
  qed (use rest in simp)
  have "one_line (CHR '':'' # c # s)" using rest_one_line [OF ps(2)] by (simp only: cs)
  then have line: "one_line (c # s)" by simp
  have "globRoutePath (ri_routePath (route_input fr)) = fr_start fr @ ''*''"
    unfolding route_input_def by (simp add: cs globRoutePath_param [OF t(1) [OF ps(1)] cs(2) line])
  moreover have "toUrlPath (fr_start fr @ ''*'') = fr_start fr @ ''*''"
    using t(3) [OF ps(1)] by (intro toUrlPath_id) simp
  moreover have "endsWith (fr_start fr @ ''*'') ''*''" by (simp add: endsWith_iff_suffix)
  ultimately show ?thesis by (simp add: convertRoute_def)
qed

lemma split_on_proper:
  assumes "list_all proper_segment (butlast ss)" and "proper_segment (last ss)" and "ss \<noteq> []"
  shows "list_all proper_segment ss"
proof -
  have "list_all proper_segment (butlast ss @ [last ss])" using assms(1,2) by simp
  then show ?thesis using assms(3) by simp
qed

lemma startsWith_slashD: "startsWith t ''/'' \<Longrightarrow> \<exists>u. t = CHR ''/'' # u"
  by (cases t) (simp_all add: startsWith_def)

lemma proper_start_segments:
  assumes "proper_start t True" and "t \<noteq> ''/''"
  shows "list_all proper_segment (split_on CHR ''/'' (tl t))"
proof (rule split_on_proper)
  show "list_all proper_segment (butlast (split_on CHR ''/'' (tl t)))"
    using assms(1) unfolding proper_start_def by blast
  show "proper_segment (last (split_on CHR ''/'' (tl t)))"
    using assms unfolding proper_start_def by blast
qed simp

lemma pathJoin_root: "pathJoin ''/'' ''*'' = ''/*''"
  by (simp add: pathJoin_def startsWith_def endsWith_def)

lemma pathJoin_star:
  assumes "proper_start t True"
  shows "pathJoin t ''*'' = (if t = ''/'' then ''/*'' else t @ ''/*'')"
proof (cases "t = ''/''")
  case True
  then show ?thesis by (simp only: pathJoin_root simp_thms if_True)
next
  case False
  obtain u where t: "t = CHR ''/'' # u"
    using startsWith_slashD [OF proper_start_slash [OF assms]] by blast
  define ss where "ss = split_on CHR ''/'' u"
  define p where "p = t @ ''/'' @ ''*''"
  have "list_all proper_segment ss"
    using proper_start_segments [OF assms False] by (simp only: ss_def t list.sel)
  from normalize_proper_id [OF this]
  have n: "normalize_segments True ([] # ss @ [''*'']) [] = ss @ [''*'']" by simp
  have s: "split_on CHR ''/'' p = [] # ss @ [''*'']"
    using split_on_append_sep [of "CHR ''/''" u "''*''"] by (simp add: p_def t ss_def)
  have "split_on CHR ''/'' (u @ ''/*'') = ss @ [''*'']"
    using split_on_append_sep [of "CHR ''/''" u "''*''"] by (simp add: ss_def)
  then have j: "join_with ''/'' (ss @ [''*'']) = u @ ''/*''"
    using join_split_on [of "CHR ''/''" "u @ ''/*''"] by simp
  have a: "startsWith p ''/'' = True" "endsWith p ''/'' = False"
    by (simp_all add: p_def t startsWith_iff_prefix endsWith_def)
  have e: "(if t = [] then ''*'' else t @ ''/'' @ ''*'') = p" by (simp add: p_def t)
  have r: "''/'' @ u @ ''/*'' = t @ ''/*''" by (simp add: t)
  show ?thesis
    unfolding pathJoin_def Let_def e a s n j using False r by (simp only: simp_thms if_True if_False)
qed

lemma convert_literal:
  assumes wf: "route_wf fr" and rest: "fr_rest fr = []"
  shows "convertRoute (route_input fr) =
    (if \<not> has_middleware (fr_middleware fr) then fr_start fr
     else if fr_start fr = ''/'' then ''/*'' else fr_start fr @ ''/*'')"
proof -
  have ps: "proper_start (fr_start fr) True" using wf rest by (simp add: route_wf_def)
  note t = proper_start_chars [OF ps]
  have "globRoutePath (ri_routePath (route_input fr)) = fr_start fr"
    by (simp add: route_input_def rest globRoutePath_plain [OF t(1)])
  moreover have "toUrlPath (pathJoin (fr_start fr) ''*'') = pathJoin (fr_start fr) ''*''"
    using t(3) by (intro toUrlPath_id) (simp add: pathJoin_star [OF ps])
  moreover have "ri_middleware (route_input fr) = fr_middleware fr" by (simp add: route_input_def)
  moreover have "toUrlPath (fr_start fr) = fr_start fr" by (rule toUrlPath_id [OF t(3)])
  ultimately show ?thesis
    by (cases "has_middleware (fr_middleware fr)")
      (simp_all only: convertRoute_def Let_def not_ends_star [OF t(2)] pathJoin_star [OF ps]
        simp_thms if_True if_False)
qed

lemma convert_plain: "route_wf fr \<Longrightarrow> plain_rule (convertRoute (route_input fr))"
proof -
  assume wf: "route_wf fr"
  then have "plain_rule (fr_start fr)"
    using proper_start_chars(4) by (auto simp: route_wf_def)
  then show ?thesis using wf convert_param [of fr] convert_literal [of fr]
    by (cases "fr_rest fr = []") (simp_all add: plain_star plain_slash_star plain_splat)
qed

subsection \<open>What the rule matches\<close>

lemma rule_tokens_literal: "CHR ''*'' \<notin> set t \<Longrightarrow> rule_tokens t = map Lit t"
  by (induction t) (auto simp: rule_tokens_def)

lemma match_literal: "match_tokens (map Lit t @ ts) (t @ r) = match_tokens ts r"
  by (induction t) simp_all

lemma match_any_line: "one_line u \<Longrightarrow> match_tokens [AnyChars] u"
  by (induction u) simp_all

lemma match_slash_any: "one_line u \<Longrightarrow> match_tokens [OptSlashAny] (CHR ''/'' # u)"
  using match_any_line [of u] by (simp del: match_tokens.simps(3))

lemma tokens_slash_star:
  assumes "q \<noteq> []" and "CHR ''*'' \<notin> set q"
  shows "transformRoutingRuleToRegExp (q @ ''/*'') = map Lit q @ [OptSlashAny]"
proof -
  have "endsWith (q @ ''/*'') ''/*''" by (simp add: splat_form)
  moreover have "q @ ''/*'' \<noteq> ''/''" "q @ ''/*'' \<noteq> ''/*''" using assms(1) by (cases q; simp)+
  ultimately show ?thesis by (simp add: transformRoutingRuleToRegExp_def rule_tokens_literal [OF assms(2)])
qed

lemma tokens_star:
  assumes "t \<noteq> []" and "CHR ''*'' \<notin> set t" and "\<not> endsWith t ''/''"
  shows "transformRoutingRuleToRegExp (t @ ''*'') = map Lit t @ [AnyChars]"
proof -
  obtain t' c where t: "t = t' @ [c]" using assms(1) by (cases t rule: rev_cases) auto
  then have c: "c \<noteq> CHR ''/''" using assms(3) by (auto simp: endsWith_iff_suffix)
  have "\<not> endsWith (t @ ''*'') ''/*''" "\<not> endsWith (t @ ''*'') ''/''" "endsWith (t @ ''*'') ''*''"
    using c by (simp_all add: endsWith_def startsWith_def t)
  moreover have "t @ ''*'' \<noteq> ''/''" "t @ ''*'' \<noteq> ''/*''" using c by (auto simp: t append_eq_Cons_conv)
  moreover have "rule_tokens (t @ ''*'') = map Lit t @ [AnyChars]"
    unfolding rule_tokens_append rule_tokens_literal [OF assms(2)] by (simp add: rule_tokens_def)
  ultimately show ?thesis by (simp add: transformRoutingRuleToRegExp_def)
qed

lemma tokens_literal:
  assumes "t \<noteq> []" and "CHR ''*'' \<notin> set t" and "\<not> endsWith t ''/''"
  shows "transformRoutingRuleToRegExp t = map Lit t @ [OptSlash]"
proof -
  have "\<not> endsWith t ''*''" by (rule not_ends_star [OF assms(2)])
  moreover have "\<not> endsWith t ''/*''" using assms(2) by (auto simp: endsWith_iff_suffix suffix_def)
  moreover have "t \<noteq> ''/''" "t \<noteq> ''/*''" using assms(2,3) by (auto simp: endsWith_iff_suffix)
  ultimately show ?thesis using assms(3) by (simp add: transformRoutingRuleToRegExp_def rule_tokens_literal [OF assms(2)])
qed

text \<open>The rule of a pattern with a parameter matches every path that starts with the literal text.\<close>

lemma star_rule_match:
  assumes "t \<noteq> []" and "CHR ''*'' \<notin> set t" and "one_line u"
  shows "match_tokens (transformRoutingRuleToRegExp (t @ ''*'')) (t @ u)"
proof (cases "endsWith t ''/''")
  case False
  then show ?thesis using tokens_star [OF assms(1,2)] match_literal match_any_line [OF assms(3)] by metis
next
  case True
  then obtain q where t: "t = q @ ''/''" by (auto simp: endsWith_iff_suffix suffix_def)
  show ?thesis
  proof (cases "q = []")
    case True
    have "transformRoutingRuleToRegExp ''/*'' = [Lit CHR ''/'', AnyChars]"
      by (simp add: transformRoutingRuleToRegExp_def rule_tokens_def)
    then show ?thesis using match_any_line [OF assms(3)] by (simp add: t True del: match_tokens.simps(3))
  next
    case False
    have q: "CHR ''*'' \<notin> set q" using assms(2) t by simp
    have "t @ ''*'' = q @ ''/*''" "t @ u = q @ CHR ''/'' # u" by (simp_all add: t)
    then show ?thesis
      by (simp only: tokens_slash_star [OF False q] match_literal match_slash_any [OF assms(3)])
  qed
qed

lemma star_rule_stop:
  assumes "q \<noteq> []" and "CHR ''*'' \<notin> set q"
  shows "match_tokens (transformRoutingRuleToRegExp (q @ ''/*'')) q"
  using match_literal [of q "[OptSlashAny]" "[]"] by (simp add: tokens_slash_star [OF assms])

subsection \<open>The requests of a route\<close>

lemma starts_split: "startsWith s t \<Longrightarrow> s = t @ drop (length t) s"
  unfolding startsWith_iff_prefix prefix_def by auto

text \<open>What follows a catch-all that is missing starts with a slash.\<close>

lemma after_catchall:
  assumes "rest_wf (Catchall n # qs)" and "pieces_match qs r"
  shows "r = [] \<or> startsWith r ''/''"
  using assms
proof (induction "length qs" arbitrary: n qs r rule: less_induct)
  case less
  show ?case
  proof (cases qs)
    case Nil
    then show ?thesis using less.prems(2) by simp
  next
    case (Cons x ps)
    then obtain t where x: "x = Literal (CHR ''/'' # t)"
      using less.prems(1) by (cases x) (auto split: list.splits)
    from less.prems(2) consider "startsWith r (CHR ''/'' # t)"
      | m qs' where "ps = Catchall m # qs'" "startsWith r (butlast (CHR ''/'' # t))"
          "pieces_match qs' (drop (length (CHR ''/'' # t) - 1) r)"
      unfolding Cons x by (auto split: list.splits piece.splits)
    then show ?thesis
    proof cases
      case 1
      then show ?thesis by (cases r) (simp_all add: startsWith_def)
    next
      case 2
      show ?thesis
      proof (cases t)
        case Nil
        have "rest_wf (Catchall m # qs')" using less.prems(1) Cons 2(1) x by simp
        then show ?thesis using less.hyps [of qs' m r] 2 Cons Nil by simp
      next
        case (Cons c t')
        then show ?thesis using 2(2) by (cases r) (simp_all add: startsWith_def)
      qed
    qed
  qed
qed

lemma no_double_slash:
  assumes "list_all proper_segment (butlast (split_on CHR ''/'' (tl t)))" and "startsWith t ''/''"
  shows "t \<noteq> z @ ''//''"
proof
  assume t: "t = z @ ''//''"
  show False
  proof (cases z)
    case Nil
    then show ?thesis using assms(1) t by (simp add: proper_segment_def)
  next
    case (Cons c y)
    then have "split_on CHR ''/'' (tl t) = split_on CHR ''/'' y @ [[], []]"
      using split_on_append_sep [of "CHR ''/''" y "''/''"] by (simp add: t)
    then show ?thesis using assms(1) by (simp add: butlast_append proper_segment_def)
  qed
qed

lemma proper_no_slash:
  assumes "proper_start t True" and "t \<noteq> ''/''"
  shows "\<not> endsWith t ''/''"
proof
  assume "endsWith t ''/''"
  then obtain z where t: "t = z @ ''/''" by (auto simp: endsWith_iff_suffix suffix_def)
  with assms(2) obtain c y where "z = c # y" by (cases z) auto
  then have "split_on CHR ''/'' (tl t) = split_on CHR ''/'' y @ [[]]"
    using split_on_append_sep [of "CHR ''/''" y "[]"] by (simp add: t)
  then show False using proper_start_segments [OF assms] by (simp add: proper_segment_def)
qed

definition reaches :: "function_route \<Rightarrow> string \<Rightarrow> string \<Rightarrow> bool" where
  "reaches fr q e \<longleftrightarrow> pieces_match (fr_pieces fr) q \<and>
     (e = [] \<or> e = ''/'' \<and> \<not> endsWith q ''/''
      \<or> has_middleware (fr_middleware fr) \<and> (startsWith e ''/'' \<or> endsWith q ''/''))"

lemma route_serves_reaches: "route_serves fr p \<longleftrightarrow> (\<exists>q e. p = q @ e \<and> reaches fr q e)"
proof -
  have drop: "k = length p \<longleftrightarrow> drop k p = []" if "k \<in> set [0..<length p + 1]" for k
    using that by auto
  have "route_serves fr p \<longleftrightarrow> (\<exists>k \<in> set [0..<length p + 1]. reaches fr (take k p) (drop k p))"
    unfolding route_serves_def list_ex_iff reaches_def by (intro bex_cong refl) (simp only: drop)
  also have "\<dots> \<longleftrightarrow> (\<exists>q e. p = q @ e \<and> reaches fr q e)"
  proof
    assume "\<exists>q e. p = q @ e \<and> reaches fr q e"
    then obtain q e where p: "p = q @ e" and r: "reaches fr q e" by blast
    show "\<exists>k \<in> set [0..<length p + 1]. reaches fr (take k p) (drop k p)"
      by (rule bexI [of _ "length q"]) (use r in \<open>simp_all add: p\<close>)
  qed (metis append_take_drop_id)
  finally show ?thesis .
qed

lemma literal_rule_match:
  assumes wf: "route_wf fr" and rest: "fr_rest fr = []" and r: "reaches fr q e"
    and line: "one_line (q @ e)"
  shows "match_tokens (transformRoutingRuleToRegExp (convertRoute (route_input fr))) (q @ e)"
proof -
  define t where "t = fr_start fr"
  have ps: "proper_start t True" using wf rest by (simp add: route_wf_def t_def)
  note chars = proper_start_chars [OF ps]
  have q: "q = t"
    using r starts_split [of q t] unfolding reaches_def rest t_def by (auto dest: starts_split)
  have conv: "convertRoute (route_input fr) =
      (if \<not> has_middleware (fr_middleware fr) then t else if t = ''/'' then ''/*'' else t @ ''/*'')"
    unfolding t_def by (rule convert_literal [OF wf rest])
  show ?thesis
  proof (cases "t = ''/''")
    case True
    have "one_line e" using line by simp
    moreover have "endsWith q ''/''" by (simp add: q True endsWith_iff_suffix)
    ultimately show ?thesis using r match_any_line [of e] unfolding conv reaches_def
      by (auto simp: True q transformRoutingRuleToRegExp_def rule_tokens_def simp del: match_tokens.simps(3))
  next
    case False
    have ne: "t \<noteq> []" using proper_start_slash [OF ps] by (auto simp: startsWith_def)
    note end_t = proper_no_slash [OF ps False]
    show ?thesis
    proof (cases "has_middleware (fr_middleware fr)")
      case False
      then have "e = [] \<or> e = ''/''" using r by (auto simp: reaches_def)
      then have "match_tokens [OptSlash] e" by auto
      then show ?thesis
        using False conv by (simp only: q tokens_literal [OF ne chars(2) end_t] match_literal simp_thms if_True)
    next
      case True
      have "e = [] \<or> startsWith e ''/''"
        using r end_t unfolding reaches_def q by (auto simp: startsWith_def)
      then have "match_tokens [OptSlashAny] e"
      proof
        assume "startsWith e ''/''"
        then obtain u where u: "e = CHR ''/'' # u" using startsWith_slashD by blast
        then show ?thesis using line match_slash_any [of u] by (simp only: one_line_append one_line_Cons)
      qed simp
      then show ?thesis
        using True False conv \<open>t \<noteq> ''/''\<close>
        by (simp only: q tokens_slash_star [OF ne chars(2)] match_literal simp_thms if_False)
    qed
  qed
qed

lemma param_start:
  assumes wf: "route_wf fr" and rest: "fr_rest fr \<noteq> []" and m: "pieces_match (fr_pieces fr) q"
  shows "startsWith q (fr_start fr) \<or> fr_start fr = q @ ''/''"
proof (rule disjCI)
  define t where "t = fr_start fr"
  assume no: "fr_start fr \<noteq> q @ ''/''"
  show "startsWith q (fr_start fr)"
  proof (rule ccontr)
    assume "\<not> startsWith q (fr_start fr)"
    with m obtain n qs where c: "fr_rest fr = Catchall n # qs" "endsWith t ''/''"
        "startsWith q (butlast t)" "pieces_match qs (drop (length t - 1) q)"
      by (auto simp: t_def split: list.splits piece.splits)
    have "rest_wf (Catchall n # qs)" using wf c(1) by (simp add: route_wf_def)
    note tail = after_catchall [OF this c(4)]
    obtain z where z: "t = z @ ''/''" using c(2) by (auto simp: endsWith_iff_suffix suffix_def)
    then have q: "q = z @ drop (length t - 1) q" using starts_split [OF c(3)] by simp
    with tail no have "startsWith (drop (length t - 1) q) ''/''"
      by (auto simp: t_def [symmetric] z)
    then obtain u where "q = z @ ''/'' @ u"
      using startsWith_slashD [of "drop (length t - 1) q"] q by auto
    then have "startsWith q t" by (simp add: z startsWith_iff_prefix prefix_def)
    with \<open>\<not> startsWith q (fr_start fr)\<close> show False by (simp add: t_def)
  qed
qed

lemma param_rule_match:
  assumes wf: "route_wf fr" and rest: "fr_rest fr \<noteq> []" and r: "reaches fr q e"
    and line: "one_line (q @ e)" and slash: "startsWith (q @ e) ''/''"
  shows "match_tokens (transformRoutingRuleToRegExp (convertRoute (route_input fr))) (q @ e)"
proof -
  define t where "t = fr_start fr"
  have ps: "proper_start t False" using wf rest by (simp add: route_wf_def t_def)
  note chars = proper_start_chars [OF ps]
  have conv: "convertRoute (route_input fr) = t @ ''*''"
    unfolding t_def by (rule convert_param [OF wf rest])
  have ne: "t \<noteq> []" using proper_start_slash [OF ps] by (auto simp: startsWith_def)
  have whole: ?thesis if "q @ e = t @ u" for u
  proof -
    have "one_line u" using line unfolding that by simp
    from star_rule_match [OF ne chars(2) this] show ?thesis by (simp only: conv that)
  qed
  from r have m: "pieces_match (fr_pieces fr) q" by (simp add: reaches_def)
  from param_start [OF wf rest m] consider "startsWith q t" | "t = q @ ''/''" by (auto simp: t_def)
  then show ?thesis
  proof cases
    case 1
    then have "q @ e = t @ drop (length t) q @ e" using starts_split [of q t] by (metis append.assoc)
    then show ?thesis by (rule whole)
  next
    case 2
    have "\<not> endsWith q ''/''"
    proof
      assume "endsWith q ''/''"
      then obtain z where "t = z @ ''//''" using 2 by (auto simp: endsWith_iff_suffix suffix_def)
      then show False using no_double_slash [of t z] ps by (simp add: proper_start_def)
    qed
    then consider "e = []" | "startsWith e ''/''" using r by (auto simp: reaches_def startsWith_def)
    then show ?thesis
    proof cases
      case 1
      then have "q \<noteq> []" using slash by (auto simp: startsWith_def)
      moreover have "CHR ''*'' \<notin> set q" using chars(2) 2 by simp
      ultimately show ?thesis using star_rule_stop [of q] 1 by (simp add: conv 2)
    next
      case 2
      then obtain u where "e = CHR ''/'' # u" using startsWith_slashD by blast
      then have "q @ e = t @ u" by (simp add: \<open>t = q @ ''/''\<close>)
      then show ?thesis by (rule whole)
    qed
  qed
qed

lemma route_rule_match:
  assumes "route_wf fr" and "route_serves fr p" and "one_line p" and "startsWith p ''/''"
  shows "match_tokens (transformRoutingRuleToRegExp (convertRoute (route_input fr))) p"
  using assms literal_rule_match [of fr] param_rule_match [of fr]
  unfolding route_serves_reaches by (cases "fr_rest fr = []") blast+

subsection \<open>Properties\<close>

text \<open>
  C32: generated rules are complete. For a project whose patterns have no characters in front of their
  first parameter that are operators of regular expressions, every request, with the letters of the pattern
  in their case, that one of the project's functions or middlewares is for is sent to the Functions worker by
  the development pipeline with the generated rules: although patterns have been cut at their first parameter,
  shortened, merged or replaced by the rule for all paths. (The path \<open>//\<close> is not counted among
  the paths of the route \<open>/\<close>.)
\<close>

theorem routes_generated_complete:
  assumes "fr \<in> set frs" and "\<forall>fr \<in> set frs. route_wf fr"
    and "startsWith p ''/''" and "one_line p" and "route_serves fr p"
  shows "pipeline_fetch (convertRoutesToRoutesJSONSpec localeCompare (map route_input frs)) p = Inr ToWorker"
proof (rule rules_complete [of "route_input fr"])
  have slash: "startsWith (ri_routePath (route_input f)) ''/''" if "f \<in> set frs" for f
  proof -
    have "startsWith (fr_start f) ''/''"
      using assms(2) that proper_start_slash unfolding route_wf_def by blast
    then show ?thesis by (auto simp: route_input_def startsWith_iff_prefix prefix_def)
  qed
  then show "\<forall>r \<in> set (map route_input frs). startsWith (ri_routePath r) ''/''" by simp
  show "\<forall>r \<in> set (map route_input frs). plain_rule (convertRoute r)"
    using assms(2) convert_plain by simp
  have "convertRoute (route_input fr) \<noteq> []"
    using convertRoute_slash [OF slash [OF assms(1)]] by (rule startsWith_slash_ne)
  moreover have "p \<noteq> []" using assms(3) by (rule startsWith_slash_ne)
  moreover have "plain_rule (convertRoute (route_input fr))" using assms(1,2) convert_plain by blast
  moreover have "match_tokens (transformRoutingRuleToRegExp (convertRoute (route_input fr))) p"
    by (rule route_rule_match) (use assms in auto)
  ultimately show "isRoutingRuleMatch p (convertRoute (route_input fr)) = Inr True"
    by (simp add: isRoutingRuleMatch_def)
qed (use assms in simp_all)

text \<open>An example: functions \<open>/api/[id].js\<close> and \<open>/docs/[[path]].js\<close> and a middleware of \<open>/admin\<close>.\<close>

definition ex_function_routes :: "function_route list" where
  "ex_function_routes =
     [\<lparr>fr_start = ''/api/'', fr_rest = [Simple ''id''], fr_middleware = NoMiddleware\<rparr>,
      \<lparr>fr_start = ''/docs/'', fr_rest = [Catchall ''path''], fr_middleware = NoMiddleware\<rparr>,
      \<lparr>fr_start = ''/admin'', fr_rest = [], fr_middleware = MiddlewareString ''m''\<rparr>]"

lemma ex_function_routes_wf: "\<forall>fr \<in> set ex_function_routes. route_wf fr"
  unfolding ex_function_routes_def by code_simp

theorem routes_generated_complete_witness:
  "list_all (\<lambda>p. pipeline_fetch (convertRoutesToRoutesJSONSpec (\<lambda>a b. if a < b then -1 else 1)
      (map route_input ex_function_routes)) p = Inr ToWorker)
    [''/api/7'', ''/docs'', ''/docs/a/b'', ''/admin/x'']"
proof -
  let ?serves = "\<lambda>i p. route_serves (ex_function_routes ! i) p \<and> startsWith p ''/'' \<and> one_line p"
  have r: "?serves 0 ''/api/7''" "?serves 1 ''/docs''" "?serves 1 ''/docs/a/b''" "?serves 2 ''/admin/x''"
    unfolding ex_function_routes_def by code_simp+
  have m: "ex_function_routes ! 0 \<in> set ex_function_routes" "ex_function_routes ! 1 \<in> set ex_function_routes"
    "ex_function_routes ! 2 \<in> set ex_function_routes"
    by (simp_all add: ex_function_routes_def)
  note complete = routes_generated_complete [OF _ ex_function_routes_wf,
      of _ _ "\<lambda>a b. if a < b then -1 else 1"]
  show ?thesis
    using complete [OF m(1), of "''/api/7''"] complete [OF m(2), of "''/docs''"]
      complete [OF m(2), of "''/docs/a/b''"] complete [OF m(3), of "''/admin/x''"] r
    by (simp only: list_all_iff list.set ball_simps simp_thms)
qed

text \<open>
  Rules distinguish upper and lower case, the patterns that the worker matches do not: a request for
  \<open>/API\<close> is not sent to the worker that has a function for \<open>/api\<close>.
\<close>

lemma rules_case_sensitive:
  "pipeline_fetch (convertRoutesToRoutesJSONSpec (\<lambda>a b. if a < b then -1 else 1)
     [\<lparr>ri_routePath = ''/api'', ri_middleware = NoMiddleware\<rparr>]) ''/API'' = Inr ToAssets"
  by code_simp

end
