(* ===== verification/KVAssetHandler.thy ===== *)
theory KVAssetHandler
  imports Http
begin

text \<open>
  The handler of Workers Sites, \<^verbatim>\<open>packages/kv-asset-handler/src/index.ts\<close>: from a request to the key of an
  asset in the namespace, the response, and what is put into the cache.

  The table of MIME types, the namespace and the default cache are parameters; a URL is given by its origin
  and path. A default document has only characters that the path of a URL keeps as they are, and paths are
  not names of properties every JavaScript object has.
\<close>

subsection \<open>Options, requests and responses\<close>

datatype kvAssetError = MethodNotAllowedError string | NotFoundError string | InternalError string | Thrown error

record handler_event =
  aq_method :: string
  aq_origin :: string
  aq_pathname :: string
  aq_headers :: headers_obj

record handler_response =
  ar_status :: int
  ar_headers :: headers_obj
  ar_body :: "bytes option"

text \<open>A time to live that is \<^const>\<open>None\<close> is \<open>null\<close>; in the partial options an absent property is \<^const>\<open>None\<close>.\<close>

record cacheControl =
  cc_browserTTL :: "int option"
  cc_edgeTTL :: "int option"
  cc_bypassCache :: bool

record partialCacheControl =
  pc_browserTTL :: "int option option"
  pc_edgeTTL :: "int option option"
  pc_bypassCache :: "bool option"

datatype etag_kind = StrongETag | WeakETag | OtherETag

record asset_options =
  ao_cacheControl :: "handler_event \<Rightarrow> partialCacheControl"
  ao_ASSET_NAMESPACE :: "(string \<Rightarrow> bytes option) option"
  ao_ASSET_MANIFEST :: "(string \<times> string) list"
  ao_mapRequestToAsset :: "(handler_event \<Rightarrow> handler_event) option"
  ao_defaultMimeType :: string
  ao_defaultDocument :: string
  ao_pathIsEncoded :: bool
  ao_defaultETag :: etag_kind

definition defaultCacheControl :: cacheControl where
  "defaultCacheControl = \<lparr>cc_browserTTL = None, cc_edgeTTL = Some (2 * 60 * 60 * 24), cc_bypassCache = False\<rparr>"

definition assignCacheControl :: "partialCacheControl \<Rightarrow> cacheControl" where
  "assignCacheControl p =
     \<lparr>cc_browserTTL = (case pc_browserTTL p of None \<Rightarrow> cc_browserTTL defaultCacheControl | Some v \<Rightarrow> v),
      cc_edgeTTL = (case pc_edgeTTL p of None \<Rightarrow> cc_edgeTTL defaultCacheControl | Some v \<Rightarrow> v),
      cc_bypassCache = (case pc_bypassCache p of None \<Rightarrow> cc_bypassCache defaultCacheControl | Some v \<Rightarrow> v)\<rparr>"

definition getAssetFromKVDefaultOptions :: "(string \<Rightarrow> bytes option) option \<Rightarrow> (string \<times> string) list \<Rightarrow> asset_options" where
  "getAssetFromKVDefaultOptions namespace manifest =
     \<lparr>ao_cacheControl = (\<lambda>_. \<lparr>pc_browserTTL = None, pc_edgeTTL = None, pc_bypassCache = None\<rparr>),
      ao_ASSET_NAMESPACE = namespace, ao_ASSET_MANIFEST = manifest, ao_mapRequestToAsset = None,
      ao_defaultMimeType = ''text/plain'', ao_defaultDocument = ''index.html'', ao_pathIsEncoded = False,
      ao_defaultETag = StrongETag\<rparr>"

subsection \<open>From a request to a key\<close>

definition mapRequestToAsset :: "(string \<Rightarrow> string option) \<Rightarrow> string \<Rightarrow> handler_event \<Rightarrow> handler_event" where
  "mapRequestToAsset getType defaultDocument rq =
     (let pathname = aq_pathname rq in
      rq\<lparr>aq_pathname :=
        (if endsWith pathname ''/'' then pathname @ defaultDocument
         else if getType pathname = None then pathname @ ''/'' @ defaultDocument
         else pathname)\<rparr>)"

definition serveSinglePageApp :: "(string \<Rightarrow> string option) \<Rightarrow> string \<Rightarrow> handler_event \<Rightarrow> handler_event" where
  "serveSinglePageApp getType defaultDocument rq0 =
     (let rq = mapRequestToAsset getType defaultDocument rq0 in
      if endsWith (aq_pathname rq) ''.html'' then rq\<lparr>aq_pathname := ''/'' @ defaultDocument\<rparr> else rq)"

definition stripSlashes :: "string \<Rightarrow> string" where
  "stripSlashes p = dropWhile (\<lambda>c. c = CHR ''/'') p"

text \<open>\<open>ASSET_MANIFEST[key]\<close>; an empty value counts as none.\<close>

definition manifestKey :: "(string \<times> string) list \<Rightarrow> string \<Rightarrow> string option" where
  "manifestKey manifest key =
     (case map_of manifest key of None \<Rightarrow> None | Some v \<Rightarrow> if v = [] then None else Some v)"

definition decodeOrThrow :: "string \<Rightarrow> kvAssetError + string" where
  "decodeOrThrow s = (case decodeURIComponent s of None \<Rightarrow> Inl (Thrown URIError) | Some t \<Rightarrow> Inr t)"

text \<open>The request whose path is looked up, and whether the path is encoded.\<close>

definition requestKey ::
  "(string \<Rightarrow> string option) \<Rightarrow> asset_options \<Rightarrow> handler_event \<Rightarrow> kvAssetError + handler_event \<times> bool"
where
  "requestKey getType options request =
     (let rawPathKey = stripSlashes (aq_pathname request); manifest = ao_ASSET_MANIFEST options in
      case ao_mapRequestToAsset options of
        Some f \<Rightarrow> Inr (f request, ao_pathIsEncoded options)
      | None \<Rightarrow>
          if manifestKey manifest rawPathKey \<noteq> None then Inr (request, ao_pathIsEncoded options)
          else
            andThen (decodeOrThrow rawPathKey) (\<lambda>decoded.
            if manifestKey manifest decoded \<noteq> None then Inr (request, True)
            else
              (let mappedRequest = mapRequestToAsset getType ''index.html'' request in
               andThen (decodeOrThrow (stripSlashes (aq_pathname mappedRequest))) (\<lambda>mappedKey.
               if manifestKey manifest mappedKey \<noteq> None then Inr (mappedRequest, True)
               else Inr (mapRequestToAsset getType (ao_defaultDocument options) request,
                      ao_pathIsEncoded options)))))"

subsection \<open>Entity tags\<close>

definition formatETag :: "string \<Rightarrow> etag_kind \<Rightarrow> string" where
  "formatETag entityId validatorType =
     (if entityId = [] then []
      else (case validatorType of
              WeakETag \<Rightarrow>
                if \<not> startsWith entityId ''W/'' then
                  (if startsWith entityId [CHR 0x22] \<and> endsWith entityId [CHR 0x22] then ''W/'' @ entityId
                   else ''W/'' @ [CHR 0x22] @ entityId @ [CHR 0x22])
                else entityId
            | StrongETag \<Rightarrow>
                (let entity = (if startsWith entityId (''W/'' @ [CHR 0x22]) then drop 2 entityId else entityId)
                 in if endsWith entity [CHR 0x22] then entity else [CHR 0x22] @ entity @ [CHR 0x22])
            | OtherETag \<Rightarrow> []))"

subsection \<open>The response\<close>

definition lift_headers :: "headers_obj res \<Rightarrow> kvAssetError + headers_obj" where
  "lift_headers r = (case r of Inl e \<Rightarrow> Inl (Thrown e) | Inr hs \<Rightarrow> Inr hs)"

fun set_all :: "headers_obj \<Rightarrow> (string \<times> string) list \<Rightarrow> kvAssetError + headers_obj" where
  "set_all hs [] = Inr hs"
| "set_all hs ((n, v) # nvs) = andThen (lift_headers (headers_set hs n v)) (\<lambda>hs1. set_all hs1 nvs)"

definition withCharset :: "string \<Rightarrow> string" where
  "withCharset mimeType =
     (if startsWith mimeType ''text'' \<or> mimeType = ''application/javascript''
      then mimeType @ ''; charset=utf-8'' else mimeType)"

text \<open>A response found in the cache.\<close>

definition fromCache :: "handler_response \<Rightarrow> kvAssetError + handler_response" where
  "fromCache r =
     (if 300 < ar_status r \<and> ar_status r < 400 then Inr (r\<lparr>ar_body := None\<rparr>)
      else
        andThen (set_all (ar_headers r) [(''cf-cache-status'', ''HIT'')]) (\<lambda>hs.
          Inr (r\<lparr>ar_headers := hs,
                 ar_status := (if ar_status r \<noteq> 0 then ar_status r
                               else if headers_has hs ''Content-Range'' then 206 else 200)\<rparr>)))"

text \<open>The headers of a response that is stored in the cache.\<close>

definition cachedHeaders :: "etag_kind \<Rightarrow> string \<Rightarrow> bytes \<Rightarrow> int \<Rightarrow> kvAssetError + headers_obj" where
  "cachedHeaders defaultETag pathKey body edgeTTL =
     set_all []
       [(''Accept-Ranges'', ''bytes''), (''Content-Length'', show_nat (length body)),
        (''etag'', formatETag pathKey defaultETag), (''Cache-Control'', ''max-age='' @ show_int edgeTTL)]"

text \<open>The headers set at the end; \<open>ifNoneMatch\<close> is the header of the request.\<close>

definition finishHeaders ::
  "etag_kind \<Rightarrow> string \<Rightarrow> int option \<Rightarrow> string option \<Rightarrow> handler_response \<Rightarrow> kvAssetError + handler_response"
where
  "finishHeaders defaultETag mimeType browserTTL ifNoneMatch r =
     andThen (set_all (ar_headers r) [(''Content-Type'', mimeType)]) (\<lambda>hs.
     andThen
       (if ar_status r = 304 then
          (let etag = formatETag (case headers_get hs ''etag'' of None \<Rightarrow> [] | Some e \<Rightarrow> e) defaultETag;
               proxyCacheStatus = headers_get hs ''CF-Cache-Status''
           in if etag = [] then Inr hs
              else set_all hs
                [(''CF-Cache-Status'',
                    if ifNoneMatch = Some etag \<and> proxyCacheStatus = Some ''MISS'' then ''EXPIRED'' else ''REVALIDATED''),
                 (''etag'', formatETag etag WeakETag)])
        else Inr hs) (\<lambda>hs1.
     andThen
       (case browserTTL of
          Some ttl \<Rightarrow> set_all hs1 [(''Cache-Control'', ''max-age='' @ show_int ttl)]
        | None \<Rightarrow> Inr (headers_delete hs1 ''Cache-Control'')) (\<lambda>hs2.
     Inr (r\<lparr>ar_headers := hs2\<rparr>))))"

text \<open>
  The response with the path key known: the entry that is put into the cache, if any, and the result.
  \<open>cache_match\<close> looks a URL up in the default cache.
\<close>

definition respond ::
  "(string \<Rightarrow> headers_obj \<Rightarrow> handler_response option) \<Rightarrow> asset_options \<Rightarrow> (string \<Rightarrow> bytes option) \<Rightarrow> handler_event
   \<Rightarrow> string \<Rightarrow> string \<Rightarrow> bool \<Rightarrow> string
   \<Rightarrow> (kvAssetError + handler_response) \<times> (string \<times> handler_response) option"
where
  "respond cache_match options namespace request origin pathKey hashed mimeType =
     (let cacheKey = origin @ ''/'' @ pathKey;
          cc = assignCacheControl (ao_cacheControl options request);
          shouldEdgeCache = (hashed \<and> \<not> (cc_bypassCache cc \<or> cc_edgeTTL cc = None \<or> aq_method request = ''HEAD''));
          finish = finishHeaders (ao_defaultETag options) mimeType (cc_browserTTL cc)
                     (headers_get (aq_headers request) ''if-none-match'')
      in case (if shouldEdgeCache then cache_match cacheKey (aq_headers request) else None) of
           Some r \<Rightarrow> (andThen (fromCache r) finish, None)
         | None \<Rightarrow>
             (case namespace pathKey of
                None \<Rightarrow> (Inl (NotFoundError (''could not find '' @ pathKey @ '' in your content namespace'')), None)
              | Some body \<Rightarrow>
                  if shouldEdgeCache then
                    (case cachedHeaders (ao_defaultETag options) pathKey body (the (cc_edgeTTL cc)) of
                       Inl e \<Rightarrow> (Inl e, None)
                     | Inr hs \<Rightarrow>
                         let stored = \<lparr>ar_status = 200, ar_headers = hs, ar_body = Some body\<rparr> in
                         (andThen (set_all hs [(''CF-Cache-Status'', ''MISS'')]) (\<lambda>hs1.
                            finish (stored\<lparr>ar_headers := hs1\<rparr>)), Some (cacheKey, stored)))
                  else (finish \<lparr>ar_status = 200, ar_headers = [], ar_body = Some body\<rparr>, None)))"

definition getAssetFromKV ::
  "(string \<Rightarrow> string option) \<Rightarrow> (string \<Rightarrow> headers_obj \<Rightarrow> handler_response option) \<Rightarrow> asset_options \<Rightarrow> handler_event
   \<Rightarrow> (kvAssetError + handler_response) \<times> (string \<times> handler_response) option"
where
  "getAssetFromKV getType cache_match options request =
     (case ao_ASSET_NAMESPACE options of
        None \<Rightarrow> (Inl (InternalError ''there is no KV namespace bound to the script''), None)
      | Some namespace \<Rightarrow>
          (case requestKey getType options request of
             Inl e \<Rightarrow> (Inl e, None)
           | Inr (key, pathIsEncoded) \<Rightarrow>
               if aq_method key \<notin> {''GET'', ''HEAD''} then
                 (Inl (MethodNotAllowedError (aq_method key @ '' is not a valid request method'')), None)
               else
                 (case (if pathIsEncoded then decodeOrThrow (aq_pathname key) else Inr (aq_pathname key)) of
                    Inl e \<Rightarrow> (Inl e, None)
                  | Inr pathname \<Rightarrow>
                      let path = stripSlashes pathname;
                          mimeType = withCharset (case getType path of None \<Rightarrow> ao_defaultMimeType options | Some t \<Rightarrow> t)
                      in (case manifestKey (ao_ASSET_MANIFEST options) path of
                            Some hashedKey \<Rightarrow>
                              respond cache_match options namespace request (aq_origin key) hashedKey True mimeType
                          | None \<Rightarrow>
                              respond cache_match options namespace request (aq_origin key) path False mimeType))))"

subsection \<open>Headers that are set\<close>

definition valid_pair :: "string \<times> string \<Rightarrow> bool" where
  "valid_pair p \<longleftrightarrow> valid_name (fst p) \<and> valid_value (normalise_value (snd p))"

definition set_pair :: "headers_obj \<Rightarrow> string \<times> string \<Rightarrow> headers_obj" where
  "set_pair hs p = headers_delete hs (fst p) @ [(toLowerCase (fst p), normalise_value (snd p))]"

lemma lift_headers_set:
  "lift_headers (headers_set hs n v) =
     (if valid_pair (n, v) then Inr (set_pair hs (n, v)) else Inl (Thrown TypeError))"
  by (simp add: lift_headers_def headers_set_def headers_append_def valid_pair_def set_pair_def)

lemma set_all_eq:
  "set_all hs nvs = (if list_all valid_pair nvs then Inr (foldl set_pair hs nvs) else Inl (Thrown TypeError))"
  by (induction hs nvs rule: set_all.induct) (simp_all add: lift_headers_set)

lemma set_pair_get:
  "headers_get (set_pair hs (n, v)) m = (if toLowerCase m = toLowerCase n then Some (normalise_value v) else headers_get hs m)"
proof -
  have "header_values [(toLowerCase n, normalise_value v)] m =
      (if toLowerCase m = toLowerCase n then [normalise_value v] else [])" by (simp add: header_values_def)
  then show ?thesis by (simp add: set_pair_def headers_get_def)
qed

subsection \<open>Properties\<close>

text \<open>
  A request that puts a response into the cache is a \<^verbatim>\<open>GET\<close> for a name of the manifest, and what it stores is
  the content of the hashed name under the URL of that name.
\<close>

lemma respond_put:
  assumes "respond cache_match options namespace request origin pathKey hashed mimeType = (r, Some (url, stored))"
  shows "hashed \<and> url = origin @ ''/'' @ pathKey \<and> aq_method request \<noteq> ''HEAD''
    \<and> \<not> cc_bypassCache (assignCacheControl (ao_cacheControl options request))
    \<and> cache_match url (aq_headers request) = None
    \<and> (\<exists>body ttl. namespace pathKey = Some body \<and> cc_edgeTTL (assignCacheControl (ao_cacheControl options request)) = Some ttl
        \<and> (\<exists>hs. cachedHeaders (ao_defaultETag options) pathKey body ttl = Inr hs
             \<and> stored = \<lparr>ar_status = 200, ar_headers = hs, ar_body = Some body\<rparr>
             \<and> r = andThen (set_all hs [(''CF-Cache-Status'', ''MISS'')]) (\<lambda>hs1.
                 finishHeaders (ao_defaultETag options) mimeType
                   (cc_browserTTL (assignCacheControl (ao_cacheControl options request)))
                   (headers_get (aq_headers request) ''if-none-match'') (stored\<lparr>ar_headers := hs1\<rparr>))))"
  using assms
  by (cases "cc_edgeTTL (assignCacheControl (ao_cacheControl options request))")
    (auto simp: respond_def Let_def split: if_splits option.splits sum.splits)

lemma getAssetFromKV_put:
  assumes "getAssetFromKV getType cache_match options request = (r, Some put)"
  shows "\<exists>namespace key enc pathname hashedKey. ao_ASSET_NAMESPACE options = Some namespace \<and>
    requestKey getType options request = Inr (key, enc) \<and> aq_method key \<in> {''GET'', ''HEAD''} \<and>
    (if enc then decodeOrThrow (aq_pathname key) else Inr (aq_pathname key)) = Inr pathname \<and>
    manifestKey (ao_ASSET_MANIFEST options) (stripSlashes pathname) = Some hashedKey \<and>
    respond cache_match options namespace request (aq_origin key) hashedKey True
      (withCharset (case getType (stripSlashes pathname) of None \<Rightarrow> ao_defaultMimeType options | Some t \<Rightarrow> t)) = (r, Some put)"
proof -
  obtain namespace key enc pathname where 1: "ao_ASSET_NAMESPACE options = Some namespace"
    "requestKey getType options request = Inr (key, enc)" "aq_method key \<in> {''GET'', ''HEAD''}"
    "(if enc then decodeOrThrow (aq_pathname key) else Inr (aq_pathname key)) = Inr pathname"
    using assms unfolding getAssetFromKV_def
    by (cases "ao_ASSET_NAMESPACE options"; cases "requestKey getType options request")
      (auto split: if_splits sum.splits)
  have m: "(aq_method key \<notin> {''GET'', ''HEAD''}) = False" using 1(3) by simp
  note eq = assms [unfolded getAssetFromKV_def 1(1,2) option.case sum.case prod.case m if_False 1(4) Let_def]
  show ?thesis
  proof (cases "manifestKey (ao_ASSET_MANIFEST options) (stripSlashes pathname)")
    case None
    with eq have "respond cache_match options namespace request (aq_origin key) (stripSlashes pathname) False
      (withCharset (case getType (stripSlashes pathname) of None \<Rightarrow> ao_defaultMimeType options | Some t \<Rightarrow> t)) = (r, Some (fst put, snd put))"
      by simp
    from respond_put [OF this] show ?thesis by simp
  next
    case (Some hashedKey)
    with eq have "respond cache_match options namespace request (aq_origin key) hashedKey True
      (withCharset (case getType (stripSlashes pathname) of None \<Rightarrow> ao_defaultMimeType options | Some t \<Rightarrow> t)) = (r, Some put)"
      by simp
    with Some 1 show ?thesis by blast
  qed
qed

lemma finish_200:
  assumes "ar_status r = 200"
  shows "finishHeaders et mimeType browserTTL inm r =
    (if valid_value (normalise_value mimeType) \<and> (\<forall>ttl. browserTTL = Some ttl \<longrightarrow> valid_pair (''Cache-Control'', ''max-age='' @ show_int ttl))
     then Inr (r\<lparr>ar_headers := (case browserTTL of
        Some ttl \<Rightarrow> set_pair (set_pair (ar_headers r) (''Content-Type'', mimeType)) (''Cache-Control'', ''max-age='' @ show_int ttl)
      | None \<Rightarrow> headers_delete (set_pair (ar_headers r) (''Content-Type'', mimeType)) ''Cache-Control'')\<rparr>)
     else Inl (Thrown TypeError))"
proof -
  have "valid_name ''Content-Type''" by code_simp
  then have "valid_pair (''Content-Type'', mimeType) \<longleftrightarrow> valid_value (normalise_value mimeType)" by (simp add: valid_pair_def)
  with assms show ?thesis by (cases browserTTL) (simp_all add: finishHeaders_def set_all_eq)
qed

lemma finish_get:
  assumes "ar_status r = 200" "finishHeaders et mimeType browserTTL inm r = Inr r'"
  shows "ar_status r' = 200 \<and> ar_body r' = ar_body r \<and>
    headers_get (ar_headers r') m =
      (if toLowerCase m = ''cache-control'' then map_option (\<lambda>ttl. normalise_value (''max-age='' @ show_int ttl)) browserTTL
       else if toLowerCase m = ''content-type'' then Some (normalise_value mimeType)
       else headers_get (ar_headers r) m)"
proof -
  have l: "toLowerCase ''Content-Type'' = ''content-type''" "toLowerCase ''Cache-Control'' = ''cache-control''" by code_simp+
  show ?thesis using assms(1,2) unfolding finish_200 [OF assms(1)]
    by (cases browserTTL) (auto simp: set_pair_get headers_delete_get l split: if_splits)
qed

lemma finish_same:
  assumes "ar_status r = 200" "ar_status r1 = 200" "finishHeaders et mimeType browserTTL inm r = Inr r'"
  shows "\<exists>r1'. finishHeaders et mimeType browserTTL inm r1 = Inr r1'"
  using assms(3) unfolding finish_200 [OF assms(1)] finish_200 [OF assms(2)] by (auto split: if_splits)

lemma mark_get:
  assumes "set_all hs [(n, v)] = Inr hs1" "toLowerCase n = ''cf-cache-status''"
  shows "headers_get hs1 m = (if toLowerCase m = ''cf-cache-status'' then Some (normalise_value v) else headers_get hs m)"
  using assms by (auto simp: set_all_eq set_pair_get split: if_splits)

text \<open>
  C39: An asset that the handler put into the cache is served from it. The request was a \<^verbatim>\<open>GET\<close> for a name of the
  manifest, the entry is the content of its hashed name, and the same request with the cache that has the
  entry gets the same status, body and headers, except that \<^verbatim>\<open>CF-Cache-Status\<close> is \<^verbatim>\<open>HIT\<close>; nothing is stored
  then.
\<close>

theorem asset_cached_then_hit:
  assumes "getAssetFromKV getType cache_match options request = (Inr r, Some (url, stored))"
    and "cache_match' url (aq_headers request) = Some stored"
  shows "\<exists>r' namespace path hashedKey.
    ao_ASSET_NAMESPACE options = Some namespace \<and> manifestKey (ao_ASSET_MANIFEST options) path = Some hashedKey \<and>
    namespace hashedKey = ar_body stored \<and> ar_body r = ar_body stored \<and> ar_body stored \<noteq> None \<and>
    aq_method request \<noteq> ''HEAD'' \<and>
    getAssetFromKV getType cache_match' options request = (Inr r', None) \<and>
    ar_status r' = ar_status r \<and> ar_body r' = ar_body r \<and>
    (\<forall>m. headers_get (ar_headers r') m =
       (if toLowerCase m = ''cf-cache-status'' then Some ''HIT'' else headers_get (ar_headers r) m))"
proof -
  from getAssetFromKV_put [OF assms(1)] obtain namespace key enc pathname hashedKey mimeType where
    1: "ao_ASSET_NAMESPACE options = Some namespace" "requestKey getType options request = Inr (key, enc)"
      "aq_method key \<in> {''GET'', ''HEAD''}"
      "(if enc then decodeOrThrow (aq_pathname key) else Inr (aq_pathname key)) = Inr pathname"
    and man: "manifestKey (ao_ASSET_MANIFEST options) (stripSlashes pathname) = Some hashedKey"
    and mime: "mimeType = withCharset (case getType (stripSlashes pathname) of None \<Rightarrow> ao_defaultMimeType options | Some t \<Rightarrow> t)"
    and resp: "respond cache_match options namespace request (aq_origin key) hashedKey True mimeType = (Inr r, Some (url, stored))"
    by blast
  let ?cc = "assignCacheControl (ao_cacheControl options request)"
  let ?finish = "finishHeaders (ao_defaultETag options) mimeType (cc_browserTTL ?cc)
    (headers_get (aq_headers request) ''if-none-match'')"
  from respond_put [OF resp] obtain body ttl hs where p: "url = aq_origin key @ ''/'' @ hashedKey"
    "aq_method request \<noteq> ''HEAD''" "\<not> cc_bypassCache ?cc" "namespace hashedKey = Some body" "cc_edgeTTL ?cc = Some ttl"
    "stored = \<lparr>ar_status = 200, ar_headers = hs, ar_body = Some body\<rparr>"
    "Inr r = andThen (set_all hs [(''CF-Cache-Status'', ''MISS'')]) (\<lambda>hs1. ?finish (stored\<lparr>ar_headers := hs1\<rparr>))"
    by blast
  then obtain hs1 where hs1: "set_all hs [(''CF-Cache-Status'', ''MISS'')] = Inr hs1" "?finish (stored\<lparr>ar_headers := hs1\<rparr>) = Inr r"
    by (cases "set_all hs [(''CF-Cache-Status'', ''MISS'')]") (simp_all del: set_all.simps)
  have "valid_pair (''cf-cache-status'', ''HIT'')" by code_simp
  then obtain hs2 where hs2: "set_all hs [(''cf-cache-status'', ''HIT'')] = Inr hs2" by (simp add: set_all_eq)
  have l: "toLowerCase ''CF-Cache-Status'' = ''cf-cache-status''" "toLowerCase ''cf-cache-status'' = ''cf-cache-status''"
    "normalise_value ''HIT'' = ''HIT''" by code_simp+
  have st: "ar_status (stored\<lparr>ar_headers := h\<rparr>) = 200" for h using p(6) by simp
  obtain r' where r': "?finish (stored\<lparr>ar_headers := hs2\<rparr>) = Inr r'"
    using finish_same [OF st st hs1(2)] by blast
  have "fromCache stored = Inr (stored\<lparr>ar_headers := hs2\<rparr>)"
    using hs2 p(6) by (simp add: fromCache_def del: set_all.simps)
  then have resp': "respond cache_match' options namespace request (aq_origin key) hashedKey True mimeType = (Inr r', None)"
    using p(1-3,5) assms(2) r' by (simp add: respond_def Let_def)
  have m: "(aq_method key \<notin> {''GET'', ''HEAD''}) = False" using 1(3) by simp
  have get': "getAssetFromKV getType cache_match' options request = (Inr r', None)"
    unfolding getAssetFromKV_def 1(1,2) option.case sum.case prod.case m if_False 1(4) Let_def man mime [symmetric] resp' ..
  have "headers_get (ar_headers r') n =
       (if toLowerCase n = ''cf-cache-status'' then Some ''HIT'' else headers_get (ar_headers r) n)" for n
    using finish_get [OF st hs1(2), of n] finish_get [OF st r', of n] mark_get [OF hs1(1) l(1), of n]
      mark_get [OF hs2 l(2), of n] l(3) by auto
  moreover have "ar_status r' = 200 \<and> ar_status r = 200 \<and> ar_body r' = ar_body stored \<and> ar_body r = ar_body stored"
    using finish_get [OF st hs1(2)] finish_get [OF st r'] by simp
  ultimately show ?thesis using 1(1) man p(2,4,6) get'
    by (intro exI [of _ r'] exI [of _ namespace] exI [of _ "stripSlashes pathname"] exI [of _ hashedKey]) simp
qed

definition ex_getType :: "string \<Rightarrow> string option" where
  "ex_getType p = None"

definition ex_asset_options :: asset_options where
  "ex_asset_options = (getAssetFromKVDefaultOptions (Some [''h'' \<mapsto> [104, 105]]) [(''x'', ''h'')])
     \<lparr>ao_cacheControl := (\<lambda>_. \<lparr>pc_browserTTL = None, pc_edgeTTL = Some (Some 5), pc_bypassCache = None\<rparr>)\<rparr>"

definition ex_asset_request :: handler_event where
  "ex_asset_request = \<lparr>aq_method = ''GET'', aq_origin = ''http://a'', aq_pathname = ''/x'', aq_headers = []\<rparr>"

definition ex_stored :: handler_response where
  "ex_stored = \<lparr>ar_status = 200, ar_headers = [(''accept-ranges'', ''bytes''), (''content-length'', ''2''),
     (''etag'', [CHR 0x22] @ ''h'' @ [CHR 0x22]), (''cache-control'', ''max-age=5'')], ar_body = Some [104, 105]\<rparr>"

lemma ex_asset_put:
  "\<exists>r. getAssetFromKV ex_getType (\<lambda>u hs. None) ex_asset_options ex_asset_request = (Inr r, Some (''http://a/h'', ex_stored))"
proof -
  have "snd (getAssetFromKV ex_getType (\<lambda>u hs. None) ex_asset_options ex_asset_request)
      = Some (''http://a/h'', ex_stored)"
    and "map_sum id ar_status (fst (getAssetFromKV ex_getType (\<lambda>u hs. None) ex_asset_options ex_asset_request)) = Inr 200"
    by code_simp+
  then show ?thesis
    by (cases "fst (getAssetFromKV ex_getType (\<lambda>u hs. None) ex_asset_options ex_asset_request)")
      (auto simp: prod_eq_iff)
qed

theorem asset_cached_then_hit_witness:
  "\<exists>r'. getAssetFromKV ex_getType (\<lambda>u hs. Some ex_stored) ex_asset_options ex_asset_request = (Inr r', None)
     \<and> ar_body r' = Some [104, 105] \<and> headers_get (ar_headers r') ''CF-Cache-Status'' = Some ''HIT''"
proof -
  obtain r where p: "getAssetFromKV ex_getType (\<lambda>u hs. None) ex_asset_options ex_asset_request
      = (Inr r, Some (''http://a/h'', ex_stored))" using ex_asset_put by blast
  have l: "toLowerCase ''CF-Cache-Status'' = ''cf-cache-status''" by code_simp
  from asset_cached_then_hit [OF p, of "\<lambda>u hs. Some ex_stored"] l show ?thesis by (auto simp: ex_stored_def)
qed

lemma starts_nonempty: "startsWith s (c # p) \<Longrightarrow> s \<noteq> []"
  by (auto simp: startsWith_def)

lemma starts_hd: "startsWith (c # s) (d # p) \<longleftrightarrow> c = d \<and> startsWith s p"
  by (auto simp: startsWith_def)

lemma ends_snoc: "endsWith (s @ [c]) [d] \<longleftrightarrow> c = d"
  by (auto simp: endsWith_def startsWith_def)

lemma weak_starts: "e \<noteq> [] \<Longrightarrow> startsWith (formatETag e WeakETag) ''W/''"
  by (simp add: formatETag_def starts_hd)

lemma weak_fixed: "startsWith e ''W/'' \<Longrightarrow> formatETag e WeakETag = e"
  using starts_nonempty [of e] by (simp add: formatETag_def)

lemma strong_shape:
  assumes "e \<noteq> []"
  shows "endsWith (formatETag e StrongETag) [CHR 0x22] \<and> \<not> startsWith (formatETag e StrongETag) (''W/'' @ [CHR 0x22])
    \<and> formatETag e StrongETag \<noteq> []"
proof (cases "startsWith e (''W/'' @ [CHR 0x22])")
  case True
  then obtain s where "e = ''W/'' @ [CHR 0x22] @ s" by (auto simp: startsWith_iff_prefix prefix_def)
  then show ?thesis using True ends_snoc [of "CHR 0x22 # CHR 0x22 # s"]
    by (simp add: formatETag_def Let_def starts_hd)
next
  case False
  then show ?thesis using assms ends_snoc [of "CHR 0x22 # e"] by (simp add: formatETag_def Let_def starts_hd)
qed

lemma strong_fixed:
  "e \<noteq> [] \<Longrightarrow> endsWith e [CHR 0x22] \<Longrightarrow> \<not> startsWith e (''W/'' @ [CHR 0x22]) \<Longrightarrow> formatETag e StrongETag = e"
  by (simp add: formatETag_def)

lemma format_plain:
  assumes "CHR 0x22 \<notin> set e" "\<not> startsWith e ''W/''" "e \<noteq> []"
  shows "formatETag e WeakETag = ''W/'' @ [CHR 0x22] @ e @ [CHR 0x22]"
    and "formatETag e StrongETag = [CHR 0x22] @ e @ [CHR 0x22]"
proof -
  obtain s c where "e = s @ [c]" using assms(3) by (cases e rule: rev_cases) auto
  with assms(1) have n: "\<not> endsWith e [CHR 0x22]" by (auto simp: ends_snoc)
  moreover have "\<not> startsWith e (''W/'' @ [CHR 0x22])"
    using assms(2) by (auto simp: startsWith_iff_prefix prefix_def)
  ultimately show "formatETag e WeakETag = ''W/'' @ [CHR 0x22] @ e @ [CHR 0x22]"
    "formatETag e StrongETag = [CHR 0x22] @ e @ [CHR 0x22]"
    using assms(2,3) by (simp_all add: formatETag_def Let_def)
qed

text \<open>
  Entity tags. Formatting a tag that is already formatted changes nothing, and for a name without quotation
  marks that is not a weak tag, weak and strong formatting undo each other.
\<close>

theorem etag_normal_form:
  "formatETag (formatETag e k) k = formatETag e k \<and>
   (CHR 0x22 \<notin> set e \<and> \<not> startsWith e ''W/'' \<longrightarrow>
      formatETag (formatETag e WeakETag) StrongETag = formatETag e StrongETag \<and>
      formatETag (formatETag e StrongETag) WeakETag = formatETag e WeakETag)"
proof (cases "e = []")
  case True
  then show ?thesis by (simp add: formatETag_def)
next
  case False
  have "formatETag (formatETag e k) k = formatETag e k"
    using weak_fixed [OF weak_starts [OF False]] strong_shape [OF False] strong_fixed
    by (cases k) (simp_all add: formatETag_def [of _ OtherETag])
  moreover have "formatETag (formatETag e WeakETag) StrongETag = formatETag e StrongETag \<and>
      formatETag (formatETag e StrongETag) WeakETag = formatETag e WeakETag"
    if q: "CHR 0x22 \<notin> set e" "\<not> startsWith e ''W/''"
    unfolding format_plain [OF q False]
    using ends_snoc [of "CHR 0x22 # e"] by (simp add: formatETag_def Let_def starts_hd)
  ultimately show ?thesis by blast
qed

theorem etag_normal_form_witness:
  "formatETag (formatETag ''ab'' WeakETag) StrongETag = formatETag ''ab'' StrongETag"
  using etag_normal_form [of "''ab''" WeakETag] by (simp add: startsWith_def)

end
