(* ===== verification/Routing.thy ===== *)
theory Routing
  imports Prelude
begin

text \<open>
  The routes of workers in Miniflare: \<^verbatim>\<open>miniflare/src/plugins/shared/routing.ts\<close> parses and orders the
  patterns, \<^verbatim>\<open>miniflare/src/workers/core/routing.ts\<close> finds the worker of a request. The URL class of the
  platform and \<open>domainToUnicode\<close> are parameters.
\<close>

subsection \<open>URLs\<close>

record url =
  u_protocol :: string
  u_host :: string
  u_hostname :: string
  u_pathname :: string
  u_search :: string
  u_text :: string

text \<open>The constructor, the two setters the code uses, and \<open>domainToUnicode\<close>.\<close>

record url_api =
  ua_new :: "string \<Rightarrow> url option"
  ua_setHostname :: "url \<Rightarrow> string \<Rightarrow> url"
  ua_setPathname :: "url \<Rightarrow> string \<Rightarrow> url"
  ua_toUnicode :: "string \<Rightarrow> string"

subsection \<open>Parsing routes\<close>

record workerRoute =
  wr_target :: string
  wr_route :: string
  wr_specificity :: int
  wr_protocol :: "string option"
  wr_allowHostnamePrefix :: bool
  wr_hostname :: string
  wr_path :: string
  wr_allowPathSuffix :: bool

datatype routerError = InvalidURL | ERR_QUERY_STRING string | ERR_INFIX_WILDCARD string

definition routeSpecificity :: "url \<Rightarrow> int" where
  "routeSpecificity u =
     (let hostParts = split_on CHR ''.'' (u_host u);
          hostScore = int (length hostParts) - (if hd hostParts = ''*'' then 2 else 0);
          pathParts = split_on CHR ''/'' (u_pathname u);
          pathScore = int (length pathParts) - (if last pathParts = ''*'' then 2 else 0)
      in hostScore * 26 + pathScore)"

definition is_scheme_char :: "char \<Rightarrow> bool" where
  "is_scheme_char c \<longleftrightarrow> is_upper c \<or> is_lower c \<or> is_digit c \<or> c \<in> set ''+-.''"

definition hasProtocol :: "string \<Rightarrow> bool" where
  "hasProtocol route \<longleftrightarrow>
     takeWhile is_scheme_char route \<noteq> [] \<and> startsWith (dropWhile is_scheme_char route) ''://''"

definition query_message :: "string \<Rightarrow> string \<Rightarrow> string" where
  "query_message route target =
     ''Route '' @ [CHR 0x22] @ route @ [CHR 0x22] @ '' for '' @ [CHR 0x22] @ target @ [CHR 0x22]
       @ '' contains a query string. This is not allowed.''"

definition infix_message :: "string \<Rightarrow> string \<Rightarrow> string" where
  "infix_message route target =
     ''Route '' @ [CHR 0x22] @ route @ [CHR 0x22] @ '' for '' @ [CHR 0x22] @ target @ [CHR 0x22]
       @ '' contains an infix wildcard. This is not allowed.''"

definition parseRoute :: "url_api \<Rightarrow> string \<Rightarrow> string \<Rightarrow> routerError + workerRoute" where
  "parseRoute api target route =
     (case ua_new api (if hasProtocol route then route else ''https://'' @ route) of
        None \<Rightarrow> Inl InvalidURL
      | Some u0 \<Rightarrow>
          (let internationalised = startsWith (u_hostname u0) ''xn--*'';
               allowHostnamePrefix = startsWith (u_hostname u0) ''*'' \<or> internationalised;
               anyHostname = u_hostname u0 = ''*'';
               u1 = (if allowHostnamePrefix \<and> \<not> anyHostname then
                       ua_setHostname api u0
                         (drop 1 (if internationalised then ua_toUnicode api (u_hostname u0) else u_hostname u0))
                     else u0);
               allowPathSuffix = endsWith (u_pathname u1) ''*'';
               u2 = (if allowPathSuffix then ua_setPathname api u1 (butlast (u_pathname u1)) else u1)
           in if u_search u2 \<noteq> [] then Inl (ERR_QUERY_STRING (query_message route target))
              else if CHR ''*'' \<in> set (u_text u2) \<and> \<not> anyHostname then
                Inl (ERR_INFIX_WILDCARD (infix_message route target))
              else Inr \<lparr>wr_target = target, wr_route = route, wr_specificity = routeSpecificity u0,
                     wr_protocol = (if hasProtocol route then Some (u_protocol u0) else None),
                     wr_allowHostnamePrefix = allowHostnamePrefix,
                     wr_hostname = (if anyHostname then [] else u_hostname u2),
                     wr_path = u_pathname u2, wr_allowPathSuffix = allowPathSuffix\<rparr>))"

fun parseTargetRoutes :: "url_api \<Rightarrow> string \<Rightarrow> string list \<Rightarrow> routerError + workerRoute list" where
  "parseTargetRoutes api target [] = Inr []"
| "parseTargetRoutes api target (route # routes) =
     andThen (parseRoute api target route) (\<lambda>r.
     andThen (parseTargetRoutes api target routes) (\<lambda>rs. Inr (r # rs)))"

fun parseAllRoutes :: "url_api \<Rightarrow> (string \<times> string list) list \<Rightarrow> routerError + workerRoute list" where
  "parseAllRoutes api [] = Inr []"
| "parseAllRoutes api ((target, targetRoutes) # rest) =
     andThen (parseTargetRoutes api target targetRoutes) (\<lambda>rs.
     andThen (parseAllRoutes api rest) (\<lambda>rs1. Inr (rs @ rs1)))"

definition compareWorkerRoutes :: "workerRoute \<Rightarrow> workerRoute \<Rightarrow> int" where
  "compareWorkerRoutes a b =
     (if wr_specificity a = wr_specificity b then int (length (wr_route b)) - int (length (wr_route a))
      else wr_specificity b - wr_specificity a)"

definition parseRoutes :: "url_api \<Rightarrow> (string \<times> string list) list \<Rightarrow> routerError + workerRoute list" where
  "parseRoutes api allRoutes =
     andThen (parseAllRoutes api allRoutes) (\<lambda>rs. Inr (js_sort compareWorkerRoutes rs))"

subsection \<open>Matching a request\<close>

definition routeMatches :: "workerRoute \<Rightarrow> url \<Rightarrow> bool" where
  "routeMatches route u \<longleftrightarrow>
     (case wr_protocol route of None \<Rightarrow> True | Some p \<Rightarrow> p = [] \<or> p = u_protocol u)
     \<and> (if wr_allowHostnamePrefix route then endsWith (u_hostname u) (wr_hostname route)
        else u_hostname u = wr_hostname route)
     \<and> (let path = u_pathname u @ u_search u in
        if wr_allowPathSuffix route then startsWith path (wr_path route) else path = wr_path route)"

fun matchRoutes :: "workerRoute list \<Rightarrow> url \<Rightarrow> string option" where
  "matchRoutes [] u = None"
| "matchRoutes (route # routes) u =
     (if routeMatches route u then Some (wr_target route) else matchRoutes routes u)"

subsection \<open>The most specific route wins\<close>

interpretation worker_routes: comparator compareWorkerRoutes
  by unfold_locales (auto simp: compareWorkerRoutes_def split: if_splits)

lemma matchRoutes_None: "matchRoutes routes u = None \<longleftrightarrow> (\<forall>r \<in> set routes. \<not> routeMatches r u)"
  by (induction routes) auto

lemma matchRoutes_first:
  assumes "sorted_wrt P routes" and "\<And>r. P r r" and "matchRoutes routes u = Some t"
  shows "\<exists>r \<in> set routes. wr_target r = t \<and> routeMatches r u \<and> (\<forall>r' \<in> set routes. routeMatches r' u \<longrightarrow> P r r')"
  using assms(1,3) by (induction routes) (auto simp: assms(2) split: if_splits)

lemma parseTargetRoutes_set:
  "parseTargetRoutes api target routes = Inr rs \<Longrightarrow> Inr ` set rs = parseRoute api target ` set routes"
proof (induction routes arbitrary: rs)
  case (Cons route routes)
  then obtain r rs1 where "parseRoute api target route = Inr r" "parseTargetRoutes api target routes = Inr rs1"
    "rs = r # rs1" by auto
  with Cons.IH show ?case by simp
qed simp

lemma parseAllRoutes_set:
  "parseAllRoutes api allRoutes = Inr rs \<Longrightarrow>
     Inr ` set rs = {parseRoute api target route | target route. \<exists>routes. (target, routes) \<in> set allRoutes \<and> route \<in> set routes}"
proof (induction api allRoutes arbitrary: rs rule: parseAllRoutes.induct)
  case (2 api target targetRoutes rest)
  then obtain rs1 rs2 where r: "parseTargetRoutes api target targetRoutes = Inr rs1"
    "parseAllRoutes api rest = Inr rs2" "rs = rs1 @ rs2" by auto
  have "Inr ` set rs2 = {parseRoute api target route | target route. \<exists>routes. (target, routes) \<in> set rest \<and> route \<in> set routes}"
    using 2(1) r(1,2) by blast
  moreover have "Inr ` set rs1 = parseRoute api target ` set targetRoutes"
    by (rule parseTargetRoutes_set [OF r(1)])
  ultimately show ?case unfolding r(3) set_append image_Un by auto
qed auto

lemma if_Inl_eq_Inr: "(if b then Inl e else x) = Inr r \<longleftrightarrow> \<not> b \<and> x = Inr r"
  by simp

lemma parseRoute_names: "parseRoute api target route = Inr r \<Longrightarrow> wr_target r = target \<and> wr_route r = route"
  by (cases "ua_new api (if hasProtocol route then route else ''https://'' @ route)")
    (simp_all add: parseRoute_def Let_def if_Inl_eq_Inr split del: if_split, auto)

text \<open>
  C38: A request goes to the worker of its most specific route. The routes are those of the
  configuration; if none matches there is no worker, otherwise the route that is used has the highest
  specificity of the matching ones and, among these, the longest pattern.
\<close>

theorem most_specific_route:
  assumes "parseRoutes api allRoutes = Inr routes"
  shows "(\<forall>target rs route. (target, rs) \<in> set allRoutes \<longrightarrow> route \<in> set rs \<longrightarrow>
           (\<exists>r \<in> set routes. parseRoute api target route = Inr r \<and> wr_target r = target \<and> wr_route r = route)) \<and>
    (case matchRoutes routes u of
       None \<Rightarrow> \<forall>r \<in> set routes. \<not> routeMatches r u
     | Some t \<Rightarrow> \<exists>r \<in> set routes. wr_target r = t \<and> routeMatches r u \<and>
         (\<forall>r' \<in> set routes. routeMatches r' u \<longrightarrow> wr_specificity r' < wr_specificity r \<or>
            wr_specificity r' = wr_specificity r \<and> length (wr_route r') \<le> length (wr_route r)))"
proof (intro conjI allI impI)
  obtain rs0 where p: "parseAllRoutes api allRoutes = Inr rs0" and s: "routes = js_sort compareWorkerRoutes rs0"
    using assms by (auto simp: parseRoutes_def)
  fix target rs route
  assume "(target, rs) \<in> set allRoutes" "route \<in> set rs"
  then have "parseRoute api target route \<in> Inr ` set routes"
    using parseAllRoutes_set [OF p] by (auto simp: s)
  then show "\<exists>r \<in> set routes. parseRoute api target route = Inr r \<and> wr_target r = target \<and> wr_route r = route"
    using parseRoute_names by fastforce
next
  have s: "sorted_wrt (\<lambda>x y. compareWorkerRoutes x y \<le> 0) routes"
    using assms worker_routes.js_sort_sorted by (auto simp: parseRoutes_def)
  show "case matchRoutes routes u of
       None \<Rightarrow> \<forall>r \<in> set routes. \<not> routeMatches r u
     | Some t \<Rightarrow> \<exists>r \<in> set routes. wr_target r = t \<and> routeMatches r u \<and>
         (\<forall>r' \<in> set routes. routeMatches r' u \<longrightarrow> wr_specificity r' < wr_specificity r \<or>
            wr_specificity r' = wr_specificity r \<and> length (wr_route r') \<le> length (wr_route r))"
  proof (cases "matchRoutes routes u")
    case (Some t)
    have le: "compareWorkerRoutes r r' \<le> 0 \<Longrightarrow> wr_specificity r' < wr_specificity r \<or>
        wr_specificity r' = wr_specificity r \<and> length (wr_route r') \<le> length (wr_route r)" for r r'
      by (auto simp: compareWorkerRoutes_def split: if_splits)
    with matchRoutes_first [OF s _ Some] show ?thesis
      unfolding Some option.case by (metis worker_routes.cmp_total)
  next
    case None
    then show ?thesis using matchRoutes_None [of routes u] by simp
  qed
qed

text \<open>A URL class for the example: no port, no international names, setters that accept every value.\<close>

definition url_text :: "url \<Rightarrow> string" where
  "url_text u = u_protocol u @ ''//'' @ u_host u @ u_pathname u @ u_search u"

definition ex_parse_url :: "string \<Rightarrow> url option" where
  "ex_parse_url s =
     (let scheme = takeWhile (\<lambda>c. c \<noteq> CHR ''/'') s; r = drop (length scheme + 2) s;
          host = takeWhile (\<lambda>c. c \<noteq> CHR ''/'') r;
          path = takeWhile (\<lambda>c. c \<noteq> CHR ''?'') (drop (length host) r);
          search = drop (length host + length path) r
      in if host = [] then None
         else Some \<lparr>u_protocol = scheme, u_host = host, u_hostname = host,
                u_pathname = (if path = [] then ''/'' else path), u_search = search, u_text = s\<rparr>)"

definition ex_url_api :: url_api where
  "ex_url_api =
     \<lparr>ua_new = ex_parse_url,
      ua_setHostname = (\<lambda>u h. let v = u\<lparr>u_hostname := h, u_host := h\<rparr> in v\<lparr>u_text := url_text v\<rparr>),
      ua_setPathname = (\<lambda>u p. let v = u\<lparr>u_pathname := p\<rparr> in v\<lparr>u_text := url_text v\<rparr>),
      ua_toUnicode = (\<lambda>h. h)\<rparr>"

definition ex_worker_routes :: "(string \<times> string list) list" where
  "ex_worker_routes = [(''all'', [''*.a.com/*'']), (''api'', [''www.a.com/api/*'', ''http://b.com/''])]"

theorem most_specific_route_witness:
  "\<exists>routes. parseRoutes ex_url_api ex_worker_routes = Inr routes \<and>
     (\<exists>u. ex_parse_url ''https://www.a.com/api/x?y'' = Some u \<and> matchRoutes routes u = Some ''api'' \<and>
       (\<exists>r \<in> set routes. wr_target r = ''api'' \<and> (\<forall>r' \<in> set routes. routeMatches r' u \<longrightarrow>
          wr_specificity r' \<le> wr_specificity r)))"
proof -
  let ?u = "the (ex_parse_url ''https://www.a.com/api/x?y'')"
  obtain routes where p: "parseRoutes ex_url_api ex_worker_routes = Inr routes"
    and m: "matchRoutes routes ?u = Some ''api''"
  proof -
    have "(case parseRoutes ex_url_api ex_worker_routes of Inl e \<Rightarrow> False
        | Inr routes \<Rightarrow> matchRoutes routes ?u = Some ''api'')" by code_simp
    then show ?thesis using that by (auto split: sum.splits)
  qed
  have u: "ex_parse_url ''https://www.a.com/api/x?y'' = Some ?u" by code_simp
  from most_specific_route [OF p, where u = ?u] m
  have "\<exists>r \<in> set routes. wr_target r = ''api'' \<and> routeMatches r ?u \<and>
         (\<forall>r' \<in> set routes. routeMatches r' ?u \<longrightarrow> wr_specificity r' < wr_specificity r \<or>
            wr_specificity r' = wr_specificity r \<and> length (wr_route r') \<le> length (wr_route r))" by simp
  then have "\<exists>r \<in> set routes. wr_target r = ''api'' \<and> (\<forall>r' \<in> set routes. routeMatches r' ?u \<longrightarrow>
          wr_specificity r' \<le> wr_specificity r)" by fastforce
  with p m u show ?thesis by blast
qed

end
