(* ===== verification/Versions.thy ===== *)
theory Versions
  imports Prelude "HOL-Library.AList" Complex_Main
begin

text \<open>
  Splitting traffic between the versions of a Worker: the units of
  \<^verbatim>\<open>wrangler/src/versions/deploy.ts\<close> that parse the version specifications of the command line,
  distribute the unspecified percentages and validate the total. Percentages are rational numbers;
  the rounding of doubles is not modelled. A \<open>Map\<close> is an association list in insertion order.
\<close>

subsection \<open>Numbers\<close>

datatype js_float = Finite rat | PosInfinity | NegInfinity

text \<open>\<open>parseFloat\<close>: the longest prefix that is a decimal literal; \<^const>\<open>None\<close> is \<open>NaN\<close>.\<close>

definition exponentOf :: "string \<Rightarrow> int" where
  "exponentOf s =
     (case s of
        [] \<Rightarrow> 0
      | e # r \<Rightarrow>
          if e \<noteq> CHR ''e'' \<and> e \<noteq> CHR ''E'' then 0
          else
            let neg = (take 1 r = ''-'');
                ds = takeWhile is_digit (if neg \<or> take 1 r = ''+'' then drop 1 r else r)
            in if neg then - int (digits_val ds) else int (digits_val ds))"

definition scale10 :: "nat \<Rightarrow> int \<Rightarrow> rat" where
  "scale10 m e = (if 0 \<le> e then of_nat (m * 10 ^ nat e) else of_nat m / of_nat (10 ^ nat (- e)))"

definition unsignedFloat :: "string \<Rightarrow> js_float option" where
  "unsignedFloat s =
     (if startsWith s ''Infinity'' then Some PosInfinity
      else
        let i = takeWhile is_digit s; r = dropWhile is_digit s;
            dot = (take 1 r = ''.'');
            f = (if dot then takeWhile is_digit (drop 1 r) else []);
            rest = (if dot then dropWhile is_digit (drop 1 r) else r)
        in if i = [] \<and> f = [] then None
           else Some (Finite (scale10 (digits_val (i @ f)) (exponentOf rest - int (length f)))))"

definition negate :: "js_float \<Rightarrow> js_float" where
  "negate n = (case n of Finite q \<Rightarrow> Finite (- q) | PosInfinity \<Rightarrow> NegInfinity | NegInfinity \<Rightarrow> PosInfinity)"

definition parseFloat :: "string \<Rightarrow> js_float option" where
  "parseFloat str =
     (let s = trimStart str in
      if take 1 s = ''-'' then map_option negate (unsignedFloat (drop 1 s))
      else if take 1 s = ''+'' then unsignedFloat (drop 1 s)
      else unsignedFloat s)"

subsection \<open>Version specifications\<close>

type_synonym version_id = string
type_synonym optional_traffic = "(version_id \<times> rat option) list"

datatype versions_error =
    UnparsablePercentage string
  | SpecOutOfRange string
  | InvalidVersionId string
  | PercentageOutOfRange js_float
  | SubtotalNot rat
  | SubtotalAbove rat
  | SubtotalBelow rat

record versionsDeployArgs =
  versionSpecs :: "string list option"
  versionId :: "string list option"
  percentage :: "rat list option"

definition parseVersionSpec :: "string \<Rightarrow> versions_error + (version_id \<times> rat option)" where
  "parseVersionSpec spec =
     (case split_on CHR ''@'' spec of
        v # p # _ \<Rightarrow>
          if p = [] then Inr (v, None)
          else (case parseFloat p of
                  None \<Rightarrow> Inl (UnparsablePercentage spec)
                | Some (Finite q) \<Rightarrow>
                    if q < 0 \<or> 100 < q then Inl (SpecOutOfRange spec) else Inr (v, Some q)
                | Some _ \<Rightarrow> Inl (SpecOutOfRange spec))
      | v # _ \<Rightarrow> Inr (v, None)
      | [] \<Rightarrow> Inr ([], None))"

fun parse_specs :: "string list \<Rightarrow> versions_error + (version_id \<times> rat option) list" where
  "parse_specs [] = Inr []"
| "parse_specs (s # ss) =
     andThen (parseVersionSpec s) (\<lambda>x. andThen (parse_specs ss) (\<lambda>xs. Inr (x # xs)))"

definition is_lower_hex :: "char \<Rightarrow> bool" where
  "is_lower_hex c \<longleftrightarrow> is_digit c \<or> CHR ''a'' \<le> c \<and> c \<le> CHR ''f''"

definition isUuid :: "string \<Rightarrow> bool" where
  "isUuid s \<longleftrightarrow>
     map length (split_on CHR ''-'' s) = [8, 4, 4, 4, 12]
     \<and> list_all (list_all is_lower_hex) (split_on CHR ''-'' s)"

fun check_all :: "('a \<Rightarrow> bool) \<Rightarrow> ('a \<Rightarrow> 'e) \<Rightarrow> 'a list \<Rightarrow> 'e + 'a list" where
  "check_all ok err [] = Inr []"
| "check_all ok err (x # xs) =
     (if ok x then andThen (check_all ok err xs) (\<lambda>ys. Inr (x # ys)) else Inl (err x))"

text \<open>\<open>new Map(entries)\<close>: a later entry for a key replaces the value in place.\<close>

definition js_map :: "('k \<times> 'v) list \<Rightarrow> ('k \<times> 'v) list" where
  "js_map entries = fold (\<lambda>(k, v) m. AList.update k v m) entries []"

definition nth_or_null :: "'a option list \<Rightarrow> nat \<Rightarrow> 'a option" where
  "nth_or_null ps i = (if i < length ps then ps ! i else None)"

definition parseVersionSpecs :: "versionsDeployArgs \<Rightarrow> versions_error + optional_traffic" where
  "parseVersionSpecs args =
     andThen (parse_specs (case versionSpecs args of None \<Rightarrow> [] | Some l \<Rightarrow> l)) (\<lambda>positional.
     andThen (check_all isUuid InvalidVersionId (case versionId args of None \<Rightarrow> [] | Some l \<Rightarrow> l)) (\<lambda>ids.
     andThen (check_all (\<lambda>p. \<not> (p < 0 \<or> 100 < p)) (PercentageOutOfRange \<circ> Finite)
               (case percentage args of None \<Rightarrow> [] | Some l \<Rightarrow> l)) (\<lambda>ps.
       let versionIds = map fst positional @ ids;
           percentages = map snd positional @ map Some ps
       in Inr (js_map (map (\<lambda>i. (versionIds ! i, nth_or_null percentages i)) [0..<length versionIds])))))"

subsection \<open>Distribution\<close>

definition traffic_of :: "optional_traffic \<Rightarrow> version_id \<Rightarrow> rat option" where
  "traffic_of traffic v = (case map_of traffic v of None \<Rightarrow> None | Some p \<Rightarrow> p)"

definition summariseVersionTraffic :: "optional_traffic \<Rightarrow> version_id list \<Rightarrow> rat \<times> nat" where
  "summariseVersionTraffic traffic versionIds =
     (sum_list (map (\<lambda>v. case traffic_of traffic v of None \<Rightarrow> 0 | Some p \<Rightarrow> p) versionIds),
      length (filter (\<lambda>v. traffic_of traffic v = None) versionIds))"

definition assignAndDistributePercentages ::
    "version_id list \<Rightarrow> optional_traffic \<Rightarrow> (version_id \<times> rat) list" where
  "assignAndDistributePercentages versionIds traffic =
     (let (subtotal, unspecifiedCount) = summariseVersionTraffic traffic versionIds;
          replacement = (if unspecifiedCount = 0 \<or> 100 < subtotal then 0
                         else (100 - subtotal) / of_nat unspecifiedCount)
      in js_map (map (\<lambda>v. (v, case traffic_of traffic v of None \<Rightarrow> replacement | Some p \<Rightarrow> p)) versionIds))"

definition EPSILON :: rat where "EPSILON = 1 / 1000"

definition validateTrafficSubtotal :: "rat \<Rightarrow> rat \<Rightarrow> rat \<Rightarrow> rat \<Rightarrow> versions_error + unit" where
  "validateTrafficSubtotal subtotal mx mn epsilon =
     (let isAbove = mx + epsilon < subtotal; isBelow = subtotal < mn - epsilon in
      if mx = mn \<and> (isAbove \<or> isBelow) then Inl (SubtotalNot subtotal)
      else if isAbove then Inl (SubtotalAbove subtotal)
      else if isBelow then Inl (SubtotalBelow subtotal)
      else Inr ())"

subsection \<open>Properties\<close>

lemma js_map_distinct: "distinct (map fst xs) \<Longrightarrow> js_map xs = xs"
proof -
  have "distinct (map fst (ys @ xs)) \<Longrightarrow> fold (\<lambda>(k, v) m. AList.update k v m) xs ys = ys @ xs" for ys
  proof (induction xs arbitrary: ys)
    case (Cons x xs)
    have "AList.update (fst x) (snd x) ys = ys @ [x]"
      if "fst x \<notin> fst ` set ys" for x :: "'a \<times> 'b" and ys
      using that by (induction ys) auto
    with Cons show ?case by (cases x) (force simp: image_iff)
  qed simp
  from this [of "[]"] show "distinct (map fst xs) \<Longrightarrow> js_map xs = xs" by (simp add: js_map_def)
qed

lemma js_map_values: "(k, v) \<in> set (js_map xs) \<Longrightarrow> (k, v) \<in> set xs"
proof -
  have "set (fold (\<lambda>(k, v) m. AList.update k v m) xs ys) \<subseteq> set ys \<union> set xs" for ys
  proof (induction xs arbitrary: ys)
    case (Cons x xs)
    have "set (AList.update k v ys) \<subseteq> insert (k, v) (set ys)" for k v and ys :: "('a \<times> 'b) list"
      by (induction ys) auto
    then show ?case using Cons [of "AList.update (fst x) (snd x) ys"]
      by (cases x) (auto dest!: subsetD)
  qed simp
  then show "(k, v) \<in> set (js_map xs) \<Longrightarrow> (k, v) \<in> set xs" by (fastforce simp: js_map_def)
qed

lemma check_all_ok: "check_all ok err xs = Inr ys \<Longrightarrow> ys = xs \<and> (\<forall>x \<in> set xs. ok x)"
  by (induction xs arbitrary: ys) (auto split: if_splits)

lemma parse_specs_range:
  "parse_specs ss = Inr xs \<Longrightarrow> (v, Some p) \<in> set xs \<Longrightarrow> 0 \<le> p \<and> p \<le> 100"
proof (induction ss arbitrary: xs)
  case (Cons s ss)
  then show ?case
    by (auto simp: parseVersionSpec_def split: list.splits if_splits option.splits js_float.splits)
qed simp

lemma parseVersionSpecs_range:
  assumes "parseVersionSpecs args = Inr traffic" and "(v, Some p) \<in> set traffic"
  shows "0 \<le> p \<and> p \<le> 100"
proof -
  obtain pos ids ps where pos: "parse_specs (case versionSpecs args of None \<Rightarrow> [] | Some l \<Rightarrow> l) = Inr pos"
    and ps: "check_all (\<lambda>p. \<not> (p < 0 \<or> 100 < p)) (PercentageOutOfRange \<circ> Finite)
      (case percentage args of None \<Rightarrow> [] | Some l \<Rightarrow> l) = Inr ps"
    and t: "traffic = js_map (map (\<lambda>i. ((map fst pos @ ids) ! i, nth_or_null (map snd pos @ map Some ps) i))
      [0..<length (map fst pos @ ids)])"
    using assms(1) by (auto simp: parseVersionSpecs_def Let_def)
  have "Some p \<in> set (map snd pos @ map Some ps)"
    using js_map_values [OF assms(2) [unfolded t]]
    by (auto simp: nth_or_null_def split: if_splits) (metis length_append length_map nth_mem set_append
        list.set_map Un_iff)
  then show ?thesis
    using parse_specs_range [OF pos] check_all_ok [OF ps] by (auto simp: not_less)
qed

lemma sum_with_default:
  fixes f :: "'a \<Rightarrow> rat option"
  shows "sum_list (map (\<lambda>v. case f v of None \<Rightarrow> d | Some p \<Rightarrow> p) vs)
    = sum_list (map (\<lambda>v. case f v of None \<Rightarrow> 0 | Some p \<Rightarrow> p) vs)
      + d * of_nat (length (filter (\<lambda>v. f v = None) vs))"
  by (induction vs) (auto simp: algebra_simps split: option.splits)

lemma assign_entries:
  assumes "distinct versionIds" and "summariseVersionTraffic traffic versionIds = (subtotal, n)"
  shows "assignAndDistributePercentages versionIds traffic
    = map (\<lambda>v. (v, case traffic_of traffic v of
          None \<Rightarrow> if n = 0 \<or> 100 < subtotal then 0 else (100 - subtotal) / of_nat n
        | Some p \<Rightarrow> p)) versionIds"
  unfolding assignAndDistributePercentages_def assms(2)
  by (simp add: Let_def js_map_distinct assms(1) comp_def)

lemma share_range:
  fixes s :: rat
  assumes "0 \<le> s" and "s \<le> 100" and "0 < n"
  shows "0 \<le> (100 - s) / of_nat n \<and> (100 - s) / of_nat n \<le> 100"
proof -
  have "(100 - s) / of_nat n \<le> (100 - s) / 1"
    by (rule divide_left_mono) (use assms in \<open>simp_all add: Suc_leI\<close>)
  then show ?thesis using assms by simp
qed

text \<open>
  the traffic adds up. For version specifications that were accepted, and pairwise different
  versions of which at least one has no percentage, distributing the rest assigns every version a
  percentage between 0 and 100, keeps those that were given, and makes the total exactly 100, or
  leaves the total above 100 as it was given. The total passes the validation exactly when the
  given percentages do not exceed 100 by more than the tolerance.
\<close>

theorem versions_traffic_total:
  assumes "parseVersionSpecs args = Inr traffic" and "distinct versionIds"
    and "summariseVersionTraffic traffic versionIds = (subtotal, n)" and "0 < n"
    and "assigned = assignAndDistributePercentages versionIds traffic"
  shows "map fst assigned = versionIds
    \<and> (\<forall>(v, p) \<in> set assigned. 0 \<le> p \<and> p \<le> 100 \<and> (\<forall>q. traffic_of traffic v = Some q \<longrightarrow> p = q))
    \<and> sum_list (map snd assigned) = max 100 subtotal
    \<and> (validateTrafficSubtotal (sum_list (map snd assigned)) 100 100 EPSILON = Inr ()
        \<longleftrightarrow> subtotal \<le> 100 + EPSILON)"
proof -
  let ?r = "if n = 0 \<or> 100 < subtotal then 0 else (100 - subtotal) / of_nat n :: rat"
  let ?val = "\<lambda>v. case traffic_of traffic v of None \<Rightarrow> ?r | Some p \<Rightarrow> p"
  have a: "assigned = map (\<lambda>v. (v, ?val v)) versionIds"
    using assign_entries [OF assms(2,3)] assms(5) by simp
  have range: "0 \<le> p \<and> p \<le> 100" if "traffic_of traffic v = Some p" for v p
    using that parseVersionSpecs_range [OF assms(1), of v p]
    by (auto simp: traffic_of_def split: option.splits dest: map_of_SomeD)
  have sub: "subtotal = sum_list (map (\<lambda>v. case traffic_of traffic v of None \<Rightarrow> 0 | Some p \<Rightarrow> p) versionIds)"
    and n: "n = length (filter (\<lambda>v. traffic_of traffic v = None) versionIds)"
    using assms(3) by (simp_all add: summariseVersionTraffic_def)
  have "0 \<le> subtotal" unfolding sub
    by (rule sum_list_nonneg) (use range in \<open>auto split: option.splits\<close>)
  then have r: "0 \<le> ?r" "?r \<le> 100"
    using share_range [of subtotal n] assms(4) by auto
  have total: "sum_list (map snd assigned) = max 100 subtotal"
  proof -
    have "sum_list (map snd assigned) = subtotal + ?r * of_nat n"
      using sum_with_default [where f = "traffic_of traffic" and d = ?r and vs = versionIds]
      by (simp add: a comp_def sub n)
    then show ?thesis using assms(4) by (auto simp: max_def field_simps)
  qed
  have "\<forall>(v, p) \<in> set assigned. 0 \<le> p \<and> p \<le> 100 \<and> (\<forall>q. traffic_of traffic v = Some q \<longrightarrow> p = q)"
    using r range by (auto simp: a split: option.splits)
  moreover have "validateTrafficSubtotal (max 100 subtotal) 100 100 EPSILON = Inr ()
      \<longleftrightarrow> subtotal \<le> 100 + EPSILON"
    by (auto simp: validateTrafficSubtotal_def EPSILON_def Let_def max_def)
  ultimately show ?thesis using total by (simp add: a comp_def)
qed

definition ex_args :: versionsDeployArgs where
  "ex_args = \<lparr>versionSpecs = Some [''a@30'', ''b'', ''c''], versionId = None, percentage = None\<rparr>"

theorem versions_traffic_total_witness:
  "assignAndDistributePercentages [''a'', ''b'', ''c''] [(''a'', Some 30), (''b'', None), (''c'', None)]
     = [(''a'', 30), (''b'', 35), (''c'', 35)]
   \<and> sum_list (map snd (assignAndDistributePercentages [''a'', ''b'', ''c'']
       [(''a'', Some 30), (''b'', None), (''c'', None)])) = 100"
proof -
  let ?t = "[(''a'', Some 30), (''b'', None), (''c'', None)]"
  have f: "parseFloat ''30'' = Some (Finite 30)"
  proof -
    have "takeWhile is_digit ''30'' = ''30''" "dropWhile is_digit ''30'' = []"
      "trimStart ''30'' = ''30''" "startsWith ''30'' ''Infinity'' = False" "digits_val ''30'' = 30"
      by code_simp+
    then show ?thesis by (simp add: parseFloat_def unsignedFloat_def exponentOf_def scale10_def)
  qed
  have p: "parseVersionSpecs ex_args = Inr ?t"
    by (simp add: parseVersionSpecs_def ex_args_def parseVersionSpec_def f js_map_def nth_or_null_def upt_rec)
  have s: "summariseVersionTraffic ?t [''a'', ''b'', ''c''] = (30, 2)"
    by (simp add: summariseVersionTraffic_def traffic_of_def)
  have d: "distinct [''a'', ''b'', ''c'']" by simp
  have "assignAndDistributePercentages [''a'', ''b'', ''c''] ?t = [(''a'', 30), (''b'', 35), (''c'', 35)]"
    using assign_entries [OF d s] by (simp add: traffic_of_def)
  with versions_traffic_total [OF p d s _ refl] show ?thesis by simp
qed

end
