(* ===== verification/D1Splitter.thy ===== *)
theory D1Splitter
  imports Prelude
begin

text \<open>
  Splitting a file of SQL into statements for D1: \<^verbatim>\<open>wrangler/src/d1/splitter.ts\<close> and
  \<^verbatim>\<open>wrangler/src/d1/trimmer.ts\<close>. The iterator over the characters is the list of those that are left.
  White space, letters and the case of letters are those of ASCII.
\<close>

subsection \<open>Removing the transaction of a dump\<close>

definition mayContainTransaction :: "string \<Rightarrow> bool" where
  "mayContainTransaction sql = js_includes sql ''BEGIN TRANSACTION''"

text \<open>\<open>String.prototype.replace(pattern, "")\<close> with a string: the first occurrence.\<close>

fun remove_first :: "string \<Rightarrow> string \<Rightarrow> string" where
  "remove_first pat [] = []"
| "remove_first pat (c # s) =
     (if startsWith (c # s) pat then drop (length pat) (c # s) else c # remove_first pat s)"

datatype sql_error = SeveralTransactions

definition trimSqlQuery :: "string \<Rightarrow> sql_error + string" where
  "trimSqlQuery sql =
     (if \<not> mayContainTransaction sql then Inr sql
      else
        let trimmedSql = remove_first ''COMMIT;'' (remove_first ''BEGIN TRANSACTION;'' sql)
        in if mayContainTransaction trimmedSql then Inl SeveralTransactions else Inr trimmedSql)"

subsection \<open>Consuming characters\<close>

text \<open>
  \<open>consumeWhile\<close>: the character on which the predicate fails has been taken from the iterator and
  belongs to the result.
\<close>

fun consumeWhile :: "(string \<Rightarrow> bool) \<Rightarrow> string \<Rightarrow> string \<Rightarrow> string \<times> string" where
  "consumeWhile predicate str [] = (str, [])"
| "consumeWhile predicate str (c # rest) =
     (if \<not> predicate (str @ [c]) then (str @ [c], rest) else consumeWhile predicate (str @ [c]) rest)"

definition consumeUntilMarker :: "string \<Rightarrow> string \<Rightarrow> string \<times> string" where
  "consumeUntilMarker endMarker rest = consumeWhile (\<lambda>str. \<not> endsWith str endMarker) [] rest"

definition isDollarQuoteIdentifier :: "string \<Rightarrow> bool" where
  "isDollarQuoteIdentifier str \<longleftrightarrow>
     str \<noteq> [] \<and> last str \<noteq> CHR ''$''
     \<and> (is_digit (last str) \<or> last str = CHR ''_'' \<or> is_upper (last str) \<or> is_lower (last str))"

text \<open>\<open>/\s(BEGIN|CASE)\s$/i\<close>, on the reversed string.\<close>

definition ends_with_word :: "string \<Rightarrow> string \<Rightarrow> bool" where
  "ends_with_word word rstr \<longleftrightarrow>
     length word + 2 \<le> length rstr \<and> is_space (hd rstr)
     \<and> map lower_char (take (length word) (tl rstr)) = rev word
     \<and> is_space (rstr ! (length word + 1))"

definition isCompoundStatementStart :: "string \<Rightarrow> bool" where
  "isCompoundStatementStart str \<longleftrightarrow>
     ends_with_word ''begin'' (rev str) \<or> ends_with_word ''case'' (rev str)"

text \<open>\<open>/\sEND[;\s]$/\<close>, which distinguishes case.\<close>

definition isCompoundStatementEnd :: "string \<Rightarrow> bool" where
  "isCompoundStatementEnd str \<longleftrightarrow>
     5 \<le> length str \<and> (last str = CHR '';'' \<or> is_space (last str))
     \<and> take 3 (tl (rev str)) = rev ''END'' \<and> is_space (rev str ! 4)"

subsection \<open>Splitting\<close>

definition mayContainMultipleStatements :: "string \<Rightarrow> bool" where
  "mayContainMultipleStatements sql \<longleftrightarrow>
     (let trimmed = trimEnd sql; before = takeWhile (\<lambda>c. c \<noteq> CHR '';'') trimmed
      in length before \<noteq> length trimmed \<and> length before \<noteq> length trimmed - 1)"

lemma consumeWhile_rest: "consumeWhile p s rest = (t, r) \<Longrightarrow> length r \<le> length rest \<and> t @ r = s @ rest"
  by (induction p s rest arbitrary: t r rule: consumeWhile.induct) (auto split: if_splits)

lemma consumeUntilMarker_rest:
  "consumeUntilMarker m rest = (t, r) \<Longrightarrow> length r \<le> length rest \<and> t @ r = rest"
  using consumeWhile_rest by (fastforce simp: consumeUntilMarker_def)

text \<open>
  The main loop: the characters left, the statement collected, the statements found and the depth
  of the stack of compound statements. \<open>after\<close> is the end of the loop body.
\<close>

definition after :: "string \<Rightarrow> nat \<Rightarrow> nat" where
  "after str depth = (if isCompoundStatementStart str then depth + 1 else depth)"

lemma consumeUntilMarker_shorter: "(t, r) = consumeUntilMarker m rest \<Longrightarrow> length r \<le> length rest"
  by (metis consumeUntilMarker_rest)

lemma consumeWhile_shorter: "(t, r) = consumeWhile p [] rest \<Longrightarrow> length r \<le> length rest"
  by (metis consumeWhile_rest)

function split_loop :: "string \<Rightarrow> string \<Rightarrow> string list \<Rightarrow> nat \<Rightarrow> string list" where
  "split_loop [] str statements depth = statements @ [str]"
| "split_loop (c # rest) str statements depth0 =
     (let depth = (if 0 < depth0 \<and> isCompoundStatementEnd (str @ [c]) then depth0 - 1 else depth0) in
      if c = CHR 0x27 \<or> c = CHR 0x22 \<or> c = CHR 0x60 then
        (case consumeUntilMarker [c] rest of (t, r) \<Rightarrow>
           split_loop r (str @ [c] @ t) statements (after (str @ [c] @ t) depth))
      else if c = CHR ''$'' then
        (case consumeWhile isDollarQuoteIdentifier [] rest of (t, r) \<Rightarrow>
           if endsWith (c # t) ''$'' then
             (case consumeUntilMarker (c # t) r of (u, r') \<Rightarrow>
                split_loop r' (str @ [c] @ t @ u) statements (after (str @ [c] @ t @ u) depth))
           else split_loop r (str @ [c] @ t) statements (after (str @ [c] @ t) depth))
      else if c = CHR ''-'' then
        (if take 1 rest = ''-'' then
           (case consumeUntilMarker [CHR 0x0A] (tl rest) of (t, r) \<Rightarrow>
              split_loop r (str @ ''--'' @ t) statements (after (str @ ''--'' @ t) depth))
         else split_loop rest (str @ [c]) statements depth)
      else if c = CHR ''/'' then
        (if take 1 rest = ''*'' then
           (case consumeUntilMarker ''*/'' (tl rest) of (t, r) \<Rightarrow>
              split_loop r (str @ ''/*'' @ t) statements (after (str @ ''/*'' @ t) depth))
         else split_loop rest (str @ [c]) statements depth)
      else if c = CHR '';'' then
        (if depth = 0 then split_loop rest [] (statements @ [str]) (after [] depth)
         else split_loop rest (str @ [c]) statements (after (str @ [c]) depth))
      else split_loop rest (str @ [c]) statements (after (str @ [c]) depth))"
  by pat_completeness auto

termination
proof (relation "measure (\<lambda>(rest, str, statements, depth). length rest)", goal_cases)
qed (auto simp: less_Suc_eq_le dest!: consumeUntilMarker_shorter consumeWhile_shorter)

definition splitSqlIntoStatements :: "string \<Rightarrow> string list" where
  "splitSqlIntoStatements sql = filter (\<lambda>s. s \<noteq> []) (map trim (split_loop sql [] [] 0))"

definition splitSqlQuery :: "string \<Rightarrow> sql_error + string list" where
  "splitSqlQuery sql =
     andThen (trimSqlQuery sql) (\<lambda>trimmedSql.
       if \<not> mayContainMultipleStatements trimmedSql then Inr [trimmedSql]
       else
         let sp = splitSqlIntoStatements trimmedSql
         in Inr (if sp = [] then [trimmedSql] else sp))"

subsection \<open>Nothing is lost\<close>

lemma join_snoc: "xs \<noteq> [] \<Longrightarrow> join_with d (xs @ [y]) = join_with d xs @ d @ y"
proof (induction xs)
  case (Cons x xs)
  then show ?case by (cases "xs = []") (simp_all add: join_with_Cons)
qed simp

lemma join_last: "join_with d (xs @ [y @ z]) = join_with d (xs @ [y]) @ z"
  by (cases "xs = []") (simp_all add: join_snoc)

lemma consumeUntilMarker_append: "consumeUntilMarker m rest = (t, r) \<Longrightarrow> rest = t @ r"
  using consumeUntilMarker_rest by metis

lemma consumeWhile_append: "consumeWhile p [] rest = (t, r) \<Longrightarrow> rest = t @ r"
  using consumeWhile_rest by fastforce

lemma join_push: "join_with '';'' ((sts @ [str]) @ [[]]) = join_with '';'' (sts @ [str]) @ '';''"
  using join_snoc [of "sts @ [str]" "'';''" "[]"] by simp

lemma take1: "take 1 rest = [d] \<Longrightarrow> rest = d # tl rest"
  by (cases rest) auto

lemma split_loop_join:
  "join_with '';'' (split_loop rest str sts depth) = join_with '';'' (sts @ [str]) @ rest"
proof (induction rest str sts depth rule: split_loop.induct)
  case (1 str sts depth)
  then show ?case by simp
next
  case (2 c rest str sts depth0)
  let ?d = "if 0 < depth0 \<and> isCompoundStatementEnd (str @ [c]) then depth0 - 1 else depth0"
  note IH = "2.IH" [OF refl]
  consider (quote) "c = CHR 0x27 \<or> c = CHR 0x22 \<or> c = CHR 0x60"
    | (dollar) "c = CHR ''$''" | (dash) "c = CHR ''-''" | (slash) "c = CHR ''/''"
    | (semi) "c = CHR '';''"
    | (other) "\<not> (c = CHR 0x27 \<or> c = CHR 0x22 \<or> c = CHR 0x60)" "c \<noteq> CHR ''$''" "c \<noteq> CHR ''-''"
        "c \<noteq> CHR ''/''" "c \<noteq> CHR '';''"
    by blast
  then show ?case
  proof cases
    case quote
    obtain t r where t: "consumeUntilMarker [c] rest = (t, r)" by (cases "consumeUntilMarker [c] rest")
    show ?thesis
      using IH(1) [OF quote t [symmetric]] quote t consumeUntilMarker_append [OF t]
      by (auto simp: Let_def join_last)
  next
    case dollar
    obtain t r where t: "consumeWhile isDollarQuoteIdentifier [] rest = (t, r)"
      by (cases "consumeWhile isDollarQuoteIdentifier [] rest")
    obtain u r' where u: "consumeUntilMarker (c # t) r = (u, r')"
      by (cases "consumeUntilMarker (c # t) r")
    note rest = consumeWhile_append [OF t] and more = consumeUntilMarker_append [OF u]
    have q: "\<not> (c = CHR 0x27 \<or> c = CHR 0x22 \<or> c = CHR 0x60)" using dollar by simp
    show ?thesis
    proof (cases "endsWith (c # t) ''$''")
      case True
      then show ?thesis
        using IH(2) [OF q dollar t [symmetric] True u [symmetric]] dollar t u rest more
        by (simp add: Let_def join_last)
    next
      case False
      then show ?thesis
        using IH(3) [OF q dollar t [symmetric] False] dollar t rest
        by (simp add: Let_def join_last)
    qed
  next
    case dash
    have q: "\<not> (c = CHR 0x27 \<or> c = CHR 0x22 \<or> c = CHR 0x60)" "c \<noteq> CHR ''$''" using dash by simp_all
    obtain t r where t: "consumeUntilMarker [CHR 0x0A] (tl rest) = (t, r)"
      by (cases "consumeUntilMarker [CHR 0x0A] (tl rest)")
    show ?thesis
    proof (cases "take 1 rest = ''-''")
      case True
      then show ?thesis
        using IH(4) [OF q dash True t [symmetric]] dash t take1 [OF True] consumeUntilMarker_append [OF t]
        by (simp add: Let_def join_last)
    next
      case False
      then show ?thesis using IH(5) [OF q dash False] dash by (simp add: Let_def join_last)
    qed
  next
    case slash
    have q: "\<not> (c = CHR 0x27 \<or> c = CHR 0x22 \<or> c = CHR 0x60)" "c \<noteq> CHR ''$''" "c \<noteq> CHR ''-''"
      using slash by simp_all
    obtain t r where t: "consumeUntilMarker ''*/'' (tl rest) = (t, r)"
      by (cases "consumeUntilMarker ''*/'' (tl rest)")
    show ?thesis
    proof (cases "take 1 rest = ''*''")
      case True
      then show ?thesis
        using IH(6) [OF q slash True t [symmetric]] slash t take1 [OF True] consumeUntilMarker_append [OF t]
        by (simp add: Let_def join_last)
    next
      case False
      then show ?thesis using IH(7) [OF q slash False] slash by (simp add: Let_def join_last)
    qed
  next
    case semi
    have q: "\<not> (c = CHR 0x27 \<or> c = CHR 0x22 \<or> c = CHR 0x60)" "c \<noteq> CHR ''$''" "c \<noteq> CHR ''-''"
      "c \<noteq> CHR ''/''" using semi by simp_all
    show ?thesis
    proof (cases "?d = 0")
      case True
      then show ?thesis using IH(8) [OF q semi True] semi join_push [of sts str]
        by (simp add: Let_def)
    next
      case False
      then show ?thesis using IH(9) [OF q semi False] semi by (simp add: Let_def join_last)
    qed
  next
    case other
    show ?thesis using IH(10) [OF other] other by (simp add: Let_def join_last)
  qed
qed

text \<open>
  C40: splitting loses nothing. Every query is cut at semicolons only: the pieces, joined with
  semicolons, are the query itself, and the statements returned are the pieces without
  surrounding white space, except the blank ones.
\<close>

theorem d1_split_roundtrip:
  "\<exists>pieces. join_with '';'' pieces = sql
     \<and> splitSqlIntoStatements sql = filter (\<lambda>s. s \<noteq> []) (map trim pieces)"
proof (intro exI conjI)
  have "join_with '';'' [[]] = []" by simp
  then show "join_with '';'' (split_loop sql [] [] 0) = sql"
    using split_loop_join [of sql "[]" "[]" 0] by simp
qed (simp add: splitSqlIntoStatements_def)

text \<open>
  lower-case compound statements. The start of a compound statement is recognised in any case,
  its end only in upper case: after a lower-case \<open>begin ... end\<close> the rest of the file is one
  statement, while the same file in upper case is split.
\<close>

theorem d1_lowercase_end_merges:
  "splitSqlIntoStatements ''create trigger t begin a; b; end; c; d''
     = [''create trigger t begin a; b; end; c; d'']
   \<and> splitSqlIntoStatements ''create trigger t BEGIN a; b; END; c; d''
     = [''create trigger t BEGIN a; b; END'', ''c'', ''d'']"
  by (rule conjI; code_simp)

text \<open>
  A placeholder before a semicolon hides it: the character that ends the identifier of a dollar
  quote has already been taken from the iterator.
\<close>

lemma d1_placeholder_hides_semicolon: "splitSqlIntoStatements ''a $1; b'' = [''a $1; b'']"
  by code_simp

end
