(* ===== verification/Spec2Isabelle.thy ===== *)
theory Spec2Isabelle
  imports CacheTheorems PagesProperties ConfigProperties SiteProperties R2Theorems QueueTheorems Ratelimit Sync
    AssetsTheorems RouteRules KVAssetHandler Routing Versions D1Splitter
begin

text \<open>
  \<^bold>\<open>The program.\<close> \<^verbatim>\<open>workers-sdk\<close> is the tool chain of Cloudflare Workers. Its core logic is in five
  packages. \<^verbatim>\<open>packages/miniflare\<close> simulates the platform on a developer's machine: a simulator is a
  Durable Object that keeps its state in an SQLite database and in a directory of blobs and answers
  HTTP requests of the bindings of the user's worker. \<^verbatim>\<open>packages/workers-shared\<close> has the workers
  that serve static assets, both on the platform and locally. \<^verbatim>\<open>packages/wrangler\<close> is the command
  line tool; it reads and validates the configuration of a worker, compiles the functions of a Pages
  project, generates and validates their routing rules, uploads the files of Workers Sites, splits SQL
  files for D1 and computes the percentages of a gradual deployment. \<^verbatim>\<open>packages/pages-shared\<close> has the server of the
  assets of a Pages project and the parsers of its \<^verbatim>\<open>_headers\<close> and \<^verbatim>\<open>_redirects\<close> files.
  \<^verbatim>\<open>packages/kv-asset-handler\<close> is the library with which a Workers Sites worker serves its files. The
  other packages are not modelled. All file names below are relative to \<^verbatim>\<open>src/packages\<close>.

  \<^bold>\<open>How the parts interact.\<close> KV and R2 store their values through the blob store; the blob store
  calls a directory service, which is outside the program and is a parameter with named laws. The KV
  namespace is a client of the expiring key-value storage; the Workers Sites namespace answers the same
  requests from a directory. The R2 bucket uses SQL tables for objects, uploads and parts and deletes
  blobs in the background, after the readers that use them. The queue brokers send messages to each
  other (dead letter queues) and to consumers, driven by timers. The router worker asks the asset worker,
  which looks up the manifest that the assets plugin of the development server built. The cache keeps
  whole HTTP responses in the key-value storage and answers conditional and range requests from them.
  The server of Pages turns the rules that the parsers accepted into regular expressions. The directory
  of functions of a Pages project becomes a configuration of routes, the configuration becomes a module,
  the module is the route table of the worker that composes the handlers, and the routing rules are
  generated from the same routes. The library of Workers Sites reads the KV namespace and the cache.
  The router of Miniflare sends a request to the worker whose route is the most specific one. The
  configuration of a worker is validated field by field: the validators of the fields are built from
  those of the bindings, all of them write into one tree of messages, and a named environment is
  validated with the environment of the top level at hand, from which it inherits. The configuration of
  a Pages project is then checked again. The upload of a site reads the files that the validated
  configuration selects, sends the new ones to a KV namespace and makes the manifest with which the
  library of Workers Sites finds them.

  \<^bold>\<open>Theories and sources.\<close>

  \<^item> \<^verbatim>\<open>Prelude\<close>: results (\<open>error + 'a\<close>) with \<open>andThen\<close> and \<open>check\<close>, the error values of the JavaScript
    library, strings, printing and parsing of numbers, stable sorting with a comparison function, query
    parameters, headers and the JSON codec the simulators share.
  \<^item> \<^verbatim>\<open>Encoding\<close> (\<^verbatim>\<open>miniflare/src/workers/shared/data.ts\<close>): base64, hexadecimal, UTF-8, URI components.
  \<^item> \<^verbatim>\<open>Ranges\<close> (\<^verbatim>\<open>miniflare/src/workers/shared/range.ts\<close>): the parser of the \<^verbatim>\<open>Range\<close> header.
  \<^item> \<^verbatim>\<open>Blob\<close> (\<^verbatim>\<open>shared/blob.worker.ts\<close>): the blob store over a directory service.
  \<^item> \<^verbatim>\<open>KeyValue\<close> (\<^verbatim>\<open>shared/keyvalue.worker.ts\<close>): the table of entries, the four operations and the
    deletions that run later; \<^verbatim>\<open>KVNamespace\<close> (\<^verbatim>\<open>kv/namespace.worker.ts\<close>, \<^verbatim>\<open>kv/validator.worker.ts\<close>): the
    request handlers; \<^verbatim>\<open>KVSites\<close> (\<^verbatim>\<open>kv/sites.worker.ts\<close>): the same interface over a directory.
  \<^item> \<^verbatim>\<open>Http\<close> (headers, dates and checks of responses, of the Fetch standard) and \<^verbatim>\<open>Cache\<close>
    (\<^verbatim>\<open>cache/cache.worker.ts\<close>, \<^verbatim>\<open>cache/errors.worker.ts\<close>); \<^verbatim>\<open>CacheTheorems\<close>.
  \<^item> \<^verbatim>\<open>R2Validator\<close> (\<^verbatim>\<open>r2/validator.worker.ts\<close>, \<^verbatim>\<open>r2/errors.worker.ts\<close>, \<^verbatim>\<open>r2/r2Object.worker.ts\<close>) and
    \<^verbatim>\<open>R2Bucket\<close> (\<^verbatim>\<open>r2/bucket.worker.ts\<close>): tables, transactions, readers and operations;
    \<^verbatim>\<open>R2Invariant\<close>, \<^verbatim>\<open>R2Properties\<close> and \<^verbatim>\<open>R2Theorems\<close>: the invariant of the tables and what it gives.
  \<^item> \<^verbatim>\<open>Queues\<close> (\<^verbatim>\<open>queues/broker.worker.ts\<close>, \<^verbatim>\<open>queues/schemas.ts\<close>): the broker and the runs of it;
    \<^verbatim>\<open>QueueProperties\<close> and \<^verbatim>\<open>QueueTheorems\<close>: conservation, delivery bounds and scheduling.
  \<^item> \<^verbatim>\<open>Ratelimit\<close> (\<^verbatim>\<open>ratelimit/ratelimit.worker.ts\<close>) and \<^verbatim>\<open>Sync\<close> (\<^verbatim>\<open>shared/sync.ts\<close>).
  \<^item> \<^verbatim>\<open>Assets\<close> and \<^verbatim>\<open>AssetsServer\<close> (\<^verbatim>\<open>workers-shared/asset-worker\<close>, \<^verbatim>\<open>workers-shared/router-worker\<close>,
    \<^verbatim>\<open>miniflare/src/plugins/assets\<close>, \<^verbatim>\<open>miniflare/src/workers/assets\<close>); \<^verbatim>\<open>AssetsTheorems\<close>.
  \<^item> \<^verbatim>\<open>PagesRoutes\<close> (\<^verbatim>\<open>wrangler/src/pages/functions/routes-*.ts\<close>, \<^verbatim>\<open>wrangler/templates/pages-dev-*.ts\<close>);
    \<^verbatim>\<open>PagesTheorems\<close>.
  \<^item> \<^verbatim>\<open>RulesEngine\<close> (\<^verbatim>\<open>pages-shared/asset-server/rulesEngine.ts\<close>), \<^verbatim>\<open>PagesMetadata\<close>
    (\<^verbatim>\<open>pages-shared/metadata-generator\<close>) and \<^verbatim>\<open>PagesHandler\<close> (\<^verbatim>\<open>pages-shared/asset-server/handler.ts\<close>,
    \<^verbatim>\<open>responses.ts\<close>); \<^verbatim>\<open>RulesProperties\<close> and \<^verbatim>\<open>PagesProperties\<close>.
  \<^item> \<^verbatim>\<open>FunctionFiles\<close> (\<^verbatim>\<open>wrangler/src/pages/functions/filepath-routing.ts\<close>), \<^verbatim>\<open>FunctionModules\<close>
    (\<^verbatim>\<open>functions/routes.ts\<close>, \<^verbatim>\<open>functions/identifiers.ts\<close>) and \<^verbatim>\<open>FunctionWorker\<close>
    (\<^verbatim>\<open>wrangler/templates/pages-template-worker.ts\<close>); \<^verbatim>\<open>FunctionProperties\<close> and \<^verbatim>\<open>FunctionTheorems\<close>.
  \<^item> \<^verbatim>\<open>KVAssetHandler\<close> (\<^verbatim>\<open>kv-asset-handler/src/index.ts\<close>, \<^verbatim>\<open>types.ts\<close>).
  \<^item> \<^verbatim>\<open>Routing\<close> (\<^verbatim>\<open>miniflare/src/plugins/shared/routing.ts\<close>, \<^verbatim>\<open>miniflare/src/workers/core/routing.ts\<close>):
    the patterns of routes, their specificity and the choice of the worker.
  \<^item> \<^verbatim>\<open>ConfigValue\<close> (values of configuration files; \<^verbatim>\<open>wrangler/src/config/diagnostics.ts\<close>),
    \<^verbatim>\<open>ConfigHelpers\<close> (\<^verbatim>\<open>config/validation-helpers.ts\<close>), \<^verbatim>\<open>NodePath\<close> (POSIX paths of Node),
    \<^verbatim>\<open>ConfigBindings\<close>, \<^verbatim>\<open>ConfigContainers\<close>, \<^verbatim>\<open>ConfigFields\<close> and \<^verbatim>\<open>ConfigValidation\<close>
    (\<^verbatim>\<open>config/validation.ts\<close>: bindings, the fields that hold them, normalised fields, environments and the
    whole), \<^verbatim>\<open>ConfigPages\<close> (\<^verbatim>\<open>config/validation-pages.ts\<close>, \<^verbatim>\<open>config/index.ts\<close>, \<^verbatim>\<open>config/config.ts\<close>);
    \<^verbatim>\<open>ConfigContract\<close>, \<^verbatim>\<open>ConfigSchema\<close>, \<^verbatim>\<open>ConfigGrowth\<close>, \<^verbatim>\<open>ConfigEnvironments\<close>, \<^verbatim>\<open>ConfigNames\<close>,
    \<^verbatim>\<open>ConfigMessages\<close>, \<^verbatim>\<open>ConfigTheorems\<close> and \<^verbatim>\<open>ConfigProperties\<close>: the contract of validators, schemas of
    the bindings, inheritance, messages, and what a valid configuration guarantees.
  \<^item> \<^verbatim>\<open>KVHelpers\<close> (\<^verbatim>\<open>wrangler/src/kv/helpers.ts\<close>): requests about KV namespaces; \<^verbatim>\<open>SiteAssets\<close>
    (\<^verbatim>\<open>wrangler/src/sites.ts\<close>): the plan of an upload, the uploaders, the old files and the whole;
    \<^verbatim>\<open>SiteUploaders\<close> and \<^verbatim>\<open>SiteProperties\<close>.
  \<^item> \<^verbatim>\<open>Versions\<close> (\<^verbatim>\<open>wrangler/src/versions/deploy.ts\<close>) and \<^verbatim>\<open>D1Splitter\<close> (\<^verbatim>\<open>wrangler/src/d1\<close>).

  \<^bold>\<open>How state and effects are modelled.\<close> A simulator is a record; every method is a function from the
  state and its arguments to a result and the new state. An exception is a value of an error type. Every
  SQL statement is a function on lists of rows. Asynchronous code is cut where it can be suspended: a
  background deletion is a separate step, \<open>#flush\<close> of the queue broker is \<open>flush_begin\<close>, the dispatch,
  \<open>flush_process\<close> and \<open>flush_end\<close>, the walk of the assets plugin is any interleaving of the two halves
  of its file callbacks, the five uploaders of a site take steps in any order. An inductive relation composes the steps, and the invariants are proved by
  induction over it, so they hold for every order of the steps. Locales state the interfaces: the laws of
  the directory service of the blob store, of the key-value table, of a simulator with an invariant, of a
  quantity the queue broker conserves, and the contract of validators in three strengths (it only adds
  messages, it reports what it refuses, it refuses exactly what it reports); each is interpreted on the
  definitions of the model.

  \<^bold>\<open>What the lemmas show.\<close> For the storages: reachable states are well formed, a value put is the value
  read, failed operations change nothing that can be observed, listing page by page is complete and
  ends. For R2 also that a multipart read is consistent under concurrent writes and that finished
  uploads stay finished. For the queue: no message is lost or duplicated, the number of attempts is
  bounded, waiting messages have a flush scheduled. For the lock: mutual exclusion in the order of
  arrival. For assets: the binary search agrees with a linear one and exactly the walked files are
  served. For Pages: the generated rules are valid and send every request of a function to the worker.
  For the Pages server: the parsers respect their limits, the split into static and dynamic redirects
  keeps the order of the file, redirects stay on the host and end, and a 404 is never cached. For the
  functions of Pages: the order of the routes is the documented precedence, every file's exports are in
  the configuration and imported by the module, and the worker runs the handlers from the outermost
  middleware inwards. For Miniflare's router: the chosen route is the most specific one that matches.
  For the Workers Sites library: a served asset is found in the cache afterwards. For configurations:
  validators agree with schemas, a configuration without errors is well typed and its bindings have
  distinct names, environments inherit what is meant to be inherited, and no error is lost in the
  printed text. For the upload of a site: the manifest has exactly the selected files, what it names is
  in the namespace afterwards, requests stay within the limits of the API, and the uploaders end. For the
  cache: a stored response is what a later match returns until it expires.
  For the range headers, the validators, the rate limiter, the percentages and the splitter: bounds,
  agreement with a reference and round trips. Some theorems record behaviour that differs from what the
  code means to do; the manifest lists them as findings.

  \<^bold>\<open>Bounds.\<close> Loops are total functions with a termination proof, and \<open>while (true)\<close> loops with
  suspensions are steps of a relation. Two definitions take fuel: \<open>worker_next\<close> of \<^verbatim>\<open>FunctionWorker\<close>,
  in which handlers call back, needs as much as there are handlers (\<open>worker_next_fuel\<close>), and the theorem
  about the client that follows redirects (\<open>follow\<close> in \<^verbatim>\<open>PagesProperties\<close>) says how much is enough.
  Lengths and sizes are \<open>nat\<close>; numbers that come from outside are \<open>int\<close> (JavaScript integers below
  \<open>2 ^ 53\<close>), percentages and delays are rational numbers instead of doubles, so rounding of doubles is
  not modelled. The numbers of a configuration are kept as text. White space, letters and upper case are
  those of ASCII. Bytes are \<open>8 word\<close> or \<open>nat\<close> below 256.

  \<^bold>\<open>Parameters.\<close> Code that is not in the repository is an argument: the directory service, the JSON
  codec, the digests, the text of schema errors, \<^verbatim>\<open>localeCompare\<close>, the consumers of a queue, the clock,
  the random numbers, the cache policy (\<^verbatim>\<open>http-cache-semantics\<close>), the URL parser of the platform,
  \<^verbatim>\<open>domainToUnicode\<close>, the functions of the context of the Pages server, the matcher
  \<^verbatim>\<open>path-to-regexp\<close>, the exports that \<^verbatim>\<open>esbuild\<close> reports of a file, the table of MIME types, the
  default cache of a worker, and for configurations the working directory and the platform of the
  process, finding and parsing the file, \<^verbatim>\<open>TOML.stringify\<close> and \<^verbatim>\<open>dedent\<close>; for sites the hash of
  \<^verbatim>\<open>xxhash-wasm\<close>, the matcher of \<^verbatim>\<open>ignore\<close>, the file system and the answers of the API. Hypotheses about them are
  written in the statements.

  \<^bold>\<open>Not modelled.\<close> The D1 simulator and the router and storage classes of Durable
  Objects; fake timers; the schemas that parse requests of R2 and the bytes of its responses; log output.
  The set-up of the runtime (\<^verbatim>\<open>miniflare/src/index.ts\<close>, \<^verbatim>\<open>plugins\<close>, \<^verbatim>\<open>runtime\<close>) is start-up of processes and
  generation of configuration. Of \<^verbatim>\<open>wrangler\<close>, the commands (calls of the Cloudflare API and terminal
  output), printing the bindings of a configuration, \<^verbatim>\<open>.env\<close> files, the dates of TOML and the development
  server. The preservation cache and the early hints of the Pages server. \<^verbatim>\<open>create-cloudflare\<close>,
  \<^verbatim>\<open>vitest-pool-workers\<close>, the playground and the templates.

  \<^bold>\<open>Plan.\<close> Next are the preservation cache and the early hints of the Pages server.
\<close>

end
